(* ===== verification/Prelude.thy ===== *)
theory Prelude
  imports Complex_Main "HOL-Library.Sublist"
begin

text \<open>
  Shared vocabulary of the development: operations on a mutable store that may raise
  (\<open>op\<close>), transactions with rollback, append-only tables as lists, JSON values, and the
  locale \<open>history_relation\<close> whose rules carry every "this operation only ever extends the
  store in such and such a way" proof of the component theories.
\<close>

section \<open>Operations that read and write a state and may raise\<close>

text \<open>
  A method of the program that touches the database is a function from the state before to
  a result and the state after. \<open>Inl e\<close> is the exception \<open>e\<close>; the state that comes with it
  is what the method had written when it raised, which a surrounding transaction may undo.
\<close>

type_synonym ('s, 'e, 'a) op = "'s \<Rightarrow> ('e + 'a) \<times> 's"

definition ret :: "'a \<Rightarrow> ('s, 'e, 'a) op" where
  "ret a s = (Inr a, s)"

definition raise :: "'e \<Rightarrow> ('s, 'e, 'a) op" where
  "raise e s = (Inl e, s)"

definition bind :: "('s, 'e, 'a) op \<Rightarrow> ('a \<Rightarrow> ('s, 'e, 'b) op) \<Rightarrow> ('s, 'e, 'b) op" where
  "bind m f s = (case m s of (Inl e, t) \<Rightarrow> (Inl e, t) | (Inr a, t) \<Rightarrow> f a t)"

definition reading :: "('s \<Rightarrow> 'a) \<Rightarrow> ('s, 'e, 'a) op" where
  "reading f s = (Inr (f s), s)"

definition writing :: "('s \<Rightarrow> 's) \<Rightarrow> ('s, 'e, unit) op" where
  "writing f s = (Inr (), f s)"

definition require :: "bool \<Rightarrow> 'e \<Rightarrow> ('s, 'e, unit) op" where
  "require c e = (if c then ret () else raise e)"

definition when_some :: "'a option \<Rightarrow> ('a \<Rightarrow> ('s, 'e, unit) op) \<Rightarrow> ('s, 'e, unit) op" where
  "when_some x f = (case x of None \<Rightarrow> ret () | Some a \<Rightarrow> f a)"

primrec for_each :: "('x \<Rightarrow> ('s, 'e, unit) op) \<Rightarrow> 'x list \<Rightarrow> ('s, 'e, unit) op" where
  "for_each f [] = ret ()"
| "for_each f (x # xs) = bind (f x) (\<lambda>_. for_each f xs)"

primrec map_each :: "('x \<Rightarrow> ('s, 'e, 'y) op) \<Rightarrow> 'x list \<Rightarrow> ('s, 'e, 'y list) op" where
  "map_each f [] = ret []"
| "map_each f (x # xs) = bind (f x) (\<lambda>y. bind (map_each f xs) (\<lambda>ys. ret (y # ys)))"

text \<open>
  A transaction keeps the writes of a body that returns, and of a body that raises one of
  the \<open>durable\<close> errors; every other error restores the state with \<open>undo before after\<close>.
\<close>

definition transaction ::
    "('e \<Rightarrow> bool) \<Rightarrow> ('s \<Rightarrow> 's \<Rightarrow> 's) \<Rightarrow> ('s, 'e, 'a) op \<Rightarrow> ('s, 'e, 'a) op" where
  "transaction durable undo m s =
     (case m s of
        (Inr a, t) \<Rightarrow> (Inr a, t)
      | (Inl e, t) \<Rightarrow> (Inl e, if durable e then t else undo s t))"

named_theorems op_defs \<open>unfolding the primitive operations on a given state\<close>

declare ret_def [op_defs] raise_def [op_defs] reading_def [op_defs] writing_def [op_defs]

lemma bind_ret [simp]: "bind (ret a) f = f a"
  by (simp add: fun_eq_iff bind_def ret_def)

lemma bind_raise [simp]: "bind (raise e) f = raise e"
  by (simp add: fun_eq_iff bind_def raise_def)

lemma bind_reading [simp]: "bind (reading g) f s = f (g s) s"
  by (simp add: bind_def reading_def)

lemma bind_writing [simp]: "bind (writing g) f s = f () (g s)"
  by (simp add: bind_def writing_def)

lemma bind_require: "bind (require c e) f = (if c then f () else raise e)"
  by (simp add: require_def)

lemma bind_assoc: "bind (bind m f) g = bind m (\<lambda>a. bind (f a) g)"
  by (auto simp: fun_eq_iff bind_def split: prod.splits sum.splits)

lemma bind_InrE:
  assumes "bind m f s = (Inr b, u)"
  obtains a t where "m s = (Inr a, t)" and "f a t = (Inr b, u)"
  using assms by (auto simp: bind_def split: prod.splits sum.splits)

lemma bind_Inr: "m s = (Inr a, t) \<Longrightarrow> bind m f s = f a t"
  by (simp add: bind_def)

lemma bind_Inl: "m s = (Inl e, t) \<Longrightarrow> bind m f s = (Inl e, t)"
  by (simp add: bind_def)

lemma require_InrD: "require c e s = (Inr x, t) \<Longrightarrow> c \<and> t = s"
  by (auto simp: require_def ret_def raise_def split: if_splits)

lemma transaction_Inr:
  "transaction d u m s = (Inr a, t) \<longleftrightarrow> m s = (Inr a, t)"
  by (auto simp: transaction_def split: prod.splits sum.splits)

lemma transaction_Inl:
  "transaction d u m s = (Inl e, t) \<Longrightarrow>
     \<exists>v. m s = (Inl e, v) \<and> t = (if d e then v else u s v)"
  by (auto simp: transaction_def split: prod.splits sum.splits)

section \<open>How operations may change a state\<close>

text \<open>
  \<open>evolves R m\<close>: whatever state the operation starts in, and whether it returns or raises,
  the state it leaves is \<open>R\<close>-related to the state it started in. With \<open>R\<close> a reflexive and
  transitive relation this composes over every construct above, which is what the locale
  provides; the components interpret it with their own relations (append-only growth of the
  ledger, preservation of an invariant, frozen terminal rows).
\<close>

definition evolves :: "('s \<Rightarrow> 's \<Rightarrow> bool) \<Rightarrow> ('s, 'e, 'a) op \<Rightarrow> bool" where
  "evolves R m \<longleftrightarrow> (\<forall>s. R s (snd (m s)))"

lemma evolvesD: "evolves R m \<Longrightarrow> m s = (r, t) \<Longrightarrow> R s t"
  by (metis evolves_def snd_conv)

lemma evolvesI: "(\<And>s r t. m s = (r, t) \<Longrightarrow> R s t) \<Longrightarrow> evolves R m"
  unfolding evolves_def by (metis prod.collapse)

named_theorems evolves_rules \<open>introduction rules for \<open>evolves\<close>\<close>

lemma evolves_if [evolves_rules]:
  "evolves R a \<Longrightarrow> evolves R b \<Longrightarrow> evolves R (if c then a else b)"
  by simp

lemma evolves_case_option [evolves_rules]:
  "evolves R a \<Longrightarrow> (\<And>x. evolves R (f x)) \<Longrightarrow>
     evolves R (case y of None \<Rightarrow> a | Some x \<Rightarrow> f x)"
  by (simp split: option.split)

lemma evolves_case_prod [evolves_rules]:
  "(\<And>x y. evolves R (f x y)) \<Longrightarrow> evolves R (case p of (x, y) \<Rightarrow> f x y)"
  by (simp split: prod.split)

lemma evolves_let [evolves_rules]:
  "evolves R (f e) \<Longrightarrow> evolves R (let x = e in f x)"
  by simp

locale history_relation =
  fixes rel :: "'s \<Rightarrow> 's \<Rightarrow> bool"
  assumes rel_refl: "rel s s"
    and rel_trans: "rel s t \<Longrightarrow> rel t u \<Longrightarrow> rel s u"
begin

lemma evolves_ret [evolves_rules]: "evolves rel (ret a)"
  by (simp add: evolves_def ret_def rel_refl)

lemma evolves_raise [evolves_rules]: "evolves rel (raise e)"
  by (simp add: evolves_def raise_def rel_refl)

lemma evolves_reading [evolves_rules]: "evolves rel (reading f)"
  by (simp add: evolves_def reading_def rel_refl)

lemma evolves_writing: "(\<And>s. rel s (f s)) \<Longrightarrow> evolves rel (writing f)"
  by (simp add: evolves_def writing_def)

lemma evolves_require [evolves_rules]: "evolves rel (require c e)"
  by (simp add: require_def evolves_ret evolves_raise)

lemma evolves_bind [evolves_rules]:
  assumes "evolves rel m" and "\<And>a. evolves rel (f a)"
  shows "evolves rel (bind m f)"
proof (rule evolvesI)
  fix s r t
  assume run: "bind m f s = (r, t)"
  obtain q u where q: "m s = (q, u)" by fastforce
  have su: "rel s u" using evolvesD [OF assms(1) q] .
  show "rel s t"
  proof (cases q)
    case (Inl e)
    with q run su show ?thesis by (simp add: bind_def)
  next
    case (Inr a)
    with q run have "f a u = (r, t)" by (simp add: bind_def)
    from evolvesD [OF assms(2) this] su show ?thesis by (blast intro: rel_trans)
  qed
qed

lemma evolves_when_some [evolves_rules]:
  "(\<And>a. evolves rel (f a)) \<Longrightarrow> evolves rel (when_some x f)"
  by (simp add: when_some_def evolves_ret split: option.split)

lemma evolves_for_each [evolves_rules]:
  "(\<And>x. evolves rel (f x)) \<Longrightarrow> evolves rel (for_each f xs)"
  by (induction xs) (auto intro: evolves_ret evolves_bind)

lemma evolves_map_each [evolves_rules]:
  "(\<And>x. evolves rel (f x)) \<Longrightarrow> evolves rel (map_each f xs)"
  by (induction xs) (auto intro!: evolves_ret evolves_bind)

lemma evolves_transaction:
  assumes "evolves rel m" and "\<And>s t. rel s t \<Longrightarrow> rel s (undo s t)"
  shows "evolves rel (transaction d undo m)"
  using assms
  by (auto simp: evolves_def transaction_def split: prod.splits sum.splits)
     (metis snd_conv)+

end

text \<open>Preserving an invariant is one such relation.\<close>

definition keeps :: "('s \<Rightarrow> bool) \<Rightarrow> 's \<Rightarrow> 's \<Rightarrow> bool" where
  "keeps I s t \<longleftrightarrow> (I s \<longrightarrow> I t)"

lemma keeps_refl: "keeps I s s"
  by (simp add: keeps_def)

lemma keeps_trans: "keeps I s t \<Longrightarrow> keeps I t u \<Longrightarrow> keeps I s u"
  by (simp add: keeps_def)

section \<open>Tables\<close>

text \<open>
  A table is the list of its rows in insertion (rowid) order. \<open>insert_row\<close> refuses a row
  that clashes with an existing one on a primary key or unique constraint.
\<close>

definition insert_row :: "('r \<Rightarrow> 'r \<Rightarrow> bool) \<Rightarrow> 'r \<Rightarrow> 'r list \<Rightarrow> 'r list option" where
  "insert_row clash r rows = (if list_ex (clash r) rows then None else Some (rows @ [r]))"

text \<open>\<open>AUTOINCREMENT\<close>, or \<open>COALESCE(MAX(sequence), 0) + 1\<close>, over rows that are never deleted.\<close>

definition next_sequence :: "('r \<Rightarrow> nat) \<Rightarrow> 'r list \<Rightarrow> nat" where
  "next_sequence f rows = Suc (fold max (map f rows) 0)"

definition find_last :: "('r \<Rightarrow> bool) \<Rightarrow> 'r list \<Rightarrow> 'r option" where
  "find_last p rows = find p (rev rows)"

lemma insert_row_Some:
  "insert_row clash r rows = Some rows' \<longleftrightarrow> \<not> list_ex (clash r) rows \<and> rows' = rows @ [r]"
  by (auto simp: insert_row_def)

lemma fold_max_ge: "m \<le> fold max xs (m::nat)"
  by (induction xs arbitrary: m) (auto intro: order_trans max.cobounded2)

lemma fold_max_mem: "x \<in> set xs \<Longrightarrow> x \<le> fold max xs (m::nat)"
  by (induction xs arbitrary: m)
     (auto intro: order_trans [OF _ fold_max_ge])

lemma next_sequence_greater: "r \<in> set rows \<Longrightarrow> f r < next_sequence f rows"
  by (simp add: next_sequence_def less_Suc_eq_le fold_max_mem)

lemma find_Some_mem: "find p xs = Some x \<Longrightarrow> x \<in> set xs \<and> p x"
  by (auto simp: find_Some_iff)

lemma find_None: "find p xs = None \<longleftrightarrow> (\<forall>x \<in> set xs. \<not> p x)"
  by (auto simp: find_None_iff)

lemma find_append: "find p (xs @ ys) = (case find p xs of None \<Rightarrow> find p ys | Some x \<Rightarrow> Some x)"
  by (induction xs) auto

lemma find_append_Some [simp]: "find p xs = Some x \<Longrightarrow> find p (xs @ ys) = Some x"
  by (simp add: find_append)

lemma find_last_Some_mem: "find_last p xs = Some x \<Longrightarrow> x \<in> set xs \<and> p x"
  by (auto simp: find_last_def dest: find_Some_mem)

lemma find_last_None: "find_last p xs = None \<longleftrightarrow> (\<forall>x \<in> set xs. \<not> p x)"
  by (simp add: find_last_def find_None)

lemma find_last_snoc [simp]:
  "find_last p (xs @ [x]) = (if p x then Some x else find_last p xs)"
  by (simp add: find_last_def)

lemma find_last_Nil [simp]: "find_last p [] = None"
  by (simp add: find_last_def)

lemma find_prefix: "prefix xs ys \<Longrightarrow> find p xs = Some x \<Longrightarrow> find p ys = Some x"
  by (auto simp: prefix_def)

lemma prefix_set: "prefix xs ys \<Longrightarrow> set xs \<subseteq> set ys"
  by (auto simp: prefix_def)

lemma prefix_filter: "prefix xs ys \<Longrightarrow> prefix (filter p xs) (filter p ys)"
  by (auto simp: prefix_def)

text \<open>Two tables with the same keys and the same second column agree row by row.\<close>

lemma map_eq_row:
  assumes "map f xs = map g ys" "map f' xs = map g' ys" "x \<in> set xs"
  shows "\<exists>y \<in> set ys. f x = g y \<and> f' x = g' y"
proof -
  obtain i where i: "i < length xs" "x = xs ! i"
    using assms(3) by (auto simp: in_set_conv_nth)
  moreover have "length xs = length ys" using assms(1) by (rule map_eq_imp_length_eq)
  moreover have "f (xs ! i) = g (ys ! i)" "f' (xs ! i) = g' (ys ! i)"
    using i(1) calculation(3) arg_cong [OF assms(1), of "\<lambda>zs. zs ! i"]
      arg_cong [OF assms(2), of "\<lambda>zs. zs ! i"] by simp_all
  ultimately show ?thesis by (metis nth_mem)
qed

section \<open>Texts and first occurrences\<close>

text \<open>\<open>str\<close> of a number that is not negative, and \<open>list(dict.fromkeys(xs))\<close>.\<close>

fun decimal :: "nat \<Rightarrow> string" where
  "decimal n = (if n < 10 then [char_of (48 + n)]
                else decimal (n div 10) @ [char_of (48 + n mod 10)])"

declare decimal.simps [simp del]

fun first_occurrences :: "'a list \<Rightarrow> 'a list" where
  "first_occurrences [] = []"
| "first_occurrences (x # xs) = x # filter (\<lambda>y. y \<noteq> x) (first_occurrences xs)"

lemma set_first_occurrences [simp]: "set (first_occurrences xs) = set xs"
  by (induction xs) auto

lemma distinct_first_occurrences [simp]: "distinct (first_occurrences xs)"
  by (induction xs) auto

lemma first_occurrences_Nil_iff [simp]: "first_occurrences xs = [] \<longleftrightarrow> xs = []"
  by (cases xs) auto

section \<open>JSON values\<close>

text \<open>
  A finite double of the program is the rational number it denotes.
\<close>

datatype json =
    JNull
  | JBool bool
  | JNum rat
  | JStr string
  | JArr "json list"
  | JObj "(string \<times> json) list"

definition json_opt :: "string option \<Rightarrow> json" where
  "json_opt x = (case x of None \<Rightarrow> JNull | Some s \<Rightarrow> JStr s)"

definition json_strs :: "string list \<Rightarrow> json" where
  "json_strs xs = JArr (map JStr xs)"

definition json_int :: "int \<Rightarrow> json" where
  "json_int n = JNum (of_int n)"

lemma json_int_inject [simp]: "json_int a = json_int b \<longleftrightarrow> a = b"
  by (simp add: json_int_def)

end
