(* ===== verification/Regulatory_Types.thy ===== *)
theory Regulatory_Types
  imports Prelude "HOL-Library.Char_ord" "HOL-Library.List_Lexorder"
begin

text \<open>
  The data of the regulatory engine (\<open>platform/src/mineguard/regulatory_v2.py\<close>): reported
  days and submissions, the governed daily value of a metric, the analysis result and the
  rule that turns the collected evidence into a decision, and the surroundings of the
  platform that are not part of the repository (clock, random identifiers, SHA-256 over
  canonical JSON, Pydantic dumps, time-zone data) as the record \<open>platform\<close>.
\<close>

section \<open>Time\<close>

text \<open>
  An instant is the number of microseconds since the epoch in UTC. A reported point in time
  is either a calendar date (a day number) or a local time with its UTC offset, both in
  microseconds, as Python's \<open>date\<close> and aware \<open>datetime\<close>.
\<close>

type_synonym instant = int

datatype moment = CalendarDate int | ZonedTime int int

definition day_micros :: int where
  "day_micros = 86400000000"

fun moment_key :: "moment \<Rightarrow> int" where
  "moment_key (CalendarDate d) = d"
| "moment_key (ZonedTime l off) = l - off"

text \<open>
  The tables store \<open>isoformat()\<close> texts and SQL compares them as text. \<open>iso_key\<close> orders
  moments as their texts are ordered: a date is a proper prefix of the times of that day;
  local times compare before offsets; a positive offset (\<open>+\<close>) precedes a negative one
  (\<open>-\<close>), each by magnitude.
\<close>

fun iso_key :: "moment \<Rightarrow> int list" where
  "iso_key (CalendarDate d) = [d]"
| "iso_key (ZonedTime l off) =
     [l div day_micros, l mod day_micros, (if 0 \<le> off then 0 else 1), \<bar>off\<bar>]"

definition iso_less :: "moment \<Rightarrow> moment \<Rightarrow> bool" where
  "iso_less a b \<longleftrightarrow> iso_key a < iso_key b"

section \<open>Metrics and reported days\<close>

datatype scope = FiveQuantityV2 | TenQuantityV3

datatype metric =
    Ventilation | Electricity | Detonators | Explosives | MineEntryPersons | Production
  | Extraction | Sales | Transport | WashFeed | InvoicedQuantity

definition legacy_metrics :: "metric list" where
  "legacy_metrics =
     [Ventilation, Electricity, Detonators, Explosives, MineEntryPersons, Production]"

definition all_metrics :: "metric list" where
  "all_metrics =
     legacy_metrics @ [Extraction, Sales, Transport, WashFeed, InvoicedQuantity]"

definition additive :: "metric \<Rightarrow> bool" where
  "additive m \<longleftrightarrow> m \<noteq> Ventilation"

definition applicable_metrics :: "scope \<Rightarrow> metric list" where
  "applicable_metrics sc =
     (case sc of FiveQuantityV2 \<Rightarrow> legacy_metrics | TenQuantityV3 \<Rightarrow> all_metrics)"

datatype aggregation = TimeWeightedAverage | SumOfShifts | Snapshot

record shift_values =
  zero_shift :: "rat option"
  eight_shift :: "rat option"
  four_shift :: "rat option"

text \<open>\<open>ShiftWindowMetadata\<close>: the window of one shift and the aggregation of each metric in it.\<close>

record shift_window =
  win_code :: string
  win_start :: instant
  win_end :: instant
  win_aggregation :: "metric \<Rightarrow> aggregation option"

record reported_quantity =
  daily_total :: "rat option"
  daily_aggregation :: "aggregation option"
  shifts :: "shift_values option"

record reported_day =
  day_date :: moment
  day_quantity :: "metric \<Rightarrow> reported_quantity option"
  day_shift_metadata :: "(shift_window \<times> shift_window \<times> shift_window) option"
  day_declared_state :: "string option"
  day_quality :: json

text \<open>\<open>ShiftValues.aggregate\<close>; the sums of doubles are taken exactly.\<close>

definition shift_durations :: "shift_window \<times> shift_window \<times> shift_window \<Rightarrow> rat list" where
  "shift_durations ws = (case ws of (z, e, f) \<Rightarrow>
     map (\<lambda>w. of_int (win_end w - win_start w) / 60000000) [z, e, f])"

definition aggregate_shifts :: "shift_values \<Rightarrow> bool \<Rightarrow> rat list option \<Rightarrow> rat option" where
  "aggregate_shifts v add durations =
     (case (zero_shift v, eight_shift v, four_shift v) of
        (Some a, Some b, Some c) \<Rightarrow>
          (if add then Some (a + b + c)
           else (case durations of
                   None \<Rightarrow> Some ((a + b + c) / 3)
                 | Some ds \<Rightarrow>
                     if sum_list ds \<le> 0 then None
                     else Some (sum_list (map2 (*) [a, b, c] ds) / sum_list ds)))
      | _ \<Rightarrow> None)"

text \<open>
  \<open>_shift_aggregate\<close>: without metadata the metric decides; with metadata the three windows
  must agree, and snapshots define no daily value.
\<close>

definition shift_aggregate :: "reported_day \<Rightarrow> metric \<Rightarrow> reported_quantity \<Rightarrow> rat option" where
  "shift_aggregate d m q =
     (case shifts q of
        None \<Rightarrow> None
      | Some v \<Rightarrow>
          (case day_shift_metadata d of
             None \<Rightarrow> aggregate_shifts v (additive m) None
           | Some (w0, w8, w4) \<Rightarrow>
               (case (win_aggregation w0 m, win_aggregation w8 m, win_aggregation w4 m) of
                  (Some a, Some b, Some c) \<Rightarrow>
                    if a \<noteq> b \<or> b \<noteq> c then None
                    else (case a of
                            Snapshot \<Rightarrow> None
                          | SumOfShifts \<Rightarrow> aggregate_shifts v True None
                          | TimeWeightedAverage \<Rightarrow>
                              aggregate_shifts v False (Some (shift_durations (w0, w8, w4))))
                | _ \<Rightarrow> None)))"

definition effective_reported_value :: "reported_day \<Rightarrow> metric \<Rightarrow> rat option" where
  "effective_reported_value d m =
     (case day_quantity d m of
        None \<Rightarrow> None
      | Some q \<Rightarrow>
          (case daily_total q of Some v \<Rightarrow> Some v | None \<Rightarrow> shift_aggregate d m q))"

section \<open>Submissions\<close>

record comparison_context =
  cc_capacity_band :: string
  cc_mining_method :: string
  cc_shift_system :: string
  cc_coal_type :: string
  cc_operating_regime :: string

record submission =
  s_scope :: scope
  s_submission_id :: string
  s_mine_id :: string
  s_mine_name :: string
  s_timezone :: string
  s_revision :: int
  s_supersedes :: "string option"
  s_period_start :: moment
  s_period_end :: moment
  s_context :: "comparison_context option"
  s_days :: "reported_day list"
  s_provenance :: json

section \<open>Relationships and reference bands\<close>

datatype relationship =
    VentilationPerProduction | ElectricityPerProduction | DetonatorsPerProduction
  | ExplosivesPerProduction | MineEntryPersonsPerProduction
  | VentilationPerExtraction | ElectricityPerExtraction | DetonatorsPerExtraction
  | ExplosivesPerExtraction | MineEntryPersonsPerExtraction
  | ProductionPerExtraction | SalesPerProduction | TransportPerProduction
  | TransportPerSales | WashFeedPerProduction | InvoicedQuantityPerSales

definition legacy_relationships :: "relationship list" where
  "legacy_relationships =
     [VentilationPerProduction, ElectricityPerProduction, DetonatorsPerProduction,
      ExplosivesPerProduction, MineEntryPersonsPerProduction]"

definition ten_relationships :: "relationship list" where
  "ten_relationships =
     [VentilationPerExtraction, ElectricityPerExtraction, DetonatorsPerExtraction,
      ExplosivesPerExtraction, MineEntryPersonsPerExtraction, ProductionPerExtraction,
      SalesPerProduction, TransportPerProduction, TransportPerSales,
      WashFeedPerProduction, InvoicedQuantityPerSales]"

definition applicable_relationships :: "scope \<Rightarrow> relationship list" where
  "applicable_relationships sc =
     (case sc of FiveQuantityV2 \<Rightarrow> legacy_relationships | TenQuantityV3 \<Rightarrow> ten_relationships)"

fun relationship_metrics :: "relationship \<Rightarrow> metric \<times> metric" where
  "relationship_metrics VentilationPerProduction = (Ventilation, Production)"
| "relationship_metrics ElectricityPerProduction = (Electricity, Production)"
| "relationship_metrics DetonatorsPerProduction = (Detonators, Production)"
| "relationship_metrics ExplosivesPerProduction = (Explosives, Production)"
| "relationship_metrics MineEntryPersonsPerProduction = (MineEntryPersons, Production)"
| "relationship_metrics VentilationPerExtraction = (Ventilation, Extraction)"
| "relationship_metrics ElectricityPerExtraction = (Electricity, Extraction)"
| "relationship_metrics DetonatorsPerExtraction = (Detonators, Extraction)"
| "relationship_metrics ExplosivesPerExtraction = (Explosives, Extraction)"
| "relationship_metrics MineEntryPersonsPerExtraction = (MineEntryPersons, Extraction)"
| "relationship_metrics ProductionPerExtraction = (Production, Extraction)"
| "relationship_metrics SalesPerProduction = (Sales, Production)"
| "relationship_metrics TransportPerProduction = (Transport, Production)"
| "relationship_metrics TransportPerSales = (Transport, Sales)"
| "relationship_metrics WashFeedPerProduction = (WashFeed, Production)"
| "relationship_metrics InvoicedQuantityPerSales = (InvoicedQuantity, Sales)"

datatype band_basis = SameMineHistory | AnonymousPeer | WithinSubmission

record band =
  b_relationship :: relationship
  b_lower :: rat
  b_center :: rat
  b_upper :: rat
  b_sample_count :: nat
  b_mine_count :: "nat option"
  b_basis :: band_basis
  b_group :: "string option"

record history_day =
  h_date :: moment
  h_values :: "(metric \<times> rat option) list"

text \<open>The analysis parameters the modelled rules read.\<close>

record parameters =
  p_minimum_complete_days :: nat
  p_minimum_completeness_ratio :: rat
  p_minimum_reference_samples :: nat
  p_minimum_peer_mines :: nat
  p_observation_absolute_tolerance :: rat
  p_reference_robust_z :: rat
  p_reference_minimum_half_width :: rat
  p_production_epsilon :: rat

definition default_parameters :: parameters where
  "default_parameters =
     \<lparr>p_minimum_complete_days = 7, p_minimum_completeness_ratio = 4 / 5,
      p_minimum_reference_samples = 7, p_minimum_peer_mines = 3,
      p_observation_absolute_tolerance = 1 / 1000000, p_reference_robust_z = 7 / 2,
      p_reference_minimum_half_width = 3 / 20, p_production_epsilon = 1 / 1000000\<rparr>"

section \<open>Signals, evidence and the decision\<close>

datatype decision = NormalCandidate | Risk | InsufficientData

datatype severity = Information | Review | RiskSeverity

record signal =
  sig_code :: string
  sig_severity :: severity
  sig_message :: string

text \<open>The texts of \<open>decision_reasons\<close>, one constructor per literal of the source.\<close>

datatype reason =
    CompleteDaysInsufficient
  | CoverageInsufficient
  | NoAnalyzableData
  | ConsistencyCheckIncomplete
  | LinearReconciliationFailed
  | PartialScopeChecked
  | NoUnexplainedSignal
  | SignalMessage string
  | AlsoInsufficient reason

text \<open>
  What the numerical stages of \<open>analyze_five_quantity\<close> (day preparation, operating states,
  reference bands, L1 reconciliation and MCS search, detectors, advanced evidence layer)
  hand to the decision rule.
\<close>

record evidence =
  e_quality_signals :: "signal list"
  e_relationship_signals :: "signal list"
  e_temporal_signals :: "signal list"
  e_complete_days :: nat
  e_completeness :: rat
  e_any_value :: bool
  e_solver_success :: bool
  e_mcs_complete :: bool
  e_adjustments :: "rat list"
  e_history_bands :: "band list"

record analysis_result =
  r_method_version :: string
  r_decision :: decision
  r_reasons :: "reason list"
  r_insufficient_reasons :: "reason list"
  r_evidence :: evidence
  r_peer_bands :: "band list"
  r_input_sha :: string
  r_configuration_sha :: string
  r_baseline_rule :: string

definition all_signals :: "evidence \<Rightarrow> signal list" where
  "all_signals ev = e_quality_signals ev @ e_relationship_signals ev @ e_temporal_signals ev"

definition risk_signals :: "evidence \<Rightarrow> signal list" where
  "risk_signals ev = filter (\<lambda>x. sig_severity x = RiskSeverity) (all_signals ev)"

definition insufficient_reasons :: "parameters \<Rightarrow> scope \<Rightarrow> evidence \<Rightarrow> reason list" where
  "insufficient_reasons p sc ev =
     (if sc = FiveQuantityV2 \<and> e_complete_days ev < p_minimum_complete_days p
      then [CompleteDaysInsufficient] else []) @
     (if sc = FiveQuantityV2 \<and> e_completeness ev < p_minimum_completeness_ratio p
      then [CoverageInsufficient] else []) @
     (if sc \<noteq> FiveQuantityV2 \<and> \<not> e_any_value ev then [NoAnalyzableData] else []) @
     (if \<not> e_solver_success ev
      then [if sc \<noteq> FiveQuantityV2 then ConsistencyCheckIncomplete else LinearReconciliationFailed]
      else [])"

definition decide :: "parameters \<Rightarrow> scope \<Rightarrow> evidence \<Rightarrow> decision \<times> reason list" where
  "decide p sc ev =
     (let missing = insufficient_reasons p sc ev in
      if risk_signals ev \<noteq> [] then
        (Risk, take 20 (map SignalMessage (first_occurrences (map sig_message (risk_signals ev))))
                 @ map AlsoInsufficient missing)
      else if missing \<noteq> [] then (InsufficientData, missing)
      else (NormalCandidate,
            [if sc \<noteq> FiveQuantityV2 \<and> e_completeness ev < 999999 / 1000000
             then PartialScopeChecked else NoUnexplainedSignal]))"

lemma decide_Risk: "fst (decide p sc ev) = Risk \<longleftrightarrow> risk_signals ev \<noteq> []"
  by (simp add: decide_def Let_def)

lemma decide_Insufficient:
  "fst (decide p sc ev) = InsufficientData \<longleftrightarrow>
     risk_signals ev = [] \<and> insufficient_reasons p sc ev \<noteq> []"
  by (simp add: decide_def Let_def)

lemma decide_Normal:
  "fst (decide p sc ev) = NormalCandidate \<longleftrightarrow>
     risk_signals ev = [] \<and> insufficient_reasons p sc ev = []"
  by (simp add: decide_def Let_def)

lemma decide_reasons_nonempty: "snd (decide p sc ev) \<noteq> []"
  by (auto simp: decide_def Let_def)

section \<open>Responses, acknowledgements and exchanged messages\<close>

datatype direction = Inbound | Outbound

record exchange_message =
  em_message_id :: string
  em_direction :: direction
  em_message_type :: string
  em_mine_id :: string
  em_agent_id :: "string option"
  em_body :: json
  em_exchanged_at :: instant

record finding_response =
  fr_response_id :: string
  fr_finding_id :: string
  fr_mine_id :: string
  fr_reason_category :: string
  fr_explanation :: string
  fr_corrective_action :: "string option"
  fr_correction_planned :: bool
  fr_evidence :: json
  fr_confirmed_by :: string
  fr_confirmed_at :: instant

datatype delivery_status = Stored | Duplicate

record delivery_ack =
  da_ack_id :: string
  da_report_id :: string
  da_mine_id :: string
  da_message_id :: string
  da_cursor :: string
  da_local_record_id :: string
  da_status :: delivery_status
  da_received_at :: instant

datatype category = DataQuality | RelationshipConsistency | TemporalPattern | DataCompleteness

datatype finding_kind = RiskFinding | DataInsufficientFinding

text \<open>\<open>RiskFindingReport\<close> and \<open>AnalysisReport\<close>.\<close>

record finding_report =
  fp_finding_id :: string
  fp_mine_id :: string
  fp_submission_id :: string
  fp_run_id :: string
  fp_kind :: finding_kind
  fp_category :: category
  fp_scope :: scope
  fp_reasons :: "reason list"
  fp_result :: analysis_result
  fp_issued_at :: instant

record analysis_report =
  ar_report_id :: string
  ar_run_id :: string
  ar_submission_id :: string
  ar_mine_id :: string
  ar_outcome :: decision
  ar_finding_ids :: "string list"
  ar_response_required :: bool
  ar_cursor :: string
  ar_result :: analysis_result
  ar_issued_at :: instant

text \<open>\<open>AnalysisReport.validate_outcome\<close>.\<close>

definition report_outcome_valid :: "analysis_report \<Rightarrow> bool" where
  "report_outcome_valid r \<longleftrightarrow>
     (let is_risk = (ar_outcome r = Risk) in
      ar_response_required r = is_risk \<and> is_risk = (ar_finding_ids r \<noteq> []))"

section \<open>The surroundings of the platform\<close>

text \<open>
  \<open>digest\<close> is SHA-256 of the canonical JSON text, \<open>text_digest\<close> of a plain text; \<open>uuid4 n\<close> is
  the \<open>n\<close>-th random identifier drawn and \<open>clock n\<close> the \<open>n\<close>-th reading of the clock; \<open>stamp\<close>
  and \<open>iso\<close> are \<open>isoformat\<close>; \<open>local_day\<close> the calendar day of an instant in a named time zone;
  the \<open>dump\<close> functions are Pydantic's \<open>model_dump\<close> (\<open>dump_response_request\<close> leaves out the
  response id). \<open>collect_evidence\<close> stands for the
  numerical stages of the analysis, which the ledger only passes data to.
\<close>

record platform =
  digest :: "json \<Rightarrow> string"
  text_digest :: "string \<Rightarrow> string"
  uuid4 :: "nat \<Rightarrow> string"
  uuid5 :: "string \<Rightarrow> string"
  clock :: "nat \<Rightarrow> instant"
  stamp :: "instant \<Rightarrow> string"
  iso :: "moment \<Rightarrow> string"
  local_day :: "string \<Rightarrow> instant \<Rightarrow> int"
  dump_context :: "comparison_context \<Rightarrow> json"
  dump_submission :: "submission \<Rightarrow> json"
  dump_result :: "analysis_result \<Rightarrow> json"
  dump_finding_report :: "finding_report \<Rightarrow> json"
  dump_report :: "analysis_report \<Rightarrow> json"
  dump_response :: "finding_response \<Rightarrow> json"
  dump_response_request :: "finding_response \<Rightarrow> json"
  dump_ack :: "delivery_ack \<Rightarrow> json"
  collect_evidence :: "submission \<Rightarrow> history_day list \<Rightarrow> band list \<Rightarrow> parameters \<Rightarrow> evidence"
  input_digest :: "submission \<Rightarrow> history_day list \<Rightarrow> band list \<Rightarrow> string"
  configuration_digest :: "scope \<Rightarrow> parameters \<Rightarrow> string"

definition comparison_group :: "platform \<Rightarrow> submission \<Rightarrow> string" where
  "comparison_group env sub =
     (case s_context sub of
        Some c \<Rightarrow> take 24 (digest env (dump_context env c))
      | None \<Rightarrow> ''mine-local-'' @ take 24 (digest env (JStr (s_mine_id sub))))"

definition method_version :: "scope \<Rightarrow> string" where
  "method_version sc =
     (if sc = FiveQuantityV2 then ''regulatory-five-quantity-v2.3.0''
      else ''regulatory-ten-quantity-v3.3.0'')"

definition baseline_rule_version :: "scope \<Rightarrow> string" where
  "baseline_rule_version sc =
     (if sc = FiveQuantityV2 then ''baseline-admission-v2.2'' else ''baseline-admission-v3.0'')"

text \<open>The peer bands \<open>analyze_five_quantity\<close> accepts.\<close>

definition accepted_peer_bands ::
    "platform \<Rightarrow> parameters \<Rightarrow> submission \<Rightarrow> band list \<Rightarrow> band list" where
  "accepted_peer_bands env p sub bands =
     filter (\<lambda>b. b_basis b = AnonymousPeer
        \<and> (case b_mine_count b of None \<Rightarrow> False | Some n \<Rightarrow> p_minimum_peer_mines p \<le> n)
        \<and> p_minimum_reference_samples p \<le> b_sample_count b
        \<and> s_context sub \<noteq> None
        \<and> b_group b = Some (comparison_group env sub)
        \<and> b_relationship b \<in> set (applicable_relationships (s_scope sub))) bands"

definition analyze_five_quantity ::
    "platform \<Rightarrow> parameters \<Rightarrow> submission \<Rightarrow> history_day list \<Rightarrow> band list \<Rightarrow> analysis_result" where
  "analyze_five_quantity env p sub history peers =
     (let accepted = accepted_peer_bands env p sub peers;
          ev = collect_evidence env sub history accepted p;
          verdict = decide p (s_scope sub) ev
      in \<lparr>r_method_version = method_version (s_scope sub), r_decision = fst verdict,
          r_reasons = snd verdict,
          r_insufficient_reasons = insufficient_reasons p (s_scope sub) ev,
          r_evidence = ev, r_peer_bands = accepted,
          r_input_sha = input_digest env sub history accepted,
          r_configuration_sha = configuration_digest env (s_scope sub) p,
          r_baseline_rule = baseline_rule_version (s_scope sub)\<rparr>)"

lemma analyze_decision_Risk:
  "r_decision (analyze_five_quantity env p sub hist peers) = Risk \<longleftrightarrow>
     risk_signals (r_evidence (analyze_five_quantity env p sub hist peers)) \<noteq> []"
  by (simp add: analyze_five_quantity_def Let_def decide_Risk)

end
