(* ===== verification/Regulatory_Ledger.thy ===== *)
theory Regulatory_Ledger
  imports Regulatory_Types
begin

text \<open>
  The append-only ledger of \<open>RegulatoryV2Store\<close>
  (\<open>platform/src/mineguard/regulatory_v2_store.py\<close>): its tables, the transaction wrapper, the
  hash-chained audit log and the helpers that append one row. The relation \<open>extends\<close> says that
  every immutable table has only grown at its end; it interprets \<open>history_relation\<close>, and each
  helper is proved to evolve the ledger within it.
\<close>

section \<open>Rows\<close>

record binding_row =
  bnd_agent :: string
  bnd_mine :: string
  bnd_created_at :: instant

record nonce_row =
  non_sender :: string
  non_nonce :: string
  non_request_time :: instant
  non_expires_at :: instant

datatype result_kind = SubmissionResult | ResponseBatchResult | DeliveryAckResult

record inbox_row =
  ibx_sender :: string
  ibx_key :: string
  ibx_message_id :: string
  ibx_message_type :: string
  ibx_mine :: string
  ibx_body_sha :: string
  ibx_kind :: result_kind
  ibx_result :: string
  ibx_recorded_at :: instant

record submission_row =
  sub_id :: string
  sub_mine :: string
  sub_name :: string
  sub_revision :: int
  sub_supersedes :: "string option"
  sub_span :: "moment \<times> moment"
  sub_root :: string
  sub_period_start :: moment
  sub_period_end :: moment
  sub_group :: string
  sub_key :: string
  sub_payload :: submission
  sub_sha :: string
  sub_received_at :: instant

record daily_row =
  dly_submission :: string
  dly_date :: moment
  dly_values :: "(metric \<times> rat option) list"
  dly_json :: json
  dly_sha :: string

record run_row =
  run_id :: string
  run_submission :: string
  run_mine :: string
  run_method :: string
  run_decision :: decision
  run_result :: analysis_result
  run_sha :: string
  run_input_sha :: string
  run_configuration_sha :: string
  run_started_at :: instant
  run_completed_at :: instant

record admission_row =
  adm_id :: string
  adm_run :: string
  adm_submission :: string
  adm_mine :: string
  adm_eligible :: bool
  adm_reference_candidate :: bool
  adm_rule :: string
  adm_reasons :: json
  adm_sha :: string
  adm_recorded_at :: instant

record cohort_member =
  mem_token :: string
  mem_ratios :: "(string \<times> rat \<times> nat) list"

record snapshot_row =
  snp_id :: string
  snp_group :: string
  snp_cutoff :: moment
  snp_members :: "cohort_member list"
  snp_json :: json
  snp_sha :: string
  snp_mine_count :: nat
  snp_created_at :: instant

record finding_row =
  fnd_id :: string
  fnd_submission :: string
  fnd_run :: string
  fnd_mine :: string
  fnd_kind :: finding_kind
  fnd_category :: category
  fnd_report :: finding_report
  fnd_sha :: string
  fnd_issued_at :: instant

record report_row =
  rep_id :: string
  rep_run :: string
  rep_submission :: string
  rep_mine :: string
  rep_outcome :: decision
  rep_report :: analysis_report
  rep_sha :: string
  rep_issued_at :: instant

datatype finding_event_type = Issued | DeliveryAcknowledged | ExplanationRecorded | ResolvedByRevision

record event_row =
  evt_sequence :: nat
  evt_id :: string
  evt_finding :: string
  evt_type :: finding_event_type
  evt_resolving :: "string option"
  evt_payload :: json
  evt_at :: instant

record batch_row =
  bat_wire_id :: string
  bat_report :: string
  bat_mine :: string
  bat_request :: json
  bat_sha :: string
  bat_recorded_at :: instant

record response_row =
  rsp_id :: string
  rsp_finding :: string
  rsp_mine :: string
  rsp_wire :: "string option"
  rsp_response :: finding_response
  rsp_sha :: string
  rsp_recorded_at :: instant

record ack_row =
  ack_id :: string
  ack_report :: string
  ack_mine :: string
  ack_message :: string
  ack_body :: delivery_ack
  ack_sha :: string
  ack_recorded_at :: instant

datatype outbox_kind = AnalysisReportAvailable | FindingIssued | ResponseRecorded | FindingResolved

record outbox_row =
  out_sequence :: nat
  out_message_id :: string
  out_mine :: string
  out_kind :: outbox_kind
  out_aggregate :: string
  out_payload :: json
  out_sha :: string
  out_created_at :: instant

record message_row =
  msg_sequence :: nat
  msg_id :: string
  msg_direction :: direction
  msg_type :: string
  msg_mine :: string
  msg_agent :: "string option"
  msg_body :: json
  msg_sha :: string
  msg_exchanged_at :: instant
  msg_recorded_at :: instant

record audit_row =
  aud_sequence :: nat
  aud_event_id :: string
  aud_type :: string
  aud_aggregate_type :: string
  aud_aggregate :: string
  aud_mine :: "string option"
  aud_payload :: json
  aud_at :: instant
  aud_previous :: string
  aud_hash :: string

text \<open>
  The database of the store, with the number of random identifiers and clock readings
  consumed so far and the flag \<open>Connection.in_transaction\<close>.
\<close>

record ledger =
  bindings :: "binding_row list"
  nonces :: "nonce_row list"
  inbox :: "inbox_row list"
  submissions :: "submission_row list"
  daily_facts :: "daily_row list"
  runs :: "run_row list"
  admissions :: "admission_row list"
  snapshots :: "snapshot_row list"
  findings :: "finding_row list"
  reports :: "report_row list"
  finding_events :: "event_row list"
  batches :: "batch_row list"
  responses :: "response_row list"
  acks :: "ack_row list"
  outbox :: "outbox_row list"
  messages :: "message_row list"
  audits :: "audit_row list"
  draws :: nat
  ticks :: nat
  in_tx :: bool

definition empty_ledger :: ledger where
  "empty_ledger =
     \<lparr>bindings = [], nonces = [], inbox = [], submissions = [], daily_facts = [], runs = [],
      admissions = [], snapshots = [], findings = [], reports = [], finding_events = [],
      batches = [], responses = [], acks = [], outbox = [], messages = [], audits = [],
      draws = 0, ticks = 0, in_tx = False\<rparr>"

section \<open>Errors\<close>

text \<open>
  One constructor per \<open>raise\<close> of the store, one for an unhandled constraint violation, and
  \<open>QueryDiverges\<close> for a recursive query that would never end.
\<close>

datatype reg_error =
    MissingIdentity
  | NonceExpiryInvalid
  | AgentOfOtherMine
  | MineOfOtherAgent
  | AgentNotRegistered
  | MessageIdReused
  | DurableIdempotencyConflict
  | KeyOfOtherCommand
  | FuturePeriod
  | EnvelopeNotInbound
  | EnvelopeMineDiffers
  | EnvelopeAgentDiffers
  | KeyUsedWithOtherPayload
  | RevisionWithoutPredecessor
  | PredecessorMissing
  | RevisionCrossesMine
  | RevisionChangesPeriod
  | RevisionNotIncremented
  | PredecessorAlreadyRevised
  | SubmissionRowRefused
  | ReceiptNotFound
  | ReportOutcomeInvalid
  | ResponseIdReused
  | FindingNotFound
  | FindingOutsideMine
  | BatchSizeInvalid
  | BatchRepeatsFinding
  | BatchCrossesMines
  | ResponseEnvelopeScope
  | WireResponseReused
  | ReportNotInMine
  | FindingNotInReport
  | AckEnvelopeScope
  | AckIdReused
  | DeliveryMessageNotFound
  | EvidenceIncomplete
  | SummaryIncomplete
  | EvidenceEmpty
  | SummaryCountInvalid
  | SummaryWindowInvalid
  | PageInvalid
  | QueryDiverges
  | ConstraintViolation

type_synonym 'a store_op = "(ledger, reg_error, 'a) op"

section \<open>Transactions\<close>

text \<open>
  \<open>_transaction\<close>: a call inside an open transaction joins it; the outer owner commits on
  return and on \<open>_DurableIdempotencyConflict\<close>, and rolls back otherwise. Random draws and
  clock readings are not undone by a rollback.
\<close>

definition roll_back :: "ledger \<Rightarrow> ledger \<Rightarrow> ledger" where
  "roll_back before after = before\<lparr>draws := draws after, ticks := ticks after\<rparr>"

definition durable_error :: "reg_error \<Rightarrow> bool" where
  "durable_error e \<longleftrightarrow> e = DurableIdempotencyConflict"

definition set_in_tx :: "bool \<Rightarrow> ledger \<Rightarrow> ledger" where
  "set_in_tx b s = s\<lparr>in_tx := b\<rparr>"

definition store_transaction :: "'a store_op \<Rightarrow> 'a store_op" where
  "store_transaction m s =
     (if in_tx s then m s
      else apsnd (set_in_tx False)
             (transaction durable_error roll_back m (set_in_tx True s)))"

section \<open>Clock, identifiers, table inserts\<close>

definition now :: "platform \<Rightarrow> instant store_op" where
  "now env s = (Inr (clock env (ticks s)), s\<lparr>ticks := Suc (ticks s)\<rparr>)"

definition draw_uuid :: "platform \<Rightarrow> string store_op" where
  "draw_uuid env s = (Inr (uuid4 env (draws s)), s\<lparr>draws := Suc (draws s)\<rparr>)"

text \<open>
  \<open>add_row\<close> runs one \<open>INSERT\<close>: it appends the row, or raises \<open>e\<close> where a primary key or
  unique constraint refuses it.
\<close>

definition add_row ::
    "(ledger \<Rightarrow> 'r list) \<Rightarrow> (('r list \<Rightarrow> 'r list) \<Rightarrow> ledger \<Rightarrow> ledger) \<Rightarrow>
       ('r \<Rightarrow> 'r \<Rightarrow> bool) \<Rightarrow> reg_error \<Rightarrow> 'r \<Rightarrow> unit store_op" where
  "add_row table update clash e r s =
     (case insert_row clash r (table s) of
        None \<Rightarrow> (Inl e, s)
      | Some rows \<Rightarrow> (Inr (), update (\<lambda>_. rows) s))"

section \<open>The audit chain\<close>

definition zero_hash :: string where
  "zero_hash = replicate 64 CHR ''0''"

definition audit_material ::
    "platform \<Rightarrow> string \<Rightarrow> string \<Rightarrow> string \<Rightarrow> string \<Rightarrow> string option \<Rightarrow> json \<Rightarrow> instant \<Rightarrow> string \<Rightarrow> json" where
  "audit_material env event_id ty agg_ty agg mine payload ts previous =
     JObj [(''event_id'', JStr event_id), (''event_type'', JStr ty),
           (''aggregate_type'', JStr agg_ty), (''aggregate_id'', JStr agg),
           (''mine_id'', json_opt mine), (''payload'', payload),
           (''occurred_at'', JStr (stamp env ts)), (''previous_hash'', JStr previous)]"

definition row_material :: "platform \<Rightarrow> string \<Rightarrow> audit_row \<Rightarrow> json" where
  "row_material env previous r =
     audit_material env (aud_event_id r) (aud_type r) (aud_aggregate_type r) (aud_aggregate r)
       (aud_mine r) (aud_payload r) (aud_at r) previous"

definition audit_head :: "ledger \<Rightarrow> nat \<times> string" where
  "audit_head s =
     (if audits s = [] then (0, zero_hash)
      else (aud_sequence (last (audits s)), aud_hash (last (audits s))))"

definition audit_clash :: "audit_row \<Rightarrow> audit_row \<Rightarrow> bool" where
  "audit_clash a b \<longleftrightarrow> aud_event_id a = aud_event_id b \<or> aud_hash a = aud_hash b"

definition append_audit ::
    "platform \<Rightarrow> string \<Rightarrow> string \<Rightarrow> string \<Rightarrow> string option \<Rightarrow> json \<Rightarrow> instant \<Rightarrow> unit store_op" where
  "append_audit env ty agg_ty agg mine payload ts =
     bind (reading (\<lambda>s. snd (audit_head s))) (\<lambda>previous.
     bind (draw_uuid env) (\<lambda>event_id.
     bind (reading (\<lambda>s. next_sequence aud_sequence (audits s))) (\<lambda>sequence.
     add_row audits audits_update audit_clash ConstraintViolation
       \<lparr>aud_sequence = sequence, aud_event_id = event_id, aud_type = ty,
        aud_aggregate_type = agg_ty, aud_aggregate = agg, aud_mine = mine,
        aud_payload = payload, aud_at = ts, aud_previous = previous,
        aud_hash = digest env
          (audit_material env event_id ty agg_ty agg mine payload ts previous)\<rparr>)))"

text \<open>\<open>_verify_audit_chain_locked\<close>.\<close>

fun chain_valid :: "platform \<Rightarrow> string \<Rightarrow> audit_row list \<Rightarrow> bool" where
  "chain_valid env previous [] = True"
| "chain_valid env previous (r # rs) =
     (aud_previous r = previous \<and> aud_hash r = digest env (row_material env previous r)
        \<and> chain_valid env (aud_hash r) rs)"

definition verify_audit_chain :: "platform \<Rightarrow> ledger \<Rightarrow> bool" where
  "verify_audit_chain env s = chain_valid env zero_hash (audits s)"

section \<open>Finding events and outbox\<close>

definition event_clash :: "event_row \<Rightarrow> event_row \<Rightarrow> bool" where
  "event_clash a b \<longleftrightarrow> evt_id a = evt_id b"

text \<open>
  \<open>_append_finding_event\<close>. The \<open>resolving_submission_id\<close> of the payload, which the read side
  parses back, is kept beside it.
\<close>

definition append_finding_event ::
    "platform \<Rightarrow> string \<Rightarrow> finding_event_type \<Rightarrow> string option \<Rightarrow> json \<Rightarrow> instant \<Rightarrow> unit store_op" where
  "append_finding_event env finding ty resolving payload ts =
     bind (draw_uuid env) (\<lambda>event_id.
     bind (reading (\<lambda>s. next_sequence evt_sequence (finding_events s))) (\<lambda>sequence.
     add_row finding_events finding_events_update event_clash ConstraintViolation
       \<lparr>evt_sequence = sequence, evt_id = event_id, evt_finding = finding, evt_type = ty,
        evt_resolving = resolving, evt_payload = payload, evt_at = ts\<rparr>))"

definition outbox_clash :: "outbox_row \<Rightarrow> outbox_row \<Rightarrow> bool" where
  "outbox_clash a b \<longleftrightarrow> out_message_id a = out_message_id b \<or> out_sequence a = out_sequence b"

definition append_outbox ::
    "platform \<Rightarrow> string \<Rightarrow> outbox_kind \<Rightarrow> string \<Rightarrow> json \<Rightarrow> instant \<Rightarrow> nat option \<Rightarrow> unit store_op" where
  "append_outbox env mine kind aggregate payload ts sequence =
     bind (draw_uuid env) (\<lambda>message_id.
     bind (reading (\<lambda>s. case sequence of Some n \<Rightarrow> n
                        | None \<Rightarrow> next_sequence out_sequence (outbox s))) (\<lambda>n.
     add_row outbox outbox_update outbox_clash ConstraintViolation
       \<lparr>out_sequence = n, out_message_id = message_id, out_mine = mine, out_kind = kind,
        out_aggregate = aggregate, out_payload = payload, out_sha = digest env payload,
        out_created_at = ts\<rparr>))"

section \<open>Exchanged messages, inbox commands, bindings\<close>

definition message_clash :: "message_row \<Rightarrow> message_row \<Rightarrow> bool" where
  "message_clash a b \<longleftrightarrow> msg_id a = msg_id b"

text \<open>\<open>_insert_exchange_message\<close>: the stored row, and whether it was already there.\<close>

definition insert_exchange_message ::
    "platform \<Rightarrow> exchange_message \<Rightarrow> instant \<Rightarrow> (message_row \<times> bool) store_op" where
  "insert_exchange_message env m recorded_at =
     bind (reading (\<lambda>s. find (\<lambda>r. msg_id r = em_message_id m) (messages s))) (\<lambda>existing.
     case existing of
       Some row \<Rightarrow>
         if msg_sha row \<noteq> digest env (em_body m) \<or> msg_direction row \<noteq> em_direction m
            \<or> msg_type row \<noteq> em_message_type m \<or> msg_mine row \<noteq> em_mine_id m
            \<or> msg_agent row \<noteq> em_agent_id m \<or> msg_exchanged_at row \<noteq> em_exchanged_at m
         then raise MessageIdReused
         else ret (row, True)
     | None \<Rightarrow>
         bind (reading (\<lambda>s. next_sequence msg_sequence (messages s))) (\<lambda>sequence.
         let row = \<lparr>msg_sequence = sequence, msg_id = em_message_id m,
                    msg_direction = em_direction m, msg_type = em_message_type m,
                    msg_mine = em_mine_id m, msg_agent = em_agent_id m, msg_body = em_body m,
                    msg_sha = digest env (em_body m), msg_exchanged_at = em_exchanged_at m,
                    msg_recorded_at = recorded_at\<rparr>
         in bind (add_row messages messages_update message_clash ConstraintViolation row)
              (\<lambda>_. ret (row, False))))"

definition inbox_clash :: "inbox_row \<Rightarrow> inbox_row \<Rightarrow> bool" where
  "inbox_clash a b \<longleftrightarrow>
     ibx_sender a = ibx_sender b \<and> ibx_key a = ibx_key b \<or> ibx_message_id a = ibx_message_id b"

definition insert_inbox_command :: "inbox_row \<Rightarrow> unit store_op" where
  "insert_inbox_command = add_row inbox inbox_update inbox_clash ConstraintViolation"

text \<open>
  \<open>_find_inbox_command\<close>: the command this sender already ran under the key, provided the
  message is the same; a different message under the key leaves an audit row and raises the
  durable conflict.
\<close>

definition find_inbox_command ::
    "platform \<Rightarrow> string \<Rightarrow> string \<Rightarrow> exchange_message \<Rightarrow> string \<Rightarrow> instant \<Rightarrow> inbox_row option store_op" where
  "find_inbox_command env sender key m mine ts =
     bind (reading (\<lambda>s. find (\<lambda>r. ibx_sender r = sender \<and> ibx_key r = key) (inbox s))) (\<lambda>found.
     case found of
       None \<Rightarrow> ret None
     | Some row \<Rightarrow>
         if ibx_message_id row = em_message_id m \<and> ibx_message_type row = em_message_type m
            \<and> ibx_mine row = mine \<and> ibx_body_sha row = digest env (em_body m)
         then ret (Some row)
         else
           bind (append_audit env ''inbox_idempotency_conflict_rejected'' ''exchange_security'' key
                  (Some mine)
                  (JObj [(''sender_id'', JStr sender),
                         (''message_type'', JStr (em_message_type m)),
                         (''attempted_message_id'', JStr (em_message_id m)),
                         (''attempted_body_sha256'', JStr (digest env (em_body m))),
                         (''original_message_id'', JStr (ibx_message_id row)),
                         (''original_body_sha256'', JStr (ibx_body_sha row))]) ts)
             (\<lambda>_. raise DurableIdempotencyConflict))"

definition assert_agent_mine :: "string \<Rightarrow> string \<Rightarrow> unit store_op" where
  "assert_agent_mine agent mine =
     bind (reading (\<lambda>s. find (\<lambda>r. bnd_agent r = agent) (bindings s))) (\<lambda>found.
     case found of
       None \<Rightarrow> raise AgentNotRegistered
     | Some row \<Rightarrow> require (bnd_mine row = mine) AgentOfOtherMine)"


section \<open>Relations that every write of the store respects\<close>

lemma add_row_cases:
  "add_row tab upd clash e r s =
     (if list_ex (clash r) (tab s) then (Inl e, s)
      else (Inr (), upd (\<lambda>_. tab s @ [r]) s))"
  by (simp add: add_row_def insert_row_def)

lemma add_row_InrD:
  "add_row tab upd clash e r s = (Inr x, t) \<Longrightarrow>
     \<not> list_ex (clash r) (tab s) \<and> t = upd (\<lambda>_. tab s @ [r]) s"
  by (auto simp: add_row_cases split: if_splits)

lemma evolves_add_row:
  assumes "\<And>s. R s s" and "\<And>s. \<not> list_ex (clash r) (tab s) \<Longrightarrow> R s (upd (\<lambda>_. tab s @ [r]) s)"
  shows "evolves R (add_row tab upd clash e r)"
  using assms by (simp add: evolves_def add_row_cases)

text \<open>
  The write footprint of an operation is the set of tables it may append to (for finding
  events, which types of event). A relation on ledgers that allows the clock, the identifier
  source, a rollback and one new row, sealed with the digest of its payload, at the end of
  any table in \<open>allowed\<close> is respected by every operation whose footprint is allowed. The operations are proved to evolve within
  such a relation once, here and in the theories of the commands; the interpretations read
  off what an operation leaves alone (the relation "table X is unchanged", everything but X
  allowed), that the immutable tables only grow, and that the audit chain stays valid.
\<close>

datatype slot =
    BindingSlot | NonceSlot | InboxSlot | SubmissionSlot | DailySlot | RunSlot
  | AdmissionSlot | SnapshotSlot | FindingSlot | ReportSlot | EventSlot finding_event_type
  | BatchSlot | ResponseSlot | AckSlot | OutboxSlot | MessageSlot | AuditSlot

locale ledger_steps = history_relation rel for rel :: "ledger \<Rightarrow> ledger \<Rightarrow> bool" +
  fixes env :: platform and allowed :: "slot \<Rightarrow> bool"
  assumes step_clock: "rel s (s\<lparr>ticks := Suc (ticks s)\<rparr>)"
    and step_draw: "rel s (s\<lparr>draws := Suc (draws s)\<rparr>)"
    and step_roll_back: "rel s t \<Longrightarrow> rel s (roll_back s t)"
    and step_tx: "rel s (set_in_tx b s)"
    and step_nonces: "allowed NonceSlot \<Longrightarrow> rel s (nonces_update f s)"
    and step_binding:
      "allowed BindingSlot \<Longrightarrow> rel s (bindings_update (\<lambda>_. bindings s @ [r1]) s)"
    and step_inbox:
      "allowed InboxSlot \<Longrightarrow> rel s (inbox_update (\<lambda>_. inbox s @ [r2]) s)"
    and step_submission:
      "allowed SubmissionSlot \<Longrightarrow> sub_sha r3 = digest env (dump_submission env (sub_payload r3)) \<Longrightarrow> 
         rel s (submissions_update (\<lambda>_. submissions s @ [r3]) s)"
    and step_daily:
      "allowed DailySlot \<Longrightarrow> dly_sha r4 = digest env (dly_json r4) \<Longrightarrow> 
         rel s (daily_facts_update (\<lambda>_. daily_facts s @ [r4]) s)"
    and step_run:
      "allowed RunSlot \<Longrightarrow> run_sha r5 = digest env (dump_result env (run_result r5)) \<Longrightarrow> 
         rel s (runs_update (\<lambda>_. runs s @ [r5]) s)"
    and step_admission:
      "allowed AdmissionSlot \<Longrightarrow> adm_sha r6 = digest env (adm_reasons r6) \<Longrightarrow> 
         rel s (admissions_update (\<lambda>_. admissions s @ [r6]) s)"
    and step_snapshot:
      "allowed SnapshotSlot \<Longrightarrow> snp_sha r7 = digest env (snp_json r7) \<Longrightarrow> 
         rel s (snapshots_update (\<lambda>_. snapshots s @ [r7]) s)"
    and step_finding:
      "allowed FindingSlot \<Longrightarrow> fnd_sha r8 = digest env (dump_finding_report env (fnd_report r8)) \<Longrightarrow> 
         rel s (findings_update (\<lambda>_. findings s @ [r8]) s)"
    and step_report:
      "allowed ReportSlot \<Longrightarrow> rep_sha r9 = digest env (dump_report env (rep_report r9)) \<Longrightarrow> 
         rel s (reports_update (\<lambda>_. reports s @ [r9]) s)"
    and step_event:
      "allowed (EventSlot (evt_type r10)) \<Longrightarrow> rel s (finding_events_update (\<lambda>_. finding_events s @ [r10]) s)"
    and step_batch:
      "allowed BatchSlot \<Longrightarrow> bat_sha r11 = digest env (bat_request r11) \<Longrightarrow> 
         rel s (batches_update (\<lambda>_. batches s @ [r11]) s)"
    and step_response:
      "allowed ResponseSlot \<Longrightarrow> rsp_sha r12 = digest env (dump_response env (rsp_response r12)) \<Longrightarrow> 
         rel s (responses_update (\<lambda>_. responses s @ [r12]) s)"
    and step_ack:
      "allowed AckSlot \<Longrightarrow> ack_sha r13 = digest env (dump_ack env (ack_body r13)) \<Longrightarrow> 
         rel s (acks_update (\<lambda>_. acks s @ [r13]) s)"
    and step_outbox:
      "allowed OutboxSlot \<Longrightarrow> out_sha r14 = digest env (out_payload r14) \<Longrightarrow> \<not> list_ex (outbox_clash r14) (outbox s) \<Longrightarrow> 
         rel s (outbox_update (\<lambda>_. outbox s @ [r14]) s)"
    and step_message:
      "allowed MessageSlot \<Longrightarrow> msg_sha r15 = digest env (msg_body r15) \<Longrightarrow> 
         rel s (messages_update (\<lambda>_. messages s @ [r15]) s)"
    and step_audit:
      "allowed AuditSlot \<Longrightarrow> evolves rel (append_audit env ty agg_ty agg mine payload ts)"
begin

lemmas append_steps = step_binding step_inbox step_submission step_daily step_run
  step_admission step_snapshot step_finding step_report step_event step_batch step_response
  step_ack step_outbox step_message

lemma evolves_add_rows [evolves_rules]:
  "allowed BindingSlot \<Longrightarrow> evolves rel (add_row bindings bindings_update c1 e r1)"
  "allowed InboxSlot \<Longrightarrow> evolves rel (add_row inbox inbox_update c2 e r2)"
  "allowed SubmissionSlot \<Longrightarrow> sub_sha r3 = digest env (dump_submission env (sub_payload r3)) \<Longrightarrow> 
     evolves rel (add_row submissions submissions_update c3 e r3)"
  "allowed DailySlot \<Longrightarrow> dly_sha r4 = digest env (dly_json r4) \<Longrightarrow> 
     evolves rel (add_row daily_facts daily_facts_update c4 e r4)"
  "allowed RunSlot \<Longrightarrow> run_sha r5 = digest env (dump_result env (run_result r5)) \<Longrightarrow> 
     evolves rel (add_row runs runs_update c5 e r5)"
  "allowed AdmissionSlot \<Longrightarrow> adm_sha r6 = digest env (adm_reasons r6) \<Longrightarrow> 
     evolves rel (add_row admissions admissions_update c6 e r6)"
  "allowed SnapshotSlot \<Longrightarrow> snp_sha r7 = digest env (snp_json r7) \<Longrightarrow> 
     evolves rel (add_row snapshots snapshots_update c7 e r7)"
  "allowed FindingSlot \<Longrightarrow> fnd_sha r8 = digest env (dump_finding_report env (fnd_report r8)) \<Longrightarrow> 
     evolves rel (add_row findings findings_update c8 e r8)"
  "allowed ReportSlot \<Longrightarrow> rep_sha r9 = digest env (dump_report env (rep_report r9)) \<Longrightarrow> 
     evolves rel (add_row reports reports_update c9 e r9)"
  "allowed (EventSlot (evt_type r10)) \<Longrightarrow> evolves rel (add_row finding_events finding_events_update c10 e r10)"
  "allowed BatchSlot \<Longrightarrow> bat_sha r11 = digest env (bat_request r11) \<Longrightarrow> 
     evolves rel (add_row batches batches_update c11 e r11)"
  "allowed ResponseSlot \<Longrightarrow> rsp_sha r12 = digest env (dump_response env (rsp_response r12)) \<Longrightarrow> 
     evolves rel (add_row responses responses_update c12 e r12)"
  "allowed AckSlot \<Longrightarrow> ack_sha r13 = digest env (dump_ack env (ack_body r13)) \<Longrightarrow> 
     evolves rel (add_row acks acks_update c13 e r13)"
  "allowed OutboxSlot \<Longrightarrow> out_sha r14 = digest env (out_payload r14) \<Longrightarrow> 
     evolves rel (add_row outbox outbox_update outbox_clash e r14)"
  "allowed MessageSlot \<Longrightarrow> msg_sha r15 = digest env (msg_body r15) \<Longrightarrow> 
     evolves rel (add_row messages messages_update c15 e r15)"
  by (rule evolves_add_row, rule rel_refl, (erule (2) append_steps | erule (1) append_steps | erule append_steps))+

lemma evolves_primitives [evolves_rules]:
  "evolves rel (now env)" "evolves rel (draw_uuid env)"
  "allowed NonceSlot \<Longrightarrow> evolves rel (writing (nonces_update f))"
  by (simp_all add: evolves_def now_def draw_uuid_def writing_def
        step_clock step_draw step_nonces)

lemmas evolves_append_audit [evolves_rules] = step_audit

lemma evolves_append_finding_event [evolves_rules]:
  "allowed (EventSlot ty) \<Longrightarrow>
     evolves rel (append_finding_event env finding ty res payload ts)"
  unfolding append_finding_event_def by (intro evolves_rules) simp

lemma evolves_append_outbox [evolves_rules]:
  "allowed OutboxSlot \<Longrightarrow>
     evolves rel (append_outbox env mine kind agg payload ts sequence)"
  unfolding append_outbox_def by (intro evolves_rules; simp)

lemma evolves_insert_exchange_message [evolves_rules]:
  "allowed MessageSlot \<Longrightarrow> evolves rel (insert_exchange_message env m ts)"
  unfolding insert_exchange_message_def by (intro evolves_rules; simp)

lemma evolves_insert_inbox_command [evolves_rules]:
  "allowed InboxSlot \<Longrightarrow> evolves rel (insert_inbox_command r)"
  unfolding insert_inbox_command_def by (intro evolves_rules)

lemma evolves_find_inbox_command [evolves_rules]:
  "allowed AuditSlot \<Longrightarrow> evolves rel (find_inbox_command env sender key m mine ts)"
  unfolding find_inbox_command_def by (intro evolves_rules)

lemma evolves_assert_agent_mine [evolves_rules]:
  "evolves rel (assert_agent_mine agent mine)"
  unfolding assert_agent_mine_def by (intro evolves_rules)

lemma evolves_store_transaction [evolves_rules]:
  assumes "evolves rel m"
  shows "evolves rel (store_transaction m)"
proof (rule evolvesI)
  fix s r t
  assume run: "store_transaction m s = (r, t)"
  have tr: "evolves rel (transaction durable_error roll_back m)"
    by (rule evolves_transaction [OF assms]) (erule step_roll_back)
  show "rel s t"
  proof (cases "in_tx s")
    case True
    with run have "m s = (r, t)" by (simp add: store_transaction_def)
    then show ?thesis by (rule evolvesD [OF assms])
  next
    case False
    with run obtain u
      where u: "transaction durable_error roll_back m (set_in_tx True s) = (r, u)"
        and t: "t = set_in_tx False u"
      by (cases "transaction durable_error roll_back m (set_in_tx True s)")
         (auto simp: store_transaction_def)
    have "rel (set_in_tx True s) u" by (rule evolvesD [OF tr u])
    with step_tx show ?thesis unfolding t by (blast intro: rel_trans)
  qed
qed

end

section \<open>Append-only growth\<close>

text \<open>
  Every immutable table of \<open>_IMMUTABLE_TABLES\<close> has only been appended to. The nonce table,
  which expires, is the one table left out.
\<close>

definition extends :: "ledger \<Rightarrow> ledger \<Rightarrow> bool" where
  "extends s t \<longleftrightarrow>
     prefix (bindings s) (bindings t) \<and> prefix (inbox s) (inbox t)
     \<and> prefix (submissions s) (submissions t) \<and> prefix (daily_facts s) (daily_facts t)
     \<and> prefix (runs s) (runs t) \<and> prefix (admissions s) (admissions t)
     \<and> prefix (snapshots s) (snapshots t) \<and> prefix (findings s) (findings t)
     \<and> prefix (reports s) (reports t) \<and> prefix (finding_events s) (finding_events t)
     \<and> prefix (batches s) (batches t) \<and> prefix (responses s) (responses t)
     \<and> prefix (acks s) (acks t) \<and> prefix (outbox s) (outbox t)
     \<and> prefix (messages s) (messages t) \<and> prefix (audits s) (audits t)"

lemma extends_refl: "extends s s"
  by (simp add: extends_def)

lemma extends_trans: "extends s t \<Longrightarrow> extends t u \<Longrightarrow> extends s u"
  unfolding extends_def by (meson prefix_order.trans)

lemma extends_append_audit: "evolves extends (append_audit env ty agg_ty agg mine payload ts)"
proof (rule evolvesI)
  fix s r t
  assume "append_audit env ty agg_ty agg mine payload ts s = (r, t)"
  then show "extends s t"
    by (auto simp: append_audit_def add_row_cases draw_uuid_def bind_def reading_def
          extends_def split: if_splits)
qed

interpretation growth: ledger_steps extends env "\<lambda>_. True" for env
  by unfold_locales
     (fact extends_refl | fact extends_append_audit | erule (1) extends_trans
      | simp add: extends_def roll_back_def set_in_tx_def)+

section \<open>The chain stays valid\<close>

lemma chain_valid_append:
  "chain_valid env p (xs @ ys) \<longleftrightarrow>
     chain_valid env p xs \<and> chain_valid env (if xs = [] then p else aud_hash (last xs)) ys"
  by (induction xs arbitrary: p) auto

text \<open>The chain of the platform \<open>env\<close> is valid after, if it was before.\<close>

definition chain_kept :: "platform \<Rightarrow> ledger \<Rightarrow> ledger \<Rightarrow> bool" where
  "chain_kept env s t \<longleftrightarrow> (verify_audit_chain env s \<longrightarrow> verify_audit_chain env t)"

lemma chain_append_audit:
  "evolves (chain_kept env) (append_audit env ty agg_ty agg mine payload ts)"
proof (rule evolvesI)
  fix s r t
  assume "append_audit env ty agg_ty agg mine payload ts s = (r, t)"
  then show "chain_kept env s t"
    by (auto simp: append_audit_def add_row_cases draw_uuid_def bind_def reading_def
          chain_kept_def verify_audit_chain_def chain_valid_append audit_head_def
          row_material_def split: if_splits)
qed

interpretation chain: ledger_steps "chain_kept env" env "\<lambda>_. True" for env
  by unfold_locales
     (fact chain_append_audit
      | simp add: chain_kept_def verify_audit_chain_def roll_back_def set_in_tx_def)+

end
