(* ===== verification/Regulatory_Analysis_Steps.thy ===== *)
theory Regulatory_Analysis_Steps
  imports Regulatory_Ledger
begin

text \<open>
  The parts of \<open>RegulatoryV2Store.submit_and_analyze\<close> between the arrival of a new submission
  and its report: the revision check, the same-mine history and the frozen anonymous peer
  cohort that feed the analysis, the baseline admission, the findings, the clearing of the
  findings a revision replaces, and the analysis report.
\<close>

section \<open>Revisions\<close>

text \<open>\<open>_validate_revision\<close>: the predecessor row, or none for a first revision.\<close>

definition validate_revision :: "submission \<Rightarrow> submission_row option store_op" where
  "validate_revision sub =
     (case s_supersedes sub of
        None \<Rightarrow>
          if s_revision sub \<noteq> 1 then raise RevisionWithoutPredecessor else ret None
      | Some pred_id \<Rightarrow>
          bind (reading (\<lambda>s. find (\<lambda>r. sub_id r = pred_id) (submissions s))) (\<lambda>found.
          case found of
            None \<Rightarrow> raise PredecessorMissing
          | Some p \<Rightarrow>
              bind (require (sub_mine p = s_mine_id sub) RevisionCrossesMine) (\<lambda>_.
              bind (require (sub_period_start p = s_period_start sub
                             \<and> sub_period_end p = s_period_end sub) RevisionChangesPeriod) (\<lambda>_.
              bind (require (sub_revision p + 1 = s_revision sub) RevisionNotIncremented) (\<lambda>_.
              bind (reading (\<lambda>s. list_ex (\<lambda>r. sub_supersedes r = Some pred_id) (submissions s)))
                (\<lambda>taken. if taken then raise PredecessorAlreadyRevised else ret (Some p)))))))"

definition submission_clash :: "submission_row \<Rightarrow> submission_row \<Rightarrow> bool" where
  "submission_clash a b \<longleftrightarrow>
     sub_id a = sub_id b \<or> sub_mine a = sub_mine b \<and> sub_key a = sub_key b"

definition make_submission_row ::
    "platform \<Rightarrow> submission \<Rightarrow> string \<Rightarrow> submission_row option \<Rightarrow> instant \<Rightarrow> submission_row" where
  "make_submission_row env sub key predecessor received =
     \<lparr>sub_id = s_submission_id sub, sub_mine = s_mine_id sub, sub_name = s_mine_name sub,
      sub_revision = s_revision sub, sub_supersedes = s_supersedes sub,
      sub_span = (s_period_start sub, s_period_end sub),
      sub_root = (case predecessor of
                    None \<Rightarrow> s_submission_id sub
                  | Some p \<Rightarrow> if sub_root p = '''' then sub_id p else sub_root p),
      sub_period_start = s_period_start sub, sub_period_end = s_period_end sub,
      sub_group = comparison_group env sub, sub_key = key, sub_payload = sub,
      sub_sha = digest env (dump_submission env sub), sub_received_at = received\<rparr>"

text \<open>\<open>_normalized_days\<close> and the daily facts.\<close>

definition normalized_days :: "submission \<Rightarrow> (moment \<times> (metric \<times> rat option) list) list" where
  "normalized_days sub =
     map (\<lambda>d. (day_date d, map (\<lambda>m. (m, effective_reported_value d m)) all_metrics))
       (sort_key (\<lambda>d. moment_key (day_date d)) (s_days sub))"

fun metric_name :: "metric \<Rightarrow> string" where
  "metric_name Ventilation = ''ventilation_m3_min''"
| "metric_name Electricity = ''electricity_kwh''"
| "metric_name Detonators = ''detonators_count''"
| "metric_name Explosives = ''explosives_kg''"
| "metric_name MineEntryPersons = ''mine_entry_persons''"
| "metric_name Production = ''production_t''"
| "metric_name Extraction = ''extraction_t''"
| "metric_name Sales = ''sales_t''"
| "metric_name Transport = ''transport_t''"
| "metric_name WashFeed = ''wash_feed_t''"
| "metric_name InvoicedQuantity = ''invoiced_quantity_t''"

definition json_rat :: "rat option \<Rightarrow> json" where
  "json_rat x = (case x of None \<Rightarrow> JNull | Some v \<Rightarrow> JNum v)"

definition day_json :: "platform \<Rightarrow> moment \<times> (metric \<times> rat option) list \<Rightarrow> json" where
  "day_json env d = JObj ((''date'', JStr (iso env (fst d)))
                          # map (\<lambda>(m, v). (metric_name m, json_rat v)) (snd d))"

definition daily_clash :: "daily_row \<Rightarrow> daily_row \<Rightarrow> bool" where
  "daily_clash a b \<longleftrightarrow> dly_submission a = dly_submission b \<and> dly_date a = dly_date b"

definition insert_daily_facts :: "platform \<Rightarrow> submission \<Rightarrow> unit store_op" where
  "insert_daily_facts env sub =
     for_each (\<lambda>d. add_row daily_facts daily_facts_update daily_clash ConstraintViolation
         \<lparr>dly_submission = s_submission_id sub, dly_date = fst d, dly_values = snd d,
          dly_json = day_json env d, dly_sha = digest env (day_json env d)\<rparr>)
       (normalized_days sub)"

section \<open>History and peers\<close>

definition superseded :: "submission_row list \<Rightarrow> string \<Rightarrow> bool" where
  "superseded rows x = list_ex (\<lambda>r. sub_supersedes r = Some x) rows"

definition scope_glob :: "scope \<Rightarrow> string" where
  "scope_glob sc =
     (case sc of FiveQuantityV2 \<Rightarrow> ''regulatory-five-quantity-v2.''
      | TenQuantityV3 \<Rightarrow> ''regulatory-ten-quantity-v3.'')"

text \<open>
  The join of daily facts with their submission, run and admission, in table order, that the
  history and the peer query share; \<open>GLOB 'x.*'\<close> is a prefix test.
\<close>

definition admitted_facts ::
    "ledger \<Rightarrow> (submission_row \<Rightarrow> bool) \<Rightarrow> (admission_row \<Rightarrow> bool) \<Rightarrow> scope \<Rightarrow>
       (submission_row \<times> daily_row) list" where
  "admitted_facts s want accept sc =
     [(u, d). d \<leftarrow> daily_facts s, u \<leftarrow> submissions s, sub_id u = dly_submission d, want u,
              \<not> superseded (submissions s) (sub_id u),
              r \<leftarrow> runs s, run_submission r = sub_id u, run_decision r = NormalCandidate,
              prefix (scope_glob sc) (run_method r),
              a \<leftarrow> admissions s, adm_run a = run_id r, accept a]"

text \<open>\<open>ORDER BY observed_date DESC\<close>.\<close>

definition newest_first :: "('a \<Rightarrow> moment) \<Rightarrow> 'a list \<Rightarrow> 'a list" where
  "newest_first date xs = rev (sort_key (\<lambda>x. iso_key (date x)) xs)"

definition value_of :: "metric \<Rightarrow> (metric \<times> rat option) list \<Rightarrow> rat option" where
  "value_of m vs = (case map_of vs m of None \<Rightarrow> None | Some v \<Rightarrow> v)"

definition same_mine_history :: "platform \<Rightarrow> submission \<Rightarrow> ledger \<Rightarrow> history_day list" where
  "same_mine_history env sub s =
     (let facts = admitted_facts s
            (\<lambda>u. sub_mine u = s_mine_id sub \<and> sub_group u = comparison_group env sub
                 \<and> sub_id u \<noteq> s_submission_id sub) adm_eligible (s_scope sub);
          days = remdups (map (\<lambda>(u, d). (dly_date d, dly_values d))
                   (filter (\<lambda>(u, d). iso_less (dly_date d) (s_period_start sub)) facts));
          recent = take 365 (newest_first fst days)
      in map (\<lambda>(dt, vs). \<lparr>h_date = dt, h_values = vs\<rparr>)
           (filter (\<lambda>(dt, vs). \<forall>m \<in> set legacy_metrics. value_of m vs \<noteq> None) (rev recent)))"

text \<open>\<open>_median\<close>; every caller passes a non-empty list.\<close>

definition median :: "rat list \<Rightarrow> rat" where
  "median xs =
     (let ordered = sort xs; middle = length ordered div 2 in
      if odd (length ordered) then ordered ! middle
      else (ordered ! (middle - 1) + ordered ! middle) / 2)"

fun relationship_value :: "relationship \<Rightarrow> string" where
  "relationship_value VentilationPerProduction = ''ventilation_per_production''"
| "relationship_value ElectricityPerProduction = ''electricity_per_production''"
| "relationship_value DetonatorsPerProduction = ''detonators_per_production''"
| "relationship_value ExplosivesPerProduction = ''explosives_per_production''"
| "relationship_value MineEntryPersonsPerProduction = ''mine_entry_persons_per_production''"
| "relationship_value VentilationPerExtraction = ''ventilation_per_extraction''"
| "relationship_value ElectricityPerExtraction = ''electricity_per_extraction''"
| "relationship_value DetonatorsPerExtraction = ''detonators_per_extraction''"
| "relationship_value ExplosivesPerExtraction = ''explosives_per_extraction''"
| "relationship_value MineEntryPersonsPerExtraction = ''mine_entry_persons_per_extraction''"
| "relationship_value ProductionPerExtraction = ''production_per_extraction''"
| "relationship_value SalesPerProduction = ''sales_per_production''"
| "relationship_value TransportPerProduction = ''transport_per_production''"
| "relationship_value TransportPerSales = ''transport_per_sales''"
| "relationship_value WashFeedPerProduction = ''wash_feed_per_production''"
| "relationship_value InvoicedQuantityPerSales = ''invoiced_quantity_per_sales''"

text \<open>
  The cohort that is frozen for a comparison group and cutoff: at most 365 newest admitted
  days of every mine, and per mine and relationship the median ratio.
\<close>

definition day_ratio :: "parameters \<Rightarrow> relationship \<Rightarrow> (metric \<times> rat option) list \<Rightarrow> rat option" where
  "day_ratio p rl vs =
     (case relationship_metrics rl of (num, den) \<Rightarrow>
        (case (value_of num vs, value_of den vs) of
           (Some a, Some b) \<Rightarrow> if p_production_epsilon p < b then Some (a / b) else None
         | _ \<Rightarrow> None))"

definition cohort_rows :: "platform \<Rightarrow> submission \<Rightarrow> ledger \<Rightarrow> (string \<times> daily_row) list" where
  "cohort_rows env sub s =
     (let facts = map (\<lambda>(u, d). (sub_mine u, d))
            (filter (\<lambda>(u, d). iso_less (dly_date d) (s_period_start sub))
              (admitted_facts s (\<lambda>u. sub_group u = comparison_group env sub)
                 adm_reference_candidate (s_scope sub)));
          mines = sort (remdups (map fst facts))
      in concat (map (\<lambda>m. take 365 (newest_first (\<lambda>x. dly_date (snd x))
                                     (filter (\<lambda>x. fst x = m) facts))) mines))"

definition peer_token :: "platform \<Rightarrow> string \<Rightarrow> string" where
  "peer_token env mine = text_digest env (''peer-member:'' @ mine)"

definition build_cohort ::
    "platform \<Rightarrow> parameters \<Rightarrow> submission \<Rightarrow> (string \<times> daily_row) list \<Rightarrow> cohort_member list" where
  "build_cohort env p sub rows =
     map (\<lambda>mine.
        \<lparr>mem_token = peer_token env mine,
         mem_ratios =
           [(relationship_value rl, median values, length values).
              rl \<leftarrow> applicable_relationships (s_scope sub),
              values \<leftarrow> [[v. x \<leftarrow> rows, fst x = mine, Some v \<leftarrow> [day_ratio p rl (dly_values (snd x))]]],
              values \<noteq> []]\<rparr>)
       (sort (remdups (map fst rows)))"

definition snapshot_group :: "platform \<Rightarrow> submission \<Rightarrow> string" where
  "snapshot_group env sub =
     (if s_scope sub = TenQuantityV3 then comparison_group env sub @ ''.ten-v3''
      else comparison_group env sub)"

definition scope_name :: "scope \<Rightarrow> string" where
  "scope_name sc =
     (case sc of FiveQuantityV2 \<Rightarrow> ''five_quantity_v2'' | TenQuantityV3 \<Rightarrow> ''ten_quantity_v3'')"

definition cohort_json :: "platform \<Rightarrow> submission \<Rightarrow> cohort_member list \<Rightarrow> json" where
  "cohort_json env sub members =
     JObj [(''schema_version'', JStr ''anonymous-peer-cohort-snapshot-v2''),
           (''comparison_group'', JStr (comparison_group env sub)),
           (''quantity_scope'', JStr (scope_name (s_scope sub))),
           (''cutoff_date'', JStr (iso env (s_period_start sub))),
           (''members'', JArr (map (\<lambda>m. JObj
              [(''mine_token'', JStr (mem_token m)),
               (''ratios'', JObj (map (\<lambda>(k, c, n). (k, JObj [(''center'', JNum c),
                  (''sample_count'', json_int (int n))])) (mem_ratios m)))]) members))]"

definition snapshot_clash :: "snapshot_row \<Rightarrow> snapshot_row \<Rightarrow> bool" where
  "snapshot_clash a b \<longleftrightarrow>
     snp_id a = snp_id b \<or> snp_group a = snp_group b \<and> snp_cutoff a = snp_cutoff b"

text \<open>The first half of \<open>_anonymous_peer_bands\<close>: the frozen cohort, made when it is missing.\<close>

definition frozen_cohort ::
    "platform \<Rightarrow> parameters \<Rightarrow> submission \<Rightarrow> cohort_member list store_op" where
  "frozen_cohort env p sub =
     bind (reading (\<lambda>s. find (\<lambda>r. snp_group r = snapshot_group env sub
                              \<and> snp_cutoff r = s_period_start sub) (snapshots s))) (\<lambda>frozen.
     case frozen of
       Some row \<Rightarrow> ret (snp_members row)
     | None \<Rightarrow>
         bind (reading (\<lambda>s. build_cohort env p sub (cohort_rows env sub s))) (\<lambda>members.
         let snapshot_id = uuid5 env (''mineguard:v2:peer-snapshot:'' @ snapshot_group env sub
                             @ '':'' @ iso env (s_period_start sub)) in
         bind (now env) (\<lambda>created.
         bind (add_row snapshots snapshots_update snapshot_clash ConstraintViolation
                \<lparr>snp_id = snapshot_id, snp_group = snapshot_group env sub,
                 snp_cutoff = s_period_start sub, snp_members = members,
                 snp_json = cohort_json env sub members,
                 snp_sha = digest env (cohort_json env sub members),
                 snp_mine_count = length members, snp_created_at = created\<rparr>) (\<lambda>_.
         bind (append_audit env ''anonymous_peer_snapshot_frozen'' ''peer_reference_snapshot''
                snapshot_id None
                (JObj [(''comparison_group'', JStr (comparison_group env sub)),
                       (''cutoff_date'', JStr (iso env (s_period_start sub))),
                       (''cohort_sha256'', JStr (digest env (cohort_json env sub members))),
                       (''mine_count'', json_int (int (length members))),
                       (''minimum_anonymity'', json_int (int (p_minimum_peer_mines p)))]) created)
           (\<lambda>_. ret members)))))"

text \<open>The second half: the band of each relationship over the other mines of the cohort.\<close>

definition member_sample :: "relationship \<Rightarrow> cohort_member \<Rightarrow> (rat \<times> nat) option" where
  "member_sample rl m =
     (case map_of (mem_ratios m) (relationship_value rl) of
        Some x \<Rightarrow> Some x
      | None \<Rightarrow> if rl = MineEntryPersonsPerProduction
                 then map_of (mem_ratios m) ''labor_per_production'' else None)"

definition peer_band ::
    "platform \<Rightarrow> parameters \<Rightarrow> submission \<Rightarrow> cohort_member list \<Rightarrow> relationship \<Rightarrow> band option" where
  "peer_band env p sub members rl =
     (let others = filter (\<lambda>m. mem_token m \<noteq> peer_token env (s_mine_id sub)) members;
          samples = List.map_filter (member_sample rl) others;
          sample_count = sum_list (map snd samples);
          centers = map fst samples;
          center = median centers;
          mad = median (map (\<lambda>x. \<bar>x - center\<bar>) centers);
          half = max (max (14826 / 10000 * mad * p_reference_robust_z p)
                          (\<bar>center\<bar> * p_reference_minimum_half_width p))
                     (p_observation_absolute_tolerance p)
      in if length samples < p_minimum_peer_mines p then None
         else if sample_count < p_minimum_reference_samples p then None
         else Some \<lparr>b_relationship = rl, b_lower = max 0 (center - half), b_center = center,
                    b_upper = center + half, b_sample_count = sample_count,
                    b_mine_count = Some (length centers), b_basis = AnonymousPeer,
                    b_group = Some (comparison_group env sub)\<rparr>)"

definition anonymous_peer_bands ::
    "platform \<Rightarrow> parameters \<Rightarrow> submission \<Rightarrow> band list store_op" where
  "anonymous_peer_bands env p sub =
     bind (frozen_cohort env p sub) (\<lambda>members.
     ret (List.map_filter (peer_band env p sub members) (applicable_relationships (s_scope sub))))"

end
