(* ===== verification/Regulatory_Findings.thy ===== *)
theory Regulatory_Findings
  imports Regulatory_Analysis_Steps
begin

text \<open>
  What an analysis run leaves in the ledger: the baseline admission, the findings, the
  clearing of the findings of replaced submissions, and the one analysis report
  (\<open>_record_baseline_admission\<close>, \<open>_finding_groups\<close>, \<open>_issue_finding\<close>,
  \<open>_resolve_predecessor_findings\<close>, \<open>_issue_analysis_report\<close> of
  \<open>platform/src/mineguard/regulatory_v2_store.py\<close>), with their write footprints.
\<close>

section \<open>Baseline admission\<close>

definition review_or_risk :: "analysis_result \<Rightarrow> string list" where
  "review_or_risk r =
     map sig_code (filter (\<lambda>x. sig_severity x \<in> {Review, RiskSeverity}) (all_signals (r_evidence r)))"

definition maximum_adjustment :: "analysis_result \<Rightarrow> rat" where
  "maximum_adjustment r =
     (case e_adjustments (r_evidence r) of [] \<Rightarrow> 0 | x # xs \<Rightarrow> fold max xs x)"

definition intrinsic_failures :: "analysis_result \<Rightarrow> string list" where
  "intrinsic_failures r =
     (let ev = r_evidence r in
     (if r_decision r \<noteq> NormalCandidate then [''decision_not_normal_candidate''] else []) @
     (if e_completeness ev < 999999 / 1000000
      then [''calendar_or_metric_coverage_incomplete''] else []) @
     (if e_complete_days ev < 14 then [''fewer_than_14_complete_days''] else []) @
     (if \<not> e_solver_success ev then [''l1_solver_unsuccessful''] else []) @
     (if \<not> e_mcs_complete ev then [''mcs_search_incomplete''] else []) @
     (if 1 / 10 < maximum_adjustment r
      then [''large_normalized_reconciliation_adjustment''] else []) @
     (if review_or_risk r \<noteq> [] then [''review_or_risk_signal_present''] else []))"

definition reference_candidate :: "analysis_result \<Rightarrow> bool" where
  "reference_candidate r \<longleftrightarrow> intrinsic_failures r = []"

definition independent_anchor :: "analysis_result \<Rightarrow> bool" where
  "independent_anchor r \<longleftrightarrow> e_history_bands (r_evidence r) \<noteq> [] \<or> r_peer_bands r \<noteq> []"

definition baseline_eligible :: "analysis_result \<Rightarrow> bool" where
  "baseline_eligible r \<longleftrightarrow> reference_candidate r \<and> independent_anchor r"

definition admission_reasons :: "analysis_result \<Rightarrow> json" where
  "admission_reasons r =
     JObj [(''eligible'', JBool (baseline_eligible r)),
           (''reference_candidate'', JBool (reference_candidate r)),
           (''has_independent_anchor'', JBool (independent_anchor r)),
           (''failed_rules'', json_strs (intrinsic_failures r @
              (if reference_candidate r \<and> \<not> independent_anchor r
               then [''no_independent_history_or_anonymous_peer_anchor''] else []))),
           (''intrinsic_failed_rules'', json_strs (intrinsic_failures r)),
           (''review_or_risk_signal_codes'', json_strs (sort (remdups (review_or_risk r)))),
           (''complete_day_count'', json_int (int (e_complete_days (r_evidence r)))),
           (''completeness_ratio'', JNum (e_completeness (r_evidence r))),
           (''maximum_normalized_adjustment'', JNum (maximum_adjustment r)),
           (''rule_statement'',
            JStr ''normal outcome is retained independently from baseline eligibility'')]"

definition admission_clash :: "admission_row \<Rightarrow> admission_row \<Rightarrow> bool" where
  "admission_clash a b \<longleftrightarrow> adm_id a = adm_id b \<or> adm_run a = adm_run b"

definition make_admission_row ::
    "platform \<Rightarrow> submission \<Rightarrow> string \<Rightarrow> analysis_result \<Rightarrow> instant \<Rightarrow> string \<Rightarrow> admission_row" where
  "make_admission_row env sub run result ts x =
     \<lparr>adm_id = x, adm_run = run, adm_submission = s_submission_id sub,
      adm_mine = s_mine_id sub, adm_eligible = baseline_eligible result,
      adm_reference_candidate = reference_candidate result,
      adm_rule = r_baseline_rule result, adm_reasons = admission_reasons result,
      adm_sha = digest env (admission_reasons result), adm_recorded_at = ts\<rparr>"

definition record_baseline_admission ::
    "platform \<Rightarrow> submission \<Rightarrow> string \<Rightarrow> analysis_result \<Rightarrow> instant \<Rightarrow> unit store_op" where
  "record_baseline_admission env sub run result ts =
     bind (draw_uuid env) (\<lambda>admission_id.
     bind (add_row admissions admissions_update admission_clash ConstraintViolation
            (make_admission_row env sub run result ts admission_id)) (\<lambda>_.
     append_audit env
       (if baseline_eligible result then ''baseline_candidate_admitted''
        else ''baseline_candidate_rejected'')
       ''baseline_admission'' admission_id (Some (s_mine_id sub))
       (JObj [(''run_id'', JStr run), (''submission_id'', JStr (s_submission_id sub)),
              (''eligible'', JBool (baseline_eligible result)),
              (''reference_candidate'', JBool (reference_candidate result)),
              (''reasons_sha256'', JStr (digest env (admission_reasons result))),
              (''rule_version'', JStr (r_baseline_rule result))]) ts))"

lemma make_admission_row_sel [simp]:
  "adm_run (make_admission_row env sub run result ts x) = run"
  "adm_submission (make_admission_row env sub run result ts x) = s_submission_id sub"
  "adm_mine (make_admission_row env sub run result ts x) = s_mine_id sub"
  "adm_eligible (make_admission_row env sub run result ts x) = baseline_eligible result"
  "adm_reference_candidate (make_admission_row env sub run result ts x) = reference_candidate result"
  by (simp_all add: make_admission_row_def)

section \<open>Findings\<close>

definition risk_messages :: "signal list \<Rightarrow> reason list" where
  "risk_messages sigs =
     map SignalMessage (first_occurrences
       (map sig_message (filter (\<lambda>x. sig_severity x = RiskSeverity) sigs)))"

definition finding_groups :: "analysis_result \<Rightarrow> (category \<times> reason list) list" where
  "finding_groups r =
     (if r_decision r = InsufficientData then []
      else
        let ev = r_evidence r;
            groups = filter (\<lambda>g. snd g \<noteq> [])
              [(DataQuality, risk_messages (e_quality_signals ev)),
               (RelationshipConsistency, risk_messages (e_relationship_signals ev)),
               (TemporalPattern, risk_messages (e_temporal_signals ev))]
        in if groups = [] then [(RelationshipConsistency, r_reasons r)] else groups)"

fun category_name :: "category \<Rightarrow> string" where
  "category_name DataQuality = ''data_quality''"
| "category_name RelationshipConsistency = ''relationship_consistency''"
| "category_name TemporalPattern = ''temporal_pattern''"
| "category_name DataCompleteness = ''data_completeness''"

fun kind_name :: "finding_kind \<Rightarrow> string" where
  "kind_name RiskFinding = ''risk''"
| "kind_name DataInsufficientFinding = ''data_insufficient''"

fun decision_name :: "decision \<Rightarrow> string" where
  "decision_name NormalCandidate = ''normal_candidate''"
| "decision_name Risk = ''risk''"
| "decision_name InsufficientData = ''insufficient_data''"

definition finding_clash :: "finding_row \<Rightarrow> finding_row \<Rightarrow> bool" where
  "finding_clash a b \<longleftrightarrow> fnd_id a = fnd_id b"

text \<open>
  \<open>_issue_finding\<close>. The title of the report is a text chosen by category and scope and its
  summary joins the first five reasons; both are functions of the fields kept here.
\<close>

definition make_finding_row ::
    "platform \<Rightarrow> submission \<Rightarrow> string \<Rightarrow> analysis_result \<Rightarrow> category \<Rightarrow> reason list \<Rightarrow> instant \<Rightarrow>
       string \<Rightarrow> finding_row" where
  "make_finding_row env sub run result cat reasons ts finding_id =
     (let kind = (if r_decision result = Risk then RiskFinding else DataInsufficientFinding);
          report = \<lparr>fp_finding_id = finding_id, fp_mine_id = s_mine_id sub,
                    fp_submission_id = s_submission_id sub, fp_run_id = run, fp_kind = kind,
                    fp_category = cat, fp_scope = s_scope sub, fp_reasons = reasons,
                    fp_result = result, fp_issued_at = ts\<rparr>
      in \<lparr>fnd_id = finding_id, fnd_submission = s_submission_id sub, fnd_run = run,
          fnd_mine = s_mine_id sub, fnd_kind = kind, fnd_category = cat, fnd_report = report,
          fnd_sha = digest env (dump_finding_report env report), fnd_issued_at = ts\<rparr>)"

definition finding_facts :: "finding_row \<Rightarrow> (string \<times> json) list" where
  "finding_facts f =
     [(''submission_id'', JStr (fnd_submission f)), (''run_id'', JStr (fnd_run f)),
      (''finding_type'', JStr (kind_name (fnd_kind f))),
      (''category'', JStr (category_name (fnd_category f)))]"

definition issue_finding ::
    "platform \<Rightarrow> submission \<Rightarrow> string \<Rightarrow> analysis_result \<Rightarrow> category \<Rightarrow> reason list \<Rightarrow> instant \<Rightarrow>
       string store_op" where
  "issue_finding env sub run result cat reasons ts =
     bind (draw_uuid env) (\<lambda>finding_id.
     let row = make_finding_row env sub run result cat reasons ts finding_id in
     bind (add_row findings findings_update finding_clash ConstraintViolation row) (\<lambda>_.
     bind (append_finding_event env finding_id Issued None (JObj (finding_facts row)) ts) (\<lambda>_.
     bind (append_audit env ''finding_automatically_issued'' ''finding'' finding_id
            (Some (s_mine_id sub))
            (JObj (finding_facts row @ [(''report_sha256'', JStr (fnd_sha row))])) ts) (\<lambda>_.
     ret finding_id))))"

lemma make_finding_row_sel [simp]:
  "fnd_id (make_finding_row env sub run result cat reasons ts x) = x"
  "fnd_submission (make_finding_row env sub run result cat reasons ts x) = s_submission_id sub"
  "fnd_run (make_finding_row env sub run result cat reasons ts x) = run"
  "fnd_mine (make_finding_row env sub run result cat reasons ts x) = s_mine_id sub"
  "fnd_category (make_finding_row env sub run result cat reasons ts x) = cat"
  "fnd_kind (make_finding_row env sub run result cat reasons ts x) =
     (if r_decision result = Risk then RiskFinding else DataInsufficientFinding)"
  by (simp_all add: make_finding_row_def Let_def)

definition issue_findings ::
    "platform \<Rightarrow> submission \<Rightarrow> string \<Rightarrow> analysis_result \<Rightarrow> instant \<Rightarrow> string list store_op" where
  "issue_findings env sub run result ts =
     map_each (\<lambda>(cat, reasons). issue_finding env sub run result cat reasons ts)
       (finding_groups result)"

section \<open>Clearing the findings of replaced submissions\<close>

text \<open>
  The recursive query \<open>ancestor_submissions\<close>: the submission, its predecessor, the
  predecessor of that, and so on. \<open>None\<close> is a query that never ends.
\<close>

partial_function (option) ancestor_submissions ::
    "submission_row list \<Rightarrow> string \<Rightarrow> string list option" where
  "ancestor_submissions rows x =
     (case find (\<lambda>r. sub_id r = x) rows of
        None \<Rightarrow> Some [x]
      | Some r \<Rightarrow>
          (case sub_supersedes r of
             None \<Rightarrow> Some [x]
           | Some p \<Rightarrow> Option.bind (ancestor_submissions rows p) (\<lambda>c. Some (x # c))))"

declare ancestor_submissions.simps [code]

definition is_resolved :: "event_row list \<Rightarrow> string \<Rightarrow> bool" where
  "is_resolved events f = list_ex (\<lambda>e. evt_finding e = f \<and> evt_type e = ResolvedByRevision) events"

definition unresolved_of :: "string list \<Rightarrow> ledger \<Rightarrow> string list" where
  "unresolved_of chain s =
     map fnd_id (filter (\<lambda>f. fnd_submission f \<in> set chain
                             \<and> \<not> is_resolved (finding_events s) (fnd_id f)) (findings s))"

definition resolve_finding ::
    "platform \<Rightarrow> string \<Rightarrow> string \<Rightarrow> instant \<Rightarrow> string \<Rightarrow> unit store_op" where
  "resolve_finding env resolving mine ts finding_id =
     (let payload = [(''resolving_submission_id'', JStr resolving),
                     (''rule'', JStr ''normal_candidate_revision_reanalysis_only'')]
      in
      bind (append_finding_event env finding_id ResolvedByRevision (Some resolving)
             (JObj payload) ts) (\<lambda>_.
      bind (append_outbox env mine FindingResolved finding_id
             (JObj ((''finding_id'', JStr finding_id) # payload)) ts None) (\<lambda>_.
      append_audit env ''finding_resolved_by_revision_reanalysis'' ''finding'' finding_id
        (Some mine) (JObj payload) ts)))"

definition resolve_predecessor_findings ::
    "platform \<Rightarrow> string \<Rightarrow> string \<Rightarrow> string \<Rightarrow> instant \<Rightarrow> unit store_op" where
  "resolve_predecessor_findings env predecessor resolving mine ts =
     bind (reading (\<lambda>s. ancestor_submissions (submissions s) predecessor)) (\<lambda>found.
     case found of
       None \<Rightarrow> raise QueryDiverges
     | Some chain \<Rightarrow>
         bind (reading (unresolved_of chain))
           (for_each (resolve_finding env resolving mine ts)))"

section \<open>The analysis report\<close>

definition padded :: "nat \<Rightarrow> nat \<Rightarrow> string" where
  "padded width n = replicate (width - length (decimal n)) CHR ''0'' @ decimal n"

definition opaque_delivery_cursor :: "platform \<Rightarrow> string \<Rightarrow> nat \<Rightarrow> string" where
  "opaque_delivery_cursor env mine sequence =
     ''v2.'' @ take 12 (text_digest env mine) @ ''.'' @ padded 20 sequence"

definition report_clash :: "report_row \<Rightarrow> report_row \<Rightarrow> bool" where
  "report_clash a b \<longleftrightarrow> rep_id a = rep_id b \<or> rep_run a = rep_run b"

definition make_report ::
    "platform \<Rightarrow> submission \<Rightarrow> string \<Rightarrow> analysis_result \<Rightarrow> string list \<Rightarrow> instant \<Rightarrow> string \<Rightarrow> nat \<Rightarrow>
       analysis_report" where
  "make_report env sub run result finding_ids ts report_id sequence =
     \<lparr>ar_report_id = report_id, ar_run_id = run,
      ar_submission_id = s_submission_id sub, ar_mine_id = s_mine_id sub,
      ar_outcome = r_decision result, ar_finding_ids = finding_ids,
      ar_response_required = (r_decision result = Risk),
      ar_cursor = opaque_delivery_cursor env (s_mine_id sub) sequence,
      ar_result = result, ar_issued_at = ts\<rparr>"

definition make_report_row :: "platform \<Rightarrow> analysis_report \<Rightarrow> report_row" where
  "make_report_row env r =
     \<lparr>rep_id = ar_report_id r, rep_run = ar_run_id r, rep_submission = ar_submission_id r,
      rep_mine = ar_mine_id r, rep_outcome = ar_outcome r, rep_report = r,
      rep_sha = digest env (dump_report env r), rep_issued_at = ar_issued_at r\<rparr>"

definition issue_analysis_report ::
    "platform \<Rightarrow> submission \<Rightarrow> string \<Rightarrow> analysis_result \<Rightarrow> string list \<Rightarrow> instant \<Rightarrow>
       string store_op" where
  "issue_analysis_report env sub run result finding_ids ts =
     bind (draw_uuid env) (\<lambda>report_id.
     bind (reading (\<lambda>s. next_sequence out_sequence (outbox s))) (\<lambda>sequence.
     let report = make_report env sub run result finding_ids ts report_id sequence in
     bind (require (report_outcome_valid report) ReportOutcomeInvalid) (\<lambda>_.
     bind (add_row reports reports_update report_clash ConstraintViolation
            (make_report_row env report)) (\<lambda>_.
     bind (append_outbox env (s_mine_id sub) AnalysisReportAvailable report_id
            (dump_report env report) ts (Some sequence)) (\<lambda>_.
     bind (append_audit env ''analysis_report_automatically_issued'' ''analysis_report''
            report_id (Some (s_mine_id sub))
            (JObj [(''run_id'', JStr run), (''submission_id'', JStr (s_submission_id sub)),
                   (''outcome'', JStr (decision_name (r_decision result))),
                   (''finding_ids'', json_strs finding_ids),
                   (''report_sha256'', JStr (digest env (dump_report env report))),
                   (''delivery_cursor'', JStr (ar_cursor report))]) ts) (\<lambda>_.
     ret report_id))))))"

lemma make_report_row_sel [simp]:
  "rep_run (make_report_row env r) = ar_run_id r"
  "rep_submission (make_report_row env r) = ar_submission_id r"
  "rep_mine (make_report_row env r) = ar_mine_id r"
  "rep_outcome (make_report_row env r) = ar_outcome r"
  "rep_report (make_report_row env r) = r"
  "rep_id (make_report_row env r) = ar_report_id r"
  by (simp_all add: make_report_row_def)

lemma make_report_sel [simp]:
  "ar_report_id (make_report env sub run result fs ts x n) = x"
  "ar_run_id (make_report env sub run result fs ts x n) = run"
  "ar_submission_id (make_report env sub run result fs ts x n) = s_submission_id sub"
  "ar_mine_id (make_report env sub run result fs ts x n) = s_mine_id sub"
  "ar_outcome (make_report env sub run result fs ts x n) = r_decision result"
  "ar_finding_ids (make_report env sub run result fs ts x n) = fs"
  "ar_response_required (make_report env sub run result fs ts x n) = (r_decision result = Risk)"
  by (simp_all add: make_report_def)

section \<open>Write footprints\<close>

named_theorems sealed_rows \<open>rows carry the digest of their payload\<close>

lemma sealed_findings [sealed_rows]:
  "adm_sha (make_admission_row env sub run result ts x) =
     digest env (adm_reasons (make_admission_row env sub run result ts x))"
  "fnd_sha (make_finding_row env sub run result cat reasons ts x) =
     digest env (dump_finding_report env (fnd_report (make_finding_row env sub run result cat reasons ts x)))"
  "rep_sha (make_report_row env r) = digest env (dump_report env r)"
  "sub_sha (make_submission_row env sub key pre ts) =
     digest env (dump_submission env (sub_payload (make_submission_row env sub key pre ts)))"
  by (simp_all add: make_admission_row_def make_finding_row_def Let_def make_report_row_def
      make_submission_row_def)

context ledger_steps
begin

lemma evolves_validate_revision [evolves_rules]: "evolves rel (validate_revision sub)"
  unfolding validate_revision_def by (intro evolves_rules; simp add: sealed_rows)

lemma evolves_insert_daily_facts [evolves_rules]:
  "allowed DailySlot \<Longrightarrow> evolves rel (insert_daily_facts env sub)"
  unfolding insert_daily_facts_def by (intro evolves_rules; simp add: sealed_rows)

lemma evolves_anonymous_peer_bands [evolves_rules]:
  "allowed SnapshotSlot \<Longrightarrow> allowed AuditSlot \<Longrightarrow> evolves rel (anonymous_peer_bands env p sub)"
  unfolding anonymous_peer_bands_def frozen_cohort_def by (intro evolves_rules; simp add: sealed_rows)

lemma evolves_record_baseline_admission [evolves_rules]:
  "allowed AdmissionSlot \<Longrightarrow> allowed AuditSlot \<Longrightarrow>
     evolves rel (record_baseline_admission env sub run result ts)"
  unfolding record_baseline_admission_def by (intro evolves_rules; simp add: sealed_rows)

lemma evolves_issue_finding [evolves_rules]:
  "allowed FindingSlot \<Longrightarrow> allowed (EventSlot Issued) \<Longrightarrow> allowed AuditSlot \<Longrightarrow>
     evolves rel (issue_finding env sub run result cat reasons ts)"
  unfolding issue_finding_def by (intro evolves_rules; simp add: sealed_rows)

lemma evolves_issue_findings [evolves_rules]:
  "allowed FindingSlot \<Longrightarrow> allowed (EventSlot Issued) \<Longrightarrow> allowed AuditSlot \<Longrightarrow>
     evolves rel (issue_findings env sub run result ts)"
  unfolding issue_findings_def by (intro evolves_rules; simp add: sealed_rows)

lemma evolves_resolve_finding [evolves_rules]:
  "allowed (EventSlot ResolvedByRevision) \<Longrightarrow> allowed OutboxSlot \<Longrightarrow> allowed AuditSlot \<Longrightarrow>
     evolves rel (resolve_finding env resolving mine ts f)"
  unfolding resolve_finding_def by (intro evolves_rules; simp add: sealed_rows)

lemma evolves_resolve_predecessor_findings [evolves_rules]:
  "allowed (EventSlot ResolvedByRevision) \<Longrightarrow> allowed OutboxSlot \<Longrightarrow> allowed AuditSlot \<Longrightarrow>
     evolves rel (resolve_predecessor_findings env pre resolving mine ts)"
  unfolding resolve_predecessor_findings_def by (intro evolves_rules; simp add: sealed_rows)

lemma evolves_issue_analysis_report [evolves_rules]:
  "allowed ReportSlot \<Longrightarrow> allowed OutboxSlot \<Longrightarrow> allowed AuditSlot \<Longrightarrow>
     evolves rel (issue_analysis_report env sub run result fs ts)"
  unfolding issue_analysis_report_def by (intro evolves_rules; simp add: sealed_rows)

end

end
