(* ===== verification/Regulatory_Lineage.thy ===== *)
theory Regulatory_Lineage
  imports Regulatory_Findings
begin

text \<open>
  The lineage of submissions. \<open>revises rows x p\<close> is the edge from a submission to the one it
  supersedes and \<open>strict_ancestor\<close> its transitive closure. Tables built by accepted
  submissions are characterised by \<open>lineage\<close>; over them the recursive query
  \<open>ancestor_submissions\<close> ends and returns exactly the reflexive-transitive closure.
\<close>

definition revises :: "submission_row list \<Rightarrow> string \<Rightarrow> string \<Rightarrow> bool" where
  "revises rows x p \<longleftrightarrow> (\<exists>r \<in> set rows. sub_id r = x \<and> sub_supersedes r = Some p)"

definition strict_ancestor :: "submission_row list \<Rightarrow> string \<Rightarrow> string \<Rightarrow> bool" where
  "strict_ancestor rows x a = (revises rows)\<^sup>+\<^sup>+ x a"

text \<open>What \<open>_validate_revision\<close> and the table constraints ask of a new row.\<close>

definition revision_allowed :: "submission_row list \<Rightarrow> submission_row \<Rightarrow> bool" where
  "revision_allowed rows u \<longleftrightarrow>
     sub_id u \<notin> sub_id ` set rows
     \<and> (case sub_supersedes u of
          None \<Rightarrow> sub_revision u = 1
        | Some x \<Rightarrow> (\<exists>p \<in> set rows. sub_id p = x \<and> sub_mine p = sub_mine u
              \<and> sub_period_start p = sub_period_start u \<and> sub_period_end p = sub_period_end u
              \<and> sub_revision u = sub_revision p + 1)
            \<and> (\<forall>r \<in> set rows. sub_supersedes r \<noteq> Some x))"

inductive lineage :: "submission_row list \<Rightarrow> bool" where
  none: "lineage []"
| accepted: "lineage rows \<Longrightarrow> revision_allowed rows u \<Longrightarrow> lineage (rows @ [u])"

inductive_cases lineage_snocE: "lineage (rows @ [u])"

lemma lineage_distinct: "lineage rows \<Longrightarrow> distinct (map sub_id rows)"
  by (induction rule: lineage.induct) (auto simp: revision_allowed_def)

lemma allowed_fresh: "revision_allowed rows u \<Longrightarrow> sub_id u \<notin> sub_id ` set rows"
  by (simp add: revision_allowed_def)

lemma revises_append:
  "revises (rows @ [u]) x p \<longleftrightarrow> revises rows x p \<or> sub_id u = x \<and> sub_supersedes u = Some p"
  by (auto simp: revises_def)

text \<open>Predecessors are rows of the table, of the same mine and one revision below.\<close>

lemma lineage_predecessor:
  assumes "lineage rows" "u \<in> set rows" "sub_supersedes u = Some x"
  shows "\<exists>p \<in> set rows. sub_id p = x \<and> sub_mine p = sub_mine u \<and> sub_revision u = sub_revision p + 1
    \<and> sub_period_start p = sub_period_start u \<and> sub_period_end p = sub_period_end u"
  using assms
proof (induction rule: lineage.induct)
  case (accepted rows v)
  show ?case
  proof (cases "u = v")
    case True
    with accepted.hyps(2) accepted.prems show ?thesis by (auto simp: revision_allowed_def)
  next
    case False
    with accepted.IH accepted.prems show ?thesis by fastforce
  qed
qed simp

lemma lineage_positive: "lineage rows \<Longrightarrow> \<forall>r \<in> set rows. 1 \<le> sub_revision r"
proof (induction rule: lineage.induct)
  case (accepted rows u)
  then show ?case by (fastforce simp: revision_allowed_def split: option.splits)
qed simp

lemma revises_target: "lineage rows \<Longrightarrow> revises rows x p \<Longrightarrow> p \<in> sub_id ` set rows"
  by (auto simp: revises_def dest: lineage_predecessor)

lemma lineage_linear:
  assumes "lineage rows" "u \<in> set rows" "v \<in> set rows"
    "sub_supersedes u = Some x" "sub_supersedes v = Some x"
  shows "u = v"
  using assms
proof (induction rule: lineage.induct)
  case (accepted rows w)
  have "\<forall>r \<in> set rows. sub_supersedes r \<noteq> Some x" if "sub_supersedes w = Some x"
    using accepted.hyps(2) that by (simp add: revision_allowed_def)
  with accepted show ?case by auto
qed simp

lemma lineage_row_eq:
  assumes "lineage rows" "u \<in> set rows" "v \<in> set rows" "sub_id u = sub_id v"
  shows "u = v"
  using lineage_distinct [OF assms(1)] assms(2-4) by (simp add: distinct_map inj_on_def)

lemma revises_row:
  "lineage rows \<Longrightarrow> r \<in> set rows \<Longrightarrow> revises rows (sub_id r) q \<longleftrightarrow> sub_supersedes r = Some q"
  unfolding revises_def by (blast dest: lineage_row_eq)

lemma strict_ancestor_rows:
  assumes lin: "lineage rows" and anc: "strict_ancestor rows x a"
  shows "\<exists>u \<in> set rows. \<exists>v \<in> set rows. sub_id u = x \<and> sub_id v = a \<and> sub_mine v = sub_mine u
    \<and> sub_revision v < sub_revision u
    \<and> sub_period_start v = sub_period_start u \<and> sub_period_end v = sub_period_end u"
proof -
  have "(revises rows)\<^sup>+\<^sup>+ x a" using anc by (simp add: strict_ancestor_def)
  then show ?thesis
  proof (induction rule: tranclp_induct)
    case (base y)
    then obtain u where u: "u \<in> set rows" "sub_id u = x" "sub_supersedes u = Some y"
      by (auto simp: revises_def)
    from lineage_predecessor [OF lin u(1,3)] u show ?case by force
  next
    case (step y z)
    then obtain u v where uv: "u \<in> set rows" "v \<in> set rows" "sub_id u = x" "sub_id v = y"
      "sub_mine v = sub_mine u" "sub_revision v < sub_revision u"
      "sub_period_start v = sub_period_start u" "sub_period_end v = sub_period_end u" by blast
    from step.hyps(2) obtain v' where v': "v' \<in> set rows" "sub_id v' = y" "sub_supersedes v' = Some z"
      by (auto simp: revises_def)
    have "v' = v" using lineage_row_eq [OF lin v'(1) uv(2)] v'(2) uv(4) by simp
    with lineage_predecessor [OF lin v'(1,3)] uv show ?case by fastforce
  qed
qed

lemma no_cycle: "lineage rows \<Longrightarrow> \<not> strict_ancestor rows x x"
  using strict_ancestor_rows [of rows x x] lineage_row_eq [of rows] by force

text \<open>Adding a row changes no ancestor of an older submission.\<close>

lemma strict_ancestor_append_old:
  assumes lin: "lineage rows" and new: "revision_allowed rows u" and x: "x \<noteq> sub_id u"
  shows "strict_ancestor (rows @ [u]) x a \<longleftrightarrow> strict_ancestor rows x a"
proof
  assume "strict_ancestor (rows @ [u]) x a"
  then have "(revises (rows @ [u]))\<^sup>+\<^sup>+ x a" by (simp add: strict_ancestor_def)
  then have "strict_ancestor rows x a \<and> a \<noteq> sub_id u"
  proof (induction rule: tranclp_induct)
    case (base y)
    then have r: "revises rows x y" using x by (auto simp: revises_append)
    have "y \<noteq> sub_id u" using revises_target [OF lin r] allowed_fresh [OF new] by metis
    with r show ?case by (auto simp: strict_ancestor_def)
  next
    case (step y z)
    then have r: "revises rows y z" by (auto simp: revises_append)
    with step.IH have "strict_ancestor rows x z"
      by (auto simp: strict_ancestor_def)
    moreover have "z \<noteq> sub_id u"
      using revises_target [OF lin r] allowed_fresh [OF new] by metis
    ultimately show ?case ..
  qed
  then show "strict_ancestor rows x a" ..
next
  assume "strict_ancestor rows x a"
  then show "strict_ancestor (rows @ [u]) x a"
    unfolding strict_ancestor_def
    by (induction rule: tranclp_induct)
       (auto simp: revises_append intro: tranclp.r_into_trancl tranclp.trancl_into_trancl)
qed

section \<open>The recursive query\<close>

lemma ancestor_unfold:
  "ancestor_submissions rows x =
     (case find (\<lambda>r. sub_id r = x) rows of
        None \<Rightarrow> Some [x]
      | Some r \<Rightarrow>
          (case sub_supersedes r of
             None \<Rightarrow> Some [x]
           | Some p \<Rightarrow> Option.bind (ancestor_submissions rows p) (\<lambda>c. Some (x # c))))"
  by (rule ancestor_submissions.simps)

lemma find_distinct:
  "distinct (map sub_id rows) \<Longrightarrow> r \<in> set rows \<Longrightarrow> find (\<lambda>q. sub_id q = sub_id r) rows = Some r"
  by (induction rows) force+

lemma rtranclp_one_edge:
  "(\<And>q. R x q \<longleftrightarrow> q = p) \<Longrightarrow> {a. R\<^sup>*\<^sup>* x a} = insert x {a. R\<^sup>*\<^sup>* p a}"
  by (auto elim: converse_rtranclpE intro: converse_rtranclp_into_rtranclp)

lemma rtranclp_no_edge: "(\<And>q. \<not> R x q) \<Longrightarrow> {a. R\<^sup>*\<^sup>* x a} = {x}"
  by (auto elim: converse_rtranclpE)

text \<open>Every query over an accepted table ends, with the submission and all its ancestors.\<close>

lemma ancestor_submissions_row:
  assumes lin: "lineage rows"
  shows "r \<in> set rows \<Longrightarrow>
    \<exists>c. ancestor_submissions rows (sub_id r) = Some c \<and> set c = {a. (revises rows)\<^sup>*\<^sup>* (sub_id r) a}"
proof (induction "nat (sub_revision r)" arbitrary: r rule: less_induct)
  case less
  have f: "find (\<lambda>q. sub_id q = sub_id r) rows = Some r"
    by (rule find_distinct [OF lineage_distinct [OF lin] less.prems])
  have edge: "revises rows (sub_id r) q \<longleftrightarrow> sub_supersedes r = Some q" for q
    by (rule revises_row [OF lin less.prems])
  show ?case
  proof (cases "sub_supersedes r")
    case None
    then have "{a. (revises rows)\<^sup>*\<^sup>* (sub_id r) a} = {sub_id r}"
      by (intro rtranclp_no_edge) (simp add: edge)
    with None show ?thesis by (subst ancestor_unfold) (simp add: f)
  next
    case (Some p)
    from lineage_predecessor [OF lin less.prems Some] obtain q where
      q: "q \<in> set rows" "sub_id q = p" "sub_revision r = sub_revision q + 1" by blast
    have "nat (sub_revision q) < nat (sub_revision r)"
      using q lineage_positive [OF lin] by force
    from less.hyps [OF this q(1)] q(2) obtain c where
      c: "ancestor_submissions rows p = Some c" "set c = {a. (revises rows)\<^sup>*\<^sup>* p a}" by blast
    have "{a. (revises rows)\<^sup>*\<^sup>* (sub_id r) a} = insert (sub_id r) {a. (revises rows)\<^sup>*\<^sup>* p a}"
      by (intro rtranclp_one_edge) (auto simp: edge Some)
    with c Some show ?thesis by (subst ancestor_unfold) (simp add: f)
  qed
qed

lemma ancestor_submissions_exact:
  assumes lin: "lineage rows"
  shows "\<exists>c. ancestor_submissions rows x = Some c \<and> set c = {a. (revises rows)\<^sup>*\<^sup>* x a}"
proof (cases "x \<in> sub_id ` set rows")
  case True
  then show ?thesis using ancestor_submissions_row [OF lin] by blast
next
  case False
  then have "find (\<lambda>r. sub_id r = x) rows = None" by (auto simp: find_None_iff)
  moreover have "{a. (revises rows)\<^sup>*\<^sup>* x a} = {x}"
    using False by (intro rtranclp_no_edge) (auto simp: revises_def)
  ultimately show ?thesis by (subst ancestor_unfold) simp
qed

text \<open>For a revision of \<open>p\<close>, the query started at \<open>p\<close> yields its strict ancestors.\<close>

lemma ancestors_of_revision:
  assumes "lineage (rows @ [u])" "sub_supersedes u = Some p"
  shows "\<exists>c. ancestor_submissions (rows @ [u]) p = Some c
    \<and> set c = {a. strict_ancestor (rows @ [u]) (sub_id u) a}"
proof -
  let ?R = "revises (rows @ [u])"
  have "?R (sub_id u) q \<longleftrightarrow> q = p" for q
    using revises_row [OF assms(1), of u q] assms(2) by auto
  then have "?R\<^sup>+\<^sup>+ (sub_id u) a \<longleftrightarrow> ?R\<^sup>*\<^sup>* p a" for a
    by (metis tranclpD rtranclp_into_tranclp2)
  then show ?thesis
    using ancestor_submissions_exact [OF assms(1), of p] by (simp add: strict_ancestor_def)
qed

end
