(* ===== verification/Regulatory_Commands.thy ===== *)
theory Regulatory_Commands
  imports Regulatory_Findings
begin

text \<open>
  The commands of \<open>RegulatoryV2Store\<close>: nonce admission, agent binding, exchanged messages,
  submission with automatic analysis, enterprise responses (single and batch), delivery
  acknowledgements and authentication-failure evidence. \<open>exec_command\<close> runs one, and
  \<open>exec_request\<close> one alone or several grouped by \<open>controlled_write_scope\<close>.
\<close>

section \<open>Nonces and bindings\<close>

text \<open>\<open>str.strip\<close> of ASCII text.\<close>

definition blank :: "string \<Rightarrow> bool" where
  "blank x \<longleftrightarrow> list_all (\<lambda>c. of_char c \<in> {9, 10, 11, 12, 13, 28, 29, 30, 31, 32 :: nat}) x"

definition nonce_clash :: "nonce_row \<Rightarrow> nonce_row \<Rightarrow> bool" where
  "nonce_clash a b \<longleftrightarrow> non_sender a = non_sender b \<and> non_nonce a = non_nonce b"

definition max_active_nonces :: nat where
  "max_active_nonces = 4096"

definition admit_nonce :: "nonce_row \<Rightarrow> instant \<Rightarrow> bool store_op" where
  "admit_nonce row current =
     bind (writing (nonces_update (filter (\<lambda>r. current < non_expires_at r)))) (\<lambda>_.
     bind (reading (\<lambda>s. length (filter (\<lambda>r. non_sender r = non_sender row) (nonces s)))) (\<lambda>active.
     if max_active_nonces \<le> active then ret False
     else bind (reading (\<lambda>s. insert_row nonce_clash row (nonces s))) (\<lambda>inserted.
          case inserted of
            None \<Rightarrow> ret False
          | Some _ \<Rightarrow> bind (writing (nonces_update (\<lambda>rows. rows @ [row]))) (\<lambda>_. ret True))))"

definition claim_transport_nonce ::
    "platform \<Rightarrow> string \<Rightarrow> string \<Rightarrow> instant \<Rightarrow> instant \<Rightarrow> bool store_op" where
  "claim_transport_nonce env sender nonce requested expiry =
     bind (require (\<not> blank sender \<and> \<not> blank nonce) MissingIdentity) (\<lambda>_.
     bind (now env) (\<lambda>current.
     bind (require (requested < expiry \<and> current < expiry) NonceExpiryInvalid) (\<lambda>_.
     store_transaction
       (admit_nonce \<lparr>non_sender = sender, non_nonce = nonce, non_request_time = requested,
                     non_expires_at = expiry\<rparr> current))))"

definition binding_clash :: "binding_row \<Rightarrow> binding_row \<Rightarrow> bool" where
  "binding_clash a b \<longleftrightarrow> bnd_agent a = bnd_agent b \<or> bnd_mine a = bnd_mine b"

definition bind_agent_to_mine :: "platform \<Rightarrow> string \<Rightarrow> string \<Rightarrow> unit store_op" where
  "bind_agent_to_mine env agent mine =
     bind (require (\<not> blank agent \<and> \<not> blank mine) MissingIdentity) (\<lambda>_.
     bind (now env) (\<lambda>ts.
     store_transaction (
       bind (reading (\<lambda>s. find (\<lambda>r. bnd_agent r = agent) (bindings s))) (\<lambda>existing.
       case existing of
         Some row \<Rightarrow> require (bnd_mine row = mine) AgentOfOtherMine
       | None \<Rightarrow>
           bind (add_row bindings bindings_update binding_clash MineOfOtherAgent
                  \<lparr>bnd_agent = agent, bnd_mine = mine, bnd_created_at = ts\<rparr>) (\<lambda>_.
           append_audit env ''agent_mine_bound'' ''agent_binding'' agent (Some mine)
             (JObj [(''agent_id'', JStr agent), (''mine_id'', JStr mine)]) ts)))))"

section \<open>Exchanged messages\<close>

fun direction_name :: "direction \<Rightarrow> string" where
  "direction_name Inbound = ''inbound''"
| "direction_name Outbound = ''outbound''"

definition record_exchange_message ::
    "platform \<Rightarrow> exchange_message \<Rightarrow> message_row store_op" where
  "record_exchange_message env m =
     bind (now env) (\<lambda>ts.
     store_transaction (
       bind (insert_exchange_message env m ts) (\<lambda>(row, replay).
       bind (if replay then ret ()
             else append_audit env (''exchange_'' @ direction_name (em_direction m) @ ''_recorded'')
                    ''exchange_message'' (em_message_id m) (Some (em_mine_id m))
                    (JObj [(''message_type'', JStr (em_message_type m)),
                           (''direction'', JStr (direction_name (em_direction m))),
                           (''body_sha256'', JStr (msg_sha row))]) ts) (\<lambda>_.
       ret row))))"

text \<open>The inbound envelope of a business command, recorded with its own audit row.\<close>

definition record_inbound ::
    "platform \<Rightarrow> exchange_message \<Rightarrow> string \<Rightarrow> instant \<Rightarrow> unit store_op" where
  "record_inbound env m mine ts =
     bind (insert_exchange_message env m ts) (\<lambda>(row, replay).
     if replay then ret ()
     else append_audit env ''exchange_inbound_recorded'' ''exchange_message'' (em_message_id m)
            (Some mine)
            (JObj [(''message_type'', JStr (em_message_type m)),
                   (''body_sha256'', JStr (msg_sha row))]) ts)"

text \<open>
  The command of an authenticated sender is looked up and remembered only when both the
  sender and the envelope are given.
\<close>

definition claimed_command ::
    "platform \<Rightarrow> string option \<Rightarrow> string \<Rightarrow> exchange_message option \<Rightarrow> string \<Rightarrow> instant \<Rightarrow>
       inbox_row option store_op" where
  "claimed_command env sender key msg mine ts =
     (case (sender, msg) of
        (Some a, Some m) \<Rightarrow> find_inbox_command env a key m mine ts
      | _ \<Rightarrow> ret None)"

definition remember_command ::
    "platform \<Rightarrow> string option \<Rightarrow> string \<Rightarrow> exchange_message option \<Rightarrow> string \<Rightarrow> result_kind \<Rightarrow>
       string \<Rightarrow> instant \<Rightarrow> unit store_op" where
  "remember_command env sender key msg mine kind result ts =
     (case (sender, msg) of
        (Some a, Some m) \<Rightarrow>
          insert_inbox_command
            \<lparr>ibx_sender = a, ibx_key = key, ibx_message_id = em_message_id m,
             ibx_message_type = em_message_type m, ibx_mine = mine,
             ibx_body_sha = digest env (em_body m), ibx_kind = kind, ibx_result = result,
             ibx_recorded_at = ts\<rparr>
      | _ \<Rightarrow> ret ())"

text \<open>Python's \<open>key or default\<close>: an empty key is falsy.\<close>

definition or_default :: "string option \<Rightarrow> string \<Rightarrow> string" where
  "or_default key d = (case key of None \<Rightarrow> d | Some k \<Rightarrow> if k = '''' then d else k)"

section \<open>Submissions\<close>

record submission_receipt =
  rc_submission :: string
  rc_run :: string
  rc_mine :: string
  rc_decision :: decision
  rc_finding :: "string option"
  rc_received_at :: instant
  rc_sha :: string
  rc_replay :: bool

definition first_finding :: "string \<Rightarrow> finding_row list \<Rightarrow> string option" where
  "first_finding run rows =
     (case sort_key fnd_issued_at (sort_key fnd_id (filter (\<lambda>f. fnd_run f = run) rows)) of
        [] \<Rightarrow> None
      | f # _ \<Rightarrow> Some (fnd_id f))"

definition receipt_for_submission :: "string \<Rightarrow> bool \<Rightarrow> submission_receipt store_op" where
  "receipt_for_submission x replay =
     bind (reading (\<lambda>s.
       case (find (\<lambda>r. sub_id r = x) (submissions s), find (\<lambda>r. run_submission r = x) (runs s)) of
         (Some u, Some r) \<Rightarrow>
           Some \<lparr>rc_submission = x, rc_run = run_id r, rc_mine = sub_mine u,
                 rc_decision = run_decision r, rc_finding = first_finding (run_id r) (findings s),
                 rc_received_at = sub_received_at u, rc_sha = sub_sha u, rc_replay = replay\<rparr>
       | _ \<Rightarrow> None)) (\<lambda>found.
     case found of None \<Rightarrow> raise ReceiptNotFound | Some rc \<Rightarrow> ret rc)"

definition future_period :: "platform \<Rightarrow> submission \<Rightarrow> instant \<Rightarrow> bool" where
  "future_period env sub received =
     (case s_period_end sub of
        ZonedTime l off \<Rightarrow> received < l - off
      | CalendarDate d \<Rightarrow> local_day env (s_timezone sub) received < d)"

text \<open>The envelope checks of a submission.\<close>

definition admit_submission_envelope ::
    "platform \<Rightarrow> submission \<Rightarrow> string option \<Rightarrow> instant \<Rightarrow> exchange_message \<Rightarrow> unit store_op" where
  "admit_submission_envelope env sub agent ts m =
     bind (require (em_direction m = Inbound) EnvelopeNotInbound) (\<lambda>_.
     bind (require (em_mine_id m = s_mine_id sub) EnvelopeMineDiffers) (\<lambda>_.
     bind (require (agent = None \<or> em_agent_id m = None \<or> em_agent_id m = agent)
            EnvelopeAgentDiffers) (\<lambda>_.
     record_inbound env m (em_mine_id m) ts)))"

text \<open>The new submission: row, daily facts and audit; returns the predecessor.\<close>

definition receive_submission ::
    "platform \<Rightarrow> submission \<Rightarrow> string \<Rightarrow> instant \<Rightarrow> submission_row option store_op" where
  "receive_submission env sub key ts =
     bind (validate_revision sub) (\<lambda>predecessor.
     bind (require (1 \<le> s_revision sub) SubmissionRowRefused) (\<lambda>_.
     bind (add_row submissions submissions_update submission_clash SubmissionRowRefused
            (make_submission_row env sub key predecessor ts)) (\<lambda>_.
     bind (insert_daily_facts env sub) (\<lambda>_.
     bind (append_audit env ''submission_received'' ''submission'' (s_submission_id sub)
            (Some (s_mine_id sub))
            (JObj [(''payload_sha256'', JStr (digest env (dump_submission env sub))),
                   (''revision'', json_int (s_revision sub)),
                   (''supersedes_submission_id'', json_opt (s_supersedes sub))]) ts) (\<lambda>_.
     ret predecessor)))))"

definition run_clash :: "run_row \<Rightarrow> run_row \<Rightarrow> bool" where
  "run_clash a b \<longleftrightarrow>
     run_id a = run_id b \<or> run_submission a = run_submission b \<and> run_method a = run_method b"

definition make_run_row ::
    "platform \<Rightarrow> submission \<Rightarrow> analysis_result \<Rightarrow> string \<Rightarrow> instant \<Rightarrow> instant \<Rightarrow> run_row" where
  "make_run_row env sub result run started completed =
     \<lparr>run_id = run, run_submission = s_submission_id sub, run_mine = s_mine_id sub,
      run_method = r_method_version result, run_decision = r_decision result,
      run_result = result, run_sha = digest env (dump_result env result),
      run_input_sha = r_input_sha result, run_configuration_sha = r_configuration_sha result,
      run_started_at = started, run_completed_at = completed\<rparr>"

lemma make_run_row_sel [simp]:
  "run_id (make_run_row env sub result run started completed) = run"
  "run_submission (make_run_row env sub result run started completed) = s_submission_id sub"
  "run_mine (make_run_row env sub result run started completed) = s_mine_id sub"
  "run_method (make_run_row env sub result run started completed) = r_method_version result"
  "run_decision (make_run_row env sub result run started completed) = r_decision result"
  "run_result (make_run_row env sub result run started completed) = result"
  by (simp_all add: make_run_row_def)

lemma sealed_run [sealed_rows]:
  "run_sha (make_run_row env sub result run started completed) = digest env (dump_result env result)"
  by (simp add: make_run_row_def)

text \<open>The analysis run: history, peers, result, run row, audit.\<close>

definition run_analysis ::
    "platform \<Rightarrow> parameters \<Rightarrow> submission \<Rightarrow> (string \<times> analysis_result \<times> instant) store_op" where
  "run_analysis env p sub =
     bind (now env) (\<lambda>started.
     bind (reading (same_mine_history env sub)) (\<lambda>history.
     bind (anonymous_peer_bands env p sub) (\<lambda>peers.
     let result = analyze_five_quantity env p sub history peers in
     bind (now env) (\<lambda>completed.
     bind (draw_uuid env) (\<lambda>run.
     bind (add_row runs runs_update run_clash ConstraintViolation
            (make_run_row env sub result run started completed)) (\<lambda>_.
     bind (append_audit env ''analysis_completed'' ''analysis_run'' run (Some (s_mine_id sub))
            (JObj [(''submission_id'', JStr (s_submission_id sub)),
                   (''decision'', JStr (decision_name (r_decision result))),
                   (''result_sha256'', JStr (digest env (dump_result env result))),
                   (''algorithm_input_sha256'', JStr (r_input_sha result)),
                   (''configuration_sha256'', JStr (r_configuration_sha result))]) completed) (\<lambda>_.
     ret (run, result, completed))))))))"

text \<open>What follows from the result: admission, findings or clearing, report.\<close>

definition conclude_run ::
    "platform \<Rightarrow> submission \<Rightarrow> submission_row option \<Rightarrow> string \<Rightarrow> analysis_result \<Rightarrow> instant \<Rightarrow>
       string list store_op" where
  "conclude_run env sub predecessor run result ts =
     bind (record_baseline_admission env sub run result ts) (\<lambda>_.
     bind (if r_decision result = Risk then issue_findings env sub run result ts
           else bind (when_some predecessor (\<lambda>p.
                        resolve_predecessor_findings env (sub_id p) (s_submission_id sub)
                          (s_mine_id sub) ts)) (\<lambda>_. ret [])) (\<lambda>finding_ids.
     bind (issue_analysis_report env sub run result finding_ids ts) (\<lambda>_.
     ret finding_ids)))"

definition analyze_new_submission ::
    "platform \<Rightarrow> parameters \<Rightarrow> submission \<Rightarrow> string \<Rightarrow> string option \<Rightarrow> exchange_message option \<Rightarrow>
       instant \<Rightarrow> submission_receipt store_op" where
  "analyze_new_submission env p sub key agent msg ts =
     bind (receive_submission env sub key ts) (\<lambda>predecessor.
     bind (run_analysis env p sub) (\<lambda>(run, result, completed).
     bind (conclude_run env sub predecessor run result completed) (\<lambda>finding_ids.
     bind (remember_command env agent key msg (s_mine_id sub) SubmissionResult
             (s_submission_id sub) ts) (\<lambda>_.
     ret \<lparr>rc_submission = s_submission_id sub, rc_run = run, rc_mine = s_mine_id sub,
          rc_decision = r_decision result,
          rc_finding = (case finding_ids of [] \<Rightarrow> None | f # _ \<Rightarrow> Some f),
          rc_received_at = ts, rc_sha = digest env (dump_submission env sub),
          rc_replay = False\<rparr>))))"

definition same_submission :: "submission \<Rightarrow> string \<Rightarrow> submission_row \<Rightarrow> bool" where
  "same_submission sub key r \<longleftrightarrow>
     sub_id r = s_submission_id sub \<or> sub_mine r = s_mine_id sub \<and> sub_key r = key"

definition submit_body ::
    "platform \<Rightarrow> parameters \<Rightarrow> submission \<Rightarrow> string \<Rightarrow> string option \<Rightarrow> exchange_message option \<Rightarrow>
       instant \<Rightarrow> submission_receipt store_op" where
  "submit_body env p sub key agent msg ts =
     bind (when_some agent (\<lambda>a. assert_agent_mine a (s_mine_id sub))) (\<lambda>_.
     bind (claimed_command env agent key msg (s_mine_id sub) ts) (\<lambda>claimed.
     case claimed of
       Some row \<Rightarrow>
         bind (require (ibx_kind row = SubmissionResult) KeyOfOtherCommand) (\<lambda>_.
         receipt_for_submission (ibx_result row) True)
     | None \<Rightarrow>
         bind (when_some msg (admit_submission_envelope env sub agent ts)) (\<lambda>_.
         bind (reading (\<lambda>s. find (same_submission sub key) (submissions s))) (\<lambda>existing.
         case existing of
           Some r \<Rightarrow>
             bind (require (sub_id r = s_submission_id sub
                            \<and> sub_sha r = digest env (dump_submission env sub))
                    KeyUsedWithOtherPayload) (\<lambda>_.
             bind (remember_command env agent key msg (s_mine_id sub) SubmissionResult
                    (s_submission_id sub) ts) (\<lambda>_.
             receipt_for_submission (s_submission_id sub) True))
         | None \<Rightarrow> analyze_new_submission env p sub key agent msg ts))))"

definition submit_and_analyze ::
    "platform \<Rightarrow> submission \<Rightarrow> string option \<Rightarrow> string option \<Rightarrow> exchange_message option \<Rightarrow>
       parameters option \<Rightarrow> submission_receipt store_op" where
  "submit_and_analyze env sub agent key msg p =
     bind (now env) (\<lambda>received.
     if future_period env sub received then raise FuturePeriod
     else store_transaction
            (submit_body env (case p of None \<Rightarrow> default_parameters | Some q \<Rightarrow> q) sub
               (or_default key (s_submission_id sub)) agent msg received))"

end
