(* ===== verification/Regulatory_Responses.thy ===== *)
theory Regulatory_Responses
  imports Regulatory_Commands
begin

text \<open>
  Enterprise replies: the explanation of one finding, the batch of explanations of one wire
  response, the delivery acknowledgement of a report, and the evidence of failed machine
  authentication (\<open>record_enterprise_response\<close>, \<open>record_enterprise_response_batch\<close>,
  \<open>record_delivery_ack\<close>, \<open>record_authentication_failure_evidence\<close>).
\<close>

section \<open>One explanation\<close>

record response_receipt =
  rr_response :: string
  rr_finding :: string
  rr_mine :: string
  rr_recorded_at :: instant
  rr_replay :: bool

definition response_clash :: "response_row \<Rightarrow> response_row \<Rightarrow> bool" where
  "response_clash a b \<longleftrightarrow>
     rsp_id a = rsp_id b
     \<or> rsp_wire a \<noteq> None \<and> rsp_wire a = rsp_wire b \<and> rsp_finding a = rsp_finding b"

definition store_response ::
    "platform \<Rightarrow> finding_response \<Rightarrow> instant \<Rightarrow> response_receipt store_op" where
  "store_response env r ts =
     (let sha = digest env (dump_response env r) in
      bind (add_row responses responses_update response_clash ConstraintViolation
             \<lparr>rsp_id = fr_response_id r, rsp_finding = fr_finding_id r, rsp_mine = fr_mine_id r,
              rsp_wire = None, rsp_response = r, rsp_sha = sha, rsp_recorded_at = ts\<rparr>) (\<lambda>_.
      bind (append_finding_event env (fr_finding_id r) ExplanationRecorded None
             (JObj [(''response_id'', JStr (fr_response_id r)), (''response_sha256'', JStr sha),
                    (''risk_cleared'', JBool False)]) ts) (\<lambda>_.
      bind (append_outbox env (fr_mine_id r) ResponseRecorded (fr_response_id r)
             (JObj [(''response_id'', JStr (fr_response_id r)),
                    (''finding_id'', JStr (fr_finding_id r)),
                    (''recorded_at'', JStr (stamp env ts)),
                    (''finding_state'', JStr ''explanation_recorded''),
                    (''risk_cleared'', JBool False)]) ts None) (\<lambda>_.
      bind (append_audit env ''enterprise_explanation_recorded'' ''finding_response''
             (fr_response_id r) (Some (fr_mine_id r))
             (JObj [(''finding_id'', JStr (fr_finding_id r)), (''response_sha256'', JStr sha),
                    (''risk_cleared'', JBool False)]) ts) (\<lambda>_.
      ret \<lparr>rr_response = fr_response_id r, rr_finding = fr_finding_id r, rr_mine = fr_mine_id r,
           rr_recorded_at = ts, rr_replay = False\<rparr>)))))"

definition record_enterprise_response ::
    "platform \<Rightarrow> finding_response \<Rightarrow> response_receipt store_op" where
  "record_enterprise_response env r =
     bind (now env) (\<lambda>ts.
     store_transaction (
       bind (reading (\<lambda>s. find (\<lambda>x. rsp_id x = fr_response_id r) (responses s))) (\<lambda>existing.
       case existing of
         Some row \<Rightarrow>
           bind (require (rsp_sha row = digest env (dump_response env r)) ResponseIdReused) (\<lambda>_.
           ret \<lparr>rr_response = fr_response_id r, rr_finding = fr_finding_id r,
                rr_mine = fr_mine_id r, rr_recorded_at = rsp_recorded_at row, rr_replay = True\<rparr>)
       | None \<Rightarrow>
           bind (reading (\<lambda>s. find (\<lambda>f. fnd_id f = fr_finding_id r) (findings s))) (\<lambda>found.
           case found of
             None \<Rightarrow> raise FindingNotFound
           | Some f \<Rightarrow>
               bind (require (fnd_mine f = fr_mine_id r) FindingOutsideMine) (\<lambda>_.
               store_response env r ts)))))"

section \<open>A batch of explanations\<close>

record batch_receipt =
  br_wire :: string
  br_report :: string
  br_mine :: string
  br_children :: "string list"
  br_findings :: "string list"
  br_recorded_at :: instant
  br_replay :: bool

definition response_batch_receipt :: "string \<Rightarrow> bool \<Rightarrow> batch_receipt store_op" where
  "response_batch_receipt wire replay =
     bind (reading (\<lambda>s. map_option (\<lambda>b.
         let kids = sort_key rsp_id (filter (\<lambda>r. rsp_wire r = Some wire) (responses s))
         in \<lparr>br_wire = wire, br_report = bat_report b, br_mine = bat_mine b,
             br_children = map rsp_id kids, br_findings = map rsp_finding kids,
             br_recorded_at = bat_recorded_at b, br_replay = replay\<rparr>)
       (find (\<lambda>b. bat_wire_id b = wire) (batches s)))) (\<lambda>found.
     case found of None \<Rightarrow> raise ReceiptNotFound | Some rc \<Rightarrow> ret rc)"

definition batch_request ::
    "platform \<Rightarrow> string \<Rightarrow> string \<Rightarrow> string \<Rightarrow> finding_response list \<Rightarrow> json" where
  "batch_request env wire report mine rs =
     JObj [(''wire_response_id'', JStr wire), (''report_id'', JStr report),
           (''mine_id'', JStr mine), (''responses'', JArr (map (dump_response_request env) rs))]"

definition batch_clash :: "batch_row \<Rightarrow> batch_row \<Rightarrow> bool" where
  "batch_clash a b \<longleftrightarrow> bat_wire_id a = bat_wire_id b"

definition store_batch_item ::
    "platform \<Rightarrow> string \<Rightarrow> string \<Rightarrow> instant \<Rightarrow> finding_response \<Rightarrow> string store_op" where
  "store_batch_item env wire mine ts r =
     bind (reading (\<lambda>s. find (\<lambda>f. fnd_id f = fr_finding_id r) (findings s))) (\<lambda>found.
     bind (require (case found of None \<Rightarrow> False | Some f \<Rightarrow> fnd_mine f = mine) FindingNotFound) (\<lambda>_.
     let child = uuid5 env (''mineguard:v2:'' @ wire @ '':'' @ fr_finding_id r);
         body = r\<lparr>fr_response_id := child\<rparr>;
         sha = digest env (dump_response env body)
     in
     bind (add_row responses responses_update response_clash ConstraintViolation
            \<lparr>rsp_id = child, rsp_finding = fr_finding_id r, rsp_mine = mine, rsp_wire = Some wire,
             rsp_response = body, rsp_sha = sha, rsp_recorded_at = ts\<rparr>) (\<lambda>_.
     bind (append_finding_event env (fr_finding_id r) ExplanationRecorded None
            (JObj [(''wire_response_id'', JStr wire), (''child_response_id'', JStr child),
                   (''response_sha256'', JStr sha), (''risk_cleared'', JBool False)]) ts) (\<lambda>_.
     ret child))))"

definition store_batch ::
    "platform \<Rightarrow> string \<Rightarrow> string \<Rightarrow> string \<Rightarrow> finding_response list \<Rightarrow> instant \<Rightarrow>
       string list store_op" where
  "store_batch env wire report mine rs ts =
     (let request = batch_request env wire report mine rs in
      bind (add_row batches batches_update batch_clash ConstraintViolation
             \<lparr>bat_wire_id = wire, bat_report = report, bat_mine = mine, bat_request = request,
              bat_sha = digest env request, bat_recorded_at = ts\<rparr>) (\<lambda>_.
      bind (map_each (store_batch_item env wire mine ts) rs) (\<lambda>children.
      bind (append_outbox env mine ResponseRecorded wire
             (JObj [(''wire_response_id'', JStr wire), (''report_id'', JStr report),
                    (''finding_ids'', json_strs (map fr_finding_id rs)),
                    (''child_response_ids'', json_strs children),
                    (''recorded_at'', JStr (stamp env ts)),
                    (''finding_state'', JStr ''explanation_recorded''),
                    (''risk_cleared'', JBool False)]) ts None) (\<lambda>_.
      bind (append_audit env ''enterprise_response_batch_recorded'' ''response_batch'' wire
             (Some mine)
             (JObj [(''report_id'', JStr report),
                    (''finding_ids'', json_strs (map fr_finding_id rs)),
                    (''child_response_ids'', json_strs children),
                    (''request_sha256'', JStr (digest env request)),
                    (''risk_cleared'', JBool False)]) ts) (\<lambda>_.
      ret children)))))"

definition new_batch ::
    "platform \<Rightarrow> string \<Rightarrow> string \<Rightarrow> string \<Rightarrow> finding_response list \<Rightarrow> exchange_message option \<Rightarrow>
       string option \<Rightarrow> string \<Rightarrow> instant \<Rightarrow> batch_receipt store_op" where
  "new_batch env wire report mine rs msg sender key ts =
     bind (reading (\<lambda>s. find (\<lambda>r. rep_id r = report) (reports s))) (\<lambda>found.
     case found of
       None \<Rightarrow> raise ReportNotInMine
     | Some row \<Rightarrow>
         bind (require (rep_mine row = mine) ReportNotInMine) (\<lambda>_.
         bind (require (set (map fr_finding_id rs) \<subseteq> set (ar_finding_ids (rep_report row)))
                FindingNotInReport) (\<lambda>_.
         bind (store_batch env wire report mine rs ts) (\<lambda>children.
         bind (remember_command env sender key msg mine ResponseBatchResult wire ts) (\<lambda>_.
         ret \<lparr>br_wire = wire, br_report = report, br_mine = mine, br_children = children,
              br_findings = map fr_finding_id rs, br_recorded_at = ts, br_replay = False\<rparr>)))))"

definition batch_body ::
    "platform \<Rightarrow> string \<Rightarrow> string \<Rightarrow> string \<Rightarrow> finding_response list \<Rightarrow> exchange_message option \<Rightarrow>
       string option \<Rightarrow> string \<Rightarrow> instant \<Rightarrow> batch_receipt store_op" where
  "batch_body env wire report mine rs msg sender key ts =
     bind (when_some sender (\<lambda>a. assert_agent_mine a mine)) (\<lambda>_.
     bind (claimed_command env sender key msg mine ts) (\<lambda>claimed.
     case claimed of
       Some row \<Rightarrow>
         bind (require (ibx_kind row = ResponseBatchResult) KeyOfOtherCommand) (\<lambda>_.
         response_batch_receipt (ibx_result row) True)
     | None \<Rightarrow>
         bind (when_some msg (\<lambda>m.
           bind (require (em_direction m = Inbound \<and> em_mine_id m = mine) ResponseEnvelopeScope) (\<lambda>_.
           record_inbound env m mine ts))) (\<lambda>_.
         bind (reading (\<lambda>s. find (\<lambda>b. bat_wire_id b = wire) (batches s))) (\<lambda>existing.
         case existing of
           Some b \<Rightarrow>
             bind (require (bat_sha b = digest env (batch_request env wire report mine rs)
                            \<and> bat_report b = report \<and> bat_mine b = mine) WireResponseReused) (\<lambda>_.
             bind (remember_command env sender key msg mine ResponseBatchResult wire ts) (\<lambda>_.
             response_batch_receipt wire True))
         | None \<Rightarrow> new_batch env wire report mine rs msg sender key ts))))"

definition record_enterprise_response_batch ::
    "platform \<Rightarrow> string \<Rightarrow> string \<Rightarrow> string \<Rightarrow> finding_response list \<Rightarrow> exchange_message option \<Rightarrow>
       string option \<Rightarrow> string option \<Rightarrow> batch_receipt store_op" where
  "record_enterprise_response_batch env wire report mine rs msg sender key =
     bind (require (1 \<le> length rs \<and> length rs \<le> 100) BatchSizeInvalid) (\<lambda>_.
     bind (require (distinct (map fr_finding_id rs)) BatchRepeatsFinding) (\<lambda>_.
     bind (require (\<forall>r \<in> set rs. fr_mine_id r = mine) BatchCrossesMines) (\<lambda>_.
     bind (now env) (\<lambda>ts.
     store_transaction
       (batch_body env wire report mine rs msg sender (or_default key wire) ts)))))"

section \<open>Delivery acknowledgements\<close>

record ack_receipt =
  ak_ack :: string
  ak_report :: string
  ak_mine :: string
  ak_recorded_at :: instant
  ak_replay :: bool

definition delivery_ack_receipt :: "string \<Rightarrow> bool \<Rightarrow> ack_receipt store_op" where
  "delivery_ack_receipt x replay =
     bind (reading (\<lambda>s. find (\<lambda>a. ack_id a = x) (acks s))) (\<lambda>found.
     case found of
       None \<Rightarrow> raise ReceiptNotFound
     | Some a \<Rightarrow> ret \<lparr>ak_ack = ack_id a, ak_report = ack_report a, ak_mine = ack_mine a,
                      ak_recorded_at = ack_recorded_at a, ak_replay = replay\<rparr>)"

definition ack_clash :: "ack_row \<Rightarrow> ack_row \<Rightarrow> bool" where
  "ack_clash a b \<longleftrightarrow> ack_id a = ack_id b"

fun status_name :: "delivery_status \<Rightarrow> string" where
  "status_name Stored = ''stored''"
| "status_name Duplicate = ''duplicate''"

text \<open>The report and its delivery message must both exist, belong to the mine and match.\<close>

definition ack_matches :: "delivery_ack \<Rightarrow> ledger \<Rightarrow> bool" where
  "ack_matches a s =
     (case (find (\<lambda>r. rep_id r = da_report_id a) (reports s),
            find (\<lambda>o'. out_message_id o' = da_message_id a) (outbox s)) of
        (Some r, Some m) \<Rightarrow>
          rep_mine r = da_mine_id a \<and> out_mine m = da_mine_id a
          \<and> out_kind m = AnalysisReportAvailable \<and> out_aggregate m = da_report_id a
          \<and> ar_cursor (rep_report r) = da_cursor a
      | _ \<Rightarrow> False)"

definition new_ack ::
    "platform \<Rightarrow> delivery_ack \<Rightarrow> exchange_message option \<Rightarrow> string option \<Rightarrow> string \<Rightarrow> instant \<Rightarrow>
       ack_receipt store_op" where
  "new_ack env a msg sender key ts =
     bind (reading (ack_matches a)) (\<lambda>ok.
     bind (require ok DeliveryMessageNotFound) (\<lambda>_.
     let sha = digest env (dump_ack env a) in
     bind (add_row acks acks_update ack_clash ConstraintViolation
            \<lparr>ack_id = da_ack_id a, ack_report = da_report_id a, ack_mine = da_mine_id a,
             ack_message = da_message_id a, ack_body = a, ack_sha = sha,
             ack_recorded_at = ts\<rparr>) (\<lambda>_.
     bind (append_audit env ''analysis_report_delivery_acknowledged'' ''analysis_report''
            (da_report_id a) (Some (da_mine_id a))
            (JObj [(''ack_id'', JStr (da_ack_id a)),
                   (''analysis_report_message_id'', JStr (da_message_id a)),
                   (''delivery_cursor'', JStr (da_cursor a)),
                   (''delivery_status'', JStr (status_name (da_status a))),
                   (''ack_sha256'', JStr sha)]) ts) (\<lambda>_.
     bind (remember_command env sender key msg (da_mine_id a) DeliveryAckResult (da_ack_id a) ts) (\<lambda>_.
     ret \<lparr>ak_ack = da_ack_id a, ak_report = da_report_id a, ak_mine = da_mine_id a,
          ak_recorded_at = ts, ak_replay = False\<rparr>)))))"

definition ack_envelope_ok :: "delivery_ack \<Rightarrow> string option \<Rightarrow> exchange_message \<Rightarrow> bool" where
  "ack_envelope_ok a sender m \<longleftrightarrow>
     em_direction m = Inbound \<and> em_mine_id m = da_mine_id a
     \<and> (sender = None \<or> em_agent_id m = None \<or> em_agent_id m = sender)"

definition ack_body_op ::
    "platform \<Rightarrow> delivery_ack \<Rightarrow> exchange_message option \<Rightarrow> string option \<Rightarrow> string \<Rightarrow> instant \<Rightarrow>
       ack_receipt store_op" where
  "ack_body_op env a msg sender key ts =
     bind (when_some sender (\<lambda>x. assert_agent_mine x (da_mine_id a))) (\<lambda>_.
     bind (claimed_command env sender key msg (da_mine_id a) ts) (\<lambda>claimed.
     case claimed of
       Some row \<Rightarrow>
         bind (require (ibx_kind row = DeliveryAckResult) KeyOfOtherCommand) (\<lambda>_.
         delivery_ack_receipt (ibx_result row) True)
     | None \<Rightarrow>
         bind (when_some msg (\<lambda>m.
           bind (require (ack_envelope_ok a sender m) AckEnvelopeScope) (\<lambda>_.
           record_inbound env m (da_mine_id a) ts))) (\<lambda>_.
         bind (reading (\<lambda>s. find (\<lambda>x. ack_id x = da_ack_id a) (acks s))) (\<lambda>existing.
         case existing of
           Some x \<Rightarrow>
             bind (require (ack_sha x = digest env (dump_ack env a)) AckIdReused) (\<lambda>_.
             bind (remember_command env sender key msg (da_mine_id a) DeliveryAckResult
                    (da_ack_id a) ts) (\<lambda>_.
             delivery_ack_receipt (da_ack_id a) True))
         | None \<Rightarrow> new_ack env a msg sender key ts))))"

definition record_delivery_ack ::
    "platform \<Rightarrow> delivery_ack \<Rightarrow> exchange_message option \<Rightarrow> string option \<Rightarrow> string option \<Rightarrow>
       ack_receipt store_op" where
  "record_delivery_ack env a msg sender key =
     bind (now env) (\<lambda>ts.
     store_transaction (ack_body_op env a msg sender (or_default key (da_ack_id a)) ts))"

section \<open>Authentication failures\<close>

definition upper :: "string \<Rightarrow> string" where
  "upper = map (\<lambda>c. if 97 \<le> (of_char c :: nat) \<and> (of_char c :: nat) \<le> 122
                    then char_of ((of_char c :: nat) - 32) else c)"

record failure_evidence =
  fe_method :: "string option"
  fe_path :: "string option"
  fe_remote :: "string option"
  fe_sender :: "string option"
  fe_mine :: "string option"
  fe_count :: "int option"
  fe_started :: "instant option"
  fe_ended :: "instant option"
  fe_final :: "bool option"

definition has_first :: "failure_evidence \<Rightarrow> bool" where
  "has_first e \<longleftrightarrow> fe_method e \<noteq> None \<or> fe_path e \<noteq> None \<or> fe_remote e \<noteq> None"

definition has_summary :: "failure_evidence \<Rightarrow> bool" where
  "has_summary e \<longleftrightarrow>
     fe_count e \<noteq> None \<or> fe_started e \<noteq> None \<or> fe_ended e \<noteq> None \<or> fe_final e \<noteq> None"

definition bounded_method :: "string \<Rightarrow> string" where
  "bounded_method m = (if upper m \<in> {''GET'', ''HEAD'', ''POST''} then upper m else ''OTHER'')"

definition bounded_path :: "string \<Rightarrow> string" where
  "bounded_path p = (if prefix ''/'' p then take 512 p else ''/'')"

definition max_int64 :: int where
  "max_int64 = 9223372036854775807"

definition append_summary :: "platform \<Rightarrow> failure_evidence \<Rightarrow> instant \<Rightarrow> unit store_op" where
  "append_summary env e ts =
     bind (draw_uuid env) (\<lambda>x.
     append_audit env ''machine_authentication_failure_summary'' ''security_event'' x
       (map_option (take 128) (fe_mine e))
       (JObj [(''audit_schema'', JStr ''machine-security-event-summary-v1''),
              (''outcome'', JStr ''rejected''),
              (''reason_code'', JStr ''exchange_authentication_failed''),
              (''aggregation'', JStr ''application_time_window''),
              (''window_started_at'', JStr (stamp env (the (fe_started e)))),
              (''window_ended_at'', JStr (stamp env (the (fe_ended e)))),
              (''attempt_count'', json_int (min (the (fe_count e)) max_int64)),
              (''suppressed_count'', json_int (min (the (fe_count e) - 1) max_int64)),
              (''final'', JBool (the (fe_final e))),
              (''known_sender_id'', json_opt (map_option (take 128) (fe_sender e)))]) ts)"

definition append_first_failure :: "platform \<Rightarrow> failure_evidence \<Rightarrow> instant \<Rightarrow> unit store_op" where
  "append_first_failure env e ts =
     bind (draw_uuid env) (\<lambda>x.
     append_audit env ''machine_authentication_failed'' ''security_event'' x
       (map_option (take 128) (fe_mine e))
       (JObj [(''audit_schema'', JStr ''machine-security-event-v1''),
              (''outcome'', JStr ''rejected''),
              (''reason_code'', JStr ''exchange_authentication_failed''),
              (''request_method'', JStr (bounded_method (the (fe_method e)))),
              (''request_path'', JStr (bounded_path (the (fe_path e)))),
              (''remote_address'', JStr (take 128 (the (fe_remote e)))),
              (''known_sender_id'', json_opt (map_option (take 128) (fe_sender e)))]) ts)"

definition record_authentication_failure ::
    "platform \<Rightarrow> failure_evidence \<Rightarrow> unit store_op" where
  "record_authentication_failure env e =
     bind (require (has_first e \<longrightarrow> fe_method e \<noteq> None \<and> fe_path e \<noteq> None \<and> fe_remote e \<noteq> None)
            EvidenceIncomplete) (\<lambda>_.
     bind (require (has_summary e \<longrightarrow> fe_count e \<noteq> None \<and> fe_started e \<noteq> None
                      \<and> fe_ended e \<noteq> None \<and> fe_final e \<noteq> None) SummaryIncomplete) (\<lambda>_.
     bind (require (has_first e \<or> has_summary e) EvidenceEmpty) (\<lambda>_.
     bind (require (has_summary e \<longrightarrow> 2 \<le> the (fe_count e)) SummaryCountInvalid) (\<lambda>_.
     bind (require (has_summary e \<longrightarrow> the (fe_started e) \<le> the (fe_ended e))
            SummaryWindowInvalid) (\<lambda>_.
     bind (now env) (\<lambda>ts.
     store_transaction
       (bind (if has_summary e then append_summary env e ts else ret ()) (\<lambda>_.
        if has_first e then append_first_failure env e ts else ret ()))))))))"

end
