(* ===== verification/Regulatory_Requests.thy ===== *)
theory Regulatory_Requests
  imports Regulatory_Responses
begin

text \<open>
  The commands as data, their execution alone or grouped in one controlled write scope, the
  reachable ledgers, and the write footprint of every command. From the footprints follow,
  by the interpretations of \<open>ledger_steps\<close>, that no command rewrites or drops an immutable
  row, that the audit chain verifies in every reachable ledger, and that a reply of an
  enterprise clears no finding.
\<close>

section \<open>Footprints of the commands\<close>

context ledger_steps
begin

lemma evolves_claim_transport_nonce [evolves_rules]:
  "allowed NonceSlot \<Longrightarrow> evolves rel (claim_transport_nonce env sender nonce requested expiry)"
  unfolding claim_transport_nonce_def admit_nonce_def Let_def by (intro evolves_rules; simp add: sealed_rows)

lemma evolves_bind_agent_to_mine [evolves_rules]:
  "allowed BindingSlot \<Longrightarrow> allowed AuditSlot \<Longrightarrow> evolves rel (bind_agent_to_mine env agent mine)"
  unfolding bind_agent_to_mine_def by (intro evolves_rules; simp add: sealed_rows)

lemma evolves_record_exchange_message [evolves_rules]:
  "allowed MessageSlot \<Longrightarrow> allowed AuditSlot \<Longrightarrow> evolves rel (record_exchange_message env m)"
  unfolding record_exchange_message_def by (intro evolves_rules; simp add: sealed_rows)

lemma evolves_record_inbound [evolves_rules]:
  "allowed MessageSlot \<Longrightarrow> allowed AuditSlot \<Longrightarrow> evolves rel (record_inbound env m mine ts)"
  unfolding record_inbound_def by (intro evolves_rules; simp add: sealed_rows)

lemma evolves_claimed_command [evolves_rules]:
  "allowed AuditSlot \<Longrightarrow> evolves rel (claimed_command env sender key msg mine ts)"
  unfolding claimed_command_def prod.case by (intro evolves_rules; simp add: sealed_rows)

lemma evolves_remember_command [evolves_rules]:
  "allowed InboxSlot \<Longrightarrow> evolves rel (remember_command env sender key msg mine kind result ts)"
  unfolding remember_command_def prod.case by (intro evolves_rules; simp add: sealed_rows)

lemma evolves_receipts [evolves_rules]:
  "evolves rel (receipt_for_submission x replay)"
  "evolves rel (response_batch_receipt x replay)"
  "evolves rel (delivery_ack_receipt x replay)"
  unfolding receipt_for_submission_def response_batch_receipt_def delivery_ack_receipt_def
  by (intro evolves_rules; simp add: sealed_rows)+

lemma evolves_admit_submission_envelope [evolves_rules]:
  "allowed MessageSlot \<Longrightarrow> allowed AuditSlot \<Longrightarrow>
     evolves rel (admit_submission_envelope env sub agent ts m)"
  unfolding admit_submission_envelope_def by (intro evolves_rules; simp add: sealed_rows)

lemma evolves_receive_submission [evolves_rules]:
  "allowed SubmissionSlot \<Longrightarrow> allowed DailySlot \<Longrightarrow> allowed AuditSlot \<Longrightarrow>
     evolves rel (receive_submission env sub key ts)"
  unfolding receive_submission_def by (intro evolves_rules; simp add: sealed_rows)

lemma evolves_run_analysis [evolves_rules]:
  "allowed SnapshotSlot \<Longrightarrow> allowed RunSlot \<Longrightarrow> allowed AuditSlot \<Longrightarrow>
     evolves rel (run_analysis env p sub)"
  unfolding run_analysis_def by (intro evolves_rules; simp add: sealed_rows)

lemma evolves_conclude_run [evolves_rules]:
  assumes "allowed AdmissionSlot" "allowed AuditSlot" "allowed FindingSlot" "allowed ReportSlot"
    "allowed OutboxSlot" "allowed (EventSlot Issued)" "allowed (EventSlot ResolvedByRevision)"
  shows "evolves rel (conclude_run env sub predecessor run result ts)"
  unfolding conclude_run_def by (intro evolves_rules assms; simp add: sealed_rows)

lemma evolves_submit_and_analyze [evolves_rules]:
  assumes "\<And>x. x \<notin> {BindingSlot, NonceSlot, BatchSlot, ResponseSlot, AckSlot,
      EventSlot ExplanationRecorded, EventSlot DeliveryAcknowledged} \<Longrightarrow> allowed x"
  shows "evolves rel (submit_and_analyze env sub agent key msg p)"
  unfolding submit_and_analyze_def submit_body_def analyze_new_submission_def
  by (intro evolves_rules assms; simp add: sealed_rows)

lemma evolves_record_enterprise_response [evolves_rules]:
  "allowed ResponseSlot \<Longrightarrow> allowed (EventSlot ExplanationRecorded) \<Longrightarrow> allowed OutboxSlot \<Longrightarrow>
     allowed AuditSlot \<Longrightarrow> evolves rel (record_enterprise_response env r)"
  unfolding record_enterprise_response_def store_response_def by (intro evolves_rules; simp add: sealed_rows)

lemma evolves_record_enterprise_response_batch [evolves_rules]:
  assumes "\<And>x. x \<in> {BatchSlot, ResponseSlot, EventSlot ExplanationRecorded, OutboxSlot, AuditSlot,
      MessageSlot, InboxSlot} \<Longrightarrow> allowed x"
  shows "evolves rel (record_enterprise_response_batch env wire report mine rs msg sender key)"
  unfolding record_enterprise_response_batch_def batch_body_def new_batch_def store_batch_def
    store_batch_item_def
  by (intro evolves_rules assms; simp add: sealed_rows)

lemma evolves_record_delivery_ack [evolves_rules]:
  assumes "\<And>x. x \<in> {AckSlot, AuditSlot, MessageSlot, InboxSlot} \<Longrightarrow> allowed x"
  shows "evolves rel (record_delivery_ack env a msg sender key)"
  unfolding record_delivery_ack_def ack_body_op_def new_ack_def
  by (intro evolves_rules assms; simp add: sealed_rows)

lemma evolves_record_authentication_failure [evolves_rules]:
  "allowed AuditSlot \<Longrightarrow> evolves rel (record_authentication_failure env e)"
  unfolding record_authentication_failure_def append_summary_def append_first_failure_def
  by (intro evolves_rules; simp add: sealed_rows)

end

section \<open>Commands and requests\<close>

datatype command =
    ClaimNonce string string instant instant
  | BindAgent string string
  | RecordMessage exchange_message
  | Submit submission "string option" "string option" "exchange_message option" "parameters option"
  | Respond finding_response
  | RespondBatch string string string "finding_response list" "exchange_message option"
      "string option" "string option"
  | Acknowledge delivery_ack "exchange_message option" "string option" "string option"
  | AuthenticationFailure failure_evidence

datatype receipt =
    NonceClaimed bool
  | Done
  | MessageStored message_row
  | Submitted submission_receipt
  | Responded response_receipt
  | BatchStored batch_receipt
  | Acknowledged ack_receipt

definition with_receipt :: "('a \<Rightarrow> receipt) \<Rightarrow> 'a store_op \<Rightarrow> receipt store_op" where
  "with_receipt f m = bind m (\<lambda>a. ret (f a))"

fun exec_command :: "platform \<Rightarrow> command \<Rightarrow> receipt store_op" where
  "exec_command env (ClaimNonce sender nonce requested expiry) =
     with_receipt NonceClaimed (claim_transport_nonce env sender nonce requested expiry)"
| "exec_command env (BindAgent agent mine) =
     with_receipt (\<lambda>_. Done) (bind_agent_to_mine env agent mine)"
| "exec_command env (RecordMessage m) =
     with_receipt MessageStored (record_exchange_message env m)"
| "exec_command env (Submit sub agent key msg p) =
     with_receipt Submitted (submit_and_analyze env sub agent key msg p)"
| "exec_command env (Respond r) = with_receipt Responded (record_enterprise_response env r)"
| "exec_command env (RespondBatch wire report mine rs msg sender key) =
     with_receipt BatchStored
       (record_enterprise_response_batch env wire report mine rs msg sender key)"
| "exec_command env (Acknowledge a msg sender key) =
     with_receipt Acknowledged (record_delivery_ack env a msg sender key)"
| "exec_command env (AuthenticationFailure e) =
     with_receipt (\<lambda>_. Done) (record_authentication_failure env e)"

text \<open>A request is one command, or several in one \<open>controlled_write_scope\<close>.\<close>

datatype request = Single command | WriteScope "command list"

fun exec_request :: "platform \<Rightarrow> request \<Rightarrow> receipt list store_op" where
  "exec_request env (Single c) = bind (exec_command env c) (\<lambda>r. ret [r])"
| "exec_request env (WriteScope cs) = store_transaction (map_each (exec_command env) cs)"

definition run_requests :: "platform \<Rightarrow> request list \<Rightarrow> ledger \<Rightarrow> ledger" where
  "run_requests env rs s = fold (\<lambda>r u. snd (exec_request env r u)) rs s"

inductive reachable :: "platform \<Rightarrow> ledger \<Rightarrow> bool" for env where
  start: "reachable env empty_ledger"
| step: "reachable env s \<Longrightarrow> exec_request env r s = (x, t) \<Longrightarrow> reachable env t"

text \<open>
  Over all commands the footprint is every table; the nonce table, the only one whose rows
  are dropped, is left to the relation.
\<close>

context ledger_steps
begin

lemma evolves_exec_command:
  assumes nonce: "\<And>a b c d. evolves rel (claim_transport_nonce env a b c d)"
    and rest: "\<And>x. x \<noteq> NonceSlot \<Longrightarrow> allowed x"
  shows "evolves rel (exec_command env c)"
  by (cases c)
     (auto simp: with_receipt_def intro!: evolves_bind evolves_ret nonce evolves_bind_agent_to_mine
        evolves_record_exchange_message evolves_submit_and_analyze
        evolves_record_enterprise_response evolves_record_enterprise_response_batch
        evolves_record_delivery_ack evolves_record_authentication_failure rest)

lemma evolves_exec_request:
  assumes "\<And>a b c d. evolves rel (claim_transport_nonce env a b c d)"
    and "\<And>x. x \<noteq> NonceSlot \<Longrightarrow> allowed x"
  shows "evolves rel (exec_request env r)"
  by (cases r)
     (auto intro!: evolves_bind evolves_ret evolves_store_transaction evolves_map_each
        evolves_exec_command [OF assms])

lemma rel_run_requests:
  assumes "\<And>a b c d. evolves rel (claim_transport_nonce env a b c d)"
    and "\<And>x. x \<noteq> NonceSlot \<Longrightarrow> allowed x"
  shows "rel s (run_requests env rs s)"
proof (induction rs arbitrary: s)
  case Nil
  then show ?case by (simp add: run_requests_def rel_refl)
next
  case (Cons r rs)
  have "rel s (snd (exec_request env r s))"
    using evolves_exec_request [OF assms, of r] by (simp add: evolves_def)
  moreover have "rel (snd (exec_request env r s)) (run_requests env (r # rs) s)"
    using Cons [of "snd (exec_request env r s)"] by (simp add: run_requests_def)
  ultimately show ?case by (rule rel_trans)
qed

lemma rel_reachable:
  assumes "\<And>a b c d. evolves rel (claim_transport_nonce env a b c d)"
    and "\<And>x. x \<noteq> NonceSlot \<Longrightarrow> allowed x" and "reachable env s"
  shows "rel empty_ledger s"
  using assms(3)
proof (induction rule: reachable.induct)
  case start
  show ?case by (rule rel_refl)
next
  case (step s r x t)
  with evolvesD [OF evolves_exec_request [OF assms(1,2)]] show ?case
    by (blast intro: rel_trans)
qed

end

lemma reachable_run_requests: "reachable env s \<Longrightarrow> reachable env (run_requests env rs s)"
proof (induction rs arbitrary: s)
  case (Cons r rs)
  from reachable.step [OF Cons.prems surjective_pairing] Cons.IH show ?case
    by (simp add: run_requests_def)
qed (simp add: run_requests_def)

end
