(* ===== verification/Regulatory_Core.thy ===== *)
theory Regulatory_Core
  imports Regulatory_Requests
begin

text \<open>
  What a successful stage of a command does to the business tables. \<open>core_of\<close> projects a
  ledger to them; everything else an operation writes (messages, audit rows, outbox, peer
  snapshots, counters) leaves the projection alone, which the interpretation \<open>noise\<close> of
  \<open>ledger_steps\<close> provides, and each stage of \<open>submit_and_analyze\<close> is one update of it.
\<close>

section \<open>The business tables\<close>

record core =
  k_bindings :: "binding_row list"
  k_submissions :: "submission_row list"
  k_runs :: "run_row list"
  k_admissions :: "admission_row list"
  k_findings :: "finding_row list"
  k_reports :: "report_row list"
  k_events :: "event_row list"
  k_batches :: "batch_row list"
  k_responses :: "response_row list"
  k_acks :: "ack_row list"

definition core_of :: "ledger \<Rightarrow> core" where
  "core_of s =
     \<lparr>k_bindings = bindings s, k_submissions = submissions s, k_runs = runs s,
      k_admissions = admissions s, k_findings = findings s, k_reports = reports s,
      k_events = finding_events s, k_batches = batches s, k_responses = responses s,
      k_acks = acks s\<rparr>"

lemma core_of_sel [simp]:
  "k_bindings (core_of s) = bindings s" "k_submissions (core_of s) = submissions s"
  "k_runs (core_of s) = runs s" "k_admissions (core_of s) = admissions s"
  "k_findings (core_of s) = findings s" "k_reports (core_of s) = reports s"
  "k_events (core_of s) = finding_events s" "k_batches (core_of s) = batches s"
  "k_responses (core_of s) = responses s" "k_acks (core_of s) = acks s"
  by (simp_all add: core_of_def)

lemma core_of_update [simp]:
  "core_of (bindings_update f s) = k_bindings_update f (core_of s)"
  "core_of (submissions_update f2 s) = k_submissions_update f2 (core_of s)"
  "core_of (runs_update f3 s) = k_runs_update f3 (core_of s)"
  "core_of (admissions_update f4 s) = k_admissions_update f4 (core_of s)"
  "core_of (findings_update f5 s) = k_findings_update f5 (core_of s)"
  "core_of (reports_update f6 s) = k_reports_update f6 (core_of s)"
  "core_of (finding_events_update f7 s) = k_events_update f7 (core_of s)"
  "core_of (batches_update f8 s) = k_batches_update f8 (core_of s)"
  "core_of (responses_update f9 s) = k_responses_update f9 (core_of s)"
  "core_of (acks_update f10 s) = k_acks_update f10 (core_of s)"
  by (simp_all add: core_of_def)

lemma core_of_noise [simp]:
  "core_of (s\<lparr>nonces := n\<rparr>) = core_of s" "core_of (s\<lparr>inbox := i\<rparr>) = core_of s"
  "core_of (s\<lparr>daily_facts := d\<rparr>) = core_of s" "core_of (s\<lparr>snapshots := p\<rparr>) = core_of s"
  "core_of (s\<lparr>outbox := ob\<rparr>) = core_of s" "core_of (s\<lparr>messages := m\<rparr>) = core_of s"
  "core_of (s\<lparr>audits := a\<rparr>) = core_of s" "core_of (s\<lparr>draws := j\<rparr>) = core_of s"
  "core_of (s\<lparr>ticks := k\<rparr>) = core_of s" "core_of (set_in_tx b s) = core_of s"
  "core_of (roll_back s t) = core_of s" "core_of (nonces_update f s) = core_of s"
  by (simp_all add: core_of_def set_in_tx_def roll_back_def)

definition same_core :: "ledger \<Rightarrow> ledger \<Rightarrow> bool" where
  "same_core s t \<longleftrightarrow> core_of t = core_of s"

fun noise_slot :: "slot \<Rightarrow> bool" where
  "noise_slot x = (x \<in> {NonceSlot, InboxSlot, DailySlot, SnapshotSlot, OutboxSlot, MessageSlot, AuditSlot})"

lemma append_audit_core: "evolves same_core (append_audit env ty agg_ty agg mine payload ts)"
proof (rule evolvesI)
  fix s r t
  assume "append_audit env ty agg_ty agg mine payload ts s = (r, t)"
  then show "same_core s t"
    by (auto simp: append_audit_def add_row_cases draw_uuid_def bind_def reading_def
          same_core_def split: if_splits)
qed

interpretation noise: ledger_steps same_core env noise_slot for env
  by unfold_locales (auto simp: same_core_def append_audit_core)

lemma core_unchanged: "m s = (r, t) \<Longrightarrow> evolves same_core m \<Longrightarrow> core_of t = core_of s"
  by (metis evolvesD same_core_def)

text \<open>Equal projections give equal tables.\<close>

lemma core_tables:
  assumes "core_of t = core_of s"
  shows "core_of t = core_of s \<and> bindings t = bindings s \<and> submissions t = submissions s
    \<and> runs t = runs s \<and> admissions t = admissions s \<and> findings t = findings s
    \<and> reports t = reports s \<and> finding_events t = finding_events s \<and> batches t = batches s
    \<and> responses t = responses s \<and> acks t = acks s"
  using assms by (metis core_of_sel)

lemma nowD: "now env s = (Inr x, t) \<Longrightarrow> core_of t = core_of s"
  by (auto simp: now_def)

lemma draw_uuidD: "draw_uuid env s = (Inr x, t) \<Longrightarrow> core_of t = core_of s"
  by (auto simp: draw_uuid_def)

lemma append_auditD:
  "append_audit env ty agg_ty agg mine payload ts s = (r, t) \<Longrightarrow> core_of t = core_of s"
  by (erule core_unchanged) (rule append_audit_core)

lemma append_outboxD:
  "append_outbox env mine kind agg payload ts sq s = (r, t) \<Longrightarrow> core_of t = core_of s"
  by (erule core_unchanged) (simp add: noise.evolves_append_outbox)

lemma remember_commandD:
  "remember_command env sender key msg mine kind result ts s = (r, t) \<Longrightarrow> core_of t = core_of s"
  by (erule core_unchanged) (simp add: noise.evolves_remember_command)

lemma insert_daily_factsD: "insert_daily_facts env sub s = (r, t) \<Longrightarrow> core_of t = core_of s"
  by (erule core_unchanged) (simp add: noise.evolves_insert_daily_facts)

lemma anonymous_peer_bandsD: "anonymous_peer_bands env p sub s = (r, t) \<Longrightarrow> core_of t = core_of s"
  by (erule core_unchanged) (simp add: noise.evolves_anonymous_peer_bands)

lemma append_finding_eventD:
  assumes "append_finding_event env f ty res payload ts s = (Inr x, t)"
  obtains e where "core_of t = (core_of s)\<lparr>k_events := finding_events s @ [e]\<rparr>"
    "evt_finding e = f" "evt_type e = ty" "evt_resolving e = res"
  using assms
  by (auto simp: append_finding_event_def draw_uuid_def bind_def reading_def add_row_cases
        split: if_splits)

text \<open>Reading single tables off a projection.\<close>

lemma core_of_eqD:
  assumes "core_of u = c"
  shows "bindings u = k_bindings c" "submissions u = k_submissions c" "runs u = k_runs c"
    "admissions u = k_admissions c" "findings u = k_findings c" "reports u = k_reports c"
    "finding_events u = k_events c" "batches u = k_batches c" "responses u = k_responses c"
    "acks u = k_acks c"
  using assms by auto

lemma add_row_core:
  assumes "add_row tab upd clash e r s = (Inr x, t)"
  shows "\<not> list_ex (clash r) (tab s) \<and> core_of t = core_of (upd (\<lambda>_. tab s @ [r]) s)"
  using add_row_InrD [OF assms] by simp

lemmas noiseD = nowD [THEN core_tables] draw_uuidD [THEN core_tables]
  append_auditD [THEN core_tables] append_outboxD [THEN core_tables]
  remember_commandD [THEN core_tables] insert_daily_factsD [THEN core_tables]
  anonymous_peer_bandsD [THEN core_tables]

lemma draw_uuid_state: "draw_uuid env s = (Inr x, t) \<Longrightarrow> t = s\<lparr>draws := Suc (draws s)\<rparr>"
  by (auto simp: draw_uuid_def)

lemma now_state: "now env s = (Inr x, t) \<Longrightarrow> t = s\<lparr>ticks := Suc (ticks s)\<rparr>"
  by (auto simp: now_def)

lemma retD: "ret a s = (Inr b, t) \<Longrightarrow> b = a \<and> t = s"
  by (simp add: ret_def)

lemma readingD: "reading f s = (Inr b, t) \<Longrightarrow> b = f s \<and> t = s"
  by (auto simp: reading_def)

lemmas stageD = noiseD add_row_InrD retD readingD require_InrD

section \<open>Stages of a submission\<close>

lemma validate_revisionD:
  assumes "validate_revision sub s = (Inr pre, t)"
  shows "t = s"
    and "case s_supersedes sub of
           None \<Rightarrow> s_revision sub = 1 \<and> pre = None
         | Some x \<Rightarrow> \<exists>p. pre = Some p \<and> find (\<lambda>r. sub_id r = x) (submissions s) = Some p
             \<and> sub_mine p = s_mine_id sub \<and> sub_period_start p = s_period_start sub
             \<and> sub_period_end p = s_period_end sub \<and> sub_revision p + 1 = s_revision sub
             \<and> (\<forall>r \<in> set (submissions s). sub_supersedes r \<noteq> Some x)"
  using assms
  by (auto simp: validate_revision_def bind_require bind_def op_defs list_ex_iff
      split: option.splits if_splits prod.splits sum.splits)

lemma receive_submissionD:
  assumes "receive_submission env sub key ts s = (Inr pre, t)"
  shows "validate_revision sub s = (Inr pre, s)
    \<and> core_of t = (core_of s)\<lparr>k_submissions :=
         submissions s @ [make_submission_row env sub key pre ts]\<rparr>
    \<and> \<not> list_ex (submission_clash (make_submission_row env sub key pre ts)) (submissions s)
    \<and> 1 \<le> s_revision sub"
  using assms unfolding receive_submission_def
  by (elim bind_InrE) (auto dest!: stageD dest: validate_revisionD(1))

lemma run_analysisD:
  assumes "run_analysis env p sub s = (Inr (run, result, completed), t)"
  obtains started hist peers where
    "core_of t = (core_of s)\<lparr>k_runs :=
        runs s @ [make_run_row env sub result run started completed]\<rparr>"
    "result = analyze_five_quantity env p sub hist peers"
    "\<not> list_ex (run_clash (make_run_row env sub result run started completed)) (runs s)"
proof -
  from assms obtain started t0 t1 peers t2 t3 t4 t5 where
    n1: "now env s = (Inr started, t0)" and
    pb: "anonymous_peer_bands env p sub t0 = (Inr peers, t1)" and
    res: "result = analyze_five_quantity env p sub (same_mine_history env sub t0) peers" and
    n2: "now env t1 = (Inr completed, t2)" and
    u: "draw_uuid env t2 = (Inr run, t3)" and
    row: "add_row runs runs_update run_clash ConstraintViolation
       (make_run_row env sub result run started completed) t3 = (Inr (), t4)" and
    core: "core_of t = core_of t4"
    unfolding run_analysis_def Let_def
    by (elim bind_InrE) (auto dest!: readingD retD dest: append_auditD)
  have c3: "core_of t3 = core_of s"
    using nowD [OF n1] anonymous_peer_bandsD [OF pb] nowD [OF n2] draw_uuidD [OF u] by simp
  then have r3: "runs t3 = runs s" by (metis core_of_sel(3))
  show thesis
    using that [OF _ res] add_row_core [OF row] c3 core by (simp add: r3)
qed

lemma record_baseline_admissionD:
  assumes "record_baseline_admission env sub run result ts s = (Inr x, t)"
  obtains y where
    "core_of t = (core_of s)\<lparr>k_admissions :=
        admissions s @ [make_admission_row env sub run result ts y]\<rparr>"
  using assms unfolding record_baseline_admission_def
  by (elim bind_InrE) (fastforce dest!: draw_uuid_state add_row_InrD dest: append_auditD)

lemma issue_findingD:
  assumes "issue_finding env sub run result cat reasons ts s = (Inr fid, t)"
  obtains e where
    "core_of t = (core_of s)\<lparr>k_findings :=
        findings s @ [make_finding_row env sub run result cat reasons ts fid],
        k_events := finding_events s @ [e]\<rparr>"
    "\<forall>f \<in> set (findings s). fnd_id f \<noteq> fid" "evt_finding e = fid" "evt_type e = Issued"
  using assms unfolding issue_finding_def Let_def
  by (elim bind_InrE append_finding_eventD)
     (fastforce dest!: draw_uuid_state add_row_InrD retD append_auditD
       simp: finding_clash_def list_ex_iff)

text \<open>Findings of one run, in the order of their groups.\<close>

definition findings_of ::
    "platform \<Rightarrow> submission \<Rightarrow> string \<Rightarrow> analysis_result \<Rightarrow> instant \<Rightarrow>
       (category \<times> reason list) list \<Rightarrow> string list \<Rightarrow> finding_row list" where
  "findings_of env sub run result ts groups ids =
     map2 (\<lambda>(cat, reasons) x. make_finding_row env sub run result cat reasons ts x) groups ids"

lemma issue_listD:
  assumes "map_each (\<lambda>(cat, reasons). issue_finding env sub run result cat reasons ts) groups s
             = (Inr ids, t)"
  shows "length ids = length groups \<and> distinct ids \<and> (\<forall>f \<in> set (findings s). fnd_id f \<notin> set ids) \<and> (\<exists>es.
    core_of t = (core_of s)\<lparr>k_findings := findings s @ findings_of env sub run result ts groups ids,
                             k_events := finding_events s @ es\<rparr>
    \<and> map evt_finding es = ids \<and> (\<forall>e \<in> set es. evt_type e = Issued))"
  using assms
proof (induction groups arbitrary: s ids)
  case Nil
  then show ?case by (auto simp: ret_def findings_of_def)
next
  case (Cons g gs)
  obtain cat reasons where g: "g = (cat, reasons)" by fastforce
  from Cons.prems obtain fid u ids' where
    one: "issue_finding env sub run result cat reasons ts s = (Inr fid, u)" and
    rest: "map_each (\<lambda>(cat, reasons). issue_finding env sub run result cat reasons ts) gs u
             = (Inr ids', t)" and ids: "ids = fid # ids'"
    unfolding g by (auto elim!: bind_InrE dest!: retD)
  from issue_findingD [OF one] obtain e where
    e: "core_of u = (core_of s)\<lparr>k_findings :=
        findings s @ [make_finding_row env sub run result cat reasons ts fid],
        k_events := finding_events s @ [e]\<rparr>" "evt_finding e = fid" "evt_type e = Issued"
    and fresh: "\<forall>f \<in> set (findings s). fnd_id f \<noteq> fid" .
  have u: "findings u = findings s @ [make_finding_row env sub run result cat reasons ts fid]"
    "finding_events u = finding_events s @ [e]"
    by (simp_all add: core_of_eqD [OF e(1)])
  from Cons.IH [OF rest] obtain es where
    "length ids' = length gs" "distinct ids'" "\<forall>f \<in> set (findings u). fnd_id f \<notin> set ids'" "map evt_finding es = ids'" "\<forall>e \<in> set es. evt_type e = Issued"
    "core_of t = (core_of u)\<lparr>k_findings := findings u @ findings_of env sub run result ts gs ids',
                              k_events := finding_events u @ es\<rparr>" by blast
  with e u fresh show ?case
    by (intro conjI exI [of _ "e # es"]) (auto simp add: ids g findings_of_def)
qed


lemma resolve_listD:
  assumes "for_each (resolve_finding env resolving mine ts) fs s = (Inr x, t)"
  shows "\<exists>es. core_of t = (core_of s)\<lparr>k_events := finding_events s @ es\<rparr>
    \<and> map evt_finding es = fs
    \<and> (\<forall>e \<in> set es. evt_type e = ResolvedByRevision \<and> evt_resolving e = Some resolving)"
  using assms
proof (induction fs arbitrary: s)
  case Nil
  then show ?case by (auto simp: ret_def)
next
  case (Cons f fs)
  from Cons.prems obtain u where one: "resolve_finding env resolving mine ts f s = (Inr (), u)"
    and rest: "for_each (resolve_finding env resolving mine ts) fs u = (Inr x, t)"
    by (auto elim!: bind_InrE)
  from one obtain e where
    e: "core_of u = (core_of s)\<lparr>k_events := finding_events s @ [e]\<rparr>" "evt_finding e = f"
       "evt_type e = ResolvedByRevision" "evt_resolving e = Some resolving"
    unfolding resolve_finding_def Let_def
    by (elim bind_InrE append_finding_eventD)
       (auto dest!: append_outboxD append_auditD)
  have u: "finding_events u = finding_events s @ [e]"
    by (simp add: core_of_eqD [OF e(1)])
  from Cons.IH [OF rest] obtain es where
    "core_of t = (core_of u)\<lparr>k_events := finding_events u @ es\<rparr>" "map evt_finding es = fs"
    "\<forall>e \<in> set es. evt_type e = ResolvedByRevision \<and> evt_resolving e = Some resolving" by blast
  with e u show ?case by (intro exI [of _ "e # es"]) simp
qed

lemma resolve_predecessor_findingsD:
  assumes "resolve_predecessor_findings env pre resolving mine ts s = (Inr x, t)"
  obtains chain es where "ancestor_submissions (submissions s) pre = Some chain"
    "core_of t = (core_of s)\<lparr>k_events := finding_events s @ es\<rparr>"
    "map evt_finding es = unresolved_of chain s"
    "\<forall>e \<in> set es. evt_type e = ResolvedByRevision \<and> evt_resolving e = Some resolving"
proof -
  from assms obtain chain where c: "ancestor_submissions (submissions s) pre = Some chain"
    and run: "for_each (resolve_finding env resolving mine ts) (unresolved_of chain s) s = (Inr x, t)"
    unfolding resolve_predecessor_findings_def
    by (auto simp: raise_def split: option.splits)
  show thesis using resolve_listD [OF run] that [OF c] by blast
qed

lemma issue_analysis_reportD:
  assumes "issue_analysis_report env sub run result fs ts s = (Inr x, t)"
  obtains n where
    "core_of t = (core_of s)\<lparr>k_reports :=
        reports s @ [make_report_row env (make_report env sub run result fs ts x n)]\<rparr>"
    "(r_decision result = Risk) = (fs \<noteq> [])"
    "\<not> list_ex (report_clash (make_report_row env (make_report env sub run result fs ts x n))) (reports s)"
  using assms unfolding issue_analysis_report_def Let_def
  by (elim bind_InrE)
     (fastforce dest!: draw_uuid_state readingD require_InrD add_row_InrD retD append_outboxD append_auditD
        simp: report_outcome_valid_def Let_def)


text \<open>
  What \<open>conclude_run\<close> adds: one admission, the findings of a risk or the clearing events of
  any other outcome, and one report.
\<close>

definition clearing_events ::
    "ledger \<Rightarrow> submission \<Rightarrow> submission_row option \<Rightarrow> event_row list \<Rightarrow> bool" where
  "clearing_events s sub pre es \<longleftrightarrow>
     (case pre of
        None \<Rightarrow> es = []
      | Some p \<Rightarrow> \<exists>chain. ancestor_submissions (submissions s) (sub_id p) = Some chain
          \<and> map evt_finding es = unresolved_of chain s
          \<and> (\<forall>e \<in> set es. evt_type e = ResolvedByRevision
               \<and> evt_resolving e = Some (s_submission_id sub)))"

lemma conclude_runD:
  assumes "conclude_run env sub pre run result ts s = (Inr ids, t)"
  obtains x y n fs es where
    "core_of t = (core_of s)\<lparr>
        k_admissions := admissions s @ [make_admission_row env sub run result ts x],
        k_findings := findings s @ fs, k_events := finding_events s @ es,
        k_reports := reports s @ [make_report_row env (make_report env sub run result ids ts y n)]\<rparr>"
    "r_decision result = Risk \<longleftrightarrow> ids \<noteq> []"
    "if r_decision result = Risk
     then length ids = length (finding_groups result) \<and> distinct ids
        \<and> (\<forall>f \<in> set (findings s). fnd_id f \<notin> set ids)
        \<and> fs = findings_of env sub run result ts (finding_groups result) ids
        \<and> map evt_finding es = ids \<and> (\<forall>e \<in> set es. evt_type e = Issued)
     else fs = [] \<and> clearing_events s sub pre es"
proof -
  from assms obtain s1 s2 y where
    adm: "record_baseline_admission env sub run result ts s = (Inr (), s1)" and
    mid: "(if r_decision result = Risk then issue_findings env sub run result ts
           else bind (when_some pre (\<lambda>p. resolve_predecessor_findings env (sub_id p)
                  (s_submission_id sub) (s_mine_id sub) ts)) (\<lambda>_. ret [])) s1 = (Inr ids, s2)" and
    rep: "issue_analysis_report env sub run result ids ts s2 = (Inr y, t)"
    unfolding conclude_run_def by (elim bind_InrE) (auto dest!: retD)
  obtain x where c1: "core_of s1 = (core_of s)\<lparr>k_admissions :=
      admissions s @ [make_admission_row env sub run result ts x]\<rparr>"
    using record_baseline_admissionD [OF adm] .
  obtain n where c3: "core_of t = (core_of s2)\<lparr>k_reports :=
      reports s2 @ [make_report_row env (make_report env sub run result ids ts y n)]\<rparr>"
    and risk: "r_decision result = Risk \<longleftrightarrow> ids \<noteq> []"
    using issue_analysis_reportD [OF rep] .
  note t1 = core_of_eqD [OF c1]
  show thesis
  proof (cases "r_decision result = Risk")
    case True
    with mid have "issue_findings env sub run result ts s1 = (Inr ids, s2)" by simp
    from issue_listD [OF this [unfolded issue_findings_def]] obtain es where
      i: "length ids = length (finding_groups result)" "distinct ids"
         "\<forall>f \<in> set (findings s1). fnd_id f \<notin> set ids" "map evt_finding es = ids"
         "\<forall>e \<in> set es. evt_type e = Issued" and
      c2: "core_of s2 = (core_of s1)\<lparr>k_findings :=
             findings s1 @ findings_of env sub run result ts (finding_groups result) ids,
             k_events := finding_events s1 @ es\<rparr>" by blast
    show thesis
    proof (rule that [OF _ risk])
      show "core_of t = (core_of s)\<lparr>
        k_admissions := admissions s @ [make_admission_row env sub run result ts x],
        k_findings := findings s @ findings_of env sub run result ts (finding_groups result) ids,
        k_events := finding_events s @ es,
        k_reports := reports s @ [make_report_row env (make_report env sub run result ids ts y n)]\<rparr>"
        by (simp add: c3 c2 c1 t1 core_of_eqD [OF c2])
    qed (use True i t1 in simp)
  next
    case False
    have "\<exists>es. core_of s2 = (core_of s1)\<lparr>k_events := finding_events s1 @ es\<rparr>
        \<and> clearing_events s1 sub pre es"
    proof (cases pre)
      case None
      with mid False have "s2 = s1" by (simp add: when_some_def ret_def)
      with None show ?thesis by (auto simp: clearing_events_def)
    next
      case (Some p)
      with mid False have "resolve_predecessor_findings env (sub_id p) (s_submission_id sub)
          (s_mine_id sub) ts s1 = (Inr (), s2)"
        by (auto simp: when_some_def elim!: bind_InrE dest!: retD)
      from resolve_predecessor_findingsD [OF this] obtain chain es where
        "ancestor_submissions (submissions s1) (sub_id p) = Some chain"
        "core_of s2 = (core_of s1)\<lparr>k_events := finding_events s1 @ es\<rparr>"
        "map evt_finding es = unresolved_of chain s1"
        "\<forall>e \<in> set es. evt_type e = ResolvedByRevision
            \<and> evt_resolving e = Some (s_submission_id sub)" .
      then show ?thesis
        by (intro exI [of _ es]) (simp add: Some clearing_events_def)
    qed
    then obtain es where
      c2: "core_of s2 = (core_of s1)\<lparr>k_events := finding_events s1 @ es\<rparr>" and
      cl: "clearing_events s1 sub pre es" by blast
    have clearing: "clearing_events s sub pre es"
      using cl by (simp add: clearing_events_def unresolved_of_def t1 split: option.splits)
    show thesis
    proof (rule that [OF _ risk])
      show "core_of t = (core_of s)\<lparr>
        k_admissions := admissions s @ [make_admission_row env sub run result ts x],
        k_findings := findings s @ [], k_events := finding_events s @ es,
        k_reports := reports s @ [make_report_row env (make_report env sub run result ids ts y n)]\<rparr>"
        by (simp add: c3 c2 c1 t1 core_of_eqD [OF c2])
    qed (use False clearing in simp)
  qed
qed

end
