(* ===== verification/Regulatory_Spec.thy ===== *)
theory Regulatory_Spec
  imports Regulatory_Lineage Regulatory_Core
begin

text \<open>
  The abstract specification of the regulatory ledger: five kinds of business step on the
  business tables, and the invariants every sequence of them keeps. One analysis step adds
  one submission, its run, admission and report, and either the findings of a risk or the
  clearing events of the findings of the submissions it replaces.
\<close>

definition new_analysis ::
    "core \<Rightarrow> submission_row \<Rightarrow> run_row \<Rightarrow> admission_row \<Rightarrow> report_row \<Rightarrow> finding_row list \<Rightarrow>
       event_row list \<Rightarrow> bool" where
  "new_analysis c u r a rp fs es \<longleftrightarrow>
     revision_allowed (k_submissions c) u
     \<and> run_submission r = sub_id u \<and> run_mine r = sub_mine u
     \<and> run_id r \<notin> run_id ` set (k_runs c) \<and> run_decision r = r_decision (run_result r)
     \<and> adm_run a = run_id r \<and> adm_submission a = sub_id u
     \<and> adm_eligible a = baseline_eligible (run_result r)
     \<and> rep_run rp = run_id r \<and> rep_submission rp = sub_id u \<and> rep_mine rp = sub_mine u
     \<and> rep_outcome rp = run_decision r \<and> ar_finding_ids (rep_report rp) = map fnd_id fs
     \<and> (run_decision r = Risk \<longleftrightarrow> fs \<noteq> [])
     \<and> distinct (map fnd_id fs) \<and> fnd_id ` set fs \<inter> fnd_id ` set (k_findings c) = {}
     \<and> (\<forall>f \<in> set fs. fnd_run f = run_id r \<and> fnd_submission f = sub_id u \<and> fnd_mine f = sub_mine u)
     \<and> (if run_decision r = Risk
        then map evt_finding es = map fnd_id fs \<and> (\<forall>e \<in> set es. evt_type e = Issued)
        else (\<forall>e \<in> set es. evt_type e = ResolvedByRevision \<and> evt_resolving e = Some (sub_id u))
             \<and> map evt_finding es = map fnd_id (filter
                 (\<lambda>f. strict_ancestor (k_submissions c @ [u]) (sub_id u) (fnd_submission f)
                      \<and> \<not> is_resolved (k_events c) (fnd_id f)) (k_findings c)))"

definition add_analysis ::
    "submission_row \<Rightarrow> run_row \<Rightarrow> admission_row \<Rightarrow> report_row \<Rightarrow> finding_row list \<Rightarrow>
       event_row list \<Rightarrow> core \<Rightarrow> core" where
  "add_analysis u r a rp fs es c =
     c\<lparr>k_submissions := k_submissions c @ [u], k_runs := k_runs c @ [r],
       k_admissions := k_admissions c @ [a], k_findings := k_findings c @ fs,
       k_reports := k_reports c @ [rp], k_events := k_events c @ es\<rparr>"

inductive business_step :: "core \<Rightarrow> core \<Rightarrow> bool" where
  bound: "\<forall>b \<in> set (k_bindings c). bnd_agent b \<noteq> bnd_agent r \<and> bnd_mine b \<noteq> bnd_mine r \<Longrightarrow>
    business_step c (c\<lparr>k_bindings := k_bindings c @ [r]\<rparr>)"
| analyzed: "new_analysis c u r a rp fs es \<Longrightarrow> business_step c (add_analysis u r a rp fs es c)"
| explained: "f \<in> set (k_findings c) \<Longrightarrow> rsp_finding x = fnd_id f \<Longrightarrow> rsp_mine x = fnd_mine f \<Longrightarrow>
    evt_finding e = fnd_id f \<Longrightarrow> evt_type e = ExplanationRecorded \<Longrightarrow>
    business_step c (c\<lparr>k_responses := k_responses c @ [x], k_events := k_events c @ [e]\<rparr>)"
| batch_opened: "rp \<in> set (k_reports c) \<Longrightarrow> bat_report b = rep_id rp \<Longrightarrow> bat_mine b = rep_mine rp \<Longrightarrow>
    business_step c (c\<lparr>k_batches := k_batches c @ [b]\<rparr>)"
| acknowledged: "rp \<in> set (k_reports c) \<Longrightarrow> ack_report k = rep_id rp \<Longrightarrow> ack_mine k = rep_mine rp \<Longrightarrow>
    business_step c (c\<lparr>k_acks := k_acks c @ [k]\<rparr>)"

section \<open>Invariants\<close>

definition books_ok :: "core \<Rightarrow> bool" where
  "books_ok c \<longleftrightarrow>
     lineage (k_submissions c)
     \<and> map run_submission (k_runs c) = map sub_id (k_submissions c)
     \<and> map run_mine (k_runs c) = map sub_mine (k_submissions c)
     \<and> map adm_run (k_admissions c) = map run_id (k_runs c)
     \<and> map adm_eligible (k_admissions c) = map (\<lambda>r. baseline_eligible (run_result r)) (k_runs c)
     \<and> map rep_run (k_reports c) = map run_id (k_runs c)
     \<and> map rep_outcome (k_reports c) = map run_decision (k_runs c)
     \<and> distinct (map run_id (k_runs c))
     \<and> (\<forall>r \<in> set (k_runs c). run_decision r = r_decision (run_result r))"

definition findings_ok :: "core \<Rightarrow> bool" where
  "findings_ok c \<longleftrightarrow>
     distinct (map fnd_id (k_findings c))
     \<and> (\<forall>f \<in> set (k_findings c). \<exists>r \<in> set (k_runs c). run_id r = fnd_run f
          \<and> run_submission r = fnd_submission f \<and> run_mine r = fnd_mine f \<and> run_decision r = Risk)
     \<and> (\<forall>rp \<in> set (k_reports c). ar_finding_ids (rep_report rp) =
          map fnd_id (filter (\<lambda>f. fnd_run f = rep_run rp) (k_findings c)))
     \<and> (\<forall>r \<in> set (k_runs c). run_decision r = Risk \<longrightarrow> (\<exists>f \<in> set (k_findings c). fnd_run f = run_id r))
     \<and> (\<forall>e \<in> set (k_events c). evt_finding e \<in> fnd_id ` set (k_findings c))
     \<and> (\<forall>x \<in> set (k_responses c). \<exists>f \<in> set (k_findings c).
          fnd_id f = rsp_finding x \<and> fnd_mine f = rsp_mine x)"

text \<open>
  A finding is cleared exactly when some submission that replaces its own, directly or
  through further revisions, was analysed with a decision other than risk.
\<close>

definition replaced_without_risk :: "core \<Rightarrow> finding_row \<Rightarrow> bool" where
  "replaced_without_risk c f \<longleftrightarrow>
     (\<exists>r \<in> set (k_runs c). run_decision r \<noteq> Risk
        \<and> strict_ancestor (k_submissions c) (run_submission r) (fnd_submission f))"

definition clearing_ok :: "core \<Rightarrow> bool" where
  "clearing_ok c \<longleftrightarrow>
     (\<forall>f \<in> set (k_findings c). is_resolved (k_events c) (fnd_id f) \<longleftrightarrow> replaced_without_risk c f)
     \<and> distinct (map evt_finding (filter (\<lambda>e. evt_type e = ResolvedByRevision) (k_events c)))"

definition identities_ok :: "core \<Rightarrow> bool" where
  "identities_ok c \<longleftrightarrow>
     distinct (map bnd_agent (k_bindings c)) \<and> distinct (map bnd_mine (k_bindings c))"

definition business_ok :: "core \<Rightarrow> bool" where
  "business_ok c \<longleftrightarrow> books_ok c \<and> findings_ok c \<and> clearing_ok c \<and> identities_ok c"

lemma add_analysis_sel [simp]:
  "k_submissions (add_analysis u r a rp fs es c) = k_submissions c @ [u]"
  "k_runs (add_analysis u r a rp fs es c) = k_runs c @ [r]"
  "k_admissions (add_analysis u r a rp fs es c) = k_admissions c @ [a]"
  "k_findings (add_analysis u r a rp fs es c) = k_findings c @ fs"
  "k_reports (add_analysis u r a rp fs es c) = k_reports c @ [rp]"
  "k_events (add_analysis u r a rp fs es c) = k_events c @ es"
  "k_responses (add_analysis u r a rp fs es c) = k_responses c"
  "k_bindings (add_analysis u r a rp fs es c) = k_bindings c"
  by (simp_all add: add_analysis_def)

lemma is_resolved_append:
  "is_resolved (es @ es') f \<longleftrightarrow> is_resolved es f \<or> is_resolved es' f"
  by (simp add: is_resolved_def)

lemma is_resolved_other: "\<forall>e \<in> set es. evt_type e \<noteq> ResolvedByRevision \<Longrightarrow> \<not> is_resolved es f"
  by (auto simp: is_resolved_def list_ex_iff)

lemma is_resolved_all:
  "\<forall>e \<in> set es. evt_type e = ResolvedByRevision \<Longrightarrow> is_resolved es f \<longleftrightarrow> f \<in> set (map evt_finding es)"
  by (auto simp: is_resolved_def list_ex_iff)

lemma books_step: "business_step c c' \<Longrightarrow> books_ok c \<Longrightarrow> books_ok c'"
  by (induction rule: business_step.induct)
     (auto simp: books_ok_def new_analysis_def intro: lineage.accepted)

lemma identities_step: "business_step c c' \<Longrightarrow> identities_ok c \<Longrightarrow> identities_ok c'"
  by (induction rule: business_step.induct) (auto simp: identities_ok_def)

lemma rep_run_fresh:
  assumes "books_ok c" "run_id r \<notin> run_id ` set (k_runs c)" "rp \<in> set (k_reports c)"
  shows "rep_run rp \<noteq> run_id r"
proof -
  have "set (map rep_run (k_reports c)) = set (map run_id (k_runs c))"
    using assms(1) by (simp add: books_ok_def)
  then have "rep_run rp \<in> run_id ` set (k_runs c)" using assms(3) by force
  with assms(2) show ?thesis by metis
qed

lemma findings_step:
  assumes "business_step c c'" "books_ok c" "findings_ok c"
  shows "findings_ok c'"
  using assms
proof (induction rule: business_step.induct)
  case (analyzed c u r a rp fs es)
  note n = analyzed.hyps [unfolded new_analysis_def]
  note ok = analyzed.prems(2) [unfolded findings_ok_def]
  have old: "filter (\<lambda>f. fnd_run f = rep_run p) fs = []" if "p \<in> set (k_reports c)" for p
  proof -
    have "rep_run p \<noteq> run_id r" using rep_run_fresh [OF analyzed.prems(1) _ that] n by blast
    with n show ?thesis by (simp add: filter_empty_conv)
  qed
  have new: "filter (\<lambda>f. fnd_run f = run_id r) (k_findings c @ fs) = fs"
  proof -
    have "\<forall>f \<in> set (k_findings c). fnd_run f \<in> run_id ` set (k_runs c)"
      using ok [THEN conjunct2, THEN conjunct1] by (metis image_eqI)
    then have "\<forall>f \<in> set (k_findings c). fnd_run f \<noteq> run_id r" using n by metis
    then have "filter (\<lambda>f. fnd_run f = run_id r) (k_findings c) = []" by (simp add: filter_empty_conv)
    then show ?thesis using n by (simp add: filter_id_conv)
  qed
  have ev: "evt_finding ` set es \<subseteq> fnd_id ` set (k_findings c @ fs)"
  proof -
    have "map evt_finding es = map fnd_id fs
        \<or> (\<exists>p. map evt_finding es = map fnd_id (filter p (k_findings c)))"
    proof (cases "run_decision r = Risk")
      case True
      with n show ?thesis by simp
    next
      case False
      with n show ?thesis by (intro disjI2 exI) simp
    qed
    then have "set (map evt_finding es) \<subseteq> fnd_id ` set (k_findings c @ fs)"
    proof (elim disjE exE)
      assume eq: "map evt_finding es = map fnd_id fs"
      show ?thesis unfolding eq by auto
    next
      fix p
      assume eq: "map evt_finding es = map fnd_id (filter p (k_findings c))"
      show ?thesis unfolding eq by auto
    qed
    then show ?thesis by simp
  qed
  show ?case
    unfolding findings_ok_def add_analysis_sel
  proof (intro conjI)
    show "distinct (map fnd_id (k_findings c @ fs))" using n ok by auto
    show "\<forall>f \<in> set (k_findings c @ fs). \<exists>r \<in> set (k_runs c @ [r]). run_id r = fnd_run f
        \<and> run_submission r = fnd_submission f \<and> run_mine r = fnd_mine f \<and> run_decision r = Risk"
      using n ok by (fastforce simp: ball_Un)
    show "\<forall>p \<in> set (k_reports c @ [rp]). ar_finding_ids (rep_report p) =
        map fnd_id (filter (\<lambda>f. fnd_run f = rep_run p) (k_findings c @ fs))"
      using n ok old new by simp
    show "\<forall>q \<in> set (k_runs c @ [r]). run_decision q = Risk \<longrightarrow>
        (\<exists>f \<in> set (k_findings c @ fs). fnd_run f = run_id q)"
    proof
      fix q
      assume "q \<in> set (k_runs c @ [r])"
      then consider "q \<in> set (k_runs c)" | "q = r" by auto
      then show "run_decision q = Risk \<longrightarrow> (\<exists>f \<in> set (k_findings c @ fs). fnd_run f = run_id q)"
      proof cases
        case 1
        then show ?thesis using ok by auto
      next
        case 2
        then show ?thesis using n by (cases fs) auto
      qed
    qed
    show "\<forall>e \<in> set (k_events c @ es). evt_finding e \<in> fnd_id ` set (k_findings c @ fs)"
      using ok ev by auto
    show "\<forall>x \<in> set (k_responses c). \<exists>f \<in> set (k_findings c @ fs).
        fnd_id f = rsp_finding x \<and> fnd_mine f = rsp_mine x"
      using ok by fastforce
  qed
qed (auto simp: findings_ok_def)

lemma row_of_run:
  assumes "books_ok c" "r \<in> set (k_runs c)"
  shows "run_submission r \<in> sub_id ` set (k_submissions c)"
proof -
  have "set (map run_submission (k_runs c)) = set (map sub_id (k_submissions c))"
    using assms(1) by (simp add: books_ok_def)
  with assms(2) show ?thesis by force
qed

lemma run_of_finding:
  "findings_ok c \<Longrightarrow> f \<in> set (k_findings c) \<Longrightarrow> \<exists>r \<in> set (k_runs c). run_submission r = fnd_submission f"
  by (auto simp: findings_ok_def)

text \<open>The new run clears exactly what its clearing events say.\<close>

lemma clearing_analyzed:
  assumes n: "new_analysis c u r a rp fs es" and books: "books_ok c" and fok: "findings_ok c"
    and cok: "clearing_ok c"
  shows "clearing_ok (add_analysis u r a rp fs es c)"
proof -
  let ?rows = "k_submissions c @ [u]"
  note n' = n [unfolded new_analysis_def]
  have lin: "lineage (k_submissions c)" and new: "revision_allowed (k_submissions c) u"
    using books n' by (auto simp: books_ok_def)
  have old_runs: "strict_ancestor ?rows (run_submission q) x \<longleftrightarrow>
      strict_ancestor (k_submissions c) (run_submission q) x" if "q \<in> set (k_runs c)" for q x
    using strict_ancestor_append_old [OF lin new] row_of_run [OF books that] allowed_fresh [OF new]
    by metis
  have after: "replaced_without_risk (add_analysis u r a rp fs es c) f \<longleftrightarrow>
      replaced_without_risk c f \<or> run_decision r \<noteq> Risk \<and> strict_ancestor ?rows (sub_id u) (fnd_submission f)"
    for f using n' old_runs by (auto simp: replaced_without_risk_def)
  have events_old: "\<forall>e \<in> set (k_events c). evt_finding e \<in> fnd_id ` set (k_findings c)"
    using fok by (simp add: findings_ok_def)
  have not_new: "\<not> replaced_without_risk c f" if "f \<in> set fs" for f
  proof
    assume "replaced_without_risk c f"
    then obtain q :: run_row where "strict_ancestor (k_submissions c) (run_submission q) (fnd_submission f)"
      unfolding replaced_without_risk_def by blast
    from strict_ancestor_rows [OF lin this] have "fnd_submission f \<in> sub_id ` set (k_submissions c)"
      by (metis image_eqI)
    with n' that allowed_fresh [OF new] show False by metis
  qed
  show ?thesis
  proof (cases "run_decision r = Risk")
    case True
    then have es: "\<forall>e \<in> set es. evt_type e \<noteq> ResolvedByRevision" using n' by auto
    have "\<not> is_resolved (k_events c) (fnd_id f)" if "f \<in> set fs" for f
      using events_old n' that by (fastforce simp: is_resolved_def list_ex_iff)
    moreover have "filter (\<lambda>e. evt_type e = ResolvedByRevision) es = []"
      using es by (simp add: filter_empty_conv)
    ultimately show ?thesis
      using cok True not_new
      by (auto simp: clearing_ok_def is_resolved_append is_resolved_other [OF es] after)
  next
    case False
    let ?todo = "filter (\<lambda>f. strict_ancestor ?rows (sub_id u) (fnd_submission f)
        \<and> \<not> is_resolved (k_events c) (fnd_id f)) (k_findings c)"
    have es: "\<forall>e \<in> set es. evt_type e = ResolvedByRevision"
      and ids: "map evt_finding es = map fnd_id ?todo" and fs: "fs = []"
      using n' False by auto
    have resolved: "is_resolved es (fnd_id f) \<longleftrightarrow>
        strict_ancestor ?rows (sub_id u) (fnd_submission f) \<and> \<not> is_resolved (k_events c) (fnd_id f)"
      if "f \<in> set (k_findings c)" for f
    proof -
      have "inj_on fnd_id (set (k_findings c))"
        using fok by (simp add: findings_ok_def distinct_map)
      then have "fnd_id f \<in> fnd_id ` set ?todo \<longleftrightarrow> f \<in> set ?todo"
        using that by (auto simp: inj_on_def)
      then show ?thesis using that by (simp add: is_resolved_all [OF es] ids)
    qed
    have "filter (\<lambda>e. evt_type e = ResolvedByRevision) es = es"
      using es by (simp add: filter_id_conv)
    moreover have "distinct (map evt_finding es)"
      using fok by (simp add: ids findings_ok_def distinct_map_filter)
    moreover have "\<not> (\<exists>e \<in> set (k_events c). evt_type e = ResolvedByRevision \<and> evt_finding e \<in> set (map evt_finding es))"
      by (auto simp: ids is_resolved_def list_ex_iff)
    moreover have "\<forall>f \<in> set (k_findings c @ fs). is_resolved (k_events c @ es) (fnd_id f) \<longleftrightarrow>
        replaced_without_risk (add_analysis u r a rp fs es c) f"
      unfolding after is_resolved_append using cok False resolved fs by (auto simp: clearing_ok_def)
    ultimately show ?thesis using cok unfolding clearing_ok_def add_analysis_sel by auto
  qed
qed

lemma clearing_other:
  assumes "clearing_ok c" "\<forall>e \<in> set es. evt_type e \<noteq> ResolvedByRevision"
    "k_events c' = k_events c @ es" "k_findings c' = k_findings c" "k_runs c' = k_runs c"
    "k_submissions c' = k_submissions c"
  shows "clearing_ok c'"
proof -
  have "filter (\<lambda>e. evt_type e = ResolvedByRevision) es = []"
    using assms(2) by (simp add: filter_empty_conv)
  then show ?thesis
    using assms(1) by (simp add: clearing_ok_def assms(3-6) is_resolved_append
        is_resolved_other [OF assms(2)] replaced_without_risk_def)
qed

lemma business_step_ok: "business_step c c' \<Longrightarrow> business_ok c \<Longrightarrow> business_ok c'"
proof -
  assume step: "business_step c c'" and ok: "business_ok c"
  have cok: "clearing_ok c" using ok by (simp add: business_ok_def)
  have "clearing_ok c'"
    using step
  proof (cases rule: business_step.cases)
    case (analyzed u r a rp fs es)
    with ok show ?thesis by (simp add: clearing_analyzed business_ok_def)
  next
    case (explained f x e)
    then show ?thesis by (intro clearing_other [OF cok, of "[e]"]) simp_all
  next
    case (bound r)
    then show ?thesis by (intro clearing_other [OF cok, of "[]"]) simp_all
  next
    case (batch_opened rp b)
    then show ?thesis by (intro clearing_other [OF cok, of "[]"]) simp_all
  next
    case (acknowledged rp k)
    then show ?thesis by (intro clearing_other [OF cok, of "[]"]) simp_all
  qed
  then show "business_ok c'"
    using books_step [OF step] findings_step [OF step] identities_step [OF step] ok
    by (simp add: business_ok_def)
qed

lemma business_steps_ok: "business_step\<^sup>*\<^sup>* c c' \<Longrightarrow> business_ok c \<Longrightarrow> business_ok c'"
  by (induction rule: rtranclp_induct) (auto intro: business_step_ok)

lemma business_ok_empty: "business_ok (core_of empty_ledger)"
  by (simp add: business_ok_def books_ok_def findings_ok_def clearing_ok_def identities_ok_def
      core_of_def empty_ledger_def lineage.none)

end
