(* ===== verification/Regulatory_Errors.thy ===== *)
theory Regulatory_Errors
  imports Regulatory_Requests
begin

text \<open>
  Which errors an operation can raise, as a set computed compositionally: \<open>raises E m\<close> says
  that \<open>m\<close> raises nothing outside \<open>E\<close>, whatever the ledger.
\<close>

definition raises :: "reg_error set \<Rightarrow> 'a store_op \<Rightarrow> bool" where
  "raises E m \<longleftrightarrow> (\<forall>s e t. m s = (Inl e, t) \<longrightarrow> e \<in> E)"

named_theorems raises_rules \<open>introduction rules for \<open>raises\<close>\<close>

lemma raisesD: "raises E m \<Longrightarrow> m s = (Inl e, t) \<Longrightarrow> e \<in> E"
  by (auto simp: raises_def)

lemma raises_basic [raises_rules]:
  "raises E (ret a)" "raises E (reading f)" "raises E (writing g)"
  "e \<in> E \<Longrightarrow> raises E (raise e)" "e \<in> E \<Longrightarrow> raises E (require c e)"
  "raises E (now env)" "raises E (draw_uuid env)"
  by (auto simp: raises_def op_defs require_def now_def draw_uuid_def)

lemma raises_bind [raises_rules]:
  "raises E m \<Longrightarrow> (\<And>a. raises E (f a)) \<Longrightarrow> raises E (bind m f)"
  by (auto simp: raises_def bind_def split: prod.splits sum.splits)

lemma raises_cases [raises_rules]:
  "raises E a \<Longrightarrow> raises E b \<Longrightarrow> raises E (if c then a else b)"
  "raises E a \<Longrightarrow> (\<And>x. raises E (f x)) \<Longrightarrow> raises E (case y of None \<Rightarrow> a | Some x \<Rightarrow> f x)"
  "(\<And>x y. raises E (g x y)) \<Longrightarrow> raises E (case p of (x, y) \<Rightarrow> g x y)"
  "(\<And>x. raises E (h x)) \<Longrightarrow> raises E (let x = v in h x)"
  by (auto split: option.split prod.split)

lemma raises_when_some [raises_rules]: "(\<And>a. raises E (f a)) \<Longrightarrow> raises E (when_some x f)"
  by (auto simp: when_some_def intro: raises_basic split: option.split)

lemma raises_for_each [raises_rules]: "(\<And>x. raises E (f x)) \<Longrightarrow> raises E (for_each f xs)"
  by (induction xs) (auto intro!: raises_rules)

lemma raises_map_each [raises_rules]: "(\<And>x. raises E (f x)) \<Longrightarrow> raises E (map_each f xs)"
  by (induction xs) (auto intro!: raises_rules)

lemma raises_add_row [raises_rules]: "e \<in> E \<Longrightarrow> raises E (add_row tab upd clash e r)"
  by (auto simp: raises_def add_row_cases split: if_splits)

lemma raises_store_transaction [raises_rules]: "raises E m \<Longrightarrow> raises E (store_transaction m)"
proof (unfold raises_def, intro allI impI)
  fix s e t
  assume m: "\<forall>s e t. m s = (Inl e, t) \<longrightarrow> e \<in> E" and r: "store_transaction m s = (Inl e, t)"
  then have "\<exists>s' t'. m s' = (Inl e, t')"
    by (auto simp: store_transaction_def transaction_def split: if_splits prod.splits sum.splits)
  with m show "e \<in> E" by blast
qed

section \<open>Helpers\<close>

lemma raises_append [raises_rules]:
  assumes "ConstraintViolation \<in> E"
  shows "raises E (append_audit env ty agg_ty agg mine payload ts)"
    "raises E (append_finding_event env f ety res payload ts)"
    "raises E (append_outbox env mn kind agg payload ts sq)"
    "raises E (insert_inbox_command r)"
    "raises E (insert_daily_facts env sub)"
    "raises E (anonymous_peer_bands env p sub)"
    "raises E (remember_command env sender key msg mn rkind result ts)"
  unfolding append_audit_def append_finding_event_def append_outbox_def insert_inbox_command_def
    insert_daily_facts_def anonymous_peer_bands_def frozen_cohort_def remember_command_def prod.case
  by (intro raises_rules assms)+

lemma raises_messages [raises_rules]:
  assumes "ConstraintViolation \<in> E" "MessageIdReused \<in> E"
  shows "raises E (insert_exchange_message env m ts)"
    "raises E (record_inbound env m mine ts)"
  unfolding record_inbound_def insert_exchange_message_def
  by (intro raises_rules assms)+

lemma raises_identity [raises_rules]:
  "AgentNotRegistered \<in> E \<Longrightarrow> AgentOfOtherMine \<in> E \<Longrightarrow> raises E (assert_agent_mine agent mine)"
  "ConstraintViolation \<in> E \<Longrightarrow> DurableIdempotencyConflict \<in> E \<Longrightarrow>
     raises E (claimed_command env sender key msg mine ts)"
  unfolding assert_agent_mine_def claimed_command_def find_inbox_command_def prod.case
  by (intro raises_rules; assumption)+

lemma raises_receipts [raises_rules]:
  assumes "ReceiptNotFound \<in> E"
  shows "raises E (receipt_for_submission x replay)"
    "raises E (response_batch_receipt x replay)"
    "raises E (delivery_ack_receipt x replay)"
  unfolding receipt_for_submission_def response_batch_receipt_def delivery_ack_receipt_def
  by (intro raises_rules assms)+

section \<open>Commands\<close>

definition revision_errors :: "reg_error set" where
  "revision_errors =
     {RevisionWithoutPredecessor, PredecessorMissing, RevisionCrossesMine, RevisionChangesPeriod,
      RevisionNotIncremented, PredecessorAlreadyRevised}"

definition envelope_errors :: "reg_error set" where
  "envelope_errors =
     {EnvelopeNotInbound, EnvelopeMineDiffers, EnvelopeAgentDiffers, MessageIdReused}"

lemma raises_validate_revision [raises_rules]:
  "revision_errors \<subseteq> E \<Longrightarrow> raises E (validate_revision sub)"
  unfolding validate_revision_def by (intro raises_rules) (auto simp: revision_errors_def)

lemma raises_receive_submission [raises_rules]:
  "revision_errors \<union> {SubmissionRowRefused, ConstraintViolation} \<subseteq> E \<Longrightarrow>
     raises E (receive_submission env sub key ts)"
  unfolding receive_submission_def by (intro raises_rules) auto

lemma raises_run_analysis [raises_rules]:
  "ConstraintViolation \<in> E \<Longrightarrow> raises E (run_analysis env p sub)"
  unfolding run_analysis_def by (intro raises_rules)

lemma raises_resolve_predecessor_findings [raises_rules]:
  "{QueryDiverges, ConstraintViolation} \<subseteq> E \<Longrightarrow>
     raises E (resolve_predecessor_findings env pre resolving mine ts)"
  unfolding resolve_predecessor_findings_def resolve_finding_def by (intro raises_rules) auto

lemma raises_outcome [raises_rules]:
  "ConstraintViolation \<in> E \<Longrightarrow> raises E (record_baseline_admission env sub run result ts)"
  "ConstraintViolation \<in> E \<Longrightarrow> raises E (issue_findings env sub run result ts)"
  "{ReportOutcomeInvalid, ConstraintViolation} \<subseteq> E \<Longrightarrow>
     raises E (issue_analysis_report env sub run result ids ts)"
  unfolding record_baseline_admission_def issue_findings_def issue_finding_def
    issue_analysis_report_def
  by (intro raises_rules; auto)+

lemma raises_conclude_run [raises_rules]:
  "{QueryDiverges, ReportOutcomeInvalid, ConstraintViolation} \<subseteq> E \<Longrightarrow>
     raises E (conclude_run env sub pre run result ts)"
  unfolding conclude_run_def by (intro raises_rules) auto

lemma raises_analyze_new_submission [raises_rules]:
  "revision_errors \<union> {SubmissionRowRefused, QueryDiverges, ReportOutcomeInvalid,
     ConstraintViolation} \<subseteq> E \<Longrightarrow>
     raises E (analyze_new_submission env p sub key agent msg ts)"
  unfolding analyze_new_submission_def by (intro raises_rules) auto

lemma raises_admit_submission_envelope [raises_rules]:
  "envelope_errors \<union> {ConstraintViolation} \<subseteq> E \<Longrightarrow>
     raises E (admit_submission_envelope env sub agent ts m)"
  unfolding admit_submission_envelope_def by (intro raises_rules) (auto simp: envelope_errors_def)

definition submission_errors :: "reg_error set" where
  "submission_errors =
     revision_errors \<union> envelope_errors \<union>
     {FuturePeriod, AgentNotRegistered, AgentOfOtherMine, DurableIdempotencyConflict,
      KeyOfOtherCommand, KeyUsedWithOtherPayload, ReceiptNotFound, SubmissionRowRefused,
      QueryDiverges, ReportOutcomeInvalid, ConstraintViolation}"

lemma raises_submit_and_analyze [raises_rules]:
  "submission_errors \<subseteq> E \<Longrightarrow> raises E (submit_and_analyze env sub agent key msg p)"
  unfolding submit_and_analyze_def submit_body_def submission_errors_def
  by (intro raises_rules) auto

lemma raises_store_response [raises_rules]:
  "ConstraintViolation \<in> E \<Longrightarrow> raises E (store_response env r ts)"
  unfolding store_response_def by (intro raises_rules)

lemma raises_store_batch [raises_rules]:
  "{FindingNotFound, ConstraintViolation} \<subseteq> E \<Longrightarrow> raises E (store_batch env wire report mine rs ts)"
  unfolding store_batch_def store_batch_item_def by (intro raises_rules) auto

lemma raises_new_batch [raises_rules]:
  "{ReportNotInMine, FindingNotInReport, FindingNotFound, ConstraintViolation} \<subseteq> E \<Longrightarrow>
     raises E (new_batch env wire report mine rs msg sender key ts)"
  unfolding new_batch_def by (intro raises_rules) auto

lemma raises_new_ack [raises_rules]:
  "{DeliveryMessageNotFound, ConstraintViolation} \<subseteq> E \<Longrightarrow>
     raises E (new_ack env a msg sender key ts)"
  unfolding new_ack_def by (intro raises_rules) auto

end
