(* ===== verification/Regulatory_Refinement.thy ===== *)
theory Regulatory_Refinement
  imports Regulatory_Spec Regulatory_Errors
begin

text \<open>
  The commands refine the abstract steps of \<open>Regulatory_Spec\<close>: a request moves the business
  tables along a sequence of abstract steps, also when it ends in the durable idempotency
  conflict, which commits what the scope had done before. Hence every reachable ledger
  satisfies the invariants of the specification. Any other error leaves the whole ledger as
  it was, up to consumed identifiers and clock readings.
\<close>

abbreviation steps :: "core \<Rightarrow> core \<Rightarrow> bool" where
  "steps \<equiv> business_step\<^sup>*\<^sup>*"

definition kept_result :: "reg_error + 'a \<Rightarrow> bool" where
  "kept_result r \<longleftrightarrow> (case r of Inr _ \<Rightarrow> True | Inl e \<Rightarrow> durable_error e)"

text \<open>Whenever the writes of \<open>m\<close> are kept they are a sequence of abstract steps.\<close>

definition refined :: "(core \<Rightarrow> bool) \<Rightarrow> 'a store_op \<Rightarrow> bool" where
  "refined P m \<longleftrightarrow>
     (\<forall>s r t. business_ok (core_of s) \<longrightarrow> P (core_of s) \<longrightarrow> m s = (r, t) \<longrightarrow> kept_result r \<longrightarrow>
        steps (core_of s) (core_of t))"

lemma kept_result_simps [simp]:
  "kept_result (Inr a)" "kept_result (Inl e) \<longleftrightarrow> durable_error e"
  by (simp_all add: kept_result_def)

lemma refinedD:
  "refined P m \<Longrightarrow> business_ok (core_of s) \<Longrightarrow> P (core_of s) \<Longrightarrow> m s = (r, t) \<Longrightarrow> kept_result r \<Longrightarrow>
     steps (core_of s) (core_of t)"
  unfolding refined_def by blast

lemma refinedI:
  assumes step: "\<And>s a t. business_ok (core_of s) \<Longrightarrow> P (core_of s) \<Longrightarrow> m s = (Inr a, t) \<Longrightarrow>
      steps (core_of s) (core_of t)"
    and free: "raises (- {DurableIdempotencyConflict}) m"
  shows "refined P m"
  unfolding refined_def
proof (intro allI impI)
  fix s r t
  assume *: "business_ok (core_of s)" "P (core_of s)" "m s = (r, t)" "kept_result r"
  show "steps (core_of s) (core_of t)"
  proof (cases r)
    case (Inl e)
    with * raisesD [OF free, of s e t] show ?thesis by (simp add: durable_error_def)
  next
    case (Inr a)
    with * show ?thesis by (intro step) auto
  qed
qed

lemma refined_noise: "evolves same_core m \<Longrightarrow> refined P m"
  unfolding refined_def by (metis core_unchanged rtranclp.rtrancl_refl)

lemma refined_bind:
  assumes "refined P m" "\<And>a. refined (\<lambda>_. True) (f a)"
  shows "refined P (bind m f)"
  unfolding refined_def
proof (intro allI impI)
  fix s r t
  assume ok: "business_ok (core_of s)" "P (core_of s)" and run: "bind m f s = (r, t)"
    and kept: "kept_result r"
  obtain q u where q: "m s = (q, u)" by fastforce
  show "steps (core_of s) (core_of t)"
  proof (cases q)
    case (Inl e)
    with q run kept refinedD [OF assms(1) ok q] show ?thesis by (auto simp: bind_def)
  next
    case (Inr a)
    with q run have f: "f a u = (r, t)" by (simp add: bind_def)
    have su: "steps (core_of s) (core_of u)" using refinedD [OF assms(1) ok q] Inr by simp
    have "steps (core_of u) (core_of t)"
      by (rule refinedD [OF assms(2) business_steps_ok [OF su ok(1)] TrueI f kept])
    with su show ?thesis by (rule rtranclp_trans)
  qed
qed

text \<open>A prefix that does not touch the business tables keeps what is known of them.\<close>

lemma refined_weaken: "refined P m \<Longrightarrow> (\<And>c. Q c \<Longrightarrow> P c) \<Longrightarrow> refined Q m"
  unfolding refined_def by blast

lemma refined_noise_bind:
  assumes "evolves same_core m" "\<And>a. refined P (f a)"
  shows "refined P (bind m f)"
  unfolding refined_def
proof (intro allI impI)
  fix s r t
  assume ok: "business_ok (core_of s)" "P (core_of s)" and run: "bind m f s = (r, t)"
    and kept: "kept_result r"
  obtain q u where q: "m s = (q, u)" by fastforce
  note c = core_unchanged [OF q assms(1)]
  show "steps (core_of s) (core_of t)"
  proof (cases q)
    case (Inl e)
    with q run c show ?thesis by (auto simp: bind_def)
  next
    case (Inr a)
    with q run have "f a u = (r, t)" by (simp add: bind_def)
    with refinedD [OF assms(2), of u a r t] ok kept show ?thesis by (simp add: c)
  qed
qed

lemma refined_reading_bind:
  assumes "\<And>s. Q (g s) (core_of s)" "\<And>a. refined (Q a) (f a)"
  shows "refined P (bind (reading g) f)"
  unfolding refined_def
proof (intro allI impI)
  fix s r t
  assume ok: "business_ok (core_of s)" and run: "bind (reading g) f s = (r, t)" "kept_result r"
  from run have "f (g s) s = (r, t)" by simp
  from refinedD [OF assms(2) ok assms(1) this run(2)] show "steps (core_of s) (core_of t)" .
qed

lemma refined_require_bind:
  assumes "c \<Longrightarrow> refined P (f ())"
  shows "refined P (bind (require c e) f)"
  using assms by (auto simp: bind_require refined_def raise_def)

lemma refined_raise: "refined P (raise e)"
  by (auto simp: refined_def raise_def)

lemma refined_transaction:
  assumes "refined P m"
  shows "refined P (store_transaction m)"
  unfolding refined_def
proof (intro allI impI)
  fix s r t
  assume ok: "business_ok (core_of s)" "P (core_of s)" and run: "store_transaction m s = (r, t)"
    and kept: "kept_result r"
  show "steps (core_of s) (core_of t)"
  proof (cases "in_tx s")
    case True
    with run have "m s = (r, t)" by (simp add: store_transaction_def)
    with assms ok kept show ?thesis by (blast dest: refinedD)
  next
    case False
    with run kept obtain u where u: "m (set_in_tx True s) = (r, u)" and t: "core_of t = core_of u"
      by (auto simp: store_transaction_def transaction_def split: prod.splits sum.splits if_splits)
    show ?thesis using refinedD [OF assms _ _ u kept] ok by (simp add: t)
  qed
qed

lemma refined_map_each:
  "(\<And>x. refined (\<lambda>_. True) (f x)) \<Longrightarrow> refined (\<lambda>_. True) (map_each f xs)"
  by (induction xs) (auto intro!: refined_bind intro: refined_noise noise.evolves_ret)

section \<open>Submissions\<close>

lemma make_submission_row_sel [simp]:
  "sub_id (make_submission_row env sub key pre ts) = s_submission_id sub"
  "sub_mine (make_submission_row env sub key pre ts) = s_mine_id sub"
  "sub_revision (make_submission_row env sub key pre ts) = s_revision sub"
  "sub_supersedes (make_submission_row env sub key pre ts) = s_supersedes sub"
  "sub_period_start (make_submission_row env sub key pre ts) = s_period_start sub"
  "sub_period_end (make_submission_row env sub key pre ts) = s_period_end sub"
  by (simp_all add: make_submission_row_def)

lemma validated_allowed:
  assumes v: "validate_revision sub s = (Inr pre, s)"
    and fresh: "\<not> list_ex (submission_clash (make_submission_row env sub key pre ts)) (submissions s)"
  shows "revision_allowed (submissions s) (make_submission_row env sub key pre ts)"
proof -
  have "s_submission_id sub \<notin> sub_id ` set (submissions s)"
    using fresh by (force simp: list_ex_iff submission_clash_def)
  then show ?thesis
    using validate_revisionD(2) [OF v]
    by (auto simp: revision_allowed_def dest!: find_Some_mem split: option.splits)
qed

lemma findings_of_ids [simp]:
  "length ids = length groups \<Longrightarrow> map fnd_id (findings_of env sub run result ts groups ids) = ids"
  by (induction ids groups rule: list_induct2) (auto simp: findings_of_def)

lemma findings_of_fields:
  "f \<in> set (findings_of env sub run result ts groups ids) \<Longrightarrow>
     fnd_run f = run \<and> fnd_submission f = s_submission_id sub \<and> fnd_mine f = s_mine_id sub"
  by (auto simp: findings_of_def)

text \<open>The clearing events of the code are those of the specification.\<close>

lemma clearing_events_spec:
  assumes lin: "lineage (submissions s)" and new: "revision_allowed (submissions s) u"
    and u: "u = make_submission_row env sub key pre ts"
    and v: "validate_revision sub s = (Inr pre, s)"
    and t: "submissions t = submissions s @ [u]" "findings t = findings s"
      "finding_events t = finding_events s"
    and clear: "clearing_events t sub pre es"
  shows "(\<forall>e \<in> set es. evt_type e = ResolvedByRevision \<and> evt_resolving e = Some (sub_id u))
    \<and> map evt_finding es = map fnd_id (filter
        (\<lambda>f. strict_ancestor (submissions s @ [u]) (sub_id u) (fnd_submission f)
             \<and> \<not> is_resolved (finding_events s) (fnd_id f)) (findings s))"
proof (cases pre)
  case None
  then have "s_supersedes sub = None"
    using validate_revisionD(2) [OF v] by (auto split: option.splits)
  then have "\<not> revises (submissions s @ [u]) (sub_id u) q" for q
    using revises_row [OF lineage.accepted [OF lin new], of u q] u by simp
  then have "\<not> strict_ancestor (submissions s @ [u]) (sub_id u) a" for a
    unfolding strict_ancestor_def by (metis tranclpD)
  with None clear show ?thesis by (simp add: clearing_events_def)
next
  case (Some p)
  then have sup: "sub_supersedes u = Some (sub_id p)"
    using validate_revisionD(2) [OF v] u by (auto dest!: find_Some_mem split: option.splits)
  obtain c where "ancestor_submissions (submissions s @ [u]) (sub_id p) = Some c"
    "set c = {a. strict_ancestor (submissions s @ [u]) (sub_id u) a}"
    using ancestors_of_revision [OF lineage.accepted [OF lin new] sup] by blast
  with Some clear show ?thesis
    by (simp add: clearing_events_def t unresolved_of_def u)
qed

lemma analyze_new_submissionD:
  assumes run: "analyze_new_submission env p sub key agent msg ts s = (Inr rc, t)"
    and ok: "business_ok (core_of s)"
  obtains u r a rp fs es where "new_analysis (core_of s) u r a rp fs es"
    "core_of t = add_analysis u r a rp fs es (core_of s)"
    "sub_id u = s_submission_id sub" "sub_mine u = s_mine_id sub"
    "sub_supersedes u = s_supersedes sub" "run_id r = rc_run rc"
    "run_decision r = rc_decision rc"
    "\<exists>hist peers. run_result r = analyze_five_quantity env p sub hist peers"
proof -
  from run obtain pre s1 run_no result completed s2 ids s3 where
    recv: "receive_submission env sub key ts s = (Inr pre, s1)" and
    an: "run_analysis env p sub s1 = (Inr (run_no, result, completed), s2)" and
    con: "conclude_run env sub pre run_no result completed s2 = (Inr ids, s3)" and
    last: "core_of t = core_of s3" and
    rc: "rc_run rc = run_no" "rc_decision rc = r_decision result"
    unfolding analyze_new_submission_def
    by (auto elim!: bind_InrE dest!: retD dest: remember_commandD split: prod.splits)
  let ?u = "make_submission_row env sub key pre ts"
  have c1: "core_of s1 = (core_of s)\<lparr>k_submissions := submissions s @ [?u]\<rparr>"
    and v: "validate_revision sub s = (Inr pre, s)"
    and fresh: "\<not> list_ex (submission_clash ?u) (submissions s)"
    using receive_submissionD [OF recv] by auto
  obtain started hist peers where
    c2: "core_of s2 = (core_of s1)\<lparr>k_runs :=
        runs s1 @ [make_run_row env sub result run_no started completed]\<rparr>" and
    res: "result = analyze_five_quantity env p sub hist peers" and
    new_run: "\<not> list_ex (run_clash (make_run_row env sub result run_no started completed)) (runs s1)"
    using run_analysisD [OF an] .
  let ?r = "make_run_row env sub result run_no started completed"
  obtain x y n fs es where
    c3: "core_of s3 = (core_of s2)\<lparr>
        k_admissions := admissions s2 @ [make_admission_row env sub run_no result completed x],
        k_findings := findings s2 @ fs, k_events := finding_events s2 @ es,
        k_reports := reports s2 @ [make_report_row env (make_report env sub run_no result ids completed y n)]\<rparr>" and
    risk: "r_decision result = Risk \<longleftrightarrow> ids \<noteq> []" and
    out: "if r_decision result = Risk
     then length ids = length (finding_groups result) \<and> distinct ids
        \<and> (\<forall>f \<in> set (findings s2). fnd_id f \<notin> set ids)
        \<and> fs = findings_of env sub run_no result completed (finding_groups result) ids
        \<and> map evt_finding es = ids \<and> (\<forall>e \<in> set es. evt_type e = Issued)
     else fs = [] \<and> clearing_events s2 sub pre es"
    using conclude_runD [OF con] .
  let ?a = "make_admission_row env sub run_no result completed x"
  let ?rp = "make_report_row env (make_report env sub run_no result ids completed y n)"
  note t1 = core_of_eqD [OF c1, simplified] and t2 = core_of_eqD [OF c2, simplified]
  have allowed: "revision_allowed (submissions s) ?u" by (rule validated_allowed [OF v fresh])
  have lin: "lineage (submissions s)" using ok by (simp add: business_ok_def books_ok_def)
  have spec: "if r_decision result = Risk
      then map evt_finding es = map fnd_id fs \<and> (\<forall>e \<in> set es. evt_type e = Issued)
      else (\<forall>e \<in> set es. evt_type e = ResolvedByRevision \<and> evt_resolving e = Some (sub_id ?u))
        \<and> map evt_finding es = map fnd_id (filter
            (\<lambda>f. strict_ancestor (submissions s @ [?u]) (sub_id ?u) (fnd_submission f)
                 \<and> \<not> is_resolved (finding_events s) (fnd_id f)) (findings s))"
  proof (cases "r_decision result = Risk")
    case True
    with out show ?thesis by simp
  next
    case False
    with out have "clearing_events s2 sub pre es" by simp
    from clearing_events_spec [OF lin allowed refl v _ _ _ this] False t1 t2
    show ?thesis by simp
  qed
  have ids: "map fnd_id fs = ids"
    using out risk by (auto split: if_splits)
  have fields: "fnd_run f = run_no \<and> fnd_submission f = s_submission_id sub \<and> fnd_mine f = s_mine_id sub"
    if "f \<in> set fs" for f using out that findings_of_fields by (auto split: if_splits)
  have disjoint: "distinct ids" "\<forall>f \<in> set (findings s). fnd_id f \<notin> set ids"
    using out risk t1 t2 by (auto split: if_splits)
  have risk': "r_decision result = Risk \<longleftrightarrow> fs \<noteq> []" using risk ids by auto
  have "fnd_id ` set fs = set ids" using ids by (metis set_map)
  then have disj: "fnd_id ` set fs \<inter> fnd_id ` set (findings s) = {}"
    using disjoint(2) by auto
  have fresh_run: "run_no \<notin> run_id ` set (runs s)"
    using new_run t1 by (force simp: list_ex_iff run_clash_def)
  have "new_analysis (core_of s) ?u ?r ?a ?rp fs es"
    unfolding new_analysis_def core_of_sel
    using allowed spec fields ids disjoint(1) disj fresh_run risk' by simp
  moreover have "core_of t = add_analysis ?u ?r ?a ?rp fs es (core_of s)"
    by (simp add: last c3 c2 c1 t1 t2 add_analysis_def)
  ultimately show thesis
    using that res rc by (metis make_submission_row_sel(1,2,4) make_run_row_sel(1,5,6))
qed

lemma refined_analyze_new_submission:
  "refined P (analyze_new_submission env p sub key agent msg ts)"
proof (rule refinedI)
  fix s a t
  assume "business_ok (core_of s)" "analyze_new_submission env p sub key agent msg ts s = (Inr a, t)"
  from analyze_new_submissionD [OF this(2,1)] show "steps (core_of s) (core_of t)"
    by (metis analyzed r_into_rtranclp)
next
  show "raises (- {DurableIdempotencyConflict}) (analyze_new_submission env p sub key agent msg ts)"
    by (rule raises_rules) (simp add: revision_errors_def)
qed


lemma refined_if: "refined P a \<Longrightarrow> refined P b \<Longrightarrow> refined P (if c then a else b)"
  by simp

lemma refined_option:
  "refined P a \<Longrightarrow> (\<And>x. refined P (f x)) \<Longrightarrow> refined P (case y of None \<Rightarrow> a | Some x \<Rightarrow> f x)"
  by (simp split: option.split)

text \<open>The operations that only write outside the business tables.\<close>

lemmas noise_ops =
  noise.evolves_primitives noise.evolves_reading noise.evolves_require noise.evolves_ret
  noise.evolves_raise noise.evolves_bind noise.evolves_when_some evolves_if evolves_case_option
  evolves_case_prod noise.step_audit noise.evolves_append_outbox noise.evolves_remember_command
  noise.evolves_claimed_command noise.evolves_receipts noise.evolves_admit_submission_envelope
  noise.evolves_assert_agent_mine noise.evolves_record_inbound noise.evolves_insert_exchange_message

lemma refined_submit_body: "refined P (submit_body env p sub key agent msg ts)"
  unfolding submit_body_def
  by (intro refined_option refined_noise_bind refined_analyze_new_submission;
      (rule refined_noise)?; intro noise_ops; simp)

section \<open>Responses, acknowledgements, bindings\<close>

definition finding_known :: "string \<Rightarrow> string \<Rightarrow> core \<Rightarrow> bool" where
  "finding_known x mine c \<longleftrightarrow> (\<exists>f \<in> set (k_findings c). fnd_id f = x \<and> fnd_mine f = mine)"

lemma explained_step:
  assumes "finding_known (rsp_finding x) (rsp_mine x) c" "evt_finding e = rsp_finding x"
    "evt_type e = ExplanationRecorded"
  shows "steps c (c\<lparr>k_responses := k_responses c @ [x], k_events := k_events c @ [e]\<rparr>)"
  using assms by (auto simp: finding_known_def intro!: r_into_rtranclp business_step.explained)

lemma refined_store_response:
  "refined (finding_known (fr_finding_id r) (fr_mine_id r)) (store_response env r ts)"
proof (rule refinedI)
  fix s a t
  assume known: "finding_known (fr_finding_id r) (fr_mine_id r) (core_of s)"
    and run: "store_response env r ts s = (Inr a, t)"
  let ?x = "\<lparr>rsp_id = fr_response_id r, rsp_finding = fr_finding_id r, rsp_mine = fr_mine_id r,
      rsp_wire = None, rsp_response = r, rsp_sha = digest env (dump_response env r),
      rsp_recorded_at = ts\<rparr>"
  from run obtain e where "evt_finding e = fr_finding_id r" "evt_type e = ExplanationRecorded"
    "core_of t = (core_of s)\<lparr>k_responses := responses s @ [?x], k_events := finding_events s @ [e]\<rparr>"
    unfolding store_response_def Let_def
    by (elim bind_InrE append_finding_eventD)
       (fastforce dest!: add_row_InrD retD append_outboxD append_auditD)
  with explained_step [of ?x "core_of s" e] known show "steps (core_of s) (core_of t)" by simp
qed (rule raises_rules, simp)

lemma refined_store_batch_item: "refined P (store_batch_item env wire mine ts r)"
proof (rule refinedI)
  fix s a t
  assume run: "store_batch_item env wire mine ts r s = (Inr a, t)"
  let ?b = "r\<lparr>fr_response_id := uuid5 env (''mineguard:v2:'' @ wire @ '':'' @ fr_finding_id r)\<rparr>"
  let ?x = "\<lparr>rsp_id = uuid5 env (''mineguard:v2:'' @ wire @ '':'' @ fr_finding_id r),
      rsp_finding = fr_finding_id r, rsp_mine = mine, rsp_wire = Some wire, rsp_response = ?b,
      rsp_sha = digest env (dump_response env ?b), rsp_recorded_at = ts\<rparr>"
  from run have "finding_known (fr_finding_id r) mine (core_of s)"
    unfolding store_batch_item_def
    by (auto elim!: bind_InrE dest!: require_InrD readingD dest: find_Some_mem
        simp: finding_known_def split: option.splits)
  moreover from run obtain e where
    "evt_finding e = fr_finding_id r" "evt_type e = ExplanationRecorded"
    "core_of t = (core_of s)\<lparr>k_responses := responses s @ [?x], k_events := finding_events s @ [e]\<rparr>"
    unfolding store_batch_item_def Let_def
    by (elim bind_InrE append_finding_eventD)
       (fastforce dest!: add_row_InrD retD readingD require_InrD)
  ultimately show "steps (core_of s) (core_of t)"
    using explained_step [of ?x "core_of s" e] by simp
next
  show "raises (- {DurableIdempotencyConflict}) (store_batch_item env wire mine ts r)"
    unfolding store_batch_item_def by (intro raises_rules) simp_all
qed

definition report_known :: "string \<Rightarrow> string \<Rightarrow> core \<Rightarrow> bool" where
  "report_known x mine c \<longleftrightarrow> (\<exists>r \<in> set (k_reports c). rep_id r = x \<and> rep_mine r = mine)"

lemma report_steps:
  assumes "report_known report mine c"
  shows "bat_report b = report \<Longrightarrow> bat_mine b = mine \<Longrightarrow>
      steps c (c\<lparr>k_batches := k_batches c @ [b]\<rparr>)"
    and "ack_report k = report \<Longrightarrow> ack_mine k = mine \<Longrightarrow> steps c (c\<lparr>k_acks := k_acks c @ [k]\<rparr>)"
  using assms
  by (auto simp: report_known_def
      intro!: r_into_rtranclp intro: business_step.batch_opened business_step.acknowledged)

lemma refined_store_batch:
  "refined (report_known report mine) (store_batch env wire report mine rs ts)"
  unfolding store_batch_def Let_def
proof (rule refined_bind [OF refinedI])
  fix s t a
  let ?b = "\<lparr>bat_wire_id = wire, bat_report = report, bat_mine = mine,
      bat_request = batch_request env wire report mine rs,
      bat_sha = digest env (batch_request env wire report mine rs), bat_recorded_at = ts\<rparr>"
  assume known: "report_known report mine (core_of s)"
    and "add_row batches batches_update batch_clash ConstraintViolation ?b s = (Inr a, t)"
  then have "core_of t = (core_of s)\<lparr>k_batches := batches s @ [?b]\<rparr>"
    by (auto dest!: add_row_core)
  with report_steps(1) [OF known, of ?b] show "steps (core_of s) (core_of t)" by simp
next
  show "raises (- {DurableIdempotencyConflict}) (add_row batches batches_update batch_clash
      ConstraintViolation \<lparr>bat_wire_id = wire, bat_report = report, bat_mine = mine,
      bat_request = batch_request env wire report mine rs,
      bat_sha = digest env (batch_request env wire report mine rs), bat_recorded_at = ts\<rparr>)"
    by (rule raises_rules) simp
qed (rule refined_bind [OF refined_map_each [OF refined_store_batch_item]],
     rule refined_noise, intro noise.evolves_bind noise.evolves_append_outbox noise.step_audit
     noise.evolves_ret, simp_all)

lemma refined_new_batch: "refined P (new_batch env wire report mine rs msg sender key ts)"
  unfolding new_batch_def
proof (rule refined_reading_bind [where
      Q = "\<lambda>found c. \<forall>row. found = Some row \<longrightarrow> report_known report (rep_mine row) c"])
  fix found
  show "refined (\<lambda>c. \<forall>row. found = Some row \<longrightarrow> report_known report (rep_mine row) c)
     (case found of
       None \<Rightarrow> raise ReportNotInMine
     | Some row \<Rightarrow>
         bind (require (rep_mine row = mine) ReportNotInMine) (\<lambda>_.
         bind (require (set (map fr_finding_id rs) \<subseteq> set (ar_finding_ids (rep_report row)))
                FindingNotInReport) (\<lambda>_.
         bind (store_batch env wire report mine rs ts) (\<lambda>children.
         bind (remember_command env sender key msg mine ResponseBatchResult wire ts) (\<lambda>_.
         ret \<lparr>br_wire = wire, br_report = report, br_mine = mine, br_children = children,
              br_findings = map fr_finding_id rs, br_recorded_at = ts, br_replay = False\<rparr>)))))"
  proof (cases found)
    case None
    then show ?thesis by (simp add: refined_raise)
  next
    case (Some row)
    show ?thesis
      unfolding Some option.case
      by (intro refined_require_bind)
         (rule refined_bind [OF refined_weaken [OF refined_store_batch]], simp,
          rule refined_noise, intro noise.evolves_bind noise.evolves_remember_command
          noise.evolves_ret, simp)
  qed
qed (auto simp: report_known_def dest!: find_Some_mem)

lemma refined_new_ack: "refined P (new_ack env a msg sender key ts)"
  unfolding new_ack_def
proof (rule refined_reading_bind [where
      Q = "\<lambda>ok c. ok \<longrightarrow> report_known (da_report_id a) (da_mine_id a) c"])
  fix s
  show "ack_matches a s \<longrightarrow> report_known (da_report_id a) (da_mine_id a) (core_of s)"
    by (auto simp: ack_matches_def report_known_def dest!: find_Some_mem split: option.splits)
next
  fix ok
  let ?k = "\<lparr>ack_id = da_ack_id a, ack_report = da_report_id a, ack_mine = da_mine_id a,
      ack_message = da_message_id a, ack_body = a, ack_sha = digest env (dump_ack env a),
      ack_recorded_at = ts\<rparr>"
  have "refined (report_known (da_report_id a) (da_mine_id a))
      (add_row acks acks_update ack_clash ConstraintViolation ?k)"
  proof (rule refinedI)
    fix s t x
    assume known: "report_known (da_report_id a) (da_mine_id a) (core_of s)"
      and "add_row acks acks_update ack_clash ConstraintViolation ?k s = (Inr x, t)"
    then have "core_of t = (core_of s)\<lparr>k_acks := acks s @ [?k]\<rparr>"
      by (auto dest!: add_row_core)
    with report_steps(2) [OF known, of ?k] show "steps (core_of s) (core_of t)" by simp
  qed (rule raises_rules, simp)
  then show "refined (\<lambda>c. ok \<longrightarrow> report_known (da_report_id a) (da_mine_id a) c)
     (bind (require ok DeliveryMessageNotFound) (\<lambda>_.
      let sha = digest env (dump_ack env a) in
      bind (add_row acks acks_update ack_clash ConstraintViolation
            \<lparr>ack_id = da_ack_id a, ack_report = da_report_id a, ack_mine = da_mine_id a,
             ack_message = da_message_id a, ack_body = a, ack_sha = sha,
             ack_recorded_at = ts\<rparr>) (\<lambda>_.
      bind (append_audit env ''analysis_report_delivery_acknowledged'' ''analysis_report''
            (da_report_id a) (Some (da_mine_id a))
            (JObj [(''ack_id'', JStr (da_ack_id a)),
                   (''analysis_report_message_id'', JStr (da_message_id a)),
                   (''delivery_cursor'', JStr (da_cursor a)),
                   (''delivery_status'', JStr (status_name (da_status a))),
                   (''ack_sha256'', JStr sha)]) ts) (\<lambda>_.
      bind (remember_command env sender key msg (da_mine_id a) DeliveryAckResult (da_ack_id a) ts) (\<lambda>_.
      ret \<lparr>ak_ack = da_ack_id a, ak_report = da_report_id a, ak_mine = da_mine_id a,
          ak_recorded_at = ts, ak_replay = False\<rparr>)))))"
    unfolding Let_def
    by (intro refined_require_bind refined_bind, simp)
       (auto intro!: refined_noise noise.evolves_bind noise.step_audit noise.evolves_remember_command
          noise.evolves_ret)
qed


lemma refined_batch_body: "refined P (batch_body env wire report mine rs msg sender key ts)"
  unfolding batch_body_def
  by (intro refined_option refined_noise_bind refined_new_batch;
      (rule refined_noise)?; intro noise_ops; simp)

lemma refined_ack_body: "refined P (ack_body_op env a msg sender key ts)"
  unfolding ack_body_op_def
  by (intro refined_option refined_noise_bind refined_new_ack;
      (rule refined_noise)?; intro noise_ops; simp)

lemma refined_add_binding:
  "refined P (add_row bindings bindings_update binding_clash MineOfOtherAgent r)"
proof (rule refinedI)
  fix s t a
  assume "add_row bindings bindings_update binding_clash MineOfOtherAgent r s = (Inr a, t)"
  then have "\<not> list_ex (binding_clash r) (bindings s)"
    and t: "core_of t = (core_of s)\<lparr>k_bindings := bindings s @ [r]\<rparr>"
    by (auto dest!: add_row_core)
  then have "\<forall>b \<in> set (k_bindings (core_of s)). bnd_agent b \<noteq> bnd_agent r \<and> bnd_mine b \<noteq> bnd_mine r"
    by (auto simp: list_ex_iff binding_clash_def)
  from business_step.bound [OF this] show "steps (core_of s) (core_of t)"
    unfolding t by (intro r_into_rtranclp) simp
qed (rule raises_rules, simp)

lemma refined_bind_agent: "refined P (bind_agent_to_mine env agent mine)"
  unfolding bind_agent_to_mine_def
  by (rule refined_noise_bind, intro noise_ops, rule refined_noise_bind, intro noise_ops,
      rule refined_transaction, rule refined_noise_bind, intro noise_ops, rule refined_option,
      rule refined_bind [OF refined_add_binding]; rule refined_noise; intro noise_ops; simp)

lemma refined_record_response: "refined P (record_enterprise_response env r)"
  unfolding record_enterprise_response_def
proof (rule refined_noise_bind, intro noise_ops, rule refined_transaction, rule refined_noise_bind,
    intro noise_ops, rule refined_option)
  show "refined P (bind (reading (\<lambda>s. find (\<lambda>f. fnd_id f = fr_finding_id r) (findings s))) (\<lambda>found.
           case found of
             None \<Rightarrow> raise FindingNotFound
           | Some f \<Rightarrow>
               bind (require (fnd_mine f = fr_mine_id r) FindingOutsideMine) (\<lambda>_.
               store_response env r ts)))" for ts
  proof (rule refined_reading_bind [where
        Q = "\<lambda>found c. \<forall>f. found = Some f \<longrightarrow> finding_known (fr_finding_id r) (fnd_mine f) c"])
    fix found
    show "refined (\<lambda>c. \<forall>f. found = Some f \<longrightarrow> finding_known (fr_finding_id r) (fnd_mine f) c)
       (case found of
         None \<Rightarrow> raise FindingNotFound
       | Some f \<Rightarrow>
           bind (require (fnd_mine f = fr_mine_id r) FindingOutsideMine) (\<lambda>_.
           store_response env r ts))"
      by (cases found)
         (auto simp: refined_raise intro!: refined_require_bind refined_weaken [OF refined_store_response])
  qed (auto simp: finding_known_def dest!: find_Some_mem)
qed (rule refined_noise; intro noise_ops; simp)

section \<open>Commands and requests\<close>

lemma refined_command: "refined (\<lambda>_. True) (exec_command env c)"
proof (cases c)
  case (ClaimNonce sender nonce requested expiry)
  show ?thesis unfolding ClaimNonce exec_command.simps with_receipt_def
    by (intro refined_noise noise.evolves_bind noise.evolves_claim_transport_nonce noise_ops) simp
next
  case (BindAgent agent mine)
  show ?thesis unfolding BindAgent exec_command.simps with_receipt_def
    by (intro refined_bind refined_bind_agent refined_noise noise_ops)
next
  case (RecordMessage m)
  show ?thesis unfolding RecordMessage exec_command.simps with_receipt_def
    by (intro refined_noise noise.evolves_bind noise.evolves_record_exchange_message noise_ops) simp_all
next
  case (Submit sub agent key msg p)
  show ?thesis
    unfolding Submit exec_command.simps with_receipt_def submit_and_analyze_def
    by (intro refined_bind [OF refined_noise_bind] noise_ops refined_if refined_raise
        refined_transaction refined_submit_body refined_noise [OF noise.evolves_ret])
next
  case (Respond r)
  show ?thesis unfolding Respond exec_command.simps with_receipt_def
    by (intro refined_bind refined_record_response refined_noise [OF noise.evolves_ret])
next
  case (RespondBatch wire report mine rs msg sender key)
  show ?thesis
    unfolding RespondBatch exec_command.simps with_receipt_def record_enterprise_response_batch_def
    by (intro refined_bind refined_noise_bind refined_transaction refined_batch_body
        refined_noise [OF noise.evolves_ret] noise_ops)
next
  case (Acknowledge a msg sender key)
  show ?thesis
    unfolding Acknowledge exec_command.simps with_receipt_def record_delivery_ack_def
    by (intro refined_bind refined_noise_bind refined_transaction refined_ack_body
        refined_noise [OF noise.evolves_ret] noise_ops)
next
  case (AuthenticationFailure e)
  show ?thesis
    unfolding AuthenticationFailure exec_command.simps with_receipt_def
    by (intro refined_noise noise.evolves_bind noise.evolves_record_authentication_failure noise_ops) simp
qed


lemma refined_request: "refined (\<lambda>_. True) (exec_request env r)"
  by (cases r)
     (auto intro: refined_bind [OF refined_command] refined_noise [OF noise.evolves_ret]
        refined_transaction refined_map_each refined_command)

section \<open>Atomicity\<close>

text \<open>
  \<open>outermost m\<close>: started outside a transaction, \<open>m\<close> ends outside one, and if it raises
  anything but the durable conflict only consumed identifiers and clock readings remain.
\<close>

definition counters_only :: "ledger \<Rightarrow> ledger \<Rightarrow> bool" where
  "counters_only s t \<longleftrightarrow> t = s\<lparr>draws := draws t, ticks := ticks t\<rparr>"

definition outermost :: "'a store_op \<Rightarrow> bool" where
  "outermost m \<longleftrightarrow>
     (\<forall>s r t. \<not> in_tx s \<longrightarrow> m s = (r, t) \<longrightarrow>
        \<not> in_tx t \<and> (\<not> kept_result r \<longrightarrow> counters_only s t))"

lemma counters_only_refl: "counters_only s s"
  by (simp add: counters_only_def)

lemma counters_only_trans: "counters_only s t \<Longrightarrow> counters_only t u \<Longrightarrow> counters_only s u"
  unfolding counters_only_def
  by (rule ledger.equality) (metis ledger.select_convs ledger.surjective ledger.update_convs(18,19))+

lemma outermost_transaction: "outermost (store_transaction m)"
  unfolding outermost_def
proof (intro allI impI)
  fix s r t
  assume out: "\<not> in_tx s" and run: "store_transaction m s = (r, t)"
  then obtain u where u: "transaction durable_error roll_back m (set_in_tx True s) = (r, u)"
    and t: "t = set_in_tx False u"
    by (cases "transaction durable_error roll_back m (set_in_tx True s)")
       (auto simp: store_transaction_def)
  have "counters_only s t" if "\<not> kept_result r"
    using u out that
    by (auto simp: t transaction_def counters_only_def roll_back_def set_in_tx_def
        split: prod.splits sum.splits intro!: ledger.equality)
  then show "\<not> in_tx t \<and> (\<not> kept_result r \<longrightarrow> counters_only s t)"
    by (simp add: t set_in_tx_def)
qed


lemma outermost_now: "(\<And>a. outermost (f a)) \<Longrightarrow> outermost (bind (now env) f)"
  unfolding outermost_def
proof (intro allI impI)
  fix s r t
  assume f: "\<And>a. \<forall>s r t. \<not> in_tx s \<longrightarrow> f a s = (r, t) \<longrightarrow>
        \<not> in_tx t \<and> (\<not> kept_result r \<longrightarrow> counters_only s t)"
    and out: "\<not> in_tx s" and run: "bind (now env) f s = (r, t)"
  let ?u = "s\<lparr>ticks := Suc (ticks s)\<rparr>"
  have "f (clock env (ticks s)) ?u = (r, t)" using run by (simp add: bind_def now_def)
  with f [rule_format, of ?u] out have "\<not> in_tx t \<and> (\<not> kept_result r \<longrightarrow> counters_only ?u t)"
    by simp
  moreover have "counters_only s ?u" by (simp add: counters_only_def)
  ultimately show "\<not> in_tx t \<and> (\<not> kept_result r \<longrightarrow> counters_only s t)"
    using counters_only_trans by blast
qed

lemma outermost_basic:
  "outermost (ret a)" "outermost (raise e)"
  "outermost m1 \<Longrightarrow> outermost m2 \<Longrightarrow> outermost (if c then m1 else m2)"
proof -
  show "outermost (ret a)" "outermost (raise e)"
    by (simp_all add: outermost_def op_defs counters_only_refl)
  show "outermost m1 \<Longrightarrow> outermost m2 \<Longrightarrow> outermost (if c then m1 else m2)" by simp
qed

lemma outermost_require: "(c \<Longrightarrow> outermost (f ())) \<Longrightarrow> outermost (bind (require c e) f)"
  by (cases c) (simp_all add: bind_require outermost_basic(2))

lemma outermost_ret: "outermost m \<Longrightarrow> outermost (bind m (\<lambda>a. ret (g a)))"
  unfolding outermost_def
proof (intro allI impI)
  fix s r t
  assume m: "\<forall>s r t. \<not> in_tx s \<longrightarrow> m s = (r, t) \<longrightarrow>
        \<not> in_tx t \<and> (\<not> kept_result r \<longrightarrow> counters_only s t)"
    and out: "\<not> in_tx s" and run: "bind m (\<lambda>a. ret (g a)) s = (r, t)"
  obtain q u where q: "m s = (q, u)" by fastforce
  have "u = t \<and> (kept_result q \<longleftrightarrow> kept_result r)"
    using q run by (cases q) (auto simp: bind_def ret_def)
  with m [rule_format, OF out q] show "\<not> in_tx t \<and> (\<not> kept_result r \<longrightarrow> counters_only s t)"
    by simp
qed

lemma outermost_operations:
  "outermost (claim_transport_nonce env sender nonce requested expiry)"
  "outermost (bind_agent_to_mine env agent mine)"
  "outermost (record_exchange_message env m)"
  "outermost (submit_and_analyze env sub agent' key msg p)"
  "outermost (record_enterprise_response env r)"
  "outermost (record_enterprise_response_batch env wire report mine rs msg agent' key)"
  "outermost (record_delivery_ack env a msg agent' key)"
  "outermost (record_authentication_failure env e)"
proof -
  note rules = outermost_now outermost_basic(2,3) outermost_require outermost_transaction
  show "outermost (claim_transport_nonce env sender nonce requested expiry)"
    unfolding claim_transport_nonce_def by (intro rules)
  show "outermost (bind_agent_to_mine env agent mine)"
    unfolding bind_agent_to_mine_def by (intro rules)
  show "outermost (record_exchange_message env m)"
    unfolding record_exchange_message_def by (intro rules)
  show "outermost (submit_and_analyze env sub agent' key msg p)"
    unfolding submit_and_analyze_def by (intro rules)
  show "outermost (record_enterprise_response env r)"
    unfolding record_enterprise_response_def by (intro rules)
  show "outermost (record_enterprise_response_batch env wire report mine rs msg agent' key)"
    unfolding record_enterprise_response_batch_def by (intro rules)
  show "outermost (record_delivery_ack env a msg agent' key)"
    unfolding record_delivery_ack_def by (intro rules)
  show "outermost (record_authentication_failure env e)"
    unfolding record_authentication_failure_def by (intro rules)
qed

lemma outermost_command: "outermost (exec_command env c)"
  by (cases c; simp only: exec_command.simps with_receipt_def;
      rule outermost_ret; rule outermost_operations)

lemma outermost_request: "outermost (exec_request env r)"
  by (cases r) (auto intro: outermost_ret outermost_command outermost_transaction)

section \<open>Reachable ledgers\<close>

lemma reachable_ok: "reachable env s \<Longrightarrow> business_ok (core_of s) \<and> \<not> in_tx s"
proof (induction rule: reachable.induct)
  case start
  have "\<not> in_tx empty_ledger" by (simp add: empty_ledger_def)
  then show ?case using business_ok_empty by blast
next
  case (step s r x t)
  then have ok: "business_ok (core_of s)" and out: "\<not> in_tx s" by auto
  from outermost_request [of env r] out step.hyps(2)
  have t: "\<not> in_tx t" "\<not> kept_result x \<longrightarrow> counters_only s t"
    unfolding outermost_def by blast+
  have "business_ok (core_of t)"
  proof (cases "kept_result x")
    case True
    from refinedD [OF refined_request ok TrueI step.hyps(2) True] ok show ?thesis
      by (blast intro: business_steps_ok)
  next
    case False
    with t have c: "counters_only s t" by simp
    have "core_of t = core_of s" by (subst c [unfolded counters_only_def]) simp
    with ok show ?thesis by simp
  qed
  with t show ?case by blast
qed

end
