(* ===== verification/Regulatory_Views.thy ===== *)
theory Regulatory_Views
  imports Regulatory_Refinement
begin

text \<open>
  The read side of \<open>RegulatoryV2Store\<close>: the projection of a finding, the counts of a mine
  overview, the descendant test between submissions, the outbox pages an enterprise pulls,
  and the integrity checks over hashes and audit rows.
\<close>

section \<open>Findings\<close>

datatype finding_state = Open | Explained | ClearedByReanalysis

text \<open>\<open>get_finding\<close> folds the events of the finding in sequence (rowid) order.\<close>

fun project_event :: "finding_state \<times> string option \<Rightarrow> event_row \<Rightarrow> finding_state \<times> string option" where
  "project_event (st, by) e =
     (if evt_type e = ExplanationRecorded \<and> st = Open then (Explained, by)
      else if evt_type e = ResolvedByRevision then (ClearedByReanalysis, evt_resolving e)
      else (st, by))"

definition project_finding :: "event_row list \<Rightarrow> string \<Rightarrow> finding_state \<times> string option" where
  "project_finding events f =
     foldl project_event (Open, None) (filter (\<lambda>e. evt_finding e = f) events)"

record finding_projection =
  pj_finding :: finding_report
  pj_state :: finding_state
  pj_responses :: "finding_response list"
  pj_resolved_by :: "string option"
  pj_event_count :: nat

definition get_finding :: "string \<Rightarrow> string option \<Rightarrow> finding_projection store_op" where
  "get_finding x mine =
     bind (reading (\<lambda>s. find (\<lambda>f. fnd_id f = x) (findings s))) (\<lambda>found.
     case found of
       None \<Rightarrow> raise FindingNotFound
     | Some f \<Rightarrow>
         bind (require (mine = None \<or> mine = Some (fnd_mine f)) FindingNotFound) (\<lambda>_.
         reading (\<lambda>s.
           \<lparr>pj_finding = fnd_report f,
            pj_state = fst (project_finding (finding_events s) x),
            pj_responses = map rsp_response (sort_key rsp_recorded_at (sort_key rsp_id
                (filter (\<lambda>r. rsp_finding r = x) (responses s)))),
            pj_resolved_by = snd (project_finding (finding_events s) x),
            pj_event_count = length (filter (\<lambda>e. evt_finding e = x) (finding_events s))\<rparr>)))"

definition valid_limit :: "int \<Rightarrow> bool" where
  "valid_limit n \<longleftrightarrow> 1 \<le> n \<and> n \<le> 1000"

text \<open>\<open>list_findings\<close>: the newest \<open>limit\<close> findings, from which the cleared ones are dropped.\<close>

definition newest_findings ::
    "string option \<Rightarrow> finding_kind option \<Rightarrow> int \<Rightarrow> ledger \<Rightarrow> string list" where
  "newest_findings mine kind limit s =
     take (nat limit) (map fnd_id (rev (sort_key fnd_issued_at (sort_key fnd_id
       (filter (\<lambda>f. (mine = None \<or> mine = Some (fnd_mine f)) \<and> (kind = None \<or> kind = Some (fnd_kind f)))
          (findings s))))))"

definition list_findings ::
    "string option \<Rightarrow> finding_kind option \<Rightarrow> bool \<Rightarrow> int \<Rightarrow> finding_projection list store_op" where
  "list_findings mine kind include_resolved limit =
     bind (require (valid_limit limit) PageInvalid) (\<lambda>_.
     bind (reading (newest_findings mine kind limit)) (\<lambda>ids.
     bind (map_each (\<lambda>x. get_finding x mine) ids) (\<lambda>items.
     ret (if include_resolved then items
          else filter (\<lambda>i. pj_state i \<noteq> ClearedByReanalysis) items))))"

text \<open>The counts of \<open>list_mine_overviews\<close>.\<close>

definition has_event :: "finding_event_type \<Rightarrow> event_row list \<Rightarrow> string \<Rightarrow> bool" where
  "has_event ty events f = list_ex (\<lambda>e. evt_finding e = f \<and> evt_type e = ty) events"

definition overview_counts :: "string \<Rightarrow> ledger \<Rightarrow> nat \<times> nat \<times> nat" where
  "overview_counts mine s =
     (let rows = map (\<lambda>f. (has_event ResolvedByRevision (finding_events s) (fnd_id f),
                           has_event ExplanationRecorded (finding_events s) (fnd_id f)))
                   (filter (\<lambda>f. fnd_mine f = mine) (findings s))
      in (length (filter (\<lambda>(cleared, explained). \<not> cleared \<and> \<not> explained) rows),
          length (filter (\<lambda>(cleared, explained). \<not> cleared \<and> explained) rows),
          length (filter (\<lambda>(cleared, explained). cleared) rows)))"

lemma project_events_state:
  "fst (foldl project_event (st, by) es) =
     (if list_ex (\<lambda>e. evt_type e = ResolvedByRevision) es then ClearedByReanalysis
      else if st = Open \<and> list_ex (\<lambda>e. evt_type e = ExplanationRecorded) es then Explained else st)"
proof (induction es arbitrary: st "by")
  case (Cons e es)
  obtain st' by' where p: "project_event (st, by) e = (st', by')" by fastforce
  show ?case unfolding foldl.simps p Cons.IH using p by (auto split: if_splits)
qed simp

lemma list_ex_filter_mem:
  "list_ex q (filter p xs) \<longleftrightarrow> list_ex (\<lambda>x. p x \<and> q x) xs"
  by (auto simp: list_ex_iff)

lemma project_finding_state:
  "fst (project_finding events f) =
     (if has_event ResolvedByRevision events f then ClearedByReanalysis
      else if has_event ExplanationRecorded events f then Explained else Open)"
  by (simp add: project_finding_def project_events_state list_ex_filter_mem has_event_def)

lemma has_event_resolved: "has_event ResolvedByRevision events f = is_resolved events f"
  by (simp add: has_event_def is_resolved_def)

section \<open>Descendants\<close>

text \<open>The loop of \<open>is_strict_submission_descendant\<close>; the visited set bounds it.\<close>

function descends ::
    "submission_row list \<Rightarrow> string \<Rightarrow> string \<Rightarrow> submission_row \<Rightarrow> string list \<Rightarrow> bool" where
  "descends rows mine ancestor current visited =
     (case sub_supersedes current of
        None \<Rightarrow> False
      | Some p \<Rightarrow>
          if p = ancestor then True
          else if p \<in> set visited then False
          else
            (case find (\<lambda>r. sub_id r = p \<and> sub_mine r = mine) rows of
               None \<Rightarrow> False
             | Some next_row \<Rightarrow> descends rows mine ancestor next_row (p # visited)))"
  by pat_completeness auto

termination
proof (relation "measure (\<lambda>(rows, mine, ancestor, current, visited).
    card (sub_id ` set rows - set visited))", goal_cases)
  case (2 rows mine ancestor current visited p next_row)
  then have "p \<in> sub_id ` set rows" "p \<notin> set visited" by (auto dest: find_Some_mem)
  then have "sub_id ` set rows - set (p # visited) \<subset> sub_id ` set rows - set visited" by auto
  then show ?case by (simp add: psubset_card_mono)
qed simp

declare descends.simps [simp del]

definition is_strict_submission_descendant ::
    "submission_row list \<Rightarrow> string \<Rightarrow> string \<Rightarrow> string \<Rightarrow> bool" where
  "is_strict_submission_descendant rows candidate ancestor mine =
     (if candidate = ancestor then False
      else
        case (find (\<lambda>r. sub_id r = candidate \<and> sub_mine r = mine) rows,
              find (\<lambda>r. sub_id r = ancestor \<and> sub_mine r = mine) rows) of
          (Some c, Some a) \<Rightarrow>
            if sub_revision c \<le> sub_revision a then False else descends rows mine ancestor c []
        | _ \<Rightarrow> False)"

lemma strict_ancestor_step:
  assumes "lineage rows" "c \<in> set rows"
  shows "strict_ancestor rows (sub_id c) a \<longleftrightarrow>
    (\<exists>p. sub_supersedes c = Some p \<and> (a = p \<or> strict_ancestor rows p a))"
proof -
  have "strict_ancestor rows (sub_id c) a \<longleftrightarrow>
      (\<exists>p. revises rows (sub_id c) p \<and> (a = p \<or> strict_ancestor rows p a))"
    unfolding strict_ancestor_def
    by (metis converse_tranclpE tranclp.r_into_trancl tranclp_into_tranclp2)
  then show ?thesis by (simp add: revises_row [OF assms])
qed

lemma descends_exact:
  "lineage rows \<Longrightarrow> current \<in> set rows \<Longrightarrow> sub_mine current = mine \<Longrightarrow>
    \<forall>v \<in> set visited. \<exists>q \<in> set rows. sub_id q = v \<and> sub_revision current \<le> sub_revision q \<Longrightarrow>
    descends rows mine ancestor current visited \<longleftrightarrow> strict_ancestor rows (sub_id current) ancestor"
proof (induction rows mine ancestor current visited rule: descends.induct)
  case (1 rows mine ancestor current visited)
  note lin = "1.prems"(1)
  show ?case
  proof (cases "sub_supersedes current")
    case None
    then show ?thesis
      using strict_ancestor_step [OF lin "1.prems"(2)] by (subst descends.simps) simp
  next
    case (Some p)
    obtain q where q: "q \<in> set rows" "sub_id q = p" "sub_mine q = mine"
      "sub_revision current = sub_revision q + 1"
      using lineage_predecessor [OF lin "1.prems"(2) Some] "1.prems"(3) by auto
    have step: "strict_ancestor rows (sub_id current) ancestor \<longleftrightarrow>
        ancestor = p \<or> strict_ancestor rows p ancestor"
      using strict_ancestor_step [OF lin "1.prems"(2)] Some by simp
    have new: "p \<notin> set visited"
      using "1.prems"(4) q lineage_row_eq [OF lin q(1)] by force
    have found: "find (\<lambda>r. sub_id r = p \<and> sub_mine r = mine) rows = Some q"
    proof (cases "find (\<lambda>r. sub_id r = p \<and> sub_mine r = mine) rows")
      case None
      with q show ?thesis by (auto simp: find_None_iff)
    next
      case (Some x)
      then have "x \<in> set rows" "sub_id x = p" by (auto dest: find_Some_mem)
      with lineage_row_eq [OF lin _ q(1)] q(2) Some show ?thesis by auto
    qed
    show ?thesis
    proof (cases "p = ancestor")
      case True
      then show ?thesis by (subst descends.simps) (simp add: Some step)
    next
      case False
      have "descends rows mine ancestor q (p # visited) \<longleftrightarrow> strict_ancestor rows (sub_id q) ancestor"
      proof (rule "1.IH" [OF Some False new found lin q(1,3)])
        show "\<forall>v \<in> set (p # visited). \<exists>x \<in> set rows. sub_id x = v \<and> sub_revision q \<le> sub_revision x"
          using "1.prems"(4) q by fastforce
      qed
      with False new found show ?thesis
        by (subst descends.simps) (simp add: Some step q(2))
    qed
  qed
qed

lemma submission_descendant_exact:
  assumes lin: "lineage rows"
  shows "is_strict_submission_descendant rows x a mine \<longleftrightarrow>
    strict_ancestor rows x a \<and> (\<exists>r \<in> set rows. sub_id r = x \<and> sub_mine r = mine)"
proof -
  let ?row = "\<lambda>y. find (\<lambda>r. sub_id r = y \<and> sub_mine r = mine) rows"
  have row: "?row y = Some r \<longleftrightarrow> r \<in> set rows \<and> sub_id r = y \<and> sub_mine r = mine" for y r
  proof
    assume r: "r \<in> set rows \<and> sub_id r = y \<and> sub_mine r = mine"
    then obtain r' where r': "?row y = Some r'"
      by (cases "?row y") (auto simp: find_None_iff)
    have "r' = r" using find_Some_mem [OF r'] r lineage_row_eq [OF lin, of r' r] by simp
    with r' show "?row y = Some r" by simp
  qed (auto dest: find_Some_mem)
  show ?thesis
  proof (cases "strict_ancestor rows x a \<and> (\<exists>r \<in> set rows. sub_id r = x \<and> sub_mine r = mine)")
    case True
    from True strict_ancestor_rows [OF lin, of x a] obtain u v where
      uv: "u \<in> set rows" "v \<in> set rows" "sub_id u = x" "sub_id v = a"
      "sub_mine v = sub_mine u" "sub_revision v < sub_revision u" by blast
    from True obtain r where "r \<in> set rows" "sub_id r = x" "sub_mine r = mine" by blast
    with lineage_row_eq [OF lin uv(1), of r] uv(3) have uv7: "sub_mine u = mine" by simp
    with uv have "?row x = Some u" "?row a = Some v" by (simp_all add: row)
    moreover have "x \<noteq> a" using True no_cycle [OF lin] by blast
    moreover have "descends rows mine a u []"
      using descends_exact [OF lin uv(1) uv7, of "[]" a] True uv(3) by simp
    ultimately show ?thesis
      using True uv(6) by (simp add: is_strict_submission_descendant_def)
  next
    case False
    have "\<not> descends rows mine a u []" if "?row x = Some u" for u
    proof -
      from that have u: "u \<in> set rows" "sub_id u = x" "sub_mine u = mine" by (simp_all add: row)
      with False have "\<not> strict_ancestor rows (sub_id u) a" by blast
      with descends_exact [OF lin u(1,3), of "[]" a] show ?thesis by simp
    qed
    then have "\<not> is_strict_submission_descendant rows x a mine"
      by (simp add: is_strict_submission_descendant_def split: option.split)
    with False show ?thesis by blast
  qed
qed

section \<open>Outbox pages\<close>

record outbox_page =
  pg_items :: "outbox_row list"
  pg_next :: int
  pg_more :: bool

definition pending :: "(outbox_row \<Rightarrow> bool) \<Rightarrow> int \<Rightarrow> ledger \<Rightarrow> outbox_row list" where
  "pending wants after s =
     filter (\<lambda>r. wants r \<and> after < int (out_sequence r)) (sort_key out_sequence (outbox s))"

definition poll_page :: "(outbox_row \<Rightarrow> bool) \<Rightarrow> int \<Rightarrow> int \<Rightarrow> outbox_page store_op" where
  "poll_page wants after limit =
     bind (require (0 \<le> after) PageInvalid) (\<lambda>_.
     bind (require (valid_limit limit) PageInvalid) (\<lambda>_.
     reading (\<lambda>s.
       let rows = take (nat (limit + 1)) (pending wants after s);
           items = take (nat limit) rows
       in \<lparr>pg_items = items,
           pg_next = (if items = [] then after else int (out_sequence (last items))),
           pg_more = (limit < int (length rows))\<rparr>)))"

definition poll_outbox :: "string \<Rightarrow> int \<Rightarrow> int \<Rightarrow> outbox_page store_op" where
  "poll_outbox mine = poll_page (\<lambda>r. out_mine r = mine)"

definition poll_analysis_reports :: "string \<Rightarrow> int \<Rightarrow> int \<Rightarrow> outbox_page store_op" where
  "poll_analysis_reports mine =
     poll_page (\<lambda>r. out_mine r = mine \<and> out_kind r = AnalysisReportAvailable)"

section \<open>Integrity checks\<close>

text \<open>\<open>_verify_hash_bindings_locked\<close> over all rows of the twelve hashed tables.\<close>

definition hash_bindings_hold :: "platform \<Rightarrow> ledger \<Rightarrow> bool" where
  "hash_bindings_hold env s \<longleftrightarrow>
     list_all (\<lambda>r. sub_sha r = digest env (dump_submission env (sub_payload r))) (submissions s)
     \<and> list_all (\<lambda>r. dly_sha r = digest env (dly_json r)) (daily_facts s)
     \<and> list_all (\<lambda>r. run_sha r = digest env (dump_result env (run_result r))) (runs s)
     \<and> list_all (\<lambda>r. adm_sha r = digest env (adm_reasons r)) (admissions s)
     \<and> list_all (\<lambda>r. snp_sha r = digest env (snp_json r)) (snapshots s)
     \<and> list_all (\<lambda>r. fnd_sha r = digest env (dump_finding_report env (fnd_report r))) (findings s)
     \<and> list_all (\<lambda>r. rep_sha r = digest env (dump_report env (rep_report r))) (reports s)
     \<and> list_all (\<lambda>r. bat_sha r = digest env (bat_request r)) (batches s)
     \<and> list_all (\<lambda>r. rsp_sha r = digest env (dump_response env (rsp_response r))) (responses s)
     \<and> list_all (\<lambda>r. ack_sha r = digest env (dump_ack env (ack_body r))) (acks s)
     \<and> list_all (\<lambda>r. out_sha r = digest env (out_payload r)) (outbox s)
     \<and> list_all (\<lambda>r. msg_sha r = digest env (msg_body r)) (messages s)"

text \<open>\<open>_verify_audit_delta_locked\<close>, from the head a checkpoint recorded.\<close>

definition verify_audit_delta :: "platform \<Rightarrow> nat \<times> string \<Rightarrow> ledger \<Rightarrow> bool" where
  "verify_audit_delta env cp s =
     (let rows = filter (\<lambda>r. fst cp < aud_sequence r) (audits s) in
      chain_valid env (snd cp) rows
      \<and> audit_head s = (if rows = [] then cp
                        else (aud_sequence (last rows), aud_hash (last rows)))
      \<and> fst cp \<le> fst (audit_head s))"

interpretation sealed: ledger_steps "keeps (hash_bindings_hold env)" env "\<lambda>_. True" for env
proof unfold_locales
  show "evolves (keeps (hash_bindings_hold env)) (append_audit env ty agg_ty agg mine payload ts)"
    for ty agg_ty agg mine payload ts
    by (rule evolvesI)
       (auto simp: append_audit_def add_row_cases draw_uuid_def bind_def reading_def keeps_def
          hash_bindings_hold_def split: if_splits)
qed (simp_all add: keeps_def hash_bindings_hold_def roll_back_def set_in_tx_def)

definition numbered :: "ledger \<Rightarrow> bool" where
  "numbered s \<longleftrightarrow> map aud_sequence (audits s) = [1..<Suc (length (audits s))]
     \<and> distinct (map out_sequence (outbox s))"

lemma next_sequence_numbered:
  assumes "map f xs = [1..<Suc (length xs)]"
  shows "next_sequence f xs = Suc (length xs)"
proof -
  have "fold max [1..<Suc n] m = max m n" for n m :: nat
    by (induction n) auto
  then show ?thesis by (simp add: next_sequence_def assms)
qed

interpretation numbering: ledger_steps "keeps numbered" env "\<lambda>_. True" for env
proof unfold_locales
  show "evolves (keeps numbered) (append_audit env ty agg_ty agg mine payload ts)"
    for ty agg_ty agg mine payload ts
    by (rule evolvesI)
       (auto simp: append_audit_def add_row_cases draw_uuid_def bind_def reading_def keeps_def
          numbered_def next_sequence_numbered split: if_splits)
  show "keeps numbered s (outbox_update (\<lambda>_. outbox s @ [r14]) s)"
    if "\<not> list_ex (outbox_clash r14) (outbox s)" for s r14
    using that by (auto simp: keeps_def numbered_def list_ex_iff outbox_clash_def)
qed (simp_all add: keeps_def numbered_def roll_back_def set_in_tx_def)

end
