(* ===== verification/Regulatory_Properties.thy ===== *)
theory Regulatory_Properties
  imports Regulatory_Views
begin

text \<open>
  A small concrete platform and the ledgers a few requests lead to, on which the properties
  of the regulatory engine are evaluated. \<open>demo_digest\<close> returns the first text of a value,
  which keeps the hashes of audit rows apart because their identifiers are.
\<close>

fun demo_digest :: "json \<Rightarrow> string" where
  "demo_digest (JObj ((k, JStr x) # _)) = x"
| "demo_digest (JStr x) = x"
| "demo_digest _ = ''h''"

definition demo_evidence :: "signal list \<Rightarrow> bool \<Rightarrow> evidence" where
  "demo_evidence sigs full =
     \<lparr>e_quality_signals = [], e_relationship_signals = sigs, e_temporal_signals = [],
      e_complete_days = (if full then 20 else 0), e_completeness = (if full then 1 else 0),
      e_any_value = True, e_solver_success = True, e_mcs_complete = True, e_adjustments = [],
      e_history_bands =
        [\<lparr>b_relationship = VentilationPerProduction, b_lower = 0, b_center = 1, b_upper = 2,
          b_sample_count = 9, b_mine_count = None, b_basis = SameMineHistory, b_group = None\<rparr>]\<rparr>"

definition demo_risk :: signal where
  "demo_risk = \<lparr>sig_code = ''r'', sig_severity = RiskSeverity, sig_message = ''x''\<rparr>"

text \<open>First revisions are risky, second revisions lack data, later ones are complete.\<close>

definition demo :: platform where
  "demo =
     \<lparr>digest = demo_digest, text_digest = (\<lambda>x. x), uuid4 = (\<lambda>n. replicate (Suc n) CHR ''u''),
      uuid5 = (\<lambda>x. CHR ''v'' # x), clock = (\<lambda>n. 1000 + int n), stamp = (\<lambda>_. ''t''),
      iso = (\<lambda>_. ''d''), local_day = (\<lambda>_ t. t), dump_context = (\<lambda>_. JNull),
      dump_submission = (\<lambda>u. JStr (s_submission_id u)), dump_result = (\<lambda>_. JNull),
      dump_finding_report = (\<lambda>_. JNull), dump_report = (\<lambda>_. JNull),
      dump_response = (\<lambda>r. JStr (fr_response_id r)), dump_response_request = (\<lambda>_. JNull),
      dump_ack = (\<lambda>a. JStr (da_ack_id a)),
      collect_evidence = (\<lambda>u _ _ _. demo_evidence (if s_revision u = 1 then [demo_risk] else [])
                                       (3 \<le> s_revision u)),
      input_digest = (\<lambda>_ _ _. ''i''), configuration_digest = (\<lambda>_ _. ''c'')\<rparr>"

definition demo_submission :: "string \<Rightarrow> int \<Rightarrow> string option \<Rightarrow> submission" where
  "demo_submission x n pre =
     \<lparr>s_scope = FiveQuantityV2, s_submission_id = x, s_mine_id = ''m'', s_mine_name = ''M'',
      s_timezone = ''UTC'', s_revision = n, s_supersedes = pre, s_period_start = CalendarDate 1,
      s_period_end = CalendarDate 2, s_context = None, s_days = [], s_provenance = JNull\<rparr>"

definition demo_message :: "string \<Rightarrow> string \<Rightarrow> exchange_message" where
  "demo_message x body =
     \<lparr>em_message_id = x, em_direction = Inbound, em_message_type = ''submission'',
      em_mine_id = ''m'', em_agent_id = Some ''a'', em_body = JStr body, em_exchanged_at = 5\<rparr>"

definition demo_submit :: "string \<Rightarrow> int \<Rightarrow> string option \<Rightarrow> request" where
  "demo_submit x n pre =
     Single (Submit (demo_submission x n pre) (Some ''a'') None
       (Some (demo_message (''q'' @ x) ''b'')) None)"

definition demo_response :: "string \<Rightarrow> string \<Rightarrow> finding_response" where
  "demo_response x f =
     \<lparr>fr_response_id = x, fr_finding_id = f, fr_mine_id = ''m'', fr_reason_category = ''c'',
      fr_explanation = ''e'', fr_corrective_action = None, fr_correction_planned = False,
      fr_evidence = JNull, fr_confirmed_by = ''p'', fr_confirmed_at = 6\<rparr>"

definition demo_requests :: "request list" where
  "demo_requests =
     [Single (BindAgent ''a'' ''m''), demo_submit ''s1'' 1 None, demo_submit ''s2'' 2 (Some ''s1''),
      demo_submit ''s3'' 3 (Some ''s2'')]"

definition demo_ledger :: "nat \<Rightarrow> ledger" where
  "demo_ledger n = run_requests demo (take n demo_requests) empty_ledger"

lemma demo_reachable: "reachable demo (demo_ledger n)"
  unfolding demo_ledger_def by (rule reachable_run_requests) (rule reachable.start)

definition demo_summary ::
    "ledger \<Rightarrow> nat \<times> decision list \<times> bool list \<times> string list \<times> finding_event_type list \<times> nat" where
  "demo_summary s =
     (length (bindings s), map run_decision (runs s), map adm_eligible (admissions s),
      map fnd_submission (findings s), map evt_type (finding_events s), length (outbox s))"

lemma demo_three:
  "demo_summary (demo_ledger 3) =
     (1, [Risk, InsufficientData], [False, False], [''s1''], [Issued, ResolvedByRevision], 3)"
  by code_simp

lemma demo_four:
  "demo_summary (demo_ledger 4) =
     (1, [Risk, InsufficientData, NormalCandidate], [False, False, True], [''s1''],
      [Issued, ResolvedByRevision], 4)"
  by code_simp

lemma demo_three_rows:
  "runs (demo_ledger 3) \<noteq> []" "findings (demo_ledger 3) \<noteq> []" "reports (demo_ledger 3) \<noteq> []"
  "submissions (demo_ledger 3) \<noteq> []" "length (runs (demo_ledger 3)) = 2"
proof -
  show two: "length (runs (demo_ledger 3)) = 2"
    using demo_three by (auto simp: demo_summary_def dest: arg_cong [of "map run_decision _" _ length])
  then show "runs (demo_ledger 3) \<noteq> []" by auto
  show "findings (demo_ledger 3) \<noteq> []" using demo_three by (auto simp: demo_summary_def)
  have ok: "books_ok (core_of (demo_ledger 3))"
    using reachable_ok [OF demo_reachable] by (auto simp: business_ok_def)
  have "length (map rep_run (reports (demo_ledger 3))) = 2"
    "length (map sub_id (submissions (demo_ledger 3))) = 2"
    using ok two by (simp_all add: books_ok_def del: length_map) (simp, metis length_map)
  then show "reports (demo_ledger 3) \<noteq> []" "submissions (demo_ledger 3) \<noteq> []" by auto
qed

text \<open>
  The properties of the regulatory engine, each over the ledgers that requests can reach
  from the empty database, with a concrete instance where it has hypotheses.
\<close>

section \<open>Refinement and its invariants\<close>

lemma reachable_books: "reachable env s \<Longrightarrow> books_ok (core_of s)"
  and reachable_findings: "reachable env s \<Longrightarrow> findings_ok (core_of s)"
  and reachable_clearing: "reachable env s \<Longrightarrow> clearing_ok (core_of s)"
  and reachable_outside: "reachable env s \<Longrightarrow> \<not> in_tx s"
  by (auto dest!: reachable_ok simp: business_ok_def)

lemma reachable_lineage: "reachable env s \<Longrightarrow> lineage (submissions s)"
  by (drule reachable_books) (simp add: books_ok_def)

lemma demo_step: "\<exists>x t. exec_request env r s = (x, t)"
  by (rule surj_pair)

text \<open>C1: Every request refines the abstract specification: in a reachable ledger it moves the
  business tables along a sequence of abstract steps (bind, analyse, explain, open a batch,
  acknowledge), or leaves them unchanged.\<close>
theorem request_refines_specification:
  assumes "reachable env s" and "exec_request env r s = (x, t)"
  shows "business_step\<^sup>*\<^sup>* (core_of s) (core_of t)"
proof (cases "kept_result x")
  case True
  with assms show ?thesis
    by (auto dest!: reachable_ok intro: refinedD [OF refined_request])
next
  case False
  have "counters_only s t"
    using outermost_request [of env r] assms reachable_outside False
    unfolding outermost_def by blast
  then have "core_of t = core_of s" by (metis counters_only_def core_of_noise(8,9))
  then show ?thesis by simp
qed

theorem request_refines_specification_witness:
  "business_step\<^sup>*\<^sup>* (core_of (demo_ledger 2))
     (core_of (snd (exec_request demo (demo_submit ''s2'' 2 (Some ''s1'')) (demo_ledger 2))))"
  by (rule request_refines_specification [OF demo_reachable surjective_pairing])

text \<open>C2: A finding is cleared exactly when some submission that replaces its own, directly or
  through further revisions, was analysed with a decision other than risk.\<close>
theorem finding_cleared_iff_replaced_without_risk:
  assumes "reachable env s" and "f \<in> set (findings s)"
  shows "is_resolved (finding_events s) (fnd_id f) \<longleftrightarrow>
    (\<exists>r \<in> set (runs s). run_decision r \<noteq> Risk
       \<and> strict_ancestor (submissions s) (run_submission r) (fnd_submission f))"
  using reachable_clearing [OF assms(1)] assms(2)
  by (simp add: clearing_ok_def replaced_without_risk_def)

theorem finding_cleared_iff_replaced_without_risk_witness:
  "is_resolved (finding_events (demo_ledger 3)) (fnd_id (hd (findings (demo_ledger 3)))) \<longleftrightarrow>
    (\<exists>r \<in> set (runs (demo_ledger 3)). run_decision r \<noteq> Risk
       \<and> strict_ancestor (submissions (demo_ledger 3)) (run_submission r)
           (fnd_submission (hd (findings (demo_ledger 3)))))"
  by (rule finding_cleared_iff_replaced_without_risk [OF demo_reachable hd_in_set [OF demo_three_rows(2)]])

text \<open>A revision whose data are insufficient for any conclusion clears the risk findings of
  the submissions it replaces, although no normal reanalysis exists: the clearing branch of
  \<open>submit_and_analyze\<close> tests only that the decision is not risk.\<close>
theorem insufficient_revision_clears_findings:
  assumes "reachable env s" and "f \<in> set (findings s)" and "r \<in> set (runs s)"
    and "run_decision r = InsufficientData"
    and "strict_ancestor (submissions s) (run_submission r) (fnd_submission f)"
  shows "fst (project_finding (finding_events s) (fnd_id f)) = ClearedByReanalysis"
proof -
  have "replaced_without_risk (core_of s) f"
    unfolding replaced_without_risk_def using assms(3-5) by (intro bexI [of _ r]) simp_all
  then have "is_resolved (finding_events s) (fnd_id f)"
    using reachable_clearing [OF assms(1)] assms(2) by (simp add: clearing_ok_def)
  then show ?thesis by (simp add: project_finding_state has_event_resolved)
qed

lemma demo_insufficient_run:
  "\<exists>r \<in> set (runs (demo_ledger 3)). run_decision r = InsufficientData
     \<and> strict_ancestor (submissions (demo_ledger 3)) (run_submission r)
         (fnd_submission (hd (findings (demo_ledger 3))))"
proof -
  let ?s = "demo_ledger 3"
  have d: "map run_decision (runs ?s) = [Risk, InsufficientData]"
    and e: "map evt_type (finding_events ?s) = [Issued, ResolvedByRevision]"
    and f: "map fnd_submission (findings ?s) = [''s1'']"
    using demo_three by (auto simp: demo_summary_def)
  from e obtain a b where ab: "finding_events ?s = [a, b]" "evt_type b = ResolvedByRevision" by auto
  from f obtain x where x: "findings ?s = [x]" by auto
  have "evt_finding b \<in> fnd_id ` set (findings ?s)"
    using reachable_findings [OF demo_reachable, of 3] ab by (simp add: findings_ok_def)
  then have "is_resolved (finding_events ?s) (fnd_id x)" using ab x by (simp add: is_resolved_def)
  then have "replaced_without_risk (core_of ?s) x"
    using reachable_clearing [OF demo_reachable, of 3] x by (simp add: clearing_ok_def)
  then obtain r where "r \<in> set (runs ?s)" "run_decision r \<noteq> Risk"
    "strict_ancestor (submissions ?s) (run_submission r) (fnd_submission x)"
    by (auto simp: replaced_without_risk_def)
  moreover have "run_decision r \<in> set [Risk, InsufficientData]"
    using calculation(1) d by (metis image_eqI set_map)
  ultimately show ?thesis using x by auto
qed

theorem insufficient_revision_clears_findings_witness:
  "fst (project_finding (finding_events (demo_ledger 3)) (fnd_id (hd (findings (demo_ledger 3))))) =
     ClearedByReanalysis"
  using demo_insufficient_run
    insufficient_revision_clears_findings [OF demo_reachable hd_in_set [OF demo_three_rows(2)]]
  by blast

section \<open>Replies never clear a finding\<close>

definition resolutions :: "ledger \<Rightarrow> event_row list" where
  "resolutions s = filter (\<lambda>e. evt_type e = ResolvedByRevision) (finding_events s)"

definition same_resolutions :: "ledger \<Rightarrow> ledger \<Rightarrow> bool" where
  "same_resolutions s t \<longleftrightarrow> resolutions t = resolutions s"

interpretation unresolving: ledger_steps same_resolutions env
  "\<lambda>x. x \<noteq> EventSlot ResolvedByRevision" for env
proof unfold_locales
  show "evolves same_resolutions (append_audit env ty agg_ty agg mine payload ts)"
    for ty agg_ty agg mine payload ts
    by (rule evolvesI)
       (auto simp: append_audit_def add_row_cases draw_uuid_def bind_def reading_def
          same_resolutions_def resolutions_def split: if_splits)
qed (simp_all add: same_resolutions_def resolutions_def roll_back_def set_in_tx_def)

fun is_submit :: "command \<Rightarrow> bool" where
  "is_submit (Submit _ _ _ _ _) = True"
| "is_submit _ = False"

text \<open>C3: No command other than a submission adds a clearing event: explanations, response
  batches and delivery acknowledgements clear nothing, in any ledger.\<close>
theorem replies_clear_nothing:
  assumes "\<not> is_submit c"
  shows "resolutions (snd (exec_command env c s)) = resolutions s"
proof -
  have "evolves same_resolutions (exec_command env c)"
    using assms
    by (cases c)
       (auto simp: with_receipt_def intro!: unresolving.evolves_bind unresolving.evolves_ret
          unresolving.evolves_claim_transport_nonce unresolving.evolves_bind_agent_to_mine
          unresolving.evolves_record_exchange_message unresolving.evolves_record_enterprise_response
          unresolving.evolves_record_enterprise_response_batch unresolving.evolves_record_delivery_ack
          unresolving.evolves_record_authentication_failure)
  then show ?thesis by (simp add: evolves_def same_resolutions_def)
qed

theorem replies_clear_nothing_witness:
  "resolutions (snd (exec_command demo (Respond (demo_response ''x'' ''f'')) (demo_ledger 3))) =
     resolutions (demo_ledger 3)"
  by (rule replies_clear_nothing) simp

section \<open>Append-only tables and integrity\<close>

text \<open>C4: No request, whether it succeeds or fails, changes or removes a row of an immutable
  table: the sixteen tables only grow at their end.\<close>
theorem ledger_is_append_only: "extends s (snd (exec_request env r s))"
  using growth.evolves_exec_request [OF growth.evolves_claim_transport_nonce, of env r]
  by (simp add: evolves_def)

lemma reachable_rel:
  assumes "reachable env s"
  shows "verify_audit_chain env s" "hash_bindings_hold env s" "numbered s"
proof -
  have "chain_kept env empty_ledger s"
    by (rule chain.rel_reachable [OF chain.evolves_claim_transport_nonce _ assms]) simp_all
  then show "verify_audit_chain env s"
    by (simp add: chain_kept_def verify_audit_chain_def empty_ledger_def)
  have "keeps (hash_bindings_hold env) empty_ledger s"
    by (rule sealed.rel_reachable [OF sealed.evolves_claim_transport_nonce _ assms]) simp_all
  then show "hash_bindings_hold env s"
    by (simp add: keeps_def hash_bindings_hold_def empty_ledger_def)
  have "keeps numbered empty_ledger s"
    by (rule numbering.rel_reachable [OF numbering.evolves_claim_transport_nonce _ assms]) simp_all
  then show "numbered s" by (simp add: keeps_def numbered_def empty_ledger_def)
qed

text \<open>C5: In every reachable ledger the hash-chained audit log verifies, and every row of the twelve
  tables whose rows bind a document to a digest (submissions, daily facts, runs, admissions,
  snapshots, findings, reports, batches, responses, acknowledgements, outbox and messages) carries
  the digest of its document. These are the two checks of the integrity check that read the rows;
  those of the database file, its foreign keys, schema, triggers and version are not part of it,
  nor are the payloads of \<open>finding_events\<close>, which carry no digest.\<close>
theorem stored_hashes_verify:
  assumes "reachable env s"
  shows "verify_audit_chain env s \<and> hash_bindings_hold env s"
  using reachable_rel [OF assms] by blast

theorem stored_hashes_verify_witness:
  "verify_audit_chain demo (demo_ledger 3) \<and> hash_bindings_hold demo (demo_ledger 3)"
  by (rule stored_hashes_verify [OF demo_reachable])

lemma audit_head_numbered:
  assumes "numbered s"
  shows "fst (audit_head s) = length (audits s)"
proof (cases "audits s = []")
  case False
  have "map aud_sequence (audits s) = [1..<Suc (length (audits s))]"
    using assms by (simp add: numbered_def)
  then have "aud_sequence (last (audits s)) = last [1..<Suc (length (audits s))]"
    using False by (metis last_map)
  also have "\<dots> = length (audits s)" using False by (cases "audits s") simp_all
  finally show ?thesis using False by (simp add: audit_head_def)
qed (simp add: audit_head_def)

lemma later_rows:
  assumes "numbered t" "audits t = audits s @ new"
  shows "filter (\<lambda>r. length (audits s) < aud_sequence r) (audits t) = new"
proof -
  have seq: "aud_sequence (audits t ! i) = Suc i" if "i < length (audits t)" for i
  proof -
    have "map aud_sequence (audits t) ! i = [1..<Suc (length (audits t))] ! i"
      using assms(1) by (simp only: numbered_def)
    with that show ?thesis by (simp del: upt_Suc)
  qed
  have old: "aud_sequence r \<le> length (audits s)" if "r \<in> set (audits s)" for r
  proof -
    from that obtain i where i: "i < length (audits s)" "r = audits s ! i"
      by (auto simp: in_set_conv_nth)
    then have "r = audits t ! i" using assms(2) by (simp add: nth_append)
    with seq [of i] i(1) assms(2) show ?thesis by simp
  qed
  have young: "length (audits s) < aud_sequence r" if "r \<in> set new" for r
  proof -
    from that obtain i where i: "i < length new" "r = new ! i" by (auto simp: in_set_conv_nth)
    then have "r = audits t ! (length (audits s) + i)" using assms(2) by simp
    with seq [of "length (audits s) + i"] i(1) assms(2) show ?thesis by simp
  qed
  have "filter (\<lambda>r. length (audits s) < aud_sequence r) (audits s) = []"
    using old by (auto simp: filter_empty_conv not_less)
  moreover have "filter (\<lambda>r. length (audits s) < aud_sequence r) new = new"
    using young by (simp add: filter_id_conv)
  ultimately show ?thesis by (simp add: assms(2))
qed

text \<open>The incremental check a commit makes accepts whatever a request wrote: the audit rows
  after the checkpointed head continue its chain up to the new head, and the payload hashes
  hold, so no legitimate write is refused.\<close>
theorem commit_check_accepts_request:
  assumes "reachable env s" and "exec_request env r s = (x, t)"
  shows "verify_audit_delta env (audit_head s) t \<and> hash_bindings_hold env t"
proof -
  have t: "reachable env t" by (rule reachable.step [OF assms])
  note s_ok = reachable_rel [OF assms(1)] and t_ok = reachable_rel [OF t]
  have "evolves extends (exec_request env r)"
    by (rule growth.evolves_exec_request [OF growth.evolves_claim_transport_nonce]) simp_all
  from evolvesD [OF this assms(2)] obtain new where new: "audits t = audits s @ new"
    by (auto simp: extends_def prefix_def)
  note rows = later_rows [OF t_ok(3) new]
  have "chain_valid env (snd (audit_head s)) new"
    using t_ok(1) by (auto simp: verify_audit_chain_def new chain_valid_append audit_head_def)
  moreover have "audit_head t = (if new = [] then audit_head s
      else (aud_sequence (last new), aud_hash (last new)))"
    by (simp add: audit_head_def new)
  moreover have "fst (audit_head s) \<le> fst (audit_head t)"
    by (simp add: audit_head_numbered s_ok(3) t_ok(3) new)
  ultimately show ?thesis
    using t_ok(2) by (simp add: verify_audit_delta_def audit_head_numbered [OF s_ok(3)] rows)
qed

theorem commit_check_accepts_request_witness:
  "verify_audit_delta demo (audit_head (demo_ledger 2))
     (snd (exec_request demo (demo_submit ''s2'' 2 (Some ''s1'')) (demo_ledger 2)))
   \<and> hash_bindings_hold demo
     (snd (exec_request demo (demo_submit ''s2'' 2 (Some ''s1'')) (demo_ledger 2)))"
  by (rule commit_check_accepts_request [OF demo_reachable surjective_pairing])

text \<open>
  Books and lineage of reachable ledgers, atomicity of failures, idempotent replays of an
  authenticated submission, the evidence left by a reused idempotency key, and the reuse of
  transport nonces.
\<close>

section \<open>Books and lineage\<close>

text \<open>C6: Every accepted submission has exactly one run, one baseline admission and one
  analysis report, in the order of acceptance, and the report states the run's decision.\<close>
theorem one_run_per_submission:
  assumes "reachable env s"
  shows "map run_submission (runs s) = map sub_id (submissions s)
    \<and> distinct (map run_submission (runs s))
    \<and> map adm_run (admissions s) = map run_id (runs s)
    \<and> map rep_run (reports s) = map run_id (runs s)
    \<and> map rep_outcome (reports s) = map run_decision (runs s)"
  using reachable_books [OF assms] lineage_distinct [OF reachable_lineage [OF assms]]
  by (simp add: books_ok_def)

theorem one_run_per_submission_witness:
  "map run_submission (runs (demo_ledger 3)) = map sub_id (submissions (demo_ledger 3))
    \<and> distinct (map run_submission (runs (demo_ledger 3)))
    \<and> map adm_run (admissions (demo_ledger 3)) = map run_id (runs (demo_ledger 3))
    \<and> map rep_run (reports (demo_ledger 3)) = map run_id (runs (demo_ledger 3))
    \<and> map rep_outcome (reports (demo_ledger 3)) = map run_decision (runs (demo_ledger 3))"
  by (rule one_run_per_submission [OF demo_reachable])

lemma run_of_report:
  assumes "books_ok c" "rp \<in> set (k_reports c)"
  shows "\<exists>r \<in> set (k_runs c). rep_run rp = run_id r \<and> rep_outcome rp = run_decision r"
  using map_eq_row [OF _ _ assms(2), of rep_run run_id "k_runs c" rep_outcome run_decision] assms(1)
  by (simp add: books_ok_def)

text \<open>A report announces findings exactly when its outcome is risk, and lists precisely the
  findings issued for its run; data insufficiency never creates a finding.\<close>
theorem report_lists_findings_of_run:
  assumes "reachable env s" and "rp \<in> set (reports s)"
  shows "ar_finding_ids (rep_report rp) =
      map fnd_id (filter (\<lambda>f. fnd_run f = rep_run rp) (findings s))
    \<and> (rep_outcome rp = Risk \<longleftrightarrow> ar_finding_ids (rep_report rp) \<noteq> [])"
proof -
  have fok: "findings_ok (core_of s)" and bok: "books_ok (core_of s)"
    using reachable_findings reachable_books assms(1) by blast+
  have ids: "ar_finding_ids (rep_report rp) =
      map fnd_id (filter (\<lambda>f. fnd_run f = rep_run rp) (findings s))"
    using fok assms(2) by (simp add: findings_ok_def)
  obtain r where r: "r \<in> set (runs s)" "rep_run rp = run_id r" "rep_outcome rp = run_decision r"
    using run_of_report [OF bok, of rp] assms(2) by auto
  have some: "(\<exists>f \<in> set (findings s). fnd_run f = run_id r)" if "run_decision r = Risk"
    using fok r(1) that by (simp add: findings_ok_def)
  have none: "run_decision r = Risk" if f: "f \<in> set (findings s)" "fnd_run f = run_id r" for f
  proof -
    obtain q where q: "q \<in> set (runs s)" "run_id q = fnd_run f" "run_decision q = Risk"
      using fok f(1) by (auto simp: findings_ok_def)
    have "q = r"
      using bok q(1,2) r(1) f(2) by (auto simp: books_ok_def distinct_map inj_on_def)
    with q show ?thesis by simp
  qed
  have "rep_outcome rp = Risk \<longleftrightarrow> filter (\<lambda>f. fnd_run f = rep_run rp) (findings s) \<noteq> []"
    using some none r by (auto simp: filter_empty_conv)
  with ids show ?thesis by simp
qed

theorem report_lists_findings_of_run_witness:
  "ar_finding_ids (rep_report (hd (reports (demo_ledger 3)))) =
      map fnd_id (filter (\<lambda>f. fnd_run f = rep_run (hd (reports (demo_ledger 3))))
        (findings (demo_ledger 3)))
    \<and> (rep_outcome (hd (reports (demo_ledger 3))) = Risk \<longleftrightarrow>
        ar_finding_ids (rep_report (hd (reports (demo_ledger 3)))) \<noteq> [])"
  by (rule report_lists_findings_of_run [OF demo_reachable hd_in_set [OF demo_three_rows(3)]])

text \<open>C7: Submissions form revision chains: identifiers are unique, a first revision has number
  1 and no predecessor, every other one follows an accepted submission of the same mine and
  period with the next number, and no submission is revised twice.\<close>
theorem submissions_form_chains:
  assumes "reachable env s" and "u \<in> set (submissions s)"
  shows "distinct (map sub_id (submissions s))
    \<and> (case sub_supersedes u of
      None \<Rightarrow> sub_revision u = 1
    | Some x \<Rightarrow> \<exists>p \<in> set (submissions s). sub_id p = x \<and> sub_mine p = sub_mine u
        \<and> sub_period_start p = sub_period_start u \<and> sub_period_end p = sub_period_end u
        \<and> sub_revision u = sub_revision p + 1
        \<and> (\<forall>v \<in> set (submissions s). sub_supersedes v = Some x \<longrightarrow> v = u))"
proof (rule conjI)
  note lin = reachable_lineage [OF assms(1)]
  show "distinct (map sub_id (submissions s))" by (rule lineage_distinct [OF lin])
  have first: "\<forall>u \<in> set rows. sub_supersedes u = None \<longrightarrow> sub_revision u = 1" if "lineage rows" for rows
    using that
    by (induction rule: lineage.induct) (auto simp: revision_allowed_def)
  show "case sub_supersedes u of
      None \<Rightarrow> sub_revision u = 1
    | Some x \<Rightarrow> \<exists>p \<in> set (submissions s). sub_id p = x \<and> sub_mine p = sub_mine u
        \<and> sub_period_start p = sub_period_start u \<and> sub_period_end p = sub_period_end u
        \<and> sub_revision u = sub_revision p + 1
        \<and> (\<forall>v \<in> set (submissions s). sub_supersedes v = Some x \<longrightarrow> v = u)"
  proof (cases "sub_supersedes u")
    case None
    with first [OF lin] assms(2) show ?thesis by simp
  next
    case (Some x)
    from lineage_predecessor [OF lin assms(2) Some] lineage_linear [OF lin _ assms(2) _ Some] Some
    show ?thesis by fastforce
  qed
qed

theorem submissions_form_chains_witness:
  "distinct (map sub_id (submissions (demo_ledger 3)))
    \<and> (case sub_supersedes (hd (submissions (demo_ledger 3))) of
      None \<Rightarrow> sub_revision (hd (submissions (demo_ledger 3))) = 1
    | Some x \<Rightarrow> \<exists>p \<in> set (submissions (demo_ledger 3)). sub_id p = x
        \<and> sub_mine p = sub_mine (hd (submissions (demo_ledger 3)))
        \<and> sub_period_start p = sub_period_start (hd (submissions (demo_ledger 3)))
        \<and> sub_period_end p = sub_period_end (hd (submissions (demo_ledger 3)))
        \<and> sub_revision (hd (submissions (demo_ledger 3))) = sub_revision p + 1
        \<and> (\<forall>v \<in> set (submissions (demo_ledger 3)). sub_supersedes v = Some x \<longrightarrow>
             v = hd (submissions (demo_ledger 3))))"
  by (rule submissions_form_chains [OF demo_reachable hd_in_set [OF demo_three_rows(4)]])

text \<open>C8: The recursive ancestor query of the clearing step ends on every reachable ledger and
  returns exactly the submission and all it replaces.\<close>
theorem ancestor_query_terminates:
  assumes "reachable env s"
  shows "\<exists>chain. ancestor_submissions (submissions s) x = Some chain
    \<and> set chain = insert x {a. strict_ancestor (submissions s) x a}"
proof -
  have "{a. (revises (submissions s))\<^sup>*\<^sup>* x a} = insert x {a. strict_ancestor (submissions s) x a}"
    by (auto simp: strict_ancestor_def dest: rtranclpD intro: tranclp_into_rtranclp)
  then show ?thesis
    using ancestor_submissions_exact [OF reachable_lineage [OF assms], of x] by simp
qed

theorem ancestor_query_terminates_witness:
  "\<exists>chain. ancestor_submissions (submissions (demo_ledger 3)) ''s2'' = Some chain
    \<and> set chain = insert ''s2'' {a. strict_ancestor (submissions (demo_ledger 3)) ''s2'' a}"
  by (rule ancestor_query_terminates [OF demo_reachable])

text \<open>The descendant test agrees with the revision chains: it accepts exactly the
  submissions of the mine that replace the other one, directly or indirectly.\<close>
theorem descendant_test_exact:
  assumes "reachable env s"
  shows "is_strict_submission_descendant (submissions s) x a mine \<longleftrightarrow>
    strict_ancestor (submissions s) x a
    \<and> (\<exists>r \<in> set (submissions s). sub_id r = x \<and> sub_mine r = mine)"
  by (rule submission_descendant_exact [OF reachable_lineage [OF assms]])

theorem descendant_test_exact_witness:
  "is_strict_submission_descendant (submissions (demo_ledger 3)) ''s2'' ''s1'' ''m'' \<longleftrightarrow>
    strict_ancestor (submissions (demo_ledger 3)) ''s2'' ''s1''
    \<and> (\<exists>r \<in> set (submissions (demo_ledger 3)). sub_id r = ''s2'' \<and> sub_mine r = ''m'')"
  by (rule descendant_test_exact [OF demo_reachable])

section \<open>Atomicity\<close>

text \<open>C9: A request that raises leaves the whole ledger as it was, up to the identifiers and
  clock readings it consumed; only the durable idempotency conflict keeps writes.\<close>
theorem failed_request_changes_nothing:
  assumes "reachable env s" and "exec_request env r s = (Inl e, t)"
    and "e \<noteq> DurableIdempotencyConflict"
  shows "t = s\<lparr>draws := draws t, ticks := ticks t\<rparr>"
  using outermost_request [of env r] assms reachable_outside
  unfolding outermost_def counters_only_def by (auto simp: durable_error_def)

definition demo_bad :: request where
  "demo_bad = Single (BindAgent ''a'' ''n'')"

theorem failed_request_changes_nothing_witness:
  "snd (exec_request demo demo_bad (demo_ledger 1)) =
     (demo_ledger 1)\<lparr>draws := draws (snd (exec_request demo demo_bad (demo_ledger 1))),
       ticks := ticks (snd (exec_request demo demo_bad (demo_ledger 1)))\<rparr>"
proof -
  have "fst (exec_request demo demo_bad (demo_ledger 1)) = Inl AgentOfOtherMine"
    by code_simp
  then have "exec_request demo demo_bad (demo_ledger 1) =
      (Inl AgentOfOtherMine, snd (exec_request demo demo_bad (demo_ledger 1)))"
    by (metis prod.collapse)
  from failed_request_changes_nothing [OF demo_reachable this] show ?thesis by simp
qed

text \<open>Whatever a submission raises is one of the documented refusals (revision, envelope,
  identity, idempotency, future period), a table constraint, or an internal inconsistency
  the reachable states exclude.\<close>
theorem submission_raises_only:
  assumes "submit_and_analyze env sub agent key msg p s = (Inl e, t)"
  shows "e \<in> submission_errors"
  using raisesD [OF raises_submit_and_analyze [OF order_refl] assms] .

theorem submission_raises_only_witness:
  "fst (submit_and_analyze demo ((demo_submission ''z'' 1 None)\<lparr>s_period_end := CalendarDate 5000\<rparr>)
      None None None None empty_ledger) = Inl FuturePeriod
    \<and> FuturePeriod \<in> submission_errors"
proof -
  let ?sub = "(demo_submission ''z'' 1 None)\<lparr>s_period_end := CalendarDate 5000\<rparr>"
  have run: "submit_and_analyze demo ?sub None None None None empty_ledger =
      (Inl FuturePeriod, empty_ledger\<lparr>ticks := 1\<rparr>)"
    by (simp add: submit_and_analyze_def bind_def now_def future_period_def demo_def raise_def
        demo_submission_def empty_ledger_def)
  with submission_raises_only [OF run] show ?thesis by simp
qed

end
