(* ===== verification/Regulatory_Idempotency.thy ===== *)
theory Regulatory_Idempotency
  imports Regulatory_Properties
begin

text \<open>
  Replays: an authenticated submission repeated at any later time returns the receipt of the
  first and writes nothing; another message under the same idempotency key is refused and
  leaves one audit row; a transport nonce is accepted once until it expires, and never more
  than 4096 are live per sender.
\<close>

section \<open>Resubmission\<close>

lemma receipt_for_submissionD:
  assumes "receipt_for_submission x replay s = (Inr rc, t)"
  obtains u r where "t = s" "rc_submission rc = x"
    "find (\<lambda>r. sub_id r = x) (submissions s) = Some u"
    "find (\<lambda>r. run_submission r = x) (runs s) = Some r"
    "run_id r = rc_run rc" "run_decision r = rc_decision rc"
  using assms
  by (auto simp: receipt_for_submission_def op_defs split: option.splits)

lemma receipt_for_submissionI:
  assumes "find (\<lambda>r. sub_id r = x) (submissions s) = Some u"
    "find (\<lambda>r. run_submission r = x) (runs s) = Some r"
  shows "\<exists>rc. receipt_for_submission x replay s = (Inr rc, s) \<and> rc_submission rc = x
    \<and> rc_run rc = run_id r \<and> rc_decision rc = run_decision r \<and> rc_replay rc = replay"
  by (simp add: receipt_for_submission_def op_defs assms)

lemma find_inbox_commandD:
  assumes "find_inbox_command env a key m mine ts s = (Inr (Some row), t)"
  shows "t = s \<and> find (\<lambda>r. ibx_sender r = a \<and> ibx_key r = key) (inbox s) = Some row
    \<and> ibx_message_id row = em_message_id m \<and> ibx_message_type row = em_message_type m
    \<and> ibx_mine row = mine \<and> ibx_body_sha row = digest env (em_body m)"
  using assms
  by (auto simp: find_inbox_command_def bind_def op_defs split: option.splits if_splits prod.splits sum.splits)

lemma find_inbox_commandI:
  assumes "find (\<lambda>r. ibx_sender r = a \<and> ibx_key r = key) (inbox s) = Some row"
    "ibx_message_id row = em_message_id m" "ibx_message_type row = em_message_type m"
    "ibx_mine row = mine" "ibx_body_sha row = digest env (em_body m)"
  shows "find_inbox_command env a key m mine ts s = (Inr (Some row), s)"
  using assms by (simp add: find_inbox_command_def op_defs)

lemma remember_command_row:
  assumes "remember_command env (Some a) key (Some m) mine kind result ts s = (Inr x, t)"
  shows "\<exists>row. find (\<lambda>r. ibx_sender r = a \<and> ibx_key r = key) (inbox t) = Some row
    \<and> ibx_message_id row = em_message_id m \<and> ibx_message_type row = em_message_type m
    \<and> ibx_mine row = mine \<and> ibx_body_sha row = digest env (em_body m)
    \<and> ibx_kind row = kind \<and> ibx_result row = result"
proof -
  let ?row = "\<lparr>ibx_sender = a, ibx_key = key, ibx_message_id = em_message_id m,
      ibx_message_type = em_message_type m, ibx_mine = mine, ibx_body_sha = digest env (em_body m),
      ibx_kind = kind, ibx_result = result, ibx_recorded_at = ts\<rparr>"
  from assms have new: "\<not> list_ex (inbox_clash ?row) (inbox s)" and t: "inbox t = inbox s @ [?row]"
    by (auto simp: remember_command_def insert_inbox_command_def dest!: add_row_InrD)
  have "find (\<lambda>r. ibx_sender r = a \<and> ibx_key r = key) (inbox s) = None"
    using new by (auto simp: find_None_iff list_ex_iff inbox_clash_def)
  then show ?thesis by (simp add: t find_append)
qed

text \<open>What a successful authenticated submission leaves behind.\<close>

definition remembered :: "platform \<Rightarrow> string \<Rightarrow> string \<Rightarrow> exchange_message \<Rightarrow> string \<Rightarrow> submission_receipt \<Rightarrow> ledger \<Rightarrow> bool" where
  "remembered env a key m mine rc t \<longleftrightarrow>
     (\<exists>b. find (\<lambda>r. bnd_agent r = a) (bindings t) = Some b \<and> bnd_mine b = mine)
     \<and> (\<exists>row. find (\<lambda>r. ibx_sender r = a \<and> ibx_key r = key) (inbox t) = Some row
          \<and> ibx_message_id row = em_message_id m \<and> ibx_message_type row = em_message_type m
          \<and> ibx_mine row = mine \<and> ibx_body_sha row = digest env (em_body m)
          \<and> ibx_kind row = SubmissionResult \<and> ibx_result row = rc_submission rc)
     \<and> (\<exists>u r. find (\<lambda>r. sub_id r = rc_submission rc) (submissions t) = Some u
          \<and> find (\<lambda>r. run_submission r = rc_submission rc) (runs t) = Some r
          \<and> run_id r = rc_run rc \<and> run_decision r = rc_decision rc)"

lemma remembered_extends:
  assumes "remembered env a key m mine rc t" "extends t u"
  shows "remembered env a key m mine rc u"
proof -
  note px = find_prefix [of "bindings t" "bindings u"] find_prefix [of "inbox t" "inbox u"]
    find_prefix [of "submissions t" "submissions u"] find_prefix [of "runs t" "runs u"]
  from assms(2) have "prefix (bindings t) (bindings u)" "prefix (inbox t) (inbox u)"
    "prefix (submissions t) (submissions u)" "prefix (runs t) (runs u)"
    by (simp_all add: extends_def)
  with px assms(1) show ?thesis unfolding remembered_def by blast
qed

lemma assert_agent_mineD:
  assumes "assert_agent_mine a mine s = (Inr x, t)"
  shows "t = s \<and> (\<exists>b. find (\<lambda>r. bnd_agent r = a) (bindings s) = Some b \<and> bnd_mine b = mine)"
  using assms
  by (auto simp: assert_agent_mine_def raise_def dest!: require_InrD split: option.splits)

lemma find_snoc_fresh:
  "x \<notin> f ` set xs \<Longrightarrow> f y = x \<Longrightarrow> find (\<lambda>r. f r = x) (xs @ [y]) = Some y"
  by (induction xs) auto

lemma analyze_new_remembered:
  assumes run: "analyze_new_submission env p sub key (Some a) (Some m) ts s = (Inr rc, t)"
    and ok: "business_ok (core_of s)"
    and bound: "\<exists>b. find (\<lambda>r. bnd_agent r = a) (bindings s) = Some b \<and> bnd_mine b = s_mine_id sub"
  shows "remembered env a key m (s_mine_id sub) rc t"
proof -
  obtain u r a' rp fs es where
    na: "new_analysis (core_of s) u r a' rp fs es" and
    t: "core_of t = add_analysis u r a' rp fs es (core_of s)" and
    u: "sub_id u = s_submission_id sub" and
    r: "run_id r = rc_run rc" "run_decision r = rc_decision rc"
    using analyze_new_submissionD [OF run ok] by metis
  from run have sub: "rc_submission rc = s_submission_id sub"
    unfolding analyze_new_submission_def
    by (auto elim!: bind_InrE dest!: retD split: prod.splits)
  from run obtain s1 x where "remember_command env (Some a) key (Some m) (s_mine_id sub)
      SubmissionResult (s_submission_id sub) ts s1 = (Inr x, t)"
    unfolding analyze_new_submission_def
    by (auto elim!: bind_InrE dest!: retD split: prod.splits)
  note row = remember_command_row [OF this]
  note tabs = core_of_eqD [OF t, simplified]
  have fresh: "sub_id u \<notin> sub_id ` set (submissions s)" "run_submission r = sub_id u"
    using na by (auto simp: new_analysis_def revision_allowed_def)
  have "set (map run_submission (runs s)) = set (map sub_id (submissions s))"
    using ok by (simp add: business_ok_def books_ok_def)
  then have "sub_id u \<notin> run_submission ` set (runs s)" using fresh(1) by simp
  then have "find (\<lambda>q. run_submission q = sub_id u) (runs t) = Some r"
    "find (\<lambda>q. sub_id q = sub_id u) (submissions t) = Some u"
    using fresh by (simp_all add: tabs find_snoc_fresh)
  moreover have "bindings t = bindings s" using tabs by simp
  ultimately show ?thesis
    unfolding remembered_def using row bound r u sub by auto
qed

lemma submit_body_remembered:
  assumes run: "submit_body env p sub key (Some a) (Some m) ts s = (Inr rc, t)"
    and ok: "business_ok (core_of s)"
  shows "remembered env a key m (s_mine_id sub) rc t"
proof -
  from run obtain y claimed s0 s1 where
    ag: "assert_agent_mine a (s_mine_id sub) s = (Inr y, s0)" and
    cl: "claimed_command env (Some a) key (Some m) (s_mine_id sub) ts s0 = (Inr claimed, s1)" and
    rest: "(case claimed of
       Some row \<Rightarrow>
         bind (require (ibx_kind row = SubmissionResult) KeyOfOtherCommand) (\<lambda>_.
         receipt_for_submission (ibx_result row) True)
     | None \<Rightarrow>
         bind (when_some (Some m) (admit_submission_envelope env sub (Some a) ts)) (\<lambda>_.
         bind (reading (\<lambda>s. find (same_submission sub key) (submissions s))) (\<lambda>existing.
         case existing of
           Some r \<Rightarrow>
             bind (require (sub_id r = s_submission_id sub
                            \<and> sub_sha r = digest env (dump_submission env sub))
                    KeyUsedWithOtherPayload) (\<lambda>_.
             bind (remember_command env (Some a) key (Some m) (s_mine_id sub) SubmissionResult
                    (s_submission_id sub) ts) (\<lambda>_.
             receipt_for_submission (s_submission_id sub) True))
         | None \<Rightarrow> analyze_new_submission env p sub key (Some a) (Some m) ts))) s1 = (Inr rc, t)"
    unfolding submit_body_def when_some_def option.case
    by (elim bind_InrE) blast
  have bound: "\<exists>b. find (\<lambda>r. bnd_agent r = a) (bindings s) = Some b \<and> bnd_mine b = s_mine_id sub"
    using assert_agent_mineD [OF ag] by blast
  have s0: "s0 = s" using assert_agent_mineD [OF ag] by blast
  have c1: "core_of s1 = core_of s"
    using core_unchanged [OF cl noise.evolves_claimed_command] by (simp add: s0)
  note tabs1 = core_tables [OF c1]
  show ?thesis
  proof (cases claimed)
    case (Some row)
    with cl have f: "find_inbox_command env a key m (s_mine_id sub) ts s0 = (Inr (Some row), s1)"
      by (simp add: claimed_command_def)
    from rest Some have k: "ibx_kind row = SubmissionResult"
      and rc: "receipt_for_submission (ibx_result row) True s1 = (Inr rc, t)"
      by (auto simp: bind_require raise_def split: if_splits)
    obtain u r where "t = s1" "rc_submission rc = ibx_result row"
      "find (\<lambda>r. sub_id r = ibx_result row) (submissions s1) = Some u"
      "find (\<lambda>r. run_submission r = ibx_result row) (runs s1) = Some r"
      "run_id r = rc_run rc" "run_decision r = rc_decision rc"
      using receipt_for_submissionD [OF rc] .
    with find_inbox_commandD [OF f] k bound show ?thesis
      unfolding remembered_def by (simp add: s0)
  next
    case None
    with rest obtain s2 existing where
      adm: "admit_submission_envelope env sub (Some a) ts m s1 = (Inr (), s2)" and
      rest2: "(case find (same_submission sub key) (submissions s2) of
           Some r \<Rightarrow>
             bind (require (sub_id r = s_submission_id sub
                            \<and> sub_sha r = digest env (dump_submission env sub))
                    KeyUsedWithOtherPayload) (\<lambda>_.
             bind (remember_command env (Some a) key (Some m) (s_mine_id sub) SubmissionResult
                    (s_submission_id sub) ts) (\<lambda>_.
             receipt_for_submission (s_submission_id sub) True))
         | None \<Rightarrow> analyze_new_submission env p sub key (Some a) (Some m) ts) s2 = (Inr rc, t)"
      by (auto simp: when_some_def elim!: bind_InrE dest!: readingD)
    have c2: "core_of s2 = core_of s"
      using core_unchanged [OF adm noise.evolves_admit_submission_envelope] c1 by simp
    note tabs2 = core_tables [OF c2]
    show ?thesis
    proof (cases "find (same_submission sub key) (submissions s2)")
      case None
      with rest2 have "analyze_new_submission env p sub key (Some a) (Some m) ts s2 = (Inr rc, t)"
        by simp
      from analyze_new_remembered [OF this] ok bound c2 tabs2 show ?thesis by simp
    next
      case (Some r)
      with rest2 obtain s3 where
        rem: "remember_command env (Some a) key (Some m) (s_mine_id sub) SubmissionResult
          (s_submission_id sub) ts s2 = (Inr (), s3)" and
        rc: "receipt_for_submission (s_submission_id sub) True s3 = (Inr rc, t)"
        by (auto elim!: bind_InrE dest!: require_InrD)
      have c3: "core_of s3 = core_of s" using remember_commandD [OF rem] c2 by simp
      obtain u r where "t = s3" "rc_submission rc = s_submission_id sub"
        "find (\<lambda>r. sub_id r = s_submission_id sub) (submissions s3) = Some u"
        "find (\<lambda>r. run_submission r = s_submission_id sub) (runs s3) = Some r"
        "run_id r = rc_run rc" "run_decision r = rc_decision rc"
        using receipt_for_submissionD [OF rc] .
      with remember_command_row [OF rem] bound core_tables [OF c3]
      show ?thesis unfolding remembered_def by simp
    qed
  qed
qed


lemma set_in_tx_back: "\<not> in_tx s \<Longrightarrow> set_in_tx False (set_in_tx True s) = s"
  by (simp add: set_in_tx_def)

lemma store_transaction_success:
  assumes "\<not> in_tx s"
  shows "store_transaction m s = (Inr a, t) \<longleftrightarrow>
    (\<exists>v. m (set_in_tx True s) = (Inr a, v) \<and> t = set_in_tx False v)"
  using assms
  by (auto simp: store_transaction_def transaction_def split: prod.splits sum.splits)

lemma remembered_tables:
  "remembered env a key m mine rc (set_in_tx b s) = remembered env a key m mine rc s"
  "remembered env a key m mine rc (s\<lparr>ticks := k\<rparr>) = remembered env a key m mine rc s"
  by (simp_all add: remembered_def set_in_tx_def)

lemma submit_unfold:
  assumes "\<not> future_period env sub (clock env (ticks s))"
  shows "submit_and_analyze env sub agent key msg p s =
    store_transaction (submit_body env (case p of None \<Rightarrow> default_parameters | Some q \<Rightarrow> q) sub
      (or_default key (s_submission_id sub)) agent msg (clock env (ticks s)))
      (s\<lparr>ticks := Suc (ticks s)\<rparr>)"
  using assms by (simp add: submit_and_analyze_def bind_def now_def)

lemma remembered_submit_body:
  assumes "remembered env a key m (s_mine_id sub) rc s"
  shows "\<exists>rc'. submit_body env p sub key (Some a) (Some m) ts s = (Inr rc', s)
    \<and> rc_submission rc' = rc_submission rc \<and> rc_run rc' = rc_run rc
    \<and> rc_decision rc' = rc_decision rc \<and> rc_replay rc'"
proof -
  from assms obtain b row u r where
    b: "find (\<lambda>r. bnd_agent r = a) (bindings s) = Some b" "bnd_mine b = s_mine_id sub" and
    row: "find (\<lambda>r. ibx_sender r = a \<and> ibx_key r = key) (inbox s) = Some row"
      "ibx_message_id row = em_message_id m" "ibx_message_type row = em_message_type m"
      "ibx_mine row = s_mine_id sub" "ibx_body_sha row = digest env (em_body m)"
      "ibx_kind row = SubmissionResult" "ibx_result row = rc_submission rc" and
    ur: "find (\<lambda>r. sub_id r = rc_submission rc) (submissions s) = Some u"
      "find (\<lambda>r. run_submission r = rc_submission rc) (runs s) = Some r"
      "run_id r = rc_run rc" "run_decision r = rc_decision rc"
    unfolding remembered_def by blast
  have ag: "assert_agent_mine a (s_mine_id sub) s = (Inr (), s)"
    using b by (simp add: assert_agent_mine_def require_def ret_def)
  have cl: "claimed_command env (Some a) key (Some m) (s_mine_id sub) ts s = (Inr (Some row), s)"
    using find_inbox_commandI [OF row(1-5)] by (simp add: claimed_command_def)
  from receipt_for_submissionI [OF ur(1,2), of True] obtain rc' where
    "receipt_for_submission (rc_submission rc) True s = (Inr rc', s)"
    "rc_submission rc' = rc_submission rc" "rc_run rc' = rc_run rc"
    "rc_decision rc' = rc_decision rc" "rc_replay rc'"
    using ur(3,4) by auto
  then show ?thesis
    by (intro exI [of _ rc'])
       (simp add: submit_body_def when_some_def bind_Inr [of "assert_agent_mine a (s_mine_id sub)", OF ag]
        bind_Inr [of "claimed_command env (Some a) key (Some m) (s_mine_id sub) ts", OF cl]
        row(6,7) bind_require)
qed

text \<open>C10: An authenticated submission repeated with the same sender, key and message, at any later
  time and after any other requests, returns the receipt of the same run and decision,
  marked as a replay, and writes nothing.\<close>
theorem resubmission_replays:
  assumes "reachable env s"
    and "exec_command env (Submit sub (Some a) key (Some m) p) s = (Inr (Submitted rc), t)"
    and "\<not> future_period env sub (clock env (ticks (run_requests env rs t)))"
  shows "\<exists>rc'. exec_command env (Submit sub (Some a) key (Some m) q) (run_requests env rs t) =
      (Inr (Submitted rc'), (run_requests env rs t)\<lparr>ticks := Suc (ticks (run_requests env rs t))\<rparr>)
    \<and> rc_submission rc' = rc_submission rc \<and> rc_run rc' = rc_run rc
    \<and> rc_decision rc' = rc_decision rc \<and> rc_replay rc'"
proof -
  let ?u = "run_requests env rs t" and ?key = "or_default key (s_submission_id sub)"
  let ?s = "s\<lparr>ticks := Suc (ticks s)\<rparr>"
  from assms(2) have sub: "submit_and_analyze env sub (Some a) key (Some m) p s = (Inr rc, t)"
    by (auto simp: with_receipt_def elim!: bind_InrE dest!: retD)
  then have now_ok: "\<not> future_period env sub (clock env (ticks s))"
    by (auto simp: submit_and_analyze_def bind_def now_def raise_def)
  have out: "\<not> in_tx ?s" "business_ok (core_of s)"
    using reachable_ok [OF assms(1)] by simp_all
  obtain v where v: "submit_body env (case p of None \<Rightarrow> default_parameters | Some q \<Rightarrow> q) sub ?key
      (Some a) (Some m) (clock env (ticks s)) (set_in_tx True ?s) = (Inr rc, v)"
    and t: "t = set_in_tx False v"
    using sub [unfolded submit_unfold [OF now_ok] store_transaction_success [OF out(1)]] by blast
  have "remembered env a ?key m (s_mine_id sub) rc v"
    by (rule submit_body_remembered [OF v]) (use out in simp)
  then have "remembered env a ?key m (s_mine_id sub) rc t"
    unfolding t remembered_tables .
  moreover have "extends t ?u"
    by (rule growth.rel_run_requests [OF growth.evolves_claim_transport_nonce]) simp_all
  ultimately have mem: "remembered env a ?key m (s_mine_id sub) rc ?u"
    by (rule remembered_extends)
  have "reachable env ?u"
  proof (rule reachable_run_requests, rule reachable.step [OF assms(1)])
    show "exec_request env (Single (Submit sub (Some a) key (Some m) p)) s = (Inr [Submitted rc], t)"
      using assms(2) by (simp add: bind_def ret_def)
  qed
  then have out': "\<not> in_tx (?u\<lparr>ticks := Suc (ticks ?u)\<rparr>)" using reachable_ok by simp
  from mem have "remembered env a ?key m (s_mine_id sub) rc
      (set_in_tx True (?u\<lparr>ticks := Suc (ticks ?u)\<rparr>))"
    by (simp add: remembered_tables)
  from remembered_submit_body [OF this] obtain rc' where
    "submit_and_analyze env sub (Some a) key (Some m) q ?u =
       (Inr rc', ?u\<lparr>ticks := Suc (ticks ?u)\<rparr>)"
    "rc_submission rc' = rc_submission rc" "rc_run rc' = rc_run rc"
    "rc_decision rc' = rc_decision rc" "rc_replay rc'"
    unfolding submit_unfold [OF assms(3)] store_transaction_success [OF out']
    using set_in_tx_back [OF out'] by metis
  then show ?thesis
    by (intro exI [of _ rc']) (simp add: with_receipt_def bind_def ret_def)
qed

fun submitted_receipt :: "reg_error + receipt \<Rightarrow> submission_receipt option" where
  "submitted_receipt (Inr (Submitted rc)) = Some rc"
| "submitted_receipt _ = None"

definition demo_first :: command where
  "demo_first = Submit (demo_submission ''s1'' 1 None) (Some ''a'') None
     (Some (demo_message ''qs1'' ''b'')) None"

lemma demo_first_succeeds: "\<exists>rc t. exec_command demo demo_first (demo_ledger 1) = (Inr (Submitted rc), t)"
proof -
  have "submitted_receipt (fst (exec_command demo demo_first (demo_ledger 1))) \<noteq> None"
    by code_simp
  then show ?thesis
    by (cases "exec_command demo demo_first (demo_ledger 1)"; cases "fst (exec_command demo demo_first (demo_ledger 1))")
       (auto elim: submitted_receipt.elims)
qed

lemma demo_not_future: "\<not> future_period demo (demo_submission x n pre) (clock demo k)"
  by (simp add: future_period_def demo_def demo_submission_def)

theorem resubmission_replays_witness:
  "\<exists>rc t rc'. exec_command demo demo_first (demo_ledger 1) = (Inr (Submitted rc), t)
    \<and> exec_command demo demo_first (run_requests demo [demo_submit ''s2'' 2 (Some ''s1'')] t) =
        (Inr (Submitted rc'),
         (run_requests demo [demo_submit ''s2'' 2 (Some ''s1'')] t)
           \<lparr>ticks := Suc (ticks (run_requests demo [demo_submit ''s2'' 2 (Some ''s1'')] t))\<rparr>)
    \<and> rc_run rc' = rc_run rc \<and> rc_replay rc'"
proof -
  obtain rc t where run: "exec_command demo demo_first (demo_ledger 1) = (Inr (Submitted rc), t)"
    using demo_first_succeeds by blast
  show ?thesis
    using run resubmission_replays [OF demo_reachable run [unfolded demo_first_def]
        demo_not_future, of None "[demo_submit ''s2'' 2 (Some ''s1'')]"]
    unfolding demo_first_def by blast
qed

section \<open>A reused idempotency key\<close>

lemma find_inbox_command_conflict:
  assumes "find_inbox_command env a key m mine ts s = (Inl DurableIdempotencyConflict, t)"
  shows "\<exists>ev. t = s\<lparr>draws := Suc (draws s), audits := audits s @ [ev]\<rparr>
    \<and> aud_type ev = ''inbox_idempotency_conflict_rejected'' \<and> aud_aggregate ev = key
    \<and> aud_mine ev = Some mine"
  using assms
  by (auto simp: find_inbox_command_def append_audit_def add_row_cases draw_uuid_def bind_def op_defs
      split: option.splits if_splits)

lemma conflict_from_lookup:
  assumes run: "bind (when_some agent (\<lambda>a. assert_agent_mine a mine)) (\<lambda>_.
      bind (claimed_command env agent key msg mine ts) f) s = (Inl DurableIdempotencyConflict, t)"
    and free: "\<And>c. raises (- {DurableIdempotencyConflict}) (f c)"
  shows "\<exists>ev. t = s\<lparr>draws := Suc (draws s), audits := audits s @ [ev]\<rparr>
    \<and> aud_type ev = ''inbox_idempotency_conflict_rejected'' \<and> aud_aggregate ev = key
    \<and> aud_mine ev = Some mine"
proof -
  obtain q u where q: "when_some agent (\<lambda>a. assert_agent_mine a mine) s = (q, u)" by fastforce
  have u: "u = s" and q_ok: "q \<noteq> Inl DurableIdempotencyConflict"
    using q by (auto simp: when_some_def assert_agent_mine_def require_def op_defs
        split: option.splits if_splits)
  obtain c w where c: "claimed_command env agent key msg mine ts s = (c, w)" by fastforce
  from run q u q_ok have next_step:
      "bind (claimed_command env agent key msg mine ts) f s = (Inl DurableIdempotencyConflict, t)"
    by (cases q) (auto simp: bind_def)
  show ?thesis
  proof (cases c)
    case (Inr x)
    with next_step c have "f x w = (Inl DurableIdempotencyConflict, t)" by (simp add: bind_def)
    from raisesD [OF free this] show ?thesis by simp
  next
    case (Inl e)
    with next_step c have "claimed_command env agent key msg mine ts s = (Inl DurableIdempotencyConflict, t)"
      by (simp add: bind_def)
    then show ?thesis
      by (auto simp: claimed_command_def ret_def dest: find_inbox_command_conflict
          split: option.splits)
  qed
qed

lemma conflict_in_transaction:
  assumes out: "\<not> in_tx s"
    and run: "bind (now env) (\<lambda>ts. store_transaction (g ts)) s = (Inl DurableIdempotencyConflict, t)"
    and body: "\<And>ts u v. g ts u = (Inl DurableIdempotencyConflict, v) \<Longrightarrow>
      \<exists>ev. v = u\<lparr>draws := Suc (draws u), audits := audits u @ [ev]\<rparr> \<and> P ev"
  shows "\<exists>ev. t = s\<lparr>draws := draws t, ticks := ticks t, audits := audits s @ [ev]\<rparr> \<and> P ev"
proof -
  let ?s = "s\<lparr>ticks := Suc (ticks s)\<rparr>"
  have "store_transaction (g (clock env (ticks s))) ?s = (Inl DurableIdempotencyConflict, t)"
    using run by (simp add: bind_def now_def)
  then obtain v where v: "g (clock env (ticks s)) (set_in_tx True ?s) = (Inl DurableIdempotencyConflict, v)"
    and t: "t = set_in_tx False v"
    using out by (auto simp: store_transaction_def transaction_def durable_error_def
        split: prod.splits sum.splits if_splits)
  from body [OF v] obtain ev where "v = (set_in_tx True ?s)\<lparr>draws := Suc (draws (set_in_tx True ?s)),
      audits := audits (set_in_tx True ?s) @ [ev]\<rparr>" "P ev" by blast
  with t out show ?thesis by (intro exI [of _ ev]) (simp add: set_in_tx_def)
qed

definition conflict_evidence :: "audit_row \<Rightarrow> bool" where
  "conflict_evidence ev \<longleftrightarrow> aud_type ev = ''inbox_idempotency_conflict_rejected''"

lemma no_conflict_commands:
  "raises (- {DurableIdempotencyConflict}) (claim_transport_nonce env x n rq ex)"
  "raises (- {DurableIdempotencyConflict}) (bind_agent_to_mine env agent mine)"
  "raises (- {DurableIdempotencyConflict}) (record_exchange_message env m)"
  "raises (- {DurableIdempotencyConflict}) (record_enterprise_response env r)"
  "raises (- {DurableIdempotencyConflict}) (record_authentication_failure env e)"
  unfolding claim_transport_nonce_def admit_nonce_def Let_def bind_agent_to_mine_def
    record_exchange_message_def record_enterprise_response_def record_authentication_failure_def
    append_summary_def append_first_failure_def
  by (intro raises_rules; simp)+

lemma conflict_of_body:
  "submit_body env p sub key agent msg ts s = (Inl DurableIdempotencyConflict, t) \<Longrightarrow>
     \<exists>ev. t = s\<lparr>draws := Suc (draws s), audits := audits s @ [ev]\<rparr> \<and> conflict_evidence ev"
  "batch_body env wire report mine rs msg agent key ts s = (Inl DurableIdempotencyConflict, t) \<Longrightarrow>
     \<exists>ev. t = s\<lparr>draws := Suc (draws s), audits := audits s @ [ev]\<rparr> \<and> conflict_evidence ev"
  "ack_body_op env a msg agent key ts s = (Inl DurableIdempotencyConflict, t) \<Longrightarrow>
     \<exists>ev. t = s\<lparr>draws := Suc (draws s), audits := audits s @ [ev]\<rparr> \<and> conflict_evidence ev"
proof -
  note conj_weaken = conflict_from_lookup [THEN ex_forward]
  show "submit_body env p sub key agent msg ts s = (Inl DurableIdempotencyConflict, t) \<Longrightarrow>
     \<exists>ev. t = s\<lparr>draws := Suc (draws s), audits := audits s @ [ev]\<rparr> \<and> conflict_evidence ev"
    unfolding submit_body_def conflict_evidence_def
    by (erule conj_weaken) ((intro raises_rules; simp add: revision_errors_def envelope_errors_def) | simp)+
  show "batch_body env wire report mine rs msg agent key ts s = (Inl DurableIdempotencyConflict, t) \<Longrightarrow>
     \<exists>ev. t = s\<lparr>draws := Suc (draws s), audits := audits s @ [ev]\<rparr> \<and> conflict_evidence ev"
    unfolding batch_body_def conflict_evidence_def
    by (erule conj_weaken) ((intro raises_rules; simp) | simp)+
  show "ack_body_op env a msg agent key ts s = (Inl DurableIdempotencyConflict, t) \<Longrightarrow>
     \<exists>ev. t = s\<lparr>draws := Suc (draws s), audits := audits s @ [ev]\<rparr> \<and> conflict_evidence ev"
    unfolding ack_body_op_def conflict_evidence_def
    by (erule conj_weaken) ((intro raises_rules; simp) | simp)+
qed

lemma with_receipt_error: "with_receipt f m s = (Inl e, t) \<Longrightarrow> m s = (Inl e, t)"
  by (auto simp: with_receipt_def bind_def ret_def split: prod.splits sum.splits)

lemma require_conflict:
  "bind (require c e) f s = (Inl DurableIdempotencyConflict, t) \<Longrightarrow> e \<noteq> DurableIdempotencyConflict \<Longrightarrow>
     f () s = (Inl DurableIdempotencyConflict, t)"
  by (auto simp: bind_require raise_def split: if_splits)

text \<open>When a command ends in the idempotency conflict, the only row it leaves in the whole
  ledger is one audit row recording the rejected reuse of the key.\<close>
theorem conflicting_key_leaves_evidence:
  assumes "reachable env s" and "exec_command env c s = (Inl DurableIdempotencyConflict, t)"
  shows "\<exists>ev. t = s\<lparr>draws := draws t, ticks := ticks t, audits := audits s @ [ev]\<rparr>
    \<and> conflict_evidence ev"
proof -
  note out = reachable_outside [OF assms(1)]
  show ?thesis
  proof (cases c)
    case (Submit sub agent key msg p)
    from assms(2) have run: "submit_and_analyze env sub agent key msg p s = (Inl DurableIdempotencyConflict, t)"
      unfolding Submit exec_command.simps by (rule with_receipt_error)
    then have "\<not> future_period env sub (clock env (ticks s))"
      by (auto simp: submit_and_analyze_def bind_def now_def raise_def)
    with run have "bind (now env) (\<lambda>ts. store_transaction (submit_body env
        (case p of None \<Rightarrow> default_parameters | Some q \<Rightarrow> q) sub (or_default key (s_submission_id sub))
        agent msg ts)) s = (Inl DurableIdempotencyConflict, t)"
      by (simp add: submit_unfold) (simp add: bind_def now_def)
    from conflict_in_transaction [OF out this conflict_of_body(1)] show ?thesis .
  next
    case (RespondBatch wire report mine rs msg sender key)
    from assms(2) have "record_enterprise_response_batch env wire report mine rs msg sender key s =
        (Inl DurableIdempotencyConflict, t)"
      unfolding RespondBatch exec_command.simps by (rule with_receipt_error)
    then have "bind (now env) (\<lambda>ts. store_transaction
        (batch_body env wire report mine rs msg sender (or_default key wire) ts)) s =
        (Inl DurableIdempotencyConflict, t)"
      unfolding record_enterprise_response_batch_def by (auto dest!: require_conflict)
    from conflict_in_transaction [OF out this conflict_of_body(2)] show ?thesis .
  next
    case (Acknowledge a msg sender key)
    from assms(2) have "record_delivery_ack env a msg sender key s = (Inl DurableIdempotencyConflict, t)"
      unfolding Acknowledge exec_command.simps by (rule with_receipt_error)
    then have "bind (now env) (\<lambda>ts. store_transaction
        (ack_body_op env a msg sender (or_default key (da_ack_id a)) ts)) s =
        (Inl DurableIdempotencyConflict, t)"
      unfolding record_delivery_ack_def .
    from conflict_in_transaction [OF out this conflict_of_body(3)] show ?thesis .
  qed (use assms(2) in \<open>auto dest!: with_receipt_error raisesD [OF no_conflict_commands(1)]
      raisesD [OF no_conflict_commands(2)] raisesD [OF no_conflict_commands(3)]
      raisesD [OF no_conflict_commands(4)] raisesD [OF no_conflict_commands(5)]\<close>)
qed

definition demo_reuse :: command where
  "demo_reuse = Submit (demo_submission ''s1'' 1 None) (Some ''a'') None
     (Some (demo_message ''other'' ''b'')) None"

theorem conflicting_key_leaves_evidence_witness:
  "\<exists>t ev. exec_command demo demo_reuse (demo_ledger 2) = (Inl DurableIdempotencyConflict, t)
    \<and> t = (demo_ledger 2)\<lparr>draws := draws t, ticks := ticks t,
          audits := audits (demo_ledger 2) @ [ev]\<rparr> \<and> conflict_evidence ev"
proof -
  have "fst (exec_command demo demo_reuse (demo_ledger 2)) = Inl DurableIdempotencyConflict"
    by code_simp
  then obtain t where run: "exec_command demo demo_reuse (demo_ledger 2) = (Inl DurableIdempotencyConflict, t)"
    by (metis prod.collapse)
  show ?thesis using run conflicting_key_leaves_evidence [OF demo_reachable run] by blast
qed

section \<open>Transport nonces\<close>

definition nonces_ok :: "ledger \<Rightarrow> bool" where
  "nonces_ok s \<longleftrightarrow>
     (\<forall>x. length (filter (\<lambda>r. non_sender r = x) (nonces s)) \<le> max_active_nonces)
     \<and> distinct (map (\<lambda>r. (non_sender r, non_nonce r)) (nonces s))"

text \<open>The clock advances and every nonce that has not expired is kept.\<close>

definition nonces_kept :: "platform \<Rightarrow> ledger \<Rightarrow> ledger \<Rightarrow> bool" where
  "nonces_kept env s t \<longleftrightarrow>
     ticks s \<le> ticks t
     \<and> (\<forall>r \<in> set (nonces s).
          (\<forall>k. ticks s \<le> k \<and> k < ticks t \<longrightarrow> clock env k < non_expires_at r) \<longrightarrow> r \<in> set (nonces t))"

lemma audit_other_tables:
  assumes "append_audit env ty agg_ty agg mine payload ts s = (r, t)"
  shows "nonces t = nonces s \<and> ticks t = ticks s"
  using assms
  by (auto simp: append_audit_def add_row_cases draw_uuid_def bind_def reading_def split: if_splits)

interpretation nonce_bound: ledger_steps "keeps nonces_ok" env "\<lambda>x. x \<noteq> NonceSlot" for env
proof unfold_locales
  show "evolves (keeps nonces_ok) (append_audit env ty agg_ty agg mine payload ts)"
    for ty agg_ty agg mine payload ts
    by (rule evolvesI) (auto simp: keeps_def nonces_ok_def dest: audit_other_tables)
qed (simp_all add: keeps_def nonces_ok_def roll_back_def set_in_tx_def)

interpretation nonce_life: ledger_steps "nonces_kept env" env "\<lambda>x. x \<noteq> NonceSlot" for env
proof unfold_locales
  show "nonces_kept env s u" if "nonces_kept env s t" "nonces_kept env t u" for s t u
    using that unfolding nonces_kept_def by (meson le_trans less_le_trans)
  show "evolves (nonces_kept env) (append_audit env ty agg_ty agg mine payload ts)"
    for ty agg_ty agg mine payload ts
    by (rule evolvesI) (auto simp: nonces_kept_def dest: audit_other_tables)
qed (auto simp: nonces_kept_def roll_back_def set_in_tx_def)


definition live_nonces :: "instant \<Rightarrow> ledger \<Rightarrow> nonce_row list" where
  "live_nonces current s = filter (\<lambda>r. current < non_expires_at r) (nonces s)"

lemma live_nonces_other [simp]:
  "live_nonces c (s\<lparr>ticks := k\<rparr>) = live_nonces c s" "live_nonces c (s\<lparr>in_tx := b\<rparr>) = live_nonces c s"
  by (simp_all add: live_nonces_def)

definition nonce_refused :: "nonce_row \<Rightarrow> nonce_row list \<Rightarrow> bool" where
  "nonce_refused row live \<longleftrightarrow>
     max_active_nonces \<le> length (filter (\<lambda>r. non_sender r = non_sender row) live)
     \<or> list_ex (nonce_clash row) live"

lemma admit_nonce_result:
  "admit_nonce row current s =
     (if nonce_refused row (live_nonces current s) then (Inr False, s\<lparr>nonces := live_nonces current s\<rparr>)
      else (Inr True, s\<lparr>nonces := live_nonces current s @ [row]\<rparr>))"
  by (auto simp: admit_nonce_def live_nonces_def nonce_refused_def insert_row_def op_defs bind_def)

lemma claim_result:
  assumes "claim_transport_nonce env x n rq ex s = (r, t)"
  shows "t = s \<or> t = s\<lparr>ticks := Suc (ticks s)\<rparr>
    \<or> (let row = \<lparr>non_sender = x, non_nonce = n, non_request_time = rq, non_expires_at = ex\<rparr>;
          live = live_nonces (clock env (ticks s)) s
       in clock env (ticks s) < ex \<and> ticks t = Suc (ticks s)
          \<and> (if nonce_refused row live then r = Inr False \<and> nonces t = live
             else r = Inr True \<and> nonces t = live @ [row]))"
proof -
  let ?row = "\<lparr>non_sender = x, non_nonce = n, non_request_time = rq, non_expires_at = ex\<rparr>"
  let ?s = "s\<lparr>ticks := Suc (ticks s)\<rparr>" and ?now = "clock env (ticks s)"
  show ?thesis
  proof (cases "\<not> blank x \<and> \<not> blank n \<and> rq < ex \<and> ?now < ex")
    case False
    with assms show ?thesis
      by (auto simp: claim_transport_nonce_def bind_require bind_def now_def raise_def split: if_splits)
  next
    case True
    with assms have "store_transaction (admit_nonce ?row ?now) ?s = (r, t)"
      by (simp add: claim_transport_nonce_def bind_require) (simp add: bind_def now_def bind_require)
    then show ?thesis
      using True
      by (auto simp: store_transaction_def transaction_def admit_nonce_result Let_def set_in_tx_def
          split: if_splits)
  qed
qed

lemma claim_keeps_nonces_ok: "evolves (keeps nonces_ok) (claim_transport_nonce env x n rq ex)"
proof (rule evolvesI)
  fix s r t
  assume run: "claim_transport_nonce env x n rq ex s = (r, t)"
  let ?row = "\<lparr>non_sender = x, non_nonce = n, non_request_time = rq, non_expires_at = ex\<rparr>"
  let ?live = "live_nonces (clock env (ticks s)) s"
  show "keeps nonces_ok s t"
    unfolding keeps_def
  proof
    assume ok: "nonces_ok s"
    have live_ok: "length (filter (\<lambda>r. non_sender r = y) ?live) \<le> max_active_nonces" for y
      unfolding live_nonces_def filter_filter
      using ok length_filter_le [of "\<lambda>r. clock env (ticks s) < non_expires_at r"
          "filter (\<lambda>r. non_sender r = y) (nonces s)"]
      by (auto simp: nonces_ok_def conj_commute intro: le_trans)
    have live_distinct: "distinct (map (\<lambda>r. (non_sender r, non_nonce r)) ?live)"
      using ok by (simp add: live_nonces_def nonces_ok_def distinct_map_filter)
    have "nonces t = nonces s \<or> nonces t = ?live
        \<or> nonces t = ?live @ [?row] \<and> \<not> nonce_refused ?row ?live"
      using claim_result [OF run] by (auto simp: Let_def split: if_splits)
    then show "nonces_ok t"
    proof (elim disjE conjE)
      assume t: "nonces t = ?live @ [?row]" and free: "\<not> nonce_refused ?row ?live"
      have "(x, n) \<notin> (\<lambda>r. (non_sender r, non_nonce r)) ` set ?live"
        using free by (auto simp: nonce_refused_def list_ex_iff nonce_clash_def)
      moreover have "length (filter (\<lambda>r. non_sender r = x) ?live) < max_active_nonces"
        using free by (simp add: nonce_refused_def)
      ultimately show ?thesis
        using live_ok live_distinct by (auto simp: nonces_ok_def t)
    qed (use ok live_ok live_distinct in \<open>auto simp: nonces_ok_def\<close>)
  qed
qed

lemma claim_keeps_live: "evolves (nonces_kept env) (claim_transport_nonce env x n rq ex)"
proof (rule evolvesI)
  fix s r t
  assume "claim_transport_nonce env x n rq ex s = (r, t)"
  from claim_result [OF this] show "nonces_kept env s t"
    by (auto simp: nonces_kept_def Let_def live_nonces_def split: if_splits)
qed

text \<open>In every reachable ledger no sender has more than 4096 stored nonces, and no sender has
  the same nonce stored twice.\<close>
theorem nonces_bounded:
  assumes "reachable env s"
  shows "length (filter (\<lambda>r. non_sender r = x) (nonces s)) \<le> 4096
    \<and> distinct (map (\<lambda>r. (non_sender r, non_nonce r)) (nonces s))"
proof -
  have "keeps nonces_ok empty_ledger s"
    by (rule nonce_bound.rel_reachable [OF claim_keeps_nonces_ok _ assms])
  then show ?thesis by (simp add: keeps_def nonces_ok_def empty_ledger_def max_active_nonces_def)
qed

theorem nonces_bounded_witness:
  "length (filter (\<lambda>r. non_sender r = ''a'') (nonces (demo_ledger 3))) \<le> 4096
    \<and> distinct (map (\<lambda>r. (non_sender r, non_nonce r)) (nonces (demo_ledger 3)))"
  by (rule nonces_bounded [OF demo_reachable])

text \<open>C11: A nonce a sender has used is refused until it expires, whatever requests come between,
  provided the clock never goes back.\<close>
theorem nonce_not_reused:
  assumes "claim_transport_nonce env x n rq ex s = (Inr True, t)"
    and "\<forall>i j. i \<le> j \<longrightarrow> clock env i \<le> clock env j"
    and "clock env (ticks (run_requests env rs t)) < ex"
  shows "fst (claim_transport_nonce env x n rq' ex' (run_requests env rs t)) \<noteq> Inr True"
proof
  let ?u = "run_requests env rs t"
  let ?row = "\<lparr>non_sender = x, non_nonce = n, non_request_time = rq, non_expires_at = ex\<rparr>"
  let ?row' = "\<lparr>non_sender = x, non_nonce = n, non_request_time = rq', non_expires_at = ex'\<rparr>"
  have accepted: "claim_transport_nonce env x n rq ex v = (Inr True, w) \<Longrightarrow>
      \<not> nonce_refused \<lparr>non_sender = x, non_nonce = n, non_request_time = rq, non_expires_at = ex\<rparr>
          (live_nonces (clock env (ticks v)) v)
      \<and> \<lparr>non_sender = x, non_nonce = n, non_request_time = rq, non_expires_at = ex\<rparr> \<in> set (nonces w)"
    for rq ex v w
    by (auto simp: claim_transport_nonce_def bind_require raise_def bind_def now_def
        store_transaction_def transaction_def admit_nonce_result set_in_tx_def
        split: if_splits)
  have "?row \<in> set (nonces t)" using accepted [OF assms(1)] by simp
  moreover have "nonces_kept env t ?u"
    by (rule nonce_life.rel_run_requests [OF claim_keeps_live])
  ultimately have "?row \<in> set (nonces ?u)"
  proof (unfold nonces_kept_def, elim conjE)
    assume row: "?row \<in> set (nonces t)" and
      keep: "\<forall>r \<in> set (nonces t). (\<forall>k. ticks t \<le> k \<and> k < ticks ?u \<longrightarrow> clock env k < non_expires_at r)
        \<longrightarrow> r \<in> set (nonces ?u)"
    have "clock env k < ex" if "k < ticks ?u" for k
      using assms(2) [rule_format, of k "ticks ?u"] that assms(3) by simp
    with bspec [OF keep row] show ?thesis by simp
  qed
  then have "list_ex (nonce_clash ?row') (live_nonces (clock env (ticks ?u)) ?u)"
    using assms(3) by (auto simp: list_ex_iff live_nonces_def nonce_clash_def intro!: bexI [of _ ?row])
  then have "nonce_refused ?row' (live_nonces (clock env (ticks ?u)) ?u)"
    by (simp add: nonce_refused_def)
  moreover assume "fst (claim_transport_nonce env x n rq' ex' ?u) = Inr True"
  then have "claim_transport_nonce env x n rq' ex' ?u =
      (Inr True, snd (claim_transport_nonce env x n rq' ex' ?u))" by (metis prod.collapse)
  ultimately show False using accepted by blast
qed

theorem nonce_not_reused_witness:
  "fst (claim_transport_nonce demo ''a'' ''n'' 1 2000
     (run_requests demo [] (snd (claim_transport_nonce demo ''a'' ''n'' 1 2000 empty_ledger)))) \<noteq> Inr True"
proof -
  have first: "claim_transport_nonce demo ''a'' ''n'' 1 2000 empty_ledger =
      (Inr True, snd (claim_transport_nonce demo ''a'' ''n'' 1 2000 empty_ledger))"
  proof -
    have "fst (claim_transport_nonce demo ''a'' ''n'' 1 2000 empty_ledger) = Inr True" by code_simp
    then show ?thesis by (metis prod.collapse)
  qed
  have time: "clock demo (ticks (run_requests demo [] (snd
      (claim_transport_nonce demo ''a'' ''n'' 1 2000 empty_ledger)))) < 2000"
    by code_simp
  show ?thesis
    by (rule nonce_not_reused [OF first _ time]) (simp add: demo_def)
qed

end
