(* ===== verification/Regulatory_Reading.thy ===== *)
theory Regulatory_Reading
  imports Regulatory_Idempotency
begin

text \<open>
  Properties of the read side: overview counts agree with the projection of single findings,
  outbox pages lose and repeat nothing, baselines admit only clean runs, and the history of
  an analysis is drawn only from admitted, current, earlier data of the same mine and group.
\<close>

text \<open>The three counts of a mine overview are the numbers of its findings that
  \<open>get_finding\<close> shows as open, explained and cleared, so they partition its findings.\<close>
theorem overview_counts_agree:
  "overview_counts mine s =
     (let rows = filter (\<lambda>f. fnd_mine f = mine) (findings s);
          state = (\<lambda>f. fst (project_finding (finding_events s) (fnd_id f)))
      in (length (filter (\<lambda>f. state f = Open) rows), length (filter (\<lambda>f. state f = Explained) rows),
          length (filter (\<lambda>f. state f = ClearedByReanalysis) rows)))
   \<and> (case overview_counts mine s of (a, b, c) \<Rightarrow>
        a + b + c = length (filter (\<lambda>f. fnd_mine f = mine) (findings s)))"
proof
  show first: "overview_counts mine s =
     (let rows = filter (\<lambda>f. fnd_mine f = mine) (findings s);
          state = (\<lambda>f. fst (project_finding (finding_events s) (fnd_id f)))
      in (length (filter (\<lambda>f. state f = Open) rows), length (filter (\<lambda>f. state f = Explained) rows),
          length (filter (\<lambda>f. state f = ClearedByReanalysis) rows)))"
    unfolding overview_counts_def Let_def project_finding_state filter_map length_map
    by (auto intro!: arg_cong [of _ _ length] filter_cong)
  have three: "length (filter (\<lambda>f. st f = Open) xs) + length (filter (\<lambda>f. st f = Explained) xs)
      + length (filter (\<lambda>f. st f = ClearedByReanalysis) xs) = length xs" for st and xs :: "finding_row list"
  proof (induction xs)
    case (Cons x xs)
    then show ?case by (cases "st x") simp_all
  qed simp
  show "case overview_counts mine s of (a, b, c) \<Rightarrow>
        a + b + c = length (filter (\<lambda>f. fnd_mine f = mine) (findings s))"
    unfolding first Let_def prod.case by (rule three)
qed

lemma sorted_wrt_pending:
  assumes "distinct (map out_sequence (outbox s))"
  shows "sorted_wrt (\<lambda>a b. out_sequence a < out_sequence b) (pending wants after s)"
proof -
  let ?xs = "sort_key out_sequence (outbox s)"
  have "distinct (map out_sequence ?xs)"
    using assms by (metis distinct_map distinct_sort set_sort)
  then have "sorted_wrt (<) (map out_sequence ?xs)"
    by (simp only: strict_sorted_iff sorted_sort_key)
  then show ?thesis
    unfolding pending_def by (intro sorted_wrt_filter) (simp add: sorted_wrt_map)
qed

text \<open>A page holds the first pending rows of the audience in sequence order, what is pending
  after its cursor is exactly the rest, and it announces more exactly when there is a rest:
  following the cursors yields every row once.\<close>
theorem poll_page_splits_pending:
  assumes "reachable env s" and "poll_page wants after limit s = (Inr pg, t)"
  shows "pending wants after s = pg_items pg @ pending wants (pg_next pg) s
    \<and> length (pg_items pg) \<le> nat limit
    \<and> (pg_more pg \<longleftrightarrow> pending wants (pg_next pg) s \<noteq> [])"
proof -
  let ?p = "pending wants after s" and ?n = "nat limit"
  from assms(2) have lim: "1 \<le> limit" and pg: "pg_items pg = take ?n ?p"
    "pg_next pg = (if take ?n ?p = [] then after else int (out_sequence (last (take ?n ?p))))"
    "pg_more pg \<longleftrightarrow> ?n < length ?p"
    by (auto simp: poll_page_def bind_require op_defs valid_limit_def Let_def min_def nat_add_distrib
        split: if_splits)
  have sorted: "sorted_wrt (\<lambda>a b. out_sequence a < out_sequence b) ?p"
    by (rule sorted_wrt_pending) (use reachable_rel(3) [OF assms(1)] in \<open>simp add: numbered_def\<close>)
  have rest: "pending wants (pg_next pg) s = drop ?n ?p"
  proof (cases "take ?n ?p = []")
    case True
    with lim have "?p = []" by auto
    with True show ?thesis by (simp add: pg)
  next
    case False
    let ?z = "last (take ?n ?p)"
    have z: "?z \<in> set ?p" using False by (metis in_set_takeD last_in_set)
    then have after: "after < int (out_sequence ?z)" by (simp add: pending_def)
    have split: "?p = butlast (take ?n ?p) @ ?z # drop ?n ?p"
      using False by (metis append.assoc append_Cons append_Nil append_butlast_last_id append_take_drop_id)
    have below: "out_sequence a < out_sequence ?z" if "a \<in> set (butlast (take ?n ?p))" for a
      using sorted that by (subst (asm) split) (auto simp: sorted_wrt_append)
    have above: "out_sequence ?z < out_sequence a" if "a \<in> set (drop ?n ?p)" for a
      using sorted that by (subst (asm) split) (auto simp: sorted_wrt_append)
    have "pending wants (pg_next pg) s = filter (\<lambda>r. pg_next pg < int (out_sequence r)) ?p"
      using after False by (auto simp: pending_def pg(2) intro!: filter_cong)
    also have "\<dots> = drop ?n ?p"
    proof -
      have "filter (\<lambda>r. int (out_sequence ?z) < int (out_sequence r))
          (butlast (take ?n ?p) @ ?z # drop ?n ?p) = drop ?n ?p"
        using below above by (auto simp: filter_empty_conv filter_id_conv not_less less_imp_le)
      then show ?thesis using False split pg(2) by simp
    qed
    finally show ?thesis .
  qed
  show ?thesis unfolding rest pg(1,3) by (simp add: not_le)
qed

theorem poll_page_splits_pending_witness:
  "\<exists>pg. poll_page (\<lambda>r. out_mine r = ''m'') 0 1 (demo_ledger 3) = (Inr pg, demo_ledger 3)
    \<and> pending (\<lambda>r. out_mine r = ''m'') 0 (demo_ledger 3) =
        pg_items pg @ pending (\<lambda>r. out_mine r = ''m'') (pg_next pg) (demo_ledger 3)"
proof -
  obtain pg where run: "poll_page (\<lambda>r. out_mine r = ''m'') 0 1 (demo_ledger 3) = (Inr pg, demo_ledger 3)"
    by (auto simp: poll_page_def bind_require op_defs valid_limit_def)
  show ?thesis using run poll_page_splits_pending [OF demo_reachable run] by blast
qed

lemma fold_max_bound: "fold max xs (m::rat) \<le> b \<Longrightarrow> m \<le> b \<and> (\<forall>x \<in> set xs. x \<le> b)"
proof (induction xs arbitrary: m)
  case (Cons x xs)
  from Cons.IH [of "max x m"] Cons.prems have "max x m \<le> b \<and> (\<forall>x \<in> set xs. x \<le> b)"
    by simp
  then show ?case by simp
qed simp

text \<open>An eligible baseline admission belongs to a run that is a normal candidate over
  complete data of at least 14 days, with a solved reconciliation, no adjustment above
  one tenth, no review or risk signal, and an independent history or peer anchor.\<close>
theorem baseline_admits_only_clean_runs:
  assumes "reachable env s" and "a \<in> set (admissions s)" and "adm_eligible a"
  shows "\<exists>r \<in> set (runs s). run_id r = adm_run a \<and> run_decision r = NormalCandidate
    \<and> 999999 / 1000000 \<le> e_completeness (r_evidence (run_result r))
    \<and> 14 \<le> e_complete_days (r_evidence (run_result r))
    \<and> e_solver_success (r_evidence (run_result r)) \<and> e_mcs_complete (r_evidence (run_result r))
    \<and> (\<forall>x \<in> set (e_adjustments (r_evidence (run_result r))). x \<le> 1 / 10)
    \<and> (\<forall>x \<in> set (all_signals (r_evidence (run_result r))). sig_severity x = Information)
    \<and> (e_history_bands (r_evidence (run_result r)) \<noteq> [] \<or> r_peer_bands (run_result r) \<noteq> [])"
proof -
  have ok: "books_ok (core_of s)" by (rule reachable_books [OF assms(1)])
  from map_eq_row [OF _ _ assms(2), of adm_run run_id "runs s" adm_eligible
      "\<lambda>r. baseline_eligible (run_result r)"] ok
  obtain r where r: "r \<in> set (runs s)" "adm_run a = run_id r" "baseline_eligible (run_result r)"
    using assms(3) by (auto simp: books_ok_def)
  let ?ev = "r_evidence (run_result r)"
  have none: "intrinsic_failures (run_result r) = []" and anchor: "independent_anchor (run_result r)"
    using r(3) by (simp_all add: baseline_eligible_def reference_candidate_def)
  have parts: "r_decision (run_result r) = NormalCandidate" "999999 / 1000000 \<le> e_completeness ?ev"
    "14 \<le> e_complete_days ?ev" "e_solver_success ?ev" "e_mcs_complete ?ev"
    "maximum_adjustment (run_result r) \<le> 1 / 10" "review_or_risk (run_result r) = []"
    using none by (auto simp: intrinsic_failures_def Let_def not_less split: if_splits)
  have "\<forall>x \<in> set (e_adjustments ?ev). x \<le> 1 / 10"
  proof (cases "e_adjustments ?ev")
    case (Cons y ys)
    then show ?thesis
      using fold_max_bound [of ys y "1 / 10"] parts(6) by (simp add: maximum_adjustment_def)
  qed simp
  moreover have "\<forall>x \<in> set (all_signals ?ev). sig_severity x = Information"
  proof
    fix x
    assume "x \<in> set (all_signals ?ev)"
    with parts(7) have "sig_severity x \<notin> {Review, RiskSeverity}"
      by (auto simp: review_or_risk_def filter_empty_conv)
    then show "sig_severity x = Information" by (cases "sig_severity x") auto
  qed
  moreover have "run_decision r = NormalCandidate"
    using ok r(1) parts(1) by (simp add: books_ok_def)
  ultimately show ?thesis using r parts anchor by (auto simp: independent_anchor_def)
qed

theorem baseline_admits_only_clean_runs_witness:
  "\<exists>a \<in> set (admissions (demo_ledger 4)). \<exists>r \<in> set (runs (demo_ledger 4)).
     run_id r = adm_run a \<and> run_decision r = NormalCandidate
     \<and> 14 \<le> e_complete_days (r_evidence (run_result r))"
proof -
  have "map adm_eligible (admissions (demo_ledger 4)) = [False, False, True]"
    using demo_four by (simp add: demo_summary_def)
  then obtain a where "a \<in> set (admissions (demo_ledger 4))" "adm_eligible a"
    by (metis (full_types) list.set_intros(1,2) list.set_map image_iff)
  with baseline_admits_only_clean_runs [OF demo_reachable this] show ?thesis by blast
qed

lemma admitted_factsD:
  assumes "(u, d) \<in> set (admitted_facts s want accept sc)"
  shows "\<exists>r \<in> set (runs s). \<exists>a \<in> set (admissions s). run_submission r = sub_id u
      \<and> run_decision r = NormalCandidate \<and> prefix (scope_glob sc) (run_method r)
      \<and> adm_run a = run_id r \<and> accept a"
    and "u \<in> set (submissions s)" "d \<in> set (daily_facts s)" "dly_submission d = sub_id u" "want u"
    and "\<not> superseded (submissions s) (sub_id u)"
  using assms by (auto simp: admitted_facts_def split: if_splits)

lemma history_source:
  assumes "h \<in> set (same_mine_history env sub s)"
  obtains u d where "(u, d) \<in> set (admitted_facts s
      (\<lambda>u. sub_mine u = s_mine_id sub \<and> sub_group u = comparison_group env sub
           \<and> sub_id u \<noteq> s_submission_id sub) adm_eligible (s_scope sub))"
    and "iso_less (dly_date d) (s_period_start sub)" "h_date h = dly_date d" "h_values h = dly_values d"
  using assms
  by (force simp: same_mine_history_def Let_def newest_first_def dest!: in_set_takeD)

text \<open>Every day in the history an analysis is given comes from a stored daily fact of
  another submission of the same mine and comparison group that no submission supersedes,
  whose run is a normal candidate of the same quantity scope with an eligible baseline
  admission, and that precedes the reporting period; at most 365 days are given.\<close>
theorem history_is_admitted_data:
  assumes "h \<in> set (same_mine_history env sub s)"
  shows "(\<exists>u \<in> set (submissions s). \<exists>d \<in> set (daily_facts s). \<exists>r \<in> set (runs s). \<exists>a \<in> set (admissions s).
      h_date h = dly_date d \<and> h_values h = dly_values d \<and> dly_submission d = sub_id u
      \<and> sub_mine u = s_mine_id sub \<and> sub_group u = comparison_group env sub
      \<and> sub_id u \<noteq> s_submission_id sub
      \<and> (\<forall>v \<in> set (submissions s). sub_supersedes v \<noteq> Some (sub_id u))
      \<and> run_submission r = sub_id u \<and> run_decision r = NormalCandidate
      \<and> prefix (scope_glob (s_scope sub)) (run_method r)
      \<and> adm_run a = run_id r \<and> adm_eligible a
      \<and> iso_less (dly_date d) (s_period_start sub))
    \<and> length (same_mine_history env sub s) \<le> 365"
proof
  obtain u d where ud: "(u, d) \<in> set (admitted_facts s
      (\<lambda>u. sub_mine u = s_mine_id sub \<and> sub_group u = comparison_group env sub
           \<and> sub_id u \<noteq> s_submission_id sub) adm_eligible (s_scope sub))"
    and h: "iso_less (dly_date d) (s_period_start sub)" "h_date h = dly_date d" "h_values h = dly_values d"
    using assms by (rule history_source)
  have current: "\<forall>v \<in> set (submissions s). sub_supersedes v \<noteq> Some (sub_id u)"
    using admitted_factsD(6) [OF ud] by (auto simp: superseded_def list_ex_iff)
  show "\<exists>u \<in> set (submissions s). \<exists>d \<in> set (daily_facts s). \<exists>r \<in> set (runs s). \<exists>a \<in> set (admissions s).
      h_date h = dly_date d \<and> h_values h = dly_values d \<and> dly_submission d = sub_id u
      \<and> sub_mine u = s_mine_id sub \<and> sub_group u = comparison_group env sub
      \<and> sub_id u \<noteq> s_submission_id sub
      \<and> (\<forall>v \<in> set (submissions s). sub_supersedes v \<noteq> Some (sub_id u))
      \<and> run_submission r = sub_id u \<and> run_decision r = NormalCandidate
      \<and> prefix (scope_glob (s_scope sub)) (run_method r)
      \<and> adm_run a = run_id r \<and> adm_eligible a
      \<and> iso_less (dly_date d) (s_period_start sub)"
    using admitted_factsD(1-5) [OF ud] h current by blast
  show "length (same_mine_history env sub s) \<le> 365"
    by (auto simp: same_mine_history_def Let_def intro: le_trans [OF length_filter_le])
qed

text \<open>A ledger that holds one admitted day of a clean submission.\<close>

definition demo_archive :: ledger where
  "demo_archive =
     empty_ledger\<lparr>
       submissions := [make_submission_row demo (demo_submission ''s3'' 1 None) ''k'' None 1],
       daily_facts := [\<lparr>dly_submission = ''s3'', dly_date = CalendarDate 0,
          dly_values = map (\<lambda>m. (m, Some 1)) all_metrics, dly_json = JNull, dly_sha = ''''\<rparr>],
       runs := [\<lparr>run_id = ''r'', run_submission = ''s3'', run_mine = ''m'',
          run_method = ''regulatory-five-quantity-v2.1'', run_decision = NormalCandidate,
          run_result = undefined, run_sha = '''', run_input_sha = '''',
          run_configuration_sha = '''', run_started_at = 1, run_completed_at = 1\<rparr>],
       admissions := [\<lparr>adm_id = ''a'', adm_run = ''r'', adm_submission = ''s3'', adm_mine = ''m'',
          adm_eligible = True, adm_reference_candidate = True, adm_rule = '''', adm_reasons = JNull,
          adm_sha = '''', adm_recorded_at = 1\<rparr>]\<rparr>"

theorem history_is_admitted_data_witness:
  "\<exists>h \<in> set (same_mine_history demo (demo_submission ''s4'' 1 None) demo_archive).
     \<exists>d \<in> set (daily_facts demo_archive). h_date h = dly_date d \<and> h_values h = dly_values d
     \<and> iso_less (dly_date d) (CalendarDate 1)"
proof -
  have "same_mine_history demo (demo_submission ''s4'' 1 None) demo_archive \<noteq> []"
    by code_simp
  then obtain h where "h \<in> set (same_mine_history demo (demo_submission ''s4'' 1 None) demo_archive)"
    by (meson list.set_sel(1))
  with history_is_admitted_data [OF this] show ?thesis by (auto simp: demo_submission_def)
qed

end
