(* ===== verification/Safety_Types.thy ===== *)
theory Safety_Types
  imports Prelude "HOL-Library.Char_ord" "HOL-Library.List_Lexorder" "HOL-Library.Product_Lexorder"
begin

text \<open>
  The data of the safety monitor (\<open>platform/src/mineguard/safety.py\<close>): observations, the rule
  snapshot with its validators and defaults, the persisted state of a signal, requests and
  results. Instants are microseconds; doubles are exact rationals; fields that the source
  declares non-negative are natural numbers.
\<close>

section \<open>Enumerations\<close>

datatype alert_level = Blue | Yellow | Orange | Red

fun level_rank :: "alert_level \<Rightarrow> nat" where
  "level_rank Blue = 1"
| "level_rank Yellow = 2"
| "level_rank Orange = 3"
| "level_rank Red = 4"

lemma level_rank_inject [simp]: "level_rank a = level_rank b \<longleftrightarrow> a = b"
  by (cases a; cases b) simp_all

instantiation alert_level :: linorder
begin

definition less_eq_alert_level :: "alert_level \<Rightarrow> alert_level \<Rightarrow> bool" where
  "less_eq_alert_level a b \<longleftrightarrow> level_rank a \<le> level_rank b"

definition less_alert_level :: "alert_level \<Rightarrow> alert_level \<Rightarrow> bool" where
  "less_alert_level a b \<longleftrightarrow> level_rank a < level_rank b"

instance
  by standard (auto simp: less_eq_alert_level_def less_alert_level_def)

end

fun level_name :: "alert_level \<Rightarrow> string" where
  "level_name Blue = ''blue''"
| "level_name Yellow = ''yellow''"
| "level_name Orange = ''orange''"
| "level_name Red = ''red''"

datatype gas_category = LowGas | HighGas

datatype methane_location = WorkingFaceT1 | ReturnAirT2 | ReturnAirMiddle | TotalReturnAir

datatype source_channel = AutomaticChannel | ManualChannel

datatype safety_scope = PersonnelScope | MethaneScope | VentilationScope

datatype signal_status = NormalStatus | PendingStatus | ActiveStatus

datatype transition_type =
    Opened | Escalated | Deescalated | Cleared | MethaneMajorChange | RecoveryEligible

fun transition_name :: "transition_type \<Rightarrow> string" where
  "transition_name Opened = ''opened''"
| "transition_name Escalated = ''escalated''"
| "transition_name Deescalated = ''deescalated''"
| "transition_name Cleared = ''cleared''"
| "transition_name MethaneMajorChange = ''methane_major_change''"
| "transition_name RecoveryEligible = ''recovery_eligible''"

datatype issue_code =
    FutureObservation | StaleObservation | LowQuality | InvalidSource | OutOfOrder

text \<open>The \<open>ValueError\<close>s of the validators.\<close>

datatype safety_error =
    ActiveWithoutLevel | LevelWithoutActive | PointMissing | PointOnPersonnel
  | DuplicateTriggers | ValueWithoutTime | RevisionWithoutValue | ObservedAfterEvaluation
  | ActiveWithoutActivation | ActivatedAfterEvaluation | LatchOutsideMethane
  | RulesNotEffective | RulesExpired | DuplicateObservation | DuplicateStateKey
  | ForeignObservation | NoMethaneThreshold | ForeignState | StateFromFuture | OtherRules

section \<open>Observations\<close>

record observation_source =
  src_id :: string
  src_system :: string
  src_channel :: source_channel
  src_lineage :: string
  src_signature_valid :: bool

record measurement_quality =
  qu_score :: rat
  qu_complete :: bool
  qu_device_healthy :: bool
  qu_clock_synchronised :: bool
  qu_blocking_flags :: "string list"

text \<open>The part in which the three observation classes differ.\<close>

datatype sensor_reading =
    PersonnelReading nat
  | MethaneReading string methane_location rat
  | VentilationReading string rat

record observation =
  o_id :: string
  o_revision :: nat
  o_mine :: string
  o_observed :: int
  o_received :: int
  o_source :: observation_source
  o_quality :: measurement_quality
  o_reading :: sensor_reading

fun reading_value :: "sensor_reading \<Rightarrow> rat" where
  "reading_value (PersonnelReading n) = of_nat n"
| "reading_value (MethaneReading _ _ v) = v"
| "reading_value (VentilationReading _ v) = v"

definition o_value :: "observation \<Rightarrow> rat" where
  "o_value ob = reading_value (o_reading ob)"

fun is_methane :: "sensor_reading \<Rightarrow> bool" where
  "is_methane (MethaneReading _ _ _) = True"
| "is_methane _ = False"

section \<open>The rule snapshot\<close>

record mine_profile =
  pf_mine :: string
  pf_category :: gas_category
  pf_capacity :: nat

record personnel_thresholds =
  pt_attention :: rat
  pt_warning :: rat
  pt_overcapacity :: rat

record methane_threshold =
  mt_category :: gas_category
  mt_location :: methane_location
  mt_alarm :: rat
  mt_cutoff :: "rat option"
  mt_reset_below :: "rat option"
  mt_trend :: "rat option"

record ventilation_thresholds =
  vt_sudden_drop :: rat
  vt_severe_drop :: rat

record main_fan_policy =
  mf_stopped :: alert_level
  mf_fault :: alert_level
  mf_changeover :: alert_level

record debounce_policy =
  db_activate_after :: nat
  db_clear_after :: nat
  db_methane_red_after :: nat

record joint_policy =
  jp_window_seconds :: nat
  jp_minimum_rise :: rat

record data_policy =
  dp_minimum_quality :: rat
  dp_maximum_age_seconds :: nat

record rules =
  ru_version :: string
  ru_effective_from :: int
  ru_effective_to :: "int option"
  ru_authority :: string
  ru_personnel :: personnel_thresholds
  ru_methane :: "methane_threshold list"
  ru_ventilation :: ventilation_thresholds
  ru_main_fan :: main_fan_policy
  ru_debounce :: debounce_policy
  ru_joint :: joint_policy
  ru_data :: data_policy
  ru_major_change :: rat

text \<open>The declared ranges of the fields and the model validators.\<close>

definition in_range :: "rat \<Rightarrow> rat option \<Rightarrow> bool" where
  "in_range bound x \<longleftrightarrow> (case x of None \<Rightarrow> True | Some v \<Rightarrow> 0 < v \<and> v \<le> bound)"

definition personnel_thresholds_valid :: "personnel_thresholds \<Rightarrow> bool" where
  "personnel_thresholds_valid p \<longleftrightarrow>
     in_range 1 (Some (pt_attention p)) \<and> in_range 1 (Some (pt_warning p))
     \<and> in_range 2 (Some (pt_overcapacity p))
     \<and> pt_attention p < pt_warning p \<and> pt_warning p < pt_overcapacity p"

definition methane_threshold_valid :: "methane_threshold \<Rightarrow> bool" where
  "methane_threshold_valid t \<longleftrightarrow>
     in_range 100 (Some (mt_alarm t)) \<and> in_range 100 (mt_cutoff t) \<and> in_range 100 (mt_reset_below t)
     \<and> in_range 100 (mt_trend t)
     \<and> (case mt_trend t of None \<Rightarrow> True | Some x \<Rightarrow> x < mt_alarm t)
     \<and> (case mt_cutoff t of None \<Rightarrow> True | Some x \<Rightarrow> mt_alarm t \<le> x)
     \<and> (mt_cutoff t = None \<longleftrightarrow> mt_reset_below t = None)
     \<and> (case mt_reset_below t of None \<Rightarrow> True | Some x \<Rightarrow> x \<le> mt_alarm t)"

definition ventilation_thresholds_valid :: "ventilation_thresholds \<Rightarrow> bool" where
  "ventilation_thresholds_valid v \<longleftrightarrow>
     0 < vt_sudden_drop v \<and> vt_sudden_drop v < vt_severe_drop v \<and> vt_severe_drop v < 1"

definition debounce_valid :: "debounce_policy \<Rightarrow> bool" where
  "debounce_valid d \<longleftrightarrow>
     1 \<le> db_activate_after d \<and> db_activate_after d \<le> 100
     \<and> 1 \<le> db_clear_after d \<and> db_clear_after d \<le> 100
     \<and> 2 \<le> db_methane_red_after d \<and> db_methane_red_after d \<le> 100"

definition joint_valid :: "joint_policy \<Rightarrow> bool" where
  "joint_valid j \<longleftrightarrow>
     1 \<le> jp_window_seconds j \<and> jp_window_seconds j \<le> 31557600
     \<and> 0 \<le> jp_minimum_rise j \<and> jp_minimum_rise j \<le> 100"

definition data_policy_valid :: "data_policy \<Rightarrow> bool" where
  "data_policy_valid d \<longleftrightarrow>
     0 \<le> dp_minimum_quality d \<and> dp_minimum_quality d \<le> 1
     \<and> 1 \<le> dp_maximum_age_seconds d \<and> dp_maximum_age_seconds d \<le> 31557600"

definition supported_pairs :: "(gas_category \<times> methane_location) list" where
  "supported_pairs =
     [(c, l). c \<leftarrow> [LowGas, HighGas],
              l \<leftarrow> [WorkingFaceT1, ReturnAirT2, ReturnAirMiddle, TotalReturnAir],
              \<not> (c = LowGas \<and> l = ReturnAirMiddle)]"

definition rules_valid :: "rules \<Rightarrow> bool" where
  "rules_valid r \<longleftrightarrow>
     (case ru_effective_to r of None \<Rightarrow> True | Some e \<Rightarrow> ru_effective_from r < e)
     \<and> (let keys = map (\<lambda>t. (mt_category t, mt_location t)) (ru_methane r)
        in distinct keys \<and> set keys = set supported_pairs)
     \<and> personnel_thresholds_valid (ru_personnel r)
     \<and> list_all methane_threshold_valid (ru_methane r)
     \<and> ventilation_thresholds_valid (ru_ventilation r)
     \<and> debounce_valid (ru_debounce r) \<and> joint_valid (ru_joint r) \<and> data_policy_valid (ru_data r)
     \<and> in_range 100 (Some (ru_major_change r))"

definition threshold_for :: "rules \<Rightarrow> gas_category \<Rightarrow> methane_location \<Rightarrow> methane_threshold option" where
  "threshold_for r c l = find (\<lambda>t. mt_category t = c \<and> mt_location t = l) (ru_methane r)"

text \<open>\<open>build_default_rule_snapshot\<close> and the class defaults.\<close>

definition t1_threshold :: "gas_category \<Rightarrow> methane_location \<Rightarrow> rat option \<Rightarrow> methane_threshold" where
  "t1_threshold c l trend =
     \<lparr>mt_category = c, mt_location = l, mt_alarm = 1, mt_cutoff = Some (3 / 2),
      mt_reset_below = Some 1, mt_trend = trend\<rparr>"

definition t2_threshold :: "gas_category \<Rightarrow> methane_location \<Rightarrow> rat option \<Rightarrow> methane_threshold" where
  "t2_threshold c l trend =
     \<lparr>mt_category = c, mt_location = l, mt_alarm = 1, mt_cutoff = Some 1,
      mt_reset_below = Some 1, mt_trend = trend\<rparr>"

definition total_return_threshold :: "gas_category \<Rightarrow> methane_threshold" where
  "total_return_threshold c =
     \<lparr>mt_category = c, mt_location = TotalReturnAir, mt_alarm = 3 / 4, mt_cutoff = None,
      mt_reset_below = None, mt_trend = None\<rparr>"

definition default_methane :: "methane_threshold list" where
  "default_methane =
     [t1_threshold LowGas WorkingFaceT1 None, t2_threshold LowGas ReturnAirT2 None,
      total_return_threshold LowGas, t1_threshold HighGas WorkingFaceT1 None,
      t2_threshold HighGas ReturnAirT2 (Some (3 / 4)),
      t2_threshold HighGas ReturnAirMiddle (Some (3 / 4)), total_return_threshold HighGas]"

definition default_rules :: "string \<Rightarrow> int \<Rightarrow> string \<Rightarrow> rules" where
  "default_rules version effective authority =
     \<lparr>ru_version = version, ru_effective_from = effective, ru_effective_to = None,
      ru_authority = authority,
      ru_personnel = \<lparr>pt_attention = 4 / 5, pt_warning = 9 / 10, pt_overcapacity = 1\<rparr>,
      ru_methane = default_methane,
      ru_ventilation = \<lparr>vt_sudden_drop = 3 / 20, vt_severe_drop = 3 / 10\<rparr>,
      ru_main_fan = \<lparr>mf_stopped = Red, mf_fault = Red, mf_changeover = Yellow\<rparr>,
      ru_debounce = \<lparr>db_activate_after = 1, db_clear_after = 2, db_methane_red_after = 3\<rparr>,
      ru_joint = \<lparr>jp_window_seconds = 300, jp_minimum_rise = 0\<rparr>,
      ru_data = \<lparr>dp_minimum_quality = 7 / 10, dp_maximum_age_seconds = 900\<rparr>,
      ru_major_change = 1 / 5\<rparr>"

lemma default_rules_valid: "rules_valid (default_rules version effective authority)"
  by (auto simp: rules_valid_def default_rules_def default_methane_def t1_threshold_def
      t2_threshold_def total_return_threshold_def personnel_thresholds_valid_def
      methane_threshold_valid_def ventilation_thresholds_valid_def debounce_valid_def
      joint_valid_def data_policy_valid_def in_range_def
      supported_pairs_def)

section \<open>The state of a signal\<close>

text \<open>The fields \<open>SafetyStateCheckpoint\<close> and \<open>SafetySignalState\<close> share.\<close>

record dynamics =
  dy_status :: signal_status
  dy_active :: "alert_level option"
  dy_candidate :: "alert_level option"
  dy_candidate_count :: nat
  dy_clear_count :: nat
  dy_overlimit_count :: nat
  dy_recovery_count :: nat
  dy_latched :: bool
  dy_codes :: "string list"
  dy_last_value :: "rat option"
  dy_last_observed :: "int option"
  dy_last_revision :: nat
  dy_activated :: "int option"

definition initial_dynamics :: dynamics where
  "initial_dynamics =
     \<lparr>dy_status = NormalStatus, dy_active = None, dy_candidate = None, dy_candidate_count = 0,
      dy_clear_count = 0, dy_overlimit_count = 0, dy_recovery_count = 0, dy_latched = False,
      dy_codes = [], dy_last_value = None, dy_last_observed = None, dy_last_revision = 0,
      dy_activated = None\<rparr>"

record signal_state =
  st_key :: string
  st_mine :: string
  st_scope :: safety_scope
  st_point :: "string option"
  st_dynamics :: dynamics
  st_prior :: "dynamics option"
  st_evaluated :: int
  st_version :: string
  st_fingerprint :: string

text \<open>The first check of a validator that fails.\<close>

fun first_failure :: "(bool \<times> 'e) list \<Rightarrow> 'e option" where
  "first_failure [] = None"
| "first_failure ((bad, e) # checks) = (if bad then Some e else first_failure checks)"

lemma first_failure_None [simp]: "first_failure checks = None \<longleftrightarrow> (\<forall>(bad, e) \<in> set checks. \<not> bad)"
  by (induction checks rule: first_failure.induct) auto

declare first_failure.simps(2) [simp del]

text \<open>\<open>SafetySignalState.validate_state\<close>.\<close>

definition later :: "int option \<Rightarrow> int \<Rightarrow> bool" where
  "later x t \<longleftrightarrow> (case x of None \<Rightarrow> False | Some u \<Rightarrow> t < u)"

definition validate_state :: "signal_state \<Rightarrow> safety_error option" where
  "validate_state s =
     (let d = st_dynamics s in
      first_failure
        [(dy_status d = ActiveStatus \<and> dy_active d = None, ActiveWithoutLevel),
         (dy_status d \<noteq> ActiveStatus \<and> dy_active d \<noteq> None, LevelWithoutActive),
         (st_point s = None \<and> st_scope s \<noteq> PersonnelScope, PointMissing),
         (st_scope s = PersonnelScope \<and> st_point s \<noteq> None, PointOnPersonnel),
         (\<not> distinct (dy_codes d), DuplicateTriggers),
         ((dy_last_value d = None) \<noteq> (dy_last_observed d = None), ValueWithoutTime),
         (dy_last_value d = None \<and> dy_last_revision d \<noteq> 0, RevisionWithoutValue),
         (later (dy_last_observed d) (st_evaluated s), ObservedAfterEvaluation),
         (dy_status d = ActiveStatus \<and> dy_activated d = None, ActiveWithoutActivation),
         (later (dy_activated d) (st_evaluated s), ActivatedAfterEvaluation),
         (dy_latched d \<and> st_scope s \<noteq> MethaneScope, LatchOutsideMethane)])"

text \<open>Constructing a state runs the validator.\<close>

definition make_state :: "signal_state \<Rightarrow> safety_error + signal_state" where
  "make_state s = (case validate_state s of None \<Rightarrow> Inr s | Some e \<Rightarrow> Inl e)"

section \<open>Requests and results\<close>

record safety_request =
  rq_profile :: mine_profile
  rq_time :: int
  rq_rules :: rules
  rq_observations :: "observation list"
  rq_previous :: "signal_state list"

text \<open>
  \<open>fingerprint\<close> is the SHA-256 of the dumped snapshot, \<open>event_digest\<close> the first 24 hexadecimal
  digits of a SHA-256, \<open>utc_text\<close> is \<open>isoformat\<close> in UTC.
\<close>

record safety_env =
  fingerprint :: "rules \<Rightarrow> string"
  event_digest :: "string \<Rightarrow> string"
  utc_text :: "int \<Rightarrow> string"

text \<open>\<open>SafetyEvaluationRequest.validate_request\<close>, in the order of its checks.\<close>

definition observation_failure :: "safety_request \<Rightarrow> observation \<Rightarrow> safety_error option" where
  "observation_failure rq ob =
     first_failure
       [(o_mine ob \<noteq> pf_mine (rq_profile rq), ForeignObservation),
        (case o_reading ob of
           MethaneReading _ l _ \<Rightarrow> threshold_for (rq_rules rq) (pf_category (rq_profile rq)) l = None
         | _ \<Rightarrow> False, NoMethaneThreshold)]"

definition state_failure :: "safety_env \<Rightarrow> safety_request \<Rightarrow> signal_state \<Rightarrow> safety_error option" where
  "state_failure env rq s =
     first_failure
       [(st_mine s \<noteq> pf_mine (rq_profile rq), ForeignState),
        (rq_time rq < st_evaluated s, StateFromFuture),
        (st_version s \<noteq> ru_version (rq_rules rq)
           \<or> st_fingerprint s \<noteq> fingerprint env (rq_rules rq), OtherRules)]"

fun first_some :: "('a \<Rightarrow> 'e option) \<Rightarrow> 'a list \<Rightarrow> 'e option" where
  "first_some f [] = None"
| "first_some f (x # xs) = (case f x of None \<Rightarrow> first_some f xs | Some e \<Rightarrow> Some e)"

lemma first_some_None [simp]: "first_some f xs = None \<longleftrightarrow> (\<forall>x \<in> set xs. f x = None)"
  by (induction xs) (auto split: option.splits)

definition validate_request :: "safety_env \<Rightarrow> safety_request \<Rightarrow> safety_error option" where
  "validate_request env rq =
     (case first_failure
        [(rq_time rq < ru_effective_from (rq_rules rq), RulesNotEffective),
         (case ru_effective_to (rq_rules rq) of None \<Rightarrow> False | Some e \<Rightarrow> e \<le> rq_time rq, RulesExpired),
         (\<not> distinct (map o_id (rq_observations rq)), DuplicateObservation),
         (\<not> distinct (map st_key (rq_previous rq)), DuplicateStateKey)] of
        Some e \<Rightarrow> Some e
      | None \<Rightarrow>
          (case first_some (observation_failure rq) (rq_observations rq) of
             Some e \<Rightarrow> Some e
           | None \<Rightarrow> first_some (state_failure env rq) (rq_previous rq)))"

record data_issue =
  is_observation :: string
  is_code :: issue_code

datatype explanation =
    RecoveryText
  | MajorChangeText
  | ClearedText
  | ChangedText "alert_level option" "string list"

record safety_event =
  se_id :: string
  se_mine :: string
  se_key :: string
  se_point :: "string option"
  se_scope :: safety_scope
  se_transition :: transition_type
  se_previous :: "alert_level option"
  se_current :: "alert_level option"
  se_at :: int
  se_generated :: int
  se_codes :: "string list"
  se_evidence :: "string list"
  se_explanation :: explanation

datatype review_text = KeepObserving | ReviewSoon | ReviewNow | EscalateReview

record safety_lead =
  le_key :: string
  le_mine :: string
  le_scope :: safety_scope
  le_point :: "string option"
  le_level :: alert_level
  le_codes :: "string list"
  le_value :: rat
  le_observed :: int
  le_review :: review_text

record safety_result =
  re_mine :: string
  re_time :: int
  re_version :: string
  re_fingerprint :: string
  re_accepted :: "string list"
  re_rejected :: "data_issue list"
  re_states :: "signal_state list"
  re_events :: "safety_event list"
  re_leads :: "safety_lead list"

end
