(* ===== verification/Safety_Engine.thy ===== *)
theory Safety_Engine
  imports Safety_Types "HOL-Library.AList"
begin

text \<open>
  The evaluation of a batch (\<open>evaluate_safety\<close> and its helpers in
  \<open>platform/src/mineguard/safety.py\<close>): candidates of a reading, the debounced state machine of
  a signal, admission and ordering of observations, and the fold over the batch.
\<close>

section \<open>Keys and initial states\<close>

fun reading_key :: "sensor_reading \<Rightarrow> string" where
  "reading_key (PersonnelReading _) = ''personnel''"
| "reading_key (MethaneReading p _ _) = ''methane:'' @ p"
| "reading_key (VentilationReading p _) = ''ventilation:'' @ p"

definition state_key :: "observation \<Rightarrow> string" where
  "state_key ob = reading_key (o_reading ob)"

fun reading_scope :: "sensor_reading \<Rightarrow> safety_scope" where
  "reading_scope (PersonnelReading _) = PersonnelScope"
| "reading_scope (MethaneReading _ _ _) = MethaneScope"
| "reading_scope (VentilationReading _ _) = VentilationScope"

fun reading_point :: "sensor_reading \<Rightarrow> string option" where
  "reading_point (PersonnelReading _) = None"
| "reading_point (MethaneReading p _ _) = Some p"
| "reading_point (VentilationReading p _) = Some p"

definition initial_state :: "safety_env \<Rightarrow> safety_request \<Rightarrow> observation \<Rightarrow> signal_state" where
  "initial_state env rq ob =
     \<lparr>st_key = state_key ob, st_mine = pf_mine (rq_profile rq),
      st_scope = reading_scope (o_reading ob), st_point = reading_point (o_reading ob),
      st_dynamics = initial_dynamics, st_prior = None, st_evaluated = rq_time rq,
      st_version = ru_version (rq_rules rq), st_fingerprint = fingerprint env (rq_rules rq)\<rparr>"

text \<open>\<open>_restore_checkpoint\<close>.\<close>

definition restore_checkpoint :: "int \<Rightarrow> signal_state \<Rightarrow> safety_error + signal_state" where
  "restore_checkpoint now s =
     (case st_prior s of
        None \<Rightarrow> Inr s
      | Some d \<Rightarrow> make_state (s\<lparr>st_dynamics := d, st_prior := None, st_evaluated := now\<rparr>))"

section \<open>Candidates\<close>

definition level_max :: "alert_level option \<Rightarrow> alert_level option \<Rightarrow> alert_level option" where
  "level_max a b =
     (case (a, b) of
        (None, _) \<Rightarrow> b
      | (_, None) \<Rightarrow> a
      | (Some x, Some y) \<Rightarrow> Some (if level_rank y \<le> level_rank x then x else y))"

fun upgrade :: "alert_level \<Rightarrow> alert_level" where
  "upgrade Blue = Yellow"
| "upgrade Yellow = Orange"
| "upgrade _ = Red"

definition personnel_candidate ::
    "safety_request \<Rightarrow> nat \<Rightarrow> alert_level option \<times> string list" where
  "personnel_candidate rq n =
     (let ratio = of_nat n / of_nat (pf_capacity (rq_profile rq)); p = ru_personnel (rq_rules rq) in
      if pt_overcapacity p \<le> ratio then (Some Orange, [''personnel_capacity_reached''])
      else if pt_warning p \<le> ratio then (Some Yellow, [''personnel_warning_90pct''])
      else if pt_attention p \<le> ratio then (Some Blue, [''personnel_attention_80pct''])
      else (None, []))"

definition reaches :: "rat option \<Rightarrow> rat \<Rightarrow> bool" where
  "reaches bound v \<longleftrightarrow> (case bound of None \<Rightarrow> False | Some b \<Rightarrow> b \<le> v)"

definition base_methane :: "methane_threshold \<Rightarrow> rat \<Rightarrow> alert_level option \<times> string list" where
  "base_methane t v =
     (if reaches (mt_cutoff t) v then (Some Orange, [''methane_cutoff_threshold''])
      else if mt_alarm t \<le> v then (Some Yellow, [''methane_alarm_threshold''])
      else if reaches (mt_trend t) v then (Some Blue, [''methane_trend_threshold''])
      else (None, []))"

definition overlimit_count :: "methane_threshold \<Rightarrow> dynamics \<Rightarrow> rat \<Rightarrow> nat" where
  "overlimit_count t d v = (if mt_alarm t \<le> v then dy_overlimit_count d + 1 else 0)"

definition methane_delta :: "dynamics \<Rightarrow> rat \<Rightarrow> rat option" where
  "methane_delta d v = map_option (\<lambda>former. v - former) (dy_last_value d)"

definition major_change :: "rules \<Rightarrow> rat option \<Rightarrow> bool" where
  "major_change r delta \<longleftrightarrow> (case delta of None \<Rightarrow> False | Some x \<Rightarrow> ru_major_change r < \<bar>x\<bar>)"

definition methane_candidate ::
    "rules \<Rightarrow> methane_threshold \<Rightarrow> dynamics \<Rightarrow> rat \<Rightarrow> alert_level option \<times> string list" where
  "methane_candidate r t d v =
     (let (level0, codes0) = base_methane t v;
          sustained = db_methane_red_after (ru_debounce r) \<le> overlimit_count t d v;
          level1 = (if sustained then Some Red else level0);
          codes1 = (if sustained then codes0 @ [''methane_sustained_overlimit''] else codes0);
          rising = (case methane_delta d v of None \<Rightarrow> False | Some x \<Rightarrow> ru_major_change r < \<bar>x\<bar> \<and> 0 < x)
      in (if rising then level_max level1 (Some Orange) else level1,
          first_occurrences (if rising then codes1 @ [''methane_major_increase''] else codes1)))"

type_synonym rise = "int \<times> string \<times> rat"

definition ventilation_candidate ::
    "rules \<Rightarrow> dynamics \<Rightarrow> observation \<Rightarrow> rise list \<Rightarrow> alert_level option \<times> string list" where
  "ventilation_candidate r d ob rises =
     (case dy_last_value d of
        None \<Rightarrow> (None, [])
      | Some former \<Rightarrow>
          if former \<le> 0 then (None, [])
          else
            let drop_ratio = (former - o_value ob) / former in
            if drop_ratio \<le> vt_sudden_drop (ru_ventilation r) then (None, [])
            else
              let (level, codes) =
                    (if vt_severe_drop (ru_ventilation r) < drop_ratio
                     then (Red, [''ventilation_severe_drop''])
                     else (Yellow, [''ventilation_sudden_drop'']));
                  simultaneous = list_ex (\<lambda>(t, _, rise).
                     \<bar>o_observed ob - t\<bar> \<le> int (jp_window_seconds (ru_joint r)) * 1000000
                     \<and> jp_minimum_rise (ru_joint r) < rise) rises
              in if simultaneous then (Some (upgrade level), codes @ [''ventilation_methane_joint''])
                 else (Some level, codes))"

section \<open>One step of a signal\<close>

record level_change =
  lc_active :: "alert_level option"
  lc_activated :: "int option"
  lc_clear_count :: nat
  lc_transition :: "transition_type option"

definition candidate_count :: "dynamics \<Rightarrow> alert_level option \<Rightarrow> nat" where
  "candidate_count d cand =
     (if cand = None then 0
      else if cand = dy_candidate d then dy_candidate_count d + 1
      else 1)"

text \<open>The if-chain of \<open>_advance_state\<close> over the active and the candidate level.\<close>

definition level_step ::
    "debounce_policy \<Rightarrow> int \<Rightarrow> alert_level option \<Rightarrow> dynamics \<Rightarrow> level_change" where
  "level_step p seen cand d =
     (let count = candidate_count d cand;
          unchanged = \<lparr>lc_active = dy_active d, lc_activated = dy_activated d,
                       lc_clear_count = 0, lc_transition = None\<rparr>;
          waiting = unchanged\<lparr>lc_clear_count := dy_clear_count d + 1\<rparr>
      in
      case (dy_active d, cand) of
        (None, None) \<Rightarrow> unchanged
      | (None, Some c) \<Rightarrow>
          if db_activate_after p \<le> count
          then \<lparr>lc_active = Some c, lc_activated = Some seen, lc_clear_count = 0,
                lc_transition = Some Opened\<rparr>
          else unchanged
      | (Some l, None) \<Rightarrow>
          if db_clear_after p \<le> dy_clear_count d + 1
          then \<lparr>lc_active = None, lc_activated = None, lc_clear_count = 0,
                lc_transition = Some Cleared\<rparr>
          else waiting
      | (Some l, Some c) \<Rightarrow>
          if level_rank l < level_rank c then
            (if db_activate_after p \<le> count
             then unchanged\<lparr>lc_active := Some c, lc_transition := Some Escalated\<rparr>
             else unchanged)
          else if level_rank c < level_rank l then
            (if db_clear_after p \<le> dy_clear_count d + 1
             then unchanged\<lparr>lc_active := Some c, lc_transition := Some Deescalated\<rparr>
             else waiting)
          else unchanged)"

text \<open>The methane cutoff latch: latched, readings below the reset value, recovery announced.\<close>

definition latch_step :: "debounce_policy \<Rightarrow> bool \<Rightarrow> bool \<Rightarrow> dynamics \<Rightarrow> bool \<times> nat \<times> bool" where
  "latch_step p cutoff_now reset_below d =
     (if dy_latched d \<or> cutoff_now then
        (if reset_below then
           (if db_clear_after p \<le> dy_recovery_count d + 1 then (False, 0, True)
            else (True, dy_recovery_count d + 1, False))
         else (True, 0, False))
      else (False, dy_recovery_count d, False))"

definition active_codes ::
    "level_change \<Rightarrow> alert_level option \<Rightarrow> string list \<Rightarrow> dynamics \<Rightarrow> string list" where
  "active_codes lc cand codes d =
     (if lc_active lc = None then []
      else if lc_transition lc \<in> {Some Opened, Some Escalated, Some Deescalated}
              \<or> cand = lc_active lc then codes
      else dy_codes d)"

definition advanced_dynamics ::
    "debounce_policy \<Rightarrow> observation \<Rightarrow> alert_level option \<Rightarrow> string list \<Rightarrow> nat \<Rightarrow> bool \<Rightarrow> bool \<Rightarrow>
       dynamics \<Rightarrow> dynamics" where
  "advanced_dynamics p ob cand codes overlimit cutoff_now reset_below d =
     (let lc = level_step p (o_observed ob) cand d;
          (latched, recovery, _) = latch_step p cutoff_now reset_below d
      in \<lparr>dy_status = (if lc_active lc \<noteq> None then ActiveStatus
                       else if cand \<noteq> None \<and> 0 < candidate_count d cand then PendingStatus
                       else NormalStatus),
          dy_active = lc_active lc, dy_candidate = cand,
          dy_candidate_count = candidate_count d cand, dy_clear_count = lc_clear_count lc,
          dy_overlimit_count = overlimit, dy_recovery_count = recovery, dy_latched = latched,
          dy_codes = active_codes lc cand codes d, dy_last_value = Some (o_value ob),
          dy_last_observed = Some (o_observed ob), dy_last_revision = o_revision ob,
          dy_activated = lc_activated lc\<rparr>)"

definition transition_explanation ::
    "transition_type \<Rightarrow> alert_level option \<Rightarrow> string list \<Rightarrow> explanation" where
  "transition_explanation ty level codes =
     (case ty of
        RecoveryEligible \<Rightarrow> RecoveryText
      | MethaneMajorChange \<Rightarrow> MajorChangeText
      | Cleared \<Rightarrow> ClearedText
      | _ \<Rightarrow> ChangedText level codes)"

text \<open>\<open>_event\<close>.\<close>

definition event_identity ::
    "safety_env \<Rightarrow> safety_request \<Rightarrow> signal_state \<Rightarrow> observation \<Rightarrow> transition_type \<Rightarrow>
       alert_level option \<Rightarrow> string" where
  "event_identity env rq s ob ty current =
     fingerprint env (rq_rules rq) @ ''|'' @ st_key s @ ''|'' @ transition_name ty @ ''|'' @ o_id ob
       @ ''|'' @ decimal (o_revision ob) @ ''|'' @ utc_text env (o_observed ob) @ ''|''
       @ (case current of None \<Rightarrow> ''none'' | Some l \<Rightarrow> level_name l)"

definition make_event ::
    "safety_env \<Rightarrow> safety_request \<Rightarrow> signal_state \<Rightarrow> observation \<Rightarrow> transition_type \<Rightarrow>
       alert_level option \<Rightarrow> alert_level option \<Rightarrow> string list \<Rightarrow> safety_event" where
  "make_event env rq s ob ty previous current codes =
     \<lparr>se_id = ''safety_'' @ event_digest env (event_identity env rq s ob ty current),
      se_mine = pf_mine (rq_profile rq), se_key = st_key s, se_point = st_point s,
      se_scope = st_scope s, se_transition = ty, se_previous = previous, se_current = current,
      se_at = o_observed ob, se_generated = rq_time rq, se_codes = codes,
      se_evidence = [o_id ob], se_explanation = transition_explanation ty current codes\<rparr>"

definition advance_state ::
    "safety_env \<Rightarrow> safety_request \<Rightarrow> observation \<Rightarrow> signal_state \<Rightarrow> alert_level option \<Rightarrow> string list \<Rightarrow>
       nat \<Rightarrow> bool \<Rightarrow> bool \<Rightarrow> safety_error + (signal_state \<times> safety_event list)" where
  "advance_state env rq ob s cand codes overlimit cutoff_now reset_below =
     (let p = ru_debounce (rq_rules rq); d = st_dynamics s;
          lc = level_step p (o_observed ob) cand d;
          recovered = snd (snd (latch_step p cutoff_now reset_below d));
          s' = s\<lparr>st_dynamics := advanced_dynamics p ob cand codes overlimit cutoff_now reset_below d,
                 st_prior := Some d, st_evaluated := rq_time rq,
                 st_version := ru_version (rq_rules rq),
                 st_fingerprint := fingerprint env (rq_rules rq)\<rparr>;
          changed = (case lc_transition lc of
                       None \<Rightarrow> []
                     | Some ty \<Rightarrow> [make_event env rq s' ob ty (dy_active d) (lc_active lc) codes]);
          eligible = (if recovered
                      then [make_event env rq s' ob RecoveryEligible (dy_active d) (lc_active lc)
                              [''methane_below_reset_threshold'']]
                      else [])
      in case make_state s' of Inl e \<Rightarrow> Inl e | Inr t \<Rightarrow> Inr (t, changed @ eligible))"

section \<open>Admission and order of a batch\<close>

definition validate_observation :: "safety_request \<Rightarrow> observation \<Rightarrow> issue_code option" where
  "validate_observation rq ob =
     (let q = o_quality ob in
      first_failure
        [(rq_time rq < o_observed ob \<or> rq_time rq < o_received ob, FutureObservation),
         (int (dp_maximum_age_seconds (ru_data (rq_rules rq))) * 1000000 < rq_time rq - o_observed ob,
          StaleObservation),
         (qu_score q < dp_minimum_quality (ru_data (rq_rules rq)) \<or> \<not> qu_complete q
            \<or> \<not> qu_device_healthy q \<or> \<not> qu_clock_synchronised q \<or> qu_blocking_flags q \<noteq> [],
          LowQuality),
         (\<not> src_signature_valid (o_source ob), InvalidSource)])"

definition order_key :: "observation \<Rightarrow> int \<times> nat \<times> int \<times> string" where
  "order_key ob = (o_observed ob, o_revision ob, o_received ob, o_id ob)"

definition admitted :: "safety_request \<Rightarrow> observation list" where
  "admitted rq =
     sort_key order_key (filter (\<lambda>ob. validate_observation rq ob = None) (rq_observations rq))"

definition refused :: "safety_request \<Rightarrow> data_issue list" where
  "refused rq =
     List.map_filter (\<lambda>ob. map_option (\<lambda>c. \<lparr>is_observation = o_id ob, is_code = c\<rparr>)
       (validate_observation rq ob)) (rq_observations rq)"

text \<open>
  The second loop: an observation must lie after the last one of its signal, by time or, at
  the same time, by revision.
\<close>

definition out_of_order :: "(int option \<times> nat) option \<Rightarrow> observation \<Rightarrow> bool" where
  "out_of_order position ob \<longleftrightarrow>
     (case position of
        Some (Some t, n) \<Rightarrow> o_observed ob < t \<or> o_observed ob = t \<and> o_revision ob \<le> n
      | _ \<Rightarrow> False)"

fun screen :: "(string \<rightharpoonup> int option \<times> nat) \<Rightarrow> observation list \<Rightarrow>
    observation list \<times> data_issue list" where
  "screen latest [] = ([], [])"
| "screen latest (ob # obs) =
     (if out_of_order (latest (state_key ob)) ob
      then apsnd (\<lambda>is. \<lparr>is_observation = o_id ob, is_code = OutOfOrder\<rparr> # is) (screen latest obs)
      else apfst (\<lambda>us. ob # us)
             (screen (latest(state_key ob \<mapsto> (Some (o_observed ob), o_revision ob))) obs))"

definition positions :: "(string \<times> signal_state) list \<Rightarrow> string \<rightharpoonup> int option \<times> nat" where
  "positions states k =
     map_option (\<lambda>s. (dy_last_observed (st_dynamics s), dy_last_revision (st_dynamics s)))
       (map_of states k)"

section \<open>Methane rises of a batch\<close>

fun rises_from :: "rat \<Rightarrow> rat option \<Rightarrow> observation list \<Rightarrow> rise list" where
  "rises_from bound previous [] = []"
| "rises_from bound previous (ob # obs) =
     (case previous of
        None \<Rightarrow> []
      | Some v \<Rightarrow> if bound < o_value ob - v then [(o_observed ob, o_id ob, o_value ob - v)] else [])
     @ rises_from bound (Some (o_value ob)) obs"

definition rise_base :: "signal_state option \<Rightarrow> observation list \<Rightarrow> rat option" where
  "rise_base persisted obs =
     (case persisted of
        None \<Rightarrow> None
      | Some s \<Rightarrow>
          (case (obs, st_prior s) of
             (ob # _, Some d) \<Rightarrow>
               if dy_last_observed (st_dynamics s) = Some (o_observed ob)
                  \<and> dy_last_revision (st_dynamics s) < o_revision ob
               then dy_last_value d else dy_last_value (st_dynamics s)
           | _ \<Rightarrow> dy_last_value (st_dynamics s)))"

definition methane_rises ::
    "rules \<Rightarrow> (string \<times> signal_state) list \<Rightarrow> observation list \<Rightarrow> rise list" where
  "methane_rises r states usable =
     (let methane = filter (\<lambda>ob. is_methane (o_reading ob)) usable in
      concat (map (\<lambda>k. let obs = filter (\<lambda>ob. state_key ob = k) methane in
                       rises_from (jp_minimum_rise (ru_joint r)) (rise_base (map_of states k) obs) obs)
                (first_occurrences (map state_key methane))))"

section \<open>The batch\<close>

definition revised :: "signal_state \<Rightarrow> observation \<Rightarrow> bool" where
  "revised s ob \<longleftrightarrow>
     dy_last_observed (st_dynamics s) = Some (o_observed ob)
     \<and> dy_last_revision (st_dynamics s) < o_revision ob"

text \<open>The state an observation is applied to.\<close>

definition base_state ::
    "safety_env \<Rightarrow> safety_request \<Rightarrow> (string \<times> signal_state) list \<Rightarrow> observation \<Rightarrow>
       safety_error + signal_state" where
  "base_state env rq states ob =
     (let s = (case map_of states (state_key ob) of None \<Rightarrow> initial_state env rq ob | Some s \<Rightarrow> s)
      in if revised s ob then restore_checkpoint (rq_time rq) s else Inr s)"

definition major_event :: "safety_env \<Rightarrow> safety_request \<Rightarrow> signal_state \<Rightarrow> observation \<Rightarrow> rat \<Rightarrow> safety_event" where
  "major_event env rq s ob delta =
     (let a = dy_active (st_dynamics s) in
      make_event env rq s ob MethaneMajorChange a a
        [if 0 < delta then ''methane_major_increase'' else ''methane_major_decrease''])"

definition apply_observation ::
    "safety_env \<Rightarrow> safety_request \<Rightarrow> rise list \<Rightarrow> observation \<Rightarrow> signal_state \<Rightarrow>
       safety_error + (signal_state \<times> safety_event list)" where
  "apply_observation env rq rises ob s =
     (let r = rq_rules rq; d = st_dynamics s in
      case o_reading ob of
        PersonnelReading n \<Rightarrow>
          (case personnel_candidate rq n of (cand, codes) \<Rightarrow>
             advance_state env rq ob s cand codes 0 False False)
      | MethaneReading _ l v \<Rightarrow>
          (case threshold_for r (pf_category (rq_profile rq)) l of
             None \<Rightarrow> Inl NoMethaneThreshold
           | Some t \<Rightarrow>
               (case methane_candidate r t d v of (cand, codes) \<Rightarrow>
                (case advance_state env rq ob s cand codes (overlimit_count t d v)
                        (reaches (mt_cutoff t) v)
                        (case mt_reset_below t of None \<Rightarrow> False | Some b \<Rightarrow> v < b) of
                   Inl e \<Rightarrow> Inl e
                 | Inr (s', es) \<Rightarrow>
                     Inr (s', es @ (case methane_delta d v of
                                      Some x \<Rightarrow> if major_change r (Some x)
                                                then [major_event env rq s' ob x] else []
                                    | None \<Rightarrow> [])))))
      | VentilationReading _ v \<Rightarrow>
          (case ventilation_candidate r d ob rises of (cand, codes) \<Rightarrow>
             advance_state env rq ob s cand codes 0 False False))"

record watch =
  wa_states :: "(string \<times> signal_state) list"
  wa_events :: "safety_event list"

definition process_observation ::
    "safety_env \<Rightarrow> safety_request \<Rightarrow> rise list \<Rightarrow> observation \<Rightarrow> (watch, safety_error, unit) op" where
  "process_observation env rq rises ob w =
     (case base_state env rq (wa_states w) ob of
        Inl e \<Rightarrow> (Inl e, w)
      | Inr s \<Rightarrow>
          (case apply_observation env rq rises ob s of
             Inl e \<Rightarrow> (Inl e, w)
           | Inr (s', es) \<Rightarrow>
               (Inr (), w\<lparr>wa_states := AList.update (state_key ob) s' (wa_states w),
                          wa_events := wa_events w @ es\<rparr>)))"

fun recommended_review :: "alert_level \<Rightarrow> review_text" where
  "recommended_review Blue = KeepObserving"
| "recommended_review Yellow = ReviewSoon"
| "recommended_review Orange = ReviewNow"
| "recommended_review Red = EscalateReview"

definition lead_of :: "signal_state \<Rightarrow> safety_lead option" where
  "lead_of s =
     (let d = st_dynamics s in
      case (dy_status d, dy_active d, dy_last_value d, dy_last_observed d) of
        (ActiveStatus, Some l, Some v, Some t) \<Rightarrow>
          Some \<lparr>le_key = st_key s, le_mine = st_mine s, le_scope = st_scope s, le_point = st_point s,
                le_level = l, le_codes = dy_codes d, le_value = v, le_observed = t,
                le_review = recommended_review l\<rparr>
      | _ \<Rightarrow> None)"

definition known_states :: "safety_request \<Rightarrow> (string \<times> signal_state) list" where
  "known_states rq = map (\<lambda>s. (st_key s, s)) (rq_previous rq)"

definition usable :: "safety_request \<Rightarrow> observation list" where
  "usable rq = fst (screen (positions (known_states rq)) (admitted rq))"

definition make_result ::
    "safety_env \<Rightarrow> safety_request \<Rightarrow> watch \<Rightarrow> safety_result" where
  "make_result env rq w =
     (let ordered = map snd (sort_key fst (wa_states w)) in
      \<lparr>re_mine = pf_mine (rq_profile rq), re_time = rq_time rq,
       re_version = ru_version (rq_rules rq), re_fingerprint = fingerprint env (rq_rules rq),
       re_accepted = map o_id (usable rq),
       re_rejected = refused rq @ snd (screen (positions (known_states rq)) (admitted rq)),
       re_states = ordered, re_events = wa_events w,
       re_leads = List.map_filter lead_of ordered\<rparr>)"

definition evaluate_safety :: "safety_env \<Rightarrow> safety_request \<Rightarrow> safety_error + safety_result" where
  "evaluate_safety env rq =
     (let known = known_states rq;
          rises = methane_rises (rq_rules rq) known (usable rq)
      in case for_each (process_observation env rq rises) (usable rq)
                \<lparr>wa_states = known, wa_events = []\<rparr> of
           (Inl e, _) \<Rightarrow> Inl e
         | (Inr _, w) \<Rightarrow> Inr (make_result env rq w))"

end
