(* ===== verification/Safety_Invariant.thy ===== *)
theory Safety_Invariant
  imports Safety_Engine
begin

text \<open>
  The type invariant of the safety monitor. \<open>dynamics_ok\<close> is what the validator of a state
  demands of its dynamic part; a state is \<open>coherent\<close> when it and the checkpoint it carries
  satisfy it and its key belongs to its scope and point. Every step keeps coherence, so no
  validator ever fails inside an evaluation, and its states can be given to the next one.
\<close>

definition dynamics_ok :: "safety_scope \<Rightarrow> int \<Rightarrow> dynamics \<Rightarrow> bool" where
  "dynamics_ok sc now d \<longleftrightarrow>
     (dy_status d = ActiveStatus \<longleftrightarrow> dy_active d \<noteq> None)
     \<and> distinct (dy_codes d)
     \<and> (dy_last_value d = None \<longleftrightarrow> dy_last_observed d = None)
     \<and> (dy_last_value d = None \<longrightarrow> dy_last_revision d = 0)
     \<and> \<not> later (dy_last_observed d) now
     \<and> (dy_status d = ActiveStatus \<longrightarrow> dy_activated d \<noteq> None)
     \<and> \<not> later (dy_activated d) now
     \<and> (dy_latched d \<longrightarrow> sc = MethaneScope)"

definition scope_key :: "safety_scope \<Rightarrow> string option \<Rightarrow> string" where
  "scope_key sc p =
     (case sc of
        PersonnelScope \<Rightarrow> ''personnel''
      | MethaneScope \<Rightarrow> ''methane:'' @ (case p of None \<Rightarrow> [] | Some x \<Rightarrow> x)
      | VentilationScope \<Rightarrow> ''ventilation:'' @ (case p of None \<Rightarrow> [] | Some x \<Rightarrow> x))"

definition coherent :: "signal_state \<Rightarrow> bool" where
  "coherent s \<longleftrightarrow>
     st_key s = scope_key (st_scope s) (st_point s)
     \<and> (st_point s = None \<longleftrightarrow> st_scope s = PersonnelScope)
     \<and> dynamics_ok (st_scope s) (st_evaluated s) (st_dynamics s)
     \<and> (case st_prior s of None \<Rightarrow> True | Some d \<Rightarrow> dynamics_ok (st_scope s) (st_evaluated s) d)"

lemma validate_state_iff:
  "validate_state s = None \<longleftrightarrow>
     (st_point s = None \<longleftrightarrow> st_scope s = PersonnelScope)
     \<and> dynamics_ok (st_scope s) (st_evaluated s) (st_dynamics s)"
  unfolding validate_state_def dynamics_ok_def Let_def first_failure_None
  by (simp only: list.set ball_simps prod.case simp_thms) metis

lemma make_state_ok:
  "(st_point s = None \<longleftrightarrow> st_scope s = PersonnelScope) \<Longrightarrow>
   dynamics_ok (st_scope s) (st_evaluated s) (st_dynamics s) \<Longrightarrow> make_state s = Inr s"
  using validate_state_iff [of s] by (simp add: make_state_def)

lemma make_state_Inr: "make_state s = Inr t \<Longrightarrow> t = s"
  by (simp add: make_state_def split: option.splits)

lemma dynamics_ok_mono: "dynamics_ok sc t d \<Longrightarrow> t \<le> u \<Longrightarrow> dynamics_ok sc u d"
  by (auto simp: dynamics_ok_def later_def split: option.splits)

lemma initial_dynamics_ok: "dynamics_ok sc now initial_dynamics"
  by (simp add: dynamics_ok_def initial_dynamics_def later_def)

lemma initial_state_coherent: "coherent (initial_state env rq ob)"
  by (cases "o_reading ob")
     (simp_all add: coherent_def initial_state_def initial_dynamics_ok scope_key_def state_key_def)

lemma scope_of_key:
  assumes "coherent s" and "st_key s = reading_key x"
  shows "st_scope s = reading_scope x"
  using assms by (cases x; cases "st_scope s") (simp_all add: coherent_def scope_key_def)

section \<open>One step keeps the dynamics well formed\<close>

lemma level_step_activated:
  assumes "dynamics_ok sc now d" and "seen \<le> now"
  shows "(lc_active (level_step p seen c d) \<noteq> None \<longrightarrow> lc_activated (level_step p seen c d) \<noteq> None)
    \<and> \<not> later (lc_activated (level_step p seen c d)) now"
  using assms
  by (cases "dy_active d"; cases c)
     (auto simp: level_step_def Let_def dynamics_ok_def later_def split: option.splits)

lemma active_codes_distinct:
  "distinct codes \<Longrightarrow> distinct (dy_codes d) \<Longrightarrow> distinct (active_codes lc c codes d)"
  by (simp add: active_codes_def)

lemma latch_only_methane:
  assumes "fst (latch_step p cutoff below d)"
  shows "dy_latched d \<or> cutoff"
  using assms by (auto simp: latch_step_def split: if_splits)

lemma advanced_dynamics_ok:
  assumes "dynamics_ok sc now d" and "o_observed ob \<le> now" and "distinct codes"
    and "cutoff \<Longrightarrow> sc = MethaneScope"
  shows "dynamics_ok sc now (advanced_dynamics p ob c codes n cutoff below d)"
proof -
  have lc: "(lc_active (level_step p (o_observed ob) c d) \<noteq> None \<longrightarrow>
       lc_activated (level_step p (o_observed ob) c d) \<noteq> None)
    \<and> \<not> later (lc_activated (level_step p (o_observed ob) c d)) now"
    by (rule level_step_activated [OF assms(1,2)])
  obtain l r e where latch: "latch_step p cutoff below d = (l, r, e)" by (metis prod_cases3)
  have "l \<Longrightarrow> sc = MethaneScope"
    using latch_only_methane [of p cutoff below d] latch assms(1,4) by (auto simp: dynamics_ok_def)
  then show ?thesis
    using lc assms active_codes_distinct [OF assms(3), of d]
    by (auto simp: advanced_dynamics_def Let_def latch dynamics_ok_def later_def split: if_splits)
qed

lemma advance_state_ok:
  assumes "coherent s" and "st_evaluated s \<le> rq_time rq" and "o_observed ob \<le> rq_time rq"
    and "distinct codes" and "cutoff \<Longrightarrow> st_scope s = MethaneScope"
  obtains t es where "advance_state env rq ob s c codes n cutoff below = Inr (t, es)"
    and "t = s\<lparr>st_dynamics := advanced_dynamics (ru_debounce (rq_rules rq)) ob c codes n cutoff below
                  (st_dynamics s),
                st_prior := Some (st_dynamics s), st_evaluated := rq_time rq,
                st_version := ru_version (rq_rules rq),
                st_fingerprint := fingerprint env (rq_rules rq)\<rparr>"
    and "coherent t"
proof -
  let ?d = "advanced_dynamics (ru_debounce (rq_rules rq)) ob c codes n cutoff below (st_dynamics s)"
  let ?t = "s\<lparr>st_dynamics := ?d, st_prior := Some (st_dynamics s), st_evaluated := rq_time rq,
              st_version := ru_version (rq_rules rq), st_fingerprint := fingerprint env (rq_rules rq)\<rparr>"
  have old: "dynamics_ok (st_scope s) (rq_time rq) (st_dynamics s)"
    using assms(1,2) by (auto simp: coherent_def intro: dynamics_ok_mono)
  have new: "dynamics_ok (st_scope s) (rq_time rq) ?d"
    by (rule advanced_dynamics_ok [OF old assms(3,4,5)])
  have "make_state ?t = Inr ?t"
    by (rule make_state_ok) (use assms(1) new in \<open>simp_all add: coherent_def\<close>)
  moreover have "coherent ?t"
    using assms(1) old new by (simp add: coherent_def)
  ultimately show thesis
    by (intro that [of ?t]) (simp_all add: advance_state_def Let_def)
qed

section \<open>Candidates have distinct codes\<close>

lemma personnel_codes: "distinct (snd (personnel_candidate rq n))"
  by (simp add: personnel_candidate_def Let_def)

lemma methane_codes: "distinct (snd (methane_candidate r t d v))"
  by (simp add: methane_candidate_def Let_def split: prod.split)

lemma ventilation_codes: "distinct (snd (ventilation_candidate r d ob rises))"
  by (simp add: ventilation_candidate_def Let_def split: option.split prod.split)

section \<open>One observation\<close>

definition tracked :: "safety_env \<Rightarrow> safety_request \<Rightarrow> signal_state \<Rightarrow> bool" where
  "tracked env rq s \<longleftrightarrow>
     coherent s \<and> st_evaluated s \<le> rq_time rq \<and> st_mine s = pf_mine (rq_profile rq)
     \<and> st_version s = ru_version (rq_rules rq)
     \<and> st_fingerprint s = fingerprint env (rq_rules rq)"

definition thresholds_known :: "safety_request \<Rightarrow> observation \<Rightarrow> bool" where
  "thresholds_known rq ob \<longleftrightarrow>
     (case o_reading ob of
        MethaneReading _ l _ \<Rightarrow> threshold_for (rq_rules rq) (pf_category (rq_profile rq)) l \<noteq> None
      | _ \<Rightarrow> True)"

lemma advance_state_tracked:
  assumes "tracked env rq s" and "o_observed ob \<le> rq_time rq"
    and "distinct codes" and "cutoff \<Longrightarrow> st_scope s = MethaneScope"
  obtains t es where "advance_state env rq ob s c codes n cutoff below = Inr (t, es)"
    and "tracked env rq t" and "st_key t = st_key s" and "st_scope t = st_scope s"
proof -
  from assms(1) have s: "coherent s" "st_evaluated s \<le> rq_time rq"
    by (simp_all add: tracked_def)
  obtain t es where run: "advance_state env rq ob s c codes n cutoff below = Inr (t, es)"
    and t: "t = s\<lparr>st_dynamics := advanced_dynamics (ru_debounce (rq_rules rq)) ob c codes n cutoff below
                  (st_dynamics s),
                st_prior := Some (st_dynamics s), st_evaluated := rq_time rq,
                st_version := ru_version (rq_rules rq),
                st_fingerprint := fingerprint env (rq_rules rq)\<rparr>"
    and "coherent t"
    by (rule advance_state_ok [OF s assms(2-4)]) assumption
  then show thesis using assms(1) by (intro that [OF run]) (simp_all add: tracked_def)
qed

lemma apply_observation_tracked:
  assumes "tracked env rq s" and "o_observed ob \<le> rq_time rq" and "thresholds_known rq ob"
    and "st_scope s = reading_scope (o_reading ob)"
  obtains t es where "apply_observation env rq rises ob s = Inr (t, es)"
    and "tracked env rq t" and "st_key t = st_key s"
proof (cases "o_reading ob")
  case (PersonnelReading n)
  obtain c codes where cand: "personnel_candidate rq n = (c, codes)" by fastforce
  then have codes: "distinct codes" using personnel_codes [of rq n] by simp
  show thesis
    by (rule advance_state_tracked [OF assms(1,2) codes, of False])
       (auto simp: apply_observation_def PersonnelReading cand intro: that)
next
  case (VentilationReading p v)
  obtain c codes where cand: "ventilation_candidate (rq_rules rq) (st_dynamics s) ob rises = (c, codes)"
    by fastforce
  then have codes: "distinct codes"
    using ventilation_codes [of "rq_rules rq" "st_dynamics s" ob rises] by simp
  show thesis
    by (rule advance_state_tracked [OF assms(1,2) codes, of False])
       (auto simp: apply_observation_def VentilationReading cand Let_def intro: that)
next
  case (MethaneReading p l v)
  obtain th where th: "threshold_for (rq_rules rq) (pf_category (rq_profile rq)) l = Some th"
    using assms(3) MethaneReading by (auto simp: thresholds_known_def)
  obtain c codes where cand: "methane_candidate (rq_rules rq) th (st_dynamics s) v = (c, codes)"
    by fastforce
  then have codes: "distinct codes" using methane_codes [of "rq_rules rq" th "st_dynamics s" v] by simp
  have scope: "st_scope s = MethaneScope" using assms(4) MethaneReading by simp
  let ?below = "case mt_reset_below th of None \<Rightarrow> False | Some b \<Rightarrow> v < b"
  obtain t es where run: "advance_state env rq ob s c codes (overlimit_count th (st_dynamics s) v)
      (reaches (mt_cutoff th) v) ?below = Inr (t, es)" and t: "tracked env rq t" "st_key t = st_key s"
    by (rule advance_state_tracked [OF assms(1,2) codes, of "reaches (mt_cutoff th) v"
          c "overlimit_count th (st_dynamics s) v" ?below]) (use scope in auto)
  show thesis
    by (rule that [OF _ t]) (simp add: apply_observation_def MethaneReading th cand Let_def run)
qed

section \<open>The batch\<close>

definition watch_ok :: "safety_env \<Rightarrow> safety_request \<Rightarrow> watch \<Rightarrow> bool" where
  "watch_ok env rq w \<longleftrightarrow>
     distinct (map fst (wa_states w))
     \<and> (\<forall>(k, s) \<in> set (wa_states w). k = st_key s \<and> tracked env rq s)"

lemma base_state_ok:
  assumes "watch_ok env rq w"
  obtains s where "base_state env rq (wa_states w) ob = Inr s" and "tracked env rq s"
    and "st_key s = state_key ob"
proof -
  let ?s = "case map_of (wa_states w) (state_key ob) of None \<Rightarrow> initial_state env rq ob | Some s \<Rightarrow> s"
  have s: "tracked env rq ?s" "st_key ?s = state_key ob"
    using assms initial_state_coherent [of env rq ob]
    by (auto simp: watch_ok_def tracked_def initial_state_def dest: map_of_SomeD split: option.splits)
  show thesis
  proof (cases "revised ?s ob \<and> st_prior ?s \<noteq> None")
    case False
    then show thesis
      using s by (intro that [of ?s]) (auto simp: base_state_def Let_def restore_checkpoint_def)
  next
    case True
    then obtain d where d: "st_prior ?s = Some d" by auto
    let ?r = "?s\<lparr>st_dynamics := d, st_prior := None, st_evaluated := rq_time rq\<rparr>"
    have ok: "dynamics_ok (st_scope ?s) (rq_time rq) d"
      using s(1) d by (auto simp: tracked_def coherent_def intro: dynamics_ok_mono)
    have "make_state ?r = Inr ?r"
      by (rule make_state_ok) (use s(1) ok in \<open>simp_all add: tracked_def coherent_def\<close>)
    then show thesis
      using s d True ok
      by (intro that [of ?r])
         (simp_all add: base_state_def Let_def restore_checkpoint_def tracked_def coherent_def)
  qed
qed

lemma for_each_total:
  assumes "\<And>x s. x \<in> set xs \<Longrightarrow> I s \<Longrightarrow> \<exists>t. f x s = (Inr (), t) \<and> I t" and "I s"
  shows "\<exists>t. for_each f xs s = (Inr (), t) \<and> I t"
  using assms
proof (induction xs arbitrary: s)
  case Nil
  then show ?case by (simp add: ret_def)
next
  case (Cons x xs)
  from Cons.prems(1) [of x s] Cons.prems(2) obtain t where t: "f x s = (Inr (), t)" "I t" by auto
  with Cons.IH [of t] Cons.prems(1) show ?case by (auto simp: bind_Inr)
qed

lemma AList_set_update: "set (AList.update k v al) \<subseteq> insert (k, v) (set al)"
  by (induction al) auto

lemma process_observation_ok:
  assumes "watch_ok env rq w" and "o_observed ob \<le> rq_time rq" and "thresholds_known rq ob"
  shows "\<exists>v. process_observation env rq rises ob w = (Inr (), v) \<and> watch_ok env rq v"
proof -
  obtain s where base: "base_state env rq (wa_states w) ob = Inr s" and s: "tracked env rq s"
    and key: "st_key s = state_key ob"
    by (rule base_state_ok [OF assms(1)])
  have scope: "st_scope s = reading_scope (o_reading ob)"
    using scope_of_key s key by (simp add: tracked_def state_key_def)
  obtain t es where run: "apply_observation env rq rises ob s = Inr (t, es)"
    and t: "tracked env rq t" "st_key t = st_key s"
    by (rule apply_observation_tracked [OF s assms(2,3) scope])
  have "watch_ok env rq (w\<lparr>wa_states := AList.update (state_key ob) t (wa_states w),
                           wa_events := wa_events w @ es\<rparr>)"
    using assms(1) t key
    by (auto simp: watch_ok_def distinct_update dest!: subsetD [OF AList_set_update])
  then show ?thesis by (simp add: process_observation_def base run)
qed

lemma screen_subset: "set (fst (screen latest obs)) \<subseteq> set obs"
  by (induction obs arbitrary: latest) (auto dest: subsetD)

lemma usable_admitted: "ob \<in> set (usable rq) \<Longrightarrow>
    ob \<in> set (rq_observations rq) \<and> validate_observation rq ob = None"
  using screen_subset [of "positions (known_states rq)" "admitted rq"]
  by (auto simp: usable_def admitted_def)

lemma valid_observation_time: "validate_observation rq ob = None \<Longrightarrow> o_observed ob \<le> rq_time rq"
  unfolding validate_observation_def Let_def first_failure_None by simp

lemma request_parts:
  assumes "validate_request env rq = None"
  shows "distinct (map st_key (rq_previous rq))"
    and "\<And>ob. ob \<in> set (rq_observations rq) \<Longrightarrow> thresholds_known rq ob"
    and "\<And>s. s \<in> set (rq_previous rq) \<Longrightarrow> state_failure env rq s = None"
    and "distinct (map o_id (rq_observations rq))"
  using assms
  by (auto simp: validate_request_def observation_failure_def thresholds_known_def
      split: option.splits sensor_reading.splits)

lemma known_states_ok:
  assumes "validate_request env rq = None" and "\<forall>s \<in> set (rq_previous rq). coherent s"
  shows "watch_ok env rq \<lparr>wa_states = known_states rq, wa_events = []\<rparr>"
  using request_parts [OF assms(1)] assms(2)
  by (auto simp: watch_ok_def known_states_def tracked_def state_failure_def comp_def not_less)

lemma evaluate_total:
  assumes "validate_request env rq = None" and "\<forall>s \<in> set (rq_previous rq). coherent s"
  obtains w where "for_each (process_observation env rq (methane_rises (rq_rules rq) (known_states rq)
        (usable rq))) (usable rq) \<lparr>wa_states = known_states rq, wa_events = []\<rparr> = (Inr (), w)"
    and "evaluate_safety env rq = Inr (make_result env rq w)" and "watch_ok env rq w"
proof -
  let ?f = "process_observation env rq (methane_rises (rq_rules rq) (known_states rq) (usable rq))"
  have each: "\<exists>v. ?f ob w = (Inr (), v) \<and> watch_ok env rq v"
    if "ob \<in> set (usable rq)" "watch_ok env rq w" for ob w
    using process_observation_ok [OF that(2)] request_parts(2) [OF assms(1)]
      usable_admitted [OF that(1)] valid_observation_time by blast
  have "\<exists>w. for_each ?f (usable rq) \<lparr>wa_states = known_states rq, wa_events = []\<rparr> = (Inr (), w)
      \<and> watch_ok env rq w"
    by (rule for_each_total [where I = "watch_ok env rq"]) (use each known_states_ok [OF assms] in auto)
  then obtain w where "for_each ?f (usable rq) \<lparr>wa_states = known_states rq, wa_events = []\<rparr> = (Inr (), w)"
    "watch_ok env rq w" by blast
  then show thesis by (intro that) (simp_all add: evaluate_safety_def Let_def)
qed

lemma watch_ok_result:
  assumes "watch_ok env rq w"
  shows "distinct (map st_key (re_states (make_result env rq w)))"
    and "\<And>s. s \<in> set (re_states (make_result env rq w)) \<Longrightarrow> tracked env rq s"
proof -
  have keys: "map st_key (map snd xs) = map fst xs" if "\<forall>(k, s) \<in> set xs. k = st_key s"
    for xs :: "(string \<times> signal_state) list"
    using that by (induction xs) auto
  have "map st_key (re_states (make_result env rq w)) = map fst (sort_key fst (wa_states w))"
    unfolding make_result_def Let_def safety_result.simps
    by (rule keys) (use assms in \<open>auto simp: watch_ok_def\<close>)
  moreover have "distinct (map fst (sort_key fst (wa_states w)))"
    using assms by (simp add: watch_ok_def distinct_map inj_on_def)
  ultimately show "distinct (map st_key (re_states (make_result env rq w)))" by simp
  show "tracked env rq s" if "s \<in> set (re_states (make_result env rq w))" for s
    using that assms by (auto simp: make_result_def Let_def watch_ok_def)
qed

end
