(* ===== verification/Safety_Run.thy ===== *)
theory Safety_Run
  imports Safety_Invariant
begin

text \<open>
  How one signal moves through a batch. \<open>signal_induct\<close> follows the state of a signal along
  the observations of its key, when each is later than the last: other signals do not touch
  it, and no checkpoint is restored.
\<close>

section \<open>The order of the usable observations\<close>

lemma sorted_screen:
  "sorted (map order_key obs) \<Longrightarrow> sorted (map order_key (fst (screen latest obs)))"
  using screen_subset by (induction obs arbitrary: latest) (fastforce simp del: fun_upd_apply)+

lemma order_key_time: "order_key a \<le> order_key b \<Longrightarrow> o_observed a \<le> o_observed b"
  by (auto simp: order_key_def less_eq_prod_def)

lemma usable_times: "sorted (map o_observed (usable rq))"
proof -
  have "sorted (map order_key (usable rq))"
    unfolding usable_def admitted_def by (rule sorted_screen) simp
  then show ?thesis
    unfolding sorted_map by (rule sorted_wrt_mono_rel [rotated]) (rule order_key_time)
qed

lemma screen_not_before:
  assumes "ob \<in> set (fst (screen latest obs))" and "latest (state_key ob) = Some (Some t, n)"
  shows "t \<le> o_observed ob"
  using assms
proof (induction obs arbitrary: latest t n)
  case (Cons a obs)
  show ?case
  proof (cases "out_of_order (latest (state_key a)) a")
    case True
    with Cons show ?thesis by simp
  next
    case False
    show ?thesis
    proof (cases "state_key a = state_key ob")
      case True
      with False Cons.prems(2) have "t \<le> o_observed a" by (simp add: out_of_order_def)
      moreover have "o_observed a \<le> o_observed ob"
        if "ob \<in> set (fst (screen (latest(state_key a \<mapsto> (Some (o_observed a), o_revision a))) obs))"
        by (rule Cons.IH [OF that]) (simp add: True)
      ultimately show ?thesis using Cons.prems(1) False by auto
    next
      case other: False
      define next_latest where
        "next_latest = latest(state_key a \<mapsto> (Some (o_observed a), o_revision a))"
      have "ob \<in> set (fst (screen next_latest obs))"
        using Cons.prems(1) False other by (auto simp: next_latest_def)
      moreover have "next_latest (state_key ob) = Some (Some t, n)"
        using Cons.prems(2) other by (simp add: next_latest_def)
      ultimately show ?thesis by (rule Cons.IH)
    qed
  qed
qed simp

definition readings :: "safety_request \<Rightarrow> string \<Rightarrow> observation list" where
  "readings rq k = filter (\<lambda>ob. state_key ob = k) (usable rq)"

text \<open>No usable reading of the signal revises another one or the last known one.\<close>

definition fresh_readings :: "safety_request \<Rightarrow> string \<Rightarrow> bool" where
  "fresh_readings rq k \<longleftrightarrow>
     distinct (map o_observed (readings rq k))
     \<and> (case map_of (known_states rq) k of
          None \<Rightarrow> True
        | Some s \<Rightarrow> \<forall>ob \<in> set (readings rq k). dy_last_observed (st_dynamics s) \<noteq> Some (o_observed ob))"

definition rising :: "int option \<Rightarrow> observation list \<Rightarrow> bool" where
  "rising former obs \<longleftrightarrow>
     sorted_wrt (\<lambda>a b. o_observed a < o_observed b) obs
     \<and> (\<forall>ob \<in> set obs. case former of None \<Rightarrow> True | Some t \<Rightarrow> t < o_observed ob)"

definition signal_of :: "safety_env \<Rightarrow> safety_request \<Rightarrow> watch \<Rightarrow> observation \<Rightarrow> signal_state" where
  "signal_of env rq w ob =
     (case map_of (wa_states w) (state_key ob) of None \<Rightarrow> initial_state env rq ob | Some s \<Rightarrow> s)"

lemma initial_state_key: "state_key a = state_key b \<Longrightarrow> initial_state env rq a = initial_state env rq b"
  by (cases "o_reading a"; cases "o_reading b") (simp_all add: state_key_def initial_state_def)

lemma signal_of_key:
  assumes "state_key a = state_key b"
  shows "signal_of env rq w a = signal_of env rq w b"
  unfolding signal_of_def assms using initial_state_key [OF assms] by (simp split: option.split)

lemma base_state_signal:
  "base_state env rq (wa_states w) ob =
     (if revised (signal_of env rq w ob) ob
      then restore_checkpoint (rq_time rq) (signal_of env rq w ob) else Inr (signal_of env rq w ob))"
  by (simp add: base_state_def signal_of_def Let_def)

lemma rising_start:
  assumes "fresh_readings rq (state_key ob)"
  shows "rising (dy_last_observed (st_dynamics
      (signal_of env rq \<lparr>wa_states = known_states rq, wa_events = es\<rparr> ob))) (readings rq (state_key ob))"
proof -
  let ?r = "readings rq (state_key ob)"
  have "sorted (map o_observed ?r)"
    unfolding readings_def sorted_map by (rule sorted_wrt_filter) (use usable_times in \<open>simp add: sorted_map\<close>)
  moreover have "distinct (map o_observed ?r)" using assms by (simp add: fresh_readings_def)
  ultimately have "sorted_wrt (<) (map o_observed ?r)" by (simp only: strict_sorted_iff simp_thms)
  then have "sorted_wrt (\<lambda>a b. o_observed a < o_observed b) ?r" by (simp add: sorted_wrt_map)
  moreover have "t < o_observed a"
    if a: "a \<in> set ?r" and s: "map_of (known_states rq) (state_key ob) = Some s"
      "dy_last_observed (st_dynamics s) = Some t" for a s t
  proof -
    from a have key: "state_key a = state_key ob" by (simp add: readings_def)
    have "t \<le> o_observed a"
      by (rule screen_not_before [of a "positions (known_states rq)" "admitted rq"])
         (use a s key in \<open>auto simp: readings_def usable_def positions_def\<close>)
    moreover have "t \<noteq> o_observed a" using assms a s by (auto simp: fresh_readings_def)
    ultimately show ?thesis by simp
  qed
  ultimately show ?thesis
    by (auto simp: rising_def signal_of_def initial_state_def initial_dynamics_def split: option.splits)
qed

section \<open>What an observation does to its signal\<close>

lemma advance_state_run:
  assumes "advance_state env rq ob s c codes n cutoff below = Inr (t, es)"
  shows "st_dynamics t = advanced_dynamics (ru_debounce (rq_rules rq)) ob c codes n cutoff below (st_dynamics s)"
    and "st_key t = st_key s" and "st_prior t = Some (st_dynamics s)"
    and "snd (snd (latch_step (ru_debounce (rq_rules rq)) cutoff below (st_dynamics s))) \<Longrightarrow>
         \<exists>e \<in> set es. se_key e = st_key s \<and> se_transition e = RecoveryEligible"
  using assms
  by (auto simp: advance_state_def Let_def make_event_def dest!: make_state_Inr split: sum.splits)

lemma apply_ventilation:
  assumes "apply_observation env rq rises ob s = Inr (t, es)" and "o_reading ob = VentilationReading p v"
  shows "st_dynamics t = advanced_dynamics (ru_debounce (rq_rules rq)) ob
      (fst (ventilation_candidate (rq_rules rq) (st_dynamics s) ob rises))
      (snd (ventilation_candidate (rq_rules rq) (st_dynamics s) ob rises)) 0 False False (st_dynamics s)"
  using assms
  by (auto simp: apply_observation_def Let_def dest: advance_state_run split: prod.splits)

lemma apply_methane:
  assumes "apply_observation env rq rises ob s = Inr (t, es)" and "o_reading ob = MethaneReading p l v"
    and "threshold_for (rq_rules rq) (pf_category (rq_profile rq)) l = Some th"
  shows "st_dynamics t = advanced_dynamics (ru_debounce (rq_rules rq)) ob
      (fst (methane_candidate (rq_rules rq) th (st_dynamics s) v))
      (snd (methane_candidate (rq_rules rq) th (st_dynamics s) v))
      (overlimit_count th (st_dynamics s) v) (reaches (mt_cutoff th) v)
      (case mt_reset_below th of None \<Rightarrow> False | Some b \<Rightarrow> v < b) (st_dynamics s)"
  using assms
  by (auto simp: apply_observation_def Let_def dest: advance_state_run split: prod.splits sum.splits)

lemma apply_observation_run:
  assumes "apply_observation env rq rises ob s = Inr (t, es)"
  obtains c codes n cutoff below where
    "st_dynamics t = advanced_dynamics (ru_debounce (rq_rules rq)) ob c codes n cutoff below (st_dynamics s)"
    and "st_key t = st_key s" and "st_prior t = Some (st_dynamics s)"
    and "snd (snd (latch_step (ru_debounce (rq_rules rq)) cutoff below (st_dynamics s))) \<Longrightarrow>
         \<exists>e \<in> set es. se_key e = st_key s \<and> se_transition e = RecoveryEligible"
proof (cases "o_reading ob")
  case (PersonnelReading n)
  obtain c codes where "personnel_candidate rq n = (c, codes)" by fastforce
  with assms PersonnelReading have "advance_state env rq ob s c codes 0 False False = Inr (t, es)"
    by (simp add: apply_observation_def)
  from advance_state_run [OF this] show thesis by (rule that) assumption
next
  case (VentilationReading p v)
  obtain c codes where "ventilation_candidate (rq_rules rq) (st_dynamics s) ob rises = (c, codes)"
    by fastforce
  with assms VentilationReading have "advance_state env rq ob s c codes 0 False False = Inr (t, es)"
    by (simp add: apply_observation_def Let_def)
  from advance_state_run [OF this] show thesis by (rule that) assumption
next
  case (MethaneReading p l v)
  with assms obtain th where th: "threshold_for (rq_rules rq) (pf_category (rq_profile rq)) l = Some th"
    by (auto simp: apply_observation_def Let_def split: option.splits)
  obtain c codes where cand: "methane_candidate (rq_rules rq) th (st_dynamics s) v = (c, codes)"
    by fastforce
  let ?below = "case mt_reset_below th of None \<Rightarrow> False | Some b \<Rightarrow> v < b"
  obtain es' more where run: "advance_state env rq ob s c codes (overlimit_count th (st_dynamics s) v)
      (reaches (mt_cutoff th) v) ?below = Inr (t, es')" and es: "es = es' @ more"
    using assms MethaneReading th cand
    by (auto simp: apply_observation_def Let_def split: sum.splits prod.splits)
  show thesis
    by (rule that [OF advance_state_run(1-3) [OF run]]) (use advance_state_run(4) [OF run] es in auto)
qed

lemma advanced_dynamics_sel [simp]:
  "dy_last_observed (advanced_dynamics p ob c codes n cutoff below d) = Some (o_observed ob)"
  "dy_last_value (advanced_dynamics p ob c codes n cutoff below d) = Some (o_value ob)"
  "dy_last_revision (advanced_dynamics p ob c codes n cutoff below d) = o_revision ob"
  "dy_active (advanced_dynamics p ob c codes n cutoff below d) = lc_active (level_step p (o_observed ob) c d)"
  "dy_clear_count (advanced_dynamics p ob c codes n cutoff below d) =
     lc_clear_count (level_step p (o_observed ob) c d)"
  "dy_candidate (advanced_dynamics p ob c codes n cutoff below d) = c"
  "dy_candidate_count (advanced_dynamics p ob c codes n cutoff below d) = candidate_count d c"
  "dy_overlimit_count (advanced_dynamics p ob c codes n cutoff below d) = n"
  "dy_latched (advanced_dynamics p ob c codes n cutoff below d) = fst (latch_step p cutoff below d)"
  by (simp_all add: advanced_dynamics_def Let_def split: prod.split)

section \<open>Induction along one signal\<close>

lemma process_other:
  assumes "process_observation env rq rises ob w = (Inr (), v)" and "state_key ob \<noteq> k"
  shows "map_of (wa_states v) k = map_of (wa_states w) k \<and> (\<exists>es. wa_events v = wa_events w @ es)"
  using assms
  by (auto simp: process_observation_def update_conv' split: sum.splits prod.splits)

lemma process_same:
  assumes "process_observation env rq rises ob w = (Inr (), v)"
    and "\<not> revised (signal_of env rq w ob) ob"
  obtains t es where "apply_observation env rq rises ob (signal_of env rq w ob) = Inr (t, es)"
    and "signal_of env rq v ob = t" and "wa_events v = wa_events w @ es"
    and "map_of (wa_states v) (state_key ob) = Some t"
  using assms
  by (auto simp: process_observation_def base_state_signal signal_of_def update_conv'
      split: sum.splits prod.splits)

lemma signal_induct:
  assumes "for_each (process_observation env rq rises) obs w = (Inr (), v)"
    and "rising (dy_last_observed (st_dynamics (signal_of env rq w ob0)))
           (filter (\<lambda>ob. state_key ob = state_key ob0) obs)"
    and "Q (signal_of env rq w ob0) (wa_events w) (filter (\<lambda>ob. state_key ob = state_key ob0) obs)"
    and step: "\<And>s E ob rest t es. ob \<in> set obs \<Longrightarrow> state_key ob = state_key ob0 \<Longrightarrow>
           apply_observation env rq rises ob s = Inr (t, es) \<Longrightarrow> Q s E (ob # rest) \<Longrightarrow> Q t (E @ es) rest"
    and weaken: "\<And>s E es rest. Q s E rest \<Longrightarrow> Q s (E @ es) rest"
  shows "Q (signal_of env rq v ob0) (wa_events v) []"
  using assms
proof (induction obs arbitrary: w)
  case Nil
  then show ?case by (simp add: ret_def)
next
  case (Cons ob obs)
  from Cons.prems(1) obtain u where u: "process_observation env rq rises ob w = (Inr (), u)"
    and rest: "for_each (process_observation env rq rises) obs u = (Inr (), v)"
    by (auto elim!: bind_InrE)
  let ?k = "state_key ob0"
  have steps: "\<And>s E a rest t es. a \<in> set obs \<Longrightarrow> state_key a = ?k \<Longrightarrow>
      apply_observation env rq rises a s = Inr (t, es) \<Longrightarrow> Q s E (a # rest) \<Longrightarrow> Q t (E @ es) rest"
    by (rule Cons.prems(4)) simp_all
  show ?case
  proof (cases "state_key ob = ?k")
    case False
    then have "signal_of env rq u ob0 = signal_of env rq w ob0"
      using process_other [OF u False] by (simp add: signal_of_def)
    moreover obtain es where "wa_events u = wa_events w @ es" using process_other [OF u False] by blast
    ultimately show ?thesis
      using Cons.prems(2,3) False Cons.prems(5) by (intro Cons.IH [OF rest _ _ steps Cons.prems(5)]) auto
  next
    case True
    have same: "signal_of env rq w ob = signal_of env rq w ob0" for w
      using signal_of_key [OF True] .
    from Cons.prems(2) True have last: "dy_last_observed (st_dynamics (signal_of env rq w ob)) \<noteq> Some (o_observed ob)"
      and tail: "rising (Some (o_observed ob)) (filter (\<lambda>ob. state_key ob = ?k) obs)"
      by (auto simp: rising_def same split: option.splits)
    have "\<not> revised (signal_of env rq w ob) ob" using last by (simp add: revised_def)
    from process_same [OF u this] obtain t es
      where t: "apply_observation env rq rises ob (signal_of env rq w ob0) = Inr (t, es)"
        "signal_of env rq u ob0 = t" "wa_events u = wa_events w @ es"
      unfolding same by blast
    have "dy_last_observed (st_dynamics t) = Some (o_observed ob)"
      using t(1) by (auto elim!: apply_observation_run)
    moreover have "Q t (wa_events w @ es) (filter (\<lambda>ob. state_key ob = ?k) obs)"
      by (rule Cons.prems(4) [OF _ True t(1)]) (use Cons.prems(3) True in auto)
    ultimately show ?thesis
      using t tail by (intro Cons.IH [OF rest _ _ steps Cons.prems(5)]) auto
  qed
qed

text \<open>The same over an evaluation.\<close>

lemma evaluate_signal:
  assumes valid: "validate_request env rq = None" "\<forall>s \<in> set (rq_previous rq). coherent s"
    and fresh: "fresh_readings rq (state_key ob0)"
    and start: "Q (signal_of env rq \<lparr>wa_states = known_states rq, wa_events = []\<rparr> ob0) []
                  (readings rq (state_key ob0))"
    and step: "\<And>s E ob rest t es. ob \<in> set (usable rq) \<Longrightarrow> state_key ob = state_key ob0 \<Longrightarrow>
           apply_observation env rq (methane_rises (rq_rules rq) (known_states rq) (usable rq)) ob s = Inr (t, es) \<Longrightarrow>
           Q s E (ob # rest) \<Longrightarrow> Q t (E @ es) rest"
    and weaken: "\<And>s E es rest. Q s E rest \<Longrightarrow> Q s (E @ es) rest"
  obtains w where "evaluate_safety env rq = Inr (make_result env rq w)" and "watch_ok env rq w"
    and "Q (signal_of env rq w ob0) (wa_events w) []"
proof -
  obtain w where w: "for_each (process_observation env rq
        (methane_rises (rq_rules rq) (known_states rq) (usable rq))) (usable rq)
        \<lparr>wa_states = known_states rq, wa_events = []\<rparr> = (Inr (), w)"
    "evaluate_safety env rq = Inr (make_result env rq w)" "watch_ok env rq w"
    by (rule evaluate_total [OF valid])
  show thesis
  proof (rule that [OF w(2,3)])
    show "Q (signal_of env rq w ob0) (wa_events w) []"
      by (rule signal_induct [OF w(1), where Q = Q])
         (use rising_start [OF fresh] start step weaken in \<open>auto simp: readings_def\<close>)
  qed
qed

end
