(* ===== verification/Safety_Properties.thy ===== *)
theory Safety_Properties
  imports Safety_Run "HOL-Library.Multiset"
begin

text \<open>
  Properties of the safety monitor: its results can be fed back, they depend on the admissible
  observations only and not on their order, a revision replaces the reading it revises,
  sustained methane raises a red lead, alerts and the cutoff latch survive short dips, and a
  ventilation alert clears without recovery of the flow.
\<close>

section \<open>Concrete requests\<close>

definition safety_demo :: safety_env where
  "safety_demo = \<lparr>fingerprint = (\<lambda>_. ''f''), event_digest = (\<lambda>x. x), utc_text = (\<lambda>_. ''t'')\<rparr>"

definition demo_rules :: rules where
  "demo_rules = default_rules ''v'' 0 ''a''"

definition demo_observation :: "string \<Rightarrow> nat \<Rightarrow> int \<Rightarrow> sensor_reading \<Rightarrow> observation" where
  "demo_observation x n t r =
     \<lparr>o_id = x, o_revision = n, o_mine = ''m'', o_observed = t, o_received = t,
      o_source = \<lparr>src_id = ''s'', src_system = ''y'', src_channel = AutomaticChannel,
                  src_lineage = ''l'', src_signature_valid = True\<rparr>,
      o_quality = \<lparr>qu_score = 1, qu_complete = True, qu_device_healthy = True,
                   qu_clock_synchronised = True, qu_blocking_flags = []\<rparr>,
      o_reading = r\<rparr>"

definition demo_methane :: "string \<Rightarrow> int \<Rightarrow> rat \<Rightarrow> observation" where
  "demo_methane x t v = demo_observation x 0 t (MethaneReading ''p'' WorkingFaceT1 v)"

definition demo_flow :: "string \<Rightarrow> int \<Rightarrow> rat \<Rightarrow> observation" where
  "demo_flow x t v = demo_observation x 0 t (VentilationReading ''p'' v)"

definition demo_request :: "observation list \<Rightarrow> signal_state list \<Rightarrow> safety_request" where
  "demo_request obs previous =
     \<lparr>rq_profile = \<lparr>pf_mine = ''m'', pf_category = HighGas, pf_capacity = 100\<rparr>, rq_time = 100,
      rq_rules = demo_rules, rq_observations = obs, rq_previous = previous\<rparr>"

definition demo_dynamics :: "alert_level \<Rightarrow> rat \<Rightarrow> dynamics" where
  "demo_dynamics l v =
     initial_dynamics\<lparr>dy_status := ActiveStatus, dy_active := Some l, dy_last_value := Some v,
       dy_last_observed := Some 5, dy_activated := Some 5\<rparr>"

definition demo_state :: "observation \<Rightarrow> dynamics \<Rightarrow> signal_state" where
  "demo_state ob d =
     (initial_state safety_demo (demo_request [] []) ob)\<lparr>st_dynamics := d, st_evaluated := 6\<rparr>"

section \<open>Evaluation is total and closed\<close>

text \<open>C25: On every valid request whose previous states come from evaluations, the evaluation
  returns: no state validator fails. Its states are again coherent, one per signal, and a
  later request of the same mine under the same rules may carry them as previous states.\<close>
theorem safety_results_feed_back:
  assumes "validate_request env rq = None" and "\<forall>s \<in> set (rq_previous rq). coherent s"
  shows "\<exists>res. evaluate_safety env rq = Inr res
    \<and> (\<forall>s \<in> set (re_states res). coherent s \<and> validate_state s = None)
    \<and> distinct (map st_key (re_states res))
    \<and> (\<forall>rq'. rq_profile rq' = rq_profile rq \<longrightarrow> rq_rules rq' = rq_rules rq \<longrightarrow>
         rq_time rq \<le> rq_time rq' \<longrightarrow> validate_request env (rq'\<lparr>rq_previous := []\<rparr>) = None \<longrightarrow>
         validate_request env (rq'\<lparr>rq_previous := re_states res\<rparr>) = None)"
proof -
  obtain w where run: "evaluate_safety env rq = Inr (make_result env rq w)" and w: "watch_ok env rq w"
    by (rule evaluate_total [OF assms])
  let ?ss = "re_states (make_result env rq w)"
  have keys: "distinct (map st_key ?ss)" and tracked: "tracked env rq s" if "s \<in> set ?ss" for s
    using watch_ok_result [OF w] that by auto
  have keys: "distinct (map st_key ?ss)" by (rule watch_ok_result(1) [OF w])
  have ok: "coherent s \<and> validate_state s = None" if "s \<in> set ?ss" for s
    using tracked [OF that] by (auto simp: tracked_def coherent_def validate_state_iff)
  have next_ok: "validate_request env (rq'\<lparr>rq_previous := ?ss\<rparr>) = None"
    if rq': "rq_profile rq' = rq_profile rq" "rq_rules rq' = rq_rules rq" "rq_time rq \<le> rq_time rq'"
      "validate_request env (rq'\<lparr>rq_previous := []\<rparr>) = None" for rq' :: safety_request
  proof -
    have "state_failure env (rq'\<lparr>rq_previous := ?ss\<rparr>) s = None" if "s \<in> set ?ss" for s
      using tracked [OF that] rq'(1-3) by (auto simp: tracked_def state_failure_def)
    moreover have "observation_failure (rq'\<lparr>rq_previous := ?ss\<rparr>) = observation_failure (rq'\<lparr>rq_previous := []\<rparr>)"
      by (simp add: fun_eq_iff observation_failure_def cong: sensor_reading.case_cong)
    ultimately show ?thesis
      using rq'(4) keys by (auto simp: validate_request_def split: option.splits)
  qed
  show ?thesis by (rule exI [of _ "make_result env rq w"]) (use run ok keys next_ok in blast)
qed

theorem safety_results_feed_back_witness:
  "\<exists>res. evaluate_safety safety_demo
       (demo_request [demo_methane ''a'' 10 1] [demo_state (demo_methane ''b'' 5 1) (demo_dynamics Red 1)])
     = Inr res \<and> distinct (map st_key (re_states res))"
proof -
  let ?rq = "demo_request [demo_methane ''a'' 10 1] [demo_state (demo_methane ''b'' 5 1) (demo_dynamics Red 1)]"
  have "validate_request safety_demo ?rq = None" by code_simp
  moreover have "\<forall>s \<in> set (rq_previous ?rq). coherent s" by code_simp
  ultimately show ?thesis using safety_results_feed_back by blast
qed

section \<open>Order and inadmissible data\<close>

definition outcome :: "safety_env \<Rightarrow> safety_request \<Rightarrow> safety_error + safety_result" where
  "outcome env rq = map_sum id (\<lambda>r. r\<lparr>re_rejected := []\<rparr>) (evaluate_safety env rq)"

lemma order_key_inj: "distinct (map o_id obs) \<Longrightarrow> inj_on order_key (set obs)"
  by (auto simp: inj_on_def order_key_def distinct_map)

text \<open>C26: Two batches with the same admissible observations have the same accepted readings,
  states, events and leads, whatever the order in which the caller lists them and whatever
  else - future, stale, low-quality or unsigned data - the batches contain.\<close>
theorem only_admissible_data_counts:
  assumes "distinct (map o_id obs)" and "distinct (map o_id obs')"
    and "mset (filter (\<lambda>ob. validate_observation rq ob = None) obs) =
         mset (filter (\<lambda>ob. validate_observation rq ob = None) obs')"
  shows "outcome env (rq\<lparr>rq_observations := obs\<rparr>) = outcome env (rq\<lparr>rq_observations := obs'\<rparr>)"
proof -
  let ?a = "rq\<lparr>rq_observations := obs\<rparr>" and ?b = "rq\<lparr>rq_observations := obs'\<rparr>"
  have valid: "validate_observation (rq\<lparr>rq_observations := x\<rparr>) ob = validate_observation rq ob" for x ob
    by (simp add: validate_observation_def Let_def)
  let ?f = "\<lambda>obs. filter (\<lambda>ob. validate_observation rq ob = None) obs"
  have inj: "inj_on order_key (set (?f obs'))"
    by (rule inj_on_subset [OF order_key_inj [OF assms(2)]]) auto
  have same: "sort_key order_key (?f obs) = sort_key order_key (?f obs')"
  proof (rule sort_key_inj_key_eq)
    show "mset (?f obs) = mset (sort_key order_key (?f obs'))" using assms(3) by simp
    have "set (?f obs) = set (?f obs')" using assms(3) by (metis set_mset_mset)
    then show "inj_on order_key (set (?f obs))" using inj by simp
  qed simp
  then have adm: "admitted ?a = admitted ?b" by (simp add: admitted_def valid)
  have known: "known_states ?a = known_states ?b" by (simp add: known_states_def)
  have us: "usable ?a = usable ?b" using adm known by (simp add: usable_def)
  have "initial_state env ?a ob = initial_state env ?b ob" for ob
    by (simp add: initial_state_def)
  then have base: "base_state env ?a states ob = base_state env ?b states ob" for states ob
    by (simp add: base_state_def restore_checkpoint_def Let_def cong: option.case_cong)
  have rq: "rq_rules ?a = rq_rules ?b" "rq_time ?a = rq_time ?b" "rq_profile ?a = rq_profile ?b"
    by simp_all
  have event: "make_event env ?a = make_event env ?b"
    by (simp add: fun_eq_iff make_event_def event_identity_def)
  have advance: "advance_state env ?a = advance_state env ?b"
    unfolding fun_eq_iff advance_state_def event rq by blast
  have personnel: "personnel_candidate ?a = personnel_candidate ?b"
    unfolding fun_eq_iff personnel_candidate_def rq by blast
  have major: "major_event env ?a = major_event env ?b"
    unfolding fun_eq_iff major_event_def event by blast
  have observe: "apply_observation env ?a rises = apply_observation env ?b rises" for rises
    unfolding fun_eq_iff apply_observation_def advance personnel major rq by blast
  have process: "process_observation env ?a rises = process_observation env ?b rises" for rises
    unfolding fun_eq_iff process_observation_def base observe by blast
  show ?thesis
    by (simp add: outcome_def evaluate_safety_def Let_def us known process make_result_def
        split: sum.split prod.split)
qed

theorem only_admissible_data_counts_witness:
  "outcome safety_demo (demo_request [demo_methane ''a'' 10 1, demo_methane ''b'' 20 2] []) =
   outcome safety_demo (demo_request [demo_methane ''c'' 900 9, demo_methane ''b'' 20 2, demo_methane ''a'' 10 1] [])"
proof -
  let ?x = "[demo_methane ''a'' 10 1, demo_methane ''b'' 20 2]"
  let ?y = "[demo_methane ''c'' 900 9, demo_methane ''b'' 20 2, demo_methane ''a'' 10 1]"
  let ?ok = "\<lambda>ob. validate_observation (demo_request [] []) ob = None"
  have "map o_id ?x = [''a'', ''b'']" "map o_id ?y = [''c'', ''b'', ''a'']"
    by (simp_all add: demo_methane_def demo_observation_def)
  moreover have "?ok (demo_methane ''a'' 10 1)" "?ok (demo_methane ''b'' 20 2)"
    "\<not> ?ok (demo_methane ''c'' 900 9)" by code_simp+
  ultimately have "outcome safety_demo ((demo_request [] [])\<lparr>rq_observations := ?x\<rparr>) =
      outcome safety_demo ((demo_request [] [])\<lparr>rq_observations := ?y\<rparr>)"
    by (intro only_admissible_data_counts) simp_all
  then show ?thesis by (simp add: demo_request_def)
qed

section \<open>Revisions\<close>

lemma apply_observation_ignores:
  assumes "st_key s' = st_key s" "st_mine s' = st_mine s" "st_scope s' = st_scope s"
    "st_point s' = st_point s" "st_dynamics s' = st_dynamics s"
  shows "apply_observation env rq rises ob s' = apply_observation env rq rises ob s"
proof -
  have "s'\<lparr>st_dynamics := d, st_prior := p, st_evaluated := t, st_version := v, st_fingerprint := f\<rparr> =
      s\<lparr>st_dynamics := d, st_prior := p, st_evaluated := t, st_version := v, st_fingerprint := f\<rparr>"
    for d p t v f using assms by (simp add: signal_state.equality)
  then have advance: "advance_state env rq ob s' = advance_state env rq ob s"
    using assms(5) by (simp add: fun_eq_iff advance_state_def)
  show ?thesis unfolding apply_observation_def advance assms(5) ..
qed

text \<open>A higher revision of the latest reading replaces it: after the reading and its
  revision the state of the signal, its debounce counters included, is the state the
  revision alone leads to.\<close>
theorem revision_replaces_reading:
  assumes "watch_ok env rq w" and "process_observation env rq rises a w = (Inr (), v)"
    and "dy_last_observed (st_dynamics (signal_of env rq w a)) \<noteq> Some (o_observed a)"
    and "o_observed a \<le> rq_time rq" and "thresholds_known rq a" and "thresholds_known rq b"
    and "state_key b = state_key a" and "o_observed b = o_observed a" and "o_revision a < o_revision b"
  shows "map_of (wa_states (snd (process_observation env rq rises b v))) (state_key a) =
     map_of (wa_states (snd (process_observation env rq rises b w))) (state_key a)"
proof -
  let ?s = "signal_of env rq w a"
  have same: "signal_of env rq x b = signal_of env rq x a" for x
    by (rule signal_of_key [OF assms(7)])
  have new: "\<not> revised ?s a" "\<not> revised (signal_of env rq w b) b"
    using assms(3,8) by (simp_all add: revised_def same)
  obtain t es where t: "apply_observation env rq rises a ?s = Inr (t, es)"
    "signal_of env rq v a = t" by (rule process_same [OF assms(2) new(1)])
  have ok: "watch_ok env rq v"
    using process_observation_ok [OF assms(1,4,5), of rises] assms(2) by auto
  have dyn: "dy_last_observed (st_dynamics t) = Some (o_observed a)"
    "dy_last_revision (st_dynamics t) = o_revision a" "st_prior t = Some (st_dynamics ?s)"
    using t(1) by (auto elim!: apply_observation_run)
  have rev: "revised (signal_of env rq v b) b"
    using dyn t(2) assms(8,9) by (simp add: revised_def same)
  obtain r where r: "base_state env rq (wa_states v) b = Inr r" by (rule base_state_ok [OF ok])
  have "st_key t = st_key ?s \<and> st_mine t = st_mine ?s \<and> st_scope t = st_scope ?s \<and> st_point t = st_point ?s"
    using t(1)
    by (auto simp: apply_observation_def advance_state_def Let_def dest!: make_state_Inr
        split: sensor_reading.splits prod.splits sum.splits option.splits)
  moreover have "r = t\<lparr>st_dynamics := st_dynamics ?s, st_prior := None, st_evaluated := rq_time rq\<rparr>"
    using r rev dyn(3) t(2)
    by (auto simp: base_state_signal same restore_checkpoint_def dest: make_state_Inr)
  ultimately have equal: "apply_observation env rq rises b r = apply_observation env rq rises b ?s"
    by (intro apply_observation_ignores) simp_all
  have "\<exists>x. process_observation env rq rises b w = (Inr (), x) \<and> watch_ok env rq x"
    by (rule process_observation_ok [OF assms(1)]) (use assms(4,6,8) in auto)
  then obtain q where "apply_observation env rq rises b ?s = Inr q"
    using new(2) by (auto simp: process_observation_def base_state_signal same split: sum.splits)
  then show ?thesis
    using r new(2) equal
    by (auto simp: process_observation_def base_state_signal same assms(7) update_conv'
        split: prod.splits)
qed

theorem revision_replaces_reading_witness:
  "let rq = demo_request [] []; w = \<lparr>wa_states = [], wa_events = []\<rparr>;
       a = demo_methane ''a'' 10 2; b = demo_observation ''b'' 1 10 (MethaneReading ''p'' WorkingFaceT1 1);
       v = snd (process_observation safety_demo rq [] a w)
   in map_of (wa_states (snd (process_observation safety_demo rq [] b v))) ''methane:p'' =
      map_of (wa_states (snd (process_observation safety_demo rq [] b w))) ''methane:p''"
proof -
  let ?rq = "demo_request [] []" and ?w = "\<lparr>wa_states = [], wa_events = []\<rparr> :: watch"
  let ?a = "demo_methane ''a'' 10 2"
  let ?b = "demo_observation ''b'' 1 10 (MethaneReading ''p'' WorkingFaceT1 1)"
  have "fst (process_observation safety_demo ?rq [] ?a ?w) = Inr ()" by code_simp
  then have run: "process_observation safety_demo ?rq [] ?a ?w =
      (Inr (), snd (process_observation safety_demo ?rq [] ?a ?w))" by (metis prod.collapse)
  have key: "state_key ?a = ''methane:p''" by code_simp
  have "watch_ok safety_demo ?rq ?w" by (simp add: watch_ok_def)
  moreover have "dy_last_observed (st_dynamics (signal_of safety_demo ?rq ?w ?a)) \<noteq> Some (o_observed ?a)"
    by code_simp
  moreover have "o_observed ?a \<le> rq_time ?rq" "thresholds_known ?rq ?a" "thresholds_known ?rq ?b"
    "state_key ?b = state_key ?a" "o_observed ?b = o_observed ?a" "o_revision ?a < o_revision ?b"
    by code_simp+
  ultimately show ?thesis
    using revision_replaces_reading [OF _ run] by (simp add: Let_def key)
qed

section \<open>Sustained methane\<close>

definition over_alarm :: "safety_request \<Rightarrow> observation \<Rightarrow> bool" where
  "over_alarm rq ob \<longleftrightarrow>
     (case o_reading ob of
        MethaneReading _ l v \<Rightarrow>
          (case threshold_for (rq_rules rq) (pf_category (rq_profile rq)) l of
             None \<Rightarrow> False | Some th \<Rightarrow> mt_alarm th \<le> v)
      | _ \<Rightarrow> False)"

text \<open>How far a run of \<open>i\<close> readings over the alarm value has come.\<close>

definition sustained :: "debounce_policy \<Rightarrow> nat \<Rightarrow> dynamics \<Rightarrow> bool" where
  "sustained p i d \<longleftrightarrow>
     i \<le> dy_overlimit_count d
     \<and> (0 < i \<longrightarrow> dy_last_value d \<noteq> None)
     \<and> (db_methane_red_after p \<le> i \<and> 0 < i \<longrightarrow>
          dy_candidate d = Some Red \<and> i < dy_candidate_count d + db_methane_red_after p)
     \<and> (db_methane_red_after p + db_activate_after p \<le> Suc i \<and> db_methane_red_after p \<le> i \<and> 0 < i \<longrightarrow>
          dy_active d = Some Red)"

lemma methane_candidate_red:
  "db_methane_red_after (ru_debounce r) \<le> overlimit_count th d v \<Longrightarrow>
     fst (methane_candidate r th d v) = Some Red"
  by (auto simp: methane_candidate_def Let_def level_max_def split: prod.splits option.splits)

lemma sustained_step:
  assumes "sustained p i d" and "2 \<le> db_methane_red_after p" and "i < n"
    and red: "db_methane_red_after p \<le> n \<Longrightarrow> c = Some Red" and "n = dy_overlimit_count d + 1"
  shows "sustained p (Suc i) (advanced_dynamics p ob c codes n cutoff below d)"
proof (cases "db_methane_red_after p \<le> Suc i")
  case False
  then show ?thesis using assms(1,3) by (simp add: sustained_def)
next
  case True
  then have c: "c = Some Red" using assms(3) by (intro red) simp
  have count: "Suc i < candidate_count d c + db_methane_red_after p"
  proof (cases "db_methane_red_after p \<le> i \<and> 0 < i")
    case True
    then show ?thesis using assms(1) c by (simp add: sustained_def candidate_count_def)
  next
    case False
    then show ?thesis using \<open>db_methane_red_after p \<le> Suc i\<close> c assms(2) by (auto simp: candidate_count_def)
  qed
  have "lc_active (level_step p seen c d) = Some Red"
    if "db_methane_red_after p + db_activate_after p \<le> Suc (Suc i)" for seen
  proof -
    have "db_activate_after p \<le> candidate_count d (Some Red)" using that count c by simp
    then show ?thesis
      by (cases "dy_active d"; cases "the (dy_active d)") (auto simp: level_step_def Let_def c)
  qed
  then show ?thesis using assms(3) c count True by (auto simp: sustained_def)
qed

lemma lead_of_watch:
  assumes "watch_ok env rq w" and "dy_active (st_dynamics (signal_of env rq w ob)) = Some l"
    and "dy_last_value (st_dynamics (signal_of env rq w ob)) \<noteq> None"
  shows "\<exists>le \<in> set (re_leads (make_result env rq w)). le_key le = state_key ob \<and> le_level le = l"
proof -
  let ?s = "signal_of env rq w ob"
  have mem: "map_of (wa_states w) (state_key ob) = Some ?s"
    using assms(2) by (auto simp: signal_of_def initial_state_def initial_dynamics_def split: option.splits)
  then have "(state_key ob, ?s) \<in> set (wa_states w)" by (rule map_of_SomeD)
  then have s: "?s \<in> snd ` set (wa_states w)" "tracked env rq ?s" "st_key ?s = state_key ob"
    using assms(1) by (force simp: watch_ok_def)+
  then have dyn: "dynamics_ok (st_scope ?s) (st_evaluated ?s) (st_dynamics ?s)"
    by (simp add: tracked_def coherent_def)
  obtain v t where "dy_last_value (st_dynamics ?s) = Some v" "dy_last_observed (st_dynamics ?s) = Some t"
    using dyn assms(3) by (auto simp: dynamics_ok_def)
  moreover have "dy_status (st_dynamics ?s) = ActiveStatus" using dyn assms(2) by (simp add: dynamics_ok_def)
  ultimately obtain le where "lead_of ?s = Some le" "le_key le = st_key ?s" "le_level le = l"
    using assms(2) by (simp add: lead_of_def Let_def)
  then show ?thesis
    using s by (auto simp: make_result_def Let_def List.map_filter_def image_iff intro!: bexI [of _ le])
qed

text \<open>C27: When at least \<open>methane_red_after + activate_after - 1\<close> accepted readings of a methane
  sensor, all at or over the alarm value, follow each other, the evaluation ends with a red
  lead for that sensor, from whatever state it started.\<close>
theorem sustained_methane_raises_red:
  assumes "validate_request env rq = None" and "\<forall>s \<in> set (rq_previous rq). coherent s"
    and "rules_valid (rq_rules rq)"
    and "fresh_readings rq (state_key ob0)"
    and "\<forall>ob \<in> set (readings rq (state_key ob0)). over_alarm rq ob"
    and "db_methane_red_after (ru_debounce (rq_rules rq)) + db_activate_after (ru_debounce (rq_rules rq))
         \<le> Suc (length (readings rq (state_key ob0)))"
  shows "\<exists>res. evaluate_safety env rq = Inr res
    \<and> (\<exists>le \<in> set (re_leads res). le_key le = state_key ob0 \<and> le_level le = Red)"
proof -
  let ?p = "ru_debounce (rq_rules rq)" and ?n = "length (readings rq (state_key ob0))"
  let ?Q = "\<lambda>s E rest. length rest \<le> ?n \<and> sustained ?p (?n - length rest) (st_dynamics s)"
  have policy: "1 \<le> db_activate_after ?p" "2 \<le> db_methane_red_after ?p"
    using assms(3) by (auto simp: rules_valid_def debounce_valid_def)
  have step: "?Q t (E @ es) rest"
    if ob: "ob \<in> set (usable rq)" "state_key ob = state_key ob0"
      and run: "apply_observation env rq (methane_rises (rq_rules rq) (known_states rq) (usable rq)) ob s = Inr (t, es)"
      and Q: "?Q s E (ob # rest)" for s E ob rest t es
  proof -
    have "over_alarm rq ob" using assms(5) ob by (auto simp: readings_def)
    then obtain p l v th where r: "o_reading ob = MethaneReading p l v"
      "threshold_for (rq_rules rq) (pf_category (rq_profile rq)) l = Some th" "mt_alarm th \<le> v"
      by (auto simp: over_alarm_def split: sensor_reading.splits option.splits)
    have "sustained ?p (Suc (?n - length (ob # rest))) (st_dynamics t)"
      unfolding apply_methane [OF run r(1,2)]
    proof (rule sustained_step)
      show "sustained ?p (?n - length (ob # rest)) (st_dynamics s)" using Q by simp
      then show "?n - length (ob # rest) < overlimit_count th (st_dynamics s) v"
        using r(3) by (simp add: sustained_def overlimit_count_def)
      show "overlimit_count th (st_dynamics s) v = dy_overlimit_count (st_dynamics s) + 1"
        using r(3) by (simp add: overlimit_count_def)
    qed (use policy in \<open>auto intro: methane_candidate_red\<close>)
    then show ?thesis using Q by (simp add: Suc_diff_Suc)
  qed
  obtain w where w: "evaluate_safety env rq = Inr (make_result env rq w)" "watch_ok env rq w"
    and final: "?Q (signal_of env rq w ob0) (wa_events w) []"
    by (rule evaluate_signal [OF assms(1,2,4), where Q = ?Q]) (use step in \<open>auto simp: sustained_def\<close>)
  from final assms(6) policy
  have "dy_active (st_dynamics (signal_of env rq w ob0)) = Some Red"
    "dy_last_value (st_dynamics (signal_of env rq w ob0)) \<noteq> None"
    by (auto simp: sustained_def)
  from lead_of_watch [OF w(2) this] w(1) show ?thesis by blast
qed


theorem sustained_methane_raises_red_witness:
  "\<exists>res. evaluate_safety safety_demo
       (demo_request [demo_methane ''c'' 30 1, demo_methane ''a'' 10 1, demo_methane ''b'' 20 1] []) = Inr res
    \<and> (\<exists>le \<in> set (re_leads res). le_key le = ''methane:p'' \<and> le_level le = Red)"
proof -
  let ?rq = "demo_request [demo_methane ''c'' 30 1, demo_methane ''a'' 10 1, demo_methane ''b'' 20 1] []"
  let ?ob = "demo_methane ''a'' 10 1"
  have key: "state_key ?ob = ''methane:p''" by code_simp
  have "validate_request safety_demo ?rq = None" by code_simp
  moreover have "\<forall>s \<in> set (rq_previous ?rq). coherent s" by (simp add: demo_request_def)
  moreover have "rules_valid (rq_rules ?rq)"
    by (simp add: demo_request_def demo_rules_def default_rules_valid)
  moreover have "fresh_readings ?rq (state_key ?ob)" by code_simp
  moreover have "\<forall>ob \<in> set (readings ?rq (state_key ?ob)). over_alarm ?rq ob" by code_simp
  moreover have "db_methane_red_after (ru_debounce (rq_rules ?rq)) + db_activate_after (ru_debounce (rq_rules ?rq))
         \<le> Suc (length (readings ?rq (state_key ?ob)))" by code_simp
  ultimately show ?thesis using sustained_methane_raises_red key by metis
qed

section \<open>Debounce\<close>

lemma known_signal:
  "map_of (known_states rq) (state_key ob) = Some s \<Longrightarrow>
     signal_of env rq \<lparr>wa_states = known_states rq, wa_events = es\<rparr> ob = s"
  by (simp add: signal_of_def)

lemma known_state_mem:
  assumes "distinct (map st_key (rq_previous rq))" and "s \<in> set (rq_previous rq)" and "st_key s = k"
  shows "map_of (known_states rq) k = Some s"
  using assms by (auto simp: known_states_def comp_def intro!: map_of_is_SomeI)

lemma signal_in_states:
  assumes "st_dynamics (signal_of env rq w ob) \<noteq> initial_dynamics"
  shows "signal_of env rq w ob \<in> set (re_states (make_result env rq w))"
proof -
  have "map_of (wa_states w) (state_key ob) = Some (signal_of env rq w ob)"
    using assms by (simp add: signal_of_def initial_state_def split: option.splits)
  from map_of_SomeD [OF this] show ?thesis by (force simp: make_result_def Let_def)
qed

lemma re_events_make_result [simp]: "re_events (make_result env rq w) = wa_events w"
  by (simp add: make_result_def Let_def)

definition at_least :: "alert_level \<Rightarrow> dynamics \<Rightarrow> bool" where
  "at_least l d \<longleftrightarrow> (case dy_active d of None \<Rightarrow> False | Some a \<Rightarrow> l \<le> a)"

lemma level_step_survives:
  assumes "at_least l d" and "dy_clear_count d + 1 < db_clear_after p"
  shows "(case lc_active (level_step p seen c d) of None \<Rightarrow> False | Some a \<Rightarrow> l \<le> a)
    \<and> lc_clear_count (level_step p seen c d) \<le> dy_clear_count d + 1"
  using assms
  by (cases c) (auto simp: at_least_def level_step_def Let_def less_eq_alert_level_def split: option.splits)

text \<open>An alert is not lowered and not cleared by fewer lower readings than the clearing
  debounce asks for, counted with those already seen; the lead stays, at its level or above.\<close>
theorem alert_survives_short_dips:
  assumes "validate_request env rq = None" and "\<forall>s \<in> set (rq_previous rq). coherent s"
    and "s \<in> set (rq_previous rq)" and "st_key s = state_key ob0"
    and "fresh_readings rq (state_key ob0)"
    and "dy_active (st_dynamics s) = Some l" and "dy_last_value (st_dynamics s) \<noteq> None"
    and "dy_clear_count (st_dynamics s) + length (readings rq (state_key ob0))
         < db_clear_after (ru_debounce (rq_rules rq))"
  shows "\<exists>res. evaluate_safety env rq = Inr res
    \<and> (\<exists>le \<in> set (re_leads res). le_key le = state_key ob0 \<and> l \<le> le_level le)"
proof -
  let ?p = "ru_debounce (rq_rules rq)"
  let ?Q = "\<lambda>s E rest. at_least l (st_dynamics s) \<and> dy_last_value (st_dynamics s) \<noteq> None
      \<and> dy_clear_count (st_dynamics s) + length rest < db_clear_after ?p"
  have known: "map_of (known_states rq) (state_key ob0) = Some s"
    by (rule known_state_mem [OF request_parts(1) [OF assms(1)] assms(3,4)])
  have step: "?Q t (E @ es) rest"
    if run: "apply_observation env rq rises ob u = Inr (t, es)" and Q: "?Q u E (ob # rest)"
    for rises u E ob rest t es
  proof -
    obtain c codes n cutoff below where t: "st_dynamics t =
        advanced_dynamics ?p ob c codes n cutoff below (st_dynamics u)"
      using run by (auto elim!: apply_observation_run)
    show ?thesis
      using level_step_survives [of l "st_dynamics u" ?p "o_observed ob" c] Q
      by (auto simp: t at_least_def)
  qed
  obtain w where w: "evaluate_safety env rq = Inr (make_result env rq w)" "watch_ok env rq w"
    and final: "?Q (signal_of env rq w ob0) (wa_events w) []"
    by (rule evaluate_signal [OF assms(1,2,5), where Q = ?Q])
       (use step assms(6-8) known_signal [OF known] in \<open>auto simp: at_least_def\<close>)
  then obtain a where a: "dy_active (st_dynamics (signal_of env rq w ob0)) = Some a" "l \<le> a"
    by (auto simp: at_least_def split: option.splits)
  from lead_of_watch [OF w(2) a(1)] final a(2) w(1) show ?thesis by blast
qed

theorem alert_survives_short_dips_witness:
  "\<exists>res. evaluate_safety safety_demo
       (demo_request [demo_methane ''a'' 10 0] [demo_state (demo_methane ''b'' 5 1) (demo_dynamics Red 1)]) = Inr res
    \<and> (\<exists>le \<in> set (re_leads res). le_key le = ''methane:p'' \<and> Red \<le> le_level le)"
proof -
  let ?s = "demo_state (demo_methane ''b'' 5 1) (demo_dynamics Red 1)"
  let ?rq = "demo_request [demo_methane ''a'' 10 0] [?s]" and ?ob = "demo_methane ''a'' 10 0"
  have key: "state_key ?ob = ''methane:p''" by code_simp
  have "validate_request safety_demo ?rq = None" by code_simp
  moreover have "\<forall>s \<in> set (rq_previous ?rq). coherent s" by code_simp
  moreover have "?s \<in> set (rq_previous ?rq)" by (simp add: demo_request_def)
  moreover have "st_key ?s = state_key ?ob" "fresh_readings ?rq (state_key ?ob)"
    "dy_active (st_dynamics ?s) = Some Red" "dy_last_value (st_dynamics ?s) \<noteq> None"
    "dy_clear_count (st_dynamics ?s) + length (readings ?rq (state_key ?ob))
         < db_clear_after (ru_debounce (rq_rules ?rq))" by code_simp+
  ultimately show ?thesis using alert_survives_short_dips key by metis
qed

section \<open>The cutoff latch\<close>

lemma latch_step_kept:
  assumes "dy_latched d"
  shows "fst (latch_step p cutoff below d) \<or> snd (snd (latch_step p cutoff below d))"
  using assms by (simp add: latch_step_def)

text \<open>A latched methane cutoff is never released silently: after any batch the signal is
  still latched, or the evaluation has emitted a recovery-eligible event for it.\<close>
theorem latch_released_with_notice:
  assumes "validate_request env rq = None" and "\<forall>s \<in> set (rq_previous rq). coherent s"
    and "s \<in> set (rq_previous rq)" and "st_key s = state_key ob0"
    and "fresh_readings rq (state_key ob0)" and "dy_latched (st_dynamics s)"
  shows "\<exists>res. evaluate_safety env rq = Inr res
    \<and> ((\<exists>s' \<in> set (re_states res). st_key s' = state_key ob0 \<and> dy_latched (st_dynamics s'))
       \<or> (\<exists>e \<in> set (re_events res). se_key e = state_key ob0 \<and> se_transition e = RecoveryEligible))"
proof -
  let ?k = "state_key ob0"
  let ?Q = "\<lambda>s E rest. st_key s = ?k \<and>
      (dy_latched (st_dynamics s) \<or> (\<exists>e \<in> set E. se_key e = ?k \<and> se_transition e = RecoveryEligible))"
  have known: "map_of (known_states rq) ?k = Some s"
    by (rule known_state_mem [OF request_parts(1) [OF assms(1)] assms(3,4)])
  have step: "?Q t (E @ es) rest"
    if run: "apply_observation env rq rises ob u = Inr (t, es)" and Q: "?Q u E (ob # rest)"
    for rises u E ob rest t es
  proof -
    obtain c codes n cutoff below where t: "st_dynamics t =
        advanced_dynamics (ru_debounce (rq_rules rq)) ob c codes n cutoff below (st_dynamics u)"
      "st_key t = st_key u"
      and notice: "snd (snd (latch_step (ru_debounce (rq_rules rq)) cutoff below (st_dynamics u))) \<Longrightarrow>
         \<exists>e \<in> set es. se_key e = st_key u \<and> se_transition e = RecoveryEligible"
      by (rule apply_observation_run [OF run]) (rule that; assumption)
    show ?thesis
      using Q t notice latch_step_kept [of "st_dynamics u" "ru_debounce (rq_rules rq)" cutoff below] by auto
  qed
  have start: "?Q (signal_of env rq \<lparr>wa_states = known_states rq, wa_events = []\<rparr> ob0) []
      (readings rq ?k)"
    using assms(4,6) by (simp add: known_signal [OF known])
  obtain w where w: "evaluate_safety env rq = Inr (make_result env rq w)" "watch_ok env rq w"
    and final: "?Q (signal_of env rq w ob0) (wa_events w) []"
    by (rule evaluate_signal [where Q = ?Q, OF assms(1,2,5) start step]) (assumption | rule that | fastforce)+
  have "signal_of env rq w ob0 \<in> set (re_states (make_result env rq w))"
    if "dy_latched (st_dynamics (signal_of env rq w ob0))"
    by (rule signal_in_states) (use that in \<open>auto simp: initial_dynamics_def\<close>)
  then show ?thesis using w(1) final re_events_make_result [of env rq w] by fastforce
qed

theorem latch_released_with_notice_witness:
  "\<exists>res. evaluate_safety safety_demo
       (demo_request [demo_methane ''a'' 10 0, demo_methane ''c'' 20 0]
          [demo_state (demo_methane ''b'' 5 1) ((demo_dynamics Red 1)\<lparr>dy_latched := True\<rparr>)]) = Inr res
    \<and> ((\<exists>s' \<in> set (re_states res). st_key s' = ''methane:p'' \<and> dy_latched (st_dynamics s'))
       \<or> (\<exists>e \<in> set (re_events res). se_key e = ''methane:p'' \<and> se_transition e = RecoveryEligible))"
proof -
  let ?s = "demo_state (demo_methane ''b'' 5 1) ((demo_dynamics Red 1)\<lparr>dy_latched := True\<rparr>)"
  let ?rq = "demo_request [demo_methane ''a'' 10 0, demo_methane ''c'' 20 0] [?s]"
  let ?ob = "demo_methane ''a'' 10 0"
  have key: "state_key ?ob = ''methane:p''" by code_simp
  have "validate_request safety_demo ?rq = None" by code_simp
  moreover have "\<forall>s \<in> set (rq_previous ?rq). coherent s" by code_simp
  moreover have "?s \<in> set (rq_previous ?rq)" by (simp add: demo_request_def)
  moreover have "st_key ?s = state_key ?ob" "fresh_readings ?rq (state_key ?ob)"
    "dy_latched (st_dynamics ?s)" by code_simp+
  ultimately have "\<exists>res. evaluate_safety safety_demo ?rq = Inr res
    \<and> ((\<exists>s' \<in> set (re_states res). st_key s' = state_key ?ob \<and> dy_latched (st_dynamics s'))
       \<or> (\<exists>e \<in> set (re_events res). se_key e = state_key ?ob \<and> se_transition e = RecoveryEligible))"
    by (rule latch_released_with_notice)
  then show ?thesis by (simp only: key)
qed

section \<open>Ventilation\<close>

lemma level_flow_candidate:
  assumes "rules_valid r" and "dy_last_value d = Some (o_value ob)"
  shows "ventilation_candidate r d ob rises = (None, [])"
  using assms by (simp add: ventilation_candidate_def rules_valid_def ventilation_thresholds_valid_def)

text \<open>C28: The ventilation rule compares neighbouring readings only. An alert opened by a drop is
  therefore cleared by \<open>clear_after\<close> readings that stay at the low value: the flow has not
  recovered, but the lead is gone.\<close>
theorem ventilation_alert_clears_at_low_flow:
  assumes "validate_request env rq = None" and "\<forall>s \<in> set (rq_previous rq). coherent s"
    and "rules_valid (rq_rules rq)"
    and "s \<in> set (rq_previous rq)" and "st_key s = state_key ob0"
    and "fresh_readings rq (state_key ob0)"
    and "dy_last_value (st_dynamics s) = Some v"
    and "dy_clear_count (st_dynamics s) < db_clear_after (ru_debounce (rq_rules rq))"
    and "\<forall>ob \<in> set (readings rq (state_key ob0)). \<exists>p. o_reading ob = VentilationReading p v"
    and "db_clear_after (ru_debounce (rq_rules rq))
         \<le> dy_clear_count (st_dynamics s) + length (readings rq (state_key ob0))"
  shows "\<exists>res s'. evaluate_safety env rq = Inr res \<and> s' \<in> set (re_states res)
    \<and> st_key s' = state_key ob0 \<and> dy_active (st_dynamics s') = None
    \<and> dy_last_value (st_dynamics s') = Some v"
proof -
  let ?p = "ru_debounce (rq_rules rq)" and ?k = "state_key ob0"
  let ?Q = "\<lambda>s E rest. st_key s = ?k \<and> dy_last_value (st_dynamics s) = Some v
      \<and> (dy_active (st_dynamics s) = None \<or> dy_clear_count (st_dynamics s) < db_clear_after ?p
            \<and> db_clear_after ?p \<le> dy_clear_count (st_dynamics s) + length rest)"
  have known: "map_of (known_states rq) ?k = Some s"
    by (rule known_state_mem [OF request_parts(1) [OF assms(1)] assms(4,5)])
  have step: "?Q t (E @ es) rest"
    if ob: "ob \<in> set (usable rq)" "state_key ob = ?k"
      and run: "apply_observation env rq rises ob u = Inr (t, es)" and Q: "?Q u E (ob # rest)"
    for rises u E ob rest t es
  proof -
    obtain p where r: "o_reading ob = VentilationReading p v"
      using assms(9) ob by (auto simp: readings_def)
    have value_ob: "o_value ob = v" by (simp add: o_value_def r)
    have none: "ventilation_candidate (rq_rules rq) (st_dynamics u) ob rises = (None, [])"
      by (rule level_flow_candidate [OF assms(3)]) (use Q value_ob in simp)
    have "st_dynamics t = advanced_dynamics ?p ob None [] 0 False False (st_dynamics u)" "st_key t = st_key u"
      using apply_ventilation [OF run r] none run by (auto elim!: apply_observation_run)
    then show ?thesis using Q value_ob
      by (cases "dy_active (st_dynamics u)") (auto simp: level_step_def Let_def)
  qed
  have start: "?Q (signal_of env rq \<lparr>wa_states = known_states rq, wa_events = []\<rparr> ob0) []
      (readings rq ?k)"
    using assms(5,7,8,10) by (simp add: known_signal [OF known])
  obtain w where w: "evaluate_safety env rq = Inr (make_result env rq w)"
    and final: "?Q (signal_of env rq w ob0) (wa_events w) []"
    by (rule evaluate_signal [where Q = ?Q, OF assms(1,2,6) start step]) (assumption | rule that | simp)+
  have "signal_of env rq w ob0 \<in> set (re_states (make_result env rq w))"
    by (rule signal_in_states) (use final in \<open>auto simp: initial_dynamics_def\<close>)
  then show ?thesis using w final by auto
qed

theorem ventilation_alert_clears_at_low_flow_witness:
  "\<exists>res s'. evaluate_safety safety_demo
       (demo_request [demo_flow ''a'' 10 50, demo_flow ''c'' 20 50]
          [demo_state (demo_flow ''b'' 5 50) (demo_dynamics Red 50)]) = Inr res \<and> s' \<in> set (re_states res)
    \<and> st_key s' = ''ventilation:p'' \<and> dy_active (st_dynamics s') = None
    \<and> dy_last_value (st_dynamics s') = Some 50"
proof -
  let ?s = "demo_state (demo_flow ''b'' 5 50) (demo_dynamics Red 50)"
  let ?rq = "demo_request [demo_flow ''a'' 10 50, demo_flow ''c'' 20 50] [?s]"
  let ?ob = "demo_flow ''a'' 10 50"
  have key: "state_key ?ob = ''ventilation:p''" by code_simp
  have "validate_request safety_demo ?rq = None" by code_simp
  moreover have "\<forall>s \<in> set (rq_previous ?rq). coherent s" by code_simp
  moreover have "rules_valid (rq_rules ?rq)"
    by (simp add: demo_request_def demo_rules_def default_rules_valid)
  moreover have "?s \<in> set (rq_previous ?rq)" by (simp add: demo_request_def)
  moreover have "st_key ?s = state_key ?ob" "fresh_readings ?rq (state_key ?ob)"
    "dy_last_value (st_dynamics ?s) = Some 50"
    "dy_clear_count (st_dynamics ?s) < db_clear_after (ru_debounce (rq_rules ?rq))" by code_simp+
  moreover have "map o_reading (readings ?rq (state_key ?ob)) =
      [VentilationReading ''p'' 50, VentilationReading ''p'' 50]" by code_simp
  then have "\<forall>ob \<in> set (readings ?rq (state_key ?ob)). \<exists>p. o_reading ob = VentilationReading p 50"
    by (auto simp: map_eq_Cons_conv)
  moreover have "db_clear_after (ru_debounce (rq_rules ?rq))
         \<le> dy_clear_count (st_dynamics ?s) + length (readings ?rq (state_key ?ob))" by code_simp
  ultimately have "\<exists>res s'. evaluate_safety safety_demo ?rq = Inr res \<and> s' \<in> set (re_states res)
    \<and> st_key s' = state_key ?ob \<and> dy_active (st_dynamics s') = None
    \<and> dy_last_value (st_dynamics s') = Some 50"
    by (rule ventilation_alert_clears_at_low_flow)
  then show ?thesis by (simp only: key)
qed

end
