(* ===== verification/Json_Documents.thy ===== *)
theory Json_Documents
  imports Prelude "HOL-Library.Char_ord" "HOL-Library.List_Lexorder" "HOL-Library.AList"
begin

text \<open>
  JSON documents and Python dicts as the stores use them: dicts built from items, canonical
  JSON (objects with sorted keys), reading and writing fields, and Python's white space.
  Texts are lists of characters whose white space is that of ASCII.
\<close>

section \<open>Dicts\<close>

text \<open>A dict display or comprehension: a later item with a known key replaces its value.\<close>

definition dict_of :: "(string \<times> 'v) list \<Rightarrow> (string \<times> 'v) list" where
  "dict_of kvs = map (\<lambda>k. (k, the (map_of (rev kvs) k))) (first_occurrences (map fst kvs))"

section \<open>Canonical JSON\<close>

text \<open>
  \<open>canonical_json\<close> writes the keys of every object in sorted order, so the document it
  stores is the value with its objects sorted. The text and the digest of a document are
  parameters of the operations that hash.
\<close>

fun canonical :: "json \<Rightarrow> json" where
  "canonical (JArr xs) = JArr (map canonical xs)"
| "canonical (JObj kvs) = JObj (sort_key fst (map (\<lambda>(k, v). (k, canonical v)) kvs))"
| "canonical v = v"

definition sorted_payload :: "(string \<times> json) list \<Rightarrow> (string \<times> json) list" where
  "sorted_payload kvs = sort_key fst (map (\<lambda>(k, v). (k, canonical v)) kvs)"

section \<open>Fields\<close>

text \<open>\<open>d[k]\<close> and \<open>d[k] = v\<close>; both fail on a value that is not a dict, the first on a missing key.\<close>

definition field :: "string \<Rightarrow> json \<Rightarrow> json option" where
  "field k j = (case j of JObj kvs \<Rightarrow> map_of kvs k | _ \<Rightarrow> None)"

definition set_field :: "string \<Rightarrow> json \<Rightarrow> json \<Rightarrow> json option" where
  "set_field k v j = (case j of JObj kvs \<Rightarrow> Some (JObj (AList.update k v kvs)) | _ \<Rightarrow> None)"

definition text_field :: "string \<Rightarrow> json \<Rightarrow> string option" where
  "text_field k j = (case field k j of Some (JStr s) \<Rightarrow> Some s | _ \<Rightarrow> None)"

section \<open>White space of \<open>str.strip\<close> and \<open>str.split\<close>\<close>

definition python_space :: "char \<Rightarrow> bool" where
  "python_space c \<longleftrightarrow> of_char c \<in> {9, 10, 11, 12, 13, 28, 29, 30, 31, 32 :: nat}"

definition python_strip :: "string \<Rightarrow> string" where
  "python_strip s = rev (dropWhile python_space (rev (dropWhile python_space s)))"

text \<open>\<open>s.split()\<close>, and texts joined by a separator.\<close>

definition words_step :: "char \<Rightarrow> string list \<times> string \<Rightarrow> string list \<times> string" where
  "words_step c = (\<lambda>(ws, w).
     if python_space c then (if w = [] then (ws, []) else (w # ws, [])) else (ws, c # w))"

definition python_split :: "string \<Rightarrow> string list" where
  "python_split s = (case foldr words_step s ([], []) of (ws, w) \<Rightarrow> if w = [] then ws else w # ws)"

fun join_texts :: "string \<Rightarrow> string list \<Rightarrow> string" where
  "join_texts sep [] = []"
| "join_texts sep [x] = x"
| "join_texts sep (x # xs) = x @ sep @ join_texts sep xs"

section \<open>Lemmas\<close>

lemma canonical_JObj: "canonical (JObj kvs) = JObj (sorted_payload kvs)"
  by (simp add: sorted_payload_def)

lemma insort_key_map_fst:
  "insort_key fst (a, f b) (map (\<lambda>(k, v). (k, f v)) xs) = map (\<lambda>(k, v). (k, f v)) (insort_key fst (a, b) xs)"
  by (induction xs) auto

lemma sort_key_map_fst:
  "sort_key fst (map (\<lambda>(k, v). (k, f v)) kvs) = map (\<lambda>(k, v). (k, f v)) (sort_key fst kvs)"
  by (induction kvs) (auto simp: insort_key_map_fst)

lemma insort_key_first:
  "(\<And>y. y \<in> set xs \<Longrightarrow> f x \<le> f y) \<Longrightarrow> insort_key f x xs = x # xs"
  by (cases xs) auto

lemma sort_key_sorted: "sorted (map f xs) \<Longrightarrow> sort_key f xs = xs"
  by (induction xs) (auto simp: insort_key_first)

lemma canonical_idem [simp]: "canonical (canonical j) = canonical j"
proof (induction j rule: canonical.induct)
  case (2 kvs)
  let ?K = "map (\<lambda>(k, v). (k, canonical v))"
  have inner: "?K (?K kvs) = ?K kvs"
    using 2 by auto
  have "sort_key fst (?K (sort_key fst (?K kvs))) = sort_key fst (sort_key fst (?K (?K kvs)))"
    by (simp only: sort_key_map_fst)
  also have "\<dots> = sort_key fst (?K kvs)"
    by (simp only: inner sort_key_sorted sorted_sort_key)
  finally show ?case by simp
qed auto

lemma map_of_insort_key:
  "k \<notin> fst ` set xs \<Longrightarrow> map_of (insort_key fst (k, v) xs) = (map_of xs)(k \<mapsto> v)"
  by (induction xs) (auto simp: fun_eq_iff)

lemma map_of_sort_key:
  "distinct (map fst kvs) \<Longrightarrow> map_of (sort_key fst kvs) = map_of kvs"
  by (induction kvs) (auto simp: map_of_insort_key)

lemma map_of_sorted_payload:
  "distinct (map fst kvs) \<Longrightarrow>
     map_of (sorted_payload kvs) k = map_option canonical (map_of kvs k)"
proof -
  assume "distinct (map fst kvs)"
  moreover have "map_of (map (\<lambda>(k, v). (k, canonical v)) kvs) k = map_option canonical (map_of kvs k)"
    by (induction kvs) auto
  ultimately show ?thesis
    by (simp add: sorted_payload_def map_of_sort_key comp_def case_prod_beta')
qed

lemma keys_sorted_payload [simp]: "fst ` set (sorted_payload kvs) = fst ` set kvs"
  by (force simp: sorted_payload_def)

lemma distinct_sorted_payload:
  "distinct (map fst kvs) \<Longrightarrow> distinct (map fst (sorted_payload kvs))"
proof -
  have sort: "distinct (map fst (sort_key fst xs)) \<longleftrightarrow> distinct (map fst xs)"
    for xs :: "(string \<times> json) list"
    by (induction xs) (simp_all add: distinct_insort_key)
  assume "distinct (map fst kvs)"
  then show ?thesis
    by (simp add: sorted_payload_def sort comp_def case_prod_beta')
qed

lemma sorted_payload_idem [simp]: "sorted_payload (sorted_payload kvs) = sorted_payload kvs"
  using canonical_idem [of "JObj kvs"] by (simp add: canonical_JObj del: canonical_idem canonical.simps)

lemma first_occurrences_distinct: "distinct xs \<Longrightarrow> first_occurrences xs = xs"
  by (induction xs) (auto simp: filter_id_conv)

lemma length_first_occurrences:
  "length xs = length (first_occurrences xs) \<longleftrightarrow> distinct xs"
  by (metis card_distinct distinct_card distinct_first_occurrences set_first_occurrences
      first_occurrences_distinct)

lemma map_of_dict_of: "map_of (dict_of kvs) = map_of (rev kvs)"
  unfolding dict_of_def by (rule map_of_map_keys) (simp add: dom_map_of_conv_image_fst)

lemma dict_of_distinct: "distinct (map fst kvs) \<Longrightarrow> dict_of kvs = kvs"
proof -
  assume d: "distinct (map fst kvs)"
  then have "map_of (rev kvs) k = Some v" if "(k, v) \<in> set kvs" for k v
    using that by (intro map_of_is_SomeI) (simp_all add: rev_map [symmetric])
  then show ?thesis
    using d by (auto simp: dict_of_def first_occurrences_distinct intro!: map_idI)
qed

lemma canonical_JObj_cong:
  "map (\<lambda>(k, v). (k, canonical v)) kvs = map (\<lambda>(k, v). (k, canonical v)) kvs'
     \<Longrightarrow> canonical (JObj kvs) = canonical (JObj kvs')"
  by (simp only: canonical.simps)

lemma canonical_sorted_payload: "canonical (JObj (sorted_payload kvs)) = canonical (JObj kvs)"
  by (simp add: canonical_JObj del: canonical.simps(2))

end
