(* ===== verification/Job_Requests.thy ===== *)
theory Job_Requests
  imports Json_Documents
begin

text \<open>
  Background analysis jobs (\<open>platform/src/mineguard/jobs.py\<close>), the requests: the models
  \<open>AnalysisWindow\<close> and \<open>AnalysisJobRequest\<close> with their validators, the canonical JSON of
  \<open>casework.py\<close>, \<open>model_dump(mode="json")\<close> and \<open>model_validate_json\<close>, and the round trip
  between them.

  Texts are lists of characters whose white space is that of ASCII. A Python dict with text
  keys is the association list of its items in insertion order; its keys are distinct.
\<close>

section \<open>Requests\<close>

record analysis_window =
  w_window_id :: string
  w_mine_id :: string
  w_payload :: "(string \<times> json) list"

record job_request =
  q_idempotency_key :: string
  q_requested_by :: string
  q_windows :: "analysis_window list"
  q_parent_job_id :: "string option"

text \<open>
  \<open>str_strip_whitespace\<close> of \<open>StrictModel\<close>: every text field, and every key of the payload,
  loses its leading and trailing white space before its length is checked.
\<close>

definition is_space :: "char \<Rightarrow> bool" where
  "is_space c \<longleftrightarrow> of_char c \<in> {9, 10, 11, 12, 13, 32 :: nat}"

definition strip_space :: "string \<Rightarrow> string" where
  "strip_space s = rev (dropWhile is_space (rev (dropWhile is_space s)))"

text \<open>What the validators guarantee of the objects they return.\<close>

definition clean_text :: "string \<Rightarrow> bool" where
  "clean_text s \<longleftrightarrow> strip_space s = s \<and> s \<noteq> []"

definition valid_window :: "analysis_window \<Rightarrow> bool" where
  "valid_window w \<longleftrightarrow> clean_text (w_window_id w) \<and> clean_text (w_mine_id w)
     \<and> distinct (map fst (w_payload w)) \<and> (\<forall>k \<in> set (map fst (w_payload w)). strip_space k = k)"

definition valid_job_request :: "job_request \<Rightarrow> bool" where
  "valid_job_request q \<longleftrightarrow>
     clean_text (q_idempotency_key q) \<and> length (q_idempotency_key q) \<le> 200
     \<and> clean_text (q_requested_by q)
     \<and> (case q_parent_job_id q of None \<Rightarrow> True | Some p \<Rightarrow> strip_space p = p)
     \<and> q_windows q \<noteq> [] \<and> length (q_windows q) \<le> 5000
     \<and> (\<forall>w \<in> set (q_windows q). valid_window w)
     \<and> distinct (map w_window_id (q_windows q))"

section \<open>Writing and reading a request\<close>

definition dump_window :: "analysis_window \<Rightarrow> json" where
  "dump_window w = JObj
     [(''window_id'', JStr (w_window_id w)),
      (''mine_id'', JStr (w_mine_id w)),
      (''payload'', JObj (w_payload w))]"

definition dump_request :: "job_request \<Rightarrow> json" where
  "dump_request q = JObj
     [(''idempotency_key'', JStr (q_idempotency_key q)),
      (''requested_by'', JStr (q_requested_by q)),
      (''windows'', JArr (map dump_window (q_windows q))),
      (''parent_job_id'', json_opt (q_parent_job_id q))]"

definition parse_text :: "nat \<Rightarrow> nat option \<Rightarrow> json \<Rightarrow> string option" where
  "parse_text least most j =
     (case j of
        JStr s \<Rightarrow>
          (let t = strip_space s
           in if least \<le> length t \<and> (case most of None \<Rightarrow> True | Some n \<Rightarrow> length t \<le> n)
              then Some t else None)
      | _ \<Rightarrow> None)"

definition parse_optional_text :: "json \<Rightarrow> string option option" where
  "parse_optional_text j =
     (case j of JNull \<Rightarrow> Some None | JStr s \<Rightarrow> Some (Some (strip_space s)) | _ \<Rightarrow> None)"

definition parse_dict :: "json \<Rightarrow> (string \<times> json) list option" where
  "parse_dict j =
     (case j of JObj kvs \<Rightarrow> Some (dict_of (map (\<lambda>(k, v). (strip_space k, v)) kvs)) | _ \<Rightarrow> None)"

definition all_some :: "'a option list \<Rightarrow> 'a list option" where
  "all_some xs = (if None \<in> set xs then None else Some (map the xs))"

text \<open>\<open>extra="forbid"\<close>: an object with any other key is refused.\<close>

definition only_keys :: "string list \<Rightarrow> (string \<times> json) list \<Rightarrow> bool" where
  "only_keys ks kvs \<longleftrightarrow> set (map fst kvs) \<subseteq> set ks"

definition parse_window :: "json \<Rightarrow> analysis_window option" where
  "parse_window j =
     (case j of
        JObj kvs \<Rightarrow>
          if only_keys [''window_id'', ''mine_id'', ''payload''] kvs
          then Option.bind (Option.bind (map_of kvs ''window_id'') (parse_text 1 None)) (\<lambda>i.
               Option.bind (Option.bind (map_of kvs ''mine_id'') (parse_text 1 None)) (\<lambda>m.
               Option.bind (Option.bind (map_of kvs ''payload'') parse_dict) (\<lambda>p.
               Some \<lparr>w_window_id = i, w_mine_id = m, w_payload = p\<rparr>)))
          else None
      | _ \<Rightarrow> None)"

definition parse_windows :: "json \<Rightarrow> analysis_window list option" where
  "parse_windows j =
     (case j of
        JArr xs \<Rightarrow>
          if 1 \<le> length xs \<and> length xs \<le> 5000 then all_some (map parse_window xs) else None
      | _ \<Rightarrow> None)"

definition validate_window_ids :: "job_request \<Rightarrow> job_request option" where
  "validate_window_ids q =
     (let window_ids = map w_window_id (q_windows q)
      in if length window_ids \<noteq> length (first_occurrences window_ids) then None else Some q)"

definition parse_request :: "json \<Rightarrow> job_request option" where
  "parse_request j =
     (case j of
        JObj kvs \<Rightarrow>
          if only_keys [''idempotency_key'', ''requested_by'', ''windows'', ''parent_job_id''] kvs
          then Option.bind
                 (Option.bind (map_of kvs ''idempotency_key'') (parse_text 1 (Some 200))) (\<lambda>k.
               Option.bind (Option.bind (map_of kvs ''requested_by'') (parse_text 1 None)) (\<lambda>a.
               Option.bind (Option.bind (map_of kvs ''windows'') parse_windows) (\<lambda>ws.
               Option.bind (case map_of kvs ''parent_job_id'' of
                              None \<Rightarrow> Some None | Some p \<Rightarrow> parse_optional_text p) (\<lambda>p.
               validate_window_ids
                 \<lparr>q_idempotency_key = k, q_requested_by = a, q_windows = ws,
                  q_parent_job_id = p\<rparr>))))
          else None
      | _ \<Rightarrow> None)"

text \<open>The request as it comes back: the items of its payloads are in the stored order.\<close>

definition sorted_request :: "job_request \<Rightarrow> job_request" where
  "sorted_request q =
     q\<lparr>q_windows := map (\<lambda>w. w\<lparr>w_payload := sorted_payload (w_payload w)\<rparr>) (q_windows q)\<rparr>"

section \<open>The round trip\<close>

lemma only_keys_sorted [simp]: "only_keys ks (sorted_payload kvs) = only_keys ks kvs"
  by (simp add: only_keys_def sorted_payload_def image_image case_prod_beta')

lemma all_some_map:
  "(\<And>x. x \<in> set xs \<Longrightarrow> f x = Some (g x)) \<Longrightarrow> all_some (map f xs) = Some (map g xs)"
  by (auto simp: all_some_def)

lemma parse_clean: "clean_text s \<Longrightarrow> parse_text (Suc 0) None (JStr s) = Some s"
  by (auto simp: parse_text_def clean_text_def Let_def Suc_le_eq)

lemma parse_clean_bounded:
  "clean_text s \<Longrightarrow> length s \<le> n \<Longrightarrow> parse_text (Suc 0) (Some n) (JStr s) = Some s"
  by (auto simp: parse_text_def clean_text_def Let_def Suc_le_eq)

lemma strip_keys_id:
  "\<forall>k \<in> set (map fst kvs). strip_space k = k \<Longrightarrow> map (\<lambda>(k, v). (strip_space k, v)) kvs = kvs"
  by (auto intro!: map_idI)

lemma parse_dumped_window:
  assumes "valid_window w"
  shows "parse_window (canonical (dump_window w)) = Some (w\<lparr>w_payload := sorted_payload (w_payload w)\<rparr>)"
proof -
  have p: "parse_dict (JObj (sorted_payload (w_payload w))) = Some (sorted_payload (w_payload w))"
    using assms
    by (simp add: valid_window_def parse_dict_def strip_keys_id dict_of_distinct distinct_sorted_payload)
  show ?thesis
    using assms p
    by (simp add: dump_window_def canonical_JObj parse_window_def map_of_sorted_payload only_keys_def
        valid_window_def parse_clean del: canonical.simps(2))
qed

lemma parse_dumped_request:
  assumes "valid_job_request q"
  shows "parse_request (canonical (dump_request q)) = Some (sorted_request q)"
proof -
  have ws: "parse_windows (JArr (map (canonical \<circ> dump_window) (q_windows q)))
      = Some (q_windows (sorted_request q))"
    using assms
    by (auto simp: parse_windows_def valid_job_request_def sorted_request_def Suc_le_eq
        intro!: all_some_map parse_dumped_window)
  have "canonical (json_opt p) = json_opt p" for p
    by (cases p) (simp_all add: json_opt_def)
  moreover have "parse_optional_text (json_opt (q_parent_job_id q)) = Some (q_parent_job_id q)"
    using assms
    by (cases "q_parent_job_id q") (auto simp: parse_optional_text_def json_opt_def valid_job_request_def)
  moreover have "validate_window_ids \<lparr>q_idempotency_key = q_idempotency_key q,
      q_requested_by = q_requested_by q, q_windows = q_windows (sorted_request q),
      q_parent_job_id = q_parent_job_id q\<rparr> = Some (sorted_request q)"
    using assms
    by (simp add: validate_window_ids_def length_first_occurrences sorted_request_def comp_def
        valid_job_request_def)
  ultimately show ?thesis
    using assms ws
    by (simp add: dump_request_def canonical_JObj parse_request_def map_of_sorted_payload only_keys_def
        valid_job_request_def parse_clean parse_clean_bounded del: canonical.simps(2))
qed

lemma canonical_dump_sorted [simp]:
  "canonical (dump_request (sorted_request q)) = canonical (dump_request q)"
proof -
  have "canonical (dump_window (w\<lparr>w_payload := sorted_payload (w_payload w)\<rparr>)) = canonical (dump_window w)"
    for w
    unfolding dump_window_def
    by (rule canonical_JObj_cong) (simp add: canonical_sorted_payload del: canonical.simps(2))
  then show ?thesis
    unfolding dump_request_def
    by (intro canonical_JObj_cong) (simp add: sorted_request_def del: canonical.simps(2))
qed

lemma valid_sorted_request:
  assumes "valid_job_request q"
  shows "valid_job_request (sorted_request q)"
proof -
  have "valid_window (w\<lparr>w_payload := sorted_payload (w_payload w)\<rparr>)" if "valid_window w" for w
    using that by (simp add: valid_window_def distinct_sorted_payload del: set_map) simp
  then show ?thesis
    using assms by (auto simp: valid_job_request_def sorted_request_def comp_def)
qed

end
