(* ===== verification/Job_Store.thy ===== *)
theory Job_Store
  imports Job_Requests
begin

text \<open>
  The job repository (\<open>JobRepository\<close> of \<open>platform/src/mineguard/jobs.py\<close>): the tables
  \<open>analysis_jobs\<close> and \<open>analysis_job_windows\<close>, and every method that reads or writes them. Each
  method runs under the lock in one database transaction (\<open>locked\<close>), so it is one atomic
  step; \<open>now\<close> is the value of the clock it reads. Texts read back through the strict models
  lose their outer white space; columns that hold hashes, identifiers and instants have none.
\<close>

section \<open>Tables\<close>

datatype job_status =
    Job_Queued | Job_Running | Job_Succeeded | Job_Partial_Failed | Job_Failed | Job_Cancelled

definition terminal_job_statuses :: "job_status list" where
  "terminal_job_statuses = [Job_Succeeded, Job_Partial_Failed, Job_Failed, Job_Cancelled]"

datatype window_status =
    Window_Queued | Window_Running | Window_Succeeded | Window_Failed | Window_Cancelled

record job_row =
  j_id :: string
  j_key :: string
  j_requested_by :: string
  j_parent :: "string option"
  j_status :: job_status
  j_request_sha :: string
  j_request :: json
  j_total :: nat
  j_completed :: nat
  j_succeeded :: nat
  j_failed :: nat
  j_cancelled :: nat
  j_attempt :: nat
  j_cancel_requested :: bool
  j_created :: string
  j_started :: "string option"
  j_finished :: "string option"
  j_updated :: string
  j_archived_at :: "string option"
  j_archived_by :: "string option"
  j_archived_reason :: "string option"

record window_row =
  v_job :: string
  v_window :: string
  v_position :: nat
  v_mine :: string
  v_status :: window_status
  v_attempt :: nat
  v_payload_sha :: string
  v_payload :: json
  v_result_sha :: "string option"
  v_result :: "json option"
  v_error_code :: "string option"
  v_error_summary :: "string option"
  v_started :: "string option"
  v_finished :: "string option"

record job_tables =
  jobs :: "job_row list"
  windows :: "window_row list"

datatype job_error =
    Job_Conflict | Job_Not_Found | Job_Capacity | Job_State string
  | Invalid_Value string | Integrity_Error

type_synonym 'a jop = "(job_tables, job_error, 'a) op"

text \<open>SHA-256 in hexadecimal, of the canonical text of a document and of a text.\<close>

record job_env =
  digest_document :: "json \<Rightarrow> string"
  digest_text :: "string \<Rightarrow> string"

definition job_sha256_json :: "job_env \<Rightarrow> json \<Rightarrow> string" where
  "job_sha256_json env v = digest_document env (canonical v)"

definition job_id_of :: "job_env \<Rightarrow> string \<Rightarrow> string \<Rightarrow> string" where
  "job_id_of env key request_hash =
     ''job_'' @ take 24 (digest_text env (key @ [char_of (31 :: nat)] @ request_hash))"

section \<open>Records that are returned\<close>

record window_outcome =
  o_window :: string
  o_mine :: string
  o_status :: window_status
  o_attempt :: nat
  o_payload_sha :: string
  o_result_sha :: "string option"
  o_result :: "(string \<times> json) list option"
  o_error_code :: "string option"
  o_error_summary :: "string option"
  o_started :: "string option"
  o_finished :: "string option"

record job_record =
  r_job :: job_row
  r_outcomes :: "window_outcome list"

definition outcome_of_row :: "window_row \<Rightarrow> window_outcome" where
  "outcome_of_row w =
     \<lparr>o_window = v_window w, o_mine = v_mine w, o_status = v_status w, o_attempt = v_attempt w,
      o_payload_sha = v_payload_sha w, o_result_sha = v_result_sha w,
      o_result = Option.bind (v_result w) parse_dict,
      o_error_code = map_option strip_space (v_error_code w),
      o_error_summary = map_option strip_space (v_error_summary w),
      o_started = v_started w, o_finished = v_finished w\<rparr>"

text \<open>\<open>_record\<close> copies the columns of the job's row except its request document.\<close>

definition record_of :: "job_row \<Rightarrow> window_row list \<Rightarrow> job_record" where
  "record_of row window_rows =
     \<lparr>r_job = row\<lparr>j_request := JNull\<rparr>, r_outcomes = map outcome_of_row window_rows\<rparr>"

section \<open>Statements\<close>

definition locked :: "'a jop \<Rightarrow> 'a jop" where
  "locked m = transaction (\<lambda>_. False) (\<lambda>before _. before) m"

definition update_jobs :: "(job_row \<Rightarrow> bool) \<Rightarrow> (job_row \<Rightarrow> job_row) \<Rightarrow> job_tables \<Rightarrow> job_tables" where
  "update_jobs p f s = s\<lparr>jobs := map (\<lambda>r. if p r then f r else r) (jobs s)\<rparr>"

definition update_windows ::
    "(window_row \<Rightarrow> bool) \<Rightarrow> (window_row \<Rightarrow> window_row) \<Rightarrow> job_tables \<Rightarrow> job_tables" where
  "update_windows p f s = s\<lparr>windows := map (\<lambda>w. if p w then f w else w) (windows s)\<rparr>"

text \<open>An update with the number of rows it changed.\<close>

definition update_jobs_count :: "(job_row \<Rightarrow> bool) \<Rightarrow> (job_row \<Rightarrow> job_row) \<Rightarrow> nat jop" where
  "update_jobs_count p f s = (Inr (length (filter p (jobs s))), update_jobs p f s)"

definition update_windows_count ::
    "(window_row \<Rightarrow> bool) \<Rightarrow> (window_row \<Rightarrow> window_row) \<Rightarrow> nat jop" where
  "update_windows_count p f s = (Inr (length (filter p (windows s))), update_windows p f s)"

definition find_job :: "string \<Rightarrow> job_tables \<Rightarrow> job_row option" where
  "find_job i s = find (\<lambda>r. j_id r = i) (jobs s)"

definition windows_of :: "string \<Rightarrow> job_tables \<Rightarrow> window_row list" where
  "windows_of i s = filter (\<lambda>w. v_job w = i) (windows s)"

text \<open>\<open>ORDER BY key LIMIT 1\<close>\<close>

definition first_by :: "('a \<Rightarrow> 'k::linorder) \<Rightarrow> 'a list \<Rightarrow> 'a option" where
  "first_by key xs = (case sort_key key xs of [] \<Rightarrow> None | x # _ \<Rightarrow> Some x)"

definition job_clash :: "job_row \<Rightarrow> job_row \<Rightarrow> bool" where
  "job_clash r q \<longleftrightarrow> j_id r = j_id q \<or> j_key r = j_key q"

definition window_clash :: "window_row \<Rightarrow> window_row \<Rightarrow> bool" where
  "window_clash w v \<longleftrightarrow> v_job w = v_job v \<and> v_window w = v_window v"

definition insert_job :: "job_row \<Rightarrow> unit jop" where
  "insert_job r s =
     (case insert_row job_clash r (jobs s) of
        None \<Rightarrow> (Inl Integrity_Error, s)
      | Some rows \<Rightarrow> (Inr (), s\<lparr>jobs := rows\<rparr>))"

definition insert_window :: "window_row \<Rightarrow> unit jop" where
  "insert_window w s =
     (case insert_row window_clash w (windows s) of
        None \<Rightarrow> (Inl Integrity_Error, s)
      | Some rows \<Rightarrow> (Inr (), s\<lparr>windows := rows\<rparr>))"

section \<open>Reads\<close>

definition get_job :: "string \<Rightarrow> job_record jop" where
  "get_job i s =
     (case find_job i s of
        None \<Rightarrow> (Inl Job_Not_Found, s)
      | Some row \<Rightarrow> (Inr (record_of row (sort_key v_position (windows_of i s))), s))"

definition get_request :: "string \<Rightarrow> job_request jop" where
  "get_request i s =
     (case find_job i s of
        None \<Rightarrow> (Inl Job_Not_Found, s)
      | Some row \<Rightarrow>
          (case parse_request (j_request row) of
             None \<Rightarrow> (Inl (Invalid_Value ''validation error''), s)
           | Some q \<Rightarrow> (Inr q, s)))"

text \<open>\<open>ORDER BY created_at DESC\<close>; jobs of one instant come in reverse order of insertion.\<close>

definition list_jobs :: "int \<Rightarrow> bool \<Rightarrow> job_record list jop" where
  "list_jobs limit include_archived s =
     map_each (\<lambda>r. get_job (j_id r))
       (take (nat (max 1 (min limit 500)))
         (rev (sort_key j_created
           (filter (\<lambda>r. include_archived \<or> j_archived_at r = None) (jobs s))))) s"

definition cancellation_requested :: "string \<Rightarrow> bool jop" where
  "cancellation_requested i s =
     (case find_job i s of
        None \<Rightarrow> (Inl Job_Not_Found, s) | Some row \<Rightarrow> (Inr (j_cancel_requested row), s))"

definition next_queued_window :: "string \<Rightarrow> job_tables \<Rightarrow> (string \<times> json) option" where
  "next_queued_window i s =
     map_option (\<lambda>w. (v_window w, v_payload w))
       (first_by v_position (filter (\<lambda>w. v_status w = Window_Queued) (windows_of i s)))"

section \<open>Submission\<close>

definition new_job :: "job_env \<Rightarrow> string \<Rightarrow> job_request \<Rightarrow> job_row" where
  "new_job env now q =
     (let request_hash = job_sha256_json env (dump_request q)
      in \<lparr>j_id = job_id_of env (q_idempotency_key q) request_hash,
          j_key = q_idempotency_key q, j_requested_by = q_requested_by q,
          j_parent = q_parent_job_id q, j_status = Job_Queued, j_request_sha = request_hash,
          j_request = canonical (dump_request q), j_total = length (q_windows q),
          j_completed = 0, j_succeeded = 0, j_failed = 0, j_cancelled = 0, j_attempt = 0,
          j_cancel_requested = False, j_created = now, j_started = None, j_finished = None,
          j_updated = now, j_archived_at = None, j_archived_by = None,
          j_archived_reason = None\<rparr>)"

definition new_window :: "job_env \<Rightarrow> string \<Rightarrow> nat \<times> analysis_window \<Rightarrow> window_row" where
  "new_window env i = (\<lambda>(position, w).
     \<lparr>v_job = i, v_window = w_window_id w, v_position = position, v_mine = w_mine_id w,
      v_status = Window_Queued, v_attempt = 0,
      v_payload_sha = job_sha256_json env (JObj (w_payload w)),
      v_payload = canonical (JObj (w_payload w)), v_result_sha = None, v_result = None,
      v_error_code = None, v_error_summary = None, v_started = None, v_finished = None\<rparr>)"

definition pending_jobs :: "job_tables \<Rightarrow> job_row list" where
  "pending_jobs s = filter (\<lambda>r. j_status r \<in> {Job_Queued, Job_Running}) (jobs s)"

definition submit_job :: "job_env \<Rightarrow> nat \<Rightarrow> string \<Rightarrow> job_request \<Rightarrow> (job_record \<times> bool) jop" where
  "submit_job env max_pending now q =
     (let request_hash = job_sha256_json env (dump_request q);
          i = job_id_of env (q_idempotency_key q) request_hash
      in bind (locked
           (bind (reading (\<lambda>s. find (\<lambda>r. j_key r = q_idempotency_key q) (jobs s))) (\<lambda>existing.
            case existing of
              Some r \<Rightarrow>
                bind (require (j_request_sha r = request_hash) Job_Conflict) (\<lambda>_.
                bind (get_job (j_id r)) (\<lambda>rec. ret (Some rec)))
            | None \<Rightarrow>
                bind (reading (\<lambda>s. length (pending_jobs s))) (\<lambda>pending.
                bind (require (pending < max_pending) Job_Capacity) (\<lambda>_.
                bind (insert_job (new_job env now q)) (\<lambda>_.
                bind (for_each (\<lambda>pw. insert_window (new_window env i pw))
                        (enumerate 0 (q_windows q))) (\<lambda>_.
                ret None)))))))
         (\<lambda>found.
            case found of
              Some rec \<Rightarrow> ret (rec, False)
            | None \<Rightarrow> bind (get_job i) (\<lambda>rec. ret (rec, True))))"

section \<open>Counters and cancellation\<close>

definition window_count :: "(window_status \<Rightarrow> bool) \<Rightarrow> string \<Rightarrow> job_tables \<Rightarrow> nat" where
  "window_count p i s = length (filter (\<lambda>w. p (v_status w)) (windows_of i s))"

definition window_terminal :: "window_status \<Rightarrow> bool" where
  "window_terminal x \<longleftrightarrow> x \<in> {Window_Succeeded, Window_Failed, Window_Cancelled}"

definition refresh_counts :: "string \<Rightarrow> string \<Rightarrow> job_tables \<Rightarrow> job_tables" where
  "refresh_counts i now s =
     update_jobs (\<lambda>r. j_id r = i)
       (\<lambda>r. r\<lparr>j_completed := window_count window_terminal i s,
              j_succeeded := window_count (\<lambda>x. x = Window_Succeeded) i s,
              j_failed := window_count (\<lambda>x. x = Window_Failed) i s,
              j_cancelled := window_count (\<lambda>x. x = Window_Cancelled) i s,
              j_updated := now\<rparr>) s"

definition cancel_open_windows :: "string \<Rightarrow> string \<Rightarrow> job_tables \<Rightarrow> job_tables" where
  "cancel_open_windows i now s =
     update_jobs (\<lambda>r. j_id r = i)
       (\<lambda>r. r\<lparr>j_status := Job_Cancelled, j_finished := Some now, j_updated := now\<rparr>)
       (refresh_counts i now
         (update_windows (\<lambda>w. v_job w = i \<and> v_status w \<in> {Window_Queued, Window_Running})
            (\<lambda>w. w\<lparr>v_status := Window_Cancelled, v_finished := Some now\<rparr>) s))"

definition cancel_remaining :: "string \<Rightarrow> string \<Rightarrow> unit jop" where
  "cancel_remaining now i = locked (writing (cancel_open_windows i now))"

definition cancel_job :: "string \<Rightarrow> string \<Rightarrow> job_record jop" where
  "cancel_job now i =
     bind (locked
       (bind (reading (find_job i)) (\<lambda>found.
        case found of
          None \<Rightarrow> raise Job_Not_Found
        | Some row \<Rightarrow>
            bind (require (j_status row \<in> {Job_Queued, Job_Running})
                    (Job_State ''only queued or running jobs can be cancelled'')) (\<lambda>_.
            bind (writing (update_jobs (\<lambda>r. j_id r = i)
                    (\<lambda>r. r\<lparr>j_cancel_requested := True, j_updated := now\<rparr>))) (\<lambda>_.
            if j_status row = Job_Queued then writing (cancel_open_windows i now)
            else ret ())))))
     (\<lambda>_. get_job i)"

section \<open>Archiving\<close>

definition archive_job :: "string \<Rightarrow> string \<Rightarrow> bool \<Rightarrow> string \<Rightarrow> string \<Rightarrow> job_record jop" where
  "archive_job now i archived archived_by reason =
     (let actor = python_strip archived_by; normalized_reason = python_strip reason
      in bind (require (actor \<noteq> [] \<and> length actor \<le> 100)
                 (Invalid_Value ''archived_by must be 1 to 100 characters'')) (\<lambda>_.
         bind (require (normalized_reason \<noteq> [] \<and> length normalized_reason \<le> 500)
                 (Invalid_Value ''reason must be 1 to 500 characters'')) (\<lambda>_.
         bind (locked
           (bind (reading (find_job i)) (\<lambda>found.
            case found of
              None \<Rightarrow> raise Job_Not_Found
            | Some row \<Rightarrow>
                bind (require (j_status row \<in> set terminal_job_statuses)
                        (Job_State ''only terminal jobs can be archived'')) (\<lambda>_.
                bind (require (archived \<noteq> (j_archived_at row \<noteq> None))
                        (Job_State (''analysis job is already '' @
                           (if archived then ''archived'' else ''active'')))) (\<lambda>_.
                writing (update_jobs (\<lambda>r. j_id r = i)
                  (if archived
                   then (\<lambda>r. r\<lparr>j_archived_at := Some now, j_archived_by := Some actor,
                               j_archived_reason := Some normalized_reason, j_updated := now\<rparr>)
                   else (\<lambda>r. r\<lparr>j_archived_at := None, j_archived_by := None,
                               j_archived_reason := None, j_updated := now\<rparr>))))))))
         (\<lambda>_. get_job i))))"

section \<open>The worker's statements\<close>

definition recover_interrupted :: "string \<Rightarrow> nat jop" where
  "recover_interrupted now = locked
     (bind (reading (\<lambda>s. map j_id (filter (\<lambda>r. j_status r = Job_Running) (jobs s)))) (\<lambda>job_ids.
      bind (for_each (\<lambda>i.
              bind (writing (update_windows (\<lambda>w. v_job w = i \<and> v_status w = Window_Running)
                      (\<lambda>w. w\<lparr>v_status := Window_Queued, v_started := None\<rparr>))) (\<lambda>_.
              writing (update_jobs (\<lambda>r. j_id r = i)
                (\<lambda>r. r\<lparr>j_status := Job_Queued, j_started := None, j_updated := now\<rparr>))))
            job_ids) (\<lambda>_.
      ret (length job_ids))))"

definition claim_next :: "string \<Rightarrow> string option jop" where
  "claim_next now = locked
     (bind (reading (\<lambda>s. first_by j_created (filter (\<lambda>r. j_status r = Job_Queued) (jobs s)))) (\<lambda>found.
      case found of
        None \<Rightarrow> ret None
      | Some row \<Rightarrow>
          bind (update_jobs_count (\<lambda>r. j_id r = j_id row \<and> j_status r = Job_Queued)
                  (\<lambda>r. r\<lparr>j_status := Job_Running, j_attempt := Suc (j_attempt r),
                         j_started := (case j_started r of None \<Rightarrow> Some now | Some t \<Rightarrow> Some t),
                         j_updated := now\<rparr>)) (\<lambda>rowcount.
          ret (if rowcount \<noteq> 1 then None else Some (j_id row)))))"

definition start_window :: "string \<Rightarrow> string \<Rightarrow> string \<Rightarrow> unit jop" where
  "start_window now i w = locked
     (bind (update_windows_count
              (\<lambda>v. v_job v = i \<and> v_window v = w \<and> v_status v = Window_Queued)
              (\<lambda>v. v\<lparr>v_status := Window_Running, v_attempt := Suc (v_attempt v),
                     v_started := Some now, v_finished := None,
                     v_error_code := None, v_error_summary := None\<rparr>)) (\<lambda>rowcount.
      require (rowcount = 1) (Job_State ''window is not queued'')))"

definition finish_window_success ::
    "job_env \<Rightarrow> string \<Rightarrow> string \<Rightarrow> string \<Rightarrow> (string \<times> json) list \<Rightarrow> unit jop" where
  "finish_window_success env now i w result = locked
     (bind (update_windows_count
              (\<lambda>v. v_job v = i \<and> v_window v = w \<and> v_status v = Window_Running)
              (\<lambda>v. v\<lparr>v_status := Window_Succeeded,
                     v_result_sha := Some (job_sha256_json env (JObj result)),
                     v_result := Some (canonical (JObj result)), v_finished := Some now\<rparr>)) (\<lambda>rowcount.
      bind (require (rowcount = 1) (Job_State ''window is not running'')) (\<lambda>_.
      writing (refresh_counts i now))))"

definition finish_window_failure ::
    "string \<Rightarrow> string \<Rightarrow> string \<Rightarrow> string \<Rightarrow> string \<Rightarrow> unit jop" where
  "finish_window_failure now i w error_code error_summary = locked
     (bind (update_windows_count
              (\<lambda>v. v_job v = i \<and> v_window v = w \<and> v_status v = Window_Running)
              (\<lambda>v. v\<lparr>v_status := Window_Failed, v_error_code := Some (take 100 error_code),
                     v_error_summary := Some (take 500 error_summary),
                     v_finished := Some now\<rparr>)) (\<lambda>rowcount.
      bind (require (rowcount = 1) (Job_State ''window is not running'')) (\<lambda>_.
      writing (refresh_counts i now))))"

definition final_status :: "job_row \<Rightarrow> job_status" where
  "final_status row =
     (if j_failed row = 0 \<and> j_succeeded row = j_total row then Job_Succeeded
      else if j_succeeded row = 0 then Job_Failed else Job_Partial_Failed)"

definition finalize_job :: "string \<Rightarrow> string \<Rightarrow> job_record jop" where
  "finalize_job now i =
     bind (locked
       (bind (reading (find_job i)) (\<lambda>found.
        case found of
          None \<Rightarrow> raise Job_Not_Found
        | Some row \<Rightarrow>
            if j_cancel_requested row then writing (cancel_open_windows i now)
            else
              bind (require (j_completed row = j_total row)
                      (Job_State ''job still has unfinished windows'')) (\<lambda>_.
              writing (update_jobs (\<lambda>r. j_id r = i \<and> j_status r = Job_Running)
                (\<lambda>r. r\<lparr>j_status := final_status row, j_finished := Some now,
                       j_updated := now\<rparr>))))))
     (\<lambda>_. get_job i)"

definition requeue_running :: "string \<Rightarrow> string \<Rightarrow> unit jop" where
  "requeue_running now i = locked
     (bind (writing (update_windows (\<lambda>w. v_job w = i \<and> v_status w = Window_Running)
              (\<lambda>w. w\<lparr>v_status := Window_Queued, v_started := None\<rparr>))) (\<lambda>_.
      writing (update_jobs (\<lambda>r. j_id r = i \<and> j_status r = Job_Running)
        (\<lambda>r. r\<lparr>j_status := Job_Queued, j_started := None, j_updated := now\<rparr>))))"

end
