(* ===== verification/Job_Manager.thy ===== *)
theory Job_Manager
  imports Job_Store
begin

text \<open>
  The job manager (\<open>JobManager\<close> of \<open>platform/src/mineguard/jobs.py\<close>): the calls of the request
  threads, and the worker thread as a machine whose states are the points of \<open>_worker\<close> and
  \<open>_run_job\<close> between two accesses to the shared repository, the stop event and the analysis
  operation. An \<open>action\<close> is one such access, by any thread, or the death of the process; the
  states of \<open>manager_reachable\<close> are those of all interleavings. The analysis operation is code outside
  the module: what a call of it comes to is part of the action.
\<close>

section \<open>The worker\<close>

text \<open>
  A call of \<open>operation\<close> returns a dict that can be written as JSON, a dict that cannot, or
  something else, or raises \<open>PublicJobError\<close> or another exception.
\<close>

datatype operation_outcome =
    Result "(string \<times> json) list" | Unserialisable | Not_A_Dict
  | Public_Error string string | Other_Error

datatype worker =
    Down
  | Poll
  | Claim
  | Loop string
  | Ask string
  | Cancel_Rest string
  | Fetch string
  | Finalize string
  | Begin string string json
  | Compute string string json
  | Store_Result string string "(string \<times> json) list"
  | Store_Failure string string string string
  | Requeue string

text \<open>A repository call in the \<open>try\<close> of \<open>_run_job\<close>: any exception leads to \<open>requeue_running\<close>.\<close>

definition guarded ::
    "string \<Rightarrow> 'a jop \<Rightarrow> ('a \<Rightarrow> worker) \<Rightarrow> job_tables \<Rightarrow> worker \<times> job_tables" where
  "guarded i m after s =
     (case m s of (Inl _, t) \<Rightarrow> (Requeue i, t) | (Inr a, t) \<Rightarrow> (after a, t))"

definition after_compute :: "string \<Rightarrow> string \<Rightarrow> operation_outcome \<Rightarrow> worker" where
  "after_compute i w out =
     (case out of
        Result d \<Rightarrow> Store_Result i w d
      | Unserialisable \<Rightarrow> Store_Failure i w ''analysis_failed'' ''analysis window failed''
      | Not_A_Dict \<Rightarrow>
          Store_Failure i w ''invalid_result'' ''analysis operation returned an invalid result''
      | Public_Error code summary \<Rightarrow> Store_Failure i w code summary
      | Other_Error \<Rightarrow> Store_Failure i w ''analysis_failed'' ''analysis window failed'')"

fun worker_step ::
    "job_env \<Rightarrow> bool \<Rightarrow> string \<Rightarrow> operation_outcome \<Rightarrow> worker \<Rightarrow> job_tables \<Rightarrow> worker \<times> job_tables" where
  "worker_step env stop now out Down s = (Down, s)"
| "worker_step env stop now out Poll s = (if stop then Down else Claim, s)"
| "worker_step env stop now out Claim s =
     (case claim_next now s of
        (Inr (Some i), t) \<Rightarrow> (Loop i, t) | (Inr None, t) \<Rightarrow> (Poll, t) | (Inl _, t) \<Rightarrow> (Down, t))"
| "worker_step env stop now out (Loop i) s = (if stop then Requeue i else Ask i, s)"
| "worker_step env stop now out (Ask i) s =
     guarded i (cancellation_requested i) (\<lambda>c. if c then Cancel_Rest i else Fetch i) s"
| "worker_step env stop now out (Cancel_Rest i) s =
     guarded i (cancel_remaining now i) (\<lambda>_. Poll) s"
| "worker_step env stop now out (Fetch i) s =
     (case next_queued_window i s of
        None \<Rightarrow> (Finalize i, s) | Some (w, payload) \<Rightarrow> (Begin i w payload, s))"
| "worker_step env stop now out (Finalize i) s = guarded i (finalize_job now i) (\<lambda>_. Poll) s"
| "worker_step env stop now out (Begin i w payload) s =
     guarded i (start_window now i w) (\<lambda>_. Compute i w payload) s"
| "worker_step env stop now out (Compute i w payload) s = (after_compute i w out, s)"
| "worker_step env stop now out (Store_Result i w d) s =
     (case finish_window_success env now i w d s of
        (Inl _, t) \<Rightarrow> (Store_Failure i w ''analysis_failed'' ''analysis window failed'', t)
      | (Inr _, t) \<Rightarrow> (Loop i, t))"
| "worker_step env stop now out (Store_Failure i w code summary) s =
     guarded i (finish_window_failure now i w code summary) (\<lambda>_. Loop i) s"
| "worker_step env stop now out (Requeue i) s = (Poll, snd (requeue_running now i s))"

section \<open>The manager\<close>

record manager =
  tables :: job_tables
  worker :: worker
  stopping :: bool

text \<open>The request \<open>replay\<close> builds, validated again except for the windows it takes over.\<close>

definition replay_request :: "string \<Rightarrow> string \<Rightarrow> string \<Rightarrow> job_request \<Rightarrow> job_request option" where
  "replay_request i key requested_by original =
     Option.bind (parse_text 1 (Some 200) (JStr key)) (\<lambda>k.
     Option.bind (parse_text 1 None (JStr requested_by)) (\<lambda>a.
     validate_window_ids
       \<lparr>q_idempotency_key = k, q_requested_by = a, q_windows = q_windows original,
        q_parent_job_id = Some (strip_space i)\<rparr>))"

definition replay_job ::
    "job_env \<Rightarrow> nat \<Rightarrow> string \<Rightarrow> string \<Rightarrow> string \<Rightarrow> string \<Rightarrow> (job_record \<times> bool) jop" where
  "replay_job env max_pending now i key requested_by =
     bind (get_request i) (\<lambda>original.
     case replay_request i key requested_by original of
       None \<Rightarrow> raise (Invalid_Value ''validation error'')
     | Some q \<Rightarrow> submit_job env max_pending now q)"

datatype action =
    Submit string job_request
  | Replay string string string string
  | Cancel string string
  | Archive string string bool string string
  | Start_Manager string
  | Stop_Manager
  | Crash
  | Work string operation_outcome

definition is_alive :: "worker \<Rightarrow> bool" where
  "is_alive w \<longleftrightarrow> w \<noteq> Down"

definition start_manager :: "string \<Rightarrow> manager \<Rightarrow> manager" where
  "start_manager now m =
     (if is_alive (worker m) then m
      else \<lparr>tables = snd (recover_interrupted now (tables m)), worker = Poll, stopping = False\<rparr>)"

text \<open>
  A request object exists only when its validators accepted it; otherwise the caller has an
  error and the manager is not called. A process that dies leaves its tables, each
  transaction committed or not begun.
\<close>

fun perform :: "job_env \<Rightarrow> nat \<Rightarrow> action \<Rightarrow> manager \<Rightarrow> manager" where
  "perform env max_pending (Submit now q) m =
     (if valid_job_request q
      then m\<lparr>tables := snd (submit_job env max_pending now q (tables m))\<rparr> else m)"
| "perform env max_pending (Replay now i key requested_by) m =
     m\<lparr>tables := snd (replay_job env max_pending now i key requested_by (tables m))\<rparr>"
| "perform env max_pending (Cancel now i) m = m\<lparr>tables := snd (cancel_job now i (tables m))\<rparr>"
| "perform env max_pending (Archive now i archived actor reason) m =
     m\<lparr>tables := snd (archive_job now i archived actor reason (tables m))\<rparr>"
| "perform env max_pending (Start_Manager now) m = start_manager now m"
| "perform env max_pending Stop_Manager m = m\<lparr>stopping := True\<rparr>"
| "perform env max_pending Crash m = m\<lparr>worker := Down, stopping := False\<rparr>"
| "perform env max_pending (Work now out) m =
     (case worker_step env (stopping m) now out (worker m) (tables m) of
        (w, t) \<Rightarrow> m\<lparr>tables := t, worker := w\<rparr>)"

definition no_jobs :: manager where
  "no_jobs = \<lparr>tables = \<lparr>jobs = [], windows = []\<rparr>, worker = Down, stopping = False\<rparr>"

inductive manager_reachable :: "job_env \<Rightarrow> nat \<Rightarrow> manager \<Rightarrow> bool" for env max_pending where
  manager_reachable_start: "manager_reachable env max_pending no_jobs"
| manager_reachable_perform:
    "manager_reachable env max_pending m \<Longrightarrow> manager_reachable env max_pending (perform env max_pending a m)"

definition perform_all :: "job_env \<Rightarrow> nat \<Rightarrow> action list \<Rightarrow> manager \<Rightarrow> manager" where
  "perform_all env max_pending as m = fold (perform env max_pending) as m"

lemma manager_reachable_perform_all:
  "manager_reachable env n m \<Longrightarrow> manager_reachable env n (perform_all env n as m)"
  unfolding perform_all_def
  by (induction as arbitrary: m) (auto intro: manager_reachable_perform)

end
