(* ===== verification/Job_Invariant.thy ===== *)
theory Job_Invariant
  imports Job_Manager
begin

text \<open>
  What every reachable state of the job manager satisfies. All statements of the repository
  touch the row and the windows of one job (\<open>touch\<close>), so the invariant of the tables is a
  property of each job with its windows (\<open>job_ok\<close>); \<open>worker_ok\<close> ties the tables to the point
  the worker has reached.
\<close>

section \<open>Jobs with their windows\<close>

definition statuses :: "window_row list \<Rightarrow> window_status set" where
  "statuses ws = v_status ` set ws"

definition count_status :: "(window_status \<Rightarrow> bool) \<Rightarrow> window_row list \<Rightarrow> nat" where
  "count_status p ws = length (filter (\<lambda>w. p (v_status w)) ws)"

definition counts_ok :: "job_row \<Rightarrow> window_row list \<Rightarrow> bool" where
  "counts_ok r ws \<longleftrightarrow>
     j_completed r = count_status window_terminal ws
     \<and> j_succeeded r = count_status (\<lambda>x. x = Window_Succeeded) ws
     \<and> j_failed r = count_status (\<lambda>x. x = Window_Failed) ws
     \<and> j_cancelled r = count_status (\<lambda>x. x = Window_Cancelled) ws"

fun status_ok :: "job_status \<Rightarrow> bool \<Rightarrow> window_status set \<Rightarrow> bool" where
  "status_ok Job_Queued c W = (W \<subseteq> {Window_Queued, Window_Succeeded, Window_Failed})"
| "status_ok Job_Running c W = (Window_Cancelled \<notin> W)"
| "status_ok Job_Succeeded c W = (W = {Window_Succeeded})"
| "status_ok Job_Failed c W = (W = {Window_Failed})"
| "status_ok Job_Partial_Failed c W = (W = {Window_Succeeded, Window_Failed})"
| "status_ok Job_Cancelled c W = (c \<and> W \<subseteq> {Window_Succeeded, Window_Failed, Window_Cancelled})"

definition window_source :: "window_row \<Rightarrow> string \<times> string \<times> json" where
  "window_source w = (v_window w, v_mine w, v_payload w)"

definition request_source :: "analysis_window \<Rightarrow> string \<times> string \<times> json" where
  "request_source w = (w_window_id w, w_mine_id w, canonical (JObj (w_payload w)))"

definition source_ok :: "job_env \<Rightarrow> job_row \<Rightarrow> window_row list \<Rightarrow> bool" where
  "source_ok env r ws \<longleftrightarrow>
     (\<exists>q. valid_job_request q \<and> j_request r = canonical (dump_request q)
        \<and> j_request_sha r = job_sha256_json env (dump_request q)
        \<and> j_key r = q_idempotency_key q
        \<and> j_id r = job_id_of env (j_key r) (j_request_sha r)
        \<and> map window_source ws = map request_source (q_windows q))"

definition job_ok :: "job_env \<Rightarrow> job_row \<Rightarrow> window_row list \<Rightarrow> bool" where
  "job_ok env r ws \<longleftrightarrow>
     ws \<noteq> [] \<and> j_total r = length ws \<and> map v_position ws = [0..<length ws]
     \<and> distinct (map v_window ws)
     \<and> counts_ok r ws \<and> status_ok (j_status r) (j_cancel_requested r) (statuses ws)
     \<and> source_ok env r ws"

definition tables_ok :: "job_env \<Rightarrow> job_tables \<Rightarrow> bool" where
  "tables_ok env s \<longleftrightarrow>
     distinct (map j_id (jobs s)) \<and> distinct (map j_key (jobs s))
     \<and> v_job ` set (windows s) \<subseteq> j_id ` set (jobs s)
     \<and> (\<forall>r \<in> set (jobs s). job_ok env r (windows_of (j_id r) s))"

section \<open>The worker and the tables\<close>

definition idle :: "job_tables \<Rightarrow> bool" where
  "idle s \<longleftrightarrow> (\<forall>r \<in> set (jobs s). j_status r \<noteq> Job_Running)"

definition busy ::
    "string \<Rightarrow> (bool \<Rightarrow> window_row list \<Rightarrow> bool) \<Rightarrow> job_tables \<Rightarrow> bool" where
  "busy i P s \<longleftrightarrow>
     (\<exists>r \<in> set (jobs s). j_id r = i \<and> j_status r = Job_Running
        \<and> P (j_cancel_requested r) (windows_of i s))
     \<and> (\<forall>r \<in> set (jobs s). j_status r = Job_Running \<longrightarrow> j_id r = i)"

definition none_running :: "window_row list \<Rightarrow> bool" where
  "none_running ws \<longleftrightarrow> Window_Running \<notin> statuses ws"

definition one_running :: "string \<Rightarrow> window_row list \<Rightarrow> bool" where
  "one_running w ws \<longleftrightarrow>
     map v_window (filter (\<lambda>v. v_status v = Window_Running) ws) = [w]"

fun worker_ok :: "worker \<Rightarrow> job_tables \<Rightarrow> bool" where
  "worker_ok Down s = True"
| "worker_ok Poll s = idle s"
| "worker_ok Claim s = idle s"
| "worker_ok (Loop i) s = busy i (\<lambda>c ws. none_running ws) s"
| "worker_ok (Ask i) s = busy i (\<lambda>c ws. none_running ws) s"
| "worker_ok (Cancel_Rest i) s = busy i (\<lambda>c ws. c \<and> none_running ws) s"
| "worker_ok (Fetch i) s = busy i (\<lambda>c ws. none_running ws) s"
| "worker_ok (Finalize i) s = busy i (\<lambda>c ws. statuses ws \<subseteq> {Window_Succeeded, Window_Failed}) s"
| "worker_ok (Begin i w p) s =
     busy i (\<lambda>c ws. none_running ws
       \<and> (\<exists>v \<in> set ws. v_window v = w \<and> v_payload v = p \<and> v_status v = Window_Queued)) s"
| "worker_ok (Compute i w p) s =
     busy i (\<lambda>c ws. one_running w ws \<and> (\<exists>v \<in> set ws. v_window v = w \<and> v_payload v = p)) s"
| "worker_ok (Store_Result i w d) s = busy i (\<lambda>c ws. one_running w ws) s"
| "worker_ok (Store_Failure i w code summary) s = busy i (\<lambda>c ws. one_running w ws) s"
| "worker_ok (Requeue i) s = busy i (\<lambda>c ws. none_running ws) s"

definition manager_ok :: "job_env \<Rightarrow> manager \<Rightarrow> bool" where
  "manager_ok env m \<longleftrightarrow> tables_ok env (tables m) \<and> worker_ok (worker m) (tables m)"

section \<open>Touching one job\<close>

definition touch ::
    "string \<Rightarrow> (job_row \<Rightarrow> job_row) \<Rightarrow> (window_row \<Rightarrow> window_row) \<Rightarrow> job_tables \<Rightarrow> job_tables" where
  "touch i f g s =
     s\<lparr>jobs := map (\<lambda>r. if j_id r = i then f r else r) (jobs s),
       windows := map (\<lambda>w. if v_job w = i then g w else w) (windows s)\<rparr>"

definition same_job :: "(job_row \<Rightarrow> job_row) \<Rightarrow> bool" where
  "same_job f \<longleftrightarrow> (\<forall>r. j_id (f r) = j_id r \<and> j_key (f r) = j_key r \<and> j_total (f r) = j_total r
     \<and> j_request (f r) = j_request r \<and> j_request_sha (f r) = j_request_sha r)"

definition same_window :: "(window_row \<Rightarrow> window_row) \<Rightarrow> bool" where
  "same_window g \<longleftrightarrow> (\<forall>w. v_job (g w) = v_job w \<and> v_window (g w) = v_window w
     \<and> v_position (g w) = v_position w \<and> v_mine (g w) = v_mine w \<and> v_payload (g w) = v_payload w)"

named_theorems touches \<open>statements as \<open>touch\<close>\<close>

lemma same_jobD: "same_job f \<Longrightarrow> j_id (f r) = j_id r" "same_job f \<Longrightarrow> j_key (f r) = j_key r"
  by (simp_all add: same_job_def)

lemma same_windowD: "same_window g \<Longrightarrow> v_job (g w) = v_job w" "same_window g \<Longrightarrow> v_window (g w) = v_window w"
  by (simp_all add: same_window_def)

lemma windows_of_touch:
  assumes "same_window g"
  shows "windows_of i' (touch i f g s) = (if i' = i then map g (windows_of i s) else windows_of i' s)"
proof -
  have "filter (\<lambda>w. v_job w = i') (map (\<lambda>w. if v_job w = i then g w else w) ws)
      = (if i' = i then map g (filter (\<lambda>w. v_job w = i) ws) else filter (\<lambda>w. v_job w = i') ws)" for ws
    by (induction ws) (auto simp: same_windowD [OF assms])
  then show ?thesis by (simp add: touch_def windows_of_def)
qed

lemma find_touch:
  assumes "same_job f"
  shows "find_job k (touch i f g s) = map_option (\<lambda>r. if k = i then f r else r) (find_job k s)"
proof -
  have "find (\<lambda>r. j_id r = k) (map (\<lambda>r. if j_id r = i then f r else r) rs)
      = map_option (\<lambda>r. if k = i then f r else r) (find (\<lambda>r. j_id r = k) rs)" for rs
    by (induction rs) (auto simp: same_jobD [OF assms])
  then show ?thesis by (simp add: find_job_def touch_def)
qed

lemma jobs_touch:
  "set (jobs (touch i f g s)) = (\<lambda>q. if j_id q = i then f q else q) ` set (jobs s)"
  by (simp add: touch_def)

lemma touch_touch:
  assumes "same_job f" "same_window g"
  shows "touch i f' g' (touch i f g s) = touch i (f' \<circ> f) (g' \<circ> g) s"
  by (auto simp: touch_def same_jobD [OF assms(1)] same_windowD [OF assms(2)])

lemma tables_ok_touch:
  assumes ok: "tables_ok env s" and f: "same_job f" and g: "same_window g"
    and job: "\<And>r. r \<in> set (jobs s) \<Longrightarrow> j_id r = i \<Longrightarrow> job_ok env r (windows_of i s)
      \<Longrightarrow> job_ok env (f r) (map g (windows_of i s))"
  shows "tables_ok env (touch i f g s)"
proof -
  have ids: "map j_id (jobs (touch i f g s)) = map j_id (jobs s)"
    "map j_key (jobs (touch i f g s)) = map j_key (jobs s)"
    "map v_job (windows (touch i f g s)) = map v_job (windows s)"
    by (auto simp: touch_def same_jobD [OF f] same_windowD [OF g])
  have "job_ok env r (windows_of (j_id r) (touch i f g s))" if mem: "r \<in> set (jobs (touch i f g s))" for r
  proof -
    obtain q where q: "q \<in> set (jobs s)" "r = (if j_id q = i then f q else q)"
      using mem unfolding jobs_touch by blast
    moreover have "job_ok env q (windows_of (j_id q) s)"
      using ok q(1) by (simp add: tables_ok_def)
    ultimately show ?thesis
      using job by (auto simp: windows_of_touch [OF g] same_jobD [OF f])
  qed
  moreover have "v_job ` set (windows (touch i f g s)) \<subseteq> j_id ` set (jobs (touch i f g s))"
    using ok arg_cong [OF ids(1), of set] arg_cong [OF ids(3), of set] by (simp add: tables_ok_def)
  ultimately show ?thesis
    using ok ids by (simp add: tables_ok_def)
qed

text \<open>A touch keeps the identity of the job; counters and status remain to be shown.\<close>

lemma statuses_map: "statuses (map g ws) = (\<lambda>w. v_status (g w)) ` set ws"
  by (simp add: statuses_def image_image)

lemma count_status_map:
  "(\<And>w. w \<in> set ws \<Longrightarrow> p (v_status (g w)) = p (v_status w)) \<Longrightarrow> count_status p (map g ws) = count_status p ws"
  by (induction ws) (auto simp: count_status_def)

lemma job_ok_touch:
  assumes ok: "job_ok env r ws" and f: "same_job f" and g: "same_window g"
    and c: "counts_ok (f r) (map g ws)"
    and st: "status_ok (j_status (f r)) (j_cancel_requested (f r)) (statuses (map g ws))"
  shows "job_ok env (f r) (map g ws)"
proof -
  have "map window_source (map g ws) = map window_source ws"
    "map v_position (map g ws) = map v_position ws" "map v_window (map g ws) = map v_window ws"
    using g by (simp_all add: same_window_def window_source_def)
  then show ?thesis
    using ok f c st by (simp add: job_ok_def source_ok_def same_job_def del: map_map)
qed

lemma unique_job:
  assumes "tables_ok env s" "r \<in> set (jobs s)" "q \<in> set (jobs s)" "j_id r = j_id q"
  shows "r = q"
  using assms by (auto simp: tables_ok_def distinct_map dest: inj_onD)

lemma find_job_Some:
  assumes "tables_ok env s"
  shows "find_job i s = Some r \<longleftrightarrow> r \<in> set (jobs s) \<and> j_id r = i"
proof
  assume "find_job i s = Some r"
  then show "r \<in> set (jobs s) \<and> j_id r = i"
    unfolding find_job_def by (rule find_Some_mem)
next
  assume r: "r \<in> set (jobs s) \<and> j_id r = i"
  then obtain q where q: "find_job i s = Some q"
    unfolding find_job_def by (metis (mono_tags) find_None not_None_eq)
  then have "q \<in> set (jobs s) \<and> j_id q = i"
    unfolding find_job_def by (rule find_Some_mem)
  with r unique_job [OF assms] q show "find_job i s = Some r" by metis
qed

lemma job_okD:
  "tables_ok env s \<Longrightarrow> r \<in> set (jobs s) \<Longrightarrow> job_ok env r (windows_of (j_id r) s)"
  by (simp add: tables_ok_def)

text \<open>With the row known, only that row has to be considered.\<close>

lemma tables_ok_touch_row:
  assumes ok: "tables_ok env s" and r: "r \<in> set (jobs s)" and i: "i = j_id r"
    and f: "same_job f" and g: "same_window g"
    and c: "counts_ok (f r) (map g (windows_of i s))"
    and st: "status_ok (j_status (f r)) (j_cancel_requested (f r)) (statuses (map g (windows_of i s)))"
  shows "tables_ok env (touch i f g s)"
proof (rule tables_ok_touch [OF ok f g])
  fix q assume "q \<in> set (jobs s)" "j_id q = i" "job_ok env q (windows_of i s)"
  moreover from this have "q = r" using unique_job [OF ok] r i by metis
  ultimately show "job_ok env (f q) (map g (windows_of i s))"
    using c st by (auto intro: job_ok_touch f g)
qed

section \<open>The statements as touches\<close>

lemma update_windows_touch:
  "update_windows (\<lambda>w. v_job w = i \<and> p w) h = touch i (\<lambda>r. r) (\<lambda>w. if p w then h w else w)"
  by (auto simp: fun_eq_iff update_windows_def touch_def)

lemma update_jobs_touch:
  "update_jobs (\<lambda>r. j_id r = i \<and> p r) h = touch i (\<lambda>r. if p r then h r else r) (\<lambda>w. w)"
  by (auto simp: fun_eq_iff update_jobs_def touch_def)

lemma update_job_touch: "update_jobs (\<lambda>r. j_id r = i) h = touch i h (\<lambda>w. w)"
  by (auto simp: fun_eq_iff update_jobs_def touch_def)

definition recount :: "window_row list \<Rightarrow> string \<Rightarrow> job_row \<Rightarrow> job_row" where
  "recount ws now r =
     r\<lparr>j_completed := count_status window_terminal ws,
       j_succeeded := count_status (\<lambda>x. x = Window_Succeeded) ws,
       j_failed := count_status (\<lambda>x. x = Window_Failed) ws,
       j_cancelled := count_status (\<lambda>x. x = Window_Cancelled) ws, j_updated := now\<rparr>"

lemma counts_recount [simp]: "counts_ok (recount ws now r) ws"
  by (simp add: counts_ok_def recount_def)

lemma recount_simps [simp]:
  "j_id (recount ws now r) = j_id r" "j_key (recount ws now r) = j_key r"
  "j_total (recount ws now r) = j_total r" "j_request (recount ws now r) = j_request r"
  "j_request_sha (recount ws now r) = j_request_sha r" "j_status (recount ws now r) = j_status r"
  "j_cancel_requested (recount ws now r) = j_cancel_requested r"
  by (simp_all add: recount_def)

lemma refresh_counts_touch:
  "refresh_counts i now s = touch i (recount (windows_of i s) now) (\<lambda>w. w) s"
  by (simp add: refresh_counts_def update_job_touch window_count_def count_status_def recount_def [abs_def])

definition cancelled_window :: "string \<Rightarrow> window_row \<Rightarrow> window_row" where
  "cancelled_window now w =
     (if v_status w \<in> {Window_Queued, Window_Running}
      then w\<lparr>v_status := Window_Cancelled, v_finished := Some now\<rparr> else w)"

definition cancelled_row :: "window_row list \<Rightarrow> string \<Rightarrow> job_row \<Rightarrow> job_row" where
  "cancelled_row ws now r =
     (recount (map (cancelled_window now) ws) now r)
       \<lparr>j_status := Job_Cancelled, j_finished := Some now, j_updated := now\<rparr>"

lemma same_windowI:
  "(\<And>w. v_job (g w) = v_job w \<and> v_window (g w) = v_window w
     \<and> v_position (g w) = v_position w \<and> v_mine (g w) = v_mine w \<and> v_payload (g w) = v_payload w)
   \<Longrightarrow> same_window g"
  by (simp add: same_window_def)

lemma same_jobI:
  "(\<And>r. j_id (f r) = j_id r \<and> j_key (f r) = j_key r \<and> j_total (f r) = j_total r
     \<and> j_request (f r) = j_request r \<and> j_request_sha (f r) = j_request_sha r)
   \<Longrightarrow> same_job f"
  by (simp add: same_job_def)

lemma same_cancelled [simp]: "same_window (cancelled_window now)" "same_job (cancelled_row ws now)"
  by (auto intro!: same_windowI same_jobI simp: cancelled_window_def cancelled_row_def)

lemma same_trivial [simp]: "same_window (\<lambda>w. w)" "same_job (\<lambda>r. r)" "same_job (recount ws now)"
  by (auto intro!: same_windowI same_jobI)

lemma same_comp: "same_window g \<Longrightarrow> same_window h \<Longrightarrow> same_window (h \<circ> g)"
  "same_job f \<Longrightarrow> same_job f' \<Longrightarrow> same_job (f' \<circ> f)"
  by (simp_all add: same_window_def same_job_def)

lemma cancel_open_windows_touch:
  "cancel_open_windows i now s = touch i (cancelled_row (windows_of i s) now) (cancelled_window now) s"
proof -
  have w: "update_windows (\<lambda>w. v_job w = i \<and> v_status w \<in> {Window_Queued, Window_Running})
      (\<lambda>w. w\<lparr>v_status := Window_Cancelled, v_finished := Some now\<rparr>)
    = touch i (\<lambda>r. r) (cancelled_window now)"
    by (simp only: update_windows_touch) (simp add: cancelled_window_def [abs_def])
  show ?thesis
    unfolding cancel_open_windows_def w refresh_counts_touch update_job_touch
    by (simp add: windows_of_touch touch_touch same_comp) (simp add: cancelled_row_def [abs_def] comp_def)
qed

end
