(* ===== verification/Job_Steps.thy ===== *)
theory Job_Steps
  imports Job_Invariant
begin

text \<open>
  Every action of the job manager keeps \<open>manager_ok\<close>, and what each repository call of the
  worker does in a state that satisfies it.
\<close>

section \<open>Calls of the request threads and the worker's claim on a job\<close>

lemma locked_Inr: "m s = (Inr a, t) \<Longrightarrow> locked m s = (Inr a, t)"
  by (simp add: locked_def transaction_def)

lemma locked_Inl: "m s = (Inl e, t) \<Longrightarrow> locked m s = (Inl e, s)"
  by (simp add: locked_def transaction_def)

lemma get_job_state [simp]: "snd (get_job i s) = s"
  by (simp add: get_job_def split: option.split)

lemma get_job_found:
  "find_job i s = Some r \<Longrightarrow>
     get_job i s = (Inr (record_of r (sort_key v_position (windows_of i s))), s)"
  by (simp add: get_job_def)

lemma bind_get_job_state: "snd (bind m (\<lambda>_. get_job i) s) = snd (m s)"
  by (simp add: bind_def split: prod.splits sum.splits)

text \<open>A request thread never moves a running job, nor makes a job run.\<close>

definition client_touch ::
    "string \<Rightarrow> (job_row \<Rightarrow> job_row) \<Rightarrow> (window_row \<Rightarrow> window_row) \<Rightarrow> job_tables \<Rightarrow> bool" where
  "client_touch k f g s \<longleftrightarrow>
     (\<forall>r \<in> set (jobs s). j_id r = k \<longrightarrow>
        (if j_status r = Job_Running
         then j_status (f r) = Job_Running \<and> (j_cancel_requested r \<longrightarrow> j_cancel_requested (f r))
              \<and> (\<forall>w \<in> set (windows_of k s). g w = w)
         else j_status (f r) \<noteq> Job_Running))"

lemma idle_client_touch:
  assumes "client_touch k f g s" "same_job f" "idle s"
  shows "idle (touch k f g s)"
  using assms unfolding idle_def jobs_touch client_touch_def by auto

lemma busy_client_touch:
  assumes c: "client_touch k f g s" and f: "same_job f" and g: "same_window g"
    and b: "busy i P s" and mono: "\<And>ws. P False ws \<Longrightarrow> P True ws"
  shows "busy i P (touch k f g s)"
proof -
  obtain r where r: "r \<in> set (jobs s)" "j_id r = i" "j_status r = Job_Running"
      "P (j_cancel_requested r) (windows_of i s)"
    and only: "\<And>q. q \<in> set (jobs s) \<Longrightarrow> j_status q = Job_Running \<Longrightarrow> j_id q = i"
    using b by (auto simp: busy_def)
  have "\<exists>q \<in> set (jobs (touch k f g s)). j_id q = i \<and> j_status q = Job_Running
      \<and> P (j_cancel_requested q) (windows_of i (touch k f g s))"
  proof (cases "k = i")
    case True
    have fr: "j_status (f r) = Job_Running" "j_cancel_requested r \<longrightarrow> j_cancel_requested (f r)"
      and "\<forall>w \<in> set (windows_of i s). g w = w"
      using c r True by (auto simp: client_touch_def)
    then have "windows_of i (touch k f g s) = windows_of i s"
      by (simp add: windows_of_touch [OF g] True map_idI)
    moreover have "P (j_cancel_requested (f r)) (windows_of i s)"
      using r(4) fr(2) mono by (cases "j_cancel_requested r"; cases "j_cancel_requested (f r)") auto
    moreover have "f r \<in> set (jobs (touch k f g s))"
      unfolding jobs_touch using r True by force
    ultimately show ?thesis
      using fr(1) r(2) same_jobD [OF f] by auto
  next
    case False
    then have "r \<in> set (jobs (touch k f g s))"
      unfolding jobs_touch using r by force
    then show ?thesis
      using r False by (auto simp: windows_of_touch [OF g])
  qed
  moreover have "j_id q = i" if "q \<in> set (jobs (touch k f g s))" "j_status q = Job_Running" for q
    using that c only same_jobD [OF f] unfolding jobs_touch client_touch_def
    by (auto split: if_splits)
  ultimately show ?thesis by (simp add: busy_def)
qed

lemma worker_ok_client_touch:
  assumes "client_touch k f g s" "same_job f" "same_window g" "worker_ok w s"
  shows "worker_ok w (touch k f g s)"
  using assms
  by (cases w) (auto intro: idle_client_touch busy_client_touch simp del: One_nat_def)

text \<open>A new job with its windows.\<close>

definition extends_by :: "job_row \<Rightarrow> window_row list \<Rightarrow> job_tables \<Rightarrow> job_tables \<Rightarrow> bool" where
  "extends_by r ws s t \<longleftrightarrow>
     jobs t = jobs s @ [r] \<and> windows t = windows s @ ws
     \<and> j_id r \<notin> j_id ` set (jobs s) \<and> j_key r \<notin> j_key ` set (jobs s)
     \<and> (\<forall>w \<in> set ws. v_job w = j_id r)"

lemma windows_of_extends:
  assumes "extends_by r ws s t" "v_job ` set (windows s) \<subseteq> j_id ` set (jobs s)"
  shows "windows_of i t = (if i = j_id r then ws else windows_of i s)"
proof -
  have ws: "\<And>w. w \<in> set ws \<Longrightarrow> v_job w = j_id r" and t: "windows t = windows s @ ws"
    and new: "j_id r \<notin> j_id ` set (jobs s)"
    using assms(1) by (simp_all add: extends_by_def)
  have old: "v_job w \<noteq> j_id r" if "w \<in> set (windows s)" for w
    using that assms(2) new by (metis imageI subsetD)
  have "filter (\<lambda>w. v_job w = i) ws = (if i = j_id r then ws else [])"
    using ws by (simp add: filter_id_conv filter_empty_conv)
  moreover have "filter (\<lambda>w. v_job w = j_id r) (windows s) = []"
    using old by (simp add: filter_empty_conv)
  ultimately show ?thesis
    by (simp add: windows_of_def t)
qed

lemma tables_ok_extends:
  assumes ok: "tables_ok env s" and e: "extends_by r ws s t" and r: "job_ok env r ws"
  shows "tables_ok env t"
proof -
  have w: "windows_of i t = (if i = j_id r then ws else windows_of i s)" for i
    using windows_of_extends [OF e] ok by (simp add: tables_ok_def)
  have "job_ok env q (windows_of (j_id q) t)" if "q \<in> set (jobs t)" for q
  proof (cases "q = r")
    case False
    then have "q \<in> set (jobs s)" using that e by (simp add: extends_by_def)
    moreover from this have "j_id q \<noteq> j_id r" using e unfolding extends_by_def by (metis imageI)
    ultimately show ?thesis using ok by (simp add: w tables_ok_def)
  qed (use r w in simp)
  then show ?thesis
    using ok e by (auto simp: tables_ok_def extends_by_def)
qed

lemma busy_extends:
  assumes "tables_ok env s" "extends_by r ws s t" "j_status r \<noteq> Job_Running" "busy i P s"
  shows "busy i P t"
proof -
  have w: "windows_of i t = (if i = j_id r then ws else windows_of i s)"
    using windows_of_extends [OF assms(2)] assms(1) by (simp add: tables_ok_def)
  have new: "\<And>q. q \<in> set (jobs s) \<Longrightarrow> j_id q \<noteq> j_id r" and t: "jobs t = jobs s @ [r]"
    using assms(2) unfolding extends_by_def by (metis imageI, simp)
  obtain q where "q \<in> set (jobs s)" "j_id q = i" "j_status q = Job_Running"
      "P (j_cancel_requested q) (windows_of i s)"
    using assms(4) by (auto simp: busy_def)
  moreover from this new have "windows_of i t = windows_of i s" using w by metis
  ultimately show ?thesis
    using assms(3,4) t by (auto simp: busy_def)
qed

lemma worker_ok_extends:
  assumes "tables_ok env s" "extends_by r ws s t" "j_status r \<noteq> Job_Running" "worker_ok w s"
  shows "worker_ok w t"
  using assms busy_extends [OF assms(1-3)]
  by (cases w) (auto simp: idle_def extends_by_def)

section \<open>Submission\<close>

lemma insert_windows_run:
  assumes "\<And>x w. x \<in> set xs \<Longrightarrow> w \<in> set (windows s) \<Longrightarrow> \<not> window_clash (f x) w"
    and "distinct (map (\<lambda>x. (v_job (f x), v_window (f x))) xs)"
  shows "for_each (\<lambda>x. insert_window (f x)) xs s = (Inr (), s\<lparr>windows := windows s @ map f xs\<rparr>)"
  using assms
proof (induction xs arbitrary: s)
  case (Cons x xs)
  have "insert_window (f x) s = (Inr (), s\<lparr>windows := windows s @ [f x]\<rparr>)"
    using Cons.prems(1) by (auto simp: insert_window_def insert_row_def list_ex_iff)
  moreover have "for_each (\<lambda>x. insert_window (f x)) xs (s\<lparr>windows := windows s @ [f x]\<rparr>)
      = (Inr (), s\<lparr>windows := (windows s @ [f x]) @ map f xs\<rparr>)"
  proof (subst Cons.IH)
    fix y w assume "y \<in> set xs" "w \<in> set (windows (s\<lparr>windows := windows s @ [f x]\<rparr>))"
    then consider "y \<in> set xs" "w \<in> set (windows s)" | "y \<in> set xs" "w = f x" by auto
    then show "\<not> window_clash (f y) w"
    proof cases
      case 2
      have "(v_job (f x), v_window (f x)) \<noteq> (v_job (f y), v_window (f y))"
        using Cons.prems(2) 2(1) by (metis (no_types, lifting) distinct.simps(2) image_eqI list.set_map list.simps(9))
      then show ?thesis using 2 by (auto simp: window_clash_def)
    qed (use Cons.prems(1) in simp)
  qed (use Cons.prems in simp_all)
  ultimately show ?case
    by (simp add: bind_Inr)
qed (simp add: ret_def)

lemma new_job_ok:
  assumes "valid_job_request q"
  shows "job_ok env (new_job env now q)
    (map (new_window env (j_id (new_job env now q))) (enumerate 0 (q_windows q)))"
proof -
  define i where "i = j_id (new_job env now q)"
  let ?ws = "map (new_window env i) (enumerate 0 (q_windows q))"
  have st: "v_status w = Window_Queued" if "w \<in> set ?ws" for w
    using that by (auto simp: new_window_def)
  have "map window_source ?ws = map request_source (q_windows q)"
    "map v_position ?ws = [0..<length (q_windows q)]"
    "map v_window ?ws = map w_window_id (q_windows q)"
    by (auto simp: new_window_def window_source_def request_source_def nth_enumerate_eq
        intro!: nth_equalityI)
  moreover have "count_status p ?ws = 0" if "\<not> p Window_Queued" for p
    using st that unfolding count_status_def by (simp add: filter_empty_conv)
  moreover have "statuses ?ws \<subseteq> {Window_Queued}"
    using st by (auto simp: statuses_def)
  ultimately show ?thesis
    using assms unfolding i_def [symmetric]
    by (auto simp: job_ok_def new_job_def Let_def counts_ok_def window_terminal_def source_ok_def
        valid_job_request_def)
qed

lemma submit_job_effect:
  fixes now :: string
  assumes ok: "tables_ok env s" and q: "valid_job_request q"
  defines "r \<equiv> new_job env now q"
  shows "snd (submit_job env n now q s) = s \<or>
    (length (pending_jobs s) < n \<and>
     extends_by r (map (new_window env (j_id r)) (enumerate 0 (q_windows q))) s
       (snd (submit_job env n now q s)))"
proof -
  let ?ins = "for_each (\<lambda>pw. insert_window (new_window env (j_id r) pw)) (enumerate 0 (q_windows q))"
  let ?M = "bind (reading (\<lambda>s. find (\<lambda>r. j_key r = q_idempotency_key q) (jobs s))) (\<lambda>existing.
      case existing of
        Some r' \<Rightarrow> bind (require (j_request_sha r' = j_request_sha r) Job_Conflict) (\<lambda>_.
            bind (get_job (j_id r')) (\<lambda>rec. ret (Some rec)))
      | None \<Rightarrow> bind (reading (\<lambda>s. length (pending_jobs s))) (\<lambda>pending.
          bind (require (pending < n) Job_Capacity) (\<lambda>_.
          bind (insert_job r) (\<lambda>_. bind ?ins (\<lambda>_. ret None)))))"
  have snd_submit: "snd (submit_job env n now q s) = snd (locked ?M s)"
    by (simp add: submit_job_def r_def new_job_def Let_def bind_def get_job_def ret_def
        split: prod.splits sum.splits option.splits)
  have same: "snd (locked ?M s) = s" if "fst (?M s) = Inl e \<or> snd (?M s) = s" for e
    using that by (cases "?M s"; cases "fst (?M s)") (auto simp: locked_def transaction_def)
  show ?thesis
  proof (cases "find (\<lambda>r. j_key r = q_idempotency_key q) (jobs s)")
    case (Some r')
    then have "snd (?M s) = s"
      by (simp add: bind_require) (simp add: bind_def ret_def raise_def get_job_def split: option.split)
    then show ?thesis unfolding snd_submit using same by simp
  next
    case None
    then have M: "?M s = (if length (pending_jobs s) < n
        then bind (insert_job r) (\<lambda>_. bind ?ins (\<lambda>_. ret None)) s else raise Job_Capacity s)"
      by (simp add: bind_require)
    show ?thesis
    proof (cases "length (pending_jobs s) < n \<and> \<not> list_ex (job_clash r) (jobs s)")
      case False
      then have "fst (?M s) = Inl Integrity_Error \<or> snd (?M s) = s"
        unfolding M by (auto simp: bind_def insert_job_def insert_row_def raise_def)
      then show ?thesis unfolding snd_submit using same by simp
    next
      case True
      have new: "j_id r \<notin> j_id ` set (jobs s)" "j_key r \<notin> j_key ` set (jobs s)"
        using True by (auto simp: list_ex_iff job_clash_def)
      have other: "v_job w \<noteq> j_id r" if "w \<in> set (windows s)" for w
        using that new ok unfolding tables_ok_def by (metis imageI subsetD)
      have "?ins (s\<lparr>jobs := jobs s @ [r]\<rparr>) = (Inr (), s\<lparr>jobs := jobs s @ [r],
          windows := windows s @ map (new_window env (j_id r)) (enumerate 0 (q_windows q))\<rparr>)"
      proof (subst insert_windows_run)
        show "distinct (map (\<lambda>x. (v_job (new_window env (j_id r) x), v_window (new_window env (j_id r) x)))
            (enumerate 0 (q_windows q)))"
          using q by (auto simp: valid_job_request_def new_window_def distinct_conv_nth
              nth_enumerate_eq)
        fix x w assume "w \<in> set (windows (s\<lparr>jobs := jobs s @ [r]\<rparr>))"
        then show "\<not> window_clash (new_window env (j_id r) x) w"
          using other [of w] by (cases x) (simp add: window_clash_def new_window_def)
      qed simp
      then have "?M s = (Inr None, s\<lparr>jobs := jobs s @ [r],
          windows := windows s @ map (new_window env (j_id r)) (enumerate 0 (q_windows q))\<rparr>)"
        unfolding M using True by (simp add: bind_def insert_job_def insert_row_def ret_def)
      then show ?thesis
        unfolding snd_submit using True new
        by (simp add: locked_Inr) (auto simp: extends_by_def new_window_def)
    qed
  qed
qed

lemma submit_job_ok:
  assumes "tables_ok env s" "valid_job_request q"
  shows "tables_ok env (snd (submit_job env n now q s))"
    and "worker_ok w s \<Longrightarrow> worker_ok w (snd (submit_job env n now q s))"
proof -
  have st: "j_status (new_job env now q) \<noteq> Job_Running"
    by (simp add: new_job_def Let_def)
  show "tables_ok env (snd (submit_job env n now q s))"
    using submit_job_effect [OF assms, of n now] tables_ok_extends [OF assms(1)] new_job_ok [OF assms(2)]
      assms(1) by metis
  show "worker_ok w (snd (submit_job env n now q s))" if "worker_ok w s"
    using submit_job_effect [OF assms, of n now] worker_ok_extends [OF assms(1) _ st that] that by metis
qed

lemma get_request_state [simp]: "snd (get_request i s) = s"
  by (simp add: get_request_def split: option.split)

text \<open>The stored request of a job reads back as a valid request.\<close>

lemma get_request_ok:
  assumes "tables_ok env s" "get_request i s = (Inr q, t)"
  shows "t = s \<and> valid_job_request q \<and> (\<exists>r. find_job i s = Some r
    \<and> j_request_sha r = job_sha256_json env (dump_request q)
    \<and> j_id r = job_id_of env (q_idempotency_key q) (j_request_sha r)
    \<and> map window_source (windows_of i s) = map request_source (q_windows q))"
proof -
  obtain r where r: "find_job i s = Some r" "parse_request (j_request r) = Some q" "t = s"
    using assms(2) by (auto simp: get_request_def split: option.splits)
  then have "r \<in> set (jobs s)" "j_id r = i"
    using find_job_Some [OF assms(1)] by simp_all
  then have "source_ok env r (windows_of i s)"
    using job_okD [OF assms(1)] by (auto simp: job_ok_def)
  then obtain p where p: "valid_job_request p" "j_request r = canonical (dump_request p)"
      "j_request_sha r = job_sha256_json env (dump_request p)" "j_key r = q_idempotency_key p"
      "j_id r = job_id_of env (j_key r) (j_request_sha r)"
      "map window_source (windows_of i s) = map request_source (q_windows p)"
    by (auto simp: source_ok_def)
  have q: "q = sorted_request p"
    using r(2) p(2) parse_dumped_request [OF p(1)] by simp
  moreover have "q_idempotency_key q = q_idempotency_key p"
    by (simp add: q sorted_request_def)
  moreover have "map request_source (q_windows q) = map request_source (q_windows p)"
    by (simp add: q sorted_request_def request_source_def canonical_sorted_payload del: canonical.simps(2))
  ultimately show ?thesis
    using r(1,3) p valid_sorted_request [OF p(1)]
    by (auto simp: job_sha256_json_def)
qed

lemma replay_request_valid:
  assumes "valid_job_request q" "replay_request i key a q = Some p"
  shows "valid_job_request p"
proof -
  have strip: "strip_space (strip_space s) = strip_space s" for s
  proof -
    have last: "dropWhile P (rev (dropWhile P (rev (dropWhile P xs)))) = rev (dropWhile P (rev (dropWhile P xs)))"
      for P and xs :: "char list"
    proof -
      let ?m = "dropWhile P xs"
      have "rev (dropWhile P (rev ?m)) = take (length (dropWhile P (rev ?m))) ?m"
        by (metis append_eq_conv_conj rev_append rev_rev_ident takeWhile_dropWhile_id length_rev)
      moreover have "?m = [] \<or> \<not> P (hd ?m)"
        by (metis hd_dropWhile)
      ultimately show ?thesis
        by (metis dropWhile_eq_self_iff hd_take length_greater_0_conv rev_is_Nil_conv take_eq_Nil)
    qed
    show ?thesis by (simp add: strip_space_def last)
  qed
  show ?thesis
    using assms strip
    by (auto simp: replay_request_def validate_window_ids_def length_first_occurrences
        valid_job_request_def clean_text_def parse_text_def Let_def bind_eq_Some_conv
        split: if_splits)
qed

lemma replay_job_ok:
  assumes "tables_ok env s"
  shows "tables_ok env (snd (replay_job env n now i key a s))"
    and "worker_ok w s \<Longrightarrow> worker_ok w (snd (replay_job env n now i key a s))"
proof -
  have "snd (replay_job env n now i key a s) = s \<or> (\<exists>p. valid_job_request p
      \<and> snd (replay_job env n now i key a s) = snd (submit_job env n now p s))"
  proof (cases "get_request i s")
    case (Pair res t)
    then have t: "t = s" using get_request_state [of i s] by simp
    show ?thesis
    proof (cases res)
      case (Inr q)
      then have "valid_job_request q" using get_request_ok [OF assms] Pair by simp
      then have "replay_request i key a q = Some p \<Longrightarrow> valid_job_request p" for p
        by (rule replay_request_valid)
      then show ?thesis
        using Pair Inr t
        by (cases "replay_request i key a q") (auto simp: replay_job_def bind_def raise_def)
    qed (use Pair t in \<open>simp add: replay_job_def bind_def\<close>)
  qed
  then show "tables_ok env (snd (replay_job env n now i key a s))"
    and "worker_ok w s \<Longrightarrow> worker_ok w (snd (replay_job env n now i key a s))"
    using submit_job_ok [OF assms] assms by metis+
qed

section \<open>Cancelling and archiving\<close>

lemma cancelled_counts: "counts_ok (cancelled_row ws now r) (map (cancelled_window now) ws)"
  by (simp add: counts_ok_def cancelled_row_def recount_def)

lemma cancelled_status:
  "j_cancel_requested r \<Longrightarrow>
     status_ok (j_status (cancelled_row ws now r)) (j_cancel_requested (cancelled_row ws now r))
       (statuses (map (cancelled_window now) ws))"
  by (auto simp: cancelled_row_def cancelled_window_def statuses_map)
     (metis window_status.exhaust)

definition flagged :: "string \<Rightarrow> job_row \<Rightarrow> job_row" where
  "flagged now r = r\<lparr>j_cancel_requested := True, j_updated := now\<rparr>"

lemma flagged_simps [simp]:
  "same_job (flagged now)" "j_status (flagged now r) = j_status r" "j_cancel_requested (flagged now r)"
  "counts_ok (flagged now r) ws = counts_ok r ws"
  by (auto intro!: same_jobI simp: flagged_def counts_ok_def)

lemma status_ok_flag: "status_ok x c W \<Longrightarrow> status_ok x True W"
  by (cases x) auto

lemma cancel_job_effect:
  assumes "tables_ok env s"
  shows "(snd (cancel_job now i s) = s)
   \<or> (\<exists>r. find_job i s = Some r \<and> j_status r = Job_Running
        \<and> snd (cancel_job now i s) = touch i (flagged now) (\<lambda>w. w) s)
   \<or> (\<exists>r. find_job i s = Some r \<and> j_status r = Job_Queued
        \<and> snd (cancel_job now i s)
          = touch i (cancelled_row (windows_of i s) now \<circ> flagged now) (cancelled_window now) s)"
proof -
  have flag: "update_jobs (\<lambda>r. j_id r = i) (\<lambda>r. r\<lparr>j_cancel_requested := True, j_updated := now\<rparr>) s
      = touch i (flagged now) (\<lambda>w. w) s"
    by (simp add: update_job_touch flagged_def [abs_def])
  show ?thesis
    unfolding cancel_job_def bind_get_job_state
    by (cases "find_job i s")
       (auto simp: locked_def transaction_def bind_require raise_def writing_def ret_def flag
         cancel_open_windows_touch windows_of_touch touch_touch comp_def)
qed

lemma job_facts:
  assumes "tables_ok env s" "find_job i s = Some r"
  shows "r \<in> set (jobs s)" "j_id r = i" "counts_ok r (windows_of i s)"
    "status_ok (j_status r) (j_cancel_requested r) (statuses (windows_of i s))"
    "\<And>q. q \<in> set (jobs s) \<Longrightarrow> j_id q = i \<Longrightarrow> q = r"
  using assms find_job_Some [OF assms(1)] job_okD [OF assms(1)] unique_job [OF assms(1)]
  by (auto simp: job_ok_def)

lemma cancel_job_ok:
  assumes ok: "tables_ok env s"
  shows "tables_ok env (snd (cancel_job now i s))"
    and "worker_ok w s \<Longrightarrow> worker_ok w (snd (cancel_job now i s))"
proof -
  let ?t = "snd (cancel_job now i s)"
  consider "?t = s"
    | r where "find_job i s = Some r" "j_status r = Job_Running"
        "?t = touch i (flagged now) (\<lambda>w. w) s"
    | r where "find_job i s = Some r" "j_status r = Job_Queued"
        "?t = touch i (cancelled_row (windows_of i s) now \<circ> flagged now) (cancelled_window now) s"
    using cancel_job_effect [OF ok] by metis
  then have "tables_ok env ?t \<and> (worker_ok w s \<longrightarrow> worker_ok w ?t)"
  proof cases
    case (2 r)
    note r = job_facts [OF ok 2(1)]
    have "client_touch i (flagged now) (\<lambda>w. w) s"
      using r(5) 2(2) by (auto simp: client_touch_def)
    from worker_ok_client_touch [OF this] have "worker_ok w s \<longrightarrow> worker_ok w ?t"
      unfolding 2(3) by simp
    moreover have "tables_ok env ?t"
      unfolding 2(3) using r(1-4)
      by (intro tables_ok_touch_row [OF ok r(1)]) (auto intro: status_ok_flag simp del: status_ok.simps)
    ultimately show ?thesis by simp
  next
    case (3 r)
    note r = job_facts [OF ok 3(1)]
    let ?f = "cancelled_row (windows_of i s) now \<circ> flagged now"
    have same: "same_job ?f" by (intro same_comp) simp_all
    have "client_touch i ?f (cancelled_window now) s"
      using r(5) 3(2) by (auto simp: client_touch_def cancelled_row_def)
    moreover have "tables_ok env (touch i ?f (cancelled_window now) s)"
      using r(1-4) by (intro tables_ok_touch_row [OF ok r(1)])
        (simp_all add: same cancelled_counts cancelled_status del: status_ok.simps)
    ultimately show ?thesis
      unfolding 3(3) using worker_ok_client_touch [OF _ same, of i "cancelled_window now" s w] by simp
  qed (use ok in simp)
  then show "tables_ok env ?t" and "worker_ok w s \<Longrightarrow> worker_ok w ?t" by simp_all
qed

definition archived_as :: "string option \<Rightarrow> string option \<Rightarrow> string option \<Rightarrow> string \<Rightarrow> job_row \<Rightarrow> job_row" where
  "archived_as a b c now r =
     r\<lparr>j_archived_at := a, j_archived_by := b, j_archived_reason := c, j_updated := now\<rparr>"

lemma archived_as_simps [simp]:
  "same_job (archived_as a b c now)" "j_status (archived_as a b c now r) = j_status r"
  "j_cancel_requested (archived_as a b c now r) = j_cancel_requested r"
  "counts_ok (archived_as a b c now r) ws = counts_ok r ws"
  by (auto intro!: same_jobI simp: archived_as_def counts_ok_def)

lemma archive_job_effect:
  "snd (archive_job now i archived actor reason s) = s
   \<or> (\<exists>r a b c. find_job i s = Some r \<and> j_status r \<in> set terminal_job_statuses
        \<and> snd (archive_job now i archived actor reason s) = touch i (archived_as a b c now) (\<lambda>w. w) s)"
proof -
  have upd: "update_jobs (\<lambda>r. j_id r = i)
      (\<lambda>r. r\<lparr>j_archived_at := a, j_archived_by := b, j_archived_reason := c, j_updated := now\<rparr>) s
      = touch i (archived_as a b c now) (\<lambda>w. w) s" for a b c
    by (simp add: update_job_touch archived_as_def [abs_def])
  show ?thesis
    unfolding archive_job_def Let_def bind_require
    by (cases "find_job i s")
       (auto simp: bind_get_job_state raise_def locked_def transaction_def bind_require writing_def
         upd split: if_splits)
qed

lemma archive_job_ok:
  assumes ok: "tables_ok env s"
  shows "tables_ok env (snd (archive_job now i archived actor reason s))"
    and "worker_ok w s \<Longrightarrow> worker_ok w (snd (archive_job now i archived actor reason s))"
proof -
  let ?t = "snd (archive_job now i archived actor reason s)"
  consider "?t = s"
    | r a b c where "find_job i s = Some r" "j_status r \<in> set terminal_job_statuses"
        "?t = touch i (archived_as a b c now) (\<lambda>w. w) s"
    using archive_job_effect by metis
  then have "tables_ok env ?t \<and> (worker_ok w s \<longrightarrow> worker_ok w ?t)"
  proof cases
    case (2 r a b c)
    note r = job_facts [OF ok 2(1)]
    have "client_touch i (archived_as a b c now) (\<lambda>w. w) s"
      using r(5) 2(2) by (auto simp: client_touch_def terminal_job_statuses_def)
    from worker_ok_client_touch [OF this] have "worker_ok w s \<longrightarrow> worker_ok w ?t"
      unfolding 2(3) by simp
    moreover have "tables_ok env ?t"
      unfolding 2(3) using r(1-4)
      by (intro tables_ok_touch_row [OF ok r(1)]) (simp_all del: status_ok.simps)
    ultimately show ?thesis by simp
  qed (use ok in simp)
  then show "tables_ok env ?t" and "worker_ok w s \<Longrightarrow> worker_ok w ?t" by simp_all
qed

section \<open>Requeueing\<close>

definition queued_window :: "window_row \<Rightarrow> window_row" where
  "queued_window w =
     (if v_status w = Window_Running then w\<lparr>v_status := Window_Queued, v_started := None\<rparr> else w)"

definition queued_row :: "string \<Rightarrow> job_row \<Rightarrow> job_row" where
  "queued_row now r = r\<lparr>j_status := Job_Queued, j_started := None, j_updated := now\<rparr>"

lemma queued_simps [simp]:
  "same_window queued_window" "same_job (queued_row now)" "j_status (queued_row now r) = Job_Queued"
  "j_cancel_requested (queued_row now r) = j_cancel_requested r"
  "counts_ok (queued_row now r) ws = counts_ok r ws"
  by (auto intro!: same_windowI same_jobI simp: queued_window_def queued_row_def counts_ok_def)

lemma queued_counts: "counts_ok r (map queued_window ws) = counts_ok r ws"
  by (simp add: counts_ok_def count_status_map queued_window_def window_terminal_def)

lemma queued_statuses:
  "statuses (map queued_window ws) \<subseteq> {Window_Queued} \<union> (statuses ws - {Window_Running})"
  by (auto simp: statuses_def queued_window_def)

lemma all_statuses:
  "x \<noteq> Window_Running \<Longrightarrow> x \<noteq> Window_Cancelled \<Longrightarrow> x \<in> {Window_Queued, Window_Succeeded, Window_Failed}"
  by (cases x) simp_all

lemma requeue_row_ok:
  assumes ok: "tables_ok env s" and r: "r \<in> set (jobs s)" "j_status r = Job_Running"
  shows "tables_ok env (touch (j_id r) (queued_row now) queued_window s)"
proof (rule tables_ok_touch_row [OF ok r(1) refl])
  have j: "job_ok env r (windows_of (j_id r) s)" using ok r by (simp add: tables_ok_def)
  then show "counts_ok (queued_row now r) (map queued_window (windows_of (j_id r) s))"
    by (simp add: queued_counts job_ok_def)
  have "Window_Cancelled \<notin> statuses (windows_of (j_id r) s)"
    using j r by (simp add: job_ok_def)
  then have "statuses (windows_of (j_id r) s) - {Window_Running} \<subseteq> {Window_Queued, Window_Succeeded, Window_Failed}"
  proof (intro subsetI)
    fix x assume "x \<in> statuses (windows_of (j_id r) s) - {Window_Running}"
    then have "x \<noteq> Window_Running" "x \<noteq> Window_Cancelled"
      using \<open>Window_Cancelled \<notin> statuses (windows_of (j_id r) s)\<close> by auto
    then show "x \<in> {Window_Queued, Window_Succeeded, Window_Failed}" by (rule all_statuses)
  qed
  then have "{Window_Queued} \<union> (statuses (windows_of (j_id r) s) - {Window_Running})
      \<subseteq> {Window_Queued, Window_Succeeded, Window_Failed}"
    by simp
  with queued_statuses have "statuses (map queued_window (windows_of (j_id r) s))
      \<subseteq> {Window_Queued, Window_Succeeded, Window_Failed}"
    by (rule order_trans)
  then show "status_ok (j_status (queued_row now r)) (j_cancel_requested (queued_row now r))
      (statuses (map queued_window (windows_of (j_id r) s)))"
    by simp
qed simp_all

lemma recover_fold:
  assumes "tables_ok env s" "distinct ids" "\<And>i. i \<in> set ids \<Longrightarrow> \<exists>r \<in> set (jobs s). j_id r = i \<and> j_status r = Job_Running"
  shows "tables_ok env (fold (\<lambda>i. touch i (queued_row now) queued_window) ids s)
    \<and> (\<forall>q \<in> set (jobs (fold (\<lambda>i. touch i (queued_row now) queued_window) ids s)).
         j_status q = Job_Running \<longrightarrow> q \<in> set (jobs s) \<and> j_id q \<notin> set ids)"
  using assms
proof (induction ids arbitrary: s)
  case (Cons i ids)
  let ?s = "touch i (queued_row now) queued_window s"
  obtain r where r: "r \<in> set (jobs s)" "j_id r = i" "j_status r = Job_Running"
    using Cons.prems(3) [of i] by auto
  have mem: "q \<in> set (jobs s) \<and> j_id q \<noteq> i" if "q \<in> set (jobs ?s)" "j_status q = Job_Running" for q
    using that unfolding jobs_touch by (auto split: if_splits)
  have "\<exists>q \<in> set (jobs ?s). j_id q = k \<and> j_status q = Job_Running" if k: "k \<in> set ids" for k
  proof -
    obtain q where "q \<in> set (jobs s)" "j_id q = k" "j_status q = Job_Running"
      using Cons.prems(3) [of k] k by auto
    moreover have "k \<noteq> i" using Cons.prems(2) k by auto
    ultimately show ?thesis unfolding jobs_touch by force
  qed
  from Cons.IH [OF _ _ this] have "tables_ok env (fold (\<lambda>i. touch i (queued_row now) queued_window) ids ?s)
    \<and> (\<forall>q \<in> set (jobs (fold (\<lambda>i. touch i (queued_row now) queued_window) ids ?s)).
         j_status q = Job_Running \<longrightarrow> q \<in> set (jobs ?s) \<and> j_id q \<notin> set ids)"
    using requeue_row_ok [OF Cons.prems(1) r(1,3)] r(2) Cons.prems(2) by simp
  then show ?case
    using mem by auto
qed simp

lemma for_each_fold:
  "(\<And>x s. f x s = (Inr (), g x s)) \<Longrightarrow> for_each f xs s = (Inr (), fold g xs s)"
  by (induction xs arbitrary: s) (simp_all add: ret_def bind_def)

lemma requeue_statements:
  "bind (writing (update_windows (\<lambda>w. v_job w = i \<and> v_status w = Window_Running)
        (\<lambda>w. w\<lparr>v_status := Window_Queued, v_started := None\<rparr>))) (\<lambda>_.
      writing (update_jobs (\<lambda>r. j_id r = i)
        (\<lambda>r. r\<lparr>j_status := Job_Queued, j_started := None, j_updated := now\<rparr>))) s
      = (Inr (), touch i (queued_row now) queued_window s)"
proof -
  have "update_windows (\<lambda>w. v_job w = i \<and> v_status w = Window_Running)
      (\<lambda>w. w\<lparr>v_status := Window_Queued, v_started := None\<rparr>) = touch i (\<lambda>r. r) queued_window"
    by (simp only: update_windows_touch) (simp add: queued_window_def [abs_def])
  then show ?thesis
    by (simp add: update_job_touch writing_def touch_touch comp_def queued_row_def [abs_def])
qed

lemma recover_interrupted_fold:
  "snd (recover_interrupted now s) =
     fold (\<lambda>i. touch i (queued_row now) queued_window)
       (map j_id (filter (\<lambda>r. j_status r = Job_Running) (jobs s))) s"
  unfolding recover_interrupted_def locked_def transaction_def bind_reading
  by (simp add: bind_Inr [OF for_each_fold, OF requeue_statements] ret_def)

lemma recover_interrupted_ok:
  assumes "tables_ok env s"
  shows "tables_ok env (snd (recover_interrupted now s)) \<and> idle (snd (recover_interrupted now s))"
proof -
  let ?ids = "map j_id (filter (\<lambda>r. j_status r = Job_Running) (jobs s))"
  have "distinct ?ids"
    using assms by (simp add: tables_ok_def distinct_map_filter)
  from recover_fold [OF assms this, of now] show ?thesis
    unfolding recover_interrupted_fold idle_def by auto
qed

end
