(* ===== verification/Job_Work.thy ===== *)
theory Job_Work
  imports Job_Steps
begin

text \<open>
  The worker of the job manager: what each of its repository calls does when the tables are
  as \<open>worker_ok\<close> says, and that \<open>manager_ok\<close> holds in every reachable state.
\<close>

section \<open>The worker's calls as touches of its job\<close>

lemma busyE:
  assumes "tables_ok env s" "busy i P s"
  obtains r where "find_job i s = Some r" "j_status r = Job_Running"
    "P (j_cancel_requested r) (windows_of i s)"
    "\<And>q. q \<in> set (jobs s) \<Longrightarrow> j_status q = Job_Running \<Longrightarrow> j_id q = i"
  using assms find_job_Some [OF assms(1)] by (auto simp: busy_def)

lemma busy_mono:
  "busy i P s \<Longrightarrow> (\<And>c ws. P c ws \<Longrightarrow> Q c ws) \<Longrightarrow> busy i Q s"
  unfolding busy_def by blast

text \<open>The worker touches its own job, which stays running or stops.\<close>

lemma busy_own_touch:
  assumes ok: "tables_ok env s" and b: "busy i P s" and f: "same_job f" and g: "same_window g"
    and run: "\<And>r. find_job i s = Some r \<Longrightarrow> j_status (f r) = Job_Running
      \<and> Q (j_cancel_requested (f r)) (map g (windows_of i s))"
  shows "busy i Q (touch i f g s)"
proof -
  obtain r where r: "find_job i s = Some r"
      "\<And>q. q \<in> set (jobs s) \<Longrightarrow> j_status q = Job_Running \<Longrightarrow> j_id q = i"
    using busyE [OF ok b] by metis
  have mem: "r \<in> set (jobs s)" "j_id r = i" using r(1) find_job_Some [OF ok] by auto
  then have "f r \<in> set (jobs (touch i f g s))" unfolding jobs_touch by force
  moreover have "j_id q = i" if q: "q \<in> set (jobs (touch i f g s))" "j_status q = Job_Running" for q
    using q r(2) same_jobD [OF f] unfolding jobs_touch by (auto split: if_splits)
  ultimately show ?thesis
    using run [OF r(1)] mem(2) same_jobD [OF f]
    by (auto simp: busy_def windows_of_touch [OF g])
qed

lemma idle_own_touch:
  assumes ok: "tables_ok env s" and b: "busy i P s" and f: "same_job f"
    and stop: "\<And>r. find_job i s = Some r \<Longrightarrow> j_status (f r) \<noteq> Job_Running"
  shows "idle (touch i f g s)"
proof -
  obtain r where r: "find_job i s = Some r"
      "\<And>q. q \<in> set (jobs s) \<Longrightarrow> j_status q = Job_Running \<Longrightarrow> j_id q = i"
    using busyE [OF ok b] by metis
  have "j_status q \<noteq> Job_Running" if q: "q \<in> set (jobs (touch i f g s))" for q
  proof -
    obtain p where p: "p \<in> set (jobs s)" "q = (if j_id p = i then f p else p)"
      using q unfolding jobs_touch by auto
    show ?thesis
    proof (cases "j_id p = i")
      case True
      then show ?thesis using p stop find_job_Some [OF ok] by auto
    qed (use p r(2) in auto)
  qed
  then show ?thesis by (simp add: idle_def)
qed

section \<open>Starting and finishing a window\<close>

text \<open>The key of a window selects at most one row.\<close>

lemma filter_key:
  "distinct (map f xs) \<Longrightarrow> x \<in> set xs \<Longrightarrow> filter (\<lambda>y. f y = f x) xs = [x]"
proof (induction xs)
  case (Cons y ys)
  have "filter (\<lambda>z. f z = f y) ys = []"
    using Cons.prems(1) by (auto simp: filter_empty_conv image_iff)
  then show ?case using Cons by auto
qed simp

lemma windows_distinct:
  "tables_ok env s \<Longrightarrow> find_job i s = Some r \<Longrightarrow> distinct (map v_window (windows_of i s))"
  using job_okD find_job_Some by (fastforce simp: job_ok_def)

lemma count_window:
  assumes "distinct (map v_window (windows_of i s))" "v \<in> set (windows_of i s)"
    "v_window v = w" "v_status v = x"
  shows "length (filter (\<lambda>u. v_job u = i \<and> v_window u = w \<and> v_status u = x) (windows s)) = 1"
proof -
  have "filter (\<lambda>u. v_job u = i \<and> v_window u = w \<and> v_status u = x) (windows s)
      = filter (\<lambda>u. v_status u = x) (filter (\<lambda>u. v_window u = v_window v) (windows_of i s))"
    using assms(3) by (auto simp: windows_of_def conj_ac intro!: filter_cong)
  then show ?thesis using filter_key [OF assms(1,2)] assms(4) by simp
qed

definition started_window :: "string \<Rightarrow> string \<Rightarrow> window_row \<Rightarrow> window_row" where
  "started_window now w v =
     (if v_window v = w \<and> v_status v = Window_Queued
      then v\<lparr>v_status := Window_Running, v_attempt := Suc (v_attempt v), v_started := Some now,
             v_finished := None, v_error_code := None, v_error_summary := None\<rparr>
      else v)"

definition succeeded_window ::
    "job_env \<Rightarrow> string \<Rightarrow> string \<Rightarrow> (string \<times> json) list \<Rightarrow> window_row \<Rightarrow> window_row" where
  "succeeded_window env now w result v =
     (if v_window v = w \<and> v_status v = Window_Running
      then v\<lparr>v_status := Window_Succeeded,
             v_result_sha := Some (job_sha256_json env (JObj result)),
             v_result := Some (canonical (JObj result)), v_finished := Some now\<rparr>
      else v)"

definition failed_window ::
    "string \<Rightarrow> string \<Rightarrow> string \<Rightarrow> string \<Rightarrow> window_row \<Rightarrow> window_row" where
  "failed_window now w code summary v =
     (if v_window v = w \<and> v_status v = Window_Running
      then v\<lparr>v_status := Window_Failed, v_error_code := Some (take 100 code),
             v_error_summary := Some (take 500 summary), v_finished := Some now\<rparr>
      else v)"

lemma same_worked [simp]:
  "same_window (started_window now w)" "same_window (succeeded_window env now w d)"
  "same_window (failed_window now w c e)"
  by (auto intro!: same_windowI simp: started_window_def succeeded_window_def failed_window_def)

lemma start_window_run:
  assumes "distinct (map v_window (windows_of i s))"
    and "\<exists>v \<in> set (windows_of i s). v_window v = w \<and> v_status v = Window_Queued"
  shows "start_window now i w s = (Inr (), touch i (\<lambda>r. r) (started_window now w) s)"
proof -
  have g: "update_windows (\<lambda>v. v_job v = i \<and> v_window v = w \<and> v_status v = Window_Queued) f
      = touch i (\<lambda>r. r) (\<lambda>v. if v_window v = w \<and> v_status v = Window_Queued then f v else v)" for f
    by (rule update_windows_touch)
  show ?thesis
    using assms count_window [OF assms(1)]
    unfolding start_window_def
    by (intro locked_Inr) (auto simp: update_windows_count_def bind_def require_def ret_def g
        started_window_def [abs_def])
qed

lemma finish_run:
  assumes "distinct (map v_window (windows_of i s))"
    and "\<exists>v \<in> set (windows_of i s). v_window v = w \<and> v_status v = Window_Running"
  shows "finish_window_success env now i w d s =
      (Inr (), touch i (recount (map (succeeded_window env now w d) (windows_of i s)) now)
        (succeeded_window env now w d) s)"
    and "finish_window_failure now i w code summary s =
      (Inr (), touch i (recount (map (failed_window now w code summary) (windows_of i s)) now)
        (failed_window now w code summary) s)"
proof -
  have g: "update_windows (\<lambda>v. v_job v = i \<and> v_window v = w \<and> v_status v = Window_Running) f
      = touch i (\<lambda>r. r) (\<lambda>v. if v_window v = w \<and> v_status v = Window_Running then f v else v)" for f
    by (rule update_windows_touch)
  obtain v where "v \<in> set (windows_of i s)" "v_window v = w" "v_status v = Window_Running"
    using assms(2) by auto
  note n = count_window [OF assms(1) this]
  let ?h = "\<lambda>f v. if v_window v = w \<and> v_status v = Window_Running then f v else v"
  have run: "locked (bind (update_windows_count
        (\<lambda>v. v_job v = i \<and> v_window v = w \<and> v_status v = Window_Running) f) (\<lambda>rowcount.
        bind (require (rowcount = 1) e) (\<lambda>_. writing (refresh_counts i now)))) s
      = (Inr (), touch i (recount (map (?h f) (windows_of i s)) now) (?h f) s)"
    if same: "same_window (?h f)" for f e
  proof (rule locked_Inr)
    have t: "refresh_counts i now (touch i (\<lambda>r. r) (?h f) s)
        = touch i (recount (map (?h f) (windows_of i s)) now) (?h f) s"
      unfolding refresh_counts_touch windows_of_touch [OF same] touch_touch [OF same_trivial(2) same]
      by (simp add: comp_def)
    show "bind (update_windows_count
        (\<lambda>v. v_job v = i \<and> v_window v = w \<and> v_status v = Window_Running) f) (\<lambda>rowcount.
        bind (require (rowcount = 1) e) (\<lambda>_. writing (refresh_counts i now))) s
      = (Inr (), touch i (recount (map (?h f) (windows_of i s)) now) (?h f) s)"
      unfolding update_windows_count_def bind_def require_def n g
      by (simp only: split sum.case if_True simp_thms ret_def writing_def t)
  qed
  have h: "?h (\<lambda>v. v\<lparr>v_status := Window_Succeeded,
        v_result_sha := Some (job_sha256_json env (JObj d)),
        v_result := Some (canonical (JObj d)), v_finished := Some now\<rparr>) = succeeded_window env now w d"
    "?h (\<lambda>v. v\<lparr>v_status := Window_Failed, v_error_code := Some (take 100 code),
        v_error_summary := Some (take 500 summary), v_finished := Some now\<rparr>)
      = failed_window now w code summary"
    by (simp_all only: fun_eq_iff succeeded_window_def failed_window_def simp_thms)
  show "finish_window_success env now i w d s =
      (Inr (), touch i (recount (map (succeeded_window env now w d) (windows_of i s)) now)
        (succeeded_window env now w d) s)"
    unfolding finish_window_success_def by (subst run) (simp_all only: h same_worked)
  show "finish_window_failure now i w code summary s =
      (Inr (), touch i (recount (map (failed_window now w code summary) (windows_of i s)) now)
        (failed_window now w code summary) s)"
    unfolding finish_window_failure_def by (subst run) (simp_all only: h same_worked)
qed

lemma one_runningD:
  "one_running w ws \<Longrightarrow> \<exists>v \<in> set ws. v_window v = w \<and> v_status v = Window_Running"
  by (auto simp: one_running_def filter_eq_Cons_iff map_eq_Cons_conv)

lemma started_one_running:
  assumes "distinct (map v_window ws)" "none_running ws"
    "\<exists>v \<in> set ws. v_window v = w \<and> v_status v = Window_Queued"
  shows "one_running w (map (started_window now w) ws)"
proof -
  obtain v where v: "v \<in> set ws" "v_window v = w" "v_status v = Window_Queued" using assms(3) by auto
  have "v_status (started_window now w u) = Window_Running \<longleftrightarrow> v_window u = v_window v"
    if "u \<in> set ws" for u
  proof -
    have "v_status u \<noteq> Window_Running" using that assms(2) by (force simp: none_running_def statuses_def)
    moreover have "u = v" if "v_window u = v_window v"
      using that \<open>u \<in> set ws\<close> v(1) assms(1) by (auto simp: distinct_map dest: inj_onD)
    ultimately show ?thesis using v by (auto simp: started_window_def)
  qed
  then have "filter (\<lambda>u. v_status (started_window now w u) = Window_Running) ws
      = filter (\<lambda>u. v_window u = v_window v) ws"
    by (intro filter_cong) auto
  also have "\<dots> = [v]" using assms(1) v(1) by (rule filter_key)
  finally show ?thesis
    using v(2) by (simp add: one_running_def filter_map comp_def started_window_def)
qed

text \<open>Finishing the running window leaves none running.\<close>

lemma finished_none_running:
  assumes "one_running w ws"
    and g: "\<And>v. v_status v = Window_Running \<Longrightarrow> v_window v = w \<Longrightarrow> v_status (g v) = x"
      "\<And>v. v_status v \<noteq> Window_Running \<Longrightarrow> g v = v" and x: "x \<noteq> Window_Running"
  shows "none_running (map g ws)"
    and "statuses (map g ws) \<subseteq> insert x (statuses ws - {Window_Running})"
proof -
  have w: "v_window v = w" if "v \<in> set ws" "v_status v = Window_Running" for v
  proof -
    have "v \<in> set (filter (\<lambda>v. v_status v = Window_Running) ws)" using that by simp
    then have "v_window v \<in> set (map v_window (filter (\<lambda>v. v_status v = Window_Running) ws))" by simp
    then have "v_window v \<in> set [w]" by (simp only: assms(1) [unfolded one_running_def])
    then show ?thesis by simp
  qed
  show "statuses (map g ws) \<subseteq> insert x (statuses ws - {Window_Running})"
  proof
    fix y assume "y \<in> statuses (map g ws)"
    then obtain v where v: "v \<in> set ws" "y = v_status (g v)" by (auto simp: statuses_def)
    show "y \<in> insert x (statuses ws - {Window_Running})"
    proof (cases "v_status v = Window_Running")
      case False then show ?thesis using v g(2) by (simp add: statuses_def)
    qed (use v g(1) w in simp)
  qed
  then show "none_running (map g ws)" using x by (auto simp: none_running_def)
qed

section \<open>What the worker's steps do\<close>

definition finished_row :: "job_status \<Rightarrow> string \<Rightarrow> job_row \<Rightarrow> job_row" where
  "finished_row x now r =
     (if j_status r = Job_Running
      then r\<lparr>j_status := x, j_finished := Some now, j_updated := now\<rparr> else r)"

lemma finished_row_simps [simp]:
  "same_job (finished_row x now)" "counts_ok (finished_row x now r) ws = counts_ok r ws"
  "j_cancel_requested (finished_row x now r) = j_cancel_requested r"
  by (auto intro!: same_jobI simp: finished_row_def counts_ok_def)

lemma step_Ask:
  "find_job i s = Some r \<Longrightarrow> worker_step env stop now out (Ask i) s =
     (if j_cancel_requested r then Cancel_Rest i else Fetch i, s)"
  by (simp add: guarded_def cancellation_requested_def)

lemma step_Cancel_Rest:
  "worker_step env stop now out (Cancel_Rest i) s =
     (Poll, touch i (cancelled_row (windows_of i s) now) (cancelled_window now) s)"
  by (simp add: guarded_def cancel_remaining_def locked_def transaction_def writing_def
      cancel_open_windows_touch)

lemma all_counted:
  "statuses ws \<subseteq> {Window_Succeeded, Window_Failed} \<Longrightarrow> count_status window_terminal ws = length ws"
  by (auto simp: count_status_def statuses_def window_terminal_def intro!: arg_cong [where f = length] filter_True)

lemma step_Finalize:
  assumes ok: "tables_ok env s" and r: "find_job i s = Some r"
    and st: "statuses (windows_of i s) \<subseteq> {Window_Succeeded, Window_Failed}"
  shows "worker_step env stop now out (Finalize i) s =
     (Poll, if j_cancel_requested r
            then touch i (cancelled_row (windows_of i s) now) (cancelled_window now) s
            else touch i (finished_row (final_status r) now) (\<lambda>w. w) s)"
proof -
  note facts = job_facts [OF ok r]
  have "j_total r = length (windows_of i s)"
    using job_okD [OF ok facts(1)] facts(2) by (simp add: job_ok_def)
  then have total: "j_completed r = j_total r"
    using all_counted [OF st] facts(3) by (simp add: counts_ok_def)
  have upd: "update_jobs (\<lambda>r'. j_id r' = i \<and> j_status r' = Job_Running)
      (\<lambda>r'. r'\<lparr>j_status := x, j_finished := Some now, j_updated := now\<rparr>) s
      = touch i (finished_row x now) (\<lambda>w. w) s" for x
    unfolding update_jobs_touch by (simp add: finished_row_def [abs_def])
  show ?thesis
    using r total
    by (simp add: guarded_def finalize_job_def locked_def transaction_def bind_require writing_def
        cancel_open_windows_touch upd bind_Inr get_job_def find_touch)
qed

lemma step_Begin:
  assumes "tables_ok env s" "find_job i s = Some r"
    "\<exists>v \<in> set (windows_of i s). v_window v = w \<and> v_payload v = p \<and> v_status v = Window_Queued"
  shows "worker_step env stop now out (Begin i w p) s =
    (Compute i w p, touch i (\<lambda>r. r) (started_window now w) s)"
proof -
  have "\<exists>v \<in> set (windows_of i s). v_window v = w \<and> v_status v = Window_Queued"
    using assms(3) by auto
  from start_window_run [OF windows_distinct [OF assms(1,2)] this] show ?thesis
    by (simp add: guarded_def)
qed

lemma step_Store:
  assumes "tables_ok env s" "find_job i s = Some r" "one_running w (windows_of i s)"
  shows "worker_step env stop now out (Store_Result i w d) s =
      (Loop i, touch i (recount (map (succeeded_window env now w d) (windows_of i s)) now)
        (succeeded_window env now w d) s)"
    and "worker_step env stop now out (Store_Failure i w code summary) s =
      (Loop i, touch i (recount (map (failed_window now w code summary) (windows_of i s)) now)
        (failed_window now w code summary) s)"
  using finish_run [OF windows_distinct [OF assms(1,2)] one_runningD [OF assms(3)]]
  by (simp_all add: guarded_def)

lemma step_Requeue:
  "worker_step env stop now out (Requeue i) s =
     (Poll, touch i (\<lambda>r. if j_status r = Job_Running then queued_row now r else r) queued_window s)"
proof -
  have w: "update_windows (\<lambda>w. v_job w = i \<and> v_status w = Window_Running)
      (\<lambda>w. w\<lparr>v_status := Window_Queued, v_started := None\<rparr>) = touch i (\<lambda>r. r) queued_window"
    by (simp only: update_windows_touch) (simp add: queued_window_def [abs_def])
  show ?thesis
    by (simp add: requeue_running_def locked_def transaction_def writing_def w update_jobs_touch
        touch_touch comp_def queued_row_def cong: if_cong)
qed

lemma first_by_Some:
  "first_by k xs = Some x \<Longrightarrow> x \<in> set xs \<and> (\<forall>y \<in> set xs. k x \<le> k y)"
proof -
  assume "first_by k xs = Some x"
  then obtain ys where ys: "sort_key k xs = x # ys" by (auto simp: first_by_def split: list.splits)
  then have "sorted (map k (x # ys))" by (metis sorted_sort_key)
  then show ?thesis using arg_cong [OF ys, of set] by auto
qed

lemma first_by_None: "first_by k xs = None \<longleftrightarrow> xs = []"
  by (auto simp: first_by_def split: list.splits) (metis length_sort length_0_conv)

text \<open>\<open>claim_next\<close> takes the queued job that was created first.\<close>

definition claimed_row :: "string \<Rightarrow> job_row \<Rightarrow> job_row" where
  "claimed_row now r =
     (if j_status r = Job_Queued
      then r\<lparr>j_status := Job_Running, j_attempt := Suc (j_attempt r),
             j_started := (case j_started r of None \<Rightarrow> Some now | Some t \<Rightarrow> Some t),
             j_updated := now\<rparr> else r)"

lemma claimed_row_simps [simp]:
  "same_job (claimed_row now)" "counts_ok (claimed_row now r) ws = counts_ok r ws"
  "j_cancel_requested (claimed_row now r) = j_cancel_requested r"
  by (auto intro!: same_jobI simp: claimed_row_def counts_ok_def)

lemma step_Claim:
  assumes ok: "tables_ok env s"
  shows "(\<forall>r \<in> set (jobs s). j_status r \<noteq> Job_Queued) \<and> worker_step env stop now out Claim s = (Poll, s)
    \<or> (\<exists>r \<in> set (jobs s). j_status r = Job_Queued
        \<and> (\<forall>q \<in> set (jobs s). j_status q = Job_Queued \<longrightarrow> j_created r \<le> j_created q)
        \<and> worker_step env stop now out Claim s = (Loop (j_id r), touch (j_id r) (claimed_row now) (\<lambda>w. w) s))"
proof (cases "first_by j_created (filter (\<lambda>r. j_status r = Job_Queued) (jobs s))")
  case None
  then have "\<forall>r \<in> set (jobs s). j_status r \<noteq> Job_Queued"
    by (simp add: first_by_None filter_empty_conv)
  moreover have "worker_step env stop now out Claim s = (Poll, s)"
    using None by (simp add: claim_next_def locked_def transaction_def ret_def)
  ultimately show ?thesis by simp
next
  case (Some r)
  note least = first_by_Some [OF Some]
  have "filter (\<lambda>q. j_id q = j_id r) (jobs s) = [r]"
    using ok least by (intro filter_key) (simp_all add: tables_ok_def)
  then have "filter (\<lambda>q. j_status q = Job_Queued) (filter (\<lambda>q. j_id q = j_id r) (jobs s)) = [r]"
    using least by simp
  then have n: "length (filter (\<lambda>q. j_id q = j_id r \<and> j_status q = Job_Queued) (jobs s)) = 1"
    by (simp add: conj_commute)
  have upd: "update_jobs (\<lambda>q. j_id q = j_id r \<and> j_status q = Job_Queued)
      (\<lambda>q. q\<lparr>j_status := Job_Running, j_attempt := Suc (j_attempt q),
             j_started := (case j_started q of None \<Rightarrow> Some now | Some t \<Rightarrow> Some t),
             j_updated := now\<rparr>) = touch (j_id r) (claimed_row now) (\<lambda>w. w)"
    unfolding update_jobs_touch by (simp add: claimed_row_def [abs_def])
  have "worker_step env stop now out Claim s = (Loop (j_id r), touch (j_id r) (claimed_row now) (\<lambda>w. w) s)"
    using Some n
    by (simp add: claim_next_def locked_def transaction_def bind_def update_jobs_count_def upd
        reading_def ret_def)
  then show ?thesis using least by auto
qed

section \<open>The invariant is kept by the worker\<close>

lemma status_running [simp]: "status_ok Job_Running c W = (Window_Cancelled \<notin> W)"
  by simp

lemma busy_row:
  assumes ok: "tables_ok env s" and r: "find_job i s = Some r" "j_status r = Job_Running"
  shows "Window_Cancelled \<notin> statuses (windows_of i s)" "windows_of i s \<noteq> []"
    "j_total r = length (windows_of i s)"
  using job_facts(1,2,4) [OF ok r(1)] r(2) job_okD [OF ok job_facts(1) [OF ok r(1)]]
  by (simp_all add: job_ok_def)

lemma work_Claim:
  assumes ok: "tables_ok env s" and idle: "idle s" and run: "worker_step env stop now out Claim s = (w', t)"
  shows "tables_ok env t \<and> worker_ok w' t"
  using step_Claim [OF ok, of stop now out]
proof (elim disjE conjE bexE)
  assume "worker_step env stop now out Claim s = (Poll, s)"
  then show ?thesis using run ok idle by simp
next
  fix r assume r: "r \<in> set (jobs s)" "j_status r = Job_Queued"
    and s: "worker_step env stop now out Claim s = (Loop (j_id r), touch (j_id r) (claimed_row now) (\<lambda>w. w) s)"
  have find: "find_job (j_id r) s = Some r" using r(1) find_job_Some [OF ok] by simp
  note facts = job_facts(3,4) [OF ok find]
  have c: "j_status (claimed_row now r) = Job_Running" using r(2) by (simp add: claimed_row_def)
  have W: "statuses (windows_of (j_id r) s) \<subseteq> {Window_Queued, Window_Succeeded, Window_Failed}"
    using facts(2) r(2) by simp
  have "tables_ok env (touch (j_id r) (claimed_row now) (\<lambda>w. w) s)"
    using facts c W by (intro tables_ok_touch_row [OF ok r(1)]) auto
  moreover have "busy (j_id r) (\<lambda>c ws. none_running ws) (touch (j_id r) (claimed_row now) (\<lambda>w. w) s)"
  proof -
    have "claimed_row now r \<in> set (jobs (touch (j_id r) (claimed_row now) (\<lambda>w. w) s))"
      unfolding jobs_touch using r(1) by force
    moreover have "j_id q = j_id r" if q: "q \<in> set (jobs (touch (j_id r) (claimed_row now) (\<lambda>w. w) s))"
        "j_status q = Job_Running" for q
      using q idle unfolding jobs_touch idle_def by (auto simp: same_jobD split: if_splits)
    moreover have "none_running (windows_of (j_id r) (touch (j_id r) (claimed_row now) (\<lambda>w. w) s))"
      using W by (auto simp: windows_of_touch none_running_def)
    ultimately show ?thesis
      using c by (auto simp: busy_def same_jobD)
  qed
  moreover have "w' = Loop (j_id r)" "t = touch (j_id r) (claimed_row now) (\<lambda>w. w) s"
    using s run by simp_all
  ultimately show ?thesis by simp
qed

lemma work_Cancel_Rest:
  assumes ok: "tables_ok env s" and r: "find_job i s = Some r" "j_cancel_requested r"
    and b: "busy i P s"
  shows "tables_ok env (touch i (cancelled_row (windows_of i s) now) (cancelled_window now) s)
    \<and> idle (touch i (cancelled_row (windows_of i s) now) (cancelled_window now) s)"
proof
  have "r \<in> set (jobs s)" "i = j_id r" using r(1) find_job_Some [OF ok] by auto
  then show "tables_ok env (touch i (cancelled_row (windows_of i s) now) (cancelled_window now) s)"
    using cancelled_counts cancelled_status [OF r(2)]
    by (intro tables_ok_touch_row [OF ok]) simp_all
  show "idle (touch i (cancelled_row (windows_of i s) now) (cancelled_window now) s)"
    by (rule idle_own_touch [OF ok b]) (simp_all add: cancelled_row_def)
qed

lemma count_status_0: "count_status (\<lambda>y. y = x) ws = 0 \<longleftrightarrow> x \<notin> statuses ws"
  by (auto simp: count_status_def statuses_def filter_empty_conv)

lemma count_status_all: "count_status (\<lambda>y. y = x) ws = length ws \<longleftrightarrow> statuses ws \<subseteq> {x}"
proof -
  have "length (filter p ws) = length ws \<longleftrightarrow> (\<forall>w \<in> set ws. p w)" for p
    by (metis filter_True length_filter_less less_irrefl)
  then show ?thesis by (auto simp: count_status_def statuses_def)
qed

lemma final_status_ok:
  assumes "counts_ok r ws" "j_total r = length ws" "ws \<noteq> []"
    "statuses ws \<subseteq> {Window_Succeeded, Window_Failed}"
  shows "status_ok (final_status r) c (statuses ws)"
proof -
  have "statuses ws \<noteq> {}" using assms(3) by (simp add: statuses_def)
  moreover have "j_failed r = 0 \<longleftrightarrow> Window_Failed \<notin> statuses ws"
    "j_succeeded r = 0 \<longleftrightarrow> Window_Succeeded \<notin> statuses ws"
    "j_succeeded r = j_total r \<longleftrightarrow> statuses ws \<subseteq> {Window_Succeeded}"
    using assms(1,2) by (simp_all add: counts_ok_def count_status_0 count_status_all)
  ultimately show ?thesis
    using assms(4) by (auto simp: final_status_def)
qed

lemma work_Store:
  fixes now :: string
  assumes ok: "tables_ok env s" and b: "busy i P s" and r: "find_job i s = Some r" "j_status r = Job_Running"
    and one: "one_running w (windows_of i s)" and same: "same_window g"
    and g: "\<And>v. v_status v = Window_Running \<Longrightarrow> v_window v = w \<Longrightarrow> v_status (g v) = x"
      "\<And>v. v_status v \<noteq> Window_Running \<Longrightarrow> g v = v"
    and x: "x \<in> {Window_Succeeded, Window_Failed}"
  defines "t \<equiv> touch i (recount (map g (windows_of i s)) now) g s"
  shows "tables_ok env t \<and> busy i (\<lambda>c ws. none_running ws) t"
proof
  note row = busy_row [OF ok r]
  have x': "x \<noteq> Window_Running" using x by auto
  note fin = finished_none_running [OF one g x']
  have "Window_Cancelled \<notin> statuses (map g (windows_of i s))"
    using fin(2) row(1) x by auto
  then show "tables_ok env t"
    unfolding t_def using r find_job_Some [OF ok] same
    by (intro tables_ok_touch_row [OF ok]) auto
  show "busy i (\<lambda>c ws. none_running ws) t"
    unfolding t_def
    by (rule busy_own_touch [OF ok b]) (use fin(1) same r in auto)
qed

lemma work_keeps:
  assumes ok: "tables_ok env s" and w: "worker_ok w s"
    and run: "worker_step env stop now out w s = (w', t)"
  shows "tables_ok env t \<and> worker_ok w' t"
proof (cases w)
  case Down
  then show ?thesis using assms by simp
next
  case Poll
  then show ?thesis using assms by (auto split: if_splits)
next
  case Claim
  then show ?thesis using work_Claim [OF ok] assms by simp
next
  case (Loop i)
  then show ?thesis using assms by (auto split: if_splits)
next
  case (Ask i)
  then have b: "busy i (\<lambda>c ws. none_running ws) s" using w by simp
  obtain r where r: "find_job i s = Some r" "none_running (windows_of i s)" by (rule busyE [OF ok b])
  have res: "w' = (if j_cancel_requested r then Cancel_Rest i else Fetch i)" "t = s"
    using run Ask step_Ask [OF r(1)] by (simp_all del: worker_step.simps)
  have "busy i (\<lambda>c ws. c \<and> none_running ws) s" if "j_cancel_requested r"
  proof -
    have "busy i (\<lambda>c ws. c \<and> none_running ws) (touch i (\<lambda>r. r) (\<lambda>w. w) s)"
      by (rule busy_own_touch [OF ok b]) (use r that busyE [OF ok b] in auto)
    then show ?thesis by (simp add: touch_def)
  qed
  then show ?thesis using ok b res by simp
next
  case (Cancel_Rest i)
  then have b: "busy i (\<lambda>c ws. c \<and> none_running ws) s" using w by simp
  obtain r where r: "find_job i s = Some r" "j_cancel_requested r" using busyE [OF ok b] by metis
  show ?thesis
    using run work_Cancel_Rest [OF ok r b, of now] unfolding Cancel_Rest step_Cancel_Rest by auto
next
  case (Fetch i)
  then have b: "busy i (\<lambda>c ws. none_running ws) s" using w by simp
  obtain r where r: "find_job i s = Some r" "j_status r = Job_Running" "none_running (windows_of i s)"
    by (rule busyE [OF ok b])
  let ?q = "filter (\<lambda>w. v_status w = Window_Queued) (windows_of i s)"
  have same: "touch i (\<lambda>r. r) (\<lambda>w. w) s = s" by (simp add: touch_def)
  show ?thesis
  proof (cases "first_by v_position ?q")
    case None
    have "statuses (windows_of i s) \<subseteq> {Window_Succeeded, Window_Failed}"
    proof
      fix x assume x: "x \<in> statuses (windows_of i s)"
      then have "x \<noteq> Window_Queued"
        using None by (auto simp: first_by_None filter_empty_conv statuses_def)
      moreover have "x \<noteq> Window_Running" "x \<noteq> Window_Cancelled"
        using x r(3) busy_row(1) [OF ok r(1,2)] by (auto simp: none_running_def)
      ultimately show "x \<in> {Window_Succeeded, Window_Failed}" by (cases x) auto
    qed
    then have "busy i (\<lambda>c ws. statuses ws \<subseteq> {Window_Succeeded, Window_Failed}) s"
      using busy_own_touch [OF ok b same_trivial(2,1), of "\<lambda>c ws. statuses ws \<subseteq> {Window_Succeeded, Window_Failed}"]
        r(1,2) unfolding same by simp
    then show ?thesis
      using None run Fetch ok by (auto simp: next_queued_window_def)
  next
    case (Some v)
    then have v: "v \<in> set (windows_of i s)" "v_status v = Window_Queued"
      using first_by_Some by fastforce+
    then have "busy i (\<lambda>c ws. none_running ws \<and> (\<exists>u \<in> set ws. v_window u = v_window v
        \<and> v_payload u = v_payload v \<and> v_status u = Window_Queued)) s"
      using busy_own_touch [OF ok b same_trivial(2,1), of "\<lambda>c ws. none_running ws \<and> (\<exists>u \<in> set ws.
        v_window u = v_window v \<and> v_payload u = v_payload v \<and> v_status u = Window_Queued)"] r
      unfolding same by auto
    then show ?thesis
      using Some run Fetch ok by (auto simp: next_queued_window_def)
  qed
next
  case (Finalize i)
  then have b: "busy i (\<lambda>c ws. statuses ws \<subseteq> {Window_Succeeded, Window_Failed}) s" using w by simp
  obtain r where r: "find_job i s = Some r" "j_status r = Job_Running"
      "statuses (windows_of i s) \<subseteq> {Window_Succeeded, Window_Failed}" by (rule busyE [OF ok b])
  note step = step_Finalize [OF ok r(1,3), of stop now out]
  show ?thesis
  proof (cases "j_cancel_requested r")
    case True
    then show ?thesis using run Finalize step work_Cancel_Rest [OF ok r(1) True b, of now]
      by (auto simp del: worker_step.simps)
  next
    case False
    let ?t = "touch i (finished_row (final_status r) now) (\<lambda>w. w) s"
    have f: "j_status (finished_row (final_status r) now r) = final_status r"
      using r(2) by (simp add: finished_row_def)
    note facts = job_facts(1-3) [OF ok r(1)]
    have "tables_ok env ?t"
      using facts busy_row [OF ok r(1,2)] r(3)
      by (intro tables_ok_touch_row [OF ok facts(1)]) (auto simp: f intro: final_status_ok simp del: status_ok.simps)
    moreover have "idle ?t"
      using f r(1) by (intro idle_own_touch [OF ok b]) (auto simp: final_status_def)
    ultimately show ?thesis using run Finalize step False by (simp del: worker_step.simps)
  qed
next
  case (Begin i v p)
  then have b: "busy i (\<lambda>c ws. none_running ws
      \<and> (\<exists>u \<in> set ws. v_window u = v \<and> v_payload u = p \<and> v_status u = Window_Queued)) s" using w by simp
  obtain r where r: "find_job i s = Some r" "j_status r = Job_Running" "none_running (windows_of i s)"
      "\<exists>u \<in> set (windows_of i s). v_window u = v \<and> v_payload u = p \<and> v_status u = Window_Queued"
    using busyE [OF ok b] by metis
  note facts = job_facts(1-3) [OF ok r(1)]
  let ?ws = "map (started_window now v) (windows_of i s)"
  have count: "count_status q ?ws = count_status q (windows_of i s)" if "q Window_Queued = q Window_Running" for q
    using that by (intro count_status_map) (simp add: started_window_def)
  have "Window_Cancelled \<notin> statuses ?ws"
    using busy_row(1) [OF ok r(1,2)] by (force simp: statuses_def started_window_def)
  then have "tables_ok env (touch i (\<lambda>r. r) (started_window now v) s)"
    using facts r(2) by (intro tables_ok_touch_row [OF ok facts(1)])
      (simp_all add: counts_ok_def count window_terminal_def)
  moreover have keep: "\<exists>u \<in> set ?ws. v_window u = v \<and> v_payload u = p"
    using r(4) same_worked(1) [of now v] unfolding same_window_def by fastforce
  moreover have "one_running v ?ws"
    using started_one_running [OF windows_distinct [OF ok r(1)] r(3)] r(4) by auto
  then have "busy i (\<lambda>c ws. one_running v ws \<and> (\<exists>u \<in> set ws. v_window u = v \<and> v_payload u = p))
      (touch i (\<lambda>r. r) (started_window now v) s)"
    using r(1,2) keep by (intro busy_own_touch [OF ok b]) auto
  ultimately show ?thesis
    using run Begin step_Begin [OF ok r(1,4), of stop now out] by (auto simp del: worker_step.simps)
next
  case (Compute i v p)
  then have "busy i (\<lambda>c ws. one_running v ws) s" using w by (auto elim: busy_mono)
  then show ?thesis using run Compute ok by (auto simp: after_compute_def split: operation_outcome.splits)
next
  case (Store_Result i v d)
  then have b: "busy i (\<lambda>c ws. one_running v ws) s" using w by simp
  obtain r where r: "find_job i s = Some r" "j_status r = Job_Running" "one_running v (windows_of i s)"
    by (rule busyE [OF ok b])
  show ?thesis
    using run Store_Result step_Store(1) [OF ok r(1,3), of stop now out d]
      work_Store [OF ok b r(1,2,3), of "succeeded_window env now v d" Window_Succeeded now]
    by (auto simp: succeeded_window_def simp del: worker_step.simps)
next
  case (Store_Failure i v code summary)
  then have b: "busy i (\<lambda>c ws. one_running v ws) s" using w by simp
  obtain r where r: "find_job i s = Some r" "j_status r = Job_Running" "one_running v (windows_of i s)"
    by (rule busyE [OF ok b])
  show ?thesis
    using run Store_Failure step_Store(2) [OF ok r(1,3), of stop now out code summary]
      work_Store [OF ok b r(1,2,3), of "failed_window now v code summary" Window_Failed now]
    by (auto simp: failed_window_def simp del: worker_step.simps)
next
  case (Requeue i)
  then have b: "busy i (\<lambda>c ws. none_running ws) s" using w by simp
  obtain r where r: "find_job i s = Some r" "j_status r = Job_Running" by (rule busyE [OF ok b])
  note facts = job_facts(1,2) [OF ok r(1)]
  have eq: "touch i (\<lambda>r. if j_status r = Job_Running then queued_row now r else r) queued_window s
      = touch i (queued_row now) queued_window s"
  proof -
    have "map (\<lambda>r. if j_id r = i then if j_status r = Job_Running then queued_row now r else r else r) (jobs s)
        = map (\<lambda>r. if j_id r = i then queued_row now r else r) (jobs s)"
      using job_facts(5) [OF ok r(1)] r(2) by (intro map_cong refl) (metis (no_types))
    then show ?thesis by (simp add: touch_def)
  qed
  have "idle (touch i (queued_row now) queued_window s)"
    by (rule idle_own_touch [OF ok b]) simp_all
  then show ?thesis
    using run Requeue step_Requeue [of env stop now out i s] requeue_row_ok [OF ok facts(1) r(2), of now]
    unfolding eq facts(2) by (simp del: worker_step.simps)
qed

section \<open>Every action\<close>

lemma perform_ok:
  assumes "manager_ok env m"
  shows "manager_ok env (perform env n a m)"
proof (cases a)
  case (Start_Manager now)
  then show ?thesis
    using assms recover_interrupted_ok [of env "tables m" now]
    by (simp add: manager_ok_def start_manager_def)
next
  case (Work now out)
  then show ?thesis
    using assms work_keeps [of env "tables m" "worker m" "stopping m" now out]
    by (auto simp: manager_ok_def simp del: worker_step.simps split: prod.split)
qed (use assms submit_job_ok [of env "tables m"] replay_job_ok [of env "tables m"]
    cancel_job_ok [of env "tables m"] archive_job_ok [of env "tables m"] in \<open>simp_all add: manager_ok_def\<close>)

lemma manager_reachable_ok: "manager_reachable env n m \<Longrightarrow> manager_ok env m"
proof (induction rule: manager_reachable.induct)
  case manager_reachable_start
  show ?case by (simp add: manager_ok_def no_jobs_def tables_ok_def)
qed (rule perform_ok)

end
