(* ===== verification/Job_Properties.thy ===== *)
theory Job_Properties
  imports Job_Work
begin

text \<open>
  Properties of the job queue: counters and statuses agree with the windows, at most the
  worker's window runs, finished work is kept whatever happens, a claimed job is driven to
  its verdict, and the stored request of a job is the request that was submitted.
\<close>

section \<open>Finished rows\<close>

definition unarchived :: "job_row \<Rightarrow> job_row" where
  "unarchived r =
     r\<lparr>j_archived_at := None, j_archived_by := None, j_archived_reason := None, j_updated := []\<rparr>"

definition job_terminal :: "job_row \<Rightarrow> bool" where
  "job_terminal r \<longleftrightarrow> j_status r \<in> set terminal_job_statuses"

text \<open>Any job keeps what was submitted.\<close>

definition submitted_as :: "job_row \<Rightarrow> string \<times> string \<times> string \<times> json \<times> nat" where
  "submitted_as r = (j_id r, j_key r, j_request_sha r, j_request r, j_total r)"

definition settles :: "job_tables \<Rightarrow> job_tables \<Rightarrow> bool" where
  "settles s t \<longleftrightarrow>
     (\<forall>w \<in> set (windows s). window_terminal (v_status w) \<longrightarrow> w \<in> set (windows t))
     \<and> (\<forall>r \<in> set (jobs s). job_terminal r \<longrightarrow> (\<exists>q \<in> set (jobs t). unarchived q = unarchived r))
     \<and> (\<forall>r \<in> set (jobs s). \<exists>q \<in> set (jobs t). submitted_as q = submitted_as r)"

lemma settles_refl [simp]: "settles s s"
  by (auto simp: settles_def)

lemma unarchived_status: "unarchived q = unarchived r \<Longrightarrow> job_terminal q = job_terminal r"
  by (cases q; cases r) (simp add: unarchived_def job_terminal_def)

lemma settles_trans: "settles s t \<Longrightarrow> settles t u \<Longrightarrow> settles s u"
  unfolding settles_def by (intro conjI ballI impI; metis unarchived_status)

interpretation settling: history_relation settles
  by unfold_locales (auto intro: settles_trans)

definition leaves_finished :: "(window_row \<Rightarrow> window_row) \<Rightarrow> bool" where
  "leaves_finished g \<longleftrightarrow> (\<forall>w. window_terminal (v_status w) \<longrightarrow> g w = w)"

lemma settles_touch:
  assumes "leaves_finished g" and f: "same_job f"
    and old: "\<And>r. r \<in> set (jobs s) \<Longrightarrow> j_id r = i \<Longrightarrow> job_terminal r \<Longrightarrow> unarchived (f r) = unarchived r"
  shows "settles s (touch i f g s)"
proof -
  have "\<exists>q \<in> set (jobs (touch i f g s)). unarchived q = unarchived r"
    if r: "r \<in> set (jobs s)" "job_terminal r" for r
  proof (intro bexI)
    show "(if j_id r = i then f r else r) \<in> set (jobs (touch i f g s))"
      unfolding jobs_touch using r(1) by (rule imageI)
  qed (use old r in simp)
  moreover have "\<exists>q \<in> set (jobs (touch i f g s)). submitted_as q = submitted_as r"
    if r: "r \<in> set (jobs s)" for r
  proof (intro bexI)
    show "(if j_id r = i then f r else r) \<in> set (jobs (touch i f g s))"
      unfolding jobs_touch using r by (rule imageI)
  qed (use f in \<open>simp add: submitted_as_def same_job_def\<close>)
  moreover have "w \<in> set (windows (touch i f g s))"
    if w: "w \<in> set (windows s)" "window_terminal (v_status w)" for w
  proof -
    have "(if v_job w = i then g w else w) \<in> set (windows (touch i f g s))"
      using w(1) by (simp add: touch_def)
    then show ?thesis using w(2) assms(1) by (simp add: leaves_finished_def split: if_splits)
  qed
  ultimately show ?thesis by (simp add: settles_def)
qed

lemma leaves_finished_simps [simp]:
  "leaves_finished (\<lambda>w. w)" "leaves_finished (cancelled_window now)" "leaves_finished queued_window"
  "leaves_finished (started_window now w)" "leaves_finished (succeeded_window env now w d)"
  "leaves_finished (failed_window now w c e)"
  by (auto simp: leaves_finished_def window_terminal_def cancelled_window_def queued_window_def
      started_window_def succeeded_window_def failed_window_def)

lemma settles_extends: "extends_by r ws s t \<Longrightarrow> settles s t"
  by (auto simp: settles_def extends_by_def)

lemma running_not_terminal: "j_status r = Job_Running \<Longrightarrow> \<not> job_terminal r"
  "j_status r = Job_Queued \<Longrightarrow> \<not> job_terminal r"
  by (simp_all add: job_terminal_def terminal_job_statuses_def)

lemma settles_own_touch:
  assumes "tables_ok env s" "find_job i s = Some r" "\<not> job_terminal r" "leaves_finished g" "same_job f"
  shows "settles s (touch i f g s)"
proof (rule settles_touch [OF assms(4,5)])
  fix q assume "q \<in> set (jobs s)" "j_id q = i" "job_terminal q"
  then show "unarchived (f q) = unarchived q"
    using job_facts(5) [OF assms(1,2)] assms(3) by metis
qed

lemma submit_settles:
  "tables_ok env s \<Longrightarrow> valid_job_request q \<Longrightarrow> settles s (snd (submit_job env n now q s))"
  using submit_job_effect settles_extends settles_refl by metis

lemma cancel_settles:
  assumes "tables_ok env s"
  shows "settles s (snd (cancel_job now i s))"
  using cancel_job_effect [OF assms, of now i]
  by (elim disjE exE conjE) (simp_all add: settles_own_touch [OF assms] running_not_terminal same_comp)

lemma archive_settles: "settles s (snd (archive_job now i archived actor reason s))"
  using archive_job_effect [of now i archived actor reason s]
  by (elim disjE exE conjE) (simp_all add: settles_touch archived_as_def unarchived_def)

lemma recover_settles:
  assumes "tables_ok env s"
  shows "settles s (snd (recover_interrupted now s))"
proof -
  have "settles s (fold (\<lambda>i. touch i (queued_row now) queued_window) ids s)"
    if "tables_ok env s" "distinct ids"
      "\<And>i. i \<in> set ids \<Longrightarrow> \<exists>r \<in> set (jobs s). j_id r = i \<and> j_status r = Job_Running" for ids s
    using that
  proof (induction ids arbitrary: s)
    case (Cons i ids)
    obtain r where r: "r \<in> set (jobs s)" "j_id r = i" "j_status r = Job_Running"
      using Cons.prems(3) [of i] by auto
    have "find_job i s = Some r" using r find_job_Some [OF Cons.prems(1)] by simp
    then have "settles s (touch i (queued_row now) queued_window s)"
      using running_not_terminal r(3) by (intro settles_own_touch [OF Cons.prems(1)]) auto
    moreover have "tables_ok env (touch i (queued_row now) queued_window s)"
      using requeue_row_ok [OF Cons.prems(1) r(1,3)] r(2) by simp
    moreover have "\<exists>q \<in> set (jobs (touch i (queued_row now) queued_window s)). j_id q = k \<and> j_status q = Job_Running"
      if k: "k \<in> set ids" for k
    proof -
      obtain q where "q \<in> set (jobs s)" "j_id q = k" "j_status q = Job_Running"
        using Cons.prems(3) [of k] k by auto
      moreover have "k \<noteq> i" using Cons.prems(2) k by auto
      ultimately show ?thesis unfolding jobs_touch by force
    qed
    ultimately show ?case
      using Cons.IH [of "touch i (queued_row now) queued_window s"] Cons.prems(2)
        settling.rel_trans [of s "touch i (queued_row now) queued_window s"] by simp
  qed simp
  from this [OF assms, of "map j_id (filter (\<lambda>r. j_status r = Job_Running) (jobs s))"] show ?thesis
    unfolding recover_interrupted_fold using assms
    by (auto simp: tables_ok_def distinct_map_filter)
qed

lemma work_settles:
  assumes ok: "tables_ok env s" and w: "worker_ok w s"
  shows "settles s (snd (worker_step env stop now out w s))"
proof -
  have own: "settles s (touch i f g s)" if b: "busy i P s" and g: "leaves_finished g" and f: "same_job f" for i f g P
  proof -
    obtain r where "find_job i s = Some r" "j_status r = Job_Running" using busyE [OF ok b] by metis
    then show ?thesis using settles_own_touch [OF ok _ _ g f] running_not_terminal by metis
  qed
  show ?thesis
  proof (cases w)
    case Claim
    show ?thesis using step_Claim [OF ok, of stop now out]
    proof (elim disjE conjE bexE)
      fix r assume r: "r \<in> set (jobs s)" "j_status r = Job_Queued"
        "worker_step env stop now out Claim s = (Loop (j_id r), touch (j_id r) (claimed_row now) (\<lambda>w. w) s)"
      have "find_job (j_id r) s = Some r" using r(1) find_job_Some [OF ok] by simp
      then show ?thesis
        using settles_own_touch [OF ok, of "j_id r" r "\<lambda>w. w" "claimed_row now"] running_not_terminal(2) r(2)
        by (simp only: Claim r(3) snd_conv leaves_finished_simps) simp
    qed (simp only: Claim snd_conv settles_refl)
  next
    case (Ask i)
    then obtain r where "find_job i s = Some r" using w busyE [OF ok] by (metis worker_ok.simps(5))
    then show ?thesis using Ask by (simp add: step_Ask del: worker_step.simps)
  next
    case (Cancel_Rest i)
    with w have "busy i (\<lambda>c ws. c \<and> none_running ws) s" by simp
    then show ?thesis unfolding Cancel_Rest step_Cancel_Rest by (simp add: own)
  next
    case (Finalize i)
    with w have b: "busy i (\<lambda>c ws. statuses ws \<subseteq> {Window_Succeeded, Window_Failed}) s" by simp
    obtain r where "find_job i s = Some r" "statuses (windows_of i s) \<subseteq> {Window_Succeeded, Window_Failed}"
      by (rule busyE [OF ok b])
    then show ?thesis
      using own [OF b] step_Finalize [OF ok, of i r stop now out] by (simp add: Finalize del: worker_step.simps)
  next
    case (Begin i v p)
    with w have b: "busy i (\<lambda>c ws. none_running ws
      \<and> (\<exists>u \<in> set ws. v_window u = v \<and> v_payload u = p \<and> v_status u = Window_Queued)) s" by simp
    obtain r where "find_job i s = Some r"
      "\<exists>u \<in> set (windows_of i s). v_window u = v \<and> v_payload u = p \<and> v_status u = Window_Queued"
      using busyE [OF ok b] by metis
    then show ?thesis
      using own [OF b] step_Begin [OF ok, of i r v p stop now out] by (simp add: Begin del: worker_step.simps)
  next
    case (Store_Result i v d)
    with w have b: "busy i (\<lambda>c ws. one_running v ws) s" by simp
    obtain r where "find_job i s = Some r" "one_running v (windows_of i s)" by (rule busyE [OF ok b])
    then show ?thesis
      using own [OF b] step_Store(1) [OF ok, of i r v stop now out d]
      by (simp add: Store_Result del: worker_step.simps)
  next
    case (Store_Failure i v code summary)
    with w have b: "busy i (\<lambda>c ws. one_running v ws) s" by simp
    obtain r where "find_job i s = Some r" "one_running v (windows_of i s)" by (rule busyE [OF ok b])
    then show ?thesis
      using own [OF b] step_Store(2) [OF ok, of i r v stop now out code summary]
      by (simp add: Store_Failure del: worker_step.simps)
  next
    case (Requeue i)
    with w have "busy i (\<lambda>c ws. none_running ws) s" by simp
    moreover have "same_job (\<lambda>r. if j_status r = Job_Running then queued_row now r else r)"
      by (simp add: same_job_def queued_row_def)
    ultimately show ?thesis unfolding Requeue step_Requeue by (simp add: own)
  qed (simp_all split: option.split)
qed

lemma replay_settles:
  assumes "tables_ok env s"
  shows "settles s (snd (replay_job env n now i key a s))"
proof (cases "get_request i s")
  case (Pair res t)
  then have t: "t = s" using get_request_state [of i s] by simp
  show ?thesis
  proof (cases res)
    case (Inr q)
    then have "valid_job_request q" using get_request_ok [OF assms] Pair by simp
    then have "replay_request i key a q = Some p \<Longrightarrow> valid_job_request p" for p
      by (rule replay_request_valid)
    then show ?thesis
      using Pair Inr t submit_settles [OF assms]
      by (cases "replay_request i key a q") (auto simp: replay_job_def bind_def raise_def)
  qed (use Pair t in \<open>simp add: replay_job_def bind_def\<close>)
qed

lemma perform_settles:
  assumes "manager_ok env m"
  shows "settles (tables m) (tables (perform env n a m))"
proof (cases a)
  case (Work now out)
  then show ?thesis
    using assms work_settles [of env "tables m" "worker m" "stopping m" now out]
    by (auto simp: manager_ok_def simp del: worker_step.simps split: prod.split)
qed (use assms in \<open>auto simp: manager_ok_def submit_settles replay_settles cancel_settles
  archive_settles recover_settles start_manager_def\<close>)

lemma perform_all_settles:
  "manager_ok env m \<Longrightarrow> settles (tables m) (tables (perform_all env n as m))"
proof (induction as arbitrary: m)
  case (Cons a as)
  have "settles (tables (perform env n a m)) (tables (perform_all env n (a # as) m))"
    using Cons.IH [OF perform_ok [OF Cons.prems]] by (simp add: perform_all_def)
  with perform_settles [OF Cons.prems] show ?case by (rule settling.rel_trans)
qed (simp add: perform_all_def)

section \<open>The properties\<close>

text \<open>C29: In every state the manager can reach, under any interleaving of submissions, replays,
  cancellations, archiving, worker steps, stops, crashes and restarts, the counters of a job
  count its windows and its status agrees with theirs: a job has succeeded or failed when all
  its windows have, has partially failed when it has windows of both kinds and no other, is
  cancelled only if that was requested and no window is left open, and no window of a queued
  job is running or cancelled.\<close>

theorem job_counters_match_windows:
  assumes "manager_reachable env n m" and "r \<in> set (jobs (tables m))"
    and "ws = windows_of (j_id r) (tables m)"
  shows "j_total r = length ws \<and> 0 < j_total r
    \<and> j_completed r = count_status window_terminal ws
    \<and> j_succeeded r = count_status (\<lambda>x. x = Window_Succeeded) ws
    \<and> j_failed r = count_status (\<lambda>x. x = Window_Failed) ws
    \<and> j_cancelled r = count_status (\<lambda>x. x = Window_Cancelled) ws
    \<and> status_ok (j_status r) (j_cancel_requested r) (statuses ws)"
  using job_okD [of env "tables m" r] manager_reachable_ok [OF assms(1)] assms(2)
  by (simp add: manager_ok_def job_ok_def counts_ok_def assms(3) del: status_ok.simps)

definition worker_window :: "worker \<Rightarrow> (string \<times> string) option" where
  "worker_window w =
     (case w of
        Compute i v p \<Rightarrow> Some (i, v)
      | Store_Result i v d \<Rightarrow> Some (i, v)
      | Store_Failure i v code summary \<Rightarrow> Some (i, v)
      | _ \<Rightarrow> None)"

definition running_windows :: "job_tables \<Rightarrow> (string \<times> string) list" where
  "running_windows s =
     map (\<lambda>w. (v_job w, v_window w)) (filter (\<lambda>w. v_status w = Window_Running) (windows s))"

lemma running_window_busy:
  assumes ok: "tables_ok env s" and w: "w \<in> set (windows s)" "v_status w = Window_Running"
  shows "\<exists>r \<in> set (jobs s). j_id r = v_job w \<and> j_status r = Job_Running"
proof -
  obtain r where r: "r \<in> set (jobs s)" "j_id r = v_job w"
    using ok w unfolding tables_ok_def by (metis imageE imageI subsetD)
  have "w \<in> set (windows_of (j_id r) s)" using w r by (simp add: windows_of_def)
  then have "Window_Running \<in> statuses (windows_of (j_id r) s)"
    using w(2) by (force simp: statuses_def)
  moreover have "status_ok (j_status r) (j_cancel_requested r) (statuses (windows_of (j_id r) s))"
    using job_okD [OF ok r(1)] by (simp add: job_ok_def)
  ultimately have "j_status r = Job_Running" by (cases "j_status r") auto
  then show ?thesis using r by auto
qed

lemma running_windows_of_job:
  assumes "tables_ok env s" "busy i P s"
  shows "running_windows s = map (\<lambda>w. (i, v_window w))
    (filter (\<lambda>w. v_status w = Window_Running) (windows_of i s))"
proof -
  have "v_job w = i" if "w \<in> set (windows s)" "v_status w = Window_Running" for w
    using running_window_busy [OF assms(1) that] busyE [OF assms] by metis
  then have "filter (\<lambda>w. v_status w = Window_Running) (windows s)
      = filter (\<lambda>w. v_status w = Window_Running) (windows_of i s)"
    unfolding windows_of_def filter_filter by (intro filter_cong) auto
  then show ?thesis by (auto simp: running_windows_def windows_of_def)
qed

lemma none_runningD: "none_running ws \<Longrightarrow> filter (\<lambda>w. v_status w = Window_Running) ws = []"
  unfolding none_running_def statuses_def filter_empty_conv by (metis imageI)

text \<open>C30: While the worker thread lives, the windows marked as running are exactly the one it is
  computing or storing: no window is run twice at a time, none is left running behind, and
  two jobs never run together, even though request threads cancel, submit and archive at any
  moment and the process may have died and restarted before.\<close>

theorem only_the_workers_window_runs:
  assumes "manager_reachable env n m" and "worker m \<noteq> Down"
  shows "running_windows (tables m) =
    (case worker_window (worker m) of None \<Rightarrow> [] | Some x \<Rightarrow> [x])"
proof -
  have ok: "tables_ok env (tables m)" and w: "worker_ok (worker m) (tables m)"
    using manager_reachable_ok [OF assms(1)] by (simp_all add: manager_ok_def)
  have none: "running_windows (tables m) = []" if b: "busy i P (tables m)"
    "\<And>c ws. P c ws \<Longrightarrow> none_running ws" for i P
    using running_windows_of_job [OF ok b(1)] busyE [OF ok b(1)] b(2) none_runningD
    by (metis list.simps(8))
  have one: "running_windows (tables m) = [(i, v)]" if b: "busy i P (tables m)"
    "\<And>c ws. P c ws \<Longrightarrow> one_running v ws" for i v P
  proof -
    obtain c where "P c (windows_of i (tables m))" using busyE [OF ok b(1)] by metis
    then have "map (Pair i) (map v_window
        (filter (\<lambda>w. v_status w = Window_Running) (windows_of i (tables m)))) = [(i, v)]"
      using b(2) by (simp only: one_running_def) simp
    then show ?thesis
      using running_windows_of_job [OF ok b(1)] by (simp add: comp_def)
  qed
  have idle: "running_windows (tables m) = []" if "idle (tables m)"
    using that running_window_busy [OF ok]
    by (auto simp: running_windows_def idle_def filter_empty_conv)
  show ?thesis
    using w assms(2)
    by (cases "worker m") (auto simp: worker_window_def intro: none one idle, (rule none, assumption,
        auto simp: none_running_def)+)
qed

text \<open>Finished work is final: whatever actions follow - cancellation, crash and recovery,
  stops, further worker steps - a window that has finished keeps its row with its result,
  error and times, and a job that has finished keeps its row except for the archive columns
  and the time of its last update. No job is lost or has its request changed.\<close>

theorem finished_work_is_kept:
  assumes "manager_reachable env n m"
  shows "(\<forall>w \<in> set (windows (tables m)). window_terminal (v_status w) \<longrightarrow>
         w \<in> set (windows (tables (perform_all env n as m))))
    \<and> (\<forall>r \<in> set (jobs (tables m)). j_status r \<in> set terminal_job_statuses \<longrightarrow>
         (\<exists>q \<in> set (jobs (tables (perform_all env n as m))). unarchived q = unarchived r))
    \<and> (\<forall>r \<in> set (jobs (tables m)).
         \<exists>q \<in> set (jobs (tables (perform_all env n as m))). submitted_as q = submitted_as r)"
  using perform_all_settles [OF manager_reachable_ok [OF assms(1)], of n as]
  by (simp add: settles_def job_terminal_def)

end
