(* ===== verification/Job_Runs.thy ===== *)
theory Job_Runs
  imports Job_Properties
begin

text \<open>
  Runs of the worker: left alone it drives the job it has claimed to its verdict in a number
  of steps fixed by the windows that are still queued. The stored request of a job is the
  request that was submitted. A small scenario for the witnesses.
\<close>

section \<open>Runs\<close>

text \<open>
  Steps of the worker with nobody else acting and no stop asked for. \<open>clock k\<close> is the time
  read by the step with \<open>k\<close> more to come; the operation's outcome is a function of the payload.
\<close>

definition outcome_at :: "(json \<Rightarrow> operation_outcome) \<Rightarrow> worker \<Rightarrow> operation_outcome" where
  "outcome_at operation w = (case w of Compute i v p \<Rightarrow> operation p | _ \<Rightarrow> Other_Error)"

primrec worker_steps ::
    "job_env \<Rightarrow> (json \<Rightarrow> operation_outcome) \<Rightarrow> (nat \<Rightarrow> string) \<Rightarrow> nat \<Rightarrow> worker \<times> job_tables \<Rightarrow> worker \<times> job_tables" where
  "worker_steps env operation clock 0 x = x"
| "worker_steps env operation clock (Suc k) x =
     worker_steps env operation clock k
       (worker_step env False (clock k) (outcome_at operation (fst x)) (fst x) (snd x))"

definition verdict_of :: "(json \<Rightarrow> operation_outcome) \<Rightarrow> window_row \<Rightarrow> window_status" where
  "verdict_of operation w =
     (if v_status w = Window_Queued
      then (case operation (v_payload w) of Result d \<Rightarrow> Window_Succeeded | _ \<Rightarrow> Window_Failed)
      else v_status w)"

definition job_verdict :: "window_status list \<Rightarrow> job_status" where
  "job_verdict xs =
     (if list_all (\<lambda>x. x = Window_Succeeded) xs then Job_Succeeded
      else if list_all (\<lambda>x. x \<noteq> Window_Succeeded) xs then Job_Failed
      else Job_Partial_Failed)"

definition queued_windows :: "window_row list \<Rightarrow> nat" where
  "queued_windows ws = count_status (\<lambda>x. x = Window_Queued) ws"

text \<open>Storing the outcome of the running window, whichever it is.\<close>

definition stored_window :: "job_env \<Rightarrow> string \<Rightarrow> string \<Rightarrow> operation_outcome \<Rightarrow> window_row \<Rightarrow> window_row" where
  "stored_window env now w out =
     (case after_compute [] w out of
        Store_Result i v d \<Rightarrow> succeeded_window env now v d
      | Store_Failure i v code summary \<Rightarrow> failed_window now v code summary
      | _ \<Rightarrow> (\<lambda>x. x))"

lemma step_store_outcome:
  assumes "tables_ok env s" "find_job i s = Some r" "one_running w (windows_of i s)"
  shows "worker_step env stop now out' (after_compute i w out) s =
    (Loop i, touch i (recount (map (stored_window env now w out) (windows_of i s)) now)
       (stored_window env now w out) s)"
  using step_Store [OF assms]
  by (cases out) (simp_all add: after_compute_def stored_window_def del: worker_step.simps)

lemma stored_window_simps:
  "same_window (stored_window env now w out)"
  "v_status u = Window_Running \<Longrightarrow> v_window u = w \<Longrightarrow> v_status (stored_window env now w out u) =
     (case out of Result d \<Rightarrow> Window_Succeeded | _ \<Rightarrow> Window_Failed)"
  "v_status u \<noteq> Window_Running \<Longrightarrow> stored_window env now w out u = u"
  by (simp_all add: stored_window_def after_compute_def succeeded_window_def failed_window_def
      split: operation_outcome.split)

lemma length_filter_except:
  "distinct xs \<Longrightarrow> x \<in> set xs \<Longrightarrow> p x \<Longrightarrow> Suc (length (filter (\<lambda>u. p u \<and> u \<noteq> x) xs)) = length (filter p xs)"
proof (induction xs)
  case (Cons y ys)
  show ?case
  proof (cases "y = x")
    case True
    then have "filter (\<lambda>u. p u \<and> u \<noteq> x) ys = filter p ys"
      using Cons.prems(1) by (intro filter_cong) auto
    then show ?thesis using True Cons.prems(3) by simp
  qed (use Cons in simp)
qed simp

lemma worker_round:
  assumes ok: "tables_ok env s" and b: "worker_ok (Loop i) s" and r: "find_job i s = Some r"
    and nc: "\<not> j_cancel_requested r" and q: "queued_windows (windows_of i s) \<noteq> 0"
  shows "\<exists>t r'. worker_steps env operation clock (6 + k) (Loop i, s) = worker_steps env operation clock k (Loop i, t)
    \<and> tables_ok env t \<and> worker_ok (Loop i) t \<and> find_job i t = Some r' \<and> \<not> j_cancel_requested r'
    \<and> map (verdict_of operation) (windows_of i t) = map (verdict_of operation) (windows_of i s)
    \<and> Suc (queued_windows (windows_of i t)) = queued_windows (windows_of i s)"
proof -
  let ?ws = "windows_of i s"
  have bs: "busy i (\<lambda>c ws. none_running ws) s" using b by simp
  have none: "none_running ?ws" using busyE [OF ok bs] by metis
  have running: "j_status r = Job_Running" using busyE [OF ok bs] r by (metis option.inject)
  obtain v where v: "first_by v_position (filter (\<lambda>w. v_status w = Window_Queued) ?ws) = Some v"
    using q first_by_None [of v_position "filter (\<lambda>w. v_status w = Window_Queued) ?ws"]
    by (cases "first_by v_position (filter (\<lambda>w. v_status w = Window_Queued) ?ws)")
       (simp_all add: queued_windows_def count_status_def)
  have vw: "v \<in> set ?ws" "v_status v = Window_Queued" using first_by_Some [OF v] by auto
  let ?n = "clock (2 + k)" let ?m = "clock k" let ?out = "operation (v_payload v)" let ?w = "v_window v"
  let ?g = "started_window ?n ?w" let ?h = "stored_window env ?m ?w ?out"
  let ?s = "touch i (\<lambda>r. r) ?g s"
  let ?t = "touch i (recount (map ?h (windows_of i ?s)) ?m) ?h ?s"
  have dist: "distinct (map v_window ?ws)" using windows_distinct [OF ok r] .
  have fetch: "worker_step env False (clock (3 + k)) Other_Error (Fetch i) s = (Begin i ?w (v_payload v), s)"
    using v by (simp add: next_queued_window_def)
  have begun: "worker_step env False ?n Other_Error (Begin i ?w (v_payload v)) s
      = (Compute i ?w (v_payload v), ?s)"
    using vw by (intro step_Begin [OF ok r]) auto
  have one: "one_running ?w (windows_of i ?s)"
  proof -
    have "\<exists>u \<in> set ?ws. v_window u = ?w \<and> v_status u = Window_Queued" using vw by metis
    from started_one_running [OF dist none this] show ?thesis by (simp add: windows_of_touch)
  qed
  have s1: "tables_ok env ?s \<and> worker_ok (Compute i ?w (v_payload v)) ?s"
  proof (rule work_keeps [OF ok _ begun])
    have "busy i (\<lambda>c ws. none_running ws \<and> (\<exists>u \<in> set ws. v_window u = ?w
        \<and> v_payload u = v_payload v \<and> v_status u = Window_Queued)) (touch i (\<lambda>r. r) (\<lambda>w. w) s)"
      using vw none r running by (intro busy_own_touch [OF ok bs]) auto
    then show "worker_ok (Begin i ?w (v_payload v)) s" by (simp add: touch_def)
  qed
  have rs: "find_job i ?s = Some r" using r by (simp add: find_touch)
  have store: "worker_step env False ?m Other_Error (after_compute i ?w ?out) ?s = (Loop i, ?t)"
    by (rule step_store_outcome [OF conjunct1 [OF s1] rs one])
  have s2: "tables_ok env ?t \<and> worker_ok (Loop i) ?t"
  proof (rule work_keeps [OF conjunct1 [OF s1] _ store])
    show "worker_ok (after_compute i ?w ?out) ?s"
      using work_keeps [OF conjunct1 [OF s1] conjunct2 [OF s1], of False ?m ?out] by simp
  qed
  have run: "worker_steps env operation clock (6 + k) (Loop i, s) = worker_steps env operation clock k (Loop i, ?t)"
  proof -
    have "outcome_at operation (after_compute i ?w ?out) = Other_Error"
      by (simp add: outcome_at_def after_compute_def split: operation_outcome.split)
    then show ?thesis
      using nc fetch begun store worker_step.simps(10) [of env False "clock (1 + k)" ?out i ?w "v_payload v" ?s]
      by (simp add: numeral_eq_Suc outcome_at_def step_Ask [OF r] del: worker_step.simps(5-))
  qed
  have eff: "v_status (?h (?g u)) = (if u = v then (case ?out of Result d \<Rightarrow> Window_Succeeded | _ \<Rightarrow> Window_Failed)
      else v_status u)" "v_payload (?h (?g u)) = v_payload u" if u: "u \<in> set ?ws" for u
  proof -
    have key: "v_window u = ?w \<longleftrightarrow> u = v"
      using u vw(1) dist by (auto simp: distinct_map dest: inj_onD)
    have nr: "v_status u \<noteq> Window_Running" using none u by (force simp: none_running_def statuses_def)
    show "v_status (?h (?g u)) = (if u = v then (case ?out of Result d \<Rightarrow> Window_Succeeded | _ \<Rightarrow> Window_Failed)
      else v_status u)"
      using key vw(2) nr stored_window_simps(2,3)
      by (cases "u = v") (simp_all add: started_window_def)
    show "v_payload (?h (?g u)) = v_payload u"
      using stored_window_simps(1) by (simp add: same_window_def started_window_def)
  qed
  have ws: "windows_of i ?t = map (\<lambda>u. ?h (?g u)) ?ws"
    by (simp add: windows_of_touch stored_window_simps(1) comp_def)
  have "map (verdict_of operation) (windows_of i ?t) = map (verdict_of operation) ?ws"
  proof -
    have "verdict_of operation (?h (?g u)) = verdict_of operation u" if "u \<in> set ?ws" for u
      using eff [OF that] vw(2) by (auto simp: verdict_of_def split: operation_outcome.splits)
    then show ?thesis unfolding ws map_map comp_def by (rule map_cong [OF refl])
  qed
  moreover have "Suc (queued_windows (windows_of i ?t)) = queued_windows ?ws"
  proof -
    have "v_status (?h (?g u)) = Window_Queued \<longleftrightarrow> v_status u = Window_Queued \<and> u \<noteq> v" if "u \<in> set ?ws" for u
      using eff(1) [OF that] by (auto split: operation_outcome.splits)
    then have "queued_windows (windows_of i ?t) = length (filter (\<lambda>u. v_status u = Window_Queued \<and> u \<noteq> v) ?ws)"
      unfolding ws queued_windows_def count_status_def filter_map length_map comp_def
      by (intro arg_cong [where f = length] filter_cong refl) simp
    also have "Suc \<dots> = length (filter (\<lambda>u. v_status u = Window_Queued) ?ws)"
      using dist vw by (intro length_filter_except) (auto simp: distinct_map)
    finally show ?thesis
      by (simp add: queued_windows_def count_status_def)
  qed
  ultimately show ?thesis
    using run s2 r nc by (intro exI [of _ ?t]) (auto simp: find_touch stored_window_simps(1) recount_def)
qed

lemma worker_end:
  assumes ok: "tables_ok env s" and b: "worker_ok (Loop i) s" and r: "find_job i s = Some r"
    and nc: "\<not> j_cancel_requested r" and q: "queued_windows (windows_of i s) = 0"
  shows "\<exists>t r'. worker_steps env operation clock 4 (Loop i, s) = (Poll, t)
    \<and> find_job i t = Some r' \<and> windows_of i t = windows_of i s
    \<and> j_status r' = job_verdict (map v_status (windows_of i s))"
proof -
  let ?ws = "windows_of i s"
  have bs: "busy i (\<lambda>c ws. none_running ws) s" using b by simp
  have none: "none_running ?ws" using busyE [OF ok bs] by metis
  have running: "j_status r = Job_Running" using busyE [OF ok bs] r by (metis option.inject)
  note row = busy_row [OF ok r running]
  have nq: "Window_Queued \<notin> statuses ?ws" using q by (simp add: queued_windows_def count_status_0)
  have st: "statuses ?ws \<subseteq> {Window_Succeeded, Window_Failed}"
  proof
    fix x assume "x \<in> statuses ?ws"
    then have "x \<noteq> Window_Queued" "x \<noteq> Window_Running" "x \<noteq> Window_Cancelled"
      using nq none row(1) by (auto simp: none_running_def)
    then show "x \<in> {Window_Succeeded, Window_Failed}" by (cases x) simp_all
  qed
  have "first_by v_position (filter (\<lambda>w. v_status w = Window_Queued) ?ws) = None"
    using q by (simp add: first_by_None queued_windows_def count_status_def filter_empty_conv)
  then have fetch: "worker_step env False (clock 1) Other_Error (Fetch i) s = (Finalize i, s)"
    by (simp add: next_queued_window_def)
  let ?t = "touch i (finished_row (final_status r) (clock 0)) (\<lambda>w. w) s"
  have "worker_steps env operation clock 4 (Loop i, s) = (Poll, ?t)"
    using nc fetch step_Finalize [OF ok r st, of False "clock 0" Other_Error]
    by (simp add: numeral_eq_Suc outcome_at_def step_Ask [OF r] del: worker_step.simps(5-))
  moreover have "final_status r = job_verdict (map v_status ?ws)"
  proof -
    have "j_failed r = 0 \<longleftrightarrow> Window_Failed \<notin> statuses ?ws"
      "j_succeeded r = 0 \<longleftrightarrow> Window_Succeeded \<notin> statuses ?ws"
      "j_succeeded r = j_total r \<longleftrightarrow> statuses ?ws \<subseteq> {Window_Succeeded}"
      using job_facts(3) [OF ok r] row(3) by (simp_all add: counts_ok_def count_status_0 count_status_all)
    moreover have "list_all (\<lambda>x. x = Window_Succeeded) (map v_status ?ws) \<longleftrightarrow> statuses ?ws \<subseteq> {Window_Succeeded}"
      "list_all (\<lambda>x. x \<noteq> Window_Succeeded) (map v_status ?ws) \<longleftrightarrow> Window_Succeeded \<notin> statuses ?ws"
      unfolding list_all_iff statuses_def set_map by (blast, metis imageE imageI)
    moreover have "Window_Failed \<notin> statuses ?ws" if "statuses ?ws \<subseteq> {Window_Succeeded}"
      using that by auto
    ultimately show ?thesis by (auto simp: final_status_def job_verdict_def)
  qed
  ultimately show ?thesis
    using r running by (auto simp: find_touch windows_of_touch finished_row_def)
qed

lemma verdict_of_finished:
  "queued_windows ws = 0 \<Longrightarrow> map (verdict_of operation) ws = map v_status ws"
  by (auto simp: queued_windows_def count_status_def filter_empty_conv verdict_of_def)

lemma worker_run:
  assumes "tables_ok env s" "worker_ok (Loop i) s" "find_job i s = Some r" "\<not> j_cancel_requested r"
  shows "\<exists>t r'. worker_steps env operation clock (6 * queued_windows (windows_of i s) + 4) (Loop i, s) = (Poll, t)
    \<and> find_job i t = Some r'
    \<and> map v_status (windows_of i t) = map (verdict_of operation) (windows_of i s)
    \<and> j_status r' = job_verdict (map v_status (windows_of i t))"
  using assms
proof (induction "queued_windows (windows_of i s)" arbitrary: s r)
  case 0
  obtain t r' where "worker_steps env operation clock 4 (Loop i, s) = (Poll, t)" "find_job i t = Some r'"
      "windows_of i t = windows_of i s" "j_status r' = job_verdict (map v_status (windows_of i s))"
    using worker_end [OF 0(2-5) 0(1) [symmetric], of operation clock] by auto
  then show ?case
    using verdict_of_finished [OF 0(1) [symmetric], of operation]
    by (intro exI [of _ t] exI [of _ r']) (simp flip: 0(1))
next
  case (Suc n)
  let ?k = "6 * n + 4"
  obtain u q where u: "worker_steps env operation clock (6 + ?k) (Loop i, s) = worker_steps env operation clock ?k (Loop i, u)"
      "tables_ok env u" "worker_ok (Loop i) u" "find_job i u = Some q" "\<not> j_cancel_requested q"
      "map (verdict_of operation) (windows_of i u) = map (verdict_of operation) (windows_of i s)"
      "Suc (queued_windows (windows_of i u)) = queued_windows (windows_of i s)"
    using worker_round [OF Suc.prems, of operation clock ?k] Suc.hyps(2) by (metis Zero_not_Suc)
  have n: "n = queued_windows (windows_of i u)" using u(7) Suc.hyps(2) by simp
  have k: "6 * queued_windows (windows_of i s) + 4 = 6 + ?k" using Suc.hyps(2) by simp
  show ?case
    unfolding k u(1) using Suc.hyps(1) [OF n u(2-5)] unfolding n [symmetric] u(6) .
qed

lemma worker_run_cancelled:
  assumes "tables_ok env s" "worker_ok (Loop i) s" "find_job i s = Some r" "j_cancel_requested r"
  shows "\<exists>t r'. worker_steps env operation clock 3 (Loop i, s) = (Poll, t)
    \<and> find_job i t = Some r' \<and> j_status r' = Job_Cancelled"
  using assms(3,4)
  by (simp add: numeral_eq_Suc outcome_at_def step_Ask [OF assms(3)] step_Cancel_Rest find_touch
      cancelled_row_def del: worker_step.simps(5-))

section \<open>What a submission stores\<close>

definition same_jobs :: "job_tables \<Rightarrow> job_tables \<Rightarrow> bool" where
  "same_jobs s t \<longleftrightarrow> jobs t = jobs s"

interpretation same_jobs: history_relation same_jobs
  by unfold_locales (simp_all add: same_jobs_def)

lemma insert_window_same_jobs: "evolves same_jobs (insert_window w)"
  by (rule evolvesI) (auto simp: insert_window_def same_jobs_def split: option.splits)

lemma submit_created:
  assumes "submit_job env n now q s = (Inr (rec, True), t)"
  shows "new_job env now q \<in> set (jobs t) \<and> j_id (r_job rec) = j_id (new_job env now q)"
proof -
  let ?r = "new_job env now q" let ?i = "job_id_of env (q_idempotency_key q) (job_sha256_json env (dump_request q))"
  have i: "j_id ?r = ?i" by (simp add: new_job_def Let_def)
  let ?ins = "for_each (\<lambda>pw. insert_window (new_window env ?i pw)) (enumerate 0 (q_windows q))"
  obtain found u where M: "locked
        (bind (reading (\<lambda>s. find (\<lambda>r. j_key r = q_idempotency_key q) (jobs s))) (\<lambda>existing.
         case existing of
           Some r \<Rightarrow> bind (require (j_request_sha r = job_sha256_json env (dump_request q)) Job_Conflict) (\<lambda>_.
             bind (get_job (j_id r)) (\<lambda>rec. ret (Some rec)))
         | None \<Rightarrow> bind (reading (\<lambda>s. length (pending_jobs s))) (\<lambda>pending.
             bind (require (pending < n) Job_Capacity) (\<lambda>_.
             bind (insert_job ?r) (\<lambda>_. bind ?ins (\<lambda>_. ret None)))))) s = (Inr found, u)"
    and K: "(case found of Some rec \<Rightarrow> ret (rec, False)
         | None \<Rightarrow> bind (get_job ?i) (\<lambda>rec. ret (rec, True))) u = (Inr (rec, True), t)"
    using assms unfolding submit_job_def Let_def by (elim bind_InrE)
  have found: "found = None" using K by (cases found) (auto simp: ret_def)
  have get: "get_job ?i u = (Inr rec, t)"
    using K unfolding found by (auto simp: ret_def elim!: bind_InrE)
  then have t: "t = u" using get_job_state [of ?i u] by simp
  have "find (\<lambda>r. j_key r = q_idempotency_key q) (jobs s) = None"
    using M unfolding found locked_def transaction_Inr bind_reading
    by (auto simp: ret_def split: option.splits elim!: bind_InrE)
  then have "bind (insert_job ?r) (\<lambda>_. bind ?ins (\<lambda>_. ret None)) s = (Inr (None :: job_record option), u)"
    using M unfolding found locked_def transaction_Inr bind_reading
    by (simp add: bind_require raise_def split: if_splits)
  then obtain x y v where "insert_job ?r s = (Inr x, v)" "?ins v = (Inr y, u)"
    by (auto simp: ret_def elim!: bind_InrE)
  moreover have "jobs u = jobs v"
    using evolvesD [OF same_jobs.evolves_for_each [OF insert_window_same_jobs] \<open>?ins v = (Inr y, u)\<close>]
    by (simp add: same_jobs_def)
  ultimately have "?r \<in> set (jobs u)"
    by (auto simp: insert_job_def insert_row_def split: if_splits)
  moreover have "j_id (r_job rec) = ?i"
    using get by (auto simp: get_job_def record_of_def find_job_def dest!: find_Some_mem split: option.splits)
  ultimately show ?thesis using t i by simp
qed

text \<open>A known key with the same request answers with the job and writes nothing.\<close>

lemma submit_known:
  assumes ok: "tables_ok env s" and r: "r \<in> set (jobs s)" "j_key r = q_idempotency_key q"
    "j_request_sha r = job_sha256_json env (dump_request q)"
  shows "\<exists>rec. submit_job env n now q s = (Inr (rec, False), s) \<and> j_id (r_job rec) = j_id r"
proof -
  have "find (\<lambda>r. j_key r = q_idempotency_key q) (jobs s) = Some r"
  proof -
    have "find (\<lambda>r. j_key r = q_idempotency_key q) (jobs s) \<noteq> None"
      using r by (auto simp: find_None)
    then obtain p where p: "find (\<lambda>r. j_key r = q_idempotency_key q) (jobs s) = Some p" by auto
    then have "p \<in> set (jobs s)" "j_key p = j_key r" using r find_Some_mem [OF p] by auto
    then have "p = r" using ok r(1) by (auto simp: tables_ok_def distinct_map dest: inj_onD)
    then show ?thesis using p by simp
  qed
  moreover have "find_job (j_id r) s = Some r" using r(1) find_job_Some [OF ok] by simp
  ultimately show ?thesis
    using r(3) by (simp add: submit_job_def Let_def bind_def locked_def transaction_def reading_def
        require_def ret_def get_job_def record_of_def)
qed

section \<open>The properties\<close>

text \<open>C31: A job that the worker has claimed and is left to run reaches its verdict, in six steps for
  each window that is still queued and four more: every queued window is computed once and
  succeeds exactly if the operation returns a dict that can be stored, windows that had
  finished before keep their status, and the job ends as succeeded, failed or partially
  failed as its windows say. If its cancellation was requested it is cancelled in three
  steps. This holds for any operation, after any history of crashes and recoveries.\<close>

theorem claimed_job_reaches_verdict:
  assumes "manager_reachable env n m" and "worker m = Loop i"
  shows "\<exists>r. find_job i (tables m) = Some r \<and>
    (let ws = windows_of i (tables m); run = \<lambda>k. worker_steps env operation clock k (worker m, tables m)
     in if j_cancel_requested r
        then \<exists>t r'. run 3 = (Poll, t) \<and> find_job i t = Some r' \<and> j_status r' = Job_Cancelled
        else \<exists>t r'. run (6 * queued_windows ws + 4) = (Poll, t) \<and> find_job i t = Some r'
          \<and> map v_status (windows_of i t) = map (verdict_of operation) ws
          \<and> j_status r' = job_verdict (map v_status (windows_of i t)))"
proof -
  have ok: "tables_ok env (tables m)" and w: "worker_ok (Loop i) (tables m)"
    using manager_reachable_ok [OF assms(1)] assms(2) by (simp_all add: manager_ok_def)
  then obtain r where r: "find_job i (tables m) = Some r"
    using busyE [OF ok] by (metis worker_ok.simps(4))
  show ?thesis
    using r worker_run [OF ok w r, of operation clock] worker_run_cancelled [OF ok w r, of operation clock]
    by (simp add: assms(2) Let_def)
qed

text \<open>C32: What was submitted is what is stored, and stays so: after a submission that created a job,
  whatever actions follow, the request read back from the job is the submitted one (its
  payloads with sorted keys, which is the same document), and submitting the request again
  answers with that job and changes nothing, even when the queue is full.\<close>

theorem submitted_request_is_remembered:
  assumes "manager_reachable env n m" and "valid_job_request q"
    and "submit_job env n now q (tables m) = (Inr (rec, True), t)"
    and "s = tables (perform_all env n as (m\<lparr>tables := t\<rparr>))"
  shows "get_request (j_id (r_job rec)) s = (Inr (sorted_request q), s)
    \<and> canonical (dump_request (sorted_request q)) = canonical (dump_request q)
    \<and> (\<exists>rec'. submit_job env n' now' q s = (Inr (rec', False), s)
         \<and> j_id (r_job rec') = j_id (r_job rec))"
proof -
  have "m\<lparr>tables := t\<rparr> = perform env n (Submit now q) m" using assms(2,3) by simp
  then have reach: "manager_reachable env n (m\<lparr>tables := t\<rparr>)"
    using manager_reachable_perform [OF assms(1)] by metis
  have ok: "tables_ok env s"
    using manager_reachable_ok [OF manager_reachable_perform_all [OF reach]] assms(4)
    by (simp add: manager_ok_def)
  note new = submit_created [OF assms(3)]
  have "settles t s"
    using perform_all_settles [OF manager_reachable_ok [OF reach], of n as] assms(4) by simp
  then obtain p where p: "p \<in> set (jobs s)" "submitted_as p = submitted_as (new_job env now q)"
    using new unfolding settles_def by metis
  then have p': "j_id p = j_id (r_job rec)" "j_key p = q_idempotency_key q"
      "j_request_sha p = job_sha256_json env (dump_request q)" "j_request p = canonical (dump_request q)"
    using new by (simp_all add: submitted_as_def new_job_def Let_def)
  have "find_job (j_id (r_job rec)) s = Some p" using p(1) p'(1) find_job_Some [OF ok] by simp
  then have "get_request (j_id (r_job rec)) s = (Inr (sorted_request q), s)"
    by (simp add: get_request_def p'(4) parse_dumped_request [OF assms(2)])
  moreover have "\<exists>rec'. submit_job env n' now' q s = (Inr (rec', False), s) \<and> j_id (r_job rec') = j_id p"
    by (rule submit_known [OF ok p(1) p'(2,3)])
  ultimately show ?thesis using p'(1) by simp
qed

text \<open>
  A concrete queue: one request with two windows, the second of which the operation refuses;
  the properties of the job queue applied to it.
\<close>

definition demo_job_env :: job_env where
  "demo_job_env = \<lparr>digest_document = (\<lambda>_. ''d''), digest_text = (\<lambda>x. x)\<rparr>"

definition demo_job_request :: job_request where
  "demo_job_request =
     \<lparr>q_idempotency_key = ''k'', q_requested_by = ''op'',
      q_windows =
        [\<lparr>w_window_id = ''w1'', w_mine_id = ''m1'', w_payload = [(''b'', JNum 2), (''a'', JNum 1)]\<rparr>,
         \<lparr>w_window_id = ''w2'', w_mine_id = ''m2'', w_payload = []\<rparr>],
      q_parent_job_id = None\<rparr>"

definition demo_operation :: "json \<Rightarrow> operation_outcome" where
  "demo_operation p = (case p of JObj (x # xs) \<Rightarrow> Result [x] | _ \<Rightarrow> Public_Error ''empty'' ''no data'')"

definition demo_claimed :: manager where
  "demo_claimed = perform_all demo_job_env 10
     [Start_Manager ''t0'', Submit ''t1'' demo_job_request, Work ''t2'' Other_Error, Work ''t3'' Other_Error]
     no_jobs"

text \<open>The worker has computed the first window and starts the second when the process dies.\<close>

definition demo_halfway :: manager where
  "demo_halfway = perform_all demo_job_env 10
     (map (Work ''t4'') [Other_Error, Other_Error, Other_Error, Other_Error, Result [(''x'', JNull)],
        Other_Error, Other_Error, Other_Error, Other_Error, Other_Error]) demo_claimed"

lemma demo_queue_reachable:
  "manager_reachable demo_job_env 10 demo_claimed" "manager_reachable demo_job_env 10 demo_halfway"
proof -
  show "manager_reachable demo_job_env 10 demo_claimed"
    unfolding demo_claimed_def by (intro manager_reachable_perform_all manager_reachable_start)
  then show "manager_reachable demo_job_env 10 demo_halfway"
    unfolding demo_halfway_def by (rule manager_reachable_perform_all)
qed

definition demo_job_id :: string where
  "demo_job_id = job_id_of demo_job_env ''k'' ''d''"

lemma demo_claimed_worker: "worker demo_claimed = Loop demo_job_id"
  by code_simp

lemma demo_halfway_worker: "worker demo_halfway = Compute demo_job_id ''w2'' (JObj [])"
  by code_simp

lemma demo_halfway_windows:
  "map (\<lambda>w. (v_window w, v_status w)) (windows (tables demo_halfway))
     = [(''w1'', Window_Succeeded), (''w2'', Window_Running)]"
  by code_simp

lemma demo_request_valid: "valid_job_request demo_job_request"
  by code_simp

theorem job_counters_match_windows_witness:
  "\<exists>r. find_job demo_job_id (tables demo_halfway) = Some r \<and> j_total r = 2 \<and> j_completed r = 1
     \<and> j_status r = Job_Running"
proof -
  have "map_option (\<lambda>r. (j_status r, length (windows_of (j_id r) (tables demo_halfway)),
      count_status window_terminal (windows_of (j_id r) (tables demo_halfway))))
      (find_job demo_job_id (tables demo_halfway)) = Some (Job_Running, 2, 1)"
    by code_simp
  then obtain r where r: "find_job demo_job_id (tables demo_halfway) = Some r" "j_status r = Job_Running"
      "length (windows_of (j_id r) (tables demo_halfway)) = 2"
      "count_status window_terminal (windows_of (j_id r) (tables demo_halfway)) = 1"
    by auto
  moreover have "r \<in> set (jobs (tables demo_halfway))"
    using find_Some_mem [OF r(1) [unfolded find_job_def]] by simp
  ultimately show ?thesis
    using job_counters_match_windows [OF demo_queue_reachable(2) _ refl, of r] by auto
qed

theorem only_the_workers_window_runs_witness:
  "running_windows (tables demo_halfway) = [(demo_job_id, ''w2'')]"
  using only_the_workers_window_runs [OF demo_queue_reachable(2)]
  by (simp add: demo_halfway_worker worker_window_def)

theorem finished_work_is_kept_witness:
  "\<exists>w \<in> set (windows (tables (perform_all demo_job_env 10 [Crash, Start_Manager ''t9'', Cancel ''t9'' demo_job_id]
     demo_halfway))). v_window w = ''w1'' \<and> v_status w = Window_Succeeded"
proof -
  have "(''w1'', Window_Succeeded) \<in> set (map (\<lambda>w. (v_window w, v_status w)) (windows (tables demo_halfway)))"
    unfolding demo_halfway_windows by simp
  then obtain w where "w \<in> set (windows (tables demo_halfway))" "v_window w = ''w1''" "v_status w = Window_Succeeded"
    by auto
  then show ?thesis
    using finished_work_is_kept [OF demo_queue_reachable(2), of "[Crash, Start_Manager ''t9'', Cancel ''t9'' demo_job_id]"]
    by (metis insertCI window_terminal_def)
qed

lemma demo_claimed_job:
  "map_option (\<lambda>r. j_cancel_requested r) (find_job demo_job_id (tables demo_claimed)) = Some False"
  "map (verdict_of demo_operation) (windows_of demo_job_id (tables demo_claimed)) = [Window_Succeeded, Window_Failed]"
  "queued_windows (windows_of demo_job_id (tables demo_claimed)) = 2"
  by code_simp+

theorem claimed_job_reaches_verdict_witness:
  "\<exists>t r. worker_steps demo_job_env demo_operation (\<lambda>_. ''t'') 16 (Loop demo_job_id, tables demo_claimed) = (Poll, t)
     \<and> find_job demo_job_id t = Some r \<and> j_status r = Job_Partial_Failed"
  using claimed_job_reaches_verdict [OF demo_queue_reachable(1) demo_claimed_worker, of demo_operation "\<lambda>_. ''t''"]
    demo_claimed_job
  by (auto simp: Let_def demo_claimed_worker job_verdict_def)

theorem submitted_request_is_remembered_witness:
  "\<exists>rec t. submit_job demo_job_env 1 ''t1'' demo_job_request (tables no_jobs) = (Inr (rec, True), t)
     \<and> get_request (j_id (r_job rec)) t = (Inr (sorted_request demo_job_request), t)"
proof -
  have "fst (submit_job demo_job_env 1 ''t1'' demo_job_request (tables no_jobs))
      = Inr (record_of (new_job demo_job_env ''t1'' demo_job_request)
          (map (new_window demo_job_env demo_job_id) (enumerate 0 (q_windows demo_job_request))), True)"
    by code_simp
  then obtain rec t where run: "submit_job demo_job_env 1 ''t1'' demo_job_request (tables no_jobs) = (Inr (rec, True), t)"
    by (metis prod.collapse)
  have "t = tables (perform_all demo_job_env 1 [] (no_jobs\<lparr>tables := t\<rparr>))"
    by (simp add: perform_all_def)
  from submitted_request_is_remembered [OF manager_reachable_start demo_request_valid run this]
  show ?thesis using run by blast
qed

end
