(* ===== verification/Connector_Store.thy ===== *)
theory Connector_Store
  imports Json_Documents
begin

text \<open>
  The state store of the connector service (\<open>StateStore\<close> of
  \<open>connector-service/src/enterprise_connector/state.py\<close>): its tables, the service lease, the
  health of the sources, and the registration of source snapshots. Each method is one
  transaction (\<open>atomic\<close>); \<open>now\<close> is the time it uses, in seconds. The columns
  \<open>payload_json\<close> and \<open>details_json\<close> hold the document their text denotes.
\<close>

section \<open>Tables\<close>

datatype send_status = Waiting | Delivered | Dead

record observation_row =
  ob_sequence :: nat
  ob_event :: string
  ob_request :: string
  ob_pipeline :: string
  ob_source :: string
  ob_draft :: string
  ob_period :: string
  ob_revision :: nat
  ob_content_sha :: string
  ob_delivered_sha :: string
  ob_payload :: json
  ob_status :: send_status
  ob_trigger :: bool
  ob_attempts :: nat
  ob_next :: rat
  ob_response :: "int option"
  ob_error :: "string option"
  ob_created :: rat
  ob_updated :: rat
  ob_delivered_at :: "rat option"

datatype generation_status = Assigned | Completed | Failed

record generation_row =
  g_draft :: string
  g_hash :: string
  g_event :: string
  g_status :: generation_status
  g_created :: rat
  g_updated :: rat

record lease_row =
  l_owner :: string
  l_expires :: rat
  l_updated :: rat

datatype collection_status = Collected | Collected_Empty | Stability_Wait | Collection_Error

record source_health_row =
  sh_pipeline :: string
  sh_source :: string
  sh_status :: collection_status
  sh_count :: int
  sh_last_poll :: rat
  sh_last_success :: "rat option"
  sh_last_nonempty :: "rat option"
  sh_error :: "string option"

record source_snapshot_row =
  sn_pipeline :: string
  sn_source :: string
  sn_draft :: string
  sn_period :: string
  sn_count :: int
  sn_last_success :: rat
  sn_last_nonempty :: rat

record health_row =
  h_sequence :: nat
  h_event :: string
  h_pipeline :: string
  h_source :: string
  h_draft :: string
  h_period :: string
  h_outcome :: string
  h_semantic_sha :: string
  h_payload :: json
  h_completed :: rat
  h_status :: send_status
  h_attempts :: nat
  h_next :: rat
  h_response :: "int option"
  h_error :: "string option"
  h_created :: rat
  h_updated :: rat
  h_delivered_at :: "rat option"

record recovery_row =
  rc_action :: string
  rc_type :: string
  rc_details :: json
  rc_created :: rat

text \<open>\<open>health_sequence\<close> is the last number \<open>AUTOINCREMENT\<close> gave out: health rows are deleted.\<close>

record connector_db =
  observations :: "observation_row list"
  generations :: "generation_row list"
  lease :: "lease_row option"
  source_health :: "source_health_row list"
  snapshots :: "source_snapshot_row list"
  healths :: "health_row list"
  health_sequence :: nat
  recoveries :: "recovery_row list"

datatype connector_error =
    Connector_Error string | Bad_Value string | Missing_Key | Constraint_Failed | Assertion_Failed

type_synonym 'a cop = "(connector_db, connector_error, 'a) op"

text \<open>
  The standard library's functions on texts: \<open>canonical_json\<close> of a document, \<open>json.loads\<close> of a
  text, SHA-256 in hexadecimal, its first two bytes, and \<open>f"{x:.6f}"\<close>.
\<close>

record connector_env =
  json_text :: "json \<Rightarrow> string"
  json_read :: "string \<Rightarrow> json option"
  sha256_hex :: "string \<Rightarrow> string"
  fixed6 :: "rat \<Rightarrow> string"

definition atomic :: "'a cop \<Rightarrow> 'a cop" where
  "atomic m = transaction (\<lambda>_. False) (\<lambda>before _. before) m"

definition expect :: "connector_error \<Rightarrow> 'a option \<Rightarrow> 'a cop" where
  "expect e x = (case x of None \<Rightarrow> raise e | Some a \<Rightarrow> ret a)"

definition update_observations ::
    "(observation_row \<Rightarrow> bool) \<Rightarrow> (observation_row \<Rightarrow> observation_row) \<Rightarrow> connector_db \<Rightarrow> connector_db" where
  "update_observations p f s =
     s\<lparr>observations := map (\<lambda>r. if p r then f r else r) (observations s)\<rparr>"

definition update_generations ::
    "(generation_row \<Rightarrow> bool) \<Rightarrow> (generation_row \<Rightarrow> generation_row) \<Rightarrow> connector_db \<Rightarrow> connector_db" where
  "update_generations p f s =
     s\<lparr>generations := map (\<lambda>r. if p r then f r else r) (generations s)\<rparr>"

definition update_healths ::
    "(health_row \<Rightarrow> bool) \<Rightarrow> (health_row \<Rightarrow> health_row) \<Rightarrow> connector_db \<Rightarrow> connector_db" where
  "update_healths p f s = s\<lparr>healths := map (\<lambda>r. if p r then f r else r) (healths s)\<rparr>"

section \<open>The service lease\<close>

definition acquire_lease :: "string \<Rightarrow> rat \<Rightarrow> rat \<Rightarrow> connector_db \<Rightarrow> bool \<times> connector_db" where
  "acquire_lease owner seconds now s =
     (case lease s of
        Some l \<Rightarrow>
          if l_owner l \<noteq> owner \<and> now < l_expires l then (False, s)
          else (True, s\<lparr>lease := Some \<lparr>l_owner = owner, l_expires = now + seconds, l_updated = now\<rparr>\<rparr>)
      | None \<Rightarrow>
          (True, s\<lparr>lease := Some \<lparr>l_owner = owner, l_expires = now + seconds, l_updated = now\<rparr>\<rparr>))"

definition renew_lease :: "string \<Rightarrow> rat \<Rightarrow> rat \<Rightarrow> connector_db \<Rightarrow> bool \<times> connector_db" where
  "renew_lease owner seconds now s =
     (case lease s of
        Some l \<Rightarrow>
          if l_owner l = owner \<and> now < l_expires l
          then (True, s\<lparr>lease := Some (l\<lparr>l_expires := now + seconds, l_updated := now\<rparr>)\<rparr>)
          else (False, s)
      | None \<Rightarrow> (False, s))"

definition release_lease :: "string \<Rightarrow> connector_db \<Rightarrow> connector_db" where
  "release_lease owner s =
     (case lease s of
        Some l \<Rightarrow> if l_owner l = owner then s\<lparr>lease := None\<rparr> else s
      | None \<Rightarrow> s)"

section \<open>Collection health\<close>

definition upsert :: "('r \<Rightarrow> bool) \<Rightarrow> ('r \<Rightarrow> 'r) \<Rightarrow> 'r \<Rightarrow> 'r list \<Rightarrow> 'r list" where
  "upsert same f r rows =
     (if list_ex same rows then map (\<lambda>q. if same q then f q else q) rows else rows @ [r])"

definition record_collection_health ::
    "string \<Rightarrow> string \<Rightarrow> collection_status \<Rightarrow> int \<Rightarrow> string option \<Rightarrow> rat \<Rightarrow> unit cop" where
  "record_collection_health p src st n err now =
     bind (require (0 \<le> n) (Bad_Value ''record_count'')) (\<lambda>_.
     writing (\<lambda>s.
       let r = \<lparr>sh_pipeline = p, sh_source = src, sh_status = st, sh_count = n, sh_last_poll = now,
                sh_last_success = (if st = Collected then Some now else None),
                sh_last_nonempty = (if st = Collected \<and> 0 < n then Some now else None),
                sh_error = (case err of None \<Rightarrow> None | Some e \<Rightarrow> if e = [] then None else Some (take 500 e))\<rparr>
       in s\<lparr>source_health :=
            upsert (\<lambda>q. sh_pipeline q = p \<and> sh_source q = src)
              (\<lambda>q. r\<lparr>sh_last_success := (if st = Collected then Some now else sh_last_success q),
                     sh_last_nonempty := (if st = Collected \<and> 0 < n then Some now
                                          else sh_last_nonempty q)\<rparr>)
              r (source_health s)\<rparr>))"

definition record_snapshot_health ::
    "string \<Rightarrow> string \<Rightarrow> string \<Rightarrow> string \<Rightarrow> int \<Rightarrow> rat \<Rightarrow> unit cop" where
  "record_snapshot_health p src draft period n now =
     bind (require (0 < n) (Bad_Value ''snapshot record_count'')) (\<lambda>_.
     writing (\<lambda>s.
       let r = \<lparr>sn_pipeline = p, sn_source = src, sn_draft = draft, sn_period = period, sn_count = n,
                sn_last_success = now, sn_last_nonempty = now\<rparr>
       in s\<lparr>snapshots :=
            upsert (\<lambda>q. sn_pipeline q = p \<and> sn_source q = src \<and> sn_draft q = draft)
              (\<lambda>_. r) r (snapshots s)\<rparr>))"

definition find_source_health :: "string \<Rightarrow> string \<Rightarrow> connector_db \<Rightarrow> source_health_row option" where
  "find_source_health p src s = find (\<lambda>q. sh_pipeline q = p \<and> sh_source q = src) (source_health s)"

definition find_snapshot :: "string \<Rightarrow> string \<Rightarrow> string \<Rightarrow> connector_db \<Rightarrow> source_snapshot_row option" where
  "find_snapshot p src draft s =
     find (\<lambda>q. sn_pipeline q = p \<and> sn_source q = src \<and> sn_draft q = draft) (snapshots s)"

text \<open>\<open>timestamp - x < maximum_age\<close>, false for an absent time.\<close>

definition younger :: "rat \<Rightarrow> rat \<Rightarrow> rat option \<Rightarrow> bool" where
  "younger now maximum_age t = (case t of None \<Rightarrow> False | Some x \<Rightarrow> now - x < maximum_age)"

definition source_snapshot_is_fresh ::
    "string \<Rightarrow> string \<Rightarrow> string \<Rightarrow> rat \<Rightarrow> rat \<Rightarrow> connector_db \<Rightarrow> bool" where
  "source_snapshot_is_fresh p src draft maximum_age now s =
     ((case find_source_health p src s of
         None \<Rightarrow> False
       | Some h \<Rightarrow> sh_status h = Collected \<and> younger now maximum_age (sh_last_success h))
      \<and> (case find_snapshot p src draft s of
         None \<Rightarrow> False
       | Some n \<Rightarrow> younger now maximum_age (Some (sn_last_success n))))"

section \<open>Health deliveries\<close>

definition health_outcomes :: "string list" where
  "health_outcomes = [''success_nonempty'', ''success_empty'', ''error'', ''stability_wait'']"

definition retention_seconds :: rat where
  "retention_seconds = 90 * 24 * 60 * 60"

definition same_health_key :: "health_row \<Rightarrow> health_row \<Rightarrow> bool" where
  "same_health_key a b \<longleftrightarrow>
     h_pipeline a = h_pipeline b \<and> h_source a = h_source b \<and> h_draft a = h_draft b"

text \<open>The delivered rows that are past retention and have a newer row.\<close>

definition expired_health :: "rat \<Rightarrow> health_row list \<Rightarrow> health_row \<Rightarrow> bool" where
  "expired_health now rows h \<longleftrightarrow>
     h_status h = Delivered
     \<and> (case h_delivered_at h of None \<Rightarrow> False | Some t \<Rightarrow> t < now - retention_seconds)
     \<and> list_ex (\<lambda>n. same_health_key n h \<and> h_sequence h < h_sequence n) rows"

definition latest_health :: "string \<Rightarrow> string \<Rightarrow> string \<Rightarrow> connector_db \<Rightarrow> health_row option" where
  "latest_health p src draft s =
     find_last (\<lambda>h. h_pipeline h = p \<and> h_source h = src \<and> h_draft h = draft) (healths s)"

definition semantic_part :: "(string \<times> json) list \<Rightarrow> (string \<times> json) list" where
  "semantic_part kvs =
     filter (\<lambda>(k, v). k \<notin> {''event_id'', ''attempted_at'', ''completed_at''}) kvs"

definition document_sha :: "connector_env \<Rightarrow> json \<Rightarrow> string" where
  "document_sha env j = sha256_hex env (json_text env (canonical j))"

definition lines :: "string list \<Rightarrow> string" where
  "lines xs = join_texts [char_of (10 :: nat)] xs"

definition register_health ::
    "connector_env \<Rightarrow> string \<Rightarrow> (string \<times> json) list \<Rightarrow> rat \<Rightarrow> rat \<Rightarrow> string \<Rightarrow> rat \<Rightarrow> string option cop" where
  "register_health env p payload heartbeat completed nonce now =
     bind (expect Missing_Key (text_field ''source_id'' (JObj payload))) (\<lambda>src.
     bind (expect Missing_Key (text_field ''draft_key'' (JObj payload))) (\<lambda>draft.
     bind (expect Missing_Key (text_field ''reporting_month'' (JObj payload))) (\<lambda>period.
     bind (expect Missing_Key (text_field ''outcome'' (JObj payload))) (\<lambda>outcome.
     let sem = document_sha env (JObj (semantic_part payload))
     in atomic
       (bind (writing (\<lambda>s. s\<lparr>healths := filter (\<lambda>h. \<not> expired_health now (healths s) h) (healths s)\<rparr>)) (\<lambda>_.
        bind (reading (latest_health p src draft)) (\<lambda>latest.
        if (case latest of
              None \<Rightarrow> False
            | Some h \<Rightarrow> h_semantic_sha h = sem
                \<and> (h_status h = Waiting \<or> now - h_created h < heartbeat))
        then ret None
        else
          let event = ''chlt_'' @ sha256_hex env (lines [p, src, draft, sem, fixed6 env completed, nonce])
          in
          bind (reading healths) (\<lambda>rows.
          bind (require (\<not> list_ex (\<lambda>h. h_event h = event) rows) Constraint_Failed) (\<lambda>_.
          bind (require (outcome \<in> set health_outcomes) Constraint_Failed) (\<lambda>_.
          bind (writing (\<lambda>s. s\<lparr>health_sequence := Suc (health_sequence s),
                  healths := healths s @
                    [\<lparr>h_sequence = Suc (health_sequence s), h_event = event, h_pipeline = p,
                      h_source = src, h_draft = draft, h_period = period, h_outcome = outcome,
                      h_semantic_sha = sem,
                      h_payload = canonical (JObj (AList.update ''event_id'' (JStr event) payload)),
                      h_completed = completed, h_status = Waiting, h_attempts = 0, h_next = 0,
                      h_response = None, h_error = None, h_created = now, h_updated = now,
                      h_delivered_at = None\<rparr>]\<rparr>)) (\<lambda>_.
          ret (Some event))))))))))))"

text \<open>\<open>ORDER BY next_attempt_at, sequence LIMIT n\<close>: a stable sort of rows in sequence order.\<close>

definition pending_health :: "rat \<Rightarrow> nat \<Rightarrow> connector_db \<Rightarrow> health_row list" where
  "pending_health now limit s =
     take limit (sort_key h_next (filter (\<lambda>h. h_status h = Waiting \<and> h_next h \<le> now) (healths s)))"

definition mark_health_delivered :: "string \<Rightarrow> int \<Rightarrow> rat \<Rightarrow> connector_db \<Rightarrow> connector_db" where
  "mark_health_delivered e response now =
     update_healths (\<lambda>h. h_event h = e \<and> h_status h = Waiting)
       (\<lambda>h. h\<lparr>h_status := Delivered, h_attempts := Suc (h_attempts h), h_response := Some response,
              h_error := None, h_delivered_at := Some now, h_updated := now\<rparr>)"

definition mark_health_retry ::
    "string \<Rightarrow> string \<Rightarrow> rat \<Rightarrow> int option \<Rightarrow> rat \<Rightarrow> connector_db \<Rightarrow> connector_db" where
  "mark_health_retry e err delay response now =
     update_healths (\<lambda>h. h_event h = e \<and> h_status h = Waiting)
       (\<lambda>h. h\<lparr>h_attempts := Suc (h_attempts h), h_next := now + delay, h_response := response,
              h_error := Some (take 500 err), h_updated := now\<rparr>)"

definition mark_health_dead ::
    "string \<Rightarrow> string \<Rightarrow> int option \<Rightarrow> rat \<Rightarrow> connector_db \<Rightarrow> connector_db" where
  "mark_health_dead e err response now =
     update_healths (\<lambda>h. h_event h = e \<and> h_status h = Waiting)
       (\<lambda>h. h\<lparr>h_status := Dead, h_attempts := Suc (h_attempts h), h_response := response,
              h_error := Some (take 500 err), h_updated := now\<rparr>)"

section \<open>Registration of snapshots\<close>

record normalized_event =
  ne_event :: string
  ne_request :: string
  ne_pipeline :: string
  ne_source :: string
  ne_draft :: string
  ne_period :: string
  ne_content_sha :: string
  ne_payload :: json
  ne_revision_floor :: nat
  ne_record_count :: nat

definition of_stream :: "string \<Rightarrow> string \<Rightarrow> string \<Rightarrow> observation_row \<Rightarrow> bool" where
  "of_stream p src draft r \<longleftrightarrow> ob_pipeline r = p \<and> ob_source r = src \<and> ob_draft r = draft"

definition same_stream :: "observation_row \<Rightarrow> observation_row \<Rightarrow> bool" where
  "same_stream a b \<longleftrightarrow> of_stream (ob_pipeline a) (ob_source a) (ob_draft a) b"

definition latest_observation :: "string \<Rightarrow> string \<Rightarrow> string \<Rightarrow> connector_db \<Rightarrow> observation_row option" where
  "latest_observation p src draft s = find_last (of_stream p src draft) (observations s)"

text \<open>The keys of an observation: sequence, event, request, and revision within its stream.\<close>

definition observation_clash :: "observation_row \<Rightarrow> observation_row \<Rightarrow> bool" where
  "observation_clash r q \<longleftrightarrow>
     ob_event r = ob_event q \<or> ob_request r = ob_request q
     \<or> same_stream r q \<and> ob_revision r = ob_revision q"

definition insert_observation :: "observation_row \<Rightarrow> unit cop" where
  "insert_observation r s =
     (case insert_row observation_clash (r\<lparr>ob_sequence := next_sequence ob_sequence (observations s)\<rparr>)
             (observations s) of
        None \<Rightarrow> (Inl Constraint_Failed, s)
      | Some rows \<Rightarrow> (Inr (), s\<lparr>observations := rows\<rparr>))"

text \<open>
  The body of a revision: the event identifier, the revision in \<open>source\<close> and, inside the text
  \<open>source.content\<close>, in \<open>connector_snapshot\<close>. The result is the body with that content text.
\<close>

definition stamp_content :: "connector_env \<Rightarrow> nat \<Rightarrow> json \<Rightarrow> (json \<times> string) option" where
  "stamp_content env revision payload =
     Option.bind (field ''source'' payload) (\<lambda>src0.
     Option.bind (set_field ''revision'' (json_int (int revision)) src0) (\<lambda>src1.
     Option.bind (text_field ''content'' src1) (\<lambda>text.
     Option.bind (json_read env text) (\<lambda>content.
     Option.bind (field ''connector_snapshot'' content) (\<lambda>snap.
     Option.bind (set_field ''source_revision'' (json_int (int revision)) snap) (\<lambda>snap'.
     Option.bind (set_field ''connector_snapshot'' snap' content) (\<lambda>content'.
     let text' = json_text env (canonical content')
     in Option.bind (set_field ''content'' (JStr text') src1) (\<lambda>src2.
        Option.bind (set_field ''source'' src2 payload) (\<lambda>payload'.
        Some (payload', text'))))))))))"

text \<open>The row both \<open>INSERT\<close> statements write: the identifiers are made of one digest.\<close>

definition event_name :: "string \<Rightarrow> string" where
  "event_name digest = ''cevt_'' @ digest"

definition fresh_observation ::
    "connector_env \<Rightarrow> string \<Rightarrow> string \<times> string \<times> string \<Rightarrow> string \<Rightarrow> nat \<Rightarrow> string \<Rightarrow> string \<Rightarrow> json \<Rightarrow> rat
      \<Rightarrow> observation_row" where
  "fresh_observation env digest stream period revision sha content payload now =
     (case stream of (p, src, draft) \<Rightarrow>
        \<lparr>ob_sequence = 0, ob_event = event_name digest, ob_request = ''stored_'' @ digest,
         ob_pipeline = p, ob_source = src, ob_draft = draft, ob_period = period,
         ob_revision = revision, ob_content_sha = sha, ob_delivered_sha = sha256_hex env content,
         ob_payload = canonical payload, ob_status = Waiting, ob_trigger = False,
         ob_attempts = 0, ob_next = 0, ob_response = None, ob_error = None,
         ob_created = now, ob_updated = now, ob_delivered_at = None\<rparr>)"

definition register :: "connector_env \<Rightarrow> normalized_event \<Rightarrow> rat \<Rightarrow> string option cop" where
  "register env e now = atomic
     (bind (reading (latest_observation (ne_pipeline e) (ne_source e) (ne_draft e))) (\<lambda>latest.
      if (case latest of None \<Rightarrow> False | Some r \<Rightarrow> ob_content_sha r = ne_content_sha e) then ret None
      else
        let revision = (case latest of None \<Rightarrow> Suc (ne_revision_floor e) | Some r \<Rightarrow> Suc (ob_revision r));
            digest = sha256_hex env (lines [ne_pipeline e, ne_source e, ne_draft e,
                       decimal revision, ne_content_sha e])
        in
        bind (expect Missing_Key
                (set_field ''event_id'' (JStr (event_name digest)) (canonical (ne_payload e)))) (\<lambda>payload.
        bind (expect Missing_Key (stamp_content env revision payload)) (\<lambda>stamped.
        bind (insert_observation
                (fresh_observation env digest (ne_pipeline e, ne_source e, ne_draft e) (ne_period e)
                   revision (ne_content_sha e) (snd stamped) (fst stamped) now)) (\<lambda>_.
        ret (Some (event_name digest)))))))"

end
