(* ===== verification/Connector_Delivery.thy ===== *)
theory Connector_Delivery
  imports Connector_Store
begin

text \<open>
  Delivery of observations to the agent (\<open>StateStore\<close> of \<open>state.py\<close>, continued): what is due,
  the reservation of a workflow generation in \<open>prepare_delivery\<close>, the outcome of an attempt,
  and the operator's recovery actions.
\<close>

section \<open>Reads\<close>

record delivery =
  dl_event :: string
  dl_pipeline :: string
  dl_source :: string
  dl_draft :: string
  dl_payload :: json
  dl_attempts :: nat
  dl_trigger :: bool

definition to_delivery :: "observation_row \<Rightarrow> delivery" where
  "to_delivery r =
     \<lparr>dl_event = ob_event r, dl_pipeline = ob_pipeline r, dl_source = ob_source r,
      dl_draft = ob_draft r, dl_payload = ob_payload r, dl_attempts = ob_attempts r,
      dl_trigger = ob_trigger r\<rparr>"

record observation_metadata =
  om_event :: string
  om_revision :: nat
  om_content_sha :: string
  om_delivered_sha :: string
  om_status :: send_status

definition latest_observation_metadata ::
    "string \<Rightarrow> string \<Rightarrow> string \<Rightarrow> connector_db \<Rightarrow> observation_metadata option" where
  "latest_observation_metadata p src draft s =
     map_option (\<lambda>r. \<lparr>om_event = ob_event r, om_revision = ob_revision r,
         om_content_sha = ob_content_sha r, om_delivered_sha = ob_delivered_sha r,
         om_status = ob_status r\<rparr>)
       (latest_observation p src draft s)"

text \<open>The health body names exactly this observation: its event, revision and content.\<close>

definition health_matches_observation :: "health_row option \<Rightarrow> observation_row \<Rightarrow> bool" where
  "health_matches_observation health r =
     (case health of
        None \<Rightarrow> False
      | Some h \<Rightarrow>
          field ''autofill_event_id'' (h_payload h) = Some (JStr (ob_event r))
          \<and> field ''source_revision'' (h_payload h) = Some (json_int (int (ob_revision r)))
          \<and> field ''snapshot_sha256'' (h_payload h) = Some (JStr (ob_delivered_sha r)))"

definition pending_observations :: "rat \<Rightarrow> nat \<Rightarrow> connector_db \<Rightarrow> delivery list" where
  "pending_observations now limit s =
     map to_delivery
       (take limit (sort_key ob_next
         (filter (\<lambda>r. ob_status r = Waiting \<and> ob_next r \<le> now) (observations s))))"

section \<open>Reserving a workflow generation\<close>

text \<open>The last row of each source of a draft, among the rows that satisfy \<open>p\<close>.\<close>

definition newest_rows :: "string \<Rightarrow> string \<Rightarrow> (observation_row \<Rightarrow> bool) \<Rightarrow> observation_row list \<Rightarrow> observation_row list" where
  "newest_rows pipeline draft p rows =
     filter (\<lambda>c. ob_pipeline c = pipeline \<and> ob_draft c = draft \<and> p c
       \<and> \<not> list_ex (\<lambda>n. same_stream n c \<and> p n \<and> ob_sequence c < ob_sequence n) rows) rows"

definition by_source :: "observation_row list \<Rightarrow> (string \<times> observation_row) list" where
  "by_source rows = dict_of (map (\<lambda>r. (ob_source r, r)) rows)"

text \<open>The required source \<open>src\<close> is fresh and its exact snapshot is known to the agent as healthy.\<close>

definition source_ready ::
    "string \<Rightarrow> string \<Rightarrow> string \<Rightarrow> rat \<Rightarrow> rat \<Rightarrow> observation_row \<Rightarrow> connector_db \<Rightarrow> bool" where
  "source_ready p src draft maximum_age now row s =
     (source_snapshot_is_fresh p src draft maximum_age now s
      \<and> (case latest_health p src draft s of
           None \<Rightarrow> False
         | Some h \<Rightarrow> h_outcome h = ''success_nonempty'' \<and> h_status h = Delivered
             \<and> now - h_completed h < maximum_age
             \<and> health_matches_observation (Some h) row))"

text \<open>
  The loop over the required sources: the latest row of each, \<open>None\<close> when one is missing or not
  ready. A source without a configured maximum age raises.
\<close>

fun required_latest ::
    "string \<Rightarrow> string \<Rightarrow> (string \<times> rat) list option \<Rightarrow> rat \<Rightarrow> connector_db \<Rightarrow> string list
      \<Rightarrow> connector_error + (string \<times> observation_row) list option" where
  "required_latest p draft ages now s [] = Inr (Some [])"
| "required_latest p draft ages now s (src # rest) =
     (case latest_observation p src draft s of
        None \<Rightarrow> Inr None
      | Some row \<Rightarrow>
          let more = map_sum id (map_option (Cons (src, row))) (required_latest p draft ages now s rest)
          in (case ages of
                None \<Rightarrow> more
              | Some known \<Rightarrow>
                  (case map_of known src of
                     None \<Rightarrow> Inl Missing_Key
                   | Some age \<Rightarrow> if source_ready p src draft age now row s then more else Inr None)))"

text \<open>
  The first gate: the health of the observation's own source. \<open>None\<close> defers the delivery,
  \<open>Some False\<close> sends it without a workflow, \<open>Some True\<close> goes on.
\<close>

definition own_health_gate ::
    "(string \<times> rat) list option \<Rightarrow> rat \<Rightarrow> observation_row \<Rightarrow> connector_db \<Rightarrow> bool option" where
  "own_health_gate ages now current s =
     (case ages of
        None \<Rightarrow> Some True
      | Some known \<Rightarrow>
          (case latest_health (ob_pipeline current) (ob_source current) (ob_draft current) s of
             None \<Rightarrow> None
           | Some h \<Rightarrow>
               let bound = (h_outcome h = ''success_nonempty'' \<and> health_matches_observation (Some h) current)
               in if bound \<and> h_status h \<noteq> Delivered then None
                  else Some (case map_of known (ob_source current) of
                               None \<Rightarrow> False
                             | Some age \<Rightarrow> h_status h = Delivered \<and> bound \<and> now - h_completed h < age)))"

definition generation_rows :: "observation_row \<Rightarrow> connector_db \<Rightarrow> (string \<times> observation_row) list" where
  "generation_rows current s =
     AList.update (ob_source current) current
       (by_source (newest_rows (ob_pipeline current) (ob_draft current)
          (\<lambda>r. ob_status r = Delivered) (observations s)))"

definition generation_hash :: "connector_env \<Rightarrow> observation_row \<Rightarrow> connector_db \<Rightarrow> string" where
  "generation_hash env current s =
     (let rows = generation_rows current s
      in sha256_hex env (lines (map (\<lambda>src. src @ '':'' @ ob_event (the (map_of rows src)))
           (sort (map fst rows)))))"

definition insert_generation :: "generation_row \<Rightarrow> unit cop" where
  "insert_generation g s =
     (case insert_row (\<lambda>a b. g_draft a = g_draft b \<and> g_hash a = g_hash b) g (generations s) of
        None \<Rightarrow> (Inl Constraint_Failed, s)
      | Some rows \<Rightarrow> (Inr (), s\<lparr>generations := rows\<rparr>))"

definition assign_generation :: "connector_env \<Rightarrow> observation_row \<Rightarrow> string \<Rightarrow> rat \<Rightarrow> delivery option cop" where
  "assign_generation env current hash now =
     bind (expect Missing_Key (set_field ''trigger_workflow'' (JBool True) (ob_payload current))) (\<lambda>payload.
     bind (writing (update_observations (\<lambda>r. ob_event r = ob_event current)
             (\<lambda>r. r\<lparr>ob_payload := canonical payload, ob_trigger := True, ob_updated := now\<rparr>))) (\<lambda>_.
     bind (insert_generation
             \<lparr>g_draft = ob_draft current, g_hash = hash, g_event = ob_event current,
              g_status = Assigned, g_created = now, g_updated = now\<rparr>) (\<lambda>_.
     bind (reading (\<lambda>s. find (\<lambda>r. ob_event r = ob_event current) (observations s))) (\<lambda>updated.
     bind (expect Missing_Key updated) (\<lambda>row.
     ret (Some (to_delivery row)))))))"

text \<open>The rows of the required sources, other than the event's own, have all been delivered.\<close>

definition others_delivered :: "observation_row \<Rightarrow> (string \<times> observation_row) list \<Rightarrow> bool" where
  "others_delivered current latest \<longleftrightarrow>
     list_all (\<lambda>(src, row). src = ob_source current \<or> ob_status row = Delivered) latest"

definition is_newest :: "observation_row \<Rightarrow> connector_db \<Rightarrow> bool" where
  "is_newest current s \<longleftrightarrow>
     (case map_of (by_source (newest_rows (ob_pipeline current) (ob_draft current) (\<lambda>_. True)
             (observations s))) (ob_source current) of
        None \<Rightarrow> False | Some row \<Rightarrow> ob_event row = ob_event current)"

definition prepare_delivery ::
    "connector_env \<Rightarrow> string \<Rightarrow> string list \<Rightarrow> (string \<times> rat) list option \<Rightarrow> rat \<Rightarrow> delivery option cop" where
  "prepare_delivery env event required ages now = atomic
     (bind (reading (\<lambda>s. find (\<lambda>r. ob_event r = event \<and> ob_status r = Waiting) (observations s))) (\<lambda>found.
      case found of
        None \<Rightarrow> ret None
      | Some current \<Rightarrow>
          if ob_trigger current then ret (Some (to_delivery current))
          else
            bind (reading (\<lambda>s. list_ex (\<lambda>g. g_draft g = ob_draft current \<and> g_status g = Assigned)
                    (generations s))) (\<lambda>in_flight.
            if in_flight then ret None
            else
              bind (reading (own_health_gate ages now current)) (\<lambda>gate.
              case gate of
                None \<Rightarrow> ret None
              | Some False \<Rightarrow> ret (Some (to_delivery current))
              | Some True \<Rightarrow>
                  bind (reading (\<lambda>s. required_latest (ob_pipeline current) (ob_draft current) ages now s required))
                    (\<lambda>rows.
                  case rows of
                    Inl e \<Rightarrow> raise e
                  | Inr None \<Rightarrow> ret (Some (to_delivery current))
                  | Inr (Some latest) \<Rightarrow>
                      bind (reading (\<lambda>s. is_newest current s \<and> others_delivered current latest)) (\<lambda>ready.
                      if \<not> ready then ret (Some (to_delivery current))
                      else
                        bind (reading (\<lambda>s. generation_hash env current s)) (\<lambda>hash.
                        bind (reading (\<lambda>s. list_ex (\<lambda>g. g_draft g = ob_draft current \<and> g_hash g = hash)
                                (generations s))) (\<lambda>prior.
                        if prior then ret (Some (to_delivery current))
                        else assign_generation env current hash now))))))))"

section \<open>The outcome of an attempt\<close>

definition mark_delivered :: "string \<Rightarrow> int \<Rightarrow> rat \<Rightarrow> unit cop" where
  "mark_delivered e response now = atomic
     (bind (writing (update_observations (\<lambda>r. ob_event r = e \<and> ob_status r = Waiting)
              (\<lambda>r. r\<lparr>ob_status := Delivered, ob_attempts := Suc (ob_attempts r),
                     ob_response := Some response, ob_error := None,
                     ob_delivered_at := Some now, ob_updated := now\<rparr>))) (\<lambda>_.
      writing (update_generations (\<lambda>g. g_event g = e \<and> g_status g = Assigned)
        (\<lambda>g. g\<lparr>g_status := Completed, g_updated := now\<rparr>))))"

definition mark_retry ::
    "string \<Rightarrow> string \<Rightarrow> rat \<Rightarrow> int option \<Rightarrow> rat \<Rightarrow> connector_db \<Rightarrow> connector_db" where
  "mark_retry e err delay response now =
     update_observations (\<lambda>r. ob_event r = e \<and> ob_status r = Waiting)
       (\<lambda>r. r\<lparr>ob_attempts := Suc (ob_attempts r), ob_next := now + delay, ob_response := response,
              ob_error := Some (take 1000 err), ob_updated := now\<rparr>)"

definition mark_dead :: "string \<Rightarrow> string \<Rightarrow> int option \<Rightarrow> rat \<Rightarrow> unit cop" where
  "mark_dead e err response now = atomic
     (bind (writing (update_observations (\<lambda>r. ob_event r = e \<and> ob_status r = Waiting)
              (\<lambda>r. r\<lparr>ob_status := Dead, ob_attempts := Suc (ob_attempts r),
                     ob_response := response, ob_error := Some (take 1000 err), ob_updated := now\<rparr>))) (\<lambda>_.
      writing (update_generations (\<lambda>g. g_event g = e \<and> g_status g = Assigned)
        (\<lambda>g. g\<lparr>g_status := Failed, g_updated := now\<rparr>))))"

section \<open>Recovery\<close>

definition client_error :: "int option \<Rightarrow> bool" where
  "client_error response = (case response of None \<Rightarrow> False | Some c \<Rightarrow> 400 \<le> c \<and> c < 500)"

definition newest_of_stream :: "observation_row \<Rightarrow> connector_db \<Rightarrow> bool" where
  "newest_of_stream r s \<longleftrightarrow>
     \<not> list_ex (\<lambda>n. same_stream n r \<and> ob_sequence r < ob_sequence n) (observations s)"

definition clear_trigger :: "string \<Rightarrow> unit cop" where
  "clear_trigger e =
     bind (reading (\<lambda>s. find (\<lambda>r. ob_event r = e) (observations s))) (\<lambda>found.
     bind (expect Missing_Key found) (\<lambda>row.
     bind (expect Missing_Key (set_field ''trigger_workflow'' (JBool False) (ob_payload row))) (\<lambda>payload.
     writing (update_observations (\<lambda>r. ob_event r = e) (\<lambda>r. r\<lparr>ob_payload := canonical payload\<rparr>)))))"

definition retry_dead :: "string option \<Rightarrow> rat \<Rightarrow> nat cop" where
  "retry_dead event now = atomic
     (bind (reading (\<lambda>s.
        case event of
          Some e \<Rightarrow> filter (\<lambda>r. ob_status r = Dead \<and> ob_event r = e) (observations s)
        | None \<Rightarrow> filter (\<lambda>r. ob_status r = Dead \<and> \<not> client_error (ob_response r)
                             \<and> newest_of_stream r s) (observations s))) (\<lambda>rows.
      bind (require (event = None \<or> rows = [] \<or> \<not> client_error (ob_response (hd rows)))
              (Connector_Error ''use supersede-dead'')) (\<lambda>_.
      let events = map ob_event rows
      in
      bind (writing (\<lambda>s. s\<lparr>generations :=
              filter (\<lambda>g. \<not> (g_status g = Failed \<and> g_event g \<in> set events)) (generations s)\<rparr>)) (\<lambda>_.
      bind (writing (update_observations (\<lambda>r. ob_event r \<in> set events)
              (\<lambda>r. r\<lparr>ob_status := Waiting, ob_next := 0, ob_trigger := False, ob_error := None,
                     ob_updated := now\<rparr>))) (\<lambda>_.
      bind (for_each clear_trigger events) (\<lambda>_.
      ret (length events)))))))"

definition max_revision :: nat where
  "max_revision = 2147483647"

text \<open>The next revision of a dead observation, with the content it had.\<close>

definition supersede_row ::
    "connector_env \<Rightarrow> string \<Rightarrow> string \<Rightarrow> string \<Rightarrow> rat \<Rightarrow> observation_row \<Rightarrow> (string \<times> string \<times> nat) cop" where
  "supersede_row env event reason action now row =
     (let revision = Suc (ob_revision row);
          digest = sha256_hex env (lines [''supersede'', event, decimal revision, ob_content_sha row])
      in
      bind (reading (newest_of_stream row)) (\<lambda>newest.
      bind (require newest (Connector_Error ''newer revision'')) (\<lambda>_.
      bind (require (revision \<le> max_revision) (Connector_Error ''revision limit'')) (\<lambda>_.
      bind (expect Missing_Key (set_field ''trigger_workflow'' (JBool False) (ob_payload row))) (\<lambda>payload.
      bind (expect Missing_Key (stamp_content env revision payload)) (\<lambda>stamped.
      bind (expect Missing_Key (set_field ''event_id'' (JStr (event_name digest)) (fst stamped))) (\<lambda>body.
      bind (insert_observation
              (fresh_observation env digest (ob_pipeline row, ob_source row, ob_draft row)
                 (ob_period row) revision (ob_content_sha row) (snd stamped) body now)) (\<lambda>_.
      bind (writing (\<lambda>s. s\<lparr>recoveries := recoveries s @
              [\<lparr>rc_action = action, rc_type = ''supersede_dead'',
                rc_details = canonical (JObj
                  [(''old_event_id'', JStr event), (''new_event_id'', JStr (event_name digest)),
                   (''source_revision'', json_int (int revision)), (''reason'', JStr reason)]),
                rc_created = now\<rparr>]\<rparr>)) (\<lambda>_.
      ret (action, event_name digest, revision))))))))))"

definition supersede_dead :: "connector_env \<Rightarrow> string \<Rightarrow> string \<Rightarrow> string \<Rightarrow> rat \<Rightarrow> (string \<times> string \<times> nat) cop" where
  "supersede_dead env event reason uuid now =
     (let clean_reason = join_texts '' '' (python_split reason)
      in bind (require (10 \<le> length clean_reason \<and> length clean_reason \<le> 500) (Bad_Value ''reason'')) (\<lambda>_.
      atomic
       (bind (reading (\<lambda>s. find (\<lambda>r. ob_event r = event \<and> ob_status r = Dead) (observations s))) (\<lambda>found.
        case found of
          None \<Rightarrow> raise (Connector_Error ''not dead'')
        | Some row \<Rightarrow> supersede_row env event clean_reason (''recovery_'' @ uuid) now row))))"

definition replay_delivered :: "string option \<Rightarrow> bool \<Rightarrow> string \<Rightarrow> rat \<Rightarrow> nat cop" where
  "replay_delivered event latest uuid now =
     bind (require ((event = None) = latest) (Bad_Value ''event_id or latest'')) (\<lambda>_.
     atomic
       (bind (reading (\<lambda>s.
          case event of
            Some e \<Rightarrow> filter (\<lambda>r. ob_status r = Delivered \<and> ob_event r = e) (observations s)
          | None \<Rightarrow> filter (\<lambda>r. ob_status r = Delivered \<and> newest_of_stream r s) (observations s))) (\<lambda>rows.
        let events = map ob_event rows
        in if events = [] then ret 0
           else
             bind (writing (update_observations (\<lambda>r. ob_event r \<in> set events)
                     (\<lambda>r. r\<lparr>ob_status := Waiting, ob_next := 0, ob_error := None, ob_updated := now\<rparr>))) (\<lambda>_.
             bind (writing (\<lambda>s. s\<lparr>recoveries := recoveries s @
                     [\<lparr>rc_action = ''recovery_'' @ uuid, rc_type = ''replay_delivered'',
                       rc_details = canonical (JObj
                         [(''mode'', JStr (if event = None then ''latest'' else ''event_id'')),
                          (''event_ids'', json_strs events),
                          (''count'', json_int (int (length events)))]),
                       rc_created = now\<rparr>]\<rparr>)) (\<lambda>_.
             ret (length events))))))"

section \<open>Counts\<close>

record connector_status =
  cs_observations :: "nat \<times> nat \<times> nat \<times> nat"
  cs_generations :: "nat \<times> nat \<times> nat"
  cs_healths :: "nat \<times> nat \<times> nat \<times> nat"
  cs_recoveries :: nat

definition connector_status_of :: "connector_db \<Rightarrow> connector_status" where
  "connector_status_of s =
     (let count = \<lambda>x. length (filter (\<lambda>r. ob_status r = x) (observations s));
          generation = \<lambda>x. length (filter (\<lambda>g. g_status g = x) (generations s));
          health = \<lambda>x. length (filter (\<lambda>h. h_status h = x) (healths s))
      in \<lparr>cs_observations = (count Waiting, count Delivered, count Dead,
            count Waiting + count Delivered + count Dead),
          cs_generations = (generation Assigned, generation Completed, generation Failed),
          cs_healths = (health Waiting, health Delivered, health Dead,
            health Waiting + health Delivered + health Dead),
          cs_recoveries = length (recoveries s)\<rparr>)"

end
