(* ===== verification/Connector_Service.thy ===== *)
theory Connector_Service
  imports Connector_Delivery "HOL-Library.Word"
begin

text \<open>
  The connector service (\<open>enterprise_connector/service.py\<close>, \<open>client.py\<close>, \<open>reporting.py\<close>): one
  cycle collects every source, sends the health deliveries and then the observations. The
  adapters with \<open>normalize.py\<close>, the network and the calendar are fields of \<open>service_world\<close>; how
  an answer of the agent is interpreted is modelled.
\<close>

section \<open>Configuration and world\<close>

record source_config =
  sc_id :: string
  sc_system :: string
  sc_max_staleness :: rat

record pipeline_config =
  pc_id :: string
  pc_enterprise :: string
  pc_timezone :: string
  pc_lag_days :: int
  pc_required :: "string list"
  pc_sources :: "source_config list"

record service_config =
  cf_pipelines :: "pipeline_config list"
  cf_retry_base :: rat
  cf_retry_max :: rat
  cf_lease_seconds :: rat

text \<open>
  What \<open>_collect\<close> and \<open>normalize_batches\<close> come to: no record (with or without a candidate file),
  records with their events, a \<open>ConnectorError\<close>, or another exception with its class name.
\<close>

datatype collection =
    No_Records bool | Records int "normalized_event list"
  | Collection_Fails string | Collection_Crashes string

text \<open>An HTTP exchange: no answer, or status, content type and body (\<open>None\<close> if it is no JSON).\<close>

datatype http_answer = No_Answer string | Answer int string "json option"

record service_world =
  clock :: "nat \<Rightarrow> rat"
  nonce :: "nat \<Rightarrow> string"
  collects :: "nat \<Rightarrow> pipeline_config \<Rightarrow> source_config \<Rightarrow> collection"
  answers :: "nat \<Rightarrow> string \<Rightarrow> json \<Rightarrow> http_answer"
  report_month :: "string \<Rightarrow> int \<Rightarrow> rat \<Rightarrow> string"
  utc_text :: "rat \<Rightarrow> string"
  sha256_bytes :: "string \<Rightarrow> 8 word list"

section \<open>The answer of the agent\<close>

datatype endpoint = Autofill_Endpoint | Health_Endpoint

datatype send_outcome =
    Sent int
  | Refused bool "int option" string

definition safe_id_char :: "char \<Rightarrow> bool" where
  "safe_id_char c \<longleftrightarrow>
     (let n = of_char c :: nat
      in 48 \<le> n \<and> n \<le> 57 \<or> 65 \<le> n \<and> n \<le> 90 \<or> 97 \<le> n \<and> n \<le> 122)
     \<or> c \<in> set ''_.:-''"

text \<open>\<open>[A-Za-z0-9][A-Za-z0-9_.:-]{0,n}\<close>\<close>

definition safe_id :: "nat \<Rightarrow> string \<Rightarrow> bool" where
  "safe_id n s \<longleftrightarrow> s \<noteq> [] \<and> length s \<le> Suc n \<and> hd s \<notin> set ''_.:-'' \<and> list_all safe_id_char s"

text \<open>The hook of \<open>json.loads\<close> refuses a repeated field in any object.\<close>

fun unique_fields :: "json \<Rightarrow> bool" where
  "unique_fields (JArr xs) = list_all unique_fields xs"
| "unique_fields (JObj kvs) = (distinct (map fst kvs) \<and> list_all (\<lambda>(_, v). unique_fields v) kvs)"
| "unique_fields v = True"

definition valid_success :: "endpoint \<Rightarrow> string \<Rightarrow> string \<Rightarrow> json option \<Rightarrow> bool" where
  "valid_success path event content_type body \<longleftrightarrow>
     content_type = ''application/json''
     \<and> (case body of
          Some (JObj kvs) \<Rightarrow>
            unique_fields (JObj kvs)
            \<and> map_of kvs ''event_id'' = Some (JStr event)
            \<and> (case map_of kvs ''idempotent_replay'' of Some (JBool _) \<Rightarrow> True | _ \<Rightarrow> False)
            \<and> (case path of
                 Autofill_Endpoint \<Rightarrow>
                   map_of kvs ''contract_version'' = Some (JStr ''enterprise-autofill-ingestion-result/v1'')
                   \<and> map_of kvs ''status'' = Some (JStr ''completed'')
                   \<and> list_all (\<lambda>k. case map_of kvs k of Some (JStr s) \<Rightarrow> safe_id 127 s | _ \<Rightarrow> False)
                       [''draft_id'', ''ingestion_id'']
               | Health_Endpoint \<Rightarrow>
                   map_of kvs ''contract_version'' = Some (JStr ''enterprise-source-health-result/v1'')
                   \<and> map_of kvs ''status'' = Some (JStr ''recorded''))
        | _ \<Rightarrow> False)"

text \<open>\<open>str.isprintable\<close> of one character below 256.\<close>

definition printable :: "char \<Rightarrow> bool" where
  "printable c \<longleftrightarrow>
     (let n = of_char c :: nat in 32 \<le> n \<and> n \<le> 126 \<or> 161 \<le> n \<and> n \<noteq> 173)"

text \<open>
  The error code of a refusal: of the nested \<open>error\<close> object when there is one. Of a repeated
  field the last one counts.
\<close>

definition answer_code :: "json option \<Rightarrow> string option" where
  "answer_code body =
     (case body of
        Some (JObj kvs) \<Rightarrow>
          (let raw = (case map_of (rev kvs) ''error'' of
                        Some (JObj inner) \<Rightarrow> map_of (rev inner) ''code'' | _ \<Rightarrow> map_of (rev kvs) ''code'')
           in case raw of
                Some (JStr s) \<Rightarrow>
                  (let c = take 64 (join_texts '' '' (python_split
                             (map (\<lambda>c. if printable c then c else CHR '' '') s)))
                   in if safe_id 63 c then Some c else None)
              | _ \<Rightarrow> None)
      | _ \<Rightarrow> None)"

definition retryable_status :: "int \<Rightarrow> string option \<Rightarrow> bool" where
  "retryable_status st code \<longleftrightarrow>
     st \<in> {408, 425, 429} \<or> 500 \<le> st
     \<or> st = 409 \<and> code = Some ''connector_ingestion_in_progress''"

definition interpret_answer :: "endpoint \<Rightarrow> string \<Rightarrow> http_answer \<Rightarrow> send_outcome" where
  "interpret_answer path event a =
     (case a of
        No_Answer msg \<Rightarrow> Refused True None msg
      | Answer st content_type body \<Rightarrow>
          if 200 \<le> st \<and> st < 300
          then (if valid_success path event content_type body then Sent st
                else Refused True (Some st) ''agent_protocol_error'')
          else Refused (retryable_status st (answer_code body)) (Some st) ''status'')"

section \<open>Service state\<close>

record cycle_result =
  cy_discovered :: nat
  cy_duplicate :: nat
  cy_delivered :: nat
  cy_retried :: nat
  cy_dead :: nat
  cy_source_errors :: nat
  cy_health_queued :: nat
  cy_health_delivered :: nat
  cy_health_retried :: nat
  cy_health_dead :: nat

definition no_result :: cycle_result where
  "no_result =
     \<lparr>cy_discovered = 0, cy_duplicate = 0, cy_delivered = 0, cy_retried = 0, cy_dead = 0,
      cy_source_errors = 0, cy_health_queued = 0, cy_health_delivered = 0,
      cy_health_retried = 0, cy_health_dead = 0\<rparr>"

definition cycle_errors :: "cycle_result \<Rightarrow> nat" where
  "cycle_errors r =
     cy_retried r + cy_dead r + cy_source_errors r + cy_health_retried r + cy_health_dead r"

record service =
  sv_db :: connector_db
  sv_ticks :: nat
  sv_result :: cycle_result

type_synonym 'a sop = "(service, connector_error, 'a) op"

text \<open>A call of the store: it reads the clock and may draw a nonce.\<close>

definition store_call :: "service_world \<Rightarrow> (rat \<Rightarrow> string \<Rightarrow> 'a cop) \<Rightarrow> 'a sop" where
  "store_call w m sv =
     (case m (clock w (sv_ticks sv)) (nonce w (sv_ticks sv)) (sv_db sv) of
        (r, db) \<Rightarrow> (r, sv\<lparr>sv_db := db, sv_ticks := Suc (sv_ticks sv)\<rparr>))"

definition read_clock :: "service_world \<Rightarrow> rat sop" where
  "read_clock w sv = (Inr (clock w (sv_ticks sv)), sv\<lparr>sv_ticks := Suc (sv_ticks sv)\<rparr>)"

definition count_up :: "(cycle_result \<Rightarrow> cycle_result) \<Rightarrow> unit sop" where
  "count_up f = writing (\<lambda>sv. sv\<lparr>sv_result := f (sv_result sv)\<rparr>)"

definition renew :: "service_world \<Rightarrow> service_config \<Rightarrow> string \<Rightarrow> unit sop" where
  "renew w cf owner =
     bind (store_call w (\<lambda>now _ s. (case renew_lease owner (cf_lease_seconds cf) now s of (b, t) \<Rightarrow> (Inr b, t))))
       (\<lambda>held. require held (Connector_Error ''lease lost''))"

text \<open>
  The delay of a retry: exponential up to the maximum, with a jitter between 0.8 and 1.2 that
  the first two bytes of a digest decide.
\<close>

definition retry_delay :: "service_world \<Rightarrow> service_config \<Rightarrow> string \<Rightarrow> nat \<Rightarrow> rat" where
  "retry_delay w cf event attempts =
     (let base = min (cf_retry_max cf) (cf_retry_base cf * 2 ^ min attempts 16);
          digest = sha256_bytes w (event @ '':'' @ decimal attempts);
          number = 256 * unat (digest ! 0) + unat (digest ! 1);
          jitter = 8 / 10 + of_nat number / 65535 * (4 / 10)
      in min (cf_retry_max cf) (base * jitter))"

section \<open>Collecting\<close>

definition five_quantity_draft :: "pipeline_config \<Rightarrow> string \<Rightarrow> string" where
  "five_quantity_draft pl month =
     ''draft:'' @ pc_enterprise pl @ '':five-quantity:monthly:'' @ month"

definition reporting_target :: "service_world \<Rightarrow> pipeline_config \<Rightarrow> rat \<Rightarrow> string \<times> string" where
  "reporting_target w pl t =
     (let month = report_month w (pc_timezone pl) (pc_lag_days pl) t
      in (five_quantity_draft pl month, month))"

record health_report =
  hr_draft :: string
  hr_month :: string
  hr_outcome :: string
  hr_attempted :: rat
  hr_completed :: rat
  hr_count :: int
  hr_coverage :: "string option"
  hr_error_code :: "string option"
  hr_snapshot_sha :: "string option"
  hr_event :: "string option"
  hr_revision :: "nat option"

definition health_payload :: "service_world \<Rightarrow> source_config \<Rightarrow> health_report \<Rightarrow> (string \<times> json) list" where
  "health_payload w src h =
     [(''contract_version'', JStr ''enterprise-source-health/v1''),
      (''draft_key'', JStr (hr_draft h)),
      (''reporting_month'', JStr (hr_month h)),
      (''source_id'', JStr (sc_id src)),
      (''source_system'', JStr (sc_system src)),
      (''outcome'', JStr (hr_outcome h)),
      (''attempted_at'', JStr (utc_text w (hr_attempted h))),
      (''completed_at'', JStr (utc_text w (hr_completed h))),
      (''record_count'', json_int (hr_count h)),
      (''coverage_as_of'', json_opt (hr_coverage h)),
      (''error_code'', json_opt (hr_error_code h)),
      (''snapshot_sha256'', json_opt (hr_snapshot_sha h)),
      (''autofill_event_id'', json_opt (hr_event h)),
      (''source_revision'', (case hr_revision h of None \<Rightarrow> JNull | Some n \<Rightarrow> json_int (int n)))]"

definition queue_health ::
    "connector_env \<Rightarrow> service_world \<Rightarrow> pipeline_config \<Rightarrow> source_config \<Rightarrow> health_report \<Rightarrow> unit sop" where
  "queue_health env w pl src h =
     (let heartbeat = min 900 (max 60 (sc_max_staleness src / 2))
      in bind (store_call w (\<lambda>now n.
                 register_health env (pc_id pl) (health_payload w src h) heartbeat (hr_completed h) n now))
           (\<lambda>event. if event = None then ret ()
                    else count_up (\<lambda>r. r\<lparr>cy_health_queued := Suc (cy_health_queued r)\<rparr>)))"

definition plain_report :: "string \<times> string \<Rightarrow> string \<Rightarrow> rat \<Rightarrow> rat \<Rightarrow> string option \<Rightarrow> health_report" where
  "plain_report target outcome attempted completed code =
     \<lparr>hr_draft = fst target, hr_month = snd target, hr_outcome = outcome, hr_attempted = attempted,
      hr_completed = completed, hr_count = 0, hr_coverage = None, hr_error_code = code,
      hr_snapshot_sha = None, hr_event = None, hr_revision = None\<rparr>"

definition collect_nothing ::
    "connector_env \<Rightarrow> service_world \<Rightarrow> pipeline_config \<Rightarrow> source_config \<Rightarrow> rat \<Rightarrow> rat \<Rightarrow> bool \<Rightarrow> unit sop" where
  "collect_nothing env w pl src attempted completed candidate =
     bind (store_call w (\<lambda>now _. record_collection_health (pc_id pl) (sc_id src)
             (if candidate then Stability_Wait else Collected_Empty) 0 None now)) (\<lambda>_.
     queue_health env w pl src
       (plain_report (reporting_target w pl completed)
          (if candidate then ''stability_wait'' else ''success_empty'') attempted completed None))"

definition collect_event ::
    "connector_env \<Rightarrow> service_world \<Rightarrow> pipeline_config \<Rightarrow> source_config \<Rightarrow> int \<Rightarrow> rat \<Rightarrow> rat
      \<Rightarrow> normalized_event \<Rightarrow> unit sop" where
  "collect_event env w pl src n attempted completed e =
     bind (store_call w (\<lambda>now _. record_snapshot_health (pc_id pl) (sc_id src) (ne_draft e) (ne_period e) n now)) (\<lambda>_.
     bind (store_call w (\<lambda>now _. register env e now)) (\<lambda>registered.
     bind (count_up (\<lambda>r. if registered = None then r\<lparr>cy_duplicate := Suc (cy_duplicate r)\<rparr>
                         else r\<lparr>cy_discovered := Suc (cy_discovered r)\<rparr>)) (\<lambda>_.
     bind (reading (\<lambda>sv. latest_observation_metadata (pc_id pl) (sc_id src) (ne_draft e) (sv_db sv))) (\<lambda>found.
     case found of
       None \<Rightarrow> raise Assertion_Failed
     | Some meta \<Rightarrow>
         (case Option.bind (field ''source'' (ne_payload e)) (text_field ''coverage_as_of'') of
            None \<Rightarrow> raise Missing_Key
          | Some coverage \<Rightarrow>
              queue_health env w pl src
                \<lparr>hr_draft = ne_draft e, hr_month = ne_period e, hr_outcome = ''success_nonempty'',
                 hr_attempted = attempted, hr_completed = completed,
                 hr_count = int (ne_record_count e), hr_coverage = Some coverage,
                 hr_error_code = None, hr_snapshot_sha = Some (om_delivered_sha meta),
                 hr_event = Some (om_event meta), hr_revision = Some (om_revision meta)\<rparr>)))))"

definition collect_records ::
    "connector_env \<Rightarrow> service_world \<Rightarrow> pipeline_config \<Rightarrow> source_config \<Rightarrow> rat \<Rightarrow> int
      \<Rightarrow> normalized_event list \<Rightarrow> unit sop" where
  "collect_records env w pl src attempted n events =
     bind (read_clock w) (\<lambda>completed.
     bind (store_call w (\<lambda>now _. record_collection_health (pc_id pl) (sc_id src) Collected n None now)) (\<lambda>_.
     bind (for_each (collect_event env w pl src n attempted completed) events) (\<lambda>_.
     let target = reporting_target w pl completed
     in if fst target \<in> ne_draft ` set events then ret ()
        else queue_health env w pl src (plain_report target ''success_empty'' attempted completed None))))"

text \<open>The two \<open>except\<close> branches differ in the recorded error and its code.\<close>

definition collect_failed ::
    "connector_env \<Rightarrow> service_world \<Rightarrow> pipeline_config \<Rightarrow> source_config \<Rightarrow> rat \<Rightarrow> string \<Rightarrow> string \<Rightarrow> unit sop" where
  "collect_failed env w pl src attempted err code =
     bind (read_clock w) (\<lambda>completed.
     bind (store_call w (\<lambda>now _. record_collection_health (pc_id pl) (sc_id src) Collection_Error 0 (Some err) now)) (\<lambda>_.
     bind (queue_health env w pl src
             (plain_report (reporting_target w pl completed) ''error'' attempted completed (Some code))) (\<lambda>_.
     count_up (\<lambda>r. r\<lparr>cy_source_errors := Suc (cy_source_errors r)\<rparr>))))"

definition exception_name :: "connector_error \<Rightarrow> string" where
  "exception_name e =
     (case e of Connector_Error _ \<Rightarrow> ''ConnectorError'' | Bad_Value _ \<Rightarrow> ''ValueError''
              | Missing_Key \<Rightarrow> ''KeyError'' | Constraint_Failed \<Rightarrow> ''IntegrityError''
              | Assertion_Failed \<Rightarrow> ''AssertionError'')"

definition catching :: "'a sop \<Rightarrow> (connector_error \<Rightarrow> 'a sop) \<Rightarrow> 'a sop" where
  "catching m handler sv = (case m sv of (Inl e, t) \<Rightarrow> handler e t | (Inr a, t) \<Rightarrow> (Inr a, t))"

definition collect_source ::
    "connector_env \<Rightarrow> service_world \<Rightarrow> service_config \<Rightarrow> string \<Rightarrow> pipeline_config \<Rightarrow> source_config \<Rightarrow> unit sop" where
  "collect_source env w cf owner pl src =
     bind (renew w cf owner) (\<lambda>_.
     bind (read_clock w) (\<lambda>attempted.
     bind (reading (\<lambda>sv. collects w (sv_ticks sv) pl src)) (\<lambda>outcome.
     case outcome of
       Collection_Fails msg \<Rightarrow> collect_failed env w pl src attempted msg ''source_collection_error''
     | Collection_Crashes name \<Rightarrow>
         collect_failed env w pl src attempted (''internal:'' @ name) ''source_internal_error''
     | No_Records candidate \<Rightarrow>
         bind (read_clock w) (\<lambda>completed.
         catching (collect_nothing env w pl src attempted completed candidate)
           (\<lambda>e. case e of
                  Connector_Error msg \<Rightarrow> collect_failed env w pl src attempted msg ''source_collection_error''
                | _ \<Rightarrow> collect_failed env w pl src attempted (''internal:'' @ exception_name e)
                         ''source_internal_error''))
     | Records n events \<Rightarrow>
         catching (collect_records env w pl src attempted n events)
           (\<lambda>e. case e of
                  Connector_Error msg \<Rightarrow> collect_failed env w pl src attempted msg ''source_collection_error''
                | _ \<Rightarrow> collect_failed env w pl src attempted (''internal:'' @ exception_name e)
                         ''source_internal_error''))))"

definition collect_all :: "connector_env \<Rightarrow> service_world \<Rightarrow> service_config \<Rightarrow> string \<Rightarrow> unit sop" where
  "collect_all env w cf owner =
     for_each (\<lambda>pl. for_each (collect_source env w cf owner pl) (pc_sources pl)) (cf_pipelines cf)"

section \<open>Dispatching\<close>

definition dispatch_health_one :: "service_world \<Rightarrow> service_config \<Rightarrow> string \<Rightarrow> health_row \<Rightarrow> unit sop" where
  "dispatch_health_one w cf owner h =
     bind (renew w cf owner) (\<lambda>_.
     bind (reading (\<lambda>sv. interpret_answer Health_Endpoint (h_event h)
             (answers w (sv_ticks sv) (h_event h) (h_payload h)))) (\<lambda>outcome.
     case outcome of
       Sent st \<Rightarrow>
         bind (store_call w (\<lambda>now _. writing (mark_health_delivered (h_event h) st now))) (\<lambda>_.
         count_up (\<lambda>r. r\<lparr>cy_health_delivered := Suc (cy_health_delivered r)\<rparr>))
     | Refused True st msg \<Rightarrow>
         bind (store_call w (\<lambda>now _. writing (mark_health_retry (h_event h) msg
                 (retry_delay w cf (h_event h) (h_attempts h)) st now))) (\<lambda>_.
         count_up (\<lambda>r. r\<lparr>cy_health_retried := Suc (cy_health_retried r)\<rparr>))
     | Refused False st msg \<Rightarrow>
         bind (store_call w (\<lambda>now _. writing (mark_health_dead (h_event h) msg st now))) (\<lambda>_.
         count_up (\<lambda>r. r\<lparr>cy_health_dead := Suc (cy_health_dead r)\<rparr>))))"

definition dispatch_health :: "service_world \<Rightarrow> service_config \<Rightarrow> string \<Rightarrow> unit sop" where
  "dispatch_health w cf owner =
     bind (store_call w (\<lambda>now _. reading (pending_health now 1000))) (\<lambda>rows.
     for_each (dispatch_health_one w cf owner) rows)"

definition deliver :: "service_world \<Rightarrow> service_config \<Rightarrow> delivery \<Rightarrow> unit sop" where
  "deliver w cf d =
     bind (reading (\<lambda>sv. interpret_answer Autofill_Endpoint (dl_event d)
             (answers w (sv_ticks sv) (dl_event d) (dl_payload d)))) (\<lambda>outcome.
     case outcome of
       Sent st \<Rightarrow>
         bind (store_call w (\<lambda>now _. mark_delivered (dl_event d) st now)) (\<lambda>_.
         count_up (\<lambda>r. r\<lparr>cy_delivered := Suc (cy_delivered r)\<rparr>))
     | Refused True st msg \<Rightarrow>
         bind (store_call w (\<lambda>now _. writing (mark_retry (dl_event d) msg
                 (retry_delay w cf (dl_event d) (dl_attempts d)) st now))) (\<lambda>_.
         count_up (\<lambda>r. r\<lparr>cy_retried := Suc (cy_retried r)\<rparr>))
     | Refused False st msg \<Rightarrow>
         bind (store_call w (\<lambda>now _. mark_dead (dl_event d) msg st now)) (\<lambda>_.
         count_up (\<lambda>r. r\<lparr>cy_dead := Suc (cy_dead r)\<rparr>)))"

definition dispatch_one ::
    "connector_env \<Rightarrow> service_world \<Rightarrow> service_config \<Rightarrow> string \<Rightarrow> delivery \<Rightarrow> unit sop" where
  "dispatch_one env w cf owner d =
     bind (renew w cf owner) (\<lambda>_.
     case find (\<lambda>pl. pc_id pl = dl_pipeline d) (rev (cf_pipelines cf)) of
       None \<Rightarrow>
         bind (store_call w (\<lambda>now _. mark_dead (dl_event d) ''pipeline removed'' None now)) (\<lambda>_.
         count_up (\<lambda>r. r\<lparr>cy_dead := Suc (cy_dead r)\<rparr>))
     | Some pl \<Rightarrow>
         bind (store_call w (\<lambda>now _. prepare_delivery env (dl_event d) (pc_required pl)
                 (Some (dict_of (map (\<lambda>src. (sc_id src, sc_max_staleness src)) (pc_sources pl)))) now)) (\<lambda>prepared.
         case prepared of None \<Rightarrow> ret () | Some p \<Rightarrow> deliver w cf p))"

definition dispatch :: "connector_env \<Rightarrow> service_world \<Rightarrow> service_config \<Rightarrow> string \<Rightarrow> unit sop" where
  "dispatch env w cf owner =
     bind (store_call w (\<lambda>now _. reading (pending_observations now 1000))) (\<lambda>rows.
     for_each (dispatch_one env w cf owner) rows)"

definition run_cycle :: "connector_env \<Rightarrow> service_world \<Rightarrow> service_config \<Rightarrow> string \<Rightarrow> cycle_result sop" where
  "run_cycle env w cf owner =
     bind (writing (\<lambda>sv. sv\<lparr>sv_result := no_result\<rparr>)) (\<lambda>_.
     bind (collect_all env w cf owner) (\<lambda>_.
     bind (dispatch_health w cf owner) (\<lambda>_.
     bind (dispatch env w cf owner) (\<lambda>_.
     reading sv_result))))"

end
