(* ===== verification/Connector_Actions.thy ===== *)
theory Connector_Actions
  imports Connector_Service
begin

text \<open>
  All interleavings of the connector's store calls. The service, a second instance that waits
  for the lease and the operator's commands (\<open>cli.py\<close>) share one database; each call is one
  transaction, an \<open>action\<close>. A cycle of the service is a sequence of actions.
\<close>

datatype store_action =
    Acquire_Lease string rat rat
  | Renew_Lease string rat rat
  | Release_Lease string
  | Note_Collection string string collection_status int "string option" rat
  | Note_Snapshot string string string string int rat
  | Register_Health string "(string \<times> json) list" rat rat string rat
  | Health_Delivered string int rat
  | Health_Retry string string rat "int option" rat
  | Health_Dead string string "int option" rat
  | Register normalized_event rat
  | Prepare string "string list" "(string \<times> rat) list option" rat
  | Attempt_Delivered string int rat
  | Attempt_Retry string string rat "int option" rat
  | Attempt_Dead string string "int option" rat
  | Retry_Dead "string option" rat
  | Supersede_Dead string string string rat
  | Replay_Delivered "string option" bool string rat

fun act :: "connector_env \<Rightarrow> store_action \<Rightarrow> connector_db \<Rightarrow> connector_db" where
  "act env (Acquire_Lease owner seconds now) s = snd (acquire_lease owner seconds now s)"
| "act env (Renew_Lease owner seconds now) s = snd (renew_lease owner seconds now s)"
| "act env (Release_Lease owner) s = release_lease owner s"
| "act env (Note_Collection p src st n err now) s = snd (record_collection_health p src st n err now s)"
| "act env (Note_Snapshot p src draft period n now) s = snd (record_snapshot_health p src draft period n now s)"
| "act env (Register_Health p payload heartbeat completed uuid now) s =
     snd (register_health env p payload heartbeat completed uuid now s)"
| "act env (Health_Delivered e st now) s = mark_health_delivered e st now s"
| "act env (Health_Retry e err delay st now) s = mark_health_retry e err delay st now s"
| "act env (Health_Dead e err st now) s = mark_health_dead e err st now s"
| "act env (Register e now) s = snd (register env e now s)"
| "act env (Prepare e required ages now) s = snd (prepare_delivery env e required ages now s)"
| "act env (Attempt_Delivered e st now) s = snd (mark_delivered e st now s)"
| "act env (Attempt_Retry e err delay st now) s = mark_retry e err delay st now s"
| "act env (Attempt_Dead e err st now) s = snd (mark_dead e err st now s)"
| "act env (Retry_Dead e now) s = snd (retry_dead e now s)"
| "act env (Supersede_Dead e reason uuid now) s = snd (supersede_dead env e reason uuid now s)"
| "act env (Replay_Delivered e latest uuid now) s = snd (replay_delivered e latest uuid now s)"

definition empty_db :: connector_db where
  "empty_db =
     \<lparr>observations = [], generations = [], lease = None, source_health = [], snapshots = [],
      healths = [], health_sequence = 0, recoveries = []\<rparr>"

inductive connector_reachable :: "connector_env \<Rightarrow> connector_db \<Rightarrow> bool" for env where
  connector_start: "connector_reachable env empty_db"
| connector_act: "connector_reachable env s \<Longrightarrow> connector_reachable env (act env a s)"

definition act_all :: "connector_env \<Rightarrow> store_action list \<Rightarrow> connector_db \<Rightarrow> connector_db" where
  "act_all env as s = fold (act env) as s"

lemma connector_reachable_all:
  "connector_reachable env s \<Longrightarrow> connector_reachable env (act_all env as s)"
  unfolding act_all_def by (induction as arbitrary: s) (auto intro: connector_act)

section \<open>A cycle is a sequence of actions\<close>

definition by_actions :: "connector_env \<Rightarrow> service \<Rightarrow> service \<Rightarrow> bool" where
  "by_actions env sv sv' \<longleftrightarrow> (\<exists>as. sv_db sv' = act_all env as (sv_db sv))"

lemma by_actions_refl: "by_actions env sv sv"
  unfolding by_actions_def by (rule exI [of _ "[]"]) (simp add: act_all_def)

lemma by_actions_trans:
  assumes "by_actions env a b" "by_actions env b c"
  shows "by_actions env a c"
proof -
  obtain xs ys where "sv_db b = act_all env xs (sv_db a)" "sv_db c = act_all env ys (sv_db b)"
    using assms by (auto simp: by_actions_def)
  then have "sv_db c = act_all env (xs @ ys) (sv_db a)" by (simp add: act_all_def)
  then show ?thesis unfolding by_actions_def by blast
qed

interpretation cycle: history_relation "by_actions env" for env
  by unfold_locales (auto intro: by_actions_refl by_actions_trans)

lemma evolves_store_call:
  assumes "\<And>now n s. \<exists>a. snd (m now n s) = act env a s"
  shows "evolves (by_actions env) (store_call w m)"
proof (rule evolvesI)
  fix sv r sv'
  assume run: "store_call w m sv = (r, sv')"
  obtain a where a: "snd (m (clock w (sv_ticks sv)) (nonce w (sv_ticks sv)) (sv_db sv)) = act env a (sv_db sv)"
    using assms by blast
  have "sv_db sv' = act_all env [a] (sv_db sv)"
    using run a by (auto simp: store_call_def act_all_def split: prod.splits)
  then show "by_actions env sv sv'" unfolding by_actions_def by blast
qed

lemma evolves_same_db:
  assumes "\<And>sv. sv_db (snd (m sv)) = sv_db sv"
  shows "evolves (by_actions env) m"
  unfolding evolves_def by_actions_def
  using assms by (metis act_all_def fold_simps(1))

lemma evolves_store_read: "evolves (by_actions env) (store_call w (\<lambda>now n. reading (f now n)))"
  by (rule evolves_same_db) (simp add: store_call_def reading_def)

lemma evolves_store_actions:
  "evolves (by_actions env) (store_call w (\<lambda>now n s. (case renew_lease owner seconds now s of (b, t) \<Rightarrow> (Inr b, t))))"
  "evolves (by_actions env) (store_call w (\<lambda>now n. record_collection_health p src st k err now))"
  "evolves (by_actions env) (store_call w (\<lambda>now n. record_snapshot_health p src draft period k now))"
  "evolves (by_actions env) (store_call w (\<lambda>now n. register_health env p payload heartbeat completed n now))"
  "evolves (by_actions env) (store_call w (\<lambda>now n. register env e now))"
  "evolves (by_actions env) (store_call w (\<lambda>now n. prepare_delivery env ev required ages now))"
  "evolves (by_actions env) (store_call w (\<lambda>now n. mark_delivered ev code now))"
  "evolves (by_actions env) (store_call w (\<lambda>now n. mark_dead ev msg code' now))"
  "evolves (by_actions env) (store_call w (\<lambda>now n. writing (mark_retry ev msg delay code' now)))"
  "evolves (by_actions env) (store_call w (\<lambda>now n. writing (mark_health_delivered ev code now)))"
  "evolves (by_actions env) (store_call w (\<lambda>now n. writing (mark_health_retry ev msg delay code' now)))"
  "evolves (by_actions env) (store_call w (\<lambda>now n. writing (mark_health_dead ev msg code' now)))"
proof -
  show "evolves (by_actions env) (store_call w (\<lambda>now n s. (case renew_lease owner seconds now s of (b, t) \<Rightarrow> (Inr b, t))))"
  proof (rule evolves_store_call)
    fix now n s
    show "\<exists>a. snd (case renew_lease owner seconds now s of (b, t) \<Rightarrow> (Inr b, t)) = act env a s"
      by (rule exI [of _ "Renew_Lease owner seconds now"]) (simp split: prod.split)
  qed
qed (rule evolves_store_call; metis act.simps writing_def snd_conv)+

lemma evolves_catching:
  assumes "evolves (by_actions env) m" "\<And>e. evolves (by_actions env) (h e)"
  shows "evolves (by_actions env) (catching m h)"
proof (rule evolvesI)
  fix s r t
  assume run: "catching m h s = (r, t)"
  obtain q u where q: "m s = (q, u)" by fastforce
  have su: "by_actions env s u" using evolvesD [OF assms(1) q] .
  show "by_actions env s t"
  proof (cases q)
    case (Inl e)
    with run q have "h e u = (r, t)" by (simp add: catching_def)
    from evolvesD [OF assms(2) this] su show ?thesis by (blast intro: by_actions_trans)
  qed (use run q su in \<open>simp add: catching_def\<close>)
qed

lemma evolves_count_up: "evolves (by_actions env) (count_up f)"
  by (rule evolves_same_db) (simp add: count_up_def writing_def)

lemma evolves_read_clock: "evolves (by_actions env) (read_clock w)"
  by (rule evolves_same_db) (simp add: read_clock_def)

lemmas cycle_rules = evolves_store_actions evolves_store_read evolves_count_up evolves_read_clock
  evolves_catching cycle.evolves_bind cycle.evolves_require cycle.evolves_reading cycle.evolves_ret
  cycle.evolves_raise cycle.evolves_for_each evolves_case_option evolves_if

lemma evolves_renew: "evolves (by_actions env) (renew w cf owner)"
  unfolding renew_def by (intro cycle_rules)

lemma evolves_queue_health: "evolves (by_actions env) (queue_health env w pl src h)"
  unfolding queue_health_def Let_def by (intro cycle_rules)

lemma evolves_collect_failed: "evolves (by_actions env) (collect_failed env w pl src t err code)"
  unfolding collect_failed_def by (intro cycle_rules evolves_queue_health)

lemma evolves_collect_source: "evolves (by_actions env) (collect_source env w cf owner pl src)"
proof -
  have failed: "evolves (by_actions env) (case e of
      Connector_Error msg \<Rightarrow> collect_failed env w pl src t msg a
    | _ \<Rightarrow> collect_failed env w pl src t (''internal:'' @ exception_name e) b)" for e t a b
    by (simp add: evolves_collect_failed split: connector_error.split)
  have event: "evolves (by_actions env) (collect_event env w pl src n t u e)" for n t u e
    unfolding collect_event_def by (intro cycle_rules evolves_queue_health)
  have records: "evolves (by_actions env) (collect_records env w pl src t n es)" for n t es
    unfolding collect_records_def Let_def by (intro cycle_rules event evolves_queue_health)
  have no_record: "evolves (by_actions env) (collect_nothing env w pl src t u c)" for t u c
    unfolding collect_nothing_def by (intro cycle_rules evolves_queue_health)
  have outcome: "evolves (by_actions env) (case out of
       Collection_Fails msg \<Rightarrow> collect_failed env w pl src t msg ''source_collection_error''
     | Collection_Crashes name \<Rightarrow> collect_failed env w pl src t (''internal:'' @ name) ''source_internal_error''
     | No_Records candidate \<Rightarrow> f candidate
     | Records n events \<Rightarrow> g n events)"
    if "\<And>c. evolves (by_actions env) (f c)" "\<And>n es. evolves (by_actions env) (g n es)" for out t f g
    using that evolves_collect_failed by (simp split: collection.split)
  show ?thesis
    unfolding collect_source_def
    by (intro cycle_rules evolves_renew outcome records no_record failed)
qed

lemma evolves_outcome:
  "(\<And>st. evolves (by_actions env) (f st)) \<Longrightarrow> (\<And>st msg. evolves (by_actions env) (g st msg))
   \<Longrightarrow> (\<And>st msg. evolves (by_actions env) (h st msg))
   \<Longrightarrow> evolves (by_actions env) (case out of Sent st \<Rightarrow> f st
     | Refused True st msg \<Rightarrow> g st msg | Refused False st msg \<Rightarrow> h st msg)"
  by (simp split: send_outcome.split bool.split)

lemma evolves_dispatch: "evolves (by_actions env) (dispatch env w cf owner)"
proof -
  have deliver: "evolves (by_actions env) (deliver w cf d)" for d
    unfolding deliver_def by (intro cycle_rules evolves_outcome)
  show ?thesis
    unfolding dispatch_def dispatch_one_def by (intro cycle_rules evolves_renew deliver)
qed

lemma evolves_dispatch_health: "evolves (by_actions env) (dispatch_health w cf owner)"
  unfolding dispatch_health_def dispatch_health_one_def
  by (intro cycle_rules evolves_renew evolves_outcome)

lemma run_cycle_by_actions: "evolves (by_actions env) (run_cycle env w cf owner)"
  unfolding run_cycle_def collect_all_def
  by (intro cycle_rules evolves_collect_source evolves_dispatch evolves_dispatch_health evolves_same_db)
     (simp add: writing_def)

end
