(* ===== verification/Connector_Invariant.thy ===== *)
theory Connector_Invariant
  imports Connector_Actions
begin

text \<open>
  What every interleaving of the store's calls keeps: observations are only appended, their keys
  are unique, the revisions of a stream are consecutive, and every reserved workflow generation
  belongs to a waiting observation that carries the trigger, at most one for each draft.
\<close>

section \<open>Keys\<close>

text \<open>The columns that no call ever writes again.\<close>

definition ident ::
    "observation_row \<Rightarrow> nat \<times> string \<times> string \<times> (string \<times> string \<times> string) \<times> string \<times> nat \<times> string \<times> string" where
  "ident r = (ob_sequence r, ob_event r, ob_request r, (ob_pipeline r, ob_source r, ob_draft r),
     ob_period r, ob_revision r, ob_content_sha r, ob_delivered_sha r)"

definition stream_rows :: "string \<Rightarrow> string \<Rightarrow> string \<Rightarrow> connector_db \<Rightarrow> observation_row list" where
  "stream_rows p src draft s = filter (of_stream p src draft) (observations s)"

text \<open>The revisions of a stream count up by one from a number that is not zero.\<close>

definition consecutive :: "nat list \<Rightarrow> bool" where
  "consecutive ns \<longleftrightarrow> ns = [] \<or> 0 < hd ns \<and> ns = [hd ns ..< hd ns + length ns]"

definition keys_ok :: "connector_db \<Rightarrow> bool" where
  "keys_ok s \<longleftrightarrow>
     sorted_wrt (<) (map ob_sequence (observations s))
     \<and> distinct (map ob_event (observations s))
     \<and> distinct (map ob_request (observations s))
     \<and> (\<forall>p src draft. consecutive (map ob_revision (stream_rows p src draft s)))"

lemma map_through:
  assumes "map f xs = map f ys" "\<And>x. g x = h (f x)"
  shows "map g xs = map g ys"
proof -
  have "g = h \<circ> f" using assms(2) by (simp add: fun_eq_iff)
  then show ?thesis using assms(1) by (metis map_map)
qed

lemma map_filter_through:
  assumes "map f xs = map f ys" "\<And>x. p x \<longleftrightarrow> q (f x)"
  shows "map f (filter p xs) = map f (filter p ys)"
proof -
  have p: "p = q \<circ> f" using assms(2) by (simp add: fun_eq_iff)
  have "filter q (map f xs) = filter q (map f ys)" using assms(1) by simp
  then show ?thesis by (simp add: p filter_map)
qed

lemma stream_rows_ident:
  assumes "map ident (observations t) = map ident (observations s)"
  shows "map ident (stream_rows p src draft t) = map ident (stream_rows p src draft s)"
  unfolding stream_rows_def
  by (rule map_filter_through [OF assms,
        where q = "\<lambda>(_, _, _, (a, b, c), _). a = p \<and> b = src \<and> c = draft"])
     (simp add: of_stream_def ident_def)

lemma ident_columns:
  assumes "map ident xs = map ident ys"
  shows "map ob_sequence xs = map ob_sequence ys" "map ob_event xs = map ob_event ys"
    "map ob_request xs = map ob_request ys" "map ob_revision xs = map ob_revision ys"
    "map ob_content_sha xs = map ob_content_sha ys"
proof -
  note m = map_through [OF assms]
  show "map ob_sequence xs = map ob_sequence ys" by (rule m [where h = fst]) (simp add: ident_def)
  show "map ob_event xs = map ob_event ys"
    by (rule m [where h = "\<lambda>(_, e, _). e"]) (simp add: ident_def)
  show "map ob_request xs = map ob_request ys"
    by (rule m [where h = "\<lambda>(_, _, q, _). q"]) (simp add: ident_def)
  show "map ob_revision xs = map ob_revision ys"
    by (rule m [where h = "\<lambda>(_, _, _, _, _, v, _). v"]) (simp add: ident_def)
  show "map ob_content_sha xs = map ob_content_sha ys"
    by (rule m [where h = "\<lambda>(_, _, _, _, _, _, c, _). c"]) (simp add: ident_def)
qed

lemma keys_ok_ident:
  assumes "map ident (observations t) = map ident (observations s)" "keys_ok s"
  shows "keys_ok t"
  using assms(2) ident_columns [OF assms(1)]
    ident_columns(4) [OF stream_rows_ident [OF assms(1)]]
    map_eq_imp_length_eq [OF stream_rows_ident [OF assms(1)]]
  by (simp add: keys_ok_def)

lemma ident_update:
  assumes "\<And>r. p r \<Longrightarrow> ident (f r) = ident r"
  shows "map ident (observations (update_observations p f s)) = map ident (observations s)"
  using assms by (simp add: update_observations_def)

lemma keys_distinct:
  assumes "keys_ok s" "r \<in> set (observations s)" "q \<in> set (observations s)" "ob_event r = ob_event q"
  shows "r = q"
  using assms unfolding keys_ok_def distinct_map inj_on_def by blast

section \<open>Appending a revision\<close>

lemma find_last_filter:
  "find_last p xs = (if filter p xs = [] then None else Some (last (filter p xs)))"
  by (induction xs rule: rev_induct) auto

text \<open>The revision an appended row must have.\<close>

definition next_revision :: "nat \<Rightarrow> observation_row list \<Rightarrow> nat" where
  "next_revision base rows = (if rows = [] then Suc base else Suc (ob_revision (last rows)))"

lemma consecutive_last:
  assumes "consecutive ns" "ns \<noteq> []"
  shows "Suc (last ns) = hd ns + length ns"
proof -
  define a n where "a = hd ns" and "n = length ns"
  have ns: "ns = [a ..< a + n]" "0 < n"
    using assms by (auto simp: consecutive_def a_def n_def)
  have "last [a ..< a + n] = a + n - 1" using ns(2) by (simp add: last_conv_nth)
  then show ?thesis using ns by (metis Suc_diff_1 a_def add_gr_0 n_def)
qed

lemma consecutive_snoc:
  assumes "consecutive ns" "if ns = [] then 0 < n else n = Suc (last ns)"
  shows "consecutive (ns @ [n])"
proof (cases "ns = []")
  case True
  then show ?thesis using assms(2) by (simp add: consecutive_def)
next
  case False
  define a k where "a = hd ns" and "k = length ns"
  have "n = a + k" using consecutive_last [OF assms(1) False] assms(2) False by (simp add: a_def k_def)
  moreover have "ns = [a ..< a + k]" "0 < a"
    using assms(1) False by (simp_all add: consecutive_def a_def k_def)
  ultimately have "ns @ [n] = [a ..< a + Suc k]" by simp
  then show ?thesis
    using False \<open>0 < a\<close> by (simp add: consecutive_def a_def k_def)
qed

lemma insert_observation_Inr:
  assumes "insert_observation r s = (Inr x, t)"
  shows "t = s\<lparr>observations := observations s @
      [r\<lparr>ob_sequence := next_sequence ob_sequence (observations s)\<rparr>]\<rparr>"
    and "\<forall>q \<in> set (observations s). ob_event r \<noteq> ob_event q \<and> ob_request r \<noteq> ob_request q"
  using assms
  by (auto simp: insert_observation_def insert_row_Some observation_clash_def list_ex_iff
           split: option.splits)

lemma insert_observation_keys:
  assumes run: "insert_observation r s = (Inr x, t)" and ok: "keys_ok s"
    and revision: "ob_revision r =
      next_revision base (stream_rows (ob_pipeline r) (ob_source r) (ob_draft r) s)"
  shows "keys_ok t"
proof -
  let ?r = "r\<lparr>ob_sequence := next_sequence ob_sequence (observations s)\<rparr>"
  note t = insert_observation_Inr [OF run]
  have stream: "of_stream p src draft ?r \<longleftrightarrow> of_stream p src draft r" for p src draft
    by (simp add: of_stream_def)
  have "consecutive (map ob_revision (stream_rows p src draft t))" for p src draft
  proof -
    have k: "consecutive (map ob_revision (stream_rows p src draft s))"
      using ok by (simp add: keys_ok_def)
    show ?thesis
    proof (cases "of_stream p src draft r")
      case True
      then have "ob_revision ?r = next_revision base (stream_rows p src draft s)"
        using revision by (simp add: of_stream_def)
      moreover have "stream_rows p src draft t = stream_rows p src draft s @ [?r]"
        using True stream by (simp add: t(1) stream_rows_def)
      ultimately show ?thesis
        using consecutive_snoc [OF k] by (simp add: next_revision_def last_map)
    next
      case False
      then have "stream_rows p src draft t = stream_rows p src draft s"
        using stream by (simp add: t(1) stream_rows_def)
      with k show ?thesis by simp
    qed
  qed
  moreover have "ob_event r \<notin> ob_event ` set (observations s)"
    "ob_request r \<notin> ob_request ` set (observations s)"
    using t(2) by auto
  ultimately show ?thesis
    using ok by (auto simp: keys_ok_def t(1) sorted_wrt_append next_sequence_greater)
qed

section \<open>Reservations\<close>

definition holds_reservation :: "generation_row \<Rightarrow> observation_row \<Rightarrow> bool" where
  "holds_reservation g r \<longleftrightarrow>
     ob_event r = g_event g \<and> ob_draft r = g_draft g \<and> ob_status r = Waiting \<and> ob_trigger r"

definition reservations_ok :: "connector_db \<Rightarrow> bool" where
  "reservations_ok s \<longleftrightarrow>
     distinct (map g_draft (filter (\<lambda>g. g_status g = Assigned) (generations s)))
     \<and> distinct (map (\<lambda>g. (g_draft g, g_hash g)) (generations s))
     \<and> (\<forall>g \<in> set (generations s). g_status g = Assigned
          \<longrightarrow> (\<exists>r \<in> set (observations s). holds_reservation g r))"

definition conn_ok :: "connector_db \<Rightarrow> bool" where
  "conn_ok s \<longleftrightarrow> keys_ok s \<and> reservations_ok s"

lemma reservation_held:
  assumes "conn_ok s" "g \<in> set (generations s)" "g_status g = Assigned"
  shows "\<exists>r \<in> set (observations s). holds_reservation g r"
  using assms by (simp add: conn_ok_def reservations_ok_def)

lemma reservations_ok_mono:
  assumes "reservations_ok s" "generations t = generations s"
    and "\<And>g r. r \<in> set (observations s) \<Longrightarrow> holds_reservation g r
      \<Longrightarrow> \<exists>q \<in> set (observations t). holds_reservation g q"
  shows "reservations_ok t"
  using assms unfolding reservations_ok_def by metis

lemma reservations_ok_update:
  assumes "reservations_ok s"
    and "\<And>g r. r \<in> set (observations s) \<Longrightarrow> p r \<Longrightarrow> holds_reservation g r \<Longrightarrow> holds_reservation g (f r)"
  shows "reservations_ok (update_observations p f s)"
proof (rule reservations_ok_mono [OF assms(1)])
  fix g r assume r: "r \<in> set (observations s)" "holds_reservation g r"
  have "(if p r then f r else r) \<in> set (observations (update_observations p f s))"
    using r(1) by (simp add: update_observations_def)
  moreover have "holds_reservation g (if p r then f r else r)" using assms(2) r by simp
  ultimately show "\<exists>q \<in> set (observations (update_observations p f s)). holds_reservation g q" ..
qed (simp add: update_observations_def)

lemma reservations_ok_append:
  assumes "reservations_ok s" "generations t = generations s" "observations t = observations s @ rows"
  shows "reservations_ok t"
  by (rule reservations_ok_mono [OF assms(1,2)]) (auto simp: assms(3))

lemma conn_ok_update:
  assumes "conn_ok s" "\<And>r. p r \<Longrightarrow> ident (f r) = ident r"
    and "\<And>g r. r \<in> set (observations s) \<Longrightarrow> p r \<Longrightarrow> holds_reservation g r \<Longrightarrow> holds_reservation g (f r)"
  shows "conn_ok (update_observations p f s)"
  using assms(1) unfolding conn_ok_def
  by (metis assms(2,3) keys_ok_ident [OF ident_update] reservations_ok_update)

lemma conn_ok_same:
  assumes "conn_ok s" "observations t = observations s" "generations t = generations s"
  shows "conn_ok t"
  using assms by (simp add: conn_ok_def keys_ok_def reservations_ok_def stream_rows_def)

end
