(* ===== verification/Connector_Steps.thy ===== *)
theory Connector_Steps
  imports Connector_Invariant
begin

text \<open>
  Each call of the store keeps \<open>conn_ok\<close>, and what a call of \<open>prepare_delivery\<close> that reserves a
  generation has checked.
\<close>

section \<open>Calls that return\<close>

lemma atomic_Inr: "atomic m s = (Inr a, t) \<longleftrightarrow> m s = (Inr a, t)"
  by (simp add: atomic_def transaction_Inr)

lemma atomic_Inl: "atomic m s = (Inl e, t) \<Longrightarrow> t = s"
  unfolding atomic_def by (drule transaction_Inl) simp

text \<open>An atomic call keeps what it keeps when it returns.\<close>

lemma keeps_atomic:
  assumes "conn_ok s" "\<And>a t. m s = (Inr a, t) \<Longrightarrow> conn_ok t"
  shows "conn_ok (snd (atomic m s))"
proof (cases "atomic m s")
  case (Pair r t)
  show ?thesis
  proof (cases r)
    case (Inl e)
    with Pair atomic_Inl have "t = s" by blast
    with Pair assms(1) show ?thesis by simp
  next
    case (Inr a)
    with Pair have "m s = (Inr a, t)" by (simp add: atomic_Inr)
    with assms(2) Pair show ?thesis by simp
  qed
qed

lemma expect_Inr: "expect e x s = (Inr a, t) \<longleftrightarrow> x = Some a \<and> t = s"
  by (auto simp: expect_def ret_def raise_def split: option.splits)

lemma expect_bind_InrE:
  assumes "bind (expect e x) f s = (Inr b, u)"
  obtains a where "x = Some a" "f a s = (Inr b, u)"
  using assms by (elim bind_InrE) (simp add: expect_Inr)

lemma require_bind_InrE:
  assumes "bind (require c e) f s = (Inr b, u)"
  obtains "c" "f () s = (Inr b, u)"
  using assms by (auto simp: bind_require raise_def split: if_splits)

section \<open>Leases, collection health and health deliveries\<close>

lemma same_core_lease:
  "observations (snd (acquire_lease owner d now s)) = observations s"
  "generations (snd (acquire_lease owner d now s)) = generations s"
  "observations (snd (renew_lease owner d now s)) = observations s"
  "generations (snd (renew_lease owner d now s)) = generations s"
  "observations (release_lease owner s) = observations s"
  "generations (release_lease owner s) = generations s"
  by (simp_all add: acquire_lease_def renew_lease_def release_lease_def split: option.split)

lemma same_core_notes:
  "observations (snd (record_collection_health p src st n err now s)) = observations s"
  "generations (snd (record_collection_health p src st n err now s)) = generations s"
  "observations (snd (record_snapshot_health p src draft period n now s)) = observations s"
  "generations (snd (record_snapshot_health p src draft period n now s)) = generations s"
  by (simp_all add: record_collection_health_def record_snapshot_health_def bind_require op_defs Let_def)

lemma same_core_marks:
  "observations (mark_health_delivered e st now s) = observations s"
  "generations (mark_health_delivered e st now s) = generations s"
  "observations (mark_health_retry e err d st' now s) = observations s"
  "generations (mark_health_retry e err d st' now s) = generations s"
  "observations (mark_health_dead e err st' now s) = observations s"
  "generations (mark_health_dead e err st' now s) = generations s"
  by (simp_all add: mark_health_delivered_def mark_health_retry_def mark_health_dead_def update_healths_def)

definition same_core :: "connector_db \<Rightarrow> connector_db \<Rightarrow> bool" where
  "same_core s t \<longleftrightarrow> observations t = observations s \<and> generations t = generations s"

interpretation same_core: history_relation same_core
  by unfold_locales (simp_all add: same_core_def)

lemma same_core_expect: "evolves same_core (expect e x)"
  unfolding expect_def by (intro evolves_case_option same_core.evolves_raise same_core.evolves_ret)

lemma same_core_register_health: "evolves same_core (register_health env p payload heartbeat completed n now)"
  unfolding register_health_def atomic_def Let_def
  by (intro same_core.evolves_bind same_core_expect same_core.evolves_transaction evolves_if
      same_core.evolves_ret same_core.evolves_reading same_core.evolves_require same_core.evolves_writing)
     (simp_all add: same_core_def)

lemma conn_ok_register_health:
  "conn_ok s \<Longrightarrow> conn_ok (snd (register_health env p payload heartbeat completed n now s))"
  using same_core_register_health conn_ok_same unfolding evolves_def same_core_def by blast

section \<open>Outcomes of an attempt\<close>

lemma conn_ok_mark_retry: "conn_ok s \<Longrightarrow> conn_ok (mark_retry e err d st now s)"
  unfolding mark_retry_def
  by (rule conn_ok_update) (simp_all add: ident_def holds_reservation_def)

text \<open>
  An observation leaves \<open>Waiting\<close> together with its reservation: the shape of \<open>mark_delivered\<close>
  and \<open>mark_dead\<close>.
\<close>

definition settle ::
    "string \<Rightarrow> (observation_row \<Rightarrow> observation_row) \<Rightarrow> generation_status \<Rightarrow> rat \<Rightarrow> connector_db \<Rightarrow> connector_db" where
  "settle e f st now s =
     update_generations (\<lambda>g. g_event g = e \<and> g_status g = Assigned) (\<lambda>g. g\<lparr>g_status := st, g_updated := now\<rparr>)
       (update_observations (\<lambda>r. ob_event r = e \<and> ob_status r = Waiting) f s)"

lemma mark_delivered_settles:
  "mark_delivered e st now s = (Inr (), settle e
     (\<lambda>r. r\<lparr>ob_status := Delivered, ob_attempts := Suc (ob_attempts r), ob_response := Some st,
            ob_error := None, ob_delivered_at := Some now, ob_updated := now\<rparr>) Completed now s)"
  by (simp add: mark_delivered_def atomic_def transaction_def settle_def writing_def)

lemma mark_dead_settles:
  "mark_dead e err st now s = (Inr (), settle e
     (\<lambda>r. r\<lparr>ob_status := Dead, ob_attempts := Suc (ob_attempts r), ob_response := st,
            ob_error := Some (take 1000 err), ob_updated := now\<rparr>) Failed now s)"
  by (simp add: mark_dead_def atomic_def transaction_def settle_def writing_def)

text \<open>Updates of the generations that keep the keys and never reserve.\<close>

lemma distinct_fewer:
  assumes "distinct (map f (filter p xs))" "\<And>x. q x \<Longrightarrow> p x"
  shows "distinct (map f (filter q xs))"
proof -
  have "filter q xs = filter q (filter p xs)" using assms(2) by (induction xs) auto
  then show ?thesis using assms(1) by (metis distinct_map_filter)
qed

lemma generations_after_settle:
  "generations (settle e f st now s) =
     map (\<lambda>g. if g_event g = e \<and> g_status g = Assigned then g\<lparr>g_status := st, g_updated := now\<rparr> else g)
       (generations s)"
  by (simp add: settle_def update_generations_def update_observations_def)

lemma assigned_after_settle:
  assumes "st \<noteq> Assigned"
  shows "filter (\<lambda>g. g_status g = Assigned) (generations (settle e f st now s))
    = filter (\<lambda>g. g_status g = Assigned \<and> g_event g \<noteq> e) (generations s)"
proof -
  have "filter (\<lambda>g. g_status g = Assigned)
      (map (\<lambda>g. if g_event g = e \<and> g_status g = Assigned then g\<lparr>g_status := st, g_updated := now\<rparr> else g) gs)
    = filter (\<lambda>g. g_status g = Assigned \<and> g_event g \<noteq> e) gs" for gs
    using assms by (induction gs) auto
  then show ?thesis by (simp add: generations_after_settle)
qed

lemma conn_ok_settle:
  assumes ok: "conn_ok s" and st: "st \<noteq> Assigned" and f: "\<And>r. ident (f r) = ident r"
  shows "conn_ok (settle e f st now s)"
proof -
  have obs: "observations (settle e f st now s)
      = map (\<lambda>r. if ob_event r = e \<and> ob_status r = Waiting then f r else r) (observations s)"
    by (simp add: settle_def update_generations_def update_observations_def)
  have ids: "map ident (observations (settle e f st now s)) = map ident (observations s)"
    by (simp add: obs f)
  have keys: "keys_ok (settle e f st now s)"
    by (rule keys_ok_ident [OF ids]) (use ok in \<open>simp add: conn_ok_def\<close>)
  have hashes: "map (\<lambda>g. (g_draft g, g_hash g)) (generations (settle e f st now s))
      = map (\<lambda>g. (g_draft g, g_hash g)) (generations s)"
    by (simp add: generations_after_settle)
  have held: "\<exists>r \<in> set (observations (settle e f st now s)). holds_reservation g r"
    if g: "g \<in> set (generations (settle e f st now s))" "g_status g = Assigned" for g
  proof -
    have "g \<in> set (filter (\<lambda>g. g_status g = Assigned) (generations (settle e f st now s)))"
      using g by simp
    then have old: "g \<in> set (generations s)" "g_event g \<noteq> e"
      by (simp_all add: assigned_after_settle [OF st])
    then obtain r where "r \<in> set (observations s)" "holds_reservation g r"
      using reservation_held [OF ok old(1) g(2)] by blast
    moreover have "ob_event r \<noteq> e" using calculation(2) old(2) by (simp add: holds_reservation_def)
    ultimately show ?thesis unfolding obs by force
  qed
  have "distinct (map g_draft (filter (\<lambda>g. g_status g = Assigned) (generations s)))"
    using ok by (simp add: conn_ok_def reservations_ok_def)
  then have "distinct (map g_draft (filter (\<lambda>g. g_status g = Assigned \<and> g_event g \<noteq> e) (generations s)))"
    by (rule distinct_fewer) simp
  then show ?thesis
    using ok keys held by (simp add: conn_ok_def reservations_ok_def hashes assigned_after_settle [OF st])
qed

section \<open>Registration\<close>

lemma latest_observation_last:
  "latest_observation p src draft s =
     (if stream_rows p src draft s = [] then None else Some (last (stream_rows p src draft s)))"
  by (simp add: latest_observation_def stream_rows_def find_last_filter)

lemma fresh_observation_columns [simp]:
  "ob_event (fresh_observation env g (p, src, draft) period v sha c payload now) = event_name g"
  "ob_pipeline (fresh_observation env g (p, src, draft) period v sha c payload now) = p"
  "ob_source (fresh_observation env g (p, src, draft) period v sha c payload now) = src"
  "ob_draft (fresh_observation env g (p, src, draft) period v sha c payload now) = draft"
  "ob_revision (fresh_observation env g (p, src, draft) period v sha c payload now) = v"
  "ob_content_sha (fresh_observation env g (p, src, draft) period v sha c payload now) = sha"
  "ob_status (fresh_observation env g (p, src, draft) period v sha c payload now) = Waiting"
  by (simp_all add: fresh_observation_def)

text \<open>What a call that registers a revision does.\<close>

lemma register_InrE:
  assumes "register env e now s = (Inr out, t)"
  obtains
    (known) r where "latest_observation (ne_pipeline e) (ne_source e) (ne_draft e) s = Some r"
      "ob_content_sha r = ne_content_sha e" "out = None" "t = s"
  | (new) r where "out = Some (ob_event r)" "insert_observation r s = (Inr (), t)"
      "\<And>q. latest_observation (ne_pipeline e) (ne_source e) (ne_draft e) s = Some q
        \<Longrightarrow> ob_content_sha q \<noteq> ne_content_sha e"
      "ob_pipeline r = ne_pipeline e" "ob_source r = ne_source e" "ob_draft r = ne_draft e"
      "ob_content_sha r = ne_content_sha e" "ob_status r = Waiting"
      "ob_revision r = next_revision (ne_revision_floor e)
         (stream_rows (ne_pipeline e) (ne_source e) (ne_draft e) s)"
proof -
  let ?latest = "latest_observation (ne_pipeline e) (ne_source e) (ne_draft e) s"
  show thesis
  proof (cases "case ?latest of None \<Rightarrow> False | Some r \<Rightarrow> ob_content_sha r = ne_content_sha e")
    case True
    then obtain r where r: "?latest = Some r" "ob_content_sha r = ne_content_sha e"
      by (cases ?latest) auto
    with assms have "out = None" "t = s"
      by (simp_all add: register_def atomic_Inr ret_def)
    with r known show thesis by blast
  next
    case False
    define revision where
      "revision = (case ?latest of None \<Rightarrow> Suc (ne_revision_floor e) | Some r \<Rightarrow> Suc (ob_revision r))"
    define digest where
      "digest = sha256_hex env (lines [ne_pipeline e, ne_source e, ne_draft e, decimal revision, ne_content_sha e])"
    note unknown = False
    from assms obtain stamped where
      inserts: "bind (insert_observation
          (fresh_observation env digest (ne_pipeline e, ne_source e, ne_draft e) (ne_period e)
             revision (ne_content_sha e) (snd stamped) (fst stamped) now))
        (\<lambda>_. ret (Some (event_name digest))) s = (Inr out, t)"
      unfolding register_def atomic_Inr bind_reading Let_def if_not_P [OF unknown]
        revision_def [symmetric] digest_def [symmetric]
      by (elim expect_bind_InrE) blast
    show thesis
    proof (rule new)
      show "insert_observation (fresh_observation env digest (ne_pipeline e, ne_source e, ne_draft e)
          (ne_period e) revision (ne_content_sha e) (snd stamped) (fst stamped) now) s = (Inr (), t)"
        using inserts by (elim bind_InrE) (simp add: ret_def)
      show "out = Some (ob_event (fresh_observation env digest (ne_pipeline e, ne_source e, ne_draft e)
          (ne_period e) revision (ne_content_sha e) (snd stamped) (fst stamped) now))"
        using inserts by (elim bind_InrE) (simp add: ret_def)
      show "ob_content_sha q \<noteq> ne_content_sha e" if "?latest = Some q" for q
        using unknown that by simp
    qed (simp_all add: revision_def latest_observation_last next_revision_def)
  qed
qed

lemma conn_ok_insert:
  assumes "conn_ok s" "insert_observation r s = (Inr x, t)"
    and "ob_revision r = next_revision base (stream_rows (ob_pipeline r) (ob_source r) (ob_draft r) s)"
  shows "conn_ok t"
proof -
  note t = insert_observation_Inr(1) [OF assms(2)]
  have "reservations_ok t"
    by (rule reservations_ok_append) (use assms(1) t in \<open>simp_all add: conn_ok_def\<close>)
  moreover have "keys_ok t"
    using insert_observation_keys [OF assms(2) _ assms(3)] assms(1) by (simp add: conn_ok_def)
  ultimately show ?thesis by (simp add: conn_ok_def)
qed

lemma conn_ok_register:
  assumes "conn_ok s"
  shows "conn_ok (snd (register env e now s))"
proof (cases "register env e now s")
  case (Pair r t)
  show ?thesis
  proof (cases r)
    case (Inl err)
    with Pair have "t = s" by (simp add: register_def atomic_Inl)
    with Pair assms show ?thesis by simp
  next
    case (Inr out)
    with Pair have "register env e now s = (Inr out, t)" by simp
    then have "conn_ok t"
    proof (cases rule: register_InrE)
      case known
      with assms show ?thesis by simp
    next
      case (new r)
      show ?thesis by (rule conn_ok_insert [OF assms new(2)]) (simp add: new)
    qed
    with Pair show ?thesis by simp
  qed
qed

section \<open>Reserving\<close>

text \<open>What \<open>prepare_delivery\<close> has checked when it reserves a generation for \<open>current\<close>.\<close>

definition may_trigger ::
    "connector_env \<Rightarrow> observation_row \<Rightarrow> string list \<Rightarrow> (string \<times> rat) list option \<Rightarrow> rat \<Rightarrow> connector_db \<Rightarrow> bool" where
  "may_trigger env current required ages now s \<longleftrightarrow>
     \<not> list_ex (\<lambda>g. g_draft g = ob_draft current \<and> g_status g = Assigned) (generations s)
     \<and> own_health_gate ages now current s = Some True
     \<and> (\<exists>latest. required_latest (ob_pipeline current) (ob_draft current) ages now s required = Inr (Some latest)
          \<and> others_delivered current latest)
     \<and> is_newest current s
     \<and> \<not> list_ex (\<lambda>g. g_draft g = ob_draft current \<and> g_hash g = generation_hash env current s) (generations s)"

definition reserve :: "connector_env \<Rightarrow> observation_row \<Rightarrow> json \<Rightarrow> rat \<Rightarrow> connector_db \<Rightarrow> connector_db" where
  "reserve env current payload now s =
     (update_observations (\<lambda>r. ob_event r = ob_event current)
        (\<lambda>r. r\<lparr>ob_payload := canonical payload, ob_trigger := True, ob_updated := now\<rparr>) s)
       \<lparr>generations := generations s @
          [\<lparr>g_draft = ob_draft current, g_hash = generation_hash env current s, g_event = ob_event current,
            g_status = Assigned, g_created = now, g_updated = now\<rparr>]\<rparr>"

lemma assign_generation_InrE:
  assumes "assign_generation env current (generation_hash env current s) now s = (Inr out, t)"
    and "\<not> list_ex (\<lambda>g. g_draft g = ob_draft current \<and> g_hash g = generation_hash env current s) (generations s)"
  obtains payload q where
    "set_field ''trigger_workflow'' (JBool True) (ob_payload current) = Some payload"
    "t = reserve env current payload now s"
    "find (\<lambda>r. ob_event r = ob_event current) (observations t) = Some q" "out = Some (to_delivery q)"
proof -
  obtain payload where payload: "set_field ''trigger_workflow'' (JBool True) (ob_payload current) = Some payload"
    and rest: "bind (writing (update_observations (\<lambda>r. ob_event r = ob_event current)
             (\<lambda>r. r\<lparr>ob_payload := canonical payload, ob_trigger := True, ob_updated := now\<rparr>))) (\<lambda>_.
     bind (insert_generation
             \<lparr>g_draft = ob_draft current, g_hash = generation_hash env current s, g_event = ob_event current,
              g_status = Assigned, g_created = now, g_updated = now\<rparr>) (\<lambda>_.
     bind (reading (\<lambda>s. find (\<lambda>r. ob_event r = ob_event current) (observations s))) (\<lambda>updated.
     bind (expect Missing_Key updated) (\<lambda>row.
     ret (Some (to_delivery row)))))) s = (Inr out, t)"
    using assms(1) unfolding assign_generation_def by (elim expect_bind_InrE)
  define g where "g = \<lparr>g_draft = ob_draft current, g_hash = generation_hash env current s,
    g_event = ob_event current, g_status = Assigned, g_created = now, g_updated = now\<rparr>"
  define u where "u = update_observations (\<lambda>r. ob_event r = ob_event current)
    (\<lambda>r. r\<lparr>ob_payload := canonical payload, ob_trigger := True, ob_updated := now\<rparr>) s"
  have inserts: "insert_generation g u = (Inr (), reserve env current payload now s)"
    using assms(2)
    by (auto simp: insert_generation_def insert_row_def update_observations_def reserve_def list_ex_iff
        g_def u_def)
  have "bind (expect Missing_Key (find (\<lambda>r. ob_event r = ob_event current)
      (observations (reserve env current payload now s)))) (\<lambda>row. ret (Some (to_delivery row)))
      (reserve env current payload now s) = (Inr out, t)"
    using rest unfolding bind_writing g_def [symmetric] u_def [symmetric]
      bind_Inr [where m = "insert_generation g" and s = u, OF inserts] bind_reading .
  then show thesis
    by (elim expect_bind_InrE) (use that payload in \<open>simp add: ret_def\<close>)
qed

lemma prepare_delivery_InrE:
  assumes "prepare_delivery env event required ages now s = (Inr out, t)"
  obtains
    (not_now) "out = None" "t = s"
  | (unchanged) r where "r \<in> set (observations s)" "ob_event r = event" "ob_status r = Waiting"
      "out = Some (to_delivery r)" "t = s"
  | (reserved) r payload q where "r \<in> set (observations s)" "ob_event r = event" "ob_status r = Waiting"
      "\<not> ob_trigger r" "may_trigger env r required ages now s"
      "set_field ''trigger_workflow'' (JBool True) (ob_payload r) = Some payload"
      "out = Some (to_delivery q)" "t = reserve env r payload now s"
      "find (\<lambda>q. ob_event q = event) (observations t) = Some q"
proof -
  note run = assms [unfolded prepare_delivery_def atomic_Inr bind_reading]
  show thesis
  proof (cases "find (\<lambda>r. ob_event r = event \<and> ob_status r = Waiting) (observations s)")
    case None
    show thesis
      by (rule not_now) (use run None in \<open>simp_all add: ret_def\<close>)
  next
    case (Some r)
    note r = find_Some_mem [OF Some]
    have same: thesis if "ret (Some (to_delivery r)) s = (Inr out, t)"
      by (rule unchanged [of r]) (use that r in \<open>simp_all add: ret_def\<close>)
    have wait: thesis if "ret None s = (Inr out, t)"
      by (rule not_now) (use that in \<open>simp_all add: ret_def\<close>)
    show thesis
    proof (cases "ob_trigger r")
      case True
      with run Some same show thesis by simp
    next
      case False
      note run = run [unfolded Some option.case if_not_P [OF False]]
      show thesis
      proof (cases "list_ex (\<lambda>g. g_draft g = ob_draft r \<and> g_status g = Assigned) (generations s)")
        case True
        with run wait show thesis by simp
      next
        case idle: False
        note run = run [unfolded if_not_P [OF idle]]
        show thesis
        proof (cases "own_health_gate ages now r s = Some True \<and>
            (\<exists>latest. required_latest (ob_pipeline r) (ob_draft r) ages now s required = Inr (Some latest)
               \<and> is_newest r s \<and> others_delivered r latest)
            \<and> \<not> list_ex (\<lambda>g. g_draft g = ob_draft r \<and> g_hash g = generation_hash env r s) (generations s)")
          case True
          then obtain latest where checked: "own_health_gate ages now r s = Some True"
            "required_latest (ob_pipeline r) (ob_draft r) ages now s required = Inr (Some latest)"
            "is_newest r s" "others_delivered r latest"
            "\<not> list_ex (\<lambda>g. g_draft g = ob_draft r \<and> g_hash g = generation_hash env r s) (generations s)"
            by blast
          have "assign_generation env r (generation_hash env r s) now s = (Inr out, t)"
            using run checked by simp
          then show thesis
            using checked(5)
          proof (rule assign_generation_InrE)
            fix payload q
            assume "set_field ''trigger_workflow'' (JBool True) (ob_payload r) = Some payload"
              "t = reserve env r payload now s"
              "find (\<lambda>q. ob_event q = ob_event r) (observations t) = Some q" "out = Some (to_delivery q)"
            moreover have "may_trigger env r required ages now s"
              using idle checked by (simp add: may_trigger_def)
            ultimately show thesis using r False reserved by metis
          qed
        next
          case denied: False
          show thesis
            using run same wait denied
            by (auto simp: raise_def split: option.splits bool.splits sum.splits if_splits)
        qed
      qed
    qed
  qed
qed

lemma observations_reserve:
  "observations (reserve env r payload now s) =
     map (\<lambda>q. if ob_event q = ob_event r
              then q\<lparr>ob_payload := canonical payload, ob_trigger := True, ob_updated := now\<rparr> else q)
       (observations s)"
  by (simp add: reserve_def update_observations_def)

lemma conn_ok_reserve:
  assumes ok: "conn_ok s" and r: "r \<in> set (observations s)" "ob_status r = Waiting"
    and free: "may_trigger env r required ages now s"
  shows "conn_ok (reserve env r payload now s)"
proof -
  let ?t = "reserve env r payload now s"
  let ?g = "\<lparr>g_draft = ob_draft r, g_hash = generation_hash env r s, g_event = ob_event r,
    g_status = Assigned, g_created = now, g_updated = now\<rparr>"
  have gens: "generations ?t = generations s @ [?g]" by (simp add: reserve_def)
  have ids: "map ident (observations ?t) = map ident (observations s)"
    by (simp add: observations_reserve ident_def)
  have keys: "keys_ok ?t"
    by (rule keys_ok_ident [OF ids]) (use ok in \<open>simp add: conn_ok_def\<close>)
  have held: "\<exists>q \<in> set (observations ?t). holds_reservation g q"
    if g: "g \<in> set (generations s)" "g_status g = Assigned" for g
  proof -
    obtain q where q: "q \<in> set (observations s)" "holds_reservation g q"
      using reservation_held [OF ok g] by blast
    let ?q = "if ob_event q = ob_event r
              then q\<lparr>ob_payload := canonical payload, ob_trigger := True, ob_updated := now\<rparr> else q"
    have "?q \<in> set (observations ?t)" using q(1) unfolding observations_reserve set_map by (rule imageI)
    moreover have "holds_reservation g ?q" using q(2) by (simp add: holds_reservation_def)
    ultimately show ?thesis ..
  qed
  have new: "\<exists>q \<in> set (observations ?t). holds_reservation ?g q"
  proof
    show "r\<lparr>ob_payload := canonical payload, ob_trigger := True, ob_updated := now\<rparr> \<in> set (observations ?t)"
      using r(1) unfolding observations_reserve set_map by (intro image_eqI [of _ _ r]) simp_all
    show "holds_reservation ?g (r\<lparr>ob_payload := canonical payload, ob_trigger := True, ob_updated := now\<rparr>)"
      using r(2) by (simp add: holds_reservation_def)
  qed
  have draft: "ob_draft r \<notin> set (map g_draft (filter (\<lambda>g. g_status g = Assigned) (generations s)))"
    using free by (auto simp: may_trigger_def list_ex_iff)
  have hash: "(ob_draft r, generation_hash env r s) \<notin> set (map (\<lambda>g. (g_draft g, g_hash g)) (generations s))"
    using free by (auto simp: may_trigger_def list_ex_iff)
  have "distinct (map g_draft (filter (\<lambda>g. g_status g = Assigned) (generations ?t)))"
    using ok draft by (simp add: conn_ok_def reservations_ok_def gens)
  moreover have "distinct (map (\<lambda>g. (g_draft g, g_hash g)) (generations ?t))"
    using ok hash by (simp add: conn_ok_def reservations_ok_def gens)
  moreover have "\<forall>g \<in> set (generations ?t). g_status g = Assigned
      \<longrightarrow> (\<exists>q \<in> set (observations ?t). holds_reservation g q)"
    using held new unfolding gens by (metis Un_iff empty_iff empty_set list.set(2) insert_iff set_append)
  ultimately have "reservations_ok ?t" by (simp add: reservations_ok_def)
  with keys show ?thesis by (simp add: conn_ok_def)
qed

lemma conn_ok_prepare_delivery:
  assumes "conn_ok s"
  shows "conn_ok (snd (prepare_delivery env e required ages now s))"
proof (cases "prepare_delivery env e required ages now s")
  case (Pair r t)
  show ?thesis
  proof (cases r)
    case (Inl err)
    with Pair have "t = s" by (simp add: prepare_delivery_def atomic_Inl)
    with Pair assms show ?thesis by simp
  next
    case (Inr out)
    with Pair have "prepare_delivery env e required ages now s = (Inr out, t)" by simp
    then have "conn_ok t"
    proof (cases rule: prepare_delivery_InrE)
      case (reserved r payload q)
      then show ?thesis using conn_ok_reserve [OF assms] by blast
    qed (simp_all add: assms)
    with Pair show ?thesis by simp
  qed
qed

section \<open>Recovery\<close>

text \<open>Clearing the trigger in the stored bodies changes nothing but bodies.\<close>

definition only_bodies :: "connector_db \<Rightarrow> connector_db \<Rightarrow> bool" where
  "only_bodies s t \<longleftrightarrow>
     generations t = generations s
     \<and> map (\<lambda>r. r\<lparr>ob_payload := JNull\<rparr>) (observations t) = map (\<lambda>r. r\<lparr>ob_payload := JNull\<rparr>) (observations s)"

interpretation only_bodies: history_relation only_bodies
  by unfold_locales (simp_all add: only_bodies_def)

lemma only_bodies_clear: "evolves only_bodies (for_each clear_trigger es)"
proof (rule only_bodies.evolves_for_each)
  fix e
  have body: "evolves only_bodies (writing (update_observations (\<lambda>r. ob_event r = e)
      (\<lambda>r. r\<lparr>ob_payload := canonical payload\<rparr>)) :: unit cop)" for payload
    by (rule only_bodies.evolves_writing) (simp add: only_bodies_def update_observations_def)
  show "evolves only_bodies (clear_trigger e)"
    unfolding clear_trigger_def expect_def
    by (intro only_bodies.evolves_bind only_bodies.evolves_reading evolves_case_option
        only_bodies.evolves_raise only_bodies.evolves_ret body)
qed

lemma conn_ok_only_bodies:
  assumes "conn_ok s" "only_bodies s t"
  shows "conn_ok t"
proof -
  have same: "map (\<lambda>r. r\<lparr>ob_payload := JNull\<rparr>) (observations t) = map (\<lambda>r. r\<lparr>ob_payload := JNull\<rparr>) (observations s)"
    using assms(2) by (simp add: only_bodies_def)
  have ids: "map ident (observations t) = map ident (observations s)"
    by (rule map_through [OF same, where h = ident]) (simp add: ident_def)
  have "\<exists>q \<in> set (observations t). holds_reservation g q"
    if r: "r \<in> set (observations s)" "holds_reservation g r" for g r
  proof -
    obtain q where "q \<in> set (observations t)" "r\<lparr>ob_payload := JNull\<rparr> = q\<lparr>ob_payload := JNull\<rparr>"
      using map_eq_row [OF same [symmetric] same [symmetric] r(1)] by blast
    moreover have "holds_reservation g (q\<lparr>ob_payload := JNull\<rparr>)"
      using r(2) calculation(2) by (metis (no_types, lifting) holds_reservation_def
        observation_row.select_convs observation_row.surjective observation_row.update_convs(11))
    ultimately show ?thesis by (auto simp: holds_reservation_def)
  qed
  moreover have "reservations_ok s" "generations t = generations s"
    using assms by (simp_all add: conn_ok_def only_bodies_def)
  ultimately have "reservations_ok t" by (intro reservations_ok_mono [of s t]) blast+
  then show ?thesis using keys_ok_ident [OF ids] assms(1) by (simp add: conn_ok_def)
qed

lemma retry_dead_InrE:
  assumes "retry_dead event now s = (Inr n, t)"
  obtains rows u where "\<forall>r \<in> set rows. r \<in> set (observations s) \<and> ob_status r = Dead"
    "u = update_observations (\<lambda>r. ob_event r \<in> set (map ob_event rows))
        (\<lambda>r. r\<lparr>ob_status := Waiting, ob_next := 0, ob_trigger := False, ob_error := None, ob_updated := now\<rparr>)
        (s\<lparr>generations := filter (\<lambda>g. \<not> (g_status g = Failed \<and> g_event g \<in> set (map ob_event rows)))
             (generations s)\<rparr>)"
    "only_bodies u t" "for_each clear_trigger (map ob_event rows) u = (Inr (), t)"
proof -
  define rows where "rows = (case event of
      Some e \<Rightarrow> filter (\<lambda>r. ob_status r = Dead \<and> ob_event r = e) (observations s)
    | None \<Rightarrow> filter (\<lambda>r. ob_status r = Dead \<and> \<not> client_error (ob_response r)
                             \<and> newest_of_stream r s) (observations s))"
  define u where "u = update_observations (\<lambda>r. ob_event r \<in> set (map ob_event rows))
        (\<lambda>r. r\<lparr>ob_status := Waiting, ob_next := 0, ob_trigger := False, ob_error := None, ob_updated := now\<rparr>)
        (s\<lparr>generations := filter (\<lambda>g. \<not> (g_status g = Failed \<and> g_event g \<in> set (map ob_event rows)))
             (generations s)\<rparr>)"
  have "bind (for_each clear_trigger (map ob_event rows)) (\<lambda>_. ret (length (map ob_event rows))) u = (Inr n, t)"
    using assms unfolding retry_dead_def atomic_Inr bind_reading rows_def [symmetric] Let_def u_def
    by (elim require_bind_InrE) (simp only: bind_writing)
  then have cleared: "for_each clear_trigger (map ob_event rows) u = (Inr (), t)"
    by (elim bind_InrE) (simp add: ret_def)
  then have "only_bodies u t" by (rule evolvesD [OF only_bodies_clear])
  moreover have "\<forall>r \<in> set rows. r \<in> set (observations s) \<and> ob_status r = Dead"
    by (simp add: rows_def split: option.split)
  ultimately show thesis using that u_def cleared by blast
qed

lemma conn_ok_requeue:
  assumes ok: "conn_ok s" and rows: "\<forall>r \<in> set rows. r \<in> set (observations s) \<and> ob_status r \<noteq> Waiting"
    and f: "\<And>r. ident (f r) = ident r"
  shows "conn_ok (update_observations (\<lambda>r. ob_event r \<in> set (map ob_event rows)) f s)"
proof (rule conn_ok_update [OF ok])
  fix g r
  assume r: "r \<in> set (observations s)" "ob_event r \<in> set (map ob_event rows)" "holds_reservation g r"
  then obtain q where q: "q \<in> set rows" "ob_event r = ob_event q" by auto
  have "r = q"
    using keys_distinct [OF _ r(1) _ q(2)] ok rows q(1) by (simp add: conn_ok_def)
  with q rows r(3) show "holds_reservation g (f r)" by (auto simp: holds_reservation_def)
qed (simp add: f)

lemma conn_ok_fewer_failed:
  assumes "conn_ok s"
  shows "conn_ok (s\<lparr>generations := filter (\<lambda>g. \<not> (g_status g = Failed \<and> p g)) (generations s)\<rparr>)"
proof -
  have "filter (\<lambda>g. g_status g = Assigned) (filter (\<lambda>g. \<not> (g_status g = Failed \<and> p g)) gs)
      = filter (\<lambda>g. g_status g = Assigned) gs" for gs
    by (induction gs) auto
  then show ?thesis
    using assms by (simp add: conn_ok_def keys_ok_def reservations_ok_def stream_rows_def distinct_map_filter)
qed

lemma conn_ok_retry_dead:
  assumes "conn_ok s"
  shows "conn_ok (snd (retry_dead event now s))"
proof (cases "retry_dead event now s")
  case (Pair r t)
  show ?thesis
  proof (cases r)
    case (Inl err)
    with Pair have "t = s" by (simp add: retry_dead_def atomic_Inl)
    with Pair assms show ?thesis by simp
  next
    case (Inr n)
    with Pair have "retry_dead event now s = (Inr n, t)" by simp
    then have "conn_ok t"
    proof (cases rule: retry_dead_InrE)
      case (1 rows u)
      let ?s = "s\<lparr>generations := filter (\<lambda>g. \<not> (g_status g = Failed \<and> g_event g \<in> set (map ob_event rows)))
             (generations s)\<rparr>"
      have "conn_ok ?s" by (rule conn_ok_fewer_failed [OF assms])
      then have "conn_ok u"
        unfolding 1(2) by (rule conn_ok_requeue) (use 1(1) in \<open>auto simp: ident_def\<close>)
      then show ?thesis using 1(3) by (rule conn_ok_only_bodies)
    qed
    with Pair show ?thesis by simp
  qed
qed

lemma replay_delivered_Inr:
  assumes "replay_delivered event latest uuid now s = (Inr n, t)"
  shows "t = s \<or> (\<exists>rows. (\<forall>r \<in> set rows. r \<in> set (observations s) \<and> ob_status r = Delivered)
    \<and> same_core (update_observations (\<lambda>r. ob_event r \<in> set (map ob_event rows))
        (\<lambda>r. r\<lparr>ob_status := Waiting, ob_next := 0, ob_error := None, ob_updated := now\<rparr>) s) t)"
proof -
  define rows where "rows = (case event of
      Some e \<Rightarrow> filter (\<lambda>r. ob_status r = Delivered \<and> ob_event r = e) (observations s)
    | None \<Rightarrow> filter (\<lambda>r. ob_status r = Delivered \<and> newest_of_stream r s) (observations s))"
  have mem: "\<forall>r \<in> set rows. r \<in> set (observations s) \<and> ob_status r = Delivered"
    by (simp add: rows_def split: option.split)
  have "t = s \<or> same_core (update_observations (\<lambda>r. ob_event r \<in> set (map ob_event rows))
        (\<lambda>r. r\<lparr>ob_status := Waiting, ob_next := 0, ob_error := None, ob_updated := now\<rparr>) s) t"
    using assms
    unfolding replay_delivered_def atomic_Inr Let_def
    apply (elim require_bind_InrE)
    unfolding atomic_Inr bind_reading rows_def [symmetric]
    by (auto simp: same_core_def ret_def update_observations_def bind_writing split: if_splits)
  with mem show ?thesis by blast
qed

lemma conn_ok_replay_delivered:
  assumes "conn_ok s"
  shows "conn_ok (snd (replay_delivered event latest uuid now s))"
proof (cases "replay_delivered event latest uuid now s")
  case (Pair r t)
  show ?thesis
  proof (cases r)
    case (Inl err)
    with Pair have "t = s"
      by (auto simp: replay_delivered_def bind_require raise_def atomic_Inl split: if_splits)
    with Pair assms show ?thesis by simp
  next
    case (Inr n)
    with Pair have "replay_delivered event latest uuid now s = (Inr n, t)" by simp
    from replay_delivered_Inr [OF this] have "conn_ok t"
    proof (elim disjE exE conjE)
      fix rows
      assume rows: "\<forall>r \<in> set rows. r \<in> set (observations s) \<and> ob_status r = Delivered"
        and t: "same_core (update_observations (\<lambda>r. ob_event r \<in> set (map ob_event rows))
          (\<lambda>r. r\<lparr>ob_status := Waiting, ob_next := 0, ob_error := None, ob_updated := now\<rparr>) s) t"
      have "conn_ok (update_observations (\<lambda>r. ob_event r \<in> set (map ob_event rows))
          (\<lambda>r. r\<lparr>ob_status := Waiting, ob_next := 0, ob_error := None, ob_updated := now\<rparr>) s)"
        by (rule conn_ok_requeue [OF assms]) (use rows in \<open>auto simp: ident_def\<close>)
      then show "conn_ok t" using t conn_ok_same unfolding same_core_def by blast
    qed (simp add: assms)
    with Pair show ?thesis by simp
  qed
qed

lemma newest_is_last:
  assumes "keys_ok s" "r \<in> set (observations s)" "newest_of_stream r s"
  shows "stream_rows (ob_pipeline r) (ob_source r) (ob_draft r) s \<noteq> []"
    and "last (stream_rows (ob_pipeline r) (ob_source r) (ob_draft r) s) = r"
proof -
  let ?rows = "stream_rows (ob_pipeline r) (ob_source r) (ob_draft r) s"
  have r: "r \<in> set ?rows" using assms(2) by (simp add: stream_rows_def of_stream_def)
  then show rows: "?rows \<noteq> []" by auto
  define front where "front = butlast ?rows"
  have split: "?rows = front @ [last ?rows]" using rows by (simp add: front_def)
  have "sorted_wrt (<) (map ob_sequence (observations s))" using assms(1) by (simp add: keys_ok_def)
  then have "sorted_wrt (<) (map ob_sequence ?rows)"
    unfolding stream_rows_def by (simp add: sorted_wrt_map sorted_wrt_filter)
  with split have "sorted_wrt (<) (map ob_sequence (front @ [last ?rows]))" by metis
  then have later: "ob_sequence q < ob_sequence (last ?rows)" if "q \<in> set front" for q
    using that unfolding map_append sorted_wrt_append by simp
  show "last ?rows = r"
  proof (rule ccontr)
    assume "last ?rows \<noteq> r"
    moreover have "r \<in> set (front @ [last ?rows])" using r split by simp
    ultimately have "ob_sequence r < ob_sequence (last ?rows)" using later by auto
    moreover have "last ?rows \<in> set ?rows" using rows by simp
    ultimately show False
      using assms(3)
      by (auto simp: newest_of_stream_def list_ex_iff same_stream_def of_stream_def stream_rows_def)
  qed
qed

lemma supersede_row_InrE:
  assumes "supersede_row env event reason action now r s = (Inr (action', new, revision), t)"
  obtains q u where "newest_of_stream r s" "insert_observation q s = (Inr (), u)" "same_core u t"
    "ob_event q = new" "ob_content_sha q = ob_content_sha r" "ob_revision q = Suc (ob_revision r)"
    "ob_pipeline q = ob_pipeline r" "ob_source q = ob_source r" "ob_draft q = ob_draft r"
    "revision = ob_revision q"
proof -
  define digest where
    "digest = sha256_hex env (lines [''supersede'', event, decimal (Suc (ob_revision r)), ob_content_sha r])"
  define note_row where "note_row = \<lparr>rc_action = action, rc_type = ''supersede_dead'',
     rc_details = canonical (JObj
       [(''old_event_id'', JStr event), (''new_event_id'', JStr (event_name digest)),
        (''source_revision'', json_int (int (Suc (ob_revision r)))), (''reason'', JStr reason)]),
     rc_created = now\<rparr>"
  define row where "row stamped body = fresh_observation env digest (ob_pipeline r, ob_source r, ob_draft r)
     (ob_period r) (Suc (ob_revision r)) (ob_content_sha r) (snd stamped) body now"
    for stamped :: "json \<times> string" and body
  note run = assms [unfolded supersede_row_def Let_def, folded digest_def, folded note_row_def row_def,
      unfolded bind_reading]
  from run obtain stamped body where newest: "newest_of_stream r s"
    and inserts: "bind (insert_observation (row stamped body)) (\<lambda>_.
      bind (writing (\<lambda>s. s\<lparr>recoveries := recoveries s @ [note_row]\<rparr>)) (\<lambda>_.
      ret (action, event_name digest, Suc (ob_revision r)))) s = (Inr (action', new, revision), t)"
    by (elim require_bind_InrE expect_bind_InrE)
  from inserts obtain u where u: "insert_observation (row stamped body) s = (Inr (), u)"
    and rest: "t = u\<lparr>recoveries := recoveries u @ [note_row]\<rparr>" "new = event_name digest"
      "revision = Suc (ob_revision r)"
    by (rule bind_InrE) (auto simp: ret_def)
  show thesis
    by (rule that [OF newest u]) (simp_all add: rest row_def same_core_def)
qed

lemma supersede_dead_InrE:
  assumes "supersede_dead env event reason uuid now s = (Inr (action, new, revision), t)"
  obtains r q u where "r \<in> set (observations s)" "ob_event r = event" "ob_status r = Dead"
    "newest_of_stream r s" "insert_observation q s = (Inr (), u)" "same_core u t"
    "ob_event q = new" "ob_content_sha q = ob_content_sha r" "ob_revision q = Suc (ob_revision r)"
    "ob_pipeline q = ob_pipeline r" "ob_source q = ob_source r" "ob_draft q = ob_draft r"
    "revision = ob_revision q"
proof -
  from assms obtain r where r: "r \<in> set (observations s) \<and> ob_event r = event \<and> ob_status r = Dead"
    and run: "supersede_row env event (join_texts '' '' (python_split reason)) (''recovery_'' @ uuid) now r s
      = (Inr (action, new, revision), t)"
    unfolding supersede_dead_def Let_def
    by (elim require_bind_InrE)
       (auto simp: atomic_Inr raise_def split: option.splits dest!: find_Some_mem)
  from run show thesis
    by (rule supersede_row_InrE) (use r that in blast)
qed

lemma conn_ok_supersede_dead:
  assumes ok: "conn_ok s"
  shows "conn_ok (snd (supersede_dead env event reason uuid now s))"
proof (cases "supersede_dead env event reason uuid now s")
  case (Pair r t)
  show ?thesis
  proof (cases r)
    case (Inl err)
    with Pair have "t = s"
      by (auto simp: supersede_dead_def Let_def bind_require raise_def atomic_Inl split: if_splits)
    with Pair ok show ?thesis by simp
  next
    case (Inr out)
    obtain action new revision where "out = (action, new, revision)" by (cases out)
    with Inr Pair have "supersede_dead env event reason uuid now s = (Inr (action, new, revision), t)"
      by simp
    then have "conn_ok t"
    proof (cases rule: supersede_dead_InrE)
      case (1 r q u)
      have "keys_ok s" using ok by (simp add: conn_ok_def)
      from newest_is_last [OF this 1(1,4)] have
        "ob_revision q = next_revision 0 (stream_rows (ob_pipeline q) (ob_source q) (ob_draft q) s)"
        by (simp add: 1 next_revision_def)
      then have "conn_ok u" by (rule conn_ok_insert [OF ok 1(5)])
      then show ?thesis using 1(6) conn_ok_same unfolding same_core_def by blast
    qed
    with Pair show ?thesis by simp
  qed
qed

section \<open>All calls\<close>

lemma conn_ok_act:
  assumes "conn_ok s"
  shows "conn_ok (act env a s)"
proof (cases a)
  case (Attempt_Delivered e st now)
  show ?thesis unfolding Attempt_Delivered act.simps mark_delivered_settles snd_conv
    by (rule conn_ok_settle [OF assms]) (simp_all add: ident_def)
next
  case (Attempt_Dead e err st now)
  show ?thesis unfolding Attempt_Dead act.simps mark_dead_settles snd_conv
    by (rule conn_ok_settle [OF assms]) (simp_all add: ident_def)
qed (simp_all add: conn_ok_same [OF assms] same_core_lease same_core_notes same_core_marks
      conn_ok_register_health [OF assms] conn_ok_register [OF assms] conn_ok_prepare_delivery [OF assms]
      conn_ok_mark_retry [OF assms] conn_ok_retry_dead [OF assms] conn_ok_supersede_dead [OF assms]
      conn_ok_replay_delivered [OF assms])

lemma conn_ok_reachable: "connector_reachable env s \<Longrightarrow> conn_ok s"
proof (induction rule: connector_reachable.induct)
  case connector_start
  show ?case
    by (simp add: empty_db_def conn_ok_def keys_ok_def reservations_ok_def stream_rows_def consecutive_def)
qed (rule conn_ok_act)

end
