(* ===== verification/Connector_Properties.thy ===== *)
theory Connector_Properties
  imports Connector_Steps
begin

text \<open>
  The properties of the connector's store, for every interleaving of its calls: the reservation
  of workflow generations, the conditions under which a workflow starts, and the revisions a
  stream of snapshots is registered as.
\<close>

section \<open>Reservations\<close>

lemma find_event:
  assumes "keys_ok s" "r \<in> set (observations s)" "p r"
  shows "find (\<lambda>q. ob_event q = ob_event r \<and> p q) (observations s) = Some r"
proof -
  have "find (\<lambda>q. ob_event q = ob_event r \<and> p q) (observations s) \<noteq> None"
    using assms(2,3) by (auto simp: find_None)
  then obtain q where q: "find (\<lambda>q. ob_event q = ob_event r \<and> p q) (observations s) = Some q" by auto
  from find_Some_mem [OF q] have "q = r" using keys_distinct [OF assms(1) _ assms(2)] by simp
  with q show ?thesis by simp
qed

lemma prepare_reserved:
  assumes "conn_ok s" "g \<in> set (generations s)" "g_status g = Assigned"
  shows "\<exists>d. prepare_delivery env (g_event g) required ages now s = (Inr (Some d), s) \<and> dl_trigger d"
proof -
  obtain r where r: "r \<in> set (observations s)" "holds_reservation g r"
    using reservation_held [OF assms] ..
  then have "find (\<lambda>q. ob_event q = g_event g \<and> ob_status q = Waiting) (observations s) = Some r"
    using find_event [of s r "\<lambda>q. ob_status q = Waiting"] assms(1)
    by (simp add: holds_reservation_def conn_ok_def)
  then have "prepare_delivery env (g_event g) required ages now s = (Inr (Some (to_delivery r)), s)"
    using r(2)
    by (simp add: prepare_delivery_def atomic_def transaction_def ret_def holds_reservation_def)
  then show ?thesis using r(2) by (auto simp: to_delivery_def holds_reservation_def)
qed

definition in_flight :: "connector_db \<Rightarrow> generation_row list" where
  "in_flight s = filter (\<lambda>g. g_status g = Assigned) (generations s)"

lemma settle_frees_draft:
  assumes ok: "conn_ok s" and g: "g \<in> set (in_flight s)" and st: "st \<noteq> Assigned"
  shows "g_draft g \<notin> g_draft ` set (in_flight (settle (g_event g) f st now s))"
proof
  assume "g_draft g \<in> g_draft ` set (in_flight (settle (g_event g) f st now s))"
  then obtain h where h: "h \<in> set (in_flight s)" "g_event h \<noteq> g_event g" "g_draft h = g_draft g"
    by (auto simp: in_flight_def assigned_after_settle [OF st])
  have "distinct (map g_draft (in_flight s))"
    using ok by (simp add: conn_ok_def reservations_ok_def in_flight_def)
  then have "inj_on g_draft (set (in_flight s))" by (simp add: distinct_map)
  then have "h = g" using h(1,3) g by (meson inj_onD)
  with h(2) show False by simp
qed

text \<open>C33: At most one workflow generation of a draft is reserved at a time, and the stored
  generations never hold two rows for one draft with the same digest of its sources and their
  events. (\<open>retry_dead\<close> deletes a failed row, after which the same digest can be reserved again.)
  A reservation is never stranded: its observation is waiting, the next \<open>prepare_delivery\<close> of it
  returns it with the trigger whatever the health of the sources, and either outcome of the
  attempt frees the draft.
\<close>

theorem one_workflow_in_flight:
  assumes "connector_reachable env s"
  shows "distinct (map g_draft (in_flight s))
    \<and> distinct (map (\<lambda>g. (g_draft g, g_hash g)) (generations s))
    \<and> (\<forall>g \<in> set (in_flight s).
         (\<exists>d. prepare_delivery env (g_event g) required ages now s = (Inr (Some d), s) \<and> dl_trigger d)
         \<and> g_draft g \<notin> g_draft ` set (in_flight (snd (mark_delivered (g_event g) code now s)))
         \<and> g_draft g \<notin> g_draft ` set (in_flight (snd (mark_dead (g_event g) err response now s))))"
proof (intro conjI ballI)
  have ok: "conn_ok s" by (rule conn_ok_reachable [OF assms])
  then show "distinct (map g_draft (in_flight s))" "distinct (map (\<lambda>g. (g_draft g, g_hash g)) (generations s))"
    by (simp_all add: conn_ok_def reservations_ok_def in_flight_def)
  fix g assume g: "g \<in> set (in_flight s)"
  then show "\<exists>d. prepare_delivery env (g_event g) required ages now s = (Inr (Some d), s) \<and> dl_trigger d"
    by (intro prepare_reserved [OF ok]) (simp_all add: in_flight_def)
  show "g_draft g \<notin> g_draft ` set (in_flight (snd (mark_delivered (g_event g) code now s)))"
    "g_draft g \<notin> g_draft ` set (in_flight (snd (mark_dead (g_event g) err response now s)))"
    unfolding mark_delivered_settles mark_dead_settles snd_conv
    by (rule settle_frees_draft [OF ok g], simp)+
qed

section \<open>When a workflow starts\<close>

lemma required_latest_Some:
  assumes "required_latest p draft (Some known) now s required = Inr (Some latest)" "src \<in> set required"
  shows "\<exists>q age. latest_observation p src draft s = Some q \<and> map_of known src = Some age
    \<and> source_ready p src draft age now q s \<and> (src, q) \<in> set latest"
  using assms
proof (induction required arbitrary: latest)
  case (Cons x rest)
  obtain q where q: "latest_observation p x draft s = Some q"
    using Cons.prems(1) by (cases "latest_observation p x draft s") auto
  obtain age where age: "map_of known x = Some age" "source_ready p x draft age now q s"
    using Cons.prems(1) q by (auto simp: Let_def split: option.splits if_splits)
  obtain more where more: "required_latest p draft (Some known) now s rest = Inr (Some more)"
    "latest = (x, q) # more"
  proof (cases "required_latest p draft (Some known) now s rest")
    case (Inr rows)
    then show thesis using that Cons.prems(1) q age by (cases rows) (auto simp: Let_def)
  qed (use Cons.prems(1) q age in \<open>simp add: Let_def\<close>)
  note here = q age more
  show ?case
  proof (cases "src = x")
    case False
    then show ?thesis using Cons.IH [OF here(4)] Cons.prems(2) here(5) by auto
  qed (use here in auto)
qed simp

lemma is_newest_row:
  assumes "keys_ok s" "r \<in> set (observations s)" "is_newest r s"
  shows "newest_of_stream r s"
proof -
  let ?rows = "newest_rows (ob_pipeline r) (ob_draft r) (\<lambda>_. True) (observations s)"
  obtain q where q: "map_of (by_source ?rows) (ob_source r) = Some q" "ob_event q = ob_event r"
    using assms(3) by (auto simp: is_newest_def split: option.splits)
  from q(1) have "(ob_source r, q) \<in> set (map (\<lambda>r. (ob_source r, r)) ?rows)"
    unfolding by_source_def map_of_dict_of by (auto dest!: map_of_SomeD)
  then have "q \<in> set ?rows" by auto
  moreover have "q = r"
    using keys_distinct [OF assms(1) _ assms(2) q(2)] calculation by (simp add: newest_rows_def)
  ultimately show ?thesis by (simp add: newest_rows_def newest_of_stream_def)
qed

text \<open>The snapshot of a required source, as the gate saw it.\<close>

definition source_settled ::
    "observation_row \<Rightarrow> (string \<times> rat) list \<Rightarrow> rat \<Rightarrow> connector_db \<Rightarrow> string \<Rightarrow> bool" where
  "source_settled r known now s src \<longleftrightarrow>
     (case latest_observation (ob_pipeline r) src (ob_draft r) s of
        None \<Rightarrow> False
      | Some q \<Rightarrow>
          (case map_of known src of
             None \<Rightarrow> False
           | Some age \<Rightarrow> source_ready (ob_pipeline r) src (ob_draft r) age now q s
               \<and> (src = ob_source r \<or> ob_status q = Delivered)))"

text \<open>The health of the observation's own source: delivered, recent, and about this observation.\<close>

definition own_source_healthy :: "observation_row \<Rightarrow> (string \<times> rat) list \<Rightarrow> rat \<Rightarrow> connector_db \<Rightarrow> bool" where
  "own_source_healthy r known now s \<longleftrightarrow>
     (case (latest_health (ob_pipeline r) (ob_source r) (ob_draft r) s, map_of known (ob_source r)) of
        (Some h, Some age) \<Rightarrow>
          h_status h = Delivered \<and> h_outcome h = ''success_nonempty''
          \<and> health_matches_observation (Some h) r \<and> now - h_completed h < age
      | _ \<Rightarrow> False)"

lemma may_trigger_settled:
  assumes "may_trigger env r required (Some known) now s" "keys_ok s" "r \<in> set (observations s)"
  shows "newest_of_stream r s" "own_source_healthy r known now s"
    "list_all (source_settled r known now s) required"
    "ob_draft r \<notin> g_draft ` set (in_flight s)"
proof -
  show "newest_of_stream r s"
    using is_newest_row [OF assms(2,3)] assms(1) by (simp add: may_trigger_def)
  show "own_source_healthy r known now s"
    using assms(1)
    by (auto simp: may_trigger_def own_health_gate_def own_source_healthy_def Let_def
             split: option.splits if_splits)
  show "ob_draft r \<notin> g_draft ` set (in_flight s)"
    using assms(1) by (auto simp: may_trigger_def in_flight_def list_ex_iff)
  obtain latest where
    latest: "required_latest (ob_pipeline r) (ob_draft r) (Some known) now s required = Inr (Some latest)"
      "others_delivered r latest"
    using assms(1) by (auto simp: may_trigger_def)
  have "source_settled r known now s src" if src: "src \<in> set required" for src
    using required_latest_Some [OF latest(1) src] latest(2)
    by (auto simp: source_settled_def others_delivered_def list_all_iff)
  then show "list_all (source_settled r known now s) required" by (simp add: list_all_iff)
qed

text \<open>The row a reservation reads back.\<close>

lemma reserved_row:
  assumes "find (\<lambda>q. ob_event q = event) (observations (reserve env r payload now s)) = Some q"
    and "ob_event r = event"
  shows "ob_event q = event" "ob_payload q = canonical payload" "ob_trigger q"
proof -
  have q: "q \<in> set (observations (reserve env r payload now s))" "ob_event q = event"
    using find_Some_mem [OF assms(1)] by auto
  then obtain x where x: "q = (if ob_event x = ob_event r
      then x\<lparr>ob_payload := canonical payload, ob_trigger := True, ob_updated := now\<rparr> else x)"
    unfolding observations_reserve set_map by (elim imageE)
  have "ob_event x = ob_event r" using q(2) assms(2) x by (cases "ob_event x = ob_event r") simp_all
  with x q(2) show "ob_event q = event" "ob_payload q = canonical payload" "ob_trigger q" by simp_all
qed

text \<open>C34: A delivery carries the trigger for the first time only when its observation is the newest of
  its stream, the draft has no other generation in flight, the agent has confirmed recent health
  for exactly this observation, and the latest snapshot of every required source is fresh, known
  to the agent as healthy, and (for the other sources) delivered. Otherwise the trigger was
  reserved earlier and nothing changes.
\<close>

theorem workflow_waits_for_sources:
  assumes "connector_reachable env s"
    and "prepare_delivery env event required (Some known) now s = (Inr (Some d), t)"
    and "dl_trigger d"
  shows "\<exists>r \<in> set (observations s). ob_event r = event \<and> ob_status r = Waiting \<and> dl_event d = event
    \<and> (if ob_trigger r then t = s \<and> dl_payload d = ob_payload r
       else newest_of_stream r s \<and> own_source_healthy r known now s
         \<and> list_all (source_settled r known now s) required
         \<and> ob_draft r \<notin> g_draft ` set (in_flight s)
         \<and> ob_draft r \<in> g_draft ` set (in_flight t)
         \<and> map_option canonical (set_field ''trigger_workflow'' (JBool True) (ob_payload r))
             = Some (dl_payload d))"
  using assms(2)
proof (cases rule: prepare_delivery_InrE)
  case (unchanged r)
  then show ?thesis using assms(3) by (auto simp: to_delivery_def)
next
  case (reserved r payload q)
  have keys: "keys_ok s" using conn_ok_reachable [OF assms(1)] by (simp add: conn_ok_def)
  note settled = may_trigger_settled [OF reserved(5) keys reserved(1)]
  note row = reserved_row [OF reserved(9) [unfolded reserved(8)] reserved(2)]
  have d: "dl_event d = event" "dl_payload d = canonical payload"
    using reserved(7) row by (simp_all add: to_delivery_def)
  have flight: "ob_draft r \<in> g_draft ` set (in_flight t)"
    by (simp add: reserved(8) reserve_def in_flight_def)
  show ?thesis
    by (rule bexI [OF _ reserved(1)]) (simp add: reserved(2-4,6) settled d flight)
qed simp

lemma prepare_delivery_untriggered:
  assumes "prepare_delivery env event required ages now s = (Inr (Some d), t)" "\<not> dl_trigger d"
  shows "t = s"
  using assms(1)
proof (cases rule: prepare_delivery_InrE)
  case (reserved r payload q)
  have "ob_trigger q" using reserved_row(3) [OF reserved(9) [unfolded reserved(8)] reserved(2)] .
  with reserved(7) assms(2) show ?thesis by (simp add: to_delivery_def)
qed auto

section \<open>The revisions of a stream\<close>

definition register_all :: "connector_env \<Rightarrow> (normalized_event \<times> rat) list \<Rightarrow> string option list cop" where
  "register_all env = map_each (\<lambda>(e, now). register env e now)"

lemma register_in_stream:
  assumes run: "register env e now s = (Inr out, t)"
    and e: "ne_pipeline e = p" "ne_source e = src" "ne_draft e = draft"
  shows "if stream_rows p src draft s \<noteq> []
      \<and> ob_content_sha (last (stream_rows p src draft s)) = ne_content_sha e
    then out = None \<and> t = s
    else \<exists>r. out = Some (ob_event r) \<and> ob_content_sha r = ne_content_sha e
      \<and> stream_rows p src draft t = stream_rows p src draft s @ [r]"
  using run
proof (cases rule: register_InrE)
  case (known r)
  then show ?thesis using e by (auto simp: latest_observation_last split: if_splits)
next
  case (new r)
  let ?r = "r\<lparr>ob_sequence := next_sequence ob_sequence (observations s)\<rparr>"
  have "of_stream p src draft ?r" using new e by (simp add: of_stream_def)
  then have "stream_rows p src draft t = stream_rows p src draft s @ [?r]"
    by (simp add: stream_rows_def insert_observation_Inr(1) [OF new(2)])
  moreover have "\<not> (stream_rows p src draft s \<noteq> []
      \<and> ob_content_sha (last (stream_rows p src draft s)) = ne_content_sha e)"
    using new(3) e by (auto simp: latest_observation_last)
  ultimately show ?thesis using new(1,7)
    by (auto intro!: exI [of _ ?r])
qed

lemma register_all_stream:
  assumes "register_all env es s = (Inr outs, t)"
    and "list_all (\<lambda>(e, _). ne_pipeline e = p \<and> ne_source e = src \<and> ne_draft e = draft) es"
  shows "\<exists>new. stream_rows p src draft t = stream_rows p src draft s @ new
    \<and> map (\<lambda>r. Some (ob_event r)) new = filter (\<lambda>x. x \<noteq> None) outs
    \<and> map ob_content_sha new =
        (if stream_rows p src draft s = [] then remdups_adj (map (ne_content_sha \<circ> fst) es)
         else tl (remdups_adj (ob_content_sha (last (stream_rows p src draft s))
                    # map (ne_content_sha \<circ> fst) es)))"
  using assms
proof (induction es arbitrary: s outs)
  case Nil
  then show ?case by (simp add: register_all_def ret_def)
next
  case (Cons x es)
  obtain e now where x: "x = (e, now)" by (cases x)
  have e: "ne_pipeline e = p" "ne_source e = src" "ne_draft e = draft"
    and tail: "list_all (\<lambda>(e, _). ne_pipeline e = p \<and> ne_source e = src \<and> ne_draft e = draft) es"
    using Cons.prems(2) x by simp_all
  obtain out more u where run: "register env e now s = (Inr out, u)" "register_all env es u = (Inr more, t)"
    "outs = out # more"
    using Cons.prems(1) unfolding register_all_def x map_each.simps prod.case
    by (elim bind_InrE) (auto simp: ret_def)
  obtain new where new: "stream_rows p src draft t = stream_rows p src draft u @ new"
    "map (\<lambda>r. Some (ob_event r)) new = filter (\<lambda>x. x \<noteq> None) more"
    "map ob_content_sha new =
        (if stream_rows p src draft u = [] then remdups_adj (map (ne_content_sha \<circ> fst) es)
         else tl (remdups_adj (ob_content_sha (last (stream_rows p src draft u))
                    # map (ne_content_sha \<circ> fst) es)))"
    using Cons.IH [OF run(2) tail] by blast
  have tl_eq: "a # tl (remdups_adj (a # xs)) = remdups_adj (a # xs)" for a :: string and xs
    by (induction xs arbitrary: a) (auto split: if_splits)
  show ?case
  proof (cases "stream_rows p src draft s \<noteq> []
      \<and> ob_content_sha (last (stream_rows p src draft s)) = ne_content_sha e")
    case True
    then have "out = None" "u = s" using register_in_stream [OF run(1) e] by simp_all
    then show ?thesis using new True run(3) x by (intro exI [of _ new]) simp
  next
    case False
    then obtain r where r: "out = Some (ob_event r)" "ob_content_sha r = ne_content_sha e"
      "stream_rows p src draft u = stream_rows p src draft s @ [r]"
      using register_in_stream [OF run(1) e] by auto
    show ?thesis
      by (rule exI [of _ "r # new"]) (use new r False run(3) x tl_eq in auto)
  qed
qed

lemma register_all_reachable:
  assumes "connector_reachable env s" "register_all env es s = (Inr outs, t)"
  shows "connector_reachable env t"
  using assms
proof (induction es arbitrary: s outs)
  case (Cons x es)
  obtain e now where x: "x = (e, now)" by (cases x)
  obtain out more u where "register env e now s = (Inr out, u)" "register_all env es u = (Inr more, t)"
    using Cons.prems(2) unfolding register_all_def x map_each.simps prod.case
    by (elim bind_InrE) (auto simp: ret_def)
  moreover have "connector_reachable env (act env (Register e now) s)"
    using Cons.prems(1) by (rule connector_act)
  ultimately show ?case using Cons.IH by simp
qed (simp add: register_all_def ret_def)

text \<open>Registering the snapshots of a new stream one after another records exactly its transitions:
  the recorded contents are the collected ones without consecutive repetitions (so A, B, A makes
  three revisions), each recorded one is reported with its event, the revisions count up by one
  and no identifier repeats in the whole store.
\<close>

theorem registered_snapshots_are_transitions:
  assumes "connector_reachable env s" "stream_rows p src draft s = []"
    and "list_all (\<lambda>(e, _). ne_pipeline e = p \<and> ne_source e = src \<and> ne_draft e = draft) es"
    and "register_all env es s = (Inr outs, t)"
  shows "map ob_content_sha (stream_rows p src draft t) = remdups_adj (map (ne_content_sha \<circ> fst) es)
    \<and> map (\<lambda>r. Some (ob_event r)) (stream_rows p src draft t) = filter (\<lambda>x. x \<noteq> None) outs
    \<and> consecutive (map ob_revision (stream_rows p src draft t))
    \<and> distinct (map ob_event (observations t)) \<and> distinct (map ob_request (observations t))"
proof -
  have keys: "keys_ok t"
    using conn_ok_reachable [OF register_all_reachable [OF assms(1,4)]] by (simp add: conn_ok_def)
  obtain new where "stream_rows p src draft t = stream_rows p src draft s @ new"
    "map (\<lambda>r. Some (ob_event r)) new = filter (\<lambda>x. x \<noteq> None) outs"
    "map ob_content_sha new = remdups_adj (map (ne_content_sha \<circ> fst) es)"
    using register_all_stream [OF assms(4,3)] assms(2) by auto
  moreover have "consecutive (map ob_revision (stream_rows p src draft t))"
    using keys by (simp add: keys_ok_def)
  ultimately show ?thesis using keys by (simp add: assms(2) keys_ok_def)
qed

text \<open>
  A run of the connector's store on two sources of one draft, evaluated by the kernel: the
  properties hold on it, and its two attempts of one event differ in the trigger.
\<close>

definition demo_connector_env :: connector_env where
  "demo_connector_env =
     \<lparr>json_text = (\<lambda>_. ''t''), json_read = (\<lambda>_. Some (JObj [(''connector_snapshot'', JObj [])])),
      sha256_hex = (\<lambda>x. x), fixed6 = (\<lambda>_. ''0'')\<rparr>"

definition demo_snapshot :: "string \<Rightarrow> string \<Rightarrow> normalized_event" where
  "demo_snapshot src sha =
     \<lparr>ne_event = ''e'', ne_request = ''r'', ne_pipeline = ''p'', ne_source = src, ne_draft = ''d'',
      ne_period = ''m'', ne_content_sha = sha,
      ne_payload = JObj [(''event_id'', JStr ''e''), (''source'', JObj [(''content'', JStr ''t'')]),
        (''trigger_workflow'', JBool False)],
      ne_revision_floor = 0, ne_record_count = 1\<rparr>"

definition demo_health :: "string \<Rightarrow> string \<Rightarrow> (string \<times> json) list" where
  "demo_health src event =
     [(''source_id'', JStr src), (''draft_key'', JStr ''d''), (''reporting_month'', JStr ''m''),
      (''outcome'', JStr ''success_nonempty''), (''autofill_event_id'', JStr event),
      (''source_revision'', json_int 1), (''snapshot_sha256'', JStr ''t'')]"

definition event_a :: string where "event_a = event_name (lines [''p'', ''A'', ''d'', ''1'', ''x''])"
definition event_b :: string where "event_b = event_name (lines [''p'', ''B'', ''d'', ''1'', ''y''])"

definition demo_ages :: "(string \<times> rat) list" where
  "demo_ages = [(''A'', 100), (''B'', 100)]"

definition source_arrives :: "string \<Rightarrow> string \<Rightarrow> string \<Rightarrow> rat \<Rightarrow> store_action list" where
  "source_arrives src sha event now =
     [Note_Collection ''p'' src Collected 1 None now, Note_Snapshot ''p'' src ''d'' ''m'' 1 now,
      Register (demo_snapshot src sha) now,
      Register_Health ''p'' (demo_health src event) 60 now src now]"

definition health_event :: "connector_db \<Rightarrow> string" where
  "health_event s = h_event (last (healths s))"

text \<open>Source A is known and healthy; its observation is sent while B is missing, and the answer is lost.\<close>

definition demo_first :: connector_db where
  "demo_first =
     (let s = act_all demo_connector_env (source_arrives ''A'' ''x'' event_a 1) empty_db
      in act demo_connector_env (Health_Delivered (health_event s) 200 2) s)"

definition demo_lost :: connector_db where
  "demo_lost = act demo_connector_env (Attempt_Retry event_a ''timeout'' 1 None 3) demo_first"

text \<open>Then B arrives and is delivered.\<close>

definition demo_both :: connector_db where
  "demo_both =
     (let s = act_all demo_connector_env (source_arrives ''B'' ''y'' event_b 4) demo_lost;
          t = act demo_connector_env (Health_Delivered (health_event s) 200 5) s
      in act_all demo_connector_env [Prepare event_b [''A'', ''B''] (Some demo_ages) 6, Attempt_Delivered event_b 200 6] t)"

definition demo_attempt :: "rat \<Rightarrow> connector_db \<Rightarrow> (connector_error + delivery option) \<times> connector_db" where
  "demo_attempt now = prepare_delivery demo_connector_env event_a [''A'', ''B''] (Some demo_ages) now"

definition demo_triggered :: connector_db where
  "demo_triggered = snd (demo_attempt 7 demo_both)"

lemma demo_first_reachable: "connector_reachable demo_connector_env demo_first"
  unfolding demo_first_def Let_def
  by (intro connector_act connector_reachable_all connector_start)

lemma demo_both_reachable: "connector_reachable demo_connector_env demo_both"
  unfolding demo_both_def demo_lost_def Let_def
  by (intro connector_reachable_all connector_act demo_first_reachable)

lemma demo_triggered_reachable: "connector_reachable demo_connector_env demo_triggered"
  using connector_act [OF demo_both_reachable, of "Prepare event_a [''A'', ''B''] (Some demo_ages) 7"]
  by (simp add: demo_triggered_def demo_attempt_def)

text \<open>The delivery each attempt sends.\<close>

definition delivery_of :: "(connector_error + delivery option) \<times> connector_db \<Rightarrow> delivery option" where
  "delivery_of result = (case fst result of Inl _ \<Rightarrow> None | Inr d \<Rightarrow> d)"

lemma demo_attempt_first:
  "map_option (\<lambda>d. (dl_event d, dl_trigger d, field ''trigger_workflow'' (dl_payload d)))
     (delivery_of (demo_attempt 3 demo_first)) = Some (event_a, False, Some (JBool False))"
  by code_simp

lemma demo_attempt_second:
  "map_option (\<lambda>d. (dl_event d, dl_trigger d, field ''trigger_workflow'' (dl_payload d)))
     (delivery_of (demo_attempt 7 demo_both)) = Some (event_a, True, Some (JBool True))"
  by code_simp

lemma demo_triggered_in_flight: "map g_event (in_flight demo_triggered) = [event_a]"
  by code_simp

lemma delivery_of_SomeE:
  assumes "map_option f (delivery_of m) = Some x"
  obtains d where "m = (Inr (Some d), snd m)" "f d = x"
  using assms by (cases m) (auto simp: delivery_of_def split: sum.splits)

section \<open>Witnesses\<close>

theorem one_workflow_in_flight_witness:
  "\<exists>g. in_flight demo_triggered = [g] \<and> g_event g = event_a
     \<and> (\<exists>d. prepare_delivery demo_connector_env event_a [''A'', ''B''] (Some demo_ages) 9 demo_triggered
          = (Inr (Some d), demo_triggered) \<and> dl_trigger d)"
proof -
  obtain g where g: "in_flight demo_triggered = [g]" "g_event g = event_a"
    using demo_triggered_in_flight by auto
  then show ?thesis
    using one_workflow_in_flight [OF demo_triggered_reachable, of "[''A'', ''B'']" "Some demo_ages" 9]
    by auto
qed

theorem workflow_waits_for_sources_witness:
  "\<exists>r \<in> set (observations demo_both). ob_event r = event_a \<and> newest_of_stream r demo_both
     \<and> list_all (source_settled r demo_ages 7 demo_both) [''A'', ''B'']"
proof -
  from demo_attempt_second obtain d where d: "demo_attempt 7 demo_both = (Inr (Some d), demo_triggered)"
    "dl_trigger d" "dl_event d = event_a"
    unfolding demo_triggered_def by (rule delivery_of_SomeE) simp
  have "\<not> list_ex ob_trigger (observations demo_both)" by code_simp
  then show ?thesis
    using workflow_waits_for_sources [OF demo_both_reachable d(1) [unfolded demo_attempt_def] d(2)]
    by (auto simp: list_ex_iff split: if_splits)
qed

definition demo_snapshots :: "(normalized_event \<times> rat) list" where
  "demo_snapshots = map (\<lambda>(sha, t). (demo_snapshot ''A'' sha, t)) [(''x'', 1), (''x'', 2), (''y'', 3), (''x'', 4)]"

theorem registered_snapshots_are_transitions_witness:
  "\<exists>outs t. register_all demo_connector_env demo_snapshots empty_db = (Inr outs, t)
     \<and> map ob_content_sha (stream_rows ''p'' ''A'' ''d'' t) = [''x'', ''y'', ''x'']
     \<and> consecutive (map ob_revision (stream_rows ''p'' ''A'' ''d'' t))"
proof -
  have "\<not> isl (fst (register_all demo_connector_env demo_snapshots empty_db))" by code_simp
  then obtain outs t where run: "register_all demo_connector_env demo_snapshots empty_db = (Inr outs, t)"
    by (cases "register_all demo_connector_env demo_snapshots empty_db"; cases "fst (register_all demo_connector_env demo_snapshots empty_db)") auto
  have stream: "list_all (\<lambda>(e, _). ne_pipeline e = ''p'' \<and> ne_source e = ''A'' \<and> ne_draft e = ''d'') demo_snapshots"
    "stream_rows ''p'' ''A'' ''d'' empty_db = []"
    "remdups_adj (map (ne_content_sha \<circ> fst) demo_snapshots) = [''x'', ''y'', ''x'']"
    by code_simp+
  show ?thesis
    using registered_snapshots_are_transitions [OF connector_start stream(2,1) run] run stream(3) by auto
qed

end
