(* ===== verification/Partial_Merge.thy ===== *)
theory Partial_Merge
  imports Prelude "HOL-Library.Multiset" "HOL-Library.AList"
begin

text \<open>
  Merging that may fail: the interface of a commutative and associative partial operation, the
  constructions that keep it (agreement, products, families, changes of representation), and
  dicts whose entries are merged key by key, whatever the order of the items.
\<close>

section \<open>The interface\<close>

text \<open>One more item for a slot that may be empty; \<open>None\<close> is a conflict.\<close>

fun absorb :: "('a \<Rightarrow> 'a \<Rightarrow> 'a option) \<Rightarrow> 'a \<Rightarrow> 'a option option \<Rightarrow> 'a option option" where
  "absorb f x None = None"
| "absorb f x (Some None) = Some (Some x)"
| "absorb f x (Some (Some a)) = map_option Some (f a x)"

locale partial_merge =
  fixes merge :: "'a \<Rightarrow> 'a \<Rightarrow> 'a option"
  assumes merge_comm: "merge a b = merge b a"
    and merge_assoc: "Option.bind (merge a b) (\<lambda>x. merge x c) = Option.bind (merge b c) (merge a)"
begin

lemma merge_swap:
  "Option.bind (merge a x) (\<lambda>b. merge b y) = Option.bind (merge a y) (\<lambda>b. merge b x)"
proof -
  have "Option.bind (merge a x) (\<lambda>b. merge b y) = Option.bind (merge x y) (merge a)"
    by (rule merge_assoc)
  also have "\<dots> = Option.bind (merge y x) (merge a)" by (simp add: merge_comm)
  also have "\<dots> = Option.bind (merge a y) (\<lambda>b. merge b x)" by (rule merge_assoc [symmetric])
  finally show ?thesis .
qed

lemma absorb_commute: "absorb merge x (absorb merge y s) = absorb merge y (absorb merge x s)"
proof (cases s)
  case (Some slot)
  show ?thesis
  proof (cases slot)
    case None
    with Some show ?thesis by (simp add: merge_comm)
  next
    case (Some a)
    with \<open>s = Some slot\<close> merge_swap [of a x y] show ?thesis
      by (cases "merge a x"; cases "merge a y") auto
  qed
qed simp

lemma fold_absorb_perm:
  assumes "mset xs = mset ys"
  shows "fold (absorb merge) xs s = fold (absorb merge) ys s"
proof -
  have "fold (absorb merge) xs = fold (absorb merge) ys"
    by (rule fold_multiset_equiv [OF _ assms]) (simp add: fun_eq_iff absorb_commute)
  then show ?thesis by simp
qed

end

lemma fold_absorb_None [simp]: "fold (absorb f) xs None = None"
  by (induction xs) simp_all

lemma option_eqI: "(\<And>z. a = Some z \<longleftrightarrow> b = Some z) \<Longrightarrow> a = b"
  by (cases a; cases b) auto

section \<open>Constructions\<close>

definition agree :: "'a \<Rightarrow> 'a \<Rightarrow> 'a option" where
  "agree a b = (if a = b then Some a else None)"

definition merge_pair ::
    "('a \<Rightarrow> 'a \<Rightarrow> 'a option) \<Rightarrow> ('b \<Rightarrow> 'b \<Rightarrow> 'b option) \<Rightarrow> 'a \<times> 'b \<Rightarrow> 'a \<times> 'b \<Rightarrow> ('a \<times> 'b) option" where
  "merge_pair f g p q =
     Option.bind (f (fst p) (fst q)) (\<lambda>a. Option.bind (g (snd p) (snd q)) (\<lambda>b. Some (a, b)))"

definition merge_family :: "'k list \<Rightarrow> ('a \<Rightarrow> 'a \<Rightarrow> 'a option) \<Rightarrow> ('k \<Rightarrow> 'a) \<Rightarrow> ('k \<Rightarrow> 'a) \<Rightarrow> ('k \<Rightarrow> 'a) option" where
  "merge_family ks f u v =
     (if list_all (\<lambda>k. f (u k) (v k) \<noteq> None) ks then Some (\<lambda>k. the (f (u k) (v k))) else None)"

lemma partial_merge_agree: "partial_merge agree"
  by unfold_locales (auto simp: agree_def)

lemma partial_merge_pair:
  assumes "partial_merge f" "partial_merge g"
  shows "partial_merge (merge_pair f g)"
proof
  fix a b c :: "'a \<times> 'b"
  show "merge_pair f g a b = merge_pair f g b a"
    by (simp add: merge_pair_def partial_merge.merge_comm [OF assms(1), of "fst a"]
        partial_merge.merge_comm [OF assms(2), of "snd a"])
  show "Option.bind (merge_pair f g a b) (\<lambda>x. merge_pair f g x c)
      = Option.bind (merge_pair f g b c) (merge_pair f g a)"
    using partial_merge.merge_assoc [OF assms(1), of "fst a" "fst b" "fst c"]
      partial_merge.merge_assoc [OF assms(2), of "snd a" "snd b" "snd c"]
    by (cases "f (fst a) (fst b)"; cases "f (fst b) (fst c)"; cases "g (snd a) (snd b)";
        cases "g (snd b) (snd c)") (auto simp: merge_pair_def split: Option.bind_splits)
qed

lemma partial_merge_family:
  assumes "partial_merge f" "set ks = UNIV"
  shows "partial_merge (merge_family ks f)"
proof
  fix u v w :: "'b \<Rightarrow> 'a"
  have all: "list_all P ks \<longleftrightarrow> (\<forall>k. P k)" for P
    using assms(2) by (simp add: list_all_iff)
  have comm: "f a b = f b a" for a b by (rule partial_merge.merge_comm [OF assms(1)])
  show "merge_family ks f u v = merge_family ks f v u"
    unfolding merge_family_def by (simp add: comm)
  have assoc: "Option.bind (f (u k) (v k)) (\<lambda>x. f x (w k)) = Option.bind (f (v k) (w k)) (f (u k))" for k
    by (rule partial_merge.merge_assoc [OF assms(1)])
  have some: "merge_family ks f x y = Some z \<longleftrightarrow> (\<forall>k. f (x k) (y k) = Some (z k))" for x y z
  proof (cases "\<forall>k. f (x k) (y k) \<noteq> None")
    case True
    then have "f (x k) (y k) = Some (z k) \<longleftrightarrow> the (f (x k) (y k)) = z k" for k
      by (cases "f (x k) (y k)") (use True in auto)
    with True show ?thesis by (simp add: merge_family_def all fun_eq_iff del: not_None_eq)
  next
    case False
    then show ?thesis by (auto simp: merge_family_def all) (metis option.distinct(1))
  qed
  have left: "Option.bind (merge_family ks f u v) (\<lambda>x. merge_family ks f x w) = Some z \<longleftrightarrow>
      (\<forall>k. Option.bind (f (u k) (v k)) (\<lambda>x. f x (w k)) = Some (z k))" for z
    by (simp add: bind_eq_Some_conv some all_conj_distrib choice_iff)
  have right: "Option.bind (merge_family ks f v w) (merge_family ks f u) = Some z \<longleftrightarrow>
      (\<forall>k. Option.bind (f (v k) (w k)) (f (u k)) = Some (z k))" for z
    by (simp add: bind_eq_Some_conv some all_conj_distrib choice_iff)
  show "Option.bind (merge_family ks f u v) (\<lambda>x. merge_family ks f x w)
      = Option.bind (merge_family ks f v w) (merge_family ks f u)"
    by (rule option_eqI) (simp only: left right assoc)
qed

text \<open>The same operation on another representation of the data.\<close>

lemma partial_merge_iso:
  assumes "partial_merge f" "\<And>a. dec (enc a) = a" "\<And>x. enc (dec x) = x"
    and "\<And>a b. g a b = map_option dec (f (enc a) (enc b))"
  shows "partial_merge g"
proof
  fix a b c
  show "g a b = g b a" by (simp add: assms(4) partial_merge.merge_comm [OF assms(1), of "enc a"])
  show "Option.bind (g a b) (\<lambda>x. g x c) = Option.bind (g b c) (g a)"
    using partial_merge.merge_assoc [OF assms(1), of "enc a" "enc b" "enc c"]
    by (cases "f (enc a) (enc b)"; cases "f (enc b) (enc c)") (auto simp: assms(3,4))
qed

section \<open>Dicts\<close>

definition put_item ::
    "('a \<Rightarrow> 'a \<Rightarrow> 'a option) \<Rightarrow> 'k \<Rightarrow> 'a \<Rightarrow> ('k \<times> 'a) list \<Rightarrow> ('k \<times> 'a) list option" where
  "put_item f k x d =
     (case map_of d k of
        None \<Rightarrow> Some (AList.update k x d)
      | Some a \<Rightarrow> map_option (\<lambda>b. AList.update k b d) (f a x))"

fun put_items ::
    "('a \<Rightarrow> 'a \<Rightarrow> 'a option) \<Rightarrow> ('k \<times> 'a) list \<Rightarrow> ('k \<times> 'a) list \<Rightarrow> ('k \<times> 'a) list option" where
  "put_items f [] d = Some d"
| "put_items f ((k, x) # items) d = Option.bind (put_item f k x d) (put_items f items)"

definition values_at :: "'k \<Rightarrow> ('k \<times> 'a) list \<Rightarrow> 'a list" where
  "values_at k items = map snd (filter (\<lambda>(j, _). j = k) items)"

text \<open>What the dict holds under each key, or whether some key has a conflict.\<close>

definition merged_at ::
    "('a \<Rightarrow> 'a \<Rightarrow> 'a option) \<Rightarrow> ('k \<times> 'a) list \<Rightarrow> ('k \<times> 'a) list \<Rightarrow> 'k \<Rightarrow> 'a option option" where
  "merged_at f items d k = fold (absorb f) (values_at k items) (Some (map_of d k))"

lemma put_item_absorb:
  "put_item f k x d = Some d' \<Longrightarrow>
     Some (map_of d' j) = (if j = k then absorb f x (Some (map_of d k)) else Some (map_of d j))"
  by (auto simp: put_item_def update_conv' split: option.splits)

lemma put_item_None: "put_item f k x d = None \<longleftrightarrow> absorb f x (Some (map_of d k)) = None"
  by (auto simp: put_item_def split: option.splits)

lemma put_items_Some:
  "put_items f items d = Some d' \<Longrightarrow> merged_at f items d k = Some (map_of d' k)"
proof (induction items arbitrary: d)
  case (Cons item items)
  obtain j x where item: "item = (j, x)" by (cases item)
  from Cons.prems item obtain e where e: "put_item f j x d = Some e" "put_items f items e = Some d'"
    by (cases "put_item f j x d") auto
  show ?case
    using Cons.IH [OF e(2)] put_item_absorb [OF e(1), of k] item
    by (auto simp: merged_at_def values_at_def)
qed (simp add: merged_at_def values_at_def)

lemma put_items_None:
  "put_items f items d = None \<longleftrightarrow> (\<exists>k. merged_at f items d k = None)"
proof (induction items arbitrary: d)
  case (Cons item items)
  obtain j x where item: "item = (j, x)" by (cases item)
  show ?case
  proof (cases "put_item f j x d")
    case None
    then have "merged_at f (item # items) d j = None"
      using put_item_None [of f j x d] item by (simp add: merged_at_def values_at_def)
    with None item show ?thesis by auto
  next
    case (Some e)
    have "merged_at f (item # items) d k = merged_at f items e k" for k
      using put_item_absorb [OF Some, of k] item by (auto simp: merged_at_def values_at_def)
    with Some item Cons.IH [of e] show ?thesis by simp
  qed
qed (simp add: merged_at_def values_at_def)

lemma put_items_append:
  "put_items f (xs @ ys) d = Option.bind (put_items f xs d) (put_items f ys)"
  by (induction xs arbitrary: d) (auto simp: bind_assoc [symmetric] split: Option.bind_splits)

lemma put_items_keys:
  "put_items f items d = Some d' \<Longrightarrow> distinct (map fst d) \<Longrightarrow>
     distinct (map fst d') \<and> fst ` set d' = fst ` set d \<union> fst ` set items"
proof (induction items arbitrary: d)
  case (Cons item items)
  obtain j x where item: "item = (j, x)" by (cases item)
  from Cons.prems item obtain e where e: "put_item f j x d = Some e" "put_items f items e = Some d'"
    by (cases "put_item f j x d") auto
  obtain y where y: "e = AList.update j y d"
    using e(1) by (auto simp: put_item_def split: option.splits)
  have "distinct (map fst e)" using Cons.prems(2) y by (simp add: distinct_update)
  moreover have "fst ` set e = insert j (fst ` set d)"
    using y dom_update [of j y d] by simp
  ultimately show ?case using Cons.IH [OF e(2)] item by auto
qed simp

text \<open>The order of the items does not matter.\<close>

lemma values_at_perm:
  assumes "mset xs = mset ys"
  shows "mset (values_at k xs) = mset (values_at k ys)"
  using assms by (simp add: values_at_def mset_map mset_filter)

text \<open>Two merges that agree on the values a dict can hold under its keys.\<close>

lemma put_items_cong:
  assumes "\<And>k a x. P k a \<Longrightarrow> P k x \<Longrightarrow> f a x = g a x"
    and "\<And>k a x b. P k a \<Longrightarrow> P k x \<Longrightarrow> g a x = Some b \<Longrightarrow> P k b"
    and "\<And>k x. (k, x) \<in> set items \<Longrightarrow> P k x" "\<And>k a. map_of d k = Some a \<Longrightarrow> P k a"
  shows "put_items f items d = put_items g items d"
  using assms(3,4)
proof (induction items arbitrary: d)
  case (Cons item items)
  obtain k x where item: "item = (k, x)" by (cases item)
  have x: "P k x" using Cons.prems(1) [of k x] item by simp
  have same: "put_item f k x d = put_item g k x d"
    using Cons.prems(2) assms(1) [OF _ x] by (auto simp: put_item_def split: option.split)
  show ?case
  proof (cases "put_item g k x d")
    case None
    with same item show ?thesis by simp
  next
    case (Some e)
    have keep: "P j a" if "map_of e j = Some a" for j a
    proof (cases "j = k")
      case False
      with that put_item_absorb [OF Some, of j] Cons.prems(2) show ?thesis by simp
    next
      case True
      show ?thesis
      proof (cases "map_of d k")
        case None
        with that True put_item_absorb [OF Some, of j] x show ?thesis by simp
      next
        case (Some b)
        have "g b x = Some a"
          using that True put_item_absorb [OF \<open>put_item g k x d = Some e\<close>, of j] Some
          by (cases "g b x") auto
        from assms(2) [OF Cons.prems(2) [OF Some] x this] True show ?thesis by simp
      qed
    qed
    have "put_items f items e = put_items g items e"
      by (rule Cons.IH) (use Cons.prems(1) keep in auto)
    with Some same item show ?thesis by simp
  qed
qed simp

text \<open>A dict is determined by its keys and what it holds under each.\<close>

lemma sort_key_eqI:
  fixes d e :: "('k::linorder \<times> 'a) list"
  assumes "distinct (map fst d)" "distinct (map fst e)" "map_of d = map_of e"
  shows "sort_key fst d = sort_key fst e"
proof -
  have as_map: "sort_key fst x = map (\<lambda>k. (k, the (map_of x k))) (sort (map fst x))"
    if "distinct (map fst x)" for x :: "('k \<times> 'a) list"
  proof -
    have "map fst (sort_key fst x) = sort (map fst x)"
      by (rule properties_for_sort [symmetric]) simp_all
    moreover have "sort_key fst x = map (\<lambda>k. (k, the (map_of x k))) (map fst (sort_key fst x))"
    proof -
      have "(fst p, the (map_of x (fst p))) = p" if "p \<in> set x" for p
        using map_of_is_SomeI [OF \<open>distinct (map fst x)\<close>, of "fst p" "snd p"] that by simp
      then have "map (\<lambda>p. (fst p, the (map_of x (fst p)))) (sort_key fst x) = sort_key fst x"
        by (intro map_idI) simp
      then show ?thesis by (simp add: comp_def)
    qed
    ultimately show ?thesis by simp
  qed
  have "set (map fst d) = set (map fst e)"
    using arg_cong [OF assms(3), of dom] by (simp add: dom_map_of_conv_image_fst)
  then have "sort (map fst d) = sort (map fst e)"
    using assms(1,2) by (metis sorted_list_of_set_sort_remdups distinct_remdups_id)
  then show ?thesis using as_map [OF assms(1)] as_map [OF assms(2)] assms(3) by simp
qed

lemma merged_at_perm:
  assumes "partial_merge f" "mset xs = mset ys"
  shows "merged_at f xs d k = merged_at f ys d k"
  unfolding merged_at_def
  by (rule partial_merge.fold_absorb_perm [OF assms(1) values_at_perm [OF assms(2)]])

lemma put_items_perm:
  fixes xs ys :: "('k::linorder \<times> 'a) list"
  assumes "partial_merge f" "mset xs = mset ys" "distinct (map fst d)"
  shows "map_option (sort_key fst) (put_items f xs d) = map_option (sort_key fst) (put_items f ys d)"
proof (cases "put_items f xs d")
  case None
  then have "put_items f ys d = None"
    using merged_at_perm [OF assms(1,2)] by (simp add: put_items_None)
  with None show ?thesis by simp
next
  case (Some x)
  then have "put_items f ys d \<noteq> None"
    using merged_at_perm [OF assms(1,2), of d] put_items_None [of f xs d] put_items_None [of f ys d]
    by auto
  then obtain y where y: "put_items f ys d = Some y" by auto
  have "map_of x = map_of y"
    using put_items_Some [OF Some] put_items_Some [OF y] merged_at_perm [OF assms(1,2), of d]
    by (metis option.inject ext)
  then have "sort_key fst x = sort_key fst y"
    using put_items_keys [OF Some assms(3)] put_items_keys [OF y assms(3)]
    by (intro sort_key_eqI) auto
  with Some y show ?thesis by simp
qed

section \<open>Results with an error\<close>

fun ok :: "'e + 'a \<Rightarrow> 'a option" where
  "ok (Inr a) = Some a"
| "ok (Inl e) = None"

fun and_then :: "'e + 'a \<Rightarrow> ('a \<Rightarrow> 'e + 'b) \<Rightarrow> 'e + 'b" where
  "and_then (Inr a) f = f a"
| "and_then (Inl e) f = Inl e"

fun map_result :: "('x \<Rightarrow> 'e + 'y) \<Rightarrow> 'x list \<Rightarrow> 'e + 'y list" where
  "map_result f [] = Inr []"
| "map_result f (x # xs) = and_then (f x) (\<lambda>y. and_then (map_result f xs) (\<lambda>ys. Inr (y # ys)))"

text \<open>\<open>for k in ks: d[k] = f(k)\<close>.\<close>

fun assign_each :: "('k \<Rightarrow> 'e + 'a) \<Rightarrow> 'k list \<Rightarrow> ('k \<Rightarrow> 'a) \<Rightarrow> 'e + ('k \<Rightarrow> 'a)" where
  "assign_each f [] d = Inr d"
| "assign_each f (k # ks) d = and_then (f k) (\<lambda>x. assign_each f ks (d(k := x)))"

fun put_each ::
    "('a \<Rightarrow> 'a \<Rightarrow> 'e + 'a) \<Rightarrow> ('k \<times> 'a) list \<Rightarrow> ('k \<times> 'a) list \<Rightarrow> 'e + ('k \<times> 'a) list" where
  "put_each f [] d = Inr d"
| "put_each f ((k, x) # items) d =
     (case map_of d k of
        None \<Rightarrow> put_each f items (AList.update k x d)
      | Some a \<Rightarrow> and_then (f a x) (\<lambda>b. put_each f items (AList.update k b d)))"

lemma ok_and_then: "ok (and_then r f) = Option.bind (ok r) (\<lambda>a. ok (f a))"
  by (cases r) simp_all

lemma and_then_Inr: "and_then r f = Inr x \<longleftrightarrow> (\<exists>a. r = Inr a \<and> f a = Inr x)"
  by (cases r) auto

lemma ok_if: "ok (if c then r else s) = (if c then ok r else ok s)"
  by simp

lemma ok_Some: "ok r = Some a \<longleftrightarrow> r = Inr a"
  by (cases r) auto

lemma ok_None: "ok r = None \<longleftrightarrow> (\<exists>e. r = Inl e)"
  by (cases r) auto

lemma ok_put_each: "ok (put_each f items d) = put_items (\<lambda>a b. ok (f a b)) items d"
proof (induction items arbitrary: d)
  case (Cons item items)
  obtain k x where "item = (k, x)" by (cases item)
  then show ?case
    by (cases "map_of d k") (auto simp: put_item_def ok_and_then Cons.IH split: Option.bind_splits)
qed simp

lemma ok_assign_each:
  "distinct ks \<Longrightarrow> ok (assign_each f ks d) =
     (if list_all (\<lambda>k. ok (f k) \<noteq> None) ks
      then Some (\<lambda>k. if k \<in> set ks then the (ok (f k)) else d k) else None)"
proof (induction ks arbitrary: d)
  case (Cons k ks)
  show ?case
  proof (cases "f k")
    case (Inr x)
    then show ?thesis using Cons by (auto simp: fun_eq_iff)
  qed simp
qed simp

text \<open>Assigning every key of a type in turn is the merge of families.\<close>

lemma ok_assign_family:
  assumes "distinct ks" "set ks = UNIV"
  shows "ok (assign_each (\<lambda>k. f (u k) (v k)) ks u) = merge_family ks (\<lambda>a b. ok (f a b)) u v"
  using assms by (simp add: ok_assign_each merge_family_def)

end
