(* ===== verification/Ingest_Merge.thy ===== *)
theory Ingest_Merge
  imports Partial_Merge Json_Documents
begin

text \<open>
  The production payload of the enterprise agent (ten quantities, eleven atomic measurements)
  and \<open>_merge_machine_payloads\<close> of \<open>five_quantity_runtime.py\<close>, which rebuilds a month draft
  from the latest snapshot of every source. Payloads are JSON documents as \<open>jcs_json\<close> writes
  them, so a number is the rational it denotes and a whole number is an integer.
\<close>

section \<open>The payload\<close>

datatype metric =
    Ventilation | Electricity | Detonators | Explosives | Mine_Entry | Production
  | Extraction | Sales | Transport | Wash_Feed | Invoiced

datatype shift_key = Zero_Shift | Eight_Shift | Four_Shift

definition metrics :: "metric list" where
  "metrics = [Ventilation, Electricity, Detonators, Explosives, Mine_Entry, Production,
     Extraction, Sales, Transport, Wash_Feed, Invoiced]"

definition shift_keys :: "shift_key list" where
  "shift_keys = [Zero_Shift, Eight_Shift, Four_Shift]"

fun metric_text :: "metric \<Rightarrow> string" where
  "metric_text Ventilation = ''ventilation_m3_min''"
| "metric_text Electricity = ''electricity_kwh''"
| "metric_text Detonators = ''detonators_count''"
| "metric_text Explosives = ''explosives_kg''"
| "metric_text Mine_Entry = ''mine_entry_persons''"
| "metric_text Production = ''production_t''"
| "metric_text Extraction = ''extraction_t''"
| "metric_text Sales = ''sales_t''"
| "metric_text Transport = ''transport_t''"
| "metric_text Wash_Feed = ''wash_feed_t''"
| "metric_text Invoiced = ''invoiced_quantity_t''"

fun metric_unit :: "metric \<Rightarrow> string" where
  "metric_unit Ventilation = ''m3/min''"
| "metric_unit Electricity = ''kWh''"
| "metric_unit Detonators = ''count''"
| "metric_unit Explosives = ''kg''"
| "metric_unit Mine_Entry = ''person''"
| "metric_unit _ = ''t''"

fun shift_text :: "shift_key \<Rightarrow> string" where
  "shift_text Zero_Shift = ''zero_shift''"
| "shift_text Eight_Shift = ''eight_shift''"
| "shift_text Four_Shift = ''four_shift''"

record measurement =
  ms_code :: string
  ms_value :: "rat option"
  ms_unit :: string
  ms_aggregation :: string
  ms_flags :: "string list"
  ms_refs :: "string list"

text \<open>The measurements of a shift may omit metrics; those of a day may not.\<close>

record shift =
  sf_code :: string
  sf_start :: string
  sf_end :: string
  sf_measures :: "metric \<Rightarrow> measurement option"

record day =
  dy_date :: string
  dy_state :: string
  dy_total :: "metric \<Rightarrow> measurement"
  dy_shifts :: "shift_key \<Rightarrow> shift"

record evidence =
  ev_id :: string
  ev_mode :: string
  ev_system :: string
  ev_record :: string
  ev_location :: "string option"
  ev_captured :: string
  ev_media :: "string option"
  ev_sha :: string
  ev_normalization :: "string option"

record processing =
  pr_normalized :: bool
  pr_assisted :: bool
  pr_record_sha :: string
  pr_model_sha :: "string option"

record payload =
  pl_mine :: json
  pl_timezone :: string
  pl_start :: string
  pl_end :: string
  pl_closed :: string
  pl_days :: "day list"
  pl_sources :: "evidence list"
  pl_processing :: processing
  pl_month :: "string option"
  pl_context :: "json option"

section \<open>The document of a payload\<close>

definition opt_item :: "string \<Rightarrow> json option \<Rightarrow> (string \<times> json) list" where
  "opt_item k x = (case x of None \<Rightarrow> [] | Some v \<Rightarrow> [(k, v)])"

definition measurement_json :: "measurement \<Rightarrow> json" where
  "measurement_json m = JObj
     [(''metric_code'', JStr (ms_code m)),
      (''value'', case ms_value m of None \<Rightarrow> JNull | Some v \<Rightarrow> JNum v),
      (''unit'', JStr (ms_unit m)), (''aggregation'', JStr (ms_aggregation m)),
      (''quality_flags'', json_strs (ms_flags m)), (''source_refs'', json_strs (ms_refs m))]"

definition shift_json :: "shift \<Rightarrow> json" where
  "shift_json s = JObj
     [(''shift_code'', JStr (sf_code s)), (''start_at'', JStr (sf_start s)),
      (''end_at'', JStr (sf_end s)),
      (''measurements'', JObj (concat (map
         (\<lambda>m. opt_item (metric_text m) (map_option measurement_json (sf_measures s m))) metrics)))]"

definition day_json :: "day \<Rightarrow> json" where
  "day_json d = JObj
     [(''date'', JStr (dy_date d)), (''operating_state'', JStr (dy_state d)),
      (''reported_quantity'', JObj
         [(''daily_total'',
             JObj (map (\<lambda>m. (metric_text m, measurement_json (dy_total d m))) metrics)),
          (''shifts'', JObj (map (\<lambda>k. (shift_text k, shift_json (dy_shifts d k))) shift_keys))])]"

definition evidence_json :: "evidence \<Rightarrow> json" where
  "evidence_json e = JObj
     ([(''source_id'', JStr (ev_id e)), (''acquisition_mode'', JStr (ev_mode e)),
       (''source_system'', JStr (ev_system e)), (''source_record_id'', JStr (ev_record e)),
       (''captured_at'', JStr (ev_captured e)), (''evidence_sha256'', JStr (ev_sha e))]
      @ opt_item ''source_location'' (map_option JStr (ev_location e))
      @ opt_item ''media_type'' (map_option JStr (ev_media e))
      @ opt_item ''normalization'' (map_option JStr (ev_normalization e)))"

definition processing_json :: "processing \<Rightarrow> json" where
  "processing_json p = JObj
     ([(''normalization_performed'', JBool (pr_normalized p)),
       (''model_assistance_used'', JBool (pr_assisted p)),
       (''processing_record_sha256'', JStr (pr_record_sha p))]
      @ opt_item ''model_output_sha256'' (map_option JStr (pr_model_sha p)))"

definition payload_json :: "payload \<Rightarrow> json" where
  "payload_json p = JObj
     ([(''mine'', pl_mine p), (''timezone'', JStr (pl_timezone p)),
       (''period_start'', JStr (pl_start p)), (''period_end'', JStr (pl_end p)),
       (''closed_at'', JStr (pl_closed p)), (''days'', JArr (map day_json (pl_days p))),
       (''sources'', JArr (map evidence_json (pl_sources p))),
       (''agent_processing'', processing_json (pl_processing p))]
      @ opt_item ''reporting_month'' (map_option JStr (pl_month p))
      @ opt_item ''comparison_context'' (pl_context p))"

section \<open>Errors and the environment\<close>

datatype ingest_error =
    Conflict string | Bad_Request string | Blocked string | Bad_Content | Missing_Item | Not_Found string | Over_Quota string
  | Constraint_Violated | Unexpected

text \<open>
  Library functions: the canonical text of a document (RFC 8785), SHA-256 in hexadecimal, and
  the instant an ISO 8601 text with an offset denotes (\<open>parse_aware_datetime\<close>, which calls
  \<open>datetime.fromisoformat\<close>), if it denotes one.
\<close>

record ingest_env =
  jcs_text :: "json \<Rightarrow> string"
  digest_hex :: "string \<Rightarrow> string"
  instant :: "string \<Rightarrow> rat option"

definition sha256_jcs :: "ingest_env \<Rightarrow> json \<Rightarrow> string" where
  "sha256_jcs e d = digest_hex e (jcs_text e d)"

type_synonym 'a result = "ingest_error + 'a"

section \<open>Merging\<close>

definition sorted_union :: "string list \<Rightarrow> string list \<Rightarrow> string list" where
  "sorted_union xs ys = sort (remdups (xs @ ys))"

definition merge_measurement :: "measurement \<Rightarrow> measurement \<Rightarrow> measurement result" where
  "merge_measurement previous incoming =
     (if ms_code previous \<noteq> ms_code incoming \<or> ms_unit previous \<noteq> ms_unit incoming
           \<or> ms_aggregation previous \<noteq> ms_aggregation incoming
      then Inl (Conflict ''structure'')
      else if ms_value previous = None \<and> ms_value incoming \<noteq> None then Inr incoming
      else if ms_value previous \<noteq> None \<and> ms_value incoming = None then Inr previous
      else if ms_value previous \<noteq> ms_value incoming then Inl (Conflict ''value'')
      else Inr (previous
        \<lparr>ms_flags := sorted_union (ms_flags previous) (ms_flags incoming),
         ms_refs := sorted_union (ms_refs previous) (ms_refs incoming)\<rparr>))"

definition merge_shift_measure ::
    "measurement option \<Rightarrow> measurement option \<Rightarrow> measurement option result" where
  "merge_shift_measure previous incoming =
     (case (previous, incoming) of
        (Some p, Some q) \<Rightarrow> and_then (merge_measurement p q) (\<lambda>m. Inr (Some m))
      | _ \<Rightarrow> Inl Missing_Item)"

definition merge_shift :: "shift \<Rightarrow> shift \<Rightarrow> shift result" where
  "merge_shift old new =
     (if sf_code old \<noteq> sf_code new \<or> sf_start old \<noteq> sf_start new \<or> sf_end old \<noteq> sf_end new
      then Inl (Conflict ''shift'')
      else and_then
        (assign_each (\<lambda>m. merge_shift_measure (sf_measures old m) (sf_measures new m))
          metrics (sf_measures old))
        (\<lambda>measures. Inr (old\<lparr>sf_measures := measures\<rparr>)))"

definition merge_state :: "string \<Rightarrow> string \<Rightarrow> string result" where
  "merge_state old new =
     (if old = ''unknown'' then Inr new
      else if new \<noteq> ''unknown'' \<and> old \<noteq> new then Inl (Conflict ''state'')
      else Inr old)"

definition merge_day :: "day \<Rightarrow> day \<Rightarrow> day result" where
  "merge_day old new =
     and_then (merge_state (dy_state old) (dy_state new)) (\<lambda>state.
     and_then
       (assign_each (\<lambda>m. merge_measurement (dy_total old m) (dy_total new m)) metrics (dy_total old))
       (\<lambda>total.
     and_then
       (assign_each (\<lambda>k. merge_shift (dy_shifts old k) (dy_shifts new k)) shift_keys (dy_shifts old))
       (\<lambda>shifts.
     Inr (old\<lparr>dy_state := state, dy_total := total, dy_shifts := shifts\<rparr>))))"

definition merge_evidence :: "ingest_env \<Rightarrow> evidence \<Rightarrow> evidence \<Rightarrow> evidence result" where
  "merge_evidence e previous incoming =
     (if sha256_jcs e (evidence_json previous) \<noteq> sha256_jcs e (evidence_json incoming)
      then Inl (Conflict ''source'') else Inr incoming)"

definition evidence_items :: "payload \<Rightarrow> (string \<times> evidence) list" where
  "evidence_items p = map (\<lambda>v. (ev_id v, v)) (pl_sources p)"

definition day_items :: "payload \<Rightarrow> (string \<times> day) list" where
  "day_items p = map (\<lambda>d. (dy_date d, d)) (pl_days p)"

fun merge_rest ::
    "ingest_env \<Rightarrow> payload \<Rightarrow> payload list \<Rightarrow> (string \<times> evidence) list \<Rightarrow> (string \<times> day) list \<Rightarrow>
      ((string \<times> evidence) list \<times> (string \<times> day) list) result" where
  "merge_rest e first [] sources days = Inr (sources, days)"
| "merge_rest e first (p # ps) sources days =
     (if sha256_jcs e (pl_mine p) \<noteq> sha256_jcs e (pl_mine first) then Inl (Conflict ''mine'')
      else if sha256_jcs e (JStr (pl_timezone p)) \<noteq> sha256_jcs e (JStr (pl_timezone first))
      then Inl (Conflict ''timezone'')
      else and_then (put_each (merge_evidence e) (evidence_items p) sources) (\<lambda>sources'.
           and_then (put_each merge_day (day_items p) days) (\<lambda>days'.
           merge_rest e first ps sources' days')))"

text \<open>\<open>max(texts, key=...)\<close> is the first of the greatest; a text without an instant is an error.\<close>

fun latest :: "(string \<Rightarrow> rat option) \<Rightarrow> string \<Rightarrow> string list \<Rightarrow> string result" where
  "latest moment t [] = (if moment t = None then Inl (Bad_Request ''closed_at'') else Inr t)"
| "latest moment t (u # us) =
     (case (moment t, moment u) of
        (Some a, Some b) \<Rightarrow> latest moment (if a < b then u else t) us
      | _ \<Rightarrow> Inl (Bad_Request ''closed_at''))"

definition merge_record_json :: "ingest_env \<Rightarrow> payload list \<Rightarrow> nat \<Rightarrow> nat \<Rightarrow> json" where
  "merge_record_json e ps days sources = JObj
     [(''kind'', JStr ''machine_latest_source_snapshot_merge/v1''),
      (''contribution_payload_sha256'',
         json_strs (sort (map (\<lambda>p. sha256_jcs e (payload_json p)) ps))),
      (''day_count'', json_int (int days)), (''source_count'', json_int (int sources))]"

fun merge_machine_payloads :: "ingest_env \<Rightarrow> payload list \<Rightarrow> payload result" where
  "merge_machine_payloads e [] = Inl (Bad_Request ''empty'')"
| "merge_machine_payloads e (p # ps) =
     and_then (merge_rest e p ps (dict_of (evidence_items p)) (dict_of (day_items p)))
       (\<lambda>(sources, days).
        let day_list = map snd (sort_key fst days);
            source_list = map snd (sort_key fst sources)
        in if day_list = [] then Inl Missing_Item
           else and_then (latest (instant e) (pl_closed p) (map pl_closed ps)) (\<lambda>closed.
             Inr (p\<lparr>pl_days := day_list, pl_start := dy_date (hd day_list),
                    pl_end := dy_date (List.last day_list), pl_sources := source_list,
                    pl_closed := closed,
                    pl_processing :=
                      \<lparr>pr_normalized = True, pr_assisted = False,
                       pr_record_sha = sha256_jcs e (merge_record_json e (p # ps)
                         (length day_list) (length source_list)),
                       pr_model_sha = None\<rparr>\<rparr>)))"

end
