(* ===== verification/Ingest_Validation.thy ===== *)
theory Ingest_Validation
  imports Ingest_Merge
begin

text \<open>
  \<open>validate_five_quantity_payload\<close> of \<open>five_quantity_runtime.py\<close> for a draft of the current
  contract (ten quantities, not confirmed), and \<open>_v2_machine_preflight\<close>. The checks that an
  object has the right fields are the types of the payload; every refusal is a \<open>ValueError\<close>.
\<close>

section \<open>The identity of the mine\<close>

record identity =
  id_mine_id :: string
  id_operator :: string
  id_mine :: json
  id_timezone :: string
  id_context :: "json option"

section \<open>Texts and numbers\<close>

text \<open>\<open>parse_aware_datetime\<close> and \<open>_iso_second\<close>: the instant, and without microseconds.\<close>

definition second_of :: "ingest_env \<Rightarrow> string \<Rightarrow> rat option" where
  "second_of e t =
     (case instant e t of
        None \<Rightarrow> None
      | Some r \<Rightarrow> if r = of_int \<lfloor>r\<rfloor> then Some r else None)"

text \<open>\<open>_text\<close>: a text of 1 to \<open>n\<close> characters that is not blank, without control characters.\<close>

definition plain_text :: "nat \<Rightarrow> string \<Rightarrow> bool" where
  "plain_text n t \<longleftrightarrow> python_strip t \<noteq> [] \<and> length t \<le> n \<and>
     list_all (\<lambda>c. 32 \<le> (of_char c :: nat) \<or> of_char c = (9 :: nat) \<or> of_char c = (10 :: nat)) t"

definition allowed_flags :: "string list" where
  "allowed_flags = [''reported'', ''missing'', ''unavailable'', ''not_applicable'', ''partial'',
     ''unit_converted'', ''corrected'', ''source_format_warning'']"

definition missing_flags :: "string list" where
  "missing_flags = [''missing'', ''unavailable'', ''not_applicable'']"

fun aggregations :: "metric \<Rightarrow> string list" where
  "aggregations Ventilation = [''time_weighted_average'', ''snapshot'']"
| "aggregations _ = [''sum'']"

definition required_shift_metrics :: "metric list" where
  "required_shift_metrics = [Ventilation, Electricity, Detonators, Explosives, Mine_Entry,
     Production, Extraction]"

definition whole :: "rat \<Rightarrow> bool" where
  "whole v \<longleftrightarrow> v = of_int \<lfloor>v\<rfloor>"

section \<open>Parts of a payload\<close>

definition valid_measurement :: "string list \<Rightarrow> metric \<Rightarrow> measurement \<Rightarrow> bool" where
  "valid_measurement source_ids m x \<longleftrightarrow>
     ms_code x = metric_text m \<and> ms_unit x = metric_unit m \<and>
     ms_aggregation x \<in> set (aggregations m) \<and>
     (case ms_value x of
        None \<Rightarrow> True
      | Some v \<Rightarrow> 0 \<le> v \<and> v \<le> 1000000000000000 \<and>
          (m = Detonators \<or> m = Mine_Entry \<longrightarrow> whole v)) \<and>
     ms_flags x \<noteq> [] \<and> length (ms_flags x) \<le> 8 \<and> distinct (ms_flags x) \<and>
     list_all (\<lambda>f. f \<in> set allowed_flags) (ms_flags x) \<and>
     (ms_value x = None \<longleftrightarrow> list_ex (\<lambda>f. f \<in> set missing_flags) (ms_flags x)) \<and>
     ms_refs x \<noteq> [] \<and> length (ms_refs x) \<le> 16 \<and> distinct (ms_refs x) \<and>
     list_all (\<lambda>r. r \<in> set source_ids) (ms_refs x)"

definition valid_shift :: "ingest_env \<Rightarrow> string list \<Rightarrow> shift \<Rightarrow> bool" where
  "valid_shift e source_ids s \<longleftrightarrow>
     (case (instant e (sf_start s), instant e (sf_end s)) of
        (Some b, Some f) \<Rightarrow> b < f
      | _ \<Rightarrow> False) \<and>
     list_all (\<lambda>m. sf_measures s m \<noteq> None) required_shift_metrics \<and>
     list_all (\<lambda>m. case sf_measures s m of
         None \<Rightarrow> True | Some x \<Rightarrow> valid_measurement source_ids m x) metrics"

definition operating_states :: "string list" where
  "operating_states = [''producing'', ''stopped'', ''maintenance'', ''restarting'', ''unknown'']"

definition valid_day :: "ingest_env \<Rightarrow> string list \<Rightarrow> rat \<Rightarrow> rat \<Rightarrow> day \<Rightarrow> bool" where
  "valid_day e source_ids start finish d \<longleftrightarrow>
     (case second_of e (dy_date d) of None \<Rightarrow> False | Some t \<Rightarrow> start \<le> t \<and> t \<le> finish) \<and>
     dy_state d \<in> set operating_states \<and>
     list_all (\<lambda>k. valid_shift e source_ids (dy_shifts d k)) shift_keys \<and>
     list_all (\<lambda>m. valid_measurement source_ids m (dy_total d m)) metrics"

definition valid_evidence :: "ingest_env \<Rightarrow> evidence \<Rightarrow> bool" where
  "valid_evidence e v \<longleftrightarrow>
     plain_text 128 (ev_id v) \<and> ev_mode v \<in> {''manual_import'', ''direct_collection''} \<and>
     length (ev_sha v) = 64 \<and> instant e (ev_captured v) \<noteq> None"

section \<open>The payload\<close>

definition source_ids_of :: "payload \<Rightarrow> string list" where
  "source_ids_of p = map (\<lambda>v. python_strip (ev_id v)) (pl_sources p)"

definition valid_payload :: "ingest_env \<Rightarrow> identity \<Rightarrow> payload \<Rightarrow> bool" where
  "valid_payload e i p \<longleftrightarrow>
     canonical (pl_mine p) = canonical (id_mine i) \<and>
     map_option canonical (pl_context p) = map_option canonical (id_context i) \<and>
     (case (second_of e (pl_start p), second_of e (pl_end p)) of
        (Some start, Some finish) \<Rightarrow>
          start \<le> finish \<and>
          list_all (valid_day e (source_ids_of p) start finish) (pl_days p) \<and>
          second_of e (dy_date (hd (pl_days p))) = Some start \<and>
          second_of e (dy_date (List.last (pl_days p))) = Some finish
      | _ \<Rightarrow> False) \<and>
     pl_timezone p = id_timezone i \<and> instant e (pl_closed p) \<noteq> None \<and>
     pl_days p \<noteq> [] \<and> length (pl_days p) \<le> 4096 \<and>
     pl_sources p \<noteq> [] \<and> length (pl_sources p) \<le> 256 \<and>
     distinct (source_ids_of p) \<and> list_all (valid_evidence e) (pl_sources p) \<and>
     sorted_wrt (\<lambda>a b. the (second_of e (dy_date a)) < the (second_of e (dy_date b))) (pl_days p) \<and>
     (pr_assisted (pl_processing p) \<longrightarrow> pr_model_sha (pl_processing p) \<noteq> None)"

definition validate_payload :: "ingest_env \<Rightarrow> identity \<Rightarrow> payload \<Rightarrow> unit result" where
  "validate_payload e i p = (if valid_payload e i p then Inr () else Inl (Bad_Request ''payload''))"

section \<open>The preflight check\<close>

text \<open>
  Missing values and days whose shifts do not add up to the daily total, within a relative
  tolerance of one millionth. The arithmetic is exact where the code adds floats.
\<close>

definition sum_metrics :: "metric list" where
  "sum_metrics = filter (\<lambda>m. m \<noteq> Ventilation) required_shift_metrics"

definition shift_value :: "day \<Rightarrow> shift_key \<Rightarrow> metric \<Rightarrow> rat option" where
  "shift_value d k m = Option.bind (sf_measures (dy_shifts d k) m) ms_value"

definition shift_measured :: "day \<Rightarrow> bool" where
  "shift_measured d \<longleftrightarrow>
     list_all (\<lambda>k. list_all (\<lambda>m. sf_measures (dy_shifts d k) m \<noteq> None) required_shift_metrics) shift_keys"

definition missing_values :: "day \<Rightarrow> nat" where
  "missing_values d =
     length (filter (\<lambda>m. ms_value (dy_total d m) = None) metrics) +
     length (filter (\<lambda>(k, m). shift_value d k m = None) (List.product shift_keys required_shift_metrics))"

definition mismatched :: "day \<Rightarrow> metric \<Rightarrow> bool" where
  "mismatched d m =
     (case (ms_value (dy_total d m), map (\<lambda>k. shift_value d k m) shift_keys) of
        (Some day_value, [Some a, Some b, Some c]) \<Rightarrow>
          \<bar>day_value - (a + b + c)\<bar> > max (1 / 1000000) (\<bar>day_value\<bar> / 1000000)
      | _ \<Rightarrow> False)"

record preflight =
  pf_ready :: bool
  pf_revision :: nat
  pf_payload_sha :: string
  pf_missing :: nat
  pf_mismatches :: "(string \<times> metric) list"
  pf_sources :: nat

definition machine_preflight :: "ingest_env \<Rightarrow> payload \<Rightarrow> nat \<Rightarrow> preflight result" where
  "machine_preflight e p revision =
     (if second_of e (pl_start p) = None \<or> second_of e (pl_end p) = None
      then Inl (Bad_Request ''period'')
      else if \<not> list_all shift_measured (pl_days p) then Inl Missing_Item
      else
        let mismatches = concat (map (\<lambda>d. map (\<lambda>m. (dy_date d, m)) (filter (mismatched d) sum_metrics))
              (pl_days p))
        in Inr \<lparr>pf_ready = (mismatches = []), pf_revision = revision,
                pf_payload_sha = sha256_jcs e (payload_json p),
                pf_missing = sum_list (map missing_values (pl_days p)),
                pf_mismatches = mismatches, pf_sources = length (pl_sources p)\<rparr>)"

end
