(* ===== verification/Ingest_Store.thy ===== *)
theory Ingest_Store
  imports Ingest_Validation
begin

text \<open>
  The tables the ingestion of machine data keeps (\<open>storage.py\<close>, \<open>five_quantity_runtime.py\<close>),
  the hash-chained audit table, replay protection, and the event saga: claiming, completing,
  releasing and rejecting one connector event. Each method is one transaction. Columns named
  \<open>..._json\<close> hold the document their text denotes, \<open>payload_json\<close> the payload.
\<close>

section \<open>Tables\<close>

datatype event_status = Bound | Imported | Event_Completed | Event_Rejected

record event_row =
  iv_id :: string
  iv_client :: string
  iv_event :: string
  iv_request_sha :: string
  iv_draft_key :: string
  iv_draft :: "string option"
  iv_source :: string
  iv_revision :: nat
  iv_source_name :: string
  iv_source_system :: string
  iv_format :: string
  iv_filename :: "string option"
  iv_observed :: string
  iv_coverage :: "string option"
  iv_trigger :: bool
  iv_workflow :: string
  iv_status :: event_status
  iv_summary :: "json option"
  iv_draft_revision :: "nat option"
  iv_draft_sha :: "string option"
  iv_preflight :: "preflight option"
  iv_failure :: "json option"
  iv_result :: "json option"
  iv_owner :: "string option"
  iv_expires :: "rat option"
  iv_created :: string
  iv_updated :: string
  iv_completed :: "string option"

record contribution_row =
  ct_client :: string
  ct_draft_key :: string
  ct_source :: string
  ct_revision :: nat
  ct_event :: string
  ct_ingestion :: string
  ct_import :: string
  ct_draft :: string
  ct_content_sha :: string
  ct_observed :: string
  ct_coverage :: string
  ct_payload :: payload
  ct_created :: string
  ct_updated :: string

record artifact_row =
  ar_client :: string
  ar_draft_key :: string
  ar_source :: string
  ar_content_sha :: string
  ar_import :: string
  ar_ingestion :: string
  ar_created :: string

record binding_row =
  bn_client :: string
  bn_draft_key :: string
  bn_draft :: string
  bn_scope :: string
  bn_revision :: nat
  bn_sha :: string
  bn_created :: string

datatype draft_status = Ready_Review | Queued | Submitted | Acknowledged | Discarded

record draft_row =
  fd_id :: string
  fd_import :: string
  fd_revision :: nat
  fd_submission_revision :: nat
  fd_correlation :: "string option"
  fd_predecessor :: "string option"
  fd_predecessor_sha :: "string option"
  fd_current :: bool
  fd_status :: draft_status
  fd_payload :: payload
  fd_confirmation :: "json option"
  fd_message :: "string option"
  fd_created_by :: string
  fd_actor :: string
  fd_preparer :: "string option"
  fd_prepared_revision :: "nat option"
  fd_created :: string
  fd_updated :: string

datatype import_status = Import_Ready | Import_Discarded | Automatic_Ready | Needs_Review

record import_row =
  im_id :: string
  im_content_sha :: string
  im_filename :: string
  im_mode :: string
  im_path :: "string option"
  im_status :: import_status
  im_draft :: "string option"
  im_suggestions :: json
  im_created :: string

record submission_row =
  fo_message :: string
  fo_draft :: string
  fo_key :: string

datatype health_outcome = Success_Nonempty | Success_Empty | Source_Error | Source_Waiting

record health_event_row =
  he_client :: string
  he_event :: string
  he_request_sha :: string
  he_result :: json
  he_applied :: bool
  he_created :: string

record source_state_row =
  ss_client :: string
  ss_draft_key :: string
  ss_scope :: string
  ss_source :: string
  ss_system :: string
  ss_required :: bool
  ss_freshness :: int
  ss_outcome :: health_outcome
  ss_attempted :: string
  ss_completed :: string
  ss_success :: "string option"
  ss_nonempty :: "string option"
  ss_count :: nat
  ss_coverage :: "string option"
  ss_error :: "string option"
  ss_snapshot_sha :: "string option"
  ss_autofill_event :: "string option"
  ss_revision :: "nat option"
  ss_last_event :: string
  ss_updated :: string

record nonce_row =
  no_client :: string
  no_request :: string
  no_request_sha :: string
  no_timestamp :: int
  no_created :: string

record fq_audit_row =
  fa_sequence :: nat
  fa_type :: string
  fa_actor :: string
  fa_occurred :: string
  fa_details :: json
  fa_previous :: string
  fa_hash :: string

text \<open>\<open>fd_current\<close>: the draft's contract is the current one, the ten quantities.\<close>

record agent_db =
  events :: "event_row list"
  contributions :: "contribution_row list"
  artifacts :: "artifact_row list"
  bindings :: "binding_row list"
  drafts :: "draft_row list"
  import_files :: "import_row list"
  submissions :: "submission_row list"
  health_events :: "health_event_row list"
  source_states :: "source_state_row list"
  nonces :: "nonce_row list"
  audit :: "fq_audit_row list"
  audit_anchor :: "(nat \<times> string) option"

type_synonym 'a aop = "(agent_db, ingest_error, 'a) op"

text \<open>One transaction: an exception rolls back what the body wrote.\<close>

definition one_transaction :: "'a aop \<Rightarrow> 'a aop" where
  "one_transaction m = transaction (\<lambda>_. False) (\<lambda>before _. before) m"

definition of_result :: "'a result \<Rightarrow> 'a aop" where
  "of_result r = (case r of Inl x \<Rightarrow> raise x | Inr a \<Rightarrow> ret a)"

definition found :: "ingest_error \<Rightarrow> 'a option \<Rightarrow> 'a aop" where
  "found x r = (case r of None \<Rightarrow> raise x | Some a \<Rightarrow> ret a)"

text \<open>
  \<open>time.time()\<close> and \<open>utc_now()\<close> are one clock; \<open>utc_text\<close> writes an instant as a text.
\<close>

record moment =
  clock :: rat
  utc_text :: "rat \<Rightarrow> string"

definition now_text :: "moment \<Rightarrow> string" where
  "now_text now = utc_text now (clock now)"

definition text_ago :: "moment \<Rightarrow> rat \<Rightarrow> string" where
  "text_ago now seconds = utc_text now (clock now - seconds)"

section \<open>The audit chain\<close>

definition zero_hash :: string where
  "zero_hash = replicate 64 CHR ''0''"

definition audit_hash :: "ingest_env \<Rightarrow> string \<Rightarrow> nat \<Rightarrow> string \<Rightarrow> string \<Rightarrow> string \<Rightarrow> json \<Rightarrow> string" where
  "audit_hash e previous sequence event actor occurred details = sha256_jcs e (JObj
     [(''previous_hash'', JStr previous), (''sequence'', json_int (int sequence)),
      (''event_type'', JStr event), (''actor'', JStr actor), (''occurred_at'', JStr occurred),
      (''details'', details)])"

fun chain_from :: "ingest_env \<Rightarrow> string \<Rightarrow> nat \<Rightarrow> fq_audit_row list \<Rightarrow> string option" where
  "chain_from e previous n [] = Some previous"
| "chain_from e previous n (r # rs) =
     (if fa_sequence r = n \<and> fa_previous r = previous \<and>
         fa_hash r = audit_hash e previous n (fa_type r) (fa_actor r) (fa_occurred r) (fa_details r)
      then chain_from e (fa_hash r) (Suc n) rs else None)"

definition audit_intact :: "ingest_env \<Rightarrow> agent_db \<Rightarrow> bool" where
  "audit_intact e s \<longleftrightarrow>
     (case chain_from e zero_hash 1 (audit s) of
        None \<Rightarrow> False
      | Some head \<Rightarrow> audit_anchor s = Some (length (audit s), head))"

definition append_fq_audit :: "ingest_env \<Rightarrow> moment \<Rightarrow> string \<Rightarrow> string \<Rightarrow> json \<Rightarrow> unit aop" where
  "append_fq_audit e now event actor details = bind (reading id) (\<lambda>s.
     bind (require (audit_intact e s) (Conflict ''audit'')) (\<lambda>_.
     let sequence = (if audit s = [] then 1 else fa_sequence (List.last (audit s)) + 1);
         previous = (if audit s = [] then zero_hash else fa_hash (List.last (audit s)));
         h = audit_hash e previous sequence event actor (now_text now) details
     in writing (\<lambda>s. s\<lparr>
          audit := audit s @ [\<lparr>fa_sequence = sequence, fa_type = event, fa_actor = actor,
            fa_occurred = now_text now, fa_details = details, fa_previous = previous,
            fa_hash = h\<rparr>],
          audit_anchor := Some (sequence, h)\<rparr>)))"

section \<open>Replay protection\<close>

definition register_connector_request ::
    "moment \<Rightarrow> string \<Rightarrow> string \<Rightarrow> string \<Rightarrow> int \<Rightarrow> unit aop" where
  "register_connector_request now client request sha timestamp = one_transaction (
     bind (writing (\<lambda>s. s\<lparr>nonces :=
       filter (\<lambda>r. \<not> no_created r < text_ago now (30 * 86400)) (nonces s)\<rparr>)) (\<lambda>_.
     bind (reading (\<lambda>s. find (\<lambda>r. no_client r = client \<and> no_request r = request) (nonces s))) (\<lambda>old.
     bind (require (old = None) (Conflict ''request_id'')) (\<lambda>_.
     writing (\<lambda>s. s\<lparr>nonces := nonces s @ [\<lparr>no_client = client, no_request = request,
       no_request_sha = sha, no_timestamp = timestamp, no_created = now_text now\<rparr>]\<rparr>)))))"

section \<open>The saga of one event\<close>

record source_request =
  sr_source :: string
  sr_revision :: nat
  sr_format :: string
  sr_content :: string
  sr_name :: string
  sr_system :: string
  sr_filename :: "string option"
  sr_observed :: string
  sr_coverage :: string

record ingest_request =
  ir_client :: string
  ir_event :: string
  ir_sha :: string
  ir_draft_key :: string
  ir_source :: source_request
  ir_trigger :: bool
  ir_workflow :: string

definition update_event :: "(event_row \<Rightarrow> bool) \<Rightarrow> (event_row \<Rightarrow> event_row) \<Rightarrow> agent_db \<Rightarrow> agent_db" where
  "update_event p f s = s\<lparr>events := map (\<lambda>r. if p r then f r else r) (events s)\<rparr>"

definition event_key :: "string \<Rightarrow> string \<Rightarrow> event_row \<Rightarrow> bool" where
  "event_key client event r \<longleftrightarrow> iv_client r = client \<and> iv_event r = event"

definition lease_free :: "rat \<Rightarrow> event_row \<Rightarrow> bool" where
  "lease_free t r \<longleftrightarrow>
     iv_owner r = None \<or> (case iv_expires r of None \<Rightarrow> True | Some x \<Rightarrow> x \<le> t)"

definition event_quota_exceeded :: "moment \<Rightarrow> string \<Rightarrow> agent_db \<Rightarrow> bool" where
  "event_quota_exceeded now client s \<longleftrightarrow>
     (let recent = filter (\<lambda>r. iv_client r = client \<and> text_ago now 86400 \<le> iv_created r) (events s)
      in 240 \<le> length (filter (\<lambda>r. text_ago now 600 \<le> iv_created r) recent)
         \<or> 5000 \<le> length recent)"

definition binding_quota_exceeded :: "string \<Rightarrow> string \<Rightarrow> agent_db \<Rightarrow> bool" where
  "binding_quota_exceeded client key s \<longleftrightarrow>
     \<not> list_ex (\<lambda>b. bn_client b = client \<and> bn_draft_key b = key) (bindings s)
     \<and> 240 \<le> length (filter (\<lambda>b. bn_client b = client) (bindings s))"

definition source_quota_exceeded :: "string \<Rightarrow> string \<Rightarrow> string \<Rightarrow> agent_db \<Rightarrow> bool" where
  "source_quota_exceeded client key source s \<longleftrightarrow>
     (let known = filter (\<lambda>c. ct_client c = client \<and> ct_draft_key c = key) (contributions s)
      in \<not> list_ex (\<lambda>c. ct_source c = source) known \<and> 32 \<le> length known)"

definition new_event :: "moment \<Rightarrow> ingest_request \<Rightarrow> string \<Rightarrow> rat \<Rightarrow> string \<Rightarrow> event_row" where
  "new_event now q owner expires ingestion =
     \<lparr>iv_id = ingestion, iv_client = ir_client q, iv_event = ir_event q,
      iv_request_sha = ir_sha q, iv_draft_key = ir_draft_key q, iv_draft = None,
      iv_source = sr_source (ir_source q), iv_revision = sr_revision (ir_source q),
      iv_source_name = sr_name (ir_source q), iv_source_system = sr_system (ir_source q),
      iv_format = sr_format (ir_source q), iv_filename = sr_filename (ir_source q),
      iv_observed = sr_observed (ir_source q), iv_coverage = Some (sr_coverage (ir_source q)),
      iv_trigger = ir_trigger q, iv_workflow = ir_workflow q, iv_status = Bound,
      iv_summary = None, iv_draft_revision = None, iv_draft_sha = None, iv_preflight = None,
      iv_failure = None, iv_result = None, iv_owner = Some owner, iv_expires = Some expires,
      iv_created = now_text now, iv_updated = now_text now, iv_completed = None\<rparr>"

text \<open>
  The identifier \<open>ingestion\<close> is the fresh UUID of a row that may be created; the lease lasts
  120 seconds. The result: the row, whether this caller holds its lease, whether it is new.
\<close>

definition claim_connector_ingestion ::
    "moment \<Rightarrow> ingest_request \<Rightarrow> string \<Rightarrow> string \<Rightarrow> (event_row \<times> bool \<times> bool) aop" where
  "claim_connector_ingestion now q owner ingestion = one_transaction (
     bind (reading (\<lambda>s. find (event_key (ir_client q) (ir_event q)) (events s))) (\<lambda>known.
     case known of
       Some r \<Rightarrow>
         if iv_request_sha r \<noteq> ir_sha q then raise (Conflict ''event_id'')
         else if iv_status r \<in> {Event_Completed, Event_Rejected} then ret (r, False, False)
         else if lease_free (clock now) r then
           bind (writing (update_event (\<lambda>x. iv_id x = iv_id r)
             (\<lambda>x. x\<lparr>iv_owner := Some owner, iv_expires := Some (clock now + 120),
                    iv_updated := now_text now\<rparr>))) (\<lambda>_.
           bind (reading (\<lambda>s. find (event_key (ir_client q) (ir_event q)) (events s))) (\<lambda>row.
           bind (found Missing_Item row) (\<lambda>row. ret (row, True, False))))
         else ret (r, False, False)
     | None \<Rightarrow>
         bind (reading id) (\<lambda>s.
         if event_quota_exceeded now (ir_client q) s then raise (Over_Quota ''events'')
         else if binding_quota_exceeded (ir_client q) (ir_draft_key q) s
         then raise (Over_Quota ''drafts'')
         else if source_quota_exceeded (ir_client q) (ir_draft_key q) (sr_source (ir_source q)) s
         then raise (Over_Quota ''sources'')
         else
           let r = new_event now q owner (clock now + 120) ingestion
           in bind (require (\<not> list_ex (\<lambda>x. iv_id x = ingestion) (events s)) Constraint_Violated) (\<lambda>_.
              bind (writing (\<lambda>s. s\<lparr>events := events s @ [r]\<rparr>)) (\<lambda>_.
              ret (r, True, True))))))"

definition get_connector_ingestion :: "string \<Rightarrow> event_row aop" where
  "get_connector_ingestion ingestion =
     bind (reading (\<lambda>s. find (\<lambda>r. iv_id r = ingestion) (events s))) (found (Not_Found ''ingestion''))"

definition leased :: "string \<Rightarrow> string \<Rightarrow> event_row \<Rightarrow> bool" where
  "leased ingestion owner r \<longleftrightarrow> iv_id r = ingestion \<and> iv_owner r = Some owner"

definition complete_connector_ingestion :: "moment \<Rightarrow> string \<Rightarrow> string \<Rightarrow> json \<Rightarrow> unit aop" where
  "complete_connector_ingestion now ingestion owner outcome = one_transaction (
     bind (reading (\<lambda>s. list_ex (\<lambda>r. leased ingestion owner r \<and> iv_status r = Imported) (events s)))
       (\<lambda>hit.
     bind (require hit (Conflict ''lease'')) (\<lambda>_.
     writing (update_event (\<lambda>r. leased ingestion owner r \<and> iv_status r = Imported)
       (\<lambda>r. r\<lparr>iv_status := Event_Completed, iv_result := Some outcome, iv_owner := None,
              iv_expires := None, iv_updated := now_text now,
              iv_completed := Some (now_text now)\<rparr>)))))"

definition release_connector_ingestion :: "moment \<Rightarrow> string \<Rightarrow> string \<Rightarrow> unit aop" where
  "release_connector_ingestion now ingestion owner = one_transaction (
     writing (update_event (\<lambda>r. leased ingestion owner r \<and> iv_status r \<noteq> Event_Completed)
       (\<lambda>r. r\<lparr>iv_owner := None, iv_expires := None, iv_updated := now_text now\<rparr>)))"

definition reject_connector_ingestion :: "moment \<Rightarrow> string \<Rightarrow> string \<Rightarrow> json \<Rightarrow> event_row aop" where
  "reject_connector_ingestion now ingestion owner failure = one_transaction (
     bind (reading (\<lambda>s. find (\<lambda>r. iv_id r = ingestion) (events s))) (\<lambda>known.
     bind (found (Conflict ''lease'') known) (\<lambda>r.
     bind (require (iv_owner r = Some owner) (Conflict ''lease'')) (\<lambda>_.
     bind (reading (\<lambda>s. map_option bn_draft
       (find (\<lambda>b. bn_client b = iv_client r \<and> bn_draft_key b = iv_draft_key r) (bindings s)))) (\<lambda>draft.
     bind (require (iv_status r \<in> {Bound, Imported}) (Conflict ''status'')) (\<lambda>_.
     bind (writing (update_event (\<lambda>x. leased ingestion owner x \<and> iv_status x \<in> {Bound, Imported})
       (\<lambda>x. x\<lparr>iv_status := Event_Rejected, iv_draft := draft, iv_failure := Some failure,
              iv_owner := None, iv_expires := None, iv_updated := now_text now,
              iv_completed := Some (now_text now)\<rparr>))) (\<lambda>_.
     bind (reading (\<lambda>s. find (\<lambda>r. iv_id r = ingestion) (events s))) (found Missing_Item))))))))"

end
