(* ===== verification/Ingest_Health.thy ===== *)
theory Ingest_Health
  imports Ingest_Store
begin

text \<open>
  The health of the machine sources (\<open>storage.py\<close>): status events, the current state of each
  source, and the freshness of the sources behind a draft. Times are compared as the code
  compares them, the recorded ones as texts.
\<close>

section \<open>Recording a status\<close>

record health_report =
  hr_event :: string
  hr_draft_key :: string
  hr_scope :: string
  hr_source :: string
  hr_system :: string
  hr_outcome :: health_outcome
  hr_attempted :: string
  hr_completed :: string
  hr_count :: nat
  hr_coverage :: "string option"
  hr_error :: "string option"
  hr_snapshot_sha :: "string option"
  hr_autofill_event :: "string option"
  hr_revision :: "nat option"

fun outcome_text :: "health_outcome \<Rightarrow> string" where
  "outcome_text Success_Nonempty = ''success_nonempty''"
| "outcome_text Success_Empty = ''success_empty''"
| "outcome_text Source_Error = ''error''"
| "outcome_text Source_Waiting = ''stability_wait''"

definition state_key :: "string \<Rightarrow> string \<Rightarrow> string \<Rightarrow> source_state_row \<Rightarrow> bool" where
  "state_key client key source r \<longleftrightarrow>
     ss_client r = client \<and> ss_draft_key r = key \<and> ss_source r = source"

definition new_source_state ::
    "string \<Rightarrow> health_report \<Rightarrow> bool \<Rightarrow> int \<Rightarrow> string \<Rightarrow> source_state_row option \<Rightarrow> source_state_row" where
  "new_source_state client h required freshness updated current =
     \<lparr>ss_client = client, ss_draft_key = hr_draft_key h, ss_scope = hr_scope h,
      ss_source = hr_source h, ss_system = hr_system h, ss_required = required,
      ss_freshness = freshness, ss_outcome = hr_outcome h, ss_attempted = hr_attempted h,
      ss_completed = hr_completed h,
      ss_success =
        (if hr_outcome h \<in> {Success_Nonempty, Success_Empty} then Some (hr_completed h)
         else Option.bind current ss_success),
      ss_nonempty =
        (if hr_outcome h = Success_Nonempty then Some (hr_completed h)
         else Option.bind current ss_nonempty),
      ss_count = hr_count h, ss_coverage = hr_coverage h, ss_error = hr_error h,
      ss_snapshot_sha = hr_snapshot_sha h, ss_autofill_event = hr_autofill_event h,
      ss_revision = hr_revision h, ss_last_event = hr_event h, ss_updated = updated\<rparr>"

definition put_source_state :: "source_state_row \<Rightarrow> agent_db \<Rightarrow> agent_db" where
  "put_source_state r s =
     (let p = state_key (ss_client r) (ss_draft_key r) (ss_source r)
      in s\<lparr>source_states :=
        (if list_ex p (source_states s) then map (\<lambda>x. if p x then r else x) (source_states s)
         else source_states s @ [r])\<rparr>)"

definition apply_source_health ::
    "string \<Rightarrow> health_report \<Rightarrow> bool \<Rightarrow> int \<Rightarrow> string \<Rightarrow> bool aop" where
  "apply_source_health client h required freshness updated =
     bind (reading (\<lambda>s. find (state_key client (hr_draft_key h) (hr_source h)) (source_states s)))
     (\<lambda>current.
       if (case current of None \<Rightarrow> False | Some r \<Rightarrow> hr_completed h \<le> ss_completed r) then ret False
       else bind (require (300 \<le> freshness \<and> freshness \<le> 2592000) Constraint_Violated) (\<lambda>_.
         bind (writing (put_source_state (new_source_state client h required freshness updated current)))
           (\<lambda>_. ret True)))"

definition health_result_json :: "health_report \<Rightarrow> bool \<Rightarrow> bool \<Rightarrow> json" where
  "health_result_json h applied replay = JObj
     [(''contract_version'', JStr ''enterprise-source-health-result/v1''),
      (''event_id'', JStr (hr_event h)), (''source_id'', JStr (hr_source h)),
      (''outcome'', JStr (outcome_text (hr_outcome h))),
      (''completed_at'', JStr (hr_completed h)), (''status'', JStr ''recorded''),
      (''applied'', JBool applied), (''idempotent_replay'', JBool replay)]"

definition health_quota_exceeded :: "moment \<Rightarrow> string \<Rightarrow> agent_db \<Rightarrow> bool" where
  "health_quota_exceeded now client s \<longleftrightarrow>
     (let recent = filter (\<lambda>r. he_client r = client \<and> text_ago now 86400 \<le> he_created r)
            (health_events s)
      in 1000 \<le> length (filter (\<lambda>r. text_ago now 600 \<le> he_created r) recent)
         \<or> 20000 \<le> length recent)"

definition state_quota_exceeded :: "string \<Rightarrow> health_report \<Rightarrow> agent_db \<Rightarrow> bool" where
  "state_quota_exceeded client h s \<longleftrightarrow>
     \<not> list_ex (state_key client (hr_draft_key h) (hr_source h)) (source_states s)
     \<and> 240 \<le> length (remdups (map ss_draft_key (filter (\<lambda>r. ss_client r = client) (source_states s))))"

text \<open>The result, and whether the event is new.\<close>

definition record_connector_source_health ::
    "moment \<Rightarrow> string \<Rightarrow> string \<Rightarrow> health_report \<Rightarrow> bool \<Rightarrow> int \<Rightarrow> (json \<times> bool) aop" where
  "record_connector_source_health now client sha h required freshness = one_transaction (
     bind (reading (\<lambda>s. find (\<lambda>r. he_client r = client \<and> he_event r = hr_event h) (health_events s)))
     (\<lambda>known. case known of
       Some r \<Rightarrow>
         if he_request_sha r \<noteq> sha then raise (Conflict ''health event_id'')
         else bind (found Missing_Item (set_field ''idempotent_replay'' (JBool True) (he_result r)))
           (\<lambda>replay. ret (replay, False))
     | None \<Rightarrow> bind (reading id) (\<lambda>s.
         if health_quota_exceeded now client s then raise (Over_Quota ''health events'')
         else if state_quota_exceeded client h s then raise (Over_Quota ''health drafts'')
         else
           bind (apply_source_health client h required freshness (now_text now)) (\<lambda>applied.
           let outcome = health_result_json h applied False
           in bind (writing (\<lambda>s. s\<lparr>health_events := health_events s @
                [\<lparr>he_client = client, he_event = hr_event h, he_request_sha = sha,
                  he_result = canonical outcome, he_applied = applied,
                  he_created = now_text now\<rparr>]\<rparr>)) (\<lambda>_.
              bind (writing (\<lambda>s. s\<lparr>health_events :=
                filter (\<lambda>r. \<not> (he_created r < text_ago now (90 * 86400)
                  \<and> \<not> (he_client r = client \<and> he_event r = hr_event h))) (health_events s)\<rparr>)) (\<lambda>_.
              ret (outcome, True)))))))"

section \<open>Freshness\<close>

record source_policy =
  sp_source :: string
  sp_system :: string
  sp_required :: bool
  sp_freshness :: int
  sp_missing :: bool

datatype freshness_state = Fresh | Stale | Waiting_State | Error_State | Unknown_State

record source_view =
  sv_source :: string
  sv_required :: bool
  sv_state :: freshness_state
  sv_age :: "int option"
  sv_error :: "string option"

datatype overall_freshness = All_Fresh | Some_Stale | Not_Applicable

text \<open>A contribution with the event it came from (the \<open>LEFT JOIN\<close> of the two tables).\<close>

type_synonym joined = "contribution_row \<times> event_row option"

definition joined_status :: "joined \<Rightarrow> event_status option" where
  "joined_status j = map_option iv_status (snd j)"

definition joined_system :: "joined \<Rightarrow> string" where
  "joined_system j =
     (case map_option iv_source_system (snd j) of
        None \<Rightarrow> ''unknown'' | Some t \<Rightarrow> if t = [] then ''unknown'' else t)"

definition row_for :: "string \<Rightarrow> source_state_row list \<Rightarrow> source_state_row option" where
  "row_for source rows = find_last (\<lambda>r. ss_source r = source) rows"

definition contribution_for :: "string \<Rightarrow> joined list \<Rightarrow> joined option" where
  "contribution_for source js = find_last (\<lambda>j. ct_source (fst j) = source) js"

definition policy_of_contribution :: "source_state_row list \<Rightarrow> bool \<Rightarrow> joined \<Rightarrow> source_policy" where
  "policy_of_contribution rows missing j =
     \<lparr>sp_source = ct_source (fst j), sp_system = joined_system j, sp_required = True,
      sp_freshness = (case row_for (ct_source (fst j)) rows of None \<Rightarrow> 3600 | Some r \<Rightarrow> ss_freshness r),
      sp_missing = missing\<rparr>"

definition effective_policies ::
    "source_policy list \<Rightarrow> source_state_row list \<Rightarrow> joined list \<Rightarrow> source_policy list" where
  "effective_policies policies rows js =
     (if policies \<noteq> [] then
        policies @ map (policy_of_contribution rows True)
          (filter (\<lambda>j. ct_source (fst j) \<notin> sp_source ` set policies) js)
      else if js \<noteq> [] then map (policy_of_contribution rows False) js
      else map (\<lambda>r. \<lparr>sp_source = ss_source r, sp_system = ss_system r, sp_required = True,
          sp_freshness = ss_freshness r, sp_missing = False\<rparr>) rows)"

text \<open>The state is of the snapshot the draft was built from, and its event is completed.\<close>

definition snapshot_matches :: "source_state_row \<Rightarrow> joined option \<Rightarrow> bool" where
  "snapshot_matches r j =
     (case j of
        None \<Rightarrow> False
      | Some k \<Rightarrow> ss_snapshot_sha r = Some (ct_content_sha (fst k))
          \<and> ss_autofill_event r = Some (ct_event (fst k))
          \<and> ss_revision r = Some (ct_revision (fst k))
          \<and> joined_status k = Some Event_Completed)"

definition age_of :: "rat \<Rightarrow> rat \<Rightarrow> int" where
  "age_of t completed = max 0 \<lfloor>t - completed\<rfloor>"

definition row_state ::
    "ingest_env \<Rightarrow> string \<Rightarrow> rat \<Rightarrow> int \<Rightarrow> source_state_row \<Rightarrow> joined option \<Rightarrow>
      (freshness_state \<times> int) result" where
  "row_state e period_end t maximum r j =
     (case instant e (ss_completed r) of
        None \<Rightarrow> Inl (Bad_Request ''completed_at'')
      | Some completed \<Rightarrow>
          let age = age_of t completed
          in Inr (if ss_outcome r = Source_Error then Error_State
              else if ss_outcome r \<in> {Success_Empty, Source_Waiting} \<or> \<not> snapshot_matches r j
                \<or> (case ss_coverage r of None \<Rightarrow> True | Some c \<Rightarrow> c < period_end)
              then Waiting_State
              else if maximum \<le> age then Stale else Fresh, age))"

definition view_of_policy ::
    "ingest_env \<Rightarrow> bool \<Rightarrow> string \<Rightarrow> rat \<Rightarrow> source_state_row list \<Rightarrow> joined list \<Rightarrow> source_policy \<Rightarrow>
      source_view result" where
  "view_of_policy e configured period_end t rows js p =
     (let unconfigured = \<not> configured \<or> sp_missing p;
          view = (\<lambda>state age problem.
            \<lparr>sv_source = sp_source p, sv_required = sp_required p,
             sv_state = (if unconfigured then Unknown_State else state), sv_age = age,
             sv_error = (if unconfigured then Some ''policy_missing'' else problem)\<rparr>)
      in case row_for (sp_source p) rows of
           None \<Rightarrow> Inr (view Unknown_State None None)
         | Some r \<Rightarrow>
             if ss_system r \<noteq> sp_system p then Inr (view Unknown_State None None)
             else and_then (row_state e period_end t (sp_freshness p) r (contribution_for (sp_source p) js))
               (\<lambda>(state, age). Inr (view state (Some age) (ss_error r))))"

definition evaluate_source_health ::
    "ingest_env \<Rightarrow> string \<Rightarrow> source_state_row list \<Rightarrow> joined list \<Rightarrow> source_policy list \<Rightarrow> rat \<Rightarrow>
      (source_view list \<times> overall_freshness \<times> string list) result" where
  "evaluate_source_health e period_end rows js policies t =
     and_then (map_result (view_of_policy e (policies \<noteq> []) period_end t rows js)
         (sort_key sp_source (effective_policies policies rows js)))
       (\<lambda>views. let stale = map sv_source (filter (\<lambda>v. sv_required v \<and> sv_state v \<noteq> Fresh) views)
         in Inr (views, if stale = [] then All_Fresh else Some_Stale, sort stale))"

definition source_health_for_draft ::
    "ingest_env \<Rightarrow> string \<Rightarrow> source_policy list \<Rightarrow> rat \<Rightarrow>
      (source_view list \<times> overall_freshness \<times> string list) aop" where
  "source_health_for_draft e draft policies t =
     bind (reading id) (\<lambda>s.
     bind (found (Not_Found ''draft'') (find (\<lambda>d. fd_id d = draft) (drafts s))) (\<lambda>d.
     case find (\<lambda>b. bn_draft b = draft) (bindings s) of
       None \<Rightarrow> ret ([], Not_Applicable, [])
     | Some b \<Rightarrow>
         let rows = filter (\<lambda>r. ss_client r = bn_client b \<and> ss_draft_key r = bn_draft_key b) (source_states s);
             js = map (\<lambda>c. (c, find (\<lambda>v. iv_id v = ct_ingestion c) (events s)))
               (filter (\<lambda>c. ct_client c = bn_client b \<and> ct_draft_key c = bn_draft_key b \<and> ct_draft c = draft)
                 (contributions s))
         in of_result (evaluate_source_health e (pl_end (fd_payload d)) rows js policies t)))"

end
