(* ===== verification/Ingest_Drafts.thy ===== *)
theory Ingest_Drafts
  imports Ingest_Health
begin

text \<open>
  \<open>create_or_update_machine_import\<close> of \<open>five_quantity_runtime.py\<close>: one transaction that
  replaces the snapshot of a source and rebuilds the draft bound to the draft key.
\<close>

section \<open>The call\<close>

text \<open>The normalised file, and the arguments of one call with the UUIDs it draws.\<close>

record machine_import =
  mi_current :: bool
  mi_payload :: payload
  mi_content_sha :: string
  mi_filename :: string
  mi_suggestions :: json

record import_call =
  ic_ingestion :: string
  ic_owner :: string
  ic_client :: string
  ic_draft_key :: string
  ic_source :: string
  ic_revision :: nat
  ic_observed :: string
  ic_coverage :: string
  ic_required :: bool
  ic_freshness :: int
  ic_actor :: string
  ic_new_draft :: string
  ic_new_import :: string

definition lease_matches :: "import_call \<Rightarrow> event_row option \<Rightarrow> bool" where
  "lease_matches c v =
     (case v of
        None \<Rightarrow> False
      | Some r \<Rightarrow> iv_status r = Bound \<and> iv_owner r = Some (ic_owner c) \<and> iv_client r = ic_client c
          \<and> iv_draft_key r = ic_draft_key c \<and> iv_source r = ic_source c
          \<and> iv_revision r = ic_revision c \<and> iv_observed r = ic_observed c
          \<and> iv_coverage r = Some (ic_coverage c))"

definition contribution_key :: "string \<Rightarrow> string \<Rightarrow> string \<Rightarrow> contribution_row \<Rightarrow> bool" where
  "contribution_key client key source r \<longleftrightarrow>
     ct_client r = client \<and> ct_draft_key r = key \<and> ct_source r = source"

definition binding_key :: "string \<Rightarrow> string \<Rightarrow> binding_row \<Rightarrow> bool" where
  "binding_key client key b \<longleftrightarrow> bn_client b = client \<and> bn_draft_key b = key"

definition revision_check :: "import_call \<Rightarrow> machine_import \<Rightarrow> contribution_row option \<Rightarrow> unit result" where
  "revision_check c m previous =
     (case previous of
        None \<Rightarrow> Inr ()
      | Some p \<Rightarrow>
          if ic_revision c < ct_revision p then Inl (Conflict ''revision'')
          else if ic_revision c = ct_revision p \<and> mi_content_sha m \<noteq> ct_content_sha p
          then Inl (Conflict ''content'') else Inr ())"

section \<open>The draft that may be rewritten\<close>

definition submission_pending :: "string \<Rightarrow> agent_db \<Rightarrow> bool" where
  "submission_pending draft s \<longleftrightarrow> list_ex (\<lambda>x. fo_draft x = draft) (submissions s)"

definition untouched :: "ingest_env \<Rightarrow> binding_row \<Rightarrow> draft_row \<Rightarrow> bool" where
  "untouched e b d \<longleftrightarrow>
     fd_revision d = bn_revision b \<and> sha256_jcs e (payload_json (fd_payload d)) = bn_sha b"

definition unsent :: "draft_row \<Rightarrow> agent_db \<Rightarrow> bool" where
  "unsent d s \<longleftrightarrow>
     fd_status d = Ready_Review \<and> fd_confirmation d = None \<and> fd_message d = None
     \<and> \<not> submission_pending (fd_id d) s"

text \<open>The draft identifier, the row to rewrite, and the discarded draft it replaces.\<close>

type_synonym target = "string \<times> draft_row option \<times> string option"

definition choose_draft ::
    "ingest_env \<Rightarrow> import_call \<Rightarrow> binding_row option \<Rightarrow> agent_db \<Rightarrow> target result" where
  "choose_draft e c binding s =
     (case binding of
        None \<Rightarrow> Inr (ic_new_draft c, None, None)
      | Some b \<Rightarrow>
          (case find (\<lambda>d. fd_id d = bn_draft b) (drafts s) of
             None \<Rightarrow> Inl (Conflict ''binding'')
           | Some d \<Rightarrow>
               if \<not> fd_current d then Inl (Conflict ''contract'')
               else if fd_status d = Discarded then Inr (ic_new_draft c, None, Some (bn_draft b))
               else if \<not> untouched e b d then Inl (Conflict ''human edit'')
               else if \<not> unsent d s then Inl (Conflict ''confirmed'')
               else Inr (bn_draft b, Some d, None)))"

section \<open>The merged payload\<close>

definition effective_payload :: "import_call \<Rightarrow> machine_import \<Rightarrow> contribution_row option \<Rightarrow> payload" where
  "effective_payload c m previous =
     (case previous of
        None \<Rightarrow> mi_payload m
      | Some p \<Rightarrow>
          if mi_content_sha m = ct_content_sha p \<and> ic_revision c = ct_revision p
          then ct_payload p else mi_payload m)"

definition other_contributions :: "string \<Rightarrow> string \<Rightarrow> string \<Rightarrow> agent_db \<Rightarrow> contribution_row list" where
  "other_contributions client key source s = sort_key ct_source
     (filter (\<lambda>r. ct_client r = client \<and> ct_draft_key r = key \<and> ct_source r \<noteq> source)
       (contributions s))"

definition batch_span :: "payload \<Rightarrow> string" where
  "batch_span p = pl_start p @ '':'' @ pl_end p"

definition month_of :: "payload \<Rightarrow> string option" where
  "month_of p = (case pl_month p of None \<Rightarrow> None | Some t \<Rightarrow> if t = [] then None else Some t)"

definition draft_keys :: "identity \<Rightarrow> payload \<Rightarrow> string list" where
  "draft_keys i p =
     (''draft:'' @ id_operator i @ '':production-batch:'' @ batch_span p) #
     (case month_of p of
        None \<Rightarrow> []
      | Some t \<Rightarrow> [''draft:'' @ id_operator i @ '':five-quantity:monthly:'' @ t])"

definition binding_scopes :: "payload \<Rightarrow> string list" where
  "binding_scopes p = batch_span p # (case month_of p of None \<Rightarrow> [] | Some t \<Rightarrow> [t])"

definition merged_payload ::
    "ingest_env \<Rightarrow> identity \<Rightarrow> string \<Rightarrow> binding_row option \<Rightarrow> payload list \<Rightarrow> payload result" where
  "merged_payload e i key binding payloads =
     and_then (merge_machine_payloads e payloads) (\<lambda>merged.
     and_then (validate_payload e i merged) (\<lambda>_.
     if key \<notin> set (draft_keys i merged) then Inl (Conflict ''draft_key'')
     else if (case binding of None \<Rightarrow> False | Some b \<Rightarrow> bn_scope b \<notin> set (binding_scopes merged))
     then Inl (Conflict ''scope'') else Inr merged))"

section \<open>Registering the file\<close>

definition filename_time_fragment :: "string \<Rightarrow> string" where
  "filename_time_fragment t =
     concat (map (\<lambda>c. if c = CHR '':'' then ''-'' else if c = CHR ''+'' then ''p'' else [c]) t)"

definition replacement_hash :: "ingest_env \<Rightarrow> string \<Rightarrow> string \<Rightarrow> payload \<Rightarrow> string" where
  "replacement_hash e old new merged = digest_hex e
     (''machine-replacement-snapshot-v1'' @ [CHR 0x0A] @ old @ [CHR 0x0A] @ new @ [CHR 0x0A]
      @ jcs_text e (payload_json merged))"

definition insert_import :: "import_row \<Rightarrow> unit aop" where
  "insert_import r = bind (reading (\<lambda>s. list_ex
       (\<lambda>x. im_id x = im_id r \<or> im_content_sha x = im_content_sha r) (import_files s))) (\<lambda>clash.
     bind (require (\<not> clash) Constraint_Violated) (\<lambda>_.
     writing (\<lambda>s. s\<lparr>import_files := import_files s @ [r]\<rparr>)))"

definition new_import :: "string \<Rightarrow> string \<Rightarrow> string \<Rightarrow> string \<Rightarrow> string \<Rightarrow> json \<Rightarrow> string \<Rightarrow> import_row" where
  "new_import identifier sha filename path draft suggestions created =
     \<lparr>im_id = identifier, im_content_sha = sha, im_filename = filename,
      im_mode = ''direct_collection'', im_path = Some (take 1000 path), im_status = Import_Ready,
      im_draft = Some draft, im_suggestions = suggestions, im_created = created\<rparr>"

text \<open>The import of the file, the import of the draft, and whether the content is known.\<close>

definition register_file ::
    "ingest_env \<Rightarrow> moment \<Rightarrow> import_call \<Rightarrow> machine_import \<Rightarrow> string \<Rightarrow> string option \<Rightarrow> payload \<Rightarrow>
      (string \<times> string \<times> bool) aop" where
  "register_file e now c m draft replaced merged =
     bind (reading (\<lambda>s. find (\<lambda>x. im_content_sha x = mi_content_sha m) (import_files s))) (\<lambda>known.
     case known of
       None \<Rightarrow>
         bind (insert_import (new_import (ic_new_import c) (mi_content_sha m) (mi_filename m)
             (''connector:'' @ ic_source c) draft (mi_suggestions m) (now_text now)))
           (\<lambda>_. ret (ic_new_import c, ic_new_import c, False))
     | Some x \<Rightarrow>
         bind (reading (\<lambda>s. list_ex (\<lambda>a. ar_client a = ic_client c \<and> ar_draft_key a = ic_draft_key c
             \<and> ar_source a = ic_source c \<and> ar_content_sha a = mi_content_sha m \<and> ar_import a = im_id x)
           (artifacts s))) (\<lambda>own.
         bind (require (im_draft x = Some draft \<or> own) (Conflict ''content of another draft'')) (\<lambda>_.
         case replaced of
           None \<Rightarrow> ret (im_id x, im_id x, True)
         | Some old \<Rightarrow>
             bind (insert_import (new_import (ic_new_import c) (replacement_hash e old draft merged)
                 (''machine-replacement-'' @ filename_time_fragment (pl_start merged) @ ''-'' @
                  filename_time_fragment (pl_end merged) @ ''.json'')
                 (''connector:replacement:'' @ old) draft (mi_suggestions m) (now_text now)))
               (\<lambda>_. ret (im_id x, ic_new_import c, True)))))"

section \<open>Writing the draft, the binding and the snapshot\<close>

definition new_draft :: "string \<Rightarrow> string \<Rightarrow> string \<Rightarrow> payload \<Rightarrow> string \<Rightarrow> draft_row" where
  "new_draft identifier import_id actor p created =
     \<lparr>fd_id = identifier, fd_import = import_id, fd_revision = 1, fd_submission_revision = 1,
      fd_correlation = None, fd_predecessor = None, fd_predecessor_sha = None,
      fd_current = True, fd_status = Ready_Review,
      fd_payload = p, fd_confirmation = None, fd_message = None, fd_created_by = actor,
      fd_actor = actor, fd_preparer = None, fd_prepared_revision = None,
      fd_created = created, fd_updated = created\<rparr>"

definition insert_draft :: "draft_row \<Rightarrow> unit aop" where
  "insert_draft r = bind (reading (\<lambda>s. list_ex
       (\<lambda>x. fd_id x = fd_id r \<or> fd_import x = fd_import r) (drafts s))) (\<lambda>clash.
     bind (require (\<not> clash) Constraint_Violated) (\<lambda>_.
     writing (\<lambda>s. s\<lparr>drafts := drafts s @ [r]\<rparr>)))"

definition update_draft :: "string \<Rightarrow> (draft_row \<Rightarrow> draft_row) \<Rightarrow> agent_db \<Rightarrow> agent_db" where
  "update_draft identifier f s =
     s\<lparr>drafts := map (\<lambda>d. if fd_id d = identifier then f d else d) (drafts s)\<rparr>"

definition update_binding :: "string \<Rightarrow> string \<Rightarrow> (binding_row \<Rightarrow> binding_row) \<Rightarrow> agent_db \<Rightarrow> agent_db" where
  "update_binding client key f s =
     s\<lparr>bindings := map (\<lambda>b. if binding_key client key b then f b else b) (bindings s)\<rparr>"

text \<open>The scope and the draft of a binding are unique among all bindings.\<close>

definition binding_clash :: "string \<Rightarrow> string \<Rightarrow> string \<Rightarrow> string \<Rightarrow> agent_db \<Rightarrow> bool" where
  "binding_clash client key draft scope s \<longleftrightarrow> list_ex
     (\<lambda>b. \<not> binding_key client key b \<and> (bn_draft b = draft \<or> bn_scope b = scope)) (bindings s)"

definition bind_new_draft ::
    "ingest_env \<Rightarrow> moment \<Rightarrow> import_call \<Rightarrow> binding_row option \<Rightarrow> string \<Rightarrow> payload \<Rightarrow> unit aop" where
  "bind_new_draft e now c binding draft merged =
     bind (reading (binding_clash (ic_client c) (ic_draft_key c) draft (batch_span merged))) (\<lambda>clash.
     bind (require (\<not> clash) Constraint_Violated) (\<lambda>_.
     let sha = sha256_jcs e (payload_json merged)
     in case binding of
          None \<Rightarrow> writing (\<lambda>s. s\<lparr>bindings := bindings s @
            [\<lparr>bn_client = ic_client c, bn_draft_key = ic_draft_key c, bn_draft = draft,
              bn_scope = batch_span merged, bn_revision = 1, bn_sha = sha,
              bn_created = now_text now\<rparr>]\<rparr>)
        | Some _ \<Rightarrow> writing (update_binding (ic_client c) (ic_draft_key c)
            (\<lambda>b. b\<lparr>bn_draft := draft, bn_scope := batch_span merged, bn_revision := 1,
                   bn_sha := sha\<rparr>))))"

text \<open>The revision of the draft after the write.\<close>

definition write_draft ::
    "ingest_env \<Rightarrow> moment \<Rightarrow> import_call \<Rightarrow> binding_row option \<Rightarrow> string \<Rightarrow> draft_row option \<Rightarrow> string \<Rightarrow>
      payload \<Rightarrow> nat aop" where
  "write_draft e now c binding draft row import_id merged =
     (case row of
        None \<Rightarrow>
          bind (insert_draft (new_draft draft import_id (ic_actor c) merged (now_text now))) (\<lambda>_.
          bind (bind_new_draft e now c binding draft merged) (\<lambda>_. ret 1))
      | Some d \<Rightarrow>
          if sha256_jcs e (payload_json (fd_payload d)) = sha256_jcs e (payload_json merged)
          then ret (fd_revision d)
          else bind (writing (update_draft draft (\<lambda>x. x\<lparr>fd_revision := fd_revision d + 1,
              fd_payload := merged, fd_actor := ic_actor c, fd_preparer := None,
              fd_prepared_revision := None, fd_updated := now_text now\<rparr>)))
            (\<lambda>_. ret (fd_revision d + 1)))"

definition put_artifact :: "moment \<Rightarrow> import_call \<Rightarrow> machine_import \<Rightarrow> string \<Rightarrow> agent_db \<Rightarrow> agent_db" where
  "put_artifact now c m import_id s =
     (if list_ex (\<lambda>a. ar_client a = ic_client c \<and> ar_draft_key a = ic_draft_key c
           \<and> ar_source a = ic_source c \<and> ar_content_sha a = mi_content_sha m) (artifacts s)
      then s
      else s\<lparr>artifacts := artifacts s @
        [\<lparr>ar_client = ic_client c, ar_draft_key = ic_draft_key c, ar_source = ic_source c,
          ar_content_sha = mi_content_sha m, ar_import = import_id,
          ar_ingestion = ic_ingestion c, ar_created = now_text now\<rparr>]\<rparr>)"

definition put_contribution ::
    "moment \<Rightarrow> import_call \<Rightarrow> machine_import \<Rightarrow> string \<Rightarrow> string \<Rightarrow> string \<Rightarrow> payload \<Rightarrow> unit aop" where
  "put_contribution now c m event import_id draft p =
     (let mine = contribution_key (ic_client c) (ic_draft_key c) (ic_source c)
      in bind (reading (\<lambda>s. list_ex (\<lambda>r. \<not> mine r \<and> ct_ingestion r = ic_ingestion c) (contributions s)))
        (\<lambda>clash.
         bind (require (\<not> clash) Constraint_Violated) (\<lambda>_.
         writing (\<lambda>s. s\<lparr>contributions :=
           (if list_ex mine (contributions s)
            then map (\<lambda>r. if mine r then r\<lparr>ct_revision := ic_revision c, ct_event := event,
                ct_ingestion := ic_ingestion c, ct_import := import_id,
                ct_content_sha := mi_content_sha m, ct_observed := ic_observed c,
                ct_coverage := ic_coverage c, ct_payload := p, ct_updated := now_text now\<rparr>
              else r) (contributions s)
            else contributions s @
              [\<lparr>ct_client = ic_client c, ct_draft_key = ic_draft_key c, ct_source = ic_source c,
                ct_revision = ic_revision c, ct_event = event, ct_ingestion = ic_ingestion c,
                ct_import = import_id, ct_draft = draft, ct_content_sha = mi_content_sha m,
                ct_observed = ic_observed c, ct_coverage = ic_coverage c, ct_payload = p,
                ct_created = now_text now, ct_updated = now_text now\<rparr>])\<rparr>))))"

definition move_contributions :: "import_call \<Rightarrow> string \<Rightarrow> agent_db \<Rightarrow> agent_db" where
  "move_contributions c draft s = s\<lparr>contributions :=
     map (\<lambda>r. if ct_client r = ic_client c \<and> ct_draft_key r = ic_draft_key c
              then r\<lparr>ct_draft := draft\<rparr> else r) (contributions s)\<rparr>"

definition snapshot_report ::
    "import_call \<Rightarrow> machine_import \<Rightarrow> event_row \<Rightarrow> payload \<Rightarrow> payload \<Rightarrow> health_report" where
  "snapshot_report c m v effective merged =
     \<lparr>hr_event = ''autofill:'' @ ic_ingestion c, hr_draft_key = ic_draft_key c,
      hr_scope = batch_span merged, hr_source = ic_source c, hr_system = iv_source_system v,
      hr_outcome = Success_Nonempty, hr_attempted = ic_observed c, hr_completed = ic_observed c,
      hr_count = length (pl_days effective), hr_coverage = Some (ic_coverage c), hr_error = None,
      hr_snapshot_sha = Some (mi_content_sha m), hr_autofill_event = Some (iv_event v),
      hr_revision = Some (ic_revision c)\<rparr>"

definition summary_json ::
    "import_call \<Rightarrow> string \<Rightarrow> bool \<Rightarrow> bool \<Rightarrow> bool \<Rightarrow> nat \<Rightarrow> payload \<Rightarrow> json" where
  "summary_json c import_id duplicate same repeated n merged = JObj
     [(''mode'', JStr ''ten_quantity_v3_direct_collection''), (''import_id'', JStr import_id),
      (''duplicate_content'', JBool duplicate),
      (''merge'', JObj
         [(''source_id'', JStr (ic_source c)), (''source_revision'', json_int (int (ic_revision c))),
          (''same_content'', JBool same), (''repeated_snapshot'', JBool repeated),
          (''contribution_count'', json_int (int n)),
          (''day_count'', json_int (int (length (pl_days merged)))),
          (''evidence_source_count'', json_int (int (length (pl_sources merged))))])]"

definition autofilled_json ::
    "import_call \<Rightarrow> machine_import \<Rightarrow> event_row \<Rightarrow> string \<Rightarrow> string \<Rightarrow> nat \<Rightarrow> string \<Rightarrow> string option \<Rightarrow> json" where
  "autofilled_json c m v draft import_id revision sha replaced = JObj
     [(''ingestion_id'', JStr (ic_ingestion c)), (''event_id'', JStr (iv_event v)),
      (''draft_id'', JStr draft), (''import_id'', JStr import_id), (''source_id'', JStr (ic_source c)),
      (''source_revision'', json_int (int (ic_revision c))),
      (''content_sha256'', JStr (mi_content_sha m)), (''draft_revision'', json_int (int revision)),
      (''payload_sha256'', JStr sha), (''preflight_performed'', JBool True),
      (''replacement_of_discarded_draft_id'', json_opt replaced)]"

definition replaced_json :: "string \<Rightarrow> string \<Rightarrow> payload \<Rightarrow> string \<Rightarrow> json" where
  "replaced_json old draft merged sha = JObj
     [(''discarded_draft_id'', JStr old), (''replacement_draft_id'', JStr draft),
      (''batch_span'', JStr (batch_span merged)), (''payload_sha256'', JStr sha)]"

record import_result =
  ix_draft :: string
  ix_revision :: nat
  ix_sha :: string
  ix_summary :: json
  ix_preflight :: preflight

section \<open>The transaction\<close>

text \<open>The part that decides: nothing is written before it succeeds.\<close>

record import_plan =
  ip_event :: event_row
  ip_previous :: "contribution_row option"
  ip_binding :: "binding_row option"
  ip_target :: target
  ip_effective :: payload
  ip_merged :: payload
  ip_others :: nat

definition plan_import ::
    "ingest_env \<Rightarrow> identity \<Rightarrow> import_call \<Rightarrow> machine_import \<Rightarrow> agent_db \<Rightarrow> import_plan result" where
  "plan_import e i c m s =
     (let event = find (\<lambda>r. iv_id r = ic_ingestion c) (events s);
          previous = find (contribution_key (ic_client c) (ic_draft_key c) (ic_source c)) (contributions s);
          binding = find (binding_key (ic_client c) (ic_draft_key c)) (bindings s);
          others = other_contributions (ic_client c) (ic_draft_key c) (ic_source c) s;
          effective = effective_payload c m previous
      in if \<not> lease_matches c event then Inl (Conflict ''lease'')
         else and_then (revision_check c m previous) (\<lambda>_.
              and_then (choose_draft e c binding s) (\<lambda>target.
              and_then (merged_payload e i (ic_draft_key c) binding (map ct_payload others @ [effective]))
                (\<lambda>merged.
              Inr \<lparr>ip_event = the event, ip_previous = previous, ip_binding = binding,
                   ip_target = target, ip_effective = effective, ip_merged = merged,
                   ip_others = length others\<rparr>))))"

definition carry_out_import ::
    "ingest_env \<Rightarrow> moment \<Rightarrow> import_call \<Rightarrow> machine_import \<Rightarrow> import_plan \<Rightarrow> import_result aop" where
  "carry_out_import e now c m p =
     (case ip_target p of (draft, row, replaced) \<Rightarrow>
      let merged = ip_merged p; effective = ip_effective p;
          sha = sha256_jcs e (payload_json merged);
          same = (case ip_previous p of None \<Rightarrow> False | Some q \<Rightarrow> mi_content_sha m = ct_content_sha q);
          repeated = (case ip_previous p of None \<Rightarrow> False
            | Some q \<Rightarrow> mi_content_sha m = ct_content_sha q \<and> ic_revision c = ct_revision q)
      in bind (register_file e now c m draft replaced merged) (\<lambda>(import_id, draft_import, duplicate).
         bind (write_draft e now c (ip_binding p) draft row draft_import merged) (\<lambda>revision.
         bind (writing (put_artifact now c m import_id)) (\<lambda>_.
         bind (put_contribution now c m (iv_event (ip_event p)) import_id draft effective) (\<lambda>_.
         bind (when_some replaced (\<lambda>_. writing (move_contributions c draft))) (\<lambda>_.
         bind (apply_source_health (ic_client c) (snapshot_report c m (ip_event p) effective merged)
             (ic_required c) (ic_freshness c) (now_text now)) (\<lambda>_.
         bind (when_some (ip_binding p) (\<lambda>_. writing (update_binding (ic_client c) (ic_draft_key c)
             (\<lambda>b. b\<lparr>bn_revision := revision, bn_sha := sha\<rparr>)))) (\<lambda>_.
         bind (of_result (machine_preflight e merged revision)) (\<lambda>check.
         let summary = summary_json c import_id duplicate same repeated (ip_others p + 1) merged
         in bind (reading (\<lambda>s. list_ex (\<lambda>r. leased (ic_ingestion c) (ic_owner c) r \<and> iv_status r = Bound)
              (events s))) (\<lambda>hit.
            bind (require hit (Conflict ''lease'')) (\<lambda>_.
            bind (writing (update_event (\<lambda>r. leased (ic_ingestion c) (ic_owner c) r \<and> iv_status r = Bound)
              (\<lambda>r. r\<lparr>iv_status := Imported, iv_draft := Some draft, iv_summary := Some summary,
                     iv_draft_revision := Some revision, iv_draft_sha := Some sha,
                     iv_preflight := Some check, iv_updated := now_text now\<rparr>))) (\<lambda>_.
            bind (append_fq_audit e now ''five_quantity_machine_autofilled'' (ic_actor c)
              (autofilled_json c m (ip_event p) draft import_id revision sha replaced)) (\<lambda>_.
            bind (when_some replaced (\<lambda>old. append_fq_audit e now
              ''five_quantity_machine_draft_replaced'' (ic_actor c) (replaced_json old draft merged sha)))
              (\<lambda>_.
            ret \<lparr>ix_draft = draft, ix_revision = revision, ix_sha = sha, ix_summary = summary,
                 ix_preflight = check\<rparr>))))))))))))))"

definition create_or_update_machine_import ::
    "ingest_env \<Rightarrow> identity \<Rightarrow> moment \<Rightarrow> import_call \<Rightarrow> machine_import \<Rightarrow> import_result aop" where
  "create_or_update_machine_import e i now c m =
     (if \<not> mi_current m then raise (Bad_Request ''contract'')
      else one_transaction (
        bind (reading (plan_import e i c m)) (\<lambda>plan.
        bind (of_result plan) (carry_out_import e now c m))))"

end
