(* ===== verification/Ingest_Confirm.thy ===== *)
theory Ingest_Confirm
  imports Ingest_Drafts "HOL-Library.Product_Lexorder"
begin

text \<open>
  What people do with the drafts (\<open>five_quantity_runtime.py\<close>): the state of the automatic
  synchronisation, restoring it, replacing the payload and discarding the draft.
\<close>

datatype sync_state =
    Not_Machine
  | Active string nat
  | Paused string bool "(string \<times> nat) option"

fun status_text :: "draft_status \<Rightarrow> string" where
  "status_text Ready_Review = ''ready_review''"
| "status_text Queued = ''queued''"
| "status_text Submitted = ''submitted''"
| "status_text Acknowledged = ''acknowledged''"
| "status_text Discarded = ''discarded''"

definition draft_of :: "string \<Rightarrow> agent_db \<Rightarrow> draft_row option" where
  "draft_of draft s = find (\<lambda>d. fd_id d = draft) (drafts s)"

definition binding_of :: "string \<Rightarrow> agent_db \<Rightarrow> binding_row option" where
  "binding_of draft s = find (\<lambda>b. bn_draft b = draft) (bindings s)"

definition machine_sync_state :: "ingest_env \<Rightarrow> string \<Rightarrow> sync_state aop" where
  "machine_sync_state e draft = bind (reading id) (\<lambda>s.
     bind (found (Not_Found ''draft'') (draft_of draft s)) (\<lambda>d.
     case binding_of draft s of
       None \<Rightarrow>
         ret (if list_ex (\<lambda>v. iv_draft v = Some draft) (events s)
              then Paused ''machine_draft_replaced_or_unbound'' False None else Not_Machine)
     | Some b \<Rightarrow>
         ret (if fd_status d \<noteq> Ready_Review
              then Paused (''draft_'' @ status_text (fd_status d)) False (Some (bn_client b, bn_revision b))
              else if \<not> untouched e b d
              then Paused ''human_changes_detected'' True (Some (bn_client b, bn_revision b))
              else Active (bn_client b) (bn_revision b))))"

definition resumed_json :: "string \<Rightarrow> nat \<Rightarrow> string \<Rightarrow> string \<Rightarrow> contribution_row list \<Rightarrow> json" where
  "resumed_json draft revision before after rows = JObj
     [(''draft_id'', JStr draft), (''revision'', json_int (int revision)),
      (''discarded_human_payload_sha256'', JStr before),
      (''restored_machine_payload_sha256'', JStr after), (''requires_new_event'', JBool True),
      (''source_revisions'', JArr (map (\<lambda>r. JObj
         [(''source_id'', JStr (ct_source r)),
          (''source_revision'', json_int (int (ct_revision r)))]) rows))]"

definition resume_machine_sync ::
    "ingest_env \<Rightarrow> identity \<Rightarrow> moment \<Rightarrow> string \<Rightarrow> nat \<Rightarrow> string \<Rightarrow> draft_row aop" where
  "resume_machine_sync e i now draft expected actor = bind (one_transaction (
     bind (reading id) (\<lambda>s.
     bind (found (Not_Found ''draft'') (draft_of draft s)) (\<lambda>d.
     bind (require (fd_current d) (Conflict ''contract'')) (\<lambda>_.
     bind (require (fd_revision d = expected) (Conflict ''revision'')) (\<lambda>_.
     bind (found (Conflict ''binding'') (binding_of draft s)) (\<lambda>b.
     bind (require (unsent d s) (Conflict ''confirmed'')) (\<lambda>_.
     let rows = sort_key ct_source
       (filter (\<lambda>r. ct_client r = bn_client b \<and> ct_draft_key r = bn_draft_key b) (contributions s))
     in bind (require (rows \<noteq> []) (Conflict ''contributions'')) (\<lambda>_.
     bind (of_result (merge_machine_payloads e (map ct_payload rows))) (\<lambda>merged.
     bind (of_result (validate_payload e i merged)) (\<lambda>_.
     bind (require (bn_scope b \<in> set (binding_scopes merged)) (Conflict ''scope'')) (\<lambda>_.
     let revision = expected + 1; sha = sha256_jcs e (payload_json merged)
     in bind (writing (update_draft draft (\<lambda>x. x\<lparr>fd_revision := revision, fd_status := Ready_Review,
          fd_payload := merged, fd_confirmation := None, fd_actor := actor, fd_preparer := None,
          fd_prepared_revision := None, fd_updated := now_text now\<rparr>))) (\<lambda>_.
        bind (writing (update_binding (bn_client b) (bn_draft_key b)
          (\<lambda>x. x\<lparr>bn_revision := revision, bn_sha := sha\<rparr>))) (\<lambda>_.
        append_fq_audit e now ''five_quantity_machine_sync_resumed'' actor
          (resumed_json draft revision (sha256_jcs e (payload_json (fd_payload d))) sha rows)))))))))))))))
     (\<lambda>_. bind (reading (draft_of draft)) (found (Not_Found ''draft'')))"

definition saved_json :: "ingest_env \<Rightarrow> string \<Rightarrow> nat \<Rightarrow> payload \<Rightarrow> json" where
  "saved_json e draft revision p = JObj
     [(''draft_id'', JStr draft), (''revision'', json_int (int revision)),
      (''payload_sha256'', JStr (sha256_jcs e (payload_json p)))]"

text \<open>
  \<open>lineage\<close> is the check of a correction against the message it corrects
  (\<open>_verify_archived_submission\<close> and the locked fields), which reads the archive.
\<close>

definition replace_draft ::
    "ingest_env \<Rightarrow> moment \<Rightarrow> (string \<Rightarrow> bool) \<Rightarrow> (draft_row \<Rightarrow> payload \<Rightarrow> unit result) \<Rightarrow> string \<Rightarrow> nat \<Rightarrow>
      payload \<Rightarrow> string \<Rightarrow> draft_row aop" where
  "replace_draft e now may_prepare lineage draft expected p actor =
     bind (require (may_prepare actor) (Blocked ''preparer'')) (\<lambda>_. bind (one_transaction (
     bind (reading id) (\<lambda>s.
     bind (found (Not_Found ''draft'') (draft_of draft s)) (\<lambda>d.
     bind (require (fd_current d) (Conflict ''contract'')) (\<lambda>_.
     bind (require (fd_revision d = expected) (Conflict ''revision'')) (\<lambda>_.
     bind (require (fd_status d \<notin> {Queued, Submitted, Acknowledged, Discarded}) (Conflict ''status'')) (\<lambda>_.
     bind (of_result (if fd_predecessor d = None then Inr () else lineage d p)) (\<lambda>_.
     let revision = expected + 1
     in bind (writing (update_draft draft (\<lambda>x. x\<lparr>fd_revision := revision, fd_status := Ready_Review,
          fd_payload := p, fd_confirmation := None, fd_actor := actor, fd_preparer := Some actor,
          fd_prepared_revision := Some revision, fd_updated := now_text now\<rparr>))) (\<lambda>_.
        append_fq_audit e now ''five_quantity_review_saved'' actor (saved_json e draft revision p))))))))))
     (\<lambda>_. bind (reading (draft_of draft)) (found (Not_Found ''draft''))))"

definition discarded_json :: "string \<Rightarrow> string \<Rightarrow> nat \<Rightarrow> string \<Rightarrow> json" where
  "discarded_json draft import_id revision reason = JObj
     [(''draft_id'', JStr draft), (''import_id'', JStr import_id),
      (''revision'', json_int (int revision)), (''reason'', JStr reason)]"

definition discard_draft ::
    "ingest_env \<Rightarrow> moment \<Rightarrow> string \<Rightarrow> nat \<Rightarrow> string \<Rightarrow> string \<Rightarrow> draft_row aop" where
  "discard_draft e now draft expected actor reason =
     bind (require (plain_text 1000 reason) (Bad_Request ''reason'')) (\<lambda>_. bind (one_transaction (
     bind (reading id) (\<lambda>s.
     bind (found (Not_Found ''draft'') (draft_of draft s)) (\<lambda>d.
     bind (require (fd_current d) (Conflict ''contract'')) (\<lambda>_.
     bind (require (fd_revision d = expected) (Conflict ''revision'')) (\<lambda>_.
     if fd_status d = Discarded then ret ()
     else bind (require (fd_predecessor d = None) (Conflict ''correction'')) (\<lambda>_.
     bind (require (unsent d s) (Conflict ''confirmed'')) (\<lambda>_.
     let revision = expected + 1
     in bind (writing (update_draft draft (\<lambda>x. x\<lparr>fd_status := Discarded, fd_revision := revision,
          fd_updated := now_text now\<rparr>))) (\<lambda>_.
        bind (writing (\<lambda>s. s\<lparr>import_files := map (\<lambda>x. if im_id x = fd_import d
          then x\<lparr>im_status := Import_Discarded\<rparr> else x) (import_files s)\<rparr>)) (\<lambda>_.
        append_fq_audit e now ''five_quantity_draft_discarded'' actor
          (discarded_json draft (fd_import d) revision (python_strip reason))))))))))))
     (\<lambda>_. bind (reading (draft_of draft)) (found (Not_Found ''draft''))))"

text \<open>
  Confirming a draft (\<open>confirm_draft\<close> and \<open>confirm_and_enqueue\<close> of \<open>five_quantity_runtime.py\<close>):
  the gates a draft passes before its submission is queued, checked once before the message is
  built and again in the transaction that queues it.
\<close>

record confirmation =
  cf_actor :: string
  cf_name :: string
  cf_role :: string
  cf_attestation :: string
  cf_at :: string
  cf_revision :: nat
  cf_sha :: string

definition confirmation_json :: "confirmation \<Rightarrow> json" where
  "confirmation_json c = JObj
     [(''actor_id'', JStr (cf_actor c)), (''confirmer_name'', JStr (cf_name c)),
      (''role'', JStr (cf_role c)), (''attestation'', JStr (cf_attestation c)),
      (''confirmed_at'', JStr (cf_at c)), (''draft_revision'', json_int (int (cf_revision c))),
      (''payload_sha256'', JStr (cf_sha c))]"

text \<open>The message: its payload without and with the confirmation it carries.\<close>

record submission_message =
  sm_id :: string
  sm_correlation :: string
  sm_causation :: "string option"
  sm_key :: string
  sm_revision :: nat
  sm_predecessor :: "(string \<times> string) option"
  sm_payload :: payload
  sm_confirmed :: bool
  sm_confirmer :: string
  sm_name :: string
  sm_role :: string
  sm_at :: string
  sm_content_sha :: string

text \<open>
  \<open>four_eyes\<close>: the double check is on. \<open>policies\<close>: the configured sources. \<open>signed\<close>: the
  HMAC of a stored message verifies. \<open>lineage\<close>: a correction continues the message it
  corrects, as archived; a first submission has no such check.
\<close>

record review_settings =
  four_eyes :: bool
  policies :: "source_policy list"
  signed :: "submission_message \<Rightarrow> bool"
  lineage :: "draft_row \<Rightarrow> submission_message \<Rightarrow> unit result"

definition first_lineage :: "draft_row \<Rightarrow> submission_message \<Rightarrow> bool" where
  "first_lineage d m \<longleftrightarrow> fd_predecessor d = None \<and> fd_predecessor_sha d = None
     \<and> sm_predecessor m = None \<and> sm_causation m = None \<and> sm_correlation m = sm_id m"

definition independent_actor :: "review_settings \<Rightarrow> draft_row \<Rightarrow> string \<Rightarrow> bool" where
  "independent_actor g d actor \<longleftrightarrow> four_eyes g \<longrightarrow>
     fd_actor d \<noteq> [] \<and> actor \<noteq> fd_actor d
     \<and> (case fd_preparer d of None \<Rightarrow> False | Some p \<Rightarrow> p \<noteq> [] \<and> actor \<noteq> p)
     \<and> fd_prepared_revision d = Some (fd_revision d)"

text \<open>The message, the draft and the confirmation name the same content, person and revision.\<close>

definition exactly_bound ::
    "ingest_env \<Rightarrow> draft_row \<Rightarrow> submission_message \<Rightarrow> confirmation \<Rightarrow> string \<Rightarrow> bool" where
  "exactly_bound e d m c actor \<longleftrightarrow>
     sha256_jcs e (payload_json (sm_payload m)) = sha256_jcs e (payload_json (fd_payload d))
     \<and> cf_actor c = actor \<and> cf_revision c = fd_revision d
     \<and> cf_sha c = sha256_jcs e (payload_json (fd_payload d))
     \<and> sm_confirmed m \<and> sm_confirmer m = cf_actor c \<and> sm_name m = cf_name c
     \<and> sm_role m = cf_role c \<and> sm_at m = cf_at c
     \<and> sm_content_sha m = sha256_jcs e (confirmation_json c)"

definition fresh_enough :: "overall_freshness \<Rightarrow> bool" where
  "fresh_enough f \<longleftrightarrow> f = All_Fresh \<or> f = Not_Applicable"

text \<open>The stored preflight of the latest completed event of the draft.\<close>

definition latest_preflight :: "string \<Rightarrow> agent_db \<Rightarrow> preflight option" where
  "latest_preflight draft s =
     (case sort_key (\<lambda>v. (case iv_completed v of None \<Rightarrow> [] | Some t \<Rightarrow> t, iv_created v, iv_id v))
        (filter (\<lambda>v. iv_draft v = Some draft \<and> iv_status v = Event_Completed \<and> iv_preflight v \<noteq> None)
          (events s)) of
        [] \<Rightarrow> None
      | v # vs \<Rightarrow> iv_preflight (List.last (v # vs)))"

definition preflight_current :: "ingest_env \<Rightarrow> draft_row \<Rightarrow> preflight option \<Rightarrow> bool" where
  "preflight_current e d p \<longleftrightarrow>
     (case p of None \<Rightarrow> False
      | Some f \<Rightarrow> pf_revision f = fd_revision d
          \<and> pf_payload_sha f = sha256_jcs e (payload_json (fd_payload d)))"

definition recomputed_json :: "string \<Rightarrow> bool \<Rightarrow> preflight \<Rightarrow> json" where
  "recomputed_json draft missing p = JObj
     [(''draft_id'', JStr draft), (''reason'', JStr (if missing then ''missing'' else ''obsolete'')),
      (''preflight'', JObj
         [(''bound_revision'', json_int (int (pf_revision p))),
          (''payload_sha256'', JStr (pf_payload_sha p)),
          (''missing_count'', json_int (int (pf_missing p))),
          (''arithmetic_mismatch_count'', json_int (int (length (pf_mismatches p)))),
          (''source_count'', json_int (int (pf_sources p)))])]"

definition refresh_preflight ::
    "ingest_env \<Rightarrow> moment \<Rightarrow> draft_row \<Rightarrow> string \<Rightarrow> unit aop" where
  "refresh_preflight e now d actor = bind (reading id) (\<lambda>s.
     if binding_of (fd_id d) s = None \<or> preflight_current e d (latest_preflight (fd_id d) s) then ret ()
     else bind (of_result (machine_preflight e (fd_payload d) (fd_revision d))) (\<lambda>p.
       append_fq_audit e now ''five_quantity_machine_preflight_recomputed'' actor
         (recomputed_json (fd_id d) (latest_preflight (fd_id d) s = None) p)))"

text \<open>The payload as it is signed, with the confirmation in it.\<close>

definition signed_payload_json :: "submission_message \<Rightarrow> json" where
  "signed_payload_json m =
     (case payload_json (sm_payload m) of
        JObj kvs \<Rightarrow> JObj (kvs @ [(''human_confirmation'', JObj
          [(''confirmed'', JBool (sm_confirmed m)), (''confirmer_id'', JStr (sm_confirmer m)),
           (''confirmer_name'', JStr (sm_name m)), (''role'', JStr (sm_role m)),
           (''confirmed_at'', JStr (sm_at m)), (''content_sha256'', JStr (sm_content_sha m))])])
      | d \<Rightarrow> d)"

definition queued_json :: "ingest_env \<Rightarrow> string \<Rightarrow> submission_message \<Rightarrow> json" where
  "queued_json e draft m = JObj
     [(''draft_id'', JStr draft), (''message_id'', JStr (sm_id m)),
      (''payload_sha256'', JStr (sha256_jcs e (signed_payload_json m)))]"

definition insert_submission :: "submission_row \<Rightarrow> unit aop" where
  "insert_submission r = bind (reading (\<lambda>s. list_ex
       (\<lambda>x. fo_message x = fo_message r \<or> fo_key x = fo_key r) (submissions s))) (\<lambda>clash.
     bind (require (\<not> clash) Constraint_Violated) (\<lambda>_.
     writing (\<lambda>s. s\<lparr>submissions := submissions s @ [r]\<rparr>)))"

definition enqueue ::
    "ingest_env \<Rightarrow> review_settings \<Rightarrow> moment \<Rightarrow> draft_row \<Rightarrow> confirmation \<Rightarrow> submission_message \<Rightarrow> string \<Rightarrow>
      unit aop" where
  "enqueue e g now d c m actor =
     bind (require (exactly_bound e d m c actor) (Conflict ''binding'')) (\<lambda>_.
     bind (reading (\<lambda>s. find (\<lambda>x. fo_key x = sm_key m) (submissions s))) (\<lambda>same.
     bind (require (case same of None \<Rightarrow> True | Some x \<Rightarrow> fo_draft x = fd_id d) (Conflict ''submitted'')) (\<lambda>_.
     bind (source_health_for_draft e (fd_id d) (policies g) (clock now)) (\<lambda>(views, overall, stale).
     bind (require (fresh_enough overall) (Blocked ''stale sources'')) (\<lambda>_.
     bind (refresh_preflight e now d actor) (\<lambda>_.
     bind (reading (\<lambda>s. list_ex (\<lambda>x. fd_id x \<noteq> fd_id d \<and> fd_message x = Some (sm_id m)) (drafts s)))
       (\<lambda>clash.
     bind (require (\<not> clash) Constraint_Violated) (\<lambda>_.
     bind (writing (update_draft (fd_id d) (\<lambda>x. x\<lparr>fd_status := Queued,
       fd_confirmation := Some (confirmation_json c), fd_message := Some (sm_id m),
       fd_correlation := Some (sm_correlation m), fd_updated := now_text now\<rparr>))) (\<lambda>_.
     bind (insert_submission \<lparr>fo_message = sm_id m, fo_draft = fd_id d, fo_key = sm_key m\<rparr>) (\<lambda>_.
     append_fq_audit e now
       (if actor = ''system-watcher'' then ''five_quantity_automatically_queued''
        else ''five_quantity_confirmed_and_queued'') actor (queued_json e (fd_id d) m)))))))))))"

definition confirm_and_enqueue ::
    "ingest_env \<Rightarrow> review_settings \<Rightarrow> identity \<Rightarrow> moment \<Rightarrow> string \<Rightarrow> nat \<Rightarrow> confirmation \<Rightarrow>
      submission_message \<Rightarrow> string \<Rightarrow> draft_row aop" where
  "confirm_and_enqueue e g i now draft expected c m actor =
     bind (require (valid_payload e i (sm_payload m) \<and> signed g m) (Conflict ''message'')) (\<lambda>_.
     bind (one_transaction (bind (reading id) (\<lambda>s.
       bind (require (audit_intact e s) (Conflict ''audit'')) (\<lambda>_.
       bind (found (Not_Found ''draft'') (draft_of draft s)) (\<lambda>d.
       bind (require (fd_current d) (Conflict ''contract'')) (\<lambda>_.
       bind (require (fd_revision d = expected) (Conflict ''revision'')) (\<lambda>_.
       bind (require (sm_revision m = fd_submission_revision d) (Conflict ''submission revision'')) (\<lambda>_.
       bind (of_result (if fd_submission_revision d = 1
         then (if first_lineage d m then Inr () else Inl (Conflict ''lineage'')) else lineage g d m)) (\<lambda>_.
       bind (require (independent_actor g d actor) (Blocked ''four eyes'')) (\<lambda>_.
       bind (require (fd_status d \<noteq> Discarded) (Conflict ''discarded'')) (\<lambda>_.
       if fd_status d \<in> {Queued, Submitted, Acknowledged}
       then require (submission_pending draft s) (Conflict ''outbox'')
       else enqueue e g now d c m actor)))))))))))
     (\<lambda>_. bind (reading (draft_of draft)) (found (Not_Found ''draft''))))"

text \<open>
  \<open>confirm_draft\<close> with the UUID of the message. \<open>correlation_id\<close> of a first submission is
  another fresh UUID in the code, which \<open>_base_message\<close> replaces by the message's own.
\<close>

definition confirm_draft ::
    "ingest_env \<Rightarrow> review_settings \<Rightarrow> identity \<Rightarrow> moment \<Rightarrow> string \<Rightarrow> nat \<Rightarrow> string \<Rightarrow> string \<Rightarrow> string \<Rightarrow>
      string \<Rightarrow> bool \<Rightarrow> string \<Rightarrow> draft_row aop" where
  "confirm_draft e g i now draft expected actor name role attestation accepted message_id =
     bind (require (actor \<noteq> ''demo'') (Blocked ''demo'')) (\<lambda>_.
     bind (require accepted (Blocked ''accepted'')) (\<lambda>_.
     bind (bind (reading (draft_of draft)) (found (Not_Found ''draft''))) (\<lambda>d.
     bind (require (fd_current d) (Blocked ''contract'')) (\<lambda>_.
     bind (require (fd_revision d = expected) (Conflict ''revision'')) (\<lambda>_.
     bind (machine_sync_state e draft) (\<lambda>sync.
     bind (if sync = Not_Machine then ret ()
       else bind (source_health_for_draft e draft (policies g) (clock now)) (\<lambda>(views, overall, stale).
         require (overall = All_Fresh) (Blocked ''stale sources''))) (\<lambda>_.
     bind (require (plain_text 128 actor \<and> plain_text 128 name \<and> plain_text 128 role
       \<and> plain_text 1000 attestation) (Bad_Request ''text'')) (\<lambda>_.
     let c = \<lparr>cf_actor = python_strip actor, cf_name = python_strip name, cf_role = python_strip role,
           cf_attestation = python_strip attestation, cf_at = now_text now, cf_revision = expected,
           cf_sha = sha256_jcs e (payload_json (fd_payload d))\<rparr>
     in bind (of_result (validate_payload e i (fd_payload d))) (\<lambda>_.
        bind (require (fd_submission_revision d = 1
          \<or> fd_correlation d \<noteq> None \<and> fd_predecessor d \<noteq> None \<and> fd_predecessor_sha d \<noteq> None)
          (Conflict ''correction'')) (\<lambda>_.
        let first = fd_submission_revision d = 1
        in confirm_and_enqueue e g i now draft expected c
          \<lparr>sm_id = message_id,
           sm_correlation = (if first then message_id else the (fd_correlation d)),
           sm_causation = (if first then None else fd_predecessor d),
           sm_key = ''tq3.'' @ id_mine_id i @ ''.'' @ draft @ ''.r'' @ decimal (fd_submission_revision d),
           sm_revision = fd_submission_revision d,
           sm_predecessor = (if first then None
             else Some (the (fd_predecessor d), the (fd_predecessor_sha d))),
           sm_payload = fd_payload d, sm_confirmed = True, sm_confirmer = actor,
           sm_name = python_strip name, sm_role = python_strip role, sm_at = now_text now,
           sm_content_sha = sha256_jcs e (confirmation_json c)\<rparr> actor))))))))))"

end
