(* ===== verification/Ingest_Handler.thy ===== *)
theory Ingest_Handler
  imports Ingest_Confirm
begin

text \<open>
  One machine event from claim to answer: \<open>MachineAutofillCoordinator.ingest\<close> of
  \<open>machine_ingestion.py\<close> and the part of \<open>ingest_machine_source\<close> of
  \<open>five_quantity_runtime.py\<close> that follows the import, as a program whose steps are the
  transactions, so that handlers can run side by side and stop anywhere.
\<close>

section \<open>The automatic review\<close>

definition json_items :: "json \<Rightarrow> json list" where
  "json_items j = (case j of JArr xs \<Rightarrow> xs | _ \<Rightarrow> [])"

definition blocking_kinds :: "string list" where
  "blocking_kinds = [''duplicate_column_mapping'', ''skipped_row'', ''formula_like_cell'',
     ''invalid_numeric_cell'', ''legacy_mine_entry_alias'']"

definition blocked_content :: "json \<Rightarrow> bool" where
  "blocked_content suggestions \<longleftrightarrow>
     list_ex (\<lambda>j. case text_field ''kind'' j of None \<Rightarrow> False | Some k \<Rightarrow> k \<in> set blocking_kinds)
       (json_items suggestions)
     \<or> (case find_last (\<lambda>j. text_field ''kind'' j = Some ''automatic_mapping_check'') (json_items suggestions) of
          None \<Rightarrow> False
        | Some j \<Rightarrow> (case field ''blocked_columns'' j of Some (JArr (x # xs)) \<Rightarrow> True | _ \<Rightarrow> False))"

record automatic_review =
  av_send :: bool
  av_reasons :: "string list"
  av_at :: string
  av_content_sha :: string

definition check_automatic_import ::
    "ingest_env \<Rightarrow> bool \<Rightarrow> moment \<Rightarrow> json \<Rightarrow> payload \<Rightarrow> string \<Rightarrow> automatic_review result" where
  "check_automatic_import e double_check now suggestions p content_sha =
     and_then (machine_preflight e p 1) (\<lambda>pre.
       let reasons = (if double_check then [''source_warning''] else [])
             @ (if pf_mismatches pre \<noteq> [] then [''conflicting_values''] else [])
             @ (if blocked_content suggestions then [''source_warning''] else [])
       in Inr \<lparr>av_send = (reasons = []),
               av_reasons = (if reasons = [] then [''none''] else first_occurrences reasons),
               av_at = now_text now, av_content_sha = content_sha\<rparr>)"

text \<open>
  The document of a review, without its readable summary, the digest of the preflight and the
  fingerprint of the columns, which nothing in the model reads.
\<close>

definition review_json :: "automatic_review \<Rightarrow> (string \<times> json) list" where
  "review_json r =
     [(''contract_version'', JStr ''production-batch-deterministic-check/v1''),
      (''decision'', JStr (if av_send r then ''auto_send'' else ''needs_review'')),
      (''reason_codes'', json_strs (av_reasons r)), (''reviewed_at'', JStr (av_at r)),
      (''model'', JNull), (''source_content_sha256'', JStr (av_content_sha r))]"

definition annotate_automatic_review ::
    "ingest_env \<Rightarrow> moment \<Rightarrow> string \<Rightarrow> automatic_review \<Rightarrow> string \<Rightarrow> unit aop" where
  "annotate_automatic_review e now import_id r actor = one_transaction (
     bind (reading (\<lambda>s. find (\<lambda>x. im_id x = import_id) (import_files s))) (\<lambda>known.
     bind (found (Not_Found ''import'') known) (\<lambda>x.
     case im_suggestions x of
       JArr items \<Rightarrow>
         let sha = sha256_jcs e (JObj (review_json r));
             item = JObj ((''kind'', JStr ''automatic_dispatch_review'') # review_json r
               @ [(''review_sha256'', JStr sha)])
         in bind (writing (\<lambda>s. s\<lparr>import_files := map (\<lambda>y. if im_id y = import_id
              then y\<lparr>im_suggestions := JArr (items @ [item]),
                     im_status := (if av_send r then Automatic_Ready else Needs_Review)\<rparr>
              else y) (import_files s)\<rparr>)) (\<lambda>_.
            append_fq_audit e now ''five_quantity_automatic_review_completed'' actor (JObj
              [(''import_id'', JStr import_id), (''draft_id'', json_opt (im_draft x)),
               (''decision'', JStr (if av_send r then ''auto_send'' else ''needs_review'')),
               (''reason_codes'', json_strs (av_reasons r)), (''review_sha256'', JStr sha)]))
     | _ \<Rightarrow> raise (Conflict ''suggestions''))))"

text \<open>The import a stored summary names.\<close>

definition summary_import :: "json \<Rightarrow> string" where
  "summary_import j = (case text_field ''import_id'' j of None \<Rightarrow> [] | Some t \<Rightarrow> t)"

definition review_import ::
    "ingest_env \<Rightarrow> review_settings \<Rightarrow> moment \<Rightarrow> import_result \<Rightarrow> machine_import \<Rightarrow> string \<Rightarrow>
      (draft_row \<times> automatic_review) aop" where
  "review_import e g now r m actor =
     bind (bind (reading (draft_of (ix_draft r))) (found (Not_Found ''draft''))) (\<lambda>d.
     bind (of_result (check_automatic_import e (four_eyes g) now (mi_suggestions m) (fd_payload d) (ix_sha r)))
       (\<lambda>review.
     bind (annotate_automatic_review e now (summary_import (ix_summary r)) review actor)
       (\<lambda>_. ret (d, review))))"

text \<open>
  \<open>confirm_draft\<close> by the program itself; an exception it raises is recorded as a review that
  needs a person. The name, the role and the attestation stand for the fixed Chinese texts of the
  code. Sending the queued message at once is not part of the model.
\<close>

definition auto_dispatch ::
    "ingest_env \<Rightarrow> review_settings \<Rightarrow> identity \<Rightarrow> moment \<Rightarrow> import_result \<Rightarrow> draft_row \<Rightarrow> automatic_review \<Rightarrow>
      string \<Rightarrow> string \<Rightarrow> string \<Rightarrow> bool aop" where
  "auto_dispatch e g i now r d review attestation message_id actor s =
     (if \<not> av_send review then (Inr False, s)
      else case confirm_draft e g i now (ix_draft r) (fd_revision d) ''system-watcher''
             ''MineGuard'' ''agent'' attestation True message_id s of
          (Inr _, t) \<Rightarrow> (Inr True, t)
        | (Inl _, t) \<Rightarrow> bind (annotate_automatic_review e now (summary_import (ix_summary r))
              (review\<lparr>av_send := False, av_reasons := [''source_warning'']\<rparr>) actor) (\<lambda>_. ret False) t)"

section \<open>The program of a handler\<close>

text \<open>What the preparation of the file (parsing, mapping, first validation) gives.\<close>

datatype file_outcome = Prepared machine_import | Not_Prepared ingest_error

datatype answer =
    Answered json bool
  | Refused_Event json bool
  | Busy
  | Raised ingest_error

datatype phase =
    At_Claim
  | At_Import event_row bool
  | At_Review event_row bool machine_import import_result
  | At_Dispatch event_row bool import_result draft_row automatic_review
  | At_Read event_row bool
  | At_Complete event_row bool
  | At_Reject event_row ingest_error
  | At_Release event_row answer
  | Finished answer

text \<open>The exceptions that reject an event; every other one leaves it to be retried.\<close>

fun rejecting :: "ingest_error \<Rightarrow> bool" where
  "rejecting (Conflict _) = True"
| "rejecting (Bad_Request _) = True"
| "rejecting Bad_Content = True"
| "rejecting _ = False"

fun failure_code :: "ingest_error \<Rightarrow> string" where
  "failure_code (Conflict _) = ''connector_source_conflict''"
| "failure_code _ = ''connector_source_invalid''"

fun failure_status :: "ingest_error \<Rightarrow> int" where
  "failure_status (Conflict _) = 409"
| "failure_status Bad_Content = 422"
| "failure_status _ = 400"

text \<open>The stored refusal, without the text of the exception.\<close>

definition safe_failure :: "moment \<Rightarrow> event_row \<Rightarrow> ingest_error \<Rightarrow> json" where
  "safe_failure now v x = JObj
     [(''code'', JStr (failure_code x)), (''http_status'', json_int (failure_status x)),
      (''ingestion_id'', JStr (iv_id v)), (''source_id'', JStr (iv_source v)),
      (''source_revision'', json_int (int (iv_revision v))), (''recorded_at'', JStr (now_text now))]"

definition import_failed :: "event_row \<Rightarrow> ingest_error \<Rightarrow> phase" where
  "import_failed v x = (if rejecting x then At_Reject v x else At_Release v (Raised x))"

text \<open>The public preflight, without its calendar coverage, warnings and time.\<close>

definition preflight_json :: "preflight option \<Rightarrow> json" where
  "preflight_json p = (case p of None \<Rightarrow> JNull | Some f \<Rightarrow> JObj
     [(''status'', JStr (if pf_ready f then ''ready_for_dispatch'' else ''attention_required'')),
      (''bound_revision'', json_int (int (pf_revision f))),
      (''payload_sha256_prefix'', JStr (take 12 (pf_payload_sha f))),
      (''missing_count'', json_int (int (pf_missing f))),
      (''arithmetic_mismatch_count'', json_int (int (length (pf_mismatches f)))),
      (''source_count'', json_int (int (pf_sources f)))])"

definition preview_json :: "event_row \<Rightarrow> json" where
  "preview_json v = JObj
     [(''source_id'', JStr (iv_source v)), (''source_revision'', json_int (int (iv_revision v))),
      (''source_name'', JStr (iv_source_name v)), (''source_system'', JStr (iv_source_system v)),
      (''format'', JStr (iv_format v)), (''observed_at'', JStr (iv_observed v)),
      (''coverage_as_of'', json_opt (iv_coverage v)), (''request_hash'', JStr (take 12 (iv_request_sha v))),
      (''draft_revision'', case iv_draft_revision v of None \<Rightarrow> JNull | Some n \<Rightarrow> json_int (int n)),
      (''merge'', case Option.bind (iv_summary v) (field ''merge'') of None \<Rightarrow> JObj [] | Some j \<Rightarrow> j),
      (''review_required'', JBool True), (''raw_content_retained'', JBool False)]"

text \<open>The answer; the Chinese display name of the workflow is left out.\<close>

definition result_json :: "ingest_request \<Rightarrow> event_row \<Rightarrow> bool \<Rightarrow> json" where
  "result_json q v created = JObj
     [(''contract_version'', JStr ''enterprise-autofill-ingestion-result/v1''),
      (''ingestion_id'', JStr (iv_id v)), (''event_id'', JStr (iv_event v)),
      (''draft_key'', JStr (iv_draft_key v)), (''draft_id'', json_opt (iv_draft v)),
      (''status'', JStr ''completed''), (''idempotent_replay'', JBool (\<not> created)),
      (''import'', case iv_summary v of None \<Rightarrow> JObj [] | Some j \<Rightarrow> j),
      (''autofill_preview'', preview_json v),
      (''workflow'', JObj
         [(''triggered'', JBool (ir_trigger q)), (''workflow_name'', JStr (ir_workflow q)),
          (''execution_mode'', JStr ''v2_data_readiness_preflight''),
          (''status'', case iv_preflight v of None \<Rightarrow> JNull
             | Some f \<Rightarrow> JStr (if pf_ready f then ''ready_for_dispatch'' else ''attention_required'')),
          (''preflight'', preflight_json (iv_preflight v)), (''read_only'', JBool True),
          (''can_confirm'', JBool False), (''can_submit'', JBool False)])]"

text \<open>What one handler is given: its lease token and the arguments of its request.\<close>

record handler =
  hd_owner :: string
  hd_request :: ingest_request
  hd_required :: bool
  hd_freshness :: int

text \<open>What a step draws from outside: the time, fresh UUIDs and the prepared file.\<close>

record outside =
  ot_now :: moment
  ot_ingestion :: string
  ot_draft :: string
  ot_import :: string
  ot_message :: string
  ot_file :: file_outcome

definition import_arguments :: "handler \<Rightarrow> outside \<Rightarrow> event_row \<Rightarrow> import_call" where
  "import_arguments h x v = (let q = hd_request h; src = ir_source q in
     \<lparr>ic_ingestion = iv_id v, ic_owner = hd_owner h, ic_client = ir_client q,
      ic_draft_key = ir_draft_key q, ic_source = sr_source src, ic_revision = sr_revision src,
      ic_observed = sr_observed src, ic_coverage = sr_coverage src, ic_required = hd_required h,
      ic_freshness = hd_freshness h, ic_actor = ''connector:'' @ ir_client q,
      ic_new_draft = ot_draft x, ic_new_import = ot_import x\<rparr>)"

fun with_result :: "(ingest_error \<Rightarrow> phase) \<Rightarrow> ('a \<Rightarrow> phase) \<Rightarrow> (ingest_error + 'a) \<times> agent_db \<Rightarrow> phase \<times> agent_db" where
  "with_result f g (Inl x, s) = (f x, s)"
| "with_result f g (Inr a, s) = (g a, s)"

definition claimed :: "event_row \<times> bool \<times> bool \<Rightarrow> phase" where
  "claimed c = (case c of (v, acquired, created) \<Rightarrow>
     if iv_status v = Event_Completed then
       Finished (case Option.bind (iv_result v) (set_field ''idempotent_replay'' (JBool True)) of
         None \<Rightarrow> Raised Unexpected | Some j \<Rightarrow> Answered j False)
     else if iv_status v = Event_Rejected then
       Finished (case iv_failure v of None \<Rightarrow> Raised Unexpected | Some j \<Rightarrow> Refused_Event j True)
     else if \<not> acquired then Finished Busy
     else if iv_status v = Bound then At_Import v created else At_Complete v created)"

fun handler_step ::
    "ingest_env \<Rightarrow> review_settings \<Rightarrow> identity \<Rightarrow> handler \<Rightarrow> outside \<Rightarrow> phase \<Rightarrow> agent_db \<Rightarrow>
      phase \<times> agent_db" where
  "handler_step e g i h x At_Claim s =
     with_result (\<lambda>err. Finished (Raised err)) claimed
       (claim_connector_ingestion (ot_now x) (hd_request h) (hd_owner h) (ot_ingestion x) s)"
| "handler_step e g i h x (At_Import v created) s =
     (case ot_file x of
        Not_Prepared err \<Rightarrow> (import_failed v err, s)
      | Prepared m \<Rightarrow> with_result (import_failed v) (At_Review v created m)
          (create_or_update_machine_import e i (ot_now x) (import_arguments h x v) m s))"
| "handler_step e g i h x (At_Review v created m r) s =
     with_result (import_failed v)
       (\<lambda>(d, review). if ir_trigger (hd_request h) then At_Dispatch v created r d review
                       else At_Read v created)
       (review_import e g (ot_now x) r m (''connector:'' @ ir_client (hd_request h)) s)"
| "handler_step e g i h x (At_Dispatch v created r d review) s =
     with_result (import_failed v) (\<lambda>_. At_Read v created)
       (auto_dispatch e g i (ot_now x) r d review
         (sha256_jcs e (JObj (review_json review))) (ot_message x)
         (''connector:'' @ ir_client (hd_request h)) s)"
| "handler_step e g i h x (At_Read v created) s =
     with_result (\<lambda>err. At_Release v (Raised err)) (\<lambda>w. At_Complete w created)
       (get_connector_ingestion (iv_id v) s)"
| "handler_step e g i h x (At_Complete v created) s =
     (let j = result_json (hd_request h) v created
      in with_result (\<lambda>err. At_Release v (Raised err)) (\<lambda>_. Finished (Answered j created))
        (complete_connector_ingestion (ot_now x) (iv_id v) (hd_owner h) j s))"
| "handler_step e g i h x (At_Reject v err) s =
     (let j = safe_failure (ot_now x) v err
      in with_result (\<lambda>err. At_Release v (Raised err)) (\<lambda>_. At_Release v (Refused_Event j False))
        (reject_connector_ingestion (ot_now x) (iv_id v) (hd_owner h) j s))"
| "handler_step e g i h x (At_Release v a) s =
     with_result (\<lambda>err. Finished (Raised err)) (\<lambda>_. Finished a)
       (release_connector_ingestion (ot_now x) (iv_id v) (hd_owner h) s)"
| "handler_step e g i h x (Finished a) s = (Finished a, s)"

end
