(* ===== verification/Ingest_Progress.thy ===== *)
theory Ingest_Progress
  imports Ingest_Handler
begin

text \<open>
  What every call does to the events of the machine clients: rows are only added, their keys
  never change, their status only moves forward, what an import wrote stays, and a completed or
  rejected event is never decided again. The relation carries over every construct of the
  operations, so each call is one application of its rules.
\<close>

section \<open>The relation\<close>

fun rank :: "event_status \<Rightarrow> nat" where
  "rank Bound = 0"
| "rank Imported = 1"
| "rank Event_Completed = 2"
| "rank Event_Rejected = 2"

definition event_ident :: "event_row \<Rightarrow> (string \<times> string \<times> string \<times> string) \<times> (string \<times> nat \<times> string \<times> string option) \<times> string" where
  "event_ident r = ((iv_id r, iv_client r, iv_event r, iv_request_sha r),
     (iv_source r, iv_revision r, iv_observed r, iv_coverage r), iv_draft_key r)"

definition imported_part :: "event_row \<Rightarrow> json option \<times> nat option \<times> string option \<times> preflight option" where
  "imported_part r = (iv_summary r, iv_draft_revision r, iv_draft_sha r, iv_preflight r)"

definition row_step :: "event_row \<Rightarrow> event_row \<Rightarrow> bool" where
  "row_step r q \<longleftrightarrow> event_ident q = event_ident r \<and> rank (iv_status r) \<le> rank (iv_status q)
     \<and> (iv_status r \<noteq> Bound \<longrightarrow> imported_part q = imported_part r)
     \<and> (rank (iv_status r) = 2 \<longrightarrow> iv_status q = iv_status r \<and> iv_result q = iv_result r
          \<and> iv_failure q = iv_failure r \<and> iv_draft q = iv_draft r \<and> iv_completed q = iv_completed r)"

definition events_step :: "agent_db \<Rightarrow> agent_db \<Rightarrow> bool" where
  "events_step s t \<longleftrightarrow> length (events s) \<le> length (events t)
     \<and> (\<forall>k < length (events s). row_step (events s ! k) (events t ! k))"

lemma row_step_refl [simp]: "row_step r r"
  by (simp add: row_step_def)

lemma row_step_trans:
  assumes "row_step a b" "row_step b c"
  shows "row_step a c"
proof -
  have "iv_status a \<noteq> Bound \<Longrightarrow> iv_status b \<noteq> Bound"
    using assms(1) by (cases "iv_status a"; cases "iv_status b") (simp_all add: row_step_def)
  moreover have "rank (iv_status a) = 2 \<Longrightarrow> rank (iv_status b) = 2"
    using assms(1) by (simp add: row_step_def)
  ultimately show ?thesis using assms unfolding row_step_def by (simp add: le_trans)
qed

lemma events_step_refl [simp]: "events_step s s"
  by (simp add: events_step_def)

lemma events_step_trans: "events_step s t \<Longrightarrow> events_step t u \<Longrightarrow> events_step s u"
  unfolding events_step_def by (meson le_trans less_le_trans row_step_trans)

text \<open>The audit chain and the queued submissions only grow, and the chain stays intact.\<close>

definition history :: "ingest_env \<Rightarrow> agent_db \<Rightarrow> agent_db \<Rightarrow> bool" where
  "history e s t \<longleftrightarrow> events_step s t \<and> prefix (audit s) (audit t)
     \<and> prefix (submissions s) (submissions t) \<and> (audit_intact e s \<longrightarrow> audit_intact e t)"

lemma history_refl [simp]: "history e s s"
  by (simp add: history_def)

interpretation progress: history_relation "history e" for e
proof
  show "history e s s" for s by (rule history_refl)
  fix s t u assume "history e s t" "history e t u"
  then show "history e s u" unfolding history_def
    by (meson events_step_trans prefix_order.order_trans)
qed

text \<open>What happens to one row, wherever it is.\<close>

lemma events_step_row:
  assumes "events_step s t" "r \<in> set (events s)"
  obtains q where "q \<in> set (events t)" "row_step r q"
proof -
  obtain k where k: "k < length (events s)" "r = events s ! k"
    using assms(2) by (auto simp: in_set_conv_nth)
  with assms(1) have "row_step r (events t ! k)" "k < length (events t)"
    by (auto simp: events_step_def)
  with that show ?thesis by (meson nth_mem)
qed

lemma events_step_update:
  "(\<And>r. p r \<Longrightarrow> row_step r (f r)) \<Longrightarrow> events_step s (update_event p f s)"
  by (simp add: events_step_def update_event_def)

text \<open>The part of the state the relation reads.\<close>

definition watched :: "agent_db \<Rightarrow> event_row list \<times> fq_audit_row list \<times> submission_row list \<times> (nat \<times> string) option" where
  "watched s = (events s, audit s, submissions s, audit_anchor s)"

lemma audit_intact_same:
  "audit t = audit s \<Longrightarrow> audit_anchor t = audit_anchor s \<Longrightarrow> audit_intact e t = audit_intact e s"
  by (simp add: audit_intact_def split: option.split)

lemma history_same: "watched t = watched s \<Longrightarrow> history e s t"
  by (simp add: history_def watched_def events_step_def audit_intact_same [of t s])

lemma history_update:
  assumes "\<And>r. p r \<Longrightarrow> row_step r (f r)"
  shows "history e s (update_event p f s)"
  using events_step_update [where s = s and p = p and f = f] assms
    audit_intact_same [of "update_event p f s" s e]
  by (simp add: history_def update_event_def)

lemma history_new_event: "history e s (s\<lparr>events := events s @ [r]\<rparr>)"
  using audit_intact_same [of "s\<lparr>events := events s @ [r]\<rparr>" s e]
  by (simp add: history_def events_step_def nth_append)

lemma history_new_submission: "history e s (s\<lparr>submissions := submissions s @ [r]\<rparr>)"
  using audit_intact_same [of "s\<lparr>submissions := submissions s @ [r]\<rparr>" s e]
  by (simp add: history_def events_step_def)

section \<open>The audit chain\<close>

lemma chain_from_append:
  "chain_from e previous n (xs @ ys) =
     Option.bind (chain_from e previous n xs) (\<lambda>h. chain_from e h (n + length xs) ys)"
  by (induction xs arbitrary: previous n) simp_all

lemma chain_from_last:
  "chain_from e previous n xs = Some h \<Longrightarrow>
     h = (if xs = [] then previous else fa_hash (List.last xs))
     \<and> (xs \<noteq> [] \<longrightarrow> fa_sequence (List.last xs) = n + length xs - 1)"
  by (induction xs arbitrary: previous n) (auto split: if_splits)

lemma append_audit_effect:
  assumes "append_fq_audit e now k a d s = (Inr u, t)"
  shows "audit_intact e s \<and> audit_intact e t \<and>
    (\<exists>r anchor. t = s\<lparr>audit := audit s @ [r], audit_anchor := anchor\<rparr>
      \<and> fa_type r = k \<and> fa_actor r = a \<and> fa_details r = d)"
proof -
  let ?n = "if audit s = [] then 1 else fa_sequence (List.last (audit s)) + 1"
  let ?p = "if audit s = [] then zero_hash else fa_hash (List.last (audit s))"
  let ?h = "audit_hash e ?p ?n k a (now_text now) d"
  let ?r = "\<lparr>fa_sequence = ?n, fa_type = k, fa_actor = a, fa_occurred = now_text now,
    fa_details = d, fa_previous = ?p, fa_hash = ?h\<rparr>"
  have intact: "audit_intact e s"
    and t: "t = s\<lparr>audit := audit s @ [?r], audit_anchor := Some (?n, ?h)\<rparr>"
    using assms by (auto simp: append_fq_audit_def bind_require Let_def writing_def raise_def split: if_splits)
  from intact obtain h where h: "chain_from e zero_hash 1 (audit s) = Some h"
    by (auto simp: audit_intact_def split: option.splits)
  have n: "?n = Suc (length (audit s))" and p: "?p = h"
    using chain_from_last [OF h] by (auto split: if_splits)
  have "chain_from e zero_hash 1 (audit s @ [?r]) = Some ?h"
    using n p by (simp add: chain_from_append h [simplified])
  then have "audit_intact e t" using n by (simp add: audit_intact_def t)
  with intact t show ?thesis by auto
qed

lemma append_audit_Inl: "append_fq_audit e now k a d s = (Inl x, t) \<Longrightarrow> t = s"
  by (auto simp: append_fq_audit_def bind_require Let_def writing_def raise_def split: if_splits)

section \<open>Every call\<close>

lemma progress_transaction [evolves_rules]:
  "evolves (history e) m \<Longrightarrow> evolves (history e) (one_transaction m)"
  unfolding one_transaction_def by (rule progress.evolves_transaction, assumption, rule history_refl)

lemma progress_of_result [evolves_rules]: "evolves (history e) (of_result r)"
  unfolding of_result_def by (cases r) (auto intro: evolves_rules)

lemma progress_found [evolves_rules]: "evolves (history e) (found x r)"
  unfolding found_def by (intro evolves_rules)

lemma progress_writing_same:
  "(\<And>s. watched (f s) = watched s) \<Longrightarrow> evolves (history e) (writing f)"
  by (rule progress.evolves_writing) (rule history_same)

lemma progress_event_write:
  "(\<And>r. p r \<Longrightarrow> row_step r (f r)) \<Longrightarrow> evolves (history e) (writing (update_event p f))"
  by (rule progress.evolves_writing) (rule history_update)

lemma progress_append_audit [evolves_rules]: "evolves (history e) (append_fq_audit e now k a d)"
proof (rule evolvesI)
  fix s r t
  assume run: "append_fq_audit e now k a d s = (r, t)"
  show "history e s t"
  proof (cases r)
    case (Inl x)
    with run have "t = s" by (intro append_audit_Inl) simp
    show ?thesis unfolding \<open>t = s\<close> by (rule history_refl)
  next
    case (Inr u)
    with append_audit_effect [of e now k a d s u t] run show ?thesis
      by (auto simp: history_def events_step_def)
  qed
qed

lemma progress_register [evolves_rules]:
  "evolves (history e) (register_connector_request now client request sha timestamp)"
  unfolding register_connector_request_def
  by (intro evolves_rules progress_writing_same; simp add: watched_def)

lemma progress_claim [evolves_rules]: "evolves (history e) (claim_connector_ingestion now q owner ingestion)"
  unfolding claim_connector_ingestion_def Let_def
  by (intro evolves_rules progress_event_write progress.evolves_writing history_new_event)
     (simp add: row_step_def event_ident_def imported_part_def)

lemma progress_get [evolves_rules]: "evolves (history e) (get_connector_ingestion ingestion)"
  unfolding get_connector_ingestion_def by (intro evolves_rules)

lemma progress_complete [evolves_rules]:
  "evolves (history e) (complete_connector_ingestion now ingestion owner j)"
  unfolding complete_connector_ingestion_def
  by (intro evolves_rules progress_event_write)
     (auto simp: row_step_def event_ident_def imported_part_def)

lemma progress_release [evolves_rules]:
  "evolves (history e) (release_connector_ingestion now ingestion owner)"
  unfolding release_connector_ingestion_def
  by (intro evolves_rules progress_event_write)
     (simp add: row_step_def event_ident_def imported_part_def)

lemma progress_reject [evolves_rules]:
  "evolves (history e) (reject_connector_ingestion now ingestion owner j)"
  unfolding reject_connector_ingestion_def
  by (intro evolves_rules progress_event_write)
     (auto simp: row_step_def event_ident_def imported_part_def)

lemma progress_apply_health [evolves_rules]:
  "evolves (history e) (apply_source_health client h required freshness updated)"
  unfolding apply_source_health_def
  by (intro evolves_rules progress_writing_same) (simp add: watched_def put_source_state_def Let_def)

lemma progress_record_health [evolves_rules]:
  "evolves (history e) (record_connector_source_health now client sha h required freshness)"
  unfolding record_connector_source_health_def Let_def
  by (intro evolves_rules progress_writing_same; simp add: watched_def)

lemma progress_source_health [evolves_rules]:
  "evolves (history e) (source_health_for_draft e draft ps t)"
  unfolding source_health_for_draft_def Let_def by (intro evolves_rules)

lemma progress_inserts [evolves_rules]:
  "evolves (history e) (insert_import r)" "evolves (history e) (insert_draft d)"
  "evolves (history e) (insert_submission m)"
  unfolding insert_import_def insert_draft_def insert_submission_def
  by (intro evolves_rules progress_writing_same progress.evolves_writing history_new_submission;
      simp add: watched_def)+

lemma progress_register_file [evolves_rules]:
  "evolves (history e) (register_file e now c m draft replaced merged)"
  unfolding register_file_def by (intro evolves_rules)

lemma progress_write_draft [evolves_rules]:
  "evolves (history e) (write_draft e now c binding draft row import_id merged)"
  unfolding write_draft_def bind_new_draft_def Let_def
  by (intro evolves_rules progress_writing_same; simp add: watched_def update_binding_def update_draft_def)

lemma progress_put_contribution [evolves_rules]:
  "evolves (history e) (put_contribution now c m event import_id draft p)"
  unfolding put_contribution_def Let_def by (intro evolves_rules progress_writing_same) (simp add: watched_def)

lemma progress_carry_out [evolves_rules]: "evolves (history e) (carry_out_import e now c m p)"
  unfolding carry_out_import_def Let_def
  by (intro evolves_rules progress_writing_same progress_event_write)
     (auto simp: watched_def put_artifact_def move_contributions_def update_binding_def row_step_def event_ident_def)

lemma progress_create [evolves_rules]:
  "evolves (history e) (create_or_update_machine_import e i now c m)"
  unfolding create_or_update_machine_import_def by (intro evolves_rules)

lemma progress_sync [evolves_rules]: "evolves (history e) (machine_sync_state e draft)"
  unfolding machine_sync_state_def by (intro evolves_rules)

lemma progress_resume [evolves_rules]:
  "evolves (history e) (resume_machine_sync e i now draft expected actor)"
  unfolding resume_machine_sync_def Let_def
  by (intro evolves_rules progress_writing_same; simp add: watched_def update_draft_def update_binding_def)

lemma progress_replace [evolves_rules]:
  "evolves (history e) (replace_draft e now may lin draft expected p actor)"
  unfolding replace_draft_def Let_def
  by (intro evolves_rules progress_writing_same; simp add: watched_def update_draft_def)

lemma progress_discard [evolves_rules]:
  "evolves (history e) (discard_draft e now draft expected actor reason)"
  unfolding discard_draft_def Let_def
  by (intro evolves_rules progress_writing_same; simp add: watched_def update_draft_def)

lemma progress_enqueue [evolves_rules]: "evolves (history e) (enqueue e g now d c m actor)"
  unfolding enqueue_def refresh_preflight_def
  by (intro evolves_rules progress_writing_same; simp add: watched_def update_draft_def)

lemma progress_confirm_enqueue [evolves_rules]:
  "evolves (history e) (confirm_and_enqueue e g i now draft expected c m actor)"
  unfolding confirm_and_enqueue_def by (intro evolves_rules)

lemma progress_confirm [evolves_rules]:
  "evolves (history e) (confirm_draft e g i now draft expected actor name role att acc message_id)"
  unfolding confirm_draft_def Let_def by (intro evolves_rules)

lemma evolves_case_items [evolves_rules]:
  fixes f :: "json list \<Rightarrow> ('s, 'e, 'a) op" and m :: "('s, 'e, 'a) op"
  shows "(\<And>items. evolves R (f items)) \<Longrightarrow> evolves R m \<Longrightarrow>
     evolves R (case j of JArr items \<Rightarrow> f items | _ \<Rightarrow> m)"
  by (cases j) simp_all

lemma progress_annotate [evolves_rules]:
  "evolves (history e) (annotate_automatic_review e now import_id r actor)"
  unfolding annotate_automatic_review_def Let_def
  by (intro evolves_rules progress_writing_same) (simp add: watched_def)

lemma progress_review [evolves_rules]: "evolves (history e) (review_import e g now r m actor)"
  unfolding review_import_def by (intro evolves_rules)

lemma dispatch_evolves:
  assumes R: "history_relation R"
    and confirm: "evolves R (confirm_draft e g i now (ix_draft r) (fd_revision d) ''system-watcher''
      ''MineGuard'' ''agent'' att True message_id)"
    and noted: "evolves R (bind (annotate_automatic_review e now (summary_import (ix_summary r))
      (review\<lparr>av_send := False, av_reasons := [''source_warning'']\<rparr>) actor) (\<lambda>_. ret False))"
  shows "evolves R (auto_dispatch e g i now r d review att message_id actor)"
proof (rule evolvesI)
  fix s res t
  let ?confirm = "confirm_draft e g i now (ix_draft r) (fd_revision d) ''system-watcher''
    ''MineGuard'' ''agent'' att True message_id"
  let ?note = "bind (annotate_automatic_review e now (summary_import (ix_summary r))
    (review\<lparr>av_send := False, av_reasons := [''source_warning'']\<rparr>) actor) (\<lambda>_. ret False)"
  assume run: "auto_dispatch e g i now r d review att message_id actor s = (res, t)"
  obtain x u where x: "?confirm s = (x, u)" by fastforce
  have su: "R s u" by (rule evolvesD [OF confirm x])
  from run x consider "t = s" | "t = u" | "?note u = (res, t)"
    by (auto simp: auto_dispatch_def split: sum.splits if_splits)
  then show "R s t"
  proof cases
    case 3
    show ?thesis by (rule history_relation.rel_trans [OF R su evolvesD [OF noted 3]])
  qed (use su history_relation.rel_refl [OF R] in simp_all)
qed

lemma progress_dispatch [evolves_rules]:
  "evolves (history e) (auto_dispatch e g i now r d review att message_id actor)"
  by (intro dispatch_evolves progress.history_relation_axioms evolves_rules)

section \<open>Every step of a handler\<close>

lemma with_result_state: "with_result f g p = (ph, t) \<Longrightarrow> snd p = t"
  by (cases p; cases "fst p") auto

lemma handler_progress:
  assumes "handler_step e g i h x ph s = (ph', t)"
  shows "history e s t"
proof -
  have keep: "history e s t" if "evolves (history e) m" "with_result f g (m s) = (ph', t)"
    for m :: "'a aop" and f g
    using that with_result_state [OF that(2)] by (auto simp: evolves_def)
  show ?thesis
    using assms
    by (cases ph)
       (auto simp: Let_def split: file_outcome.splits intro: keep [rotated] evolves_rules
         history_refl)
qed

end
