(* ===== verification/Ingest_Effects.thy ===== *)
theory Ingest_Effects
  imports Ingest_Progress
begin

text \<open>
  What a successful import writes, table by table, and what the other calls leave alone: the
  facts the invariants of the drafts are proved from.
\<close>

section \<open>Parts of an import\<close>

lemma bind_InrE3:
  assumes "bind m (\<lambda>(a, b, c). f a b c) s = (Inr r, u)"
  obtains a b c t where "m s = (Inr (a, b, c), t)" and "f a b c t = (Inr r, u)"
  using assms by (auto elim!: bind_InrE)

lemma insert_import_Inr:
  "insert_import r s = (Inr u, t) \<Longrightarrow> t = s\<lparr>import_files := import_files s @ [r]\<rparr>"
  by (auto simp: insert_import_def bind_require writing_def raise_def split: if_splits)

lemma insert_draft_Inr:
  "insert_draft d s = (Inr u, t) \<Longrightarrow> t = s\<lparr>drafts := drafts s @ [d]\<rparr>
     \<and> fd_id d \<notin> fd_id ` set (drafts s)"
  by (auto simp: insert_draft_def bind_require writing_def raise_def list_ex_iff split: if_splits)

lemma register_file_Inr:
  assumes "register_file e now c m draft replaced merged s = (Inr x, t)"
  obtains files where "t = s\<lparr>import_files := files\<rparr>"
proof -
  from assms have "\<exists>files. t = s\<lparr>import_files := files\<rparr>"
    unfolding register_file_def bind_reading
    by (cases "find (\<lambda>x. im_content_sha x = mi_content_sha m) (import_files s)"; cases replaced)
       (auto simp: bind_require ret_def raise_def split: if_splits elim!: bind_InrE
         dest!: insert_import_Inr intro: exI [of _ "import_files s"])
  with that show thesis by blast
qed

text \<open>The bindings after an import.\<close>

definition bound_anew :: "ingest_env \<Rightarrow> moment \<Rightarrow> import_call \<Rightarrow> string \<Rightarrow> payload \<Rightarrow> binding_row" where
  "bound_anew e now c draft merged =
     \<lparr>bn_client = ic_client c, bn_draft_key = ic_draft_key c, bn_draft = draft,
      bn_scope = batch_span merged, bn_revision = 1,
      bn_sha = sha256_jcs e (payload_json merged), bn_created = now_text now\<rparr>"

definition rebound :: "ingest_env \<Rightarrow> string \<Rightarrow> payload \<Rightarrow> binding_row \<Rightarrow> binding_row" where
  "rebound e draft merged b = b\<lparr>bn_draft := draft, bn_scope := batch_span merged, bn_revision := 1,
     bn_sha := sha256_jcs e (payload_json merged)\<rparr>"

lemma bind_new_draft_Inr:
  "bind_new_draft e now c binding draft merged s = (Inr u, t) \<Longrightarrow>
     \<not> binding_clash (ic_client c) (ic_draft_key c) draft (batch_span merged) s \<and>
     t = (case binding of
        None \<Rightarrow> s\<lparr>bindings := bindings s @ [bound_anew e now c draft merged]\<rparr>
      | Some _ \<Rightarrow> update_binding (ic_client c) (ic_draft_key c) (rebound e draft merged) s)"
  by (cases binding)
     (auto simp: bind_new_draft_def bind_require Let_def writing_def raise_def bound_anew_def
       rebound_def [abs_def] split: if_splits)

definition redrafted :: "moment \<Rightarrow> import_call \<Rightarrow> nat \<Rightarrow> payload \<Rightarrow> draft_row \<Rightarrow> draft_row" where
  "redrafted now c revision merged d = d\<lparr>fd_revision := revision, fd_payload := merged,
     fd_actor := ic_actor c, fd_preparer := None, fd_prepared_revision := None,
     fd_updated := now_text now\<rparr>"

text \<open>The three outcomes of writing the draft: a new one, none needed, a rewritten one.\<close>

lemma write_draft_Inr:
  assumes "write_draft e now c binding draft row import_id merged s = (Inr n, t)"
  shows "case row of
      None \<Rightarrow> n = 1 \<and> draft \<notin> fd_id ` set (drafts s)
        \<and> \<not> binding_clash (ic_client c) (ic_draft_key c) draft (batch_span merged) s
        \<and> (let u = s\<lparr>drafts := drafts s @ [new_draft draft import_id (ic_actor c) merged (now_text now)]\<rparr>
           in t = (case binding of
               None \<Rightarrow> u\<lparr>bindings := bindings s @ [bound_anew e now c draft merged]\<rparr>
             | Some _ \<Rightarrow> update_binding (ic_client c) (ic_draft_key c) (rebound e draft merged) u))
    | Some d \<Rightarrow>
        if sha256_jcs e (payload_json (fd_payload d)) = sha256_jcs e (payload_json merged)
        then n = fd_revision d \<and> t = s
        else n = fd_revision d + 1 \<and> t = update_draft draft (redrafted now c (fd_revision d + 1) merged) s"
proof (cases row)
  case None
  let ?d = "new_draft draft import_id (ic_actor c) merged (now_text now)"
  from assms None obtain u x where
      u: "insert_draft ?d s = (Inr x, u)"
    and v: "bind (bind_new_draft e now c binding draft merged) (\<lambda>_. ret 1) u = (Inr n, t)"
    by (auto simp: write_draft_def elim: bind_InrE)
  from v obtain y where w: "bind_new_draft e now c binding draft merged u = (Inr y, t)" and n: "n = 1"
    by (auto simp: ret_def elim!: bind_InrE)
  note d = insert_draft_Inr [OF u] and b = bind_new_draft_Inr [OF w]
  have "binding_clash (ic_client c) (ic_draft_key c) draft (batch_span merged) u
      = binding_clash (ic_client c) (ic_draft_key c) draft (batch_span merged) s"
    using d by (simp add: binding_clash_def)
  with d b n None show ?thesis by (cases binding) (auto simp: Let_def new_draft_def)
next
  case (Some d)
  with assms show ?thesis
    by (auto simp: write_draft_def writing_def bind_def ret_def redrafted_def [abs_def] split: if_splits)
qed

text \<open>The contributions after an import.\<close>

definition contributed ::
    "moment \<Rightarrow> import_call \<Rightarrow> machine_import \<Rightarrow> string \<Rightarrow> string \<Rightarrow> payload \<Rightarrow> contribution_row \<Rightarrow> contribution_row" where
  "contributed now c m event import_id p r = r\<lparr>ct_revision := ic_revision c, ct_event := event,
     ct_ingestion := ic_ingestion c, ct_import := import_id, ct_content_sha := mi_content_sha m,
     ct_observed := ic_observed c, ct_coverage := ic_coverage c, ct_payload := p,
     ct_updated := now_text now\<rparr>"

definition first_contribution ::
    "moment \<Rightarrow> import_call \<Rightarrow> machine_import \<Rightarrow> string \<Rightarrow> string \<Rightarrow> string \<Rightarrow> payload \<Rightarrow> contribution_row" where
  "first_contribution now c m event import_id draft p =
     \<lparr>ct_client = ic_client c, ct_draft_key = ic_draft_key c, ct_source = ic_source c,
      ct_revision = ic_revision c, ct_event = event, ct_ingestion = ic_ingestion c,
      ct_import = import_id, ct_draft = draft, ct_content_sha = mi_content_sha m,
      ct_observed = ic_observed c, ct_coverage = ic_coverage c, ct_payload = p,
      ct_created = now_text now, ct_updated = now_text now\<rparr>"

abbreviation own_key :: "import_call \<Rightarrow> contribution_row \<Rightarrow> bool" where
  "own_key c \<equiv> contribution_key (ic_client c) (ic_draft_key c) (ic_source c)"

definition contributions_after ::
    "moment \<Rightarrow> import_call \<Rightarrow> machine_import \<Rightarrow> string \<Rightarrow> string \<Rightarrow> string \<Rightarrow> payload \<Rightarrow>
      contribution_row list \<Rightarrow> contribution_row list" where
  "contributions_after now c m event import_id draft p rows =
     (if list_ex (own_key c) rows
      then map (\<lambda>r. if own_key c r then contributed now c m event import_id p r else r) rows
      else rows @ [first_contribution now c m event import_id draft p])"

lemma put_contribution_Inr:
  "put_contribution now c m event import_id draft p s = (Inr u, t) \<Longrightarrow>
     t = s\<lparr>contributions := contributions_after now c m event import_id draft p (contributions s)\<rparr>"
  by (auto simp: put_contribution_def Let_def bind_require writing_def raise_def contributions_after_def
      contributed_def first_contribution_def cong: if_cong split: if_splits)

lemma apply_health_Inr:
  assumes "apply_source_health client h required freshness updated s = (Inr x, t)"
  obtains states where "t = s\<lparr>source_states := states\<rparr>"
proof -
  have "\<exists>states. t = s\<lparr>source_states := states\<rparr>"
    using assms
    by (auto simp: apply_source_health_def bind_require bind_def writing_def raise_def ret_def reading_def
        put_source_state_def Let_def split: if_splits intro: exI [of _ "source_states s"])
  with that show thesis by blast
qed

lemma of_result_Inr: "of_result r s = (Inr a, t) \<longleftrightarrow> r = Inr a \<and> t = s"
  by (cases r) (auto simp: of_result_def ret_def raise_def)

lemma when_some_writing:
  "when_some x (\<lambda>_. writing f) s = (Inr u, t) \<Longrightarrow> t = (case x of None \<Rightarrow> s | Some _ \<Rightarrow> f s)"
  by (cases x) (auto simp: when_some_def ret_def writing_def)

lemma when_some_audit:
  assumes "when_some x (\<lambda>a. append_fq_audit e now k actor (f a)) s = (Inr u, t)"
  obtains rows anchor where "t = s\<lparr>audit := audit s @ rows, audit_anchor := anchor\<rparr>"
    "\<forall>r \<in> set rows. fa_type r = k"
proof (cases x)
  case None
  with assms have "t = s\<lparr>audit := audit s @ [], audit_anchor := audit_anchor s\<rparr>"
    by (simp add: when_some_def ret_def)
  with that show thesis by (metis empty_iff empty_set)
next
  case (Some a)
  with assms have "append_fq_audit e now k actor (f a) s = (Inr u, t)" by (simp add: when_some_def)
  from append_audit_effect [OF this] that show thesis by force
qed

section \<open>The whole import\<close>

definition imported_row ::
    "moment \<Rightarrow> string \<Rightarrow> json \<Rightarrow> nat \<Rightarrow> string \<Rightarrow> preflight \<Rightarrow> event_row \<Rightarrow> event_row" where
  "imported_row now draft summary revision sha check r =
     r\<lparr>iv_status := Imported, iv_draft := Some draft, iv_summary := Some summary,
       iv_draft_revision := Some revision, iv_draft_sha := Some sha,
       iv_preflight := Some check, iv_updated := now_text now\<rparr>"

record written =
  wr_files :: "import_row list"
  wr_artifacts :: "artifact_row list"
  wr_states :: "source_state_row list"
  wr_anchor :: "(nat \<times> string) option"
  wr_row :: fq_audit_row
  wr_more :: "fq_audit_row list"
  wr_import :: string
  wr_draft_import :: string
  wr_revision :: nat
  wr_summary :: json
  wr_check :: preflight

definition bindings_after ::
    "ingest_env \<Rightarrow> moment \<Rightarrow> import_call \<Rightarrow> binding_row option \<Rightarrow> string \<Rightarrow> draft_row option \<Rightarrow> nat \<Rightarrow>
      payload \<Rightarrow> binding_row list \<Rightarrow> binding_row list" where
  "bindings_after e now c binding draft row revision merged rows =
     (case binding of
        None \<Rightarrow> rows @ [bound_anew e now c draft merged]
      | Some _ \<Rightarrow> map (\<lambda>b. if binding_key (ic_client c) (ic_draft_key c) b
          then (if row = None then rebound e draft merged b else b)
            \<lparr>bn_revision := revision, bn_sha := sha256_jcs e (payload_json merged)\<rparr>
          else b) rows)"

definition drafts_after ::
    "ingest_env \<Rightarrow> moment \<Rightarrow> import_call \<Rightarrow> string \<Rightarrow> draft_row option \<Rightarrow> string \<Rightarrow> payload \<Rightarrow>
      draft_row list \<Rightarrow> draft_row list" where
  "drafts_after e now c draft row import_id merged rows =
     (case row of
        None \<Rightarrow> rows @ [new_draft draft import_id (ic_actor c) merged (now_text now)]
      | Some d \<Rightarrow>
          if sha256_jcs e (payload_json (fd_payload d)) = sha256_jcs e (payload_json merged) then rows
          else map (\<lambda>x. if fd_id x = draft then redrafted now c (fd_revision d + 1) merged x else x) rows)"

definition moved :: "import_call \<Rightarrow> string \<Rightarrow> string option \<Rightarrow> contribution_row list \<Rightarrow> contribution_row list" where
  "moved c draft replaced rows =
     (if replaced = None then rows
      else map (\<lambda>r. if ct_client r = ic_client c \<and> ct_draft_key r = ic_draft_key c
                   then r\<lparr>ct_draft := draft\<rparr> else r) rows)"

definition after_import ::
    "ingest_env \<Rightarrow> moment \<Rightarrow> import_call \<Rightarrow> machine_import \<Rightarrow> import_plan \<Rightarrow> written \<Rightarrow> agent_db \<Rightarrow> agent_db" where
  "after_import e now c m p w s =
     (case ip_target p of (draft, row, replaced) \<Rightarrow> s\<lparr>
        import_files := wr_files w,
        drafts := drafts_after e now c draft row (wr_draft_import w) (ip_merged p) (drafts s),
        bindings := bindings_after e now c (ip_binding p) draft row (wr_revision w) (ip_merged p) (bindings s),
        artifacts := wr_artifacts w,
        contributions := moved c draft replaced (contributions_after now c m (iv_event (ip_event p))
          (wr_import w) draft (ip_effective p) (contributions s)),
        source_states := wr_states w,
        events := map (\<lambda>r. if leased (ic_ingestion c) (ic_owner c) r \<and> iv_status r = Bound
          then imported_row now draft (wr_summary w) (wr_revision w)
            (sha256_jcs e (payload_json (ip_merged p))) (wr_check w) r else r) (events s),
        audit := audit s @ wr_row w # wr_more w,
        audit_anchor := wr_anchor w\<rparr>)"

definition autofilled :: "string \<Rightarrow> fq_audit_row \<Rightarrow> bool" where
  "autofilled ingestion r \<longleftrightarrow> fa_type r = ''five_quantity_machine_autofilled''
     \<and> text_field ''ingestion_id'' (fa_details r) = Some ingestion"

lemma carry_out_effect:
  assumes run: "carry_out_import e now c m p s = (Inr r, t)"
    and target: "ip_target p = (draft, row, replaced)"
    and bound: "row \<noteq> None \<Longrightarrow> ip_binding p \<noteq> None"
  obtains w where "t = after_import e now c m p w s"
    and "autofilled (ic_ingestion c) (wr_row w)"
    and "\<forall>x \<in> set (wr_more w). fa_type x = ''five_quantity_machine_draft_replaced''"
    and "\<exists>x \<in> set (events s). leased (ic_ingestion c) (ic_owner c) x \<and> iv_status x = Bound"
    and "wr_revision w = (case row of None \<Rightarrow> 1
           | Some d \<Rightarrow> if sha256_jcs e (payload_json (fd_payload d)) = sha256_jcs e (payload_json (ip_merged p))
               then fd_revision d else fd_revision d + 1)"
    and "row = None \<Longrightarrow> draft \<notin> fd_id ` set (drafts s)
           \<and> \<not> binding_clash (ic_client c) (ic_draft_key c) draft (batch_span (ip_merged p)) s"
    and "ix_draft r = draft" "ix_revision r = wr_revision w" "machine_preflight e (ip_merged p) (wr_revision w) = Inr (wr_check w)"
proof -
  let ?merged = "ip_merged p"
  let ?sha = "sha256_jcs e (payload_json ?merged)"
  let ?hit = "\<lambda>x. leased (ic_ingestion c) (ic_owner c) x \<and> iv_status x = Bound"
  from run [unfolded carry_out_import_def target prod.case Let_def] show thesis
  proof (elim bind_InrE3 bind_InrE)
    fix import_id draft_import duplicate f n w1 u2 w2 u3 w3 u4 w4 u5 w5 u6 w6 check w7 hit w8 u9 w9
      u10 w10 u11 w11 u12 w12
    let ?summary = "summary_json c import_id duplicate
      (case ip_previous p of None \<Rightarrow> False | Some q \<Rightarrow> mi_content_sha m = ct_content_sha q)
      (case ip_previous p of None \<Rightarrow> False
       | Some q \<Rightarrow> mi_content_sha m = ct_content_sha q \<and> ic_revision c = ct_revision q)
      (ip_others p + 1) ?merged"
    assume a: "register_file e now c m draft replaced ?merged s = (Inr (import_id, draft_import, duplicate), f)"
    and b: "write_draft e now c (ip_binding p) draft row draft_import ?merged f = (Inr n, w1)"
    and d: "(writing (put_artifact now c m import_id) :: unit aop) w1 = (Inr u2, w2)"
    and g: "put_contribution now c m (iv_event (ip_event p)) import_id draft (ip_effective p) w2 = (Inr u3, w3)"
    and h: "when_some replaced (\<lambda>_. writing (move_contributions c draft)) w3 = (Inr u4, w4)"
    and j: "apply_source_health (ic_client c) (snapshot_report c m (ip_event p) (ip_effective p) ?merged)
        (ic_required c) (ic_freshness c) (now_text now) w4 = (Inr u5, w5)"
    and k: "when_some (ip_binding p) (\<lambda>_. writing (update_binding (ic_client c) (ic_draft_key c)
        (\<lambda>b. b\<lparr>bn_revision := n, bn_sha := ?sha\<rparr>))) w5 = (Inr u6, w6)"
    and l: "of_result (machine_preflight e ?merged n) w6 = (Inr check, w7)"
    and o: "(reading (\<lambda>s. list_ex ?hit (events s)) :: bool aop) w7 = (Inr hit, w8)"
    and q: "require hit (Conflict ''lease'') w8 = (Inr u9, w9)"
    and v: "(writing (update_event ?hit (\<lambda>r. r\<lparr>iv_status := Imported, iv_draft := Some draft,
        iv_summary := Some ?summary, iv_draft_revision := Some n, iv_draft_sha := Some ?sha,
        iv_preflight := Some check, iv_updated := now_text now\<rparr>)) :: unit aop) w9 = (Inr u10, w10)"
    and x: "append_fq_audit e now ''five_quantity_machine_autofilled'' (ic_actor c)
        (autofilled_json c m (ip_event p) draft import_id n ?sha replaced) w10 = (Inr u11, w11)"
    and y: "when_some replaced (\<lambda>old. append_fq_audit e now ''five_quantity_machine_draft_replaced''
        (ic_actor c) (replaced_json old draft ?merged ?sha)) w11 = (Inr u12, w12)"
    and z: "(ret \<lparr>ix_draft = draft, ix_revision = n, ix_sha = ?sha, ix_summary = ?summary,
        ix_preflight = check\<rparr> :: import_result aop) w12 = (Inr r, t)"
  from a obtain fs where f: "f = s\<lparr>import_files := fs\<rparr>" by (rule register_file_Inr)
  from j obtain states where w5: "w5 = w4\<lparr>source_states := states\<rparr>" by (rule apply_health_Inr)
  note w1 = write_draft_Inr [OF b] and w3 = put_contribution_Inr [OF g] and w4 = when_some_writing [OF h]
    and w6 = when_some_writing [OF k]
  have w2: "w2 = put_artifact now c m import_id w1" using d by (simp add: writing_def)
  have check: "machine_preflight e ?merged n = Inr check" and w7: "w7 = w6"
    using l by (simp_all add: of_result_Inr)
  have w8: "w8 = w7" and hit: "hit = list_ex ?hit (events w7)" using o by (auto simp: reading_def)
  have w9: "w9 = w8" and held: hit using require_InrD [OF q] by simp_all
  have w10: "w10 = update_event ?hit (imported_row now draft ?summary n ?sha check) w9"
    using v by (simp add: writing_def imported_row_def [abs_def])
  obtain ar anchor where w11: "w11 = w10\<lparr>audit := audit w10 @ [ar], audit_anchor := anchor\<rparr>"
    and ar: "fa_type ar = ''five_quantity_machine_autofilled''"
      "fa_details ar = autofilled_json c m (ip_event p) draft import_id n ?sha replaced"
    using append_audit_effect [OF x] by auto
  obtain more anchor' where w12: "w12 = w11\<lparr>audit := audit w11 @ more, audit_anchor := anchor'\<rparr>"
    and more: "\<forall>x \<in> set more. fa_type x = ''five_quantity_machine_draft_replaced''"
    using when_some_audit [OF y] by blast
  have t: "t = w12" and r: "r = \<lparr>ix_draft = draft, ix_revision = n, ix_sha = ?sha, ix_summary = ?summary,
        ix_preflight = check\<rparr>" using z by (simp_all add: ret_def)
  let ?w = "\<lparr>wr_files = fs, wr_artifacts = artifacts w2, wr_states = states, wr_anchor = anchor',
    wr_row = ar, wr_more = more, wr_import = import_id, wr_draft_import = draft_import,
    wr_revision = n, wr_summary = ?summary, wr_check = check\<rparr>"
  have ev: "events w7 = events s"
    using w1 by (simp add: w7 w6 w5 w4 w3 w2 f put_artifact_def update_binding_def update_draft_def
      move_contributions_def Let_def split: option.splits if_splits)
  have ids: "draft \<notin> fd_id ` set (drafts s)
      \<and> \<not> binding_clash (ic_client c) (ic_draft_key c) draft (batch_span ?merged) s" if "row = None"
    using w1 that f by (simp add: binding_clash_def)
  have n: "n = (case row of None \<Rightarrow> 1
      | Some d \<Rightarrow> if sha256_jcs e (payload_json (fd_payload d)) = ?sha then fd_revision d else fd_revision d + 1)"
    using w1 by (simp split: option.splits if_splits)
  have drafts: "drafts w1 = drafts_after e now c draft row draft_import ?merged (drafts s)"
    using w1 f by (auto simp: drafts_after_def update_draft_def update_binding_def Let_def
      split: option.splits if_splits)
  obtain D B where w1e: "w1 = s\<lparr>import_files := fs, drafts := D, bindings := B\<rparr>"
  proof (rule that [of "bindings w1" "drafts w1"])
    show "w1 = s\<lparr>import_files := fs, drafts := drafts w1, bindings := bindings w1\<rparr>"
      using w1 by (simp add: f update_draft_def update_binding_def Let_def split: option.splits if_splits)
  qed
  obtain A where w2e: "w2 = w1\<lparr>artifacts := A\<rparr>"
    using that [of "artifacts w1"] that [of "artifacts w2"] by (simp add: w2 put_artifact_def split: if_splits)
  let ?rows = "contributions_after now c m (iv_event (ip_event p)) import_id draft (ip_effective p)
    (contributions s)"
  have w3e: "w3 = w2\<lparr>contributions := ?rows\<rparr>" by (simp add: w3 w2e w1e)
  have w4e: "w4 = w3\<lparr>contributions := moved c draft replaced ?rows\<rparr>"
    by (simp add: w4 w3e moved_def move_contributions_def split: option.split)
  obtain B6 where w6e: "w6 = w5\<lparr>bindings := B6\<rparr>"
    using that [of "bindings w5"] that [of "bindings w6"]
    by (simp add: w6 update_binding_def split: option.splits)
  have b5: "bindings w5 = B" by (simp add: w5 w4e w3e w2e w1e)
  have b6: "B6 = bindings w6" using arg_cong [OF w6e, of bindings] by simp
  have b1: "B = bindings w1" using arg_cong [OF w1e, of bindings] by simp
  have bindings: "B6 = bindings_after e now c (ip_binding p) draft row n ?merged (bindings s)"
  proof (cases "ip_binding p")
    case None
    with bound have "row = None" by (cases row) simp_all
    with None have "bindings w1 = bindings s @ [bound_anew e now c draft ?merged]"
      using w1 by (simp add: Let_def f)
    with None b1 b5 w6 show ?thesis by (simp add: b6 bindings_after_def)
  next
    case (Some b)
    have B6: "B6 = map (\<lambda>b. if binding_key (ic_client c) (ic_draft_key c) b
        then b\<lparr>bn_revision := n, bn_sha := ?sha\<rparr> else b) B"
      using w6 Some b5 by (simp add: b6 update_binding_def)
    show ?thesis
    proof (cases row)
      case None
      with Some have "B = map (\<lambda>b. if binding_key (ic_client c) (ic_draft_key c) b
          then rebound e draft ?merged b else b) (bindings s)"
        using w1 by (simp add: b1 f update_binding_def Let_def)
      with Some None show ?thesis
        by (simp add: B6 bindings_after_def comp_def binding_key_def rebound_def)
    next
      case (Some d)
      with w1 have "B = bindings s"
        by (simp add: b1 f update_draft_def split: if_splits)
      with \<open>ip_binding p = Some b\<close> Some show ?thesis by (simp add: B6 bindings_after_def)
    qed
  qed
  show thesis
  proof (rule that [of ?w])
    show "t = after_import e now c m p ?w s"
      using drafts
      by (simp add: t w12 w11 w10 w9 w8 w7 w6e w5 w4e w3e w2e w1e after_import_def target
          bindings update_event_def)
    show "autofilled (ic_ingestion c) (wr_row ?w)"
      using ar by (simp add: autofilled_def autofilled_json_def text_field_def field_def)
    show "\<forall>x \<in> set (wr_more ?w). fa_type x = ''five_quantity_machine_draft_replaced''" using more by simp
    show "\<exists>x \<in> set (events s). leased (ic_ingestion c) (ic_owner c) x \<and> iv_status x = Bound"
      using held hit ev by (auto simp: list_ex_iff)
  qed (use n ids r check in simp_all)
  qed
qed

end
