(* ===== verification/Ingest_Invariant.thy ===== *)
theory Ingest_Invariant
  imports Ingest_Effects
begin

text \<open>
  What every call keeps of the drafts: keys are unique, every binding names a draft, and as long
  as nobody has edited that draft it is the merge of the latest snapshots of its sources.
\<close>

section \<open>The invariant\<close>

definition key_rows :: "binding_row \<Rightarrow> agent_db \<Rightarrow> contribution_row list" where
  "key_rows b s = filter (\<lambda>r. ct_client r = bn_client b \<and> ct_draft_key r = bn_draft_key b) (contributions s)"

definition from_machine :: "ingest_env \<Rightarrow> agent_db \<Rightarrow> binding_row \<Rightarrow> draft_row \<Rightarrow> bool" where
  "from_machine e s b d \<longleftrightarrow> (\<exists>ps merged. mset ps = mset (map ct_payload (key_rows b s))
     \<and> merge_machine_payloads e ps = Inr merged
     \<and> sha256_jcs e (payload_json (fd_payload d)) = sha256_jcs e (payload_json merged)
     \<and> bn_sha b = sha256_jcs e (payload_json merged)
     \<and> bn_scope b \<in> set (binding_scopes merged))"

definition binding_ok :: "ingest_env \<Rightarrow> agent_db \<Rightarrow> binding_row \<Rightarrow> bool" where
  "binding_ok e s b \<longleftrightarrow> (\<exists>d \<in> set (drafts s). fd_id d = bn_draft b \<and> bn_revision b \<le> fd_revision d
     \<and> (fd_revision d = bn_revision b \<longrightarrow> from_machine e s b d))"

definition contribution_ident :: "contribution_row \<Rightarrow> string \<times> string \<times> string" where
  "contribution_ident r = (ct_client r, ct_draft_key r, ct_source r)"

definition binding_ident :: "binding_row \<Rightarrow> string \<times> string" where
  "binding_ident b = (bn_client b, bn_draft_key b)"

definition machine_ok :: "ingest_env \<Rightarrow> agent_db \<Rightarrow> bool" where
  "machine_ok e s \<longleftrightarrow> distinct (map fd_id (drafts s)) \<and> distinct (map binding_ident (bindings s))
     \<and> distinct (map bn_draft (bindings s)) \<and> distinct (map contribution_ident (contributions s))
     \<and> (\<forall>b \<in> set (bindings s). binding_ok e s b)"

lemma machine_okD:
  assumes "machine_ok e s"
  shows "distinct (map fd_id (drafts s))" "distinct (map binding_ident (bindings s))"
    "distinct (map bn_draft (bindings s))" "distinct (map contribution_ident (contributions s))"
    "b \<in> set (bindings s) \<Longrightarrow> binding_ok e s b"
  using assms by (simp_all add: machine_ok_def)

lemma binding_key_ident: "binding_key client key b \<longleftrightarrow> binding_ident b = (client, key)"
  by (simp add: binding_key_def binding_ident_def)

lemma own_key_ident: "own_key c r \<longleftrightarrow> contribution_ident r = (ic_client c, ic_draft_key c, ic_source c)"
  by (auto simp: contribution_key_def contribution_ident_def)

text \<open>Rows with different keys are the same row when their keys are.\<close>

lemma key_unique: "distinct (map f xs) \<Longrightarrow> x \<in> set xs \<Longrightarrow> y \<in> set xs \<Longrightarrow> f x = f y \<Longrightarrow> x = y"
  by (auto simp: distinct_map inj_on_def)

lemma find_by_key: "distinct (map f xs) \<Longrightarrow> x \<in> set xs \<Longrightarrow> f x = k \<Longrightarrow> find (\<lambda>y. f y = k) xs = Some x"
proof -
  assume a: "distinct (map f xs)" "x \<in> set xs" "f x = k"
  have "find (\<lambda>y. f y = k) xs \<noteq> None" using a(2,3) by (auto simp: find_None)
  then obtain y where "find (\<lambda>y. f y = k) xs = Some y" by auto
  with a key_unique [OF a(1)] show ?thesis by (auto dest!: find_Some_mem)
qed

section \<open>The contributions after an import\<close>

lemma contributions_after_ident:
  "map contribution_ident (contributions_after now c m ev im d p rows) =
     (if list_ex (own_key c) rows then map contribution_ident rows
      else map contribution_ident rows @ [(ic_client c, ic_draft_key c, ic_source c)])"
  by (auto simp: contributions_after_def contributed_def first_contribution_def contribution_ident_def)

lemma moved_ident: "map contribution_ident (moved c d replaced rows) = map contribution_ident rows"
  by (auto simp: moved_def contribution_ident_def)

lemma moved_key_payloads:
  "map ct_payload (filter (\<lambda>r. ct_client r = a \<and> ct_draft_key r = k) (moved c d replaced rows))
     = map ct_payload (filter (\<lambda>r. ct_client r = a \<and> ct_draft_key r = k) rows)"
proof (cases replaced)
  case (Some old)
  then show ?thesis by (induction rows) (auto simp: moved_def)
qed (simp add: moved_def)

lemma contributions_after_other:
  assumes "(a, k) \<noteq> (ic_client c, ic_draft_key c)"
  shows "map ct_payload (filter (\<lambda>r. ct_client r = a \<and> ct_draft_key r = k)
      (contributions_after now c m ev im d p rows))
    = map ct_payload (filter (\<lambda>r. ct_client r = a \<and> ct_draft_key r = k) rows)"
proof -
  have "map ct_payload (filter (\<lambda>r. ct_client r = a \<and> ct_draft_key r = k)
      (map (\<lambda>r. if own_key c r then contributed now c m ev im p r else r) rows))
    = map ct_payload (filter (\<lambda>r. ct_client r = a \<and> ct_draft_key r = k) rows)" for rows
    using assms by (induction rows) (auto simp: contributed_def contribution_key_def)
  then show ?thesis using assms by (auto simp: contributions_after_def first_contribution_def)
qed

lemma contributions_after_own:
  assumes "distinct (map contribution_ident rows)"
  shows "mset (map ct_payload (filter (\<lambda>r. ct_client r = ic_client c \<and> ct_draft_key r = ic_draft_key c)
      (contributions_after now c m ev im d p rows)))
    = mset (map ct_payload (filter (\<lambda>r. ct_client r = ic_client c \<and> ct_draft_key r = ic_draft_key c
        \<and> ct_source r \<noteq> ic_source c) rows)) + {#p#}"
proof -
  let ?K = "\<lambda>r. ct_client r = ic_client c \<and> ct_draft_key r = ic_draft_key c"
  let ?f = "\<lambda>r. if own_key c r then contributed now c m ev im p r else r"
  have none: "filter ?K xs = filter (\<lambda>r. ?K r \<and> ct_source r \<noteq> ic_source c) xs"
    if "\<not> list_ex (own_key c) xs" for xs
    using that by (intro filter_cong) (auto simp: list_ex_iff contribution_key_def)
  have same: "map ?f xs = xs" if "\<not> list_ex (own_key c) xs" for xs
    using that by (intro map_idI) (auto simp: list_ex_iff)
  show ?thesis
  proof (cases "list_ex (own_key c) rows")
    case False
    then show ?thesis
      by (simp add: contributions_after_def none first_contribution_def)
  next
    case True
    have "mset (map ct_payload (filter ?K (map ?f rows)))
        = mset (map ct_payload (filter (\<lambda>r. ?K r \<and> ct_source r \<noteq> ic_source c) rows)) + {#p#}"
      using True assms
    proof (induction rows)
      case (Cons r rows)
      show ?case
      proof (cases "own_key c r")
        case True
        have "\<not> list_ex (own_key c) rows"
          using True Cons.prems(2) by (auto simp: list_ex_iff own_key_ident image_iff)
        with True same none show ?thesis by (auto simp: contributed_def contribution_key_def)
      next
        case False
        with Cons.prems have "list_ex (own_key c) rows" "distinct (map contribution_ident rows)" by simp_all
        from Cons.IH [OF this] False show ?thesis by (auto simp: contribution_key_def)
      qed
    qed simp
    with True show ?thesis by (simp add: contributions_after_def)
  qed
qed

section \<open>An import\<close>

lemma plan_import_Inr:
  assumes "plan_import e i c m s = Inr p"
  shows "ip_binding p = find (binding_key (ic_client c) (ic_draft_key c)) (bindings s)"
    and "choose_draft e c (ip_binding p) s = Inr (ip_target p)"
    and "merged_payload e i (ic_draft_key c) (ip_binding p)
      (map ct_payload (other_contributions (ic_client c) (ic_draft_key c) (ic_source c) s) @ [ip_effective p])
      = Inr (ip_merged p)"
    and "find (\<lambda>r. iv_id r = ic_ingestion c) (events s) = Some (ip_event p)"
    and "lease_matches c (Some (ip_event p))"
proof -
  let ?binding = "find (binding_key (ic_client c) (ic_draft_key c)) (bindings s)"
  let ?previous = "find (own_key c) (contributions s)"
  let ?others = "other_contributions (ic_client c) (ic_draft_key c) (ic_source c) s"
  let ?event = "find (\<lambda>r. iv_id r = ic_ingestion c) (events s)"
  let ?effective = "effective_payload c m ?previous"
  have lease: "lease_matches c ?event"
    by (rule ccontr) (use assms in \<open>simp add: plan_import_def Let_def\<close>)
  have "\<exists>u target merged. revision_check c m ?previous = Inr u \<and> choose_draft e c ?binding s = Inr target
      \<and> merged_payload e i (ic_draft_key c) ?binding (map ct_payload ?others @ [?effective]) = Inr merged
      \<and> \<lparr>ip_event = the ?event, ip_previous = ?previous, ip_binding = ?binding, ip_target = target,
          ip_effective = ?effective, ip_merged = merged, ip_others = length ?others\<rparr> = p"
    using assms unfolding plan_import_def Let_def
    by (simp only: lease not_True_eq_False if_False and_then_Inr sum.inject ex_simps simp_thms)
  then obtain target merged where target: "choose_draft e c ?binding s = Inr target"
    and merged: "merged_payload e i (ic_draft_key c) ?binding
      (map ct_payload ?others @ [effective_payload c m ?previous]) = Inr merged"
    and p: "p = \<lparr>ip_event = the ?event, ip_previous = ?previous, ip_binding = ?binding,
      ip_target = target, ip_effective = effective_payload c m ?previous, ip_merged = merged,
      ip_others = length ?others\<rparr>"
    by blast
  obtain v where v: "?event = Some v" using lease by (cases ?event) (simp_all add: lease_matches_def)
  show "ip_binding p = ?binding" "choose_draft e c (ip_binding p) s = Inr (ip_target p)"
    "merged_payload e i (ic_draft_key c) (ip_binding p) (map ct_payload ?others @ [ip_effective p])
      = Inr (ip_merged p)" "?event = Some (ip_event p)" "lease_matches c (Some (ip_event p))"
    using target merged lease v by (simp_all add: p)
qed

lemma choose_draft_Inr:
  assumes "choose_draft e c binding s = Inr (draft, row, replaced)"
  shows "case binding of
      None \<Rightarrow> row = None \<and> replaced = None
    | Some b \<Rightarrow> (\<exists>d. find (\<lambda>d. fd_id d = bn_draft b) (drafts s) = Some d \<and>
        (if fd_status d = Discarded then row = None \<and> replaced = Some (bn_draft b)
         else draft = bn_draft b \<and> row = Some d \<and> replaced = None \<and> untouched e b d \<and> unsent d s))"
proof (cases binding)
  case None
  with assms show ?thesis by (simp add: choose_draft_def)
next
  case (Some b)
  with assms show ?thesis
    by (cases "find (\<lambda>d. fd_id d = bn_draft b) (drafts s)") (auto simp: choose_draft_def split: if_splits)
qed

lemma merged_payload_Inr:
  assumes "merged_payload e i key binding ps = Inr merged"
  shows "merge_machine_payloads e ps = Inr merged" "valid_payload e i merged"
    "key \<in> set (draft_keys i merged)"
    "binding = Some b \<Longrightarrow> bn_scope b \<in> set (binding_scopes merged)"
  using assms by (auto simp: merged_payload_def and_then_Inr validate_payload_def split: if_splits option.splits)

lemma binding_ok_cong:
  assumes "drafts t = drafts s" "contributions t = contributions s"
  shows "binding_ok e t b = binding_ok e s b"
  using assms by (simp add: binding_ok_def from_machine_def key_rows_def)

text \<open>A call that writes none of the three tables.\<close>

lemma machine_ok_same:
  "drafts t = drafts s \<Longrightarrow> bindings t = bindings s \<Longrightarrow> contributions t = contributions s \<Longrightarrow>
     machine_ok e t = machine_ok e s"
  by (simp add: machine_ok_def binding_ok_cong [of t s])

text \<open>What a completed import is.\<close>

lemma create_Inr:
  assumes "create_or_update_machine_import e i now c m s = (Inr r, t)"
  obtains p where "mi_current m" "plan_import e i c m s = Inr p" "carry_out_import e now c m p s = (Inr r, t)"
proof -
  have cur: "mi_current m"
    using assms by (auto simp: create_or_update_machine_import_def raise_def split: if_splits)
  then have "bind (reading (plan_import e i c m)) (\<lambda>plan. bind (of_result plan) (carry_out_import e now c m)) s
      = (Inr r, t)"
    using assms by (simp add: create_or_update_machine_import_def one_transaction_def transaction_Inr)
  then have "bind (of_result (plan_import e i c m s)) (carry_out_import e now c m) s = (Inr r, t)"
    by simp
  then obtain p u where "of_result (plan_import e i c m s) s = (Inr p, u)"
    and go: "carry_out_import e now c m p u = (Inr r, t)" by (rule bind_InrE)
  then have "plan_import e i c m s = Inr p" "u = s" by (simp_all add: of_result_Inr)
  with cur go that show thesis by blast
qed

lemma create_Inl: "create_or_update_machine_import e i now c m s = (Inl x, t) \<Longrightarrow> t = s"
  by (auto simp: create_or_update_machine_import_def raise_def one_transaction_def split: if_splits
      dest: transaction_Inl)

text \<open>The draft named by the binding of the key is the one the import writes.\<close>

lemma imported_binding_ok:
  assumes ok: "machine_ok e s"
    and plan: "plan_import e i c m s = Inr p"
    and target: "ip_target p = (draft, row, replaced)"
    and n: "wr_revision w = (case row of None \<Rightarrow> 1
           | Some d \<Rightarrow> if sha256_jcs e (payload_json (fd_payload d)) = sha256_jcs e (payload_json (ip_merged p))
               then fd_revision d else fd_revision d + 1)"
    and b: "bn_client b = ic_client c" "bn_draft_key b = ic_draft_key c" "bn_draft b = draft"
      "bn_revision b = wr_revision w" "bn_sha b = sha256_jcs e (payload_json (ip_merged p))"
      "bn_scope b \<in> set (binding_scopes (ip_merged p))"
  shows "binding_ok e (after_import e now c m p w s) b"
proof -
  let ?t = "after_import e now c m p w s" and ?merged = "ip_merged p"
  note pl = plan_import_Inr [OF plan]
  note ch = choose_draft_Inr [OF pl(2) [unfolded target]]
  note mp = merged_payload_Inr [OF pl(3)]
  let ?ps = "map ct_payload (other_contributions (ic_client c) (ic_draft_key c) (ic_source c) s) @ [ip_effective p]"
  have "mset (map ct_payload (key_rows b ?t)) = mset ?ps"
    using contributions_after_own [OF machine_okD(4) [OF ok], of c now m "iv_event (ip_event p)"
        "wr_import w" draft "ip_effective p"]
    by (simp add: key_rows_def after_import_def target b moved_key_payloads other_contributions_def
        mset_map)
  then have machine: "from_machine e ?t b d"
    if "sha256_jcs e (payload_json (fd_payload d)) = sha256_jcs e (payload_json ?merged)" for d
    using that mp(1) b unfolding from_machine_def by (intro exI [of _ ?ps] exI [of _ ?merged]) simp
  show ?thesis
  proof (cases row)
    case None
    let ?d = "new_draft draft (wr_draft_import w) (ic_actor c) ?merged (now_text now)"
    have "?d \<in> set (drafts ?t)" by (simp add: after_import_def target None drafts_after_def)
    moreover have "fd_id ?d = bn_draft b" "bn_revision b \<le> fd_revision ?d" "fd_payload ?d = ?merged"
      using b n None by (simp_all add: new_draft_def)
    ultimately show ?thesis using machine [of ?d] unfolding binding_ok_def by auto
  next
    case (Some d)
    then obtain b0 where b0: "ip_binding p = Some b0" using ch by (cases "ip_binding p") auto
    with ch Some have d: "find (\<lambda>d. fd_id d = bn_draft b0) (drafts s) = Some d" "draft = bn_draft b0"
      by (auto split: if_splits)
    then have mem: "d \<in> set (drafts s)" "fd_id d = draft" by (auto dest: find_Some_mem)
    show ?thesis
    proof (cases "sha256_jcs e (payload_json (fd_payload d)) = sha256_jcs e (payload_json ?merged)")
      case True
      then have "d \<in> set (drafts ?t)" using mem by (simp add: after_import_def target Some drafts_after_def)
      moreover have "bn_revision b = fd_revision d" using b n Some True by simp
      ultimately show ?thesis using machine [OF True] mem b unfolding binding_ok_def by auto
    next
      case False
      let ?d = "redrafted now c (fd_revision d + 1) ?merged d"
      have "?d \<in> (\<lambda>x. if fd_id x = draft then redrafted now c (fd_revision d + 1) ?merged x else x)
          ` set (drafts s)"
        by (rule image_eqI [of _ _ d]) (simp_all add: mem)
      then have "?d \<in> set (drafts ?t)"
        using False by (simp add: after_import_def target Some drafts_after_def)
      moreover have "fd_id ?d = bn_draft b" "bn_revision b = fd_revision ?d" "fd_payload ?d = ?merged"
        using mem b n Some False by (simp_all add: redrafted_def)
      ultimately show ?thesis using machine [of ?d] unfolding binding_ok_def by auto
    qed
  qed
qed

end
