(* ===== verification/Ingest_Keeps.thy ===== *)
theory Ingest_Keeps
  imports Ingest_Invariant
begin

text \<open>
  Every call keeps the invariant of the drafts: an import, the edits of people, a confirmation,
  and everything that writes none of the tables it is about.
\<close>

section \<open>An import\<close>

lemma drafts_after_ids:
  "map fd_id (drafts_after e now c draft row im merged rows) =
     (if row = None then map fd_id rows @ [draft] else map fd_id rows)"
  by (auto simp: drafts_after_def new_draft_def redrafted_def split: option.split)

lemma bindings_after_idents:
  "map binding_ident (bindings_after e now c binding draft row n merged rows) =
     (if binding = None then map binding_ident rows @ [(ic_client c, ic_draft_key c)]
      else map binding_ident rows)"
  by (auto simp: bindings_after_def bound_anew_def rebound_def binding_ident_def split: option.split)

lemma distinct_bound_drafts:
  assumes ident: "distinct (map binding_ident rows)" and old: "distinct (map bn_draft rows)"
    and target: "case binding of
        None \<Rightarrow> row = None
      | Some b \<Rightarrow> b \<in> set rows \<and> binding_key (ic_client c) (ic_draft_key c) b"
    and none: "binding = None \<Longrightarrow> \<not> list_ex (binding_key (ic_client c) (ic_draft_key c)) rows"
    and clash: "row = None \<Longrightarrow> \<not> list_ex (\<lambda>b. \<not> binding_key (ic_client c) (ic_draft_key c) b \<and> bn_draft b = draft) rows"
  shows "distinct (map bn_draft (bindings_after e now c binding draft row n merged rows))"
proof (cases binding)
  case None
  with target none clash show ?thesis
    by (auto simp: bindings_after_def bound_anew_def old list_ex_iff)
next
  case (Some b)
  let ?key = "binding_key (ic_client c) (ic_draft_key c)"
  show ?thesis
  proof (cases row)
    case None
    have "map bn_draft (bindings_after e now c binding draft row n merged rows)
        = map (\<lambda>b. if ?key b then draft else bn_draft b) rows"
      by (simp add: bindings_after_def Some None rebound_def comp_def if_distrib cong: if_cong)
    moreover have "inj_on (\<lambda>b. if ?key b then draft else bn_draft b) (set rows)"
    proof (rule inj_onI)
      fix a b assume ab: "a \<in> set rows" "b \<in> set rows"
        "(if ?key a then draft else bn_draft a) = (if ?key b then draft else bn_draft b)"
      from clash [OF None] have no: "\<not> ?key x \<Longrightarrow> x \<in> set rows \<Longrightarrow> bn_draft x \<noteq> draft" for x
        by (auto simp: list_ex_iff)
      show "a = b"
        using ab no [of a] no [of b] key_unique [OF ident ab(1,2)] key_unique [OF old ab(1,2)]
        by (auto simp: binding_key_ident split: if_splits)
    qed
    ultimately show ?thesis using old by (simp add: distinct_map)
  next
    case (Some d)
    with \<open>binding = Some b\<close> have "map bn_draft (bindings_after e now c binding draft row n merged rows)
        = map bn_draft rows" by (auto simp: bindings_after_def)
    with old show ?thesis by simp
  qed
qed

lemma bindings_after_cases:
  assumes "b \<in> set (bindings_after e now c binding draft row n merged rows)"
    and "binding = None \<longrightarrow> \<not> list_ex (binding_key (ic_client c) (ic_draft_key c)) rows"
  shows "b \<in> set rows \<and> \<not> binding_key (ic_client c) (ic_draft_key c) b
    \<or> binding = None \<and> b = bound_anew e now c draft merged
    \<or> (\<exists>a \<in> set rows. binding \<noteq> None \<and> binding_key (ic_client c) (ic_draft_key c) a \<and>
        b = (if row = None then rebound e draft merged a else a)
          \<lparr>bn_revision := n, bn_sha := sha256_jcs e (payload_json merged)\<rparr>)"
proof (cases binding)
  case None
  with assms show ?thesis by (auto simp: bindings_after_def list_ex_iff)
next
  case (Some x)
  with assms(1) obtain a where "a \<in> set rows" and "b = (if binding_key (ic_client c) (ic_draft_key c) a
      then (if row = None then rebound e draft merged a else a)
        \<lparr>bn_revision := n, bn_sha := sha256_jcs e (payload_json merged)\<rparr> else a)"
    by (auto simp: bindings_after_def)
  with Some show ?thesis by (cases "binding_key (ic_client c) (ic_draft_key c) a") auto
qed

lemma other_binding_ok:
  assumes ok: "binding_ok e s b" and target: "ip_target p = (draft, row, replaced)"
    and key: "\<not> binding_key (ic_client c) (ic_draft_key c) b" and other: "bn_draft b \<noteq> draft"
  shows "binding_ok e (after_import e now c m p w s) b"
proof -
  let ?t = "after_import e now c m p w s"
  from ok obtain d where d: "d \<in> set (drafts s)" "fd_id d = bn_draft b" "bn_revision b \<le> fd_revision d"
    "fd_revision d = bn_revision b \<longrightarrow> from_machine e s b d" by (auto simp: binding_ok_def)
  have "d \<in> set (drafts_after e now c draft row (wr_draft_import w) (ip_merged p) (drafts s))"
  proof (cases row)
    case (Some x)
    have "d \<in> (\<lambda>y. if fd_id y = draft then redrafted now c (fd_revision x + 1) (ip_merged p) y else y)
        ` set (drafts s)"
      by (rule image_eqI [of _ _ d]) (use d other in auto)
    with Some d show ?thesis by (simp add: drafts_after_def)
  qed (use d in \<open>simp add: drafts_after_def\<close>)
  moreover have "map ct_payload (key_rows b ?t) = map ct_payload (key_rows b s)"
    using key contributions_after_other [of "bn_client b" "bn_draft_key b" c]
    by (simp add: key_rows_def after_import_def target moved_key_payloads binding_key_def)
  ultimately show ?thesis
    using d by (auto simp: binding_ok_def from_machine_def after_import_def target)
qed

lemma machine_ok_import:
  assumes ok: "machine_ok e s"
    and plan: "plan_import e i c m s = Inr p"
    and target: "ip_target p = (draft, row, replaced)"
    and n: "wr_revision w = (case row of None \<Rightarrow> 1
           | Some d \<Rightarrow> if sha256_jcs e (payload_json (fd_payload d)) = sha256_jcs e (payload_json (ip_merged p))
               then fd_revision d else fd_revision d + 1)"
    and new: "row = None \<Longrightarrow> draft \<notin> fd_id ` set (drafts s)
           \<and> \<not> binding_clash (ic_client c) (ic_draft_key c) draft (batch_span (ip_merged p)) s"
  shows "machine_ok e (after_import e now c m p w s)"
proof -
  let ?t = "after_import e now c m p w s" and ?merged = "ip_merged p"
  let ?key = "binding_key (ic_client c) (ic_draft_key c)"
  note pl = plan_import_Inr [OF plan]
  note ch = choose_draft_Inr [OF pl(2) [unfolded target]]
  note mp = merged_payload_Inr [OF pl(3)]
  have none: "\<not> list_ex ?key (bindings s)" if "ip_binding p = None"
    using that pl(1) by (auto simp: find_None list_ex_iff)
  have known: "b0 \<in> set (bindings s) \<and> ?key b0" if "ip_binding p = Some b0" for b0
    using find_Some_mem [of ?key "bindings s" b0] that pl(1) by simp
  have bt: "bindings ?t = bindings_after e now c (ip_binding p) draft row (wr_revision w) ?merged (bindings s)"
    and dt: "drafts ?t = drafts_after e now c draft row (wr_draft_import w) ?merged (drafts s)"
    by (simp_all add: after_import_def target)
  have "distinct (map fd_id (drafts ?t))"
    unfolding dt drafts_after_ids using machine_okD(1) [OF ok] new by auto
  moreover have "distinct (map binding_ident (bindings ?t))"
    unfolding bt bindings_after_idents using machine_okD(2) [OF ok] none
    by (auto simp: list_ex_iff binding_key_ident)
  moreover have "distinct (map bn_draft (bindings ?t))"
    unfolding bt
  proof (rule distinct_bound_drafts [OF machine_okD(2,3) [OF ok] _ none])
    show "case ip_binding p of None \<Rightarrow> row = None
        | Some b \<Rightarrow> b \<in> set (bindings s) \<and> ?key b"
    proof (cases "ip_binding p")
      case None
      with ch show ?thesis by simp
    next
      case (Some b)
      with known show ?thesis by simp
    qed
    show "\<not> list_ex (\<lambda>b. \<not> ?key b \<and> bn_draft b = draft) (bindings s)" if "row = None"
      using new [OF that] by (auto simp: binding_clash_def list_ex_iff)
  qed
  moreover have "distinct (map contribution_ident (contributions ?t))"
    using machine_okD(4) [OF ok]
    by (auto simp: after_import_def target moved_ident contributions_after_ident list_ex_iff own_key_ident)
  moreover have "binding_ok e ?t b" if b: "b \<in> set (bindings ?t)" for b
  proof -
    note own = imported_binding_ok [OF ok plan target n]
    have none': "ip_binding p = None \<longrightarrow> \<not> list_ex ?key (bindings s)" using none by blast
    from bindings_after_cases [OF b [unfolded bt] none'] consider
        (other) "b \<in> set (bindings s)" "\<not> ?key b"
      | (new) "ip_binding p = None" "b = bound_anew e now c draft ?merged"
      | (old) a where "a \<in> set (bindings s)" "ip_binding p \<noteq> None" "?key a"
          "b = (if row = None then rebound e draft ?merged a else a)
            \<lparr>bn_revision := wr_revision w, bn_sha := sha256_jcs e (payload_json ?merged)\<rparr>"
      by (elim disjE bexE conjE) simp_all
    then show ?thesis
    proof cases
      case other
      have bok: "binding_ok e s b" using ok other by (simp add: machine_ok_def)
      then obtain d where "d \<in> set (drafts s)" "fd_id d = bn_draft b" unfolding binding_ok_def by blast
      then have bound: "bn_draft b \<in> fd_id ` set (drafts s)" by (metis imageI)
      have "bn_draft b \<noteq> draft"
      proof (cases row)
        case None
        then show ?thesis using new bound by metis
      next
        case (Some d)
        then obtain b0 where b0: "ip_binding p = Some b0" "draft = bn_draft b0"
          using ch by (cases "ip_binding p") (auto split: if_splits)
        then have "b0 \<in> set (bindings s)" "?key b0" using known by blast+
        with b0 other key_unique [OF machine_okD(3) [OF ok]] show ?thesis by metis
      qed
      with other_binding_ok [OF bok target] other show ?thesis by simp
    next
      case new
      then have "row = None" using ch by simp
      with new n show ?thesis
        by (intro own) (simp_all add: bound_anew_def binding_scopes_def)
    next
      case old
      then obtain b0 where b0: "ip_binding p = Some b0" by auto
      then have "b0 \<in> set (bindings s)" "?key b0" using known by blast+
      with old have a: "a = b0"
        using key_unique [OF machine_okD(2) [OF ok]] by (simp add: binding_key_ident)
      have draft: "row \<noteq> None \<Longrightarrow> bn_draft a = draft"
        using ch b0 a by (auto split: if_splits)
      show ?thesis
        by (rule own) (use old a draft mp(4) [OF b0] in
          \<open>auto simp: rebound_def binding_key_def binding_scopes_def\<close>)
    qed
  qed
  ultimately show ?thesis by (simp add: machine_ok_def)
qed

text \<open>All a successful import does.\<close>

lemma create_effect:
  assumes "create_or_update_machine_import e i now c m s = (Inr a, t)"
  obtains p w draft row replaced where "plan_import e i c m s = Inr p"
    and "ip_target p = (draft, row, replaced)" and "t = after_import e now c m p w s"
    and "autofilled (ic_ingestion c) (wr_row w)"
    and "\<forall>x \<in> set (wr_more w). fa_type x = ''five_quantity_machine_draft_replaced''"
    and "\<exists>x \<in> set (events s). leased (ic_ingestion c) (ic_owner c) x \<and> iv_status x = Bound"
    and "wr_revision w = (case row of None \<Rightarrow> 1
           | Some d \<Rightarrow> if sha256_jcs e (payload_json (fd_payload d)) = sha256_jcs e (payload_json (ip_merged p))
               then fd_revision d else fd_revision d + 1)"
    and "row = None \<longrightarrow> draft \<notin> fd_id ` set (drafts s)
           \<and> \<not> binding_clash (ic_client c) (ic_draft_key c) draft (batch_span (ip_merged p)) s"
    and "ix_draft a = draft"
proof -
  from assms obtain p where plan: "plan_import e i c m s = Inr p"
    and run: "carry_out_import e now c m p s = (Inr a, t)" by (auto elim: create_Inr)
  obtain draft row replaced where target: "ip_target p = (draft, row, replaced)"
    by (cases "ip_target p") auto
  have bound: "row \<noteq> None \<Longrightarrow> ip_binding p \<noteq> None"
    using choose_draft_Inr [OF plan_import_Inr(2) [OF plan, unfolded target]]
    by (cases "ip_binding p") auto
  show thesis
    by (rule carry_out_effect [OF run target bound]; (rule that [OF plan target])?; (assumption | blast))
qed

lemma machine_ok_create:
  assumes "machine_ok e s" "create_or_update_machine_import e i now c m s = (r, t)"
  shows "machine_ok e t"
proof (cases r)
  case (Inl x)
  with assms create_Inl show ?thesis by blast
next
  case (Inr a)
  show ?thesis
  proof (rule create_effect [OF assms(2) [unfolded Inr]])
    fix p w draft row replaced
    assume plan: "plan_import e i c m s = Inr p" and target: "ip_target p = (draft, row, replaced)"
      and t: "t = after_import e now c m p w s"
      and n: "wr_revision w = (case row of None \<Rightarrow> 1
           | Some d \<Rightarrow> if sha256_jcs e (payload_json (fd_payload d)) = sha256_jcs e (payload_json (ip_merged p))
               then fd_revision d else fd_revision d + 1)"
      and new: "row = None \<longrightarrow> draft \<notin> fd_id ` set (drafts s)
           \<and> \<not> binding_clash (ic_client c) (ic_draft_key c) draft (batch_span (ip_merged p)) s"
    show ?thesis unfolding t by (rule machine_ok_import [OF assms(1) plan target n new [rule_format]])
  qed
qed

section \<open>Calls that change no content\<close>

definition draft_core :: "draft_row \<Rightarrow> string \<times> nat \<times> payload" where
  "draft_core d = (fd_id d, fd_revision d, fd_payload d)"

definition machine_fill :: "fq_audit_row \<Rightarrow> bool" where
  "machine_fill r \<longleftrightarrow> fa_type r = ''five_quantity_machine_autofilled''"

definition core_same :: "agent_db \<Rightarrow> agent_db \<Rightarrow> bool" where
  "core_same s t \<longleftrightarrow> map draft_core (drafts t) = map draft_core (drafts s)
     \<and> bindings t = bindings s \<and> contributions t = contributions s
     \<and> map iv_id (events t) = map iv_id (events s)
     \<and> filter machine_fill (audit t) = filter machine_fill (audit s)"

interpretation core: history_relation core_same
  by unfold_locales (simp_all add: core_same_def)

lemma update_event_ids [simp]:
  "(\<And>r. iv_id (f r) = iv_id r) \<Longrightarrow> map iv_id (events (update_event p f s)) = map iv_id (events s)"
  by (simp add: update_event_def)

lemma update_event_rest [simp]:
  "drafts (update_event p f s) = drafts s" "bindings (update_event p f s) = bindings s"
  "contributions (update_event p f s) = contributions s" "audit (update_event p f s) = audit s"
  by (simp_all add: update_event_def)

lemma core_same_ok:
  assumes same: "core_same s t" and ok: "machine_ok e s"
  shows "machine_ok e t"
proof -
  have ids: "map fd_id (drafts t) = map fd_id (drafts s)"
    using arg_cong [OF conjunct1 [OF same [unfolded core_same_def]], of "map fst"]
    by (simp add: comp_def draft_core_def)
  have "binding_ok e t b" if b: "binding_ok e s b" for b
  proof -
    from b obtain d where d: "d \<in> set (drafts s)" "fd_id d = bn_draft b" "bn_revision b \<le> fd_revision d"
      "fd_revision d = bn_revision b \<longrightarrow> from_machine e s b d" by (auto simp: binding_ok_def)
    have "draft_core d \<in> set (map draft_core (drafts t))"
      using same d(1) by (simp add: core_same_def)
    then obtain x where "x \<in> set (drafts t)" "draft_core x = draft_core d" by auto
    then have x: "x \<in> set (drafts t)" "fd_id x = fd_id d" "fd_revision x = fd_revision d"
      "from_machine e t b x = from_machine e s b d"
      using same by (simp_all add: draft_core_def from_machine_def key_rows_def core_same_def)
    with d have "fd_id x = bn_draft b \<and> bn_revision b \<le> fd_revision x \<and>
        (fd_revision x = bn_revision b \<longrightarrow> from_machine e t b x)" by simp
    with x(1) show ?thesis unfolding binding_ok_def by blast
  qed
  with ok ids same show ?thesis by (simp add: machine_ok_def core_same_def)
qed

lemma core_transaction [evolves_rules]:
  "evolves core_same m \<Longrightarrow> evolves core_same (one_transaction m)"
  unfolding one_transaction_def
  by (rule core.evolves_transaction, assumption) (simp add: core_same_def)

lemma core_of_result [evolves_rules]: "evolves core_same (of_result r)"
  unfolding of_result_def by (cases r) (auto intro: evolves_rules)

lemma core_found [evolves_rules]: "evolves core_same (found x r)"
  unfolding found_def by (intro evolves_rules)

lemma core_writing:
  "(\<And>s. core_same s (f s)) \<Longrightarrow> evolves core_same (writing f)"
  by (rule core.evolves_writing)

lemma core_append_audit [evolves_rules]:
  assumes "k \<noteq> ''five_quantity_machine_autofilled''"
  shows "evolves core_same (append_fq_audit e now k a d)"
proof (rule evolvesI)
  fix s r t
  assume run: "append_fq_audit e now k a d s = (r, t)"
  show "core_same s t"
  proof (cases r)
    case (Inl x)
    with run have "t = s" by (intro append_audit_Inl) simp
    then show ?thesis by (simp add: core.rel_refl)
  next
    case (Inr u)
    with append_audit_effect [of e now k a d s u t] run assms show ?thesis
      by (auto simp: core_same_def machine_fill_def)
  qed
qed

lemma core_saga [evolves_rules]:
  "evolves core_same (register_connector_request now client request sha timestamp)"
  "evolves core_same (get_connector_ingestion ingestion)"
  "evolves core_same (complete_connector_ingestion now ingestion owner j)"
  "evolves core_same (release_connector_ingestion now ingestion owner)"
  "evolves core_same (reject_connector_ingestion now ingestion owner j)"
  unfolding register_connector_request_def get_connector_ingestion_def
    complete_connector_ingestion_def release_connector_ingestion_def reject_connector_ingestion_def Let_def
  by (intro evolves_rules core_writing; simp add: core_same_def)+

lemma core_health [evolves_rules]:
  "evolves core_same (apply_source_health client h required freshness updated)"
  "evolves core_same (source_health_for_draft e draft ps t)"
  unfolding apply_source_health_def source_health_for_draft_def Let_def
  by (intro evolves_rules core_writing; simp add: core_same_def put_source_state_def Let_def)+

lemma core_record_health [evolves_rules]:
  "evolves core_same (record_connector_source_health now client sha h required freshness)"
  unfolding record_connector_source_health_def Let_def
  by (intro evolves_rules core_writing; simp add: core_same_def)

lemma core_annotate [evolves_rules]:
  "evolves core_same (annotate_automatic_review e now import_id r actor)"
  unfolding annotate_automatic_review_def Let_def
  by (intro evolves_rules core_writing; simp add: core_same_def)

lemma core_review [evolves_rules]:
  "evolves core_same (review_import e g now r m actor)" "evolves core_same (machine_sync_state e draft)"
  unfolding review_import_def machine_sync_state_def by (intro evolves_rules)+

lemma core_enqueue [evolves_rules]: "evolves core_same (enqueue e g now d c m actor)"
  unfolding enqueue_def refresh_preflight_def insert_submission_def
  by (intro evolves_rules core_writing; simp add: core_same_def update_draft_def draft_core_def)

lemma core_confirm [evolves_rules]:
  "evolves core_same (confirm_and_enqueue e g i now draft expected c m actor)"
  "evolves core_same (confirm_draft e g i now draft expected actor name role att acc message_id)"
proof -
  show conf: "evolves core_same (confirm_and_enqueue e g i now draft expected c m actor)"
    for draft expected c m actor
    unfolding confirm_and_enqueue_def by (intro evolves_rules)
  show "evolves core_same (confirm_draft e g i now draft expected actor name role att acc message_id)"
    unfolding confirm_draft_def Let_def by (intro evolves_rules conf)
qed

end
