(* ===== verification/Ingest_Edits.thy ===== *)
theory Ingest_Edits
  imports Ingest_Keeps
begin

text \<open>
  What people's edits write, and that they keep the invariant of the drafts: an edit makes the
  draft newer than its binding, restoring the synchronisation makes them agree again.
\<close>

section \<open>What the edits write\<close>

lemma bind_outcome:
  assumes "bind m f s = (r, t)"
  shows "(\<exists>x. m s = (Inl x, t)) \<or> (\<exists>a u. m s = (Inr a, u) \<and> f a u = (r, t))"
  using assms by (auto simp: bind_def split: prod.splits sum.splits)

lemma read_found_state: "bind (reading g) (found x) s = (r, t) \<Longrightarrow> t = s"
  by (auto simp: found_def raise_def ret_def split: option.splits)

lemma require_state: "require c x s = (r, t) \<Longrightarrow> t = s"
  by (auto simp: require_def ret_def raise_def split: if_splits)

lemma one_transaction_outcome:
  assumes "one_transaction m s = (r, t)"
  shows "(\<exists>x. r = Inl x) \<and> t = s \<or> (\<exists>a. r = Inr a \<and> m s = (Inr a, t))"
proof (cases r)
  case (Inl x)
  with assms show ?thesis by (auto simp: one_transaction_def dest: transaction_Inl)
next
  case (Inr a)
  with assms show ?thesis by (auto simp: one_transaction_def transaction_Inr)
qed

text \<open>A guarded transaction followed by a read: the state is the old one or the body's.\<close>

lemma guarded_transaction:
  assumes "bind (require c x) (\<lambda>_. bind (one_transaction m) (\<lambda>_. bind (reading g) (found y))) s = (r, t)"
  shows "t = s \<or> (\<exists>a. m s = (Inr a, t))"
proof -
  from bind_outcome [OF assms] consider "t = s" |
      "bind (one_transaction m) (\<lambda>_. bind (reading g) (found y)) s = (r, t)"
    using require_state by metis
  then show ?thesis
  proof cases
    case 2
    from bind_outcome [OF this] show ?thesis
      using one_transaction_outcome read_found_state by (metis sum.distinct(1) sum.inject(2))
  qed simp
qed

lemma plain_transaction:
  assumes "bind (one_transaction m) (\<lambda>_. bind (reading g) (found y)) s = (r, t)"
  shows "t = s \<or> (\<exists>a. m s = (Inr a, t))"
  by (rule guarded_transaction [where c = True and x = Unexpected and g = g and y = y and r = r]) (simp add: assms bind_require)

definition edited :: "draft_row \<Rightarrow> draft_row \<Rightarrow> bool" where
  "edited d x \<longleftrightarrow> fd_id x = fd_id d \<and> fd_revision x = fd_revision d + 1"

lemma found_Inr: "found x r s = (Inr a, t) \<longleftrightarrow> r = Some a \<and> t = s"
  by (cases r) (auto simp: found_def ret_def raise_def)

lemma reading_Inr: "(reading f :: 'a aop) s = (Inr a, t) \<longleftrightarrow> a = f s \<and> t = s"
  by (auto simp: reading_def)

lemma writing_Inr: "(writing f :: unit aop) s = (Inr u, t) \<longleftrightarrow> t = f s"
  by (auto simp: writing_def)

lemmas step_effects = found_Inr reading_Inr writing_Inr of_result_Inr

lemma replace_effect:
  assumes "replace_draft e now may lin draft expected p actor s = (r, t)" "t \<noteq> s"
  obtains d f row anchor where "draft_of draft s = Some d" "edited d (f d)"
    "\<And>x. fd_id (f x) = fd_id x" "fd_payload (f d) = p" "fd_preparer (f d) = Some actor"
    "fd_status d = Ready_Review"
    "t = (update_draft draft f s)\<lparr>audit := audit s @ [row], audit_anchor := anchor\<rparr>"
    "fa_type row = ''five_quantity_review_saved''"
proof -
  let ?f = "\<lambda>x. x\<lparr>fd_revision := expected + 1, fd_status := Ready_Review, fd_payload := p,
    fd_confirmation := None, fd_actor := actor, fd_preparer := Some actor,
    fd_prepared_revision := Some (expected + 1), fd_updated := now_text now\<rparr>"
  from guarded_transaction [OF assms(1) [unfolded replace_draft_def Let_def]] show thesis
  proof (elim disjE exE bind_InrE)
    fix a s0 w0 d w1 u2 w2 u3 w3 u4 w4 u5 w5 u6 w6
    assume read: "(reading id :: agent_db aop) s = (Inr s0, w0)"
      and found: "found (Not_Found ''draft'') (draft_of draft s0) w0 = (Inr d, w1)"
      and cur: "require (fd_current d) (Conflict ''contract'') w1 = (Inr u2, w2)"
      and rev: "require (fd_revision d = expected) (Conflict ''revision'') w2 = (Inr u3, w3)"
      and st: "require (fd_status d \<notin> {Queued, Submitted, Acknowledged, Discarded}) (Conflict ''status'') w3
        = (Inr u4, w4)"
      and lin: "of_result (if fd_predecessor d = None then Inr () else lin d p) w4 = (Inr u5, w5)"
      and wr: "(writing (update_draft draft ?f) :: unit aop) w5 = (Inr u6, w6)"
      and au: "append_fq_audit e now ''five_quantity_review_saved'' actor
        (saved_json e draft (expected + 1) p) w6 = (Inr a, t)"
    have d: "draft_of draft s = Some d" "w1 = s" using read found by (simp_all add: step_effects)
    have w: "w5 = s" "fd_revision d = expected" "fd_status d \<notin> {Queued, Submitted, Acknowledged, Discarded}"
      using d require_InrD [OF cur] require_InrD [OF rev] require_InrD [OF st] lin
      by (simp_all add: step_effects)
    have w6: "w6 = update_draft draft ?f s" using wr w by (simp add: step_effects)
    obtain row anchor where "t = w6\<lparr>audit := audit w6 @ [row], audit_anchor := anchor\<rparr>"
      "fa_type row = ''five_quantity_review_saved''" using append_audit_effect [OF au] by auto
    moreover have "fd_status d = Ready_Review" using w(3) by (cases "fd_status d") auto
    ultimately show thesis using d(1) w w6
      by (intro that [of d ?f anchor row]) (simp_all add: edited_def update_draft_def)
  qed (use assms(2) in simp)
qed

lemma discard_effect:
  assumes "discard_draft e now draft expected actor reason s = (r, t)" "t \<noteq> s"
  obtains d f files row anchor where "draft_of draft s = Some d" "edited d (f d)"
    "\<And>x. fd_id (f x) = fd_id x" "fd_status (f d) = Discarded" "fd_predecessor d = None" "unsent d s"
    "t = (update_draft draft f s)\<lparr>import_files := files, audit := audit s @ [row], audit_anchor := anchor\<rparr>"
    "fa_type row = ''five_quantity_draft_discarded''"
proof -
  let ?f = "\<lambda>x. x\<lparr>fd_status := Discarded, fd_revision := expected + 1, fd_updated := now_text now\<rparr>"
  from guarded_transaction [OF assms(1) [unfolded discard_draft_def Let_def]] show thesis
  proof (elim disjE exE bind_InrE)
    fix a s0 w0 d w1 u2 w2 u3 w3
    let ?rest = "if fd_status d = Discarded then ret () else
      bind (require (fd_predecessor d = None) (Conflict ''correction'')) (\<lambda>_.
      bind (require (unsent d s0) (Conflict ''confirmed'')) (\<lambda>_.
      bind (writing (update_draft draft ?f)) (\<lambda>_.
      bind (writing (\<lambda>s. s\<lparr>import_files := map (\<lambda>x. if im_id x = fd_import d
          then x\<lparr>im_status := Import_Discarded\<rparr> else x) (import_files s)\<rparr>)) (\<lambda>_.
      append_fq_audit e now ''five_quantity_draft_discarded'' actor
          (discarded_json draft (fd_import d) (expected + 1) (python_strip reason))))))"
    assume read: "(reading id :: agent_db aop) s = (Inr s0, w0)"
      and found: "found (Not_Found ''draft'') (draft_of draft s0) w0 = (Inr d, w1)"
      and cur: "require (fd_current d) (Conflict ''contract'') w1 = (Inr u2, w2)"
      and rev: "require (fd_revision d = expected) (Conflict ''revision'') w2 = (Inr u3, w3)"
      and rest: "?rest w3 = (Inr a, t)"
    have d: "draft_of draft s = Some d" "w1 = s" "s0 = s" using read found by (simp_all add: step_effects)
    have w3: "w3 = s" "fd_revision d = expected"
      using d require_InrD [OF cur] require_InrD [OF rev] by simp_all
    have "fd_status d \<noteq> Discarded" using rest w3 assms(2) by (auto simp: ret_def)
    with rest w3 d have "bind (require (fd_predecessor d = None) (Conflict ''correction'')) (\<lambda>_.
      bind (require (unsent d s) (Conflict ''confirmed'')) (\<lambda>_.
      bind (writing (update_draft draft ?f)) (\<lambda>_.
      bind (writing (\<lambda>s. s\<lparr>import_files := map (\<lambda>x. if im_id x = fd_import d
          then x\<lparr>im_status := Import_Discarded\<rparr> else x) (import_files s)\<rparr>)) (\<lambda>_.
      append_fq_audit e now ''five_quantity_draft_discarded'' actor
          (discarded_json draft (fd_import d) (expected + 1) (python_strip reason)))))) s = (Inr a, t)"
      by simp
    then show thesis
    proof (elim bind_InrE)
      fix u4 w4 u5 w5 u6 w6 u7 w7
      assume pre: "require (fd_predecessor d = None) (Conflict ''correction'') s = (Inr u4, w4)"
        and uns: "require (unsent d s) (Conflict ''confirmed'') w4 = (Inr u5, w5)"
        and wr: "(writing (update_draft draft ?f) :: unit aop) w5 = (Inr u6, w6)"
        and fl: "(writing (\<lambda>s. s\<lparr>import_files := map (\<lambda>x. if im_id x = fd_import d
          then x\<lparr>im_status := Import_Discarded\<rparr> else x) (import_files s)\<rparr>) :: unit aop) w6 = (Inr u7, w7)"
        and au: "append_fq_audit e now ''five_quantity_draft_discarded'' actor
          (discarded_json draft (fd_import d) (expected + 1) (python_strip reason)) w7 = (Inr a, t)"
      have w5: "w5 = s" "fd_predecessor d = None" "unsent d s"
        using require_InrD [OF pre] require_InrD [OF uns] by simp_all
      obtain files where w7: "w7 = (update_draft draft ?f s)\<lparr>import_files := files\<rparr>"
        using wr fl w5 by (simp add: step_effects)
      obtain row anchor where "t = w7\<lparr>audit := audit w7 @ [row], audit_anchor := anchor\<rparr>"
        "fa_type row = ''five_quantity_draft_discarded''" using append_audit_effect [OF au] by auto
      with d(1) w3 w5 w7 show thesis
        by (intro that [of d ?f anchor row files]) (simp_all add: edited_def update_draft_def)
    qed
  qed (use assms(2) in simp)
qed

lemma resume_effect:
  assumes "resume_machine_sync e i now draft expected actor s = (r, t)" "t \<noteq> s"
  obtains d b f merged row anchor where "draft_of draft s = Some d" "binding_of draft s = Some b"
    "edited d (f d)" "\<And>x. fd_id (f x) = fd_id x" "unsent d s" "fd_payload (f d) = merged"
    "merge_machine_payloads e (map ct_payload (sort_key ct_source (key_rows b s))) = Inr merged"
    "bn_scope b \<in> set (binding_scopes merged)"
    "t = (update_binding (bn_client b) (bn_draft_key b) (\<lambda>x. x\<lparr>bn_revision := fd_revision (f d),
        bn_sha := sha256_jcs e (payload_json merged)\<rparr>) (update_draft draft f s))
      \<lparr>audit := audit s @ [row], audit_anchor := anchor\<rparr>"
    "fa_type row = ''five_quantity_machine_sync_resumed''"
proof -
  from plain_transaction [OF assms(1) [unfolded resume_machine_sync_def Let_def]] show thesis
  proof (elim disjE exE bind_InrE)
    fix a s0 w0 d w1 u2 w2 u3 w3 b w4 u5 w5 u6 w6 merged w7 u8 w8 u9 w9 u10 w10 u11 w11
    let ?rows = "sort_key ct_source (filter (\<lambda>r. ct_client r = bn_client (b :: binding_row)
      \<and> ct_draft_key r = bn_draft_key b) (contributions (s0 :: agent_db)))"
    let ?f = "\<lambda>x. x\<lparr>fd_revision := expected + 1, fd_status := Ready_Review,
          fd_payload := merged, fd_confirmation := None, fd_actor := actor, fd_preparer := None,
          fd_prepared_revision := None, fd_updated := now_text now\<rparr>"
    let ?g = "\<lambda>x. x\<lparr>bn_revision := expected + 1, bn_sha := sha256_jcs e (payload_json merged)\<rparr>"
    assume read: "(reading id :: agent_db aop) s = (Inr s0, w0)"
      and found: "found (Not_Found ''draft'') (draft_of draft s0) w0 = (Inr d, w1)"
      and cur: "require (fd_current d) (Conflict ''contract'') w1 = (Inr u2, w2)"
      and rev: "require (fd_revision d = expected) (Conflict ''revision'') w2 = (Inr u3, w3)"
      and bound: "found (Conflict ''binding'') (binding_of draft s0) w3 = (Inr b, w4)"
      and uns: "require (unsent d s0) (Conflict ''confirmed'') w4 = (Inr u5, w5)"
      and some: "require (?rows \<noteq> []) (Conflict ''contributions'') w5 = (Inr u6, w6)"
      and mg: "of_result (merge_machine_payloads e (map ct_payload ?rows)) w6 = (Inr merged, w7)"
      and val: "of_result (validate_payload e i merged) w7 = (Inr u8, w8)"
      and sc: "require (bn_scope b \<in> set (binding_scopes merged)) (Conflict ''scope'') w8 = (Inr u9, w9)"
      and wr: "(writing (update_draft draft ?f) :: unit aop) w9 = (Inr u10, w10)"
      and wb: "(writing (update_binding (bn_client b) (bn_draft_key b) ?g) :: unit aop) w10 = (Inr u11, w11)"
      and au: "append_fq_audit e now ''five_quantity_machine_sync_resumed'' actor
          (resumed_json draft (expected + 1) (sha256_jcs e (payload_json (fd_payload d)))
            (sha256_jcs e (payload_json merged)) ?rows) w11 = (Inr a, t)"
    have d: "draft_of draft s = Some d" "w1 = s" "s0 = s" using read found by (simp_all add: step_effects)
    have w4: "w4 = s" "fd_revision d = expected" "binding_of draft s = Some b"
      using d require_InrD [OF cur] require_InrD [OF rev] bound by (simp_all add: step_effects)
    have w9: "w9 = s" "unsent d s" "bn_scope b \<in> set (binding_scopes merged)"
      "merge_machine_payloads e (map ct_payload (sort_key ct_source (key_rows b s))) = Inr merged"
      using d w4 require_InrD [OF uns] require_InrD [OF some] mg val require_InrD [OF sc]
      by (simp_all add: step_effects key_rows_def)
    have w11: "w11 = update_binding (bn_client b) (bn_draft_key b) ?g (update_draft draft ?f s)"
      using wr wb w9 by (simp add: step_effects)
    obtain row anchor where "t = w11\<lparr>audit := audit w11 @ [row], audit_anchor := anchor\<rparr>"
      "fa_type row = ''five_quantity_machine_sync_resumed''" using append_audit_effect [OF au] by auto
    with d(1) w4 w9 w11 show thesis
      by (intro that [of d b ?f merged anchor row])
        (simp_all add: edited_def update_draft_def update_binding_def)
  qed (use assms(2) in simp)
qed

lemma new_event_id [simp]: "iv_id (new_event now q owner expires ingestion) = ingestion"
  by (simp add: new_event_def)

text \<open>A claim changes the events only, and adds at most one, with an identifier of its own.\<close>

lemma claim_effect:
  assumes run: "claim_connector_ingestion now q owner ingestion s = (r, t)"
  obtains ev where "t = s\<lparr>events := ev\<rparr>"
    "map iv_id ev = map iv_id (events s) \<or>
     (\<forall>v \<in> set (events s). iv_id v \<noteq> ingestion) \<and> map iv_id ev = map iv_id (events s) @ [ingestion]"
proof -
  note parts = one_transaction_outcome [OF run [unfolded claim_connector_ingestion_def Let_def]]
  show thesis
  proof (cases "t = s")
    case True
    then show thesis by (intro that [of "events s"]) simp_all
  next
    case False
    with parts obtain a where "bind (reading (\<lambda>s. find (event_key (ir_client q) (ir_event q)) (events s)))
      (\<lambda>known. case known of
       Some r \<Rightarrow>
         if iv_request_sha r \<noteq> ir_sha q then raise (Conflict ''event_id'')
         else if iv_status r \<in> {Event_Completed, Event_Rejected} then ret (r, False, False)
         else if lease_free (clock now) r then
           bind (writing (update_event (\<lambda>x. iv_id x = iv_id r)
             (\<lambda>x. x\<lparr>iv_owner := Some owner, iv_expires := Some (clock now + 120),
                    iv_updated := now_text now\<rparr>))) (\<lambda>_.
           bind (reading (\<lambda>s. find (event_key (ir_client q) (ir_event q)) (events s))) (\<lambda>row.
           bind (found Missing_Item row) (\<lambda>row. ret (row, True, False))))
         else ret (r, False, False)
     | None \<Rightarrow>
         bind (reading id) (\<lambda>s.
         if event_quota_exceeded now (ir_client q) s then raise (Over_Quota ''events'')
         else if binding_quota_exceeded (ir_client q) (ir_draft_key q) s
         then raise (Over_Quota ''drafts'')
         else if source_quota_exceeded (ir_client q) (ir_draft_key q) (sr_source (ir_source q)) s
         then raise (Over_Quota ''sources'')
         else
           bind (require (\<not> list_ex (\<lambda>x. iv_id x = ingestion) (events s)) Constraint_Violated) (\<lambda>_.
              bind (writing (\<lambda>s. s\<lparr>events := events s @
                [new_event now q owner (clock now + 120) ingestion]\<rparr>)) (\<lambda>_.
              ret (new_event now q owner (clock now + 120) ingestion, True, True))))) s = (Inr a, t)"
      by blast
    then show thesis
      using that [of "events t"] False
      by (cases "find (event_key (ir_client q) (ir_event q)) (events s)")
        (auto simp: bind_def reading_def writing_def raise_def ret_def require_def found_def
          update_event_def list_ex_iff split: if_splits option.splits)
  qed
qed

section \<open>Edits keep the invariant\<close>

lemma draft_of_mem: "draft_of draft s = Some d \<Longrightarrow> d \<in> set (drafts s) \<and> fd_id d = draft"
  using find_Some_mem [of "\<lambda>d. fd_id d = draft"] by (simp add: draft_of_def)

lemma binding_of_mem: "binding_of draft s = Some b \<Longrightarrow> b \<in> set (bindings s) \<and> bn_draft b = draft"
  using find_Some_mem [of "\<lambda>b. bn_draft b = draft"] by (simp add: binding_of_def)

lemma binding_ok_edit:
  assumes ids: "distinct (map fd_id (drafts s))" and ok: "binding_ok e s b"
    and d: "draft_of draft s = Some d" "edited d (f d)" "\<And>x. fd_id (f x) = fd_id x"
  shows "binding_ok e (update_draft draft f s) b"
proof -
  let ?t = "update_draft draft f s"
  from ok obtain x where x: "x \<in> set (drafts s)" "fd_id x = bn_draft b" "bn_revision b \<le> fd_revision x"
    "fd_revision x = bn_revision b \<longrightarrow> from_machine e s b x" by (auto simp: binding_ok_def)
  let ?y = "if fd_id x = draft then f x else x"
  have mem: "?y \<in> set (drafts ?t)"
    using imageI [OF x(1), of "\<lambda>x. if fd_id x = draft then f x else x"] by (simp only: update_draft_def) simp
  have "fd_id ?y = bn_draft b \<and> bn_revision b \<le> fd_revision ?y \<and>
      (fd_revision ?y = bn_revision b \<longrightarrow> from_machine e ?t b ?y)"
  proof (cases "fd_id x = draft")
    case True
    then have "x = d" using key_unique [OF ids x(1), of d] draft_of_mem [OF d(1)] by simp
    with True x d show ?thesis by (simp add: edited_def)
  next
    case False
    with x show ?thesis by (simp add: from_machine_def key_rows_def update_draft_def)
  qed
  with mem show ?thesis unfolding binding_ok_def by blast
qed

lemma machine_ok_edit:
  assumes ok: "machine_ok e s"
    and d: "draft_of draft s = Some d" "edited d (f d)" "\<And>x. fd_id (f x) = fd_id x"
  shows "machine_ok e (update_draft draft f s)"
proof -
  have ids: "map fd_id (drafts (update_draft draft f s)) = map fd_id (drafts s)"
    by (simp add: update_draft_def d(3))
  show ?thesis
    unfolding machine_ok_def ids
    using machine_okD [OF ok] binding_ok_edit [OF machine_okD(1) [OF ok] _ d]
    by (simp add: update_draft_def)
qed

lemma machine_ok_update_binding:
  assumes ok: "machine_ok e s" and b: "b \<in> set (bindings s)"
    and g: "\<And>x. binding_ident (g x) = binding_ident x" "\<And>x. bn_draft (g x) = bn_draft x"
    and new: "binding_ok e s (g b)"
  shows "machine_ok e (update_binding (bn_client b) (bn_draft_key b) g s)"
proof -
  let ?t = "update_binding (bn_client b) (bn_draft_key b) g s"
  have keys: "map binding_ident (bindings ?t) = map binding_ident (bindings s)"
    "map bn_draft (bindings ?t) = map bn_draft (bindings s)"
    by (simp_all add: update_binding_def g)
  have same: "binding_ok e ?t x = binding_ok e s x" for x
    by (simp add: binding_ok_def from_machine_def key_rows_def update_binding_def)
  have "binding_ok e s x" if x: "x \<in> set (bindings ?t)" for x
  proof -
    from x obtain y where y: "y \<in> set (bindings s)"
      "x = (if binding_key (bn_client b) (bn_draft_key b) y then g y else y)"
      by (auto simp: update_binding_def)
    show ?thesis
    proof (cases "binding_key (bn_client b) (bn_draft_key b) y")
      case True
      then have "y = b" using key_unique [OF machine_okD(2) [OF ok] y(1) b]
        by (simp add: binding_key_ident binding_ident_def)
      with True y(2) new show ?thesis by simp
    next
      case False
      with y machine_okD(5) [OF ok y(1)] show ?thesis by simp
    qed
  qed
  then show ?thesis
    unfolding machine_ok_def keys same using machine_okD [OF ok] by (simp add: update_binding_def)
qed

lemma machine_ok_audit:
  "machine_ok e (s\<lparr>audit := rows, audit_anchor := anchor\<rparr>) = machine_ok e s"
  "machine_ok e (s\<lparr>import_files := files, audit := rows, audit_anchor := anchor\<rparr>) = machine_ok e s"
  by (simp_all add: machine_ok_def binding_ok_def from_machine_def key_rows_def)

lemma machine_ok_replace:
  assumes "machine_ok e s" "replace_draft e now may lin draft expected p actor s = (r, t)"
  shows "machine_ok e t"
proof (cases "t = s")
  case False
  from replace_effect [OF assms(2) False] machine_ok_edit [OF assms(1)] show ?thesis
    by (metis machine_ok_audit(1))
qed (use assms(1) in simp)

lemma machine_ok_discard:
  assumes "machine_ok e s" "discard_draft e now draft expected actor reason s = (r, t)"
  shows "machine_ok e t"
proof (cases "t = s")
  case False
  from discard_effect [OF assms(2) False] machine_ok_edit [OF assms(1)] show ?thesis
    by (metis machine_ok_audit(2))
qed (use assms(1) in simp)

lemma machine_ok_resume:
  assumes ok: "machine_ok e s" and run: "resume_machine_sync e i now draft expected actor s = (r, t)"
  shows "machine_ok e t"
proof (cases "t = s")
  case False
  from resume_effect [OF run False] obtain d b f merged row anchor where
    d: "draft_of draft s = Some d" "edited d (f d)" "\<And>x. fd_id (f x) = fd_id x"
    and b: "binding_of draft s = Some b" and p: "fd_payload (f d) = merged"
    and mg: "merge_machine_payloads e (map ct_payload (sort_key ct_source (key_rows b s))) = Inr merged"
    and sc: "bn_scope b \<in> set (binding_scopes merged)"
    and t: "t = (update_binding (bn_client b) (bn_draft_key b) (\<lambda>x. x\<lparr>bn_revision := fd_revision (f d),
        bn_sha := sha256_jcs e (payload_json merged)\<rparr>) (update_draft draft f s))
      \<lparr>audit := audit s @ [row], audit_anchor := anchor\<rparr>" by metis
  let ?g = "\<lambda>x. x\<lparr>bn_revision := fd_revision (f d), bn_sha := sha256_jcs e (payload_json merged)\<rparr>"
  let ?u = "update_draft draft f s"
  note b' = binding_of_mem [OF b] and d' = draft_of_mem [OF d(1)]
  have mem: "f d \<in> set (drafts ?u)" using d' by (force simp: update_draft_def)
  have rows: "key_rows (?g b) ?u = key_rows b s" by (simp add: key_rows_def update_draft_def)
  have "from_machine e ?u (?g b) (f d)"
    unfolding from_machine_def rows
    by (rule exI [of _ "map ct_payload (sort_key ct_source (key_rows b s))"], rule exI [of _ merged])
      (use mg p sc in simp)
  then have "binding_ok e ?u (?g b)"
    unfolding binding_ok_def using mem b' d' d(3) by (intro bexI [of _ "f d"]) auto
  then have "machine_ok e (update_binding (bn_client b) (bn_draft_key b) ?g ?u)"
    using b' by (intro machine_ok_update_binding machine_ok_edit [OF ok d])
      (simp_all add: binding_ident_def update_draft_def)
  then show ?thesis unfolding t machine_ok_audit(1) .
qed (use ok in simp)

section \<open>Every step of a handler keeps the invariant\<close>

lemma core_dispatch [evolves_rules]:
  "evolves core_same (auto_dispatch e g i now r d review att message_id actor)"
  by (intro dispatch_evolves core.history_relation_axioms evolves_rules)

lemma handler_keeps:
  assumes ok: "machine_ok e s" and run: "handler_step e g i h x ph s = (ph', t)"
  shows "machine_ok e t"
proof -
  have keep: "machine_ok e t" if "evolves core_same m" "with_result f k (m s) = (ph', t)"
    for m :: "'a aop" and f k
    using that with_result_state [OF that(2)] core_same_ok [OF _ ok] by (auto simp: evolves_def)
  show ?thesis
  proof (cases ph)
    case At_Claim
    with run with_result_state have "snd (claim_connector_ingestion (ot_now x) (hd_request h)
      (hd_owner h) (ot_ingestion x) s) = t" by fastforce
    then obtain ev where "t = s\<lparr>events := ev\<rparr>" by (metis claim_effect surjective_pairing)
    with ok show ?thesis
      by (simp add: machine_ok_def binding_ok_def from_machine_def key_rows_def)
  next
    case (At_Import v created)
    show ?thesis
    proof (cases "ot_file x")
      case (Prepared m)
      with At_Import run have "with_result (import_failed v) (At_Review v created m)
        (create_or_update_machine_import e i (ot_now x) (import_arguments h x v) m s) = (ph', t)" by simp
      from with_result_state [OF this] obtain r where
        "create_or_update_machine_import e i (ot_now x) (import_arguments h x v) m s = (r, t)"
        by (metis surjective_pairing)
      with ok show ?thesis by (rule machine_ok_create)
    qed (use At_Import run ok in simp)
  qed (use run ok in \<open>auto simp: Let_def intro: keep [rotated] evolves_rules\<close>)
qed

end
