(* ===== verification/Ingest_Steps.thy ===== *)
theory Ingest_Steps
  imports Ingest_Edits
begin

text \<open>
  The agent while it runs: handlers of machine events side by side, each step of one being a
  transaction, and the people's calls between them. A handler that is never scheduled again has
  crashed. The clock, the UUIDs, the file and every argument are arbitrary at every step.
\<close>

section \<open>The system\<close>

definition new_db :: agent_db where
  "new_db = \<lparr>events = [], contributions = [], artifacts = [], bindings = [], drafts = [],
     import_files = [], submissions = [], health_events = [], source_states = [], nonces = [],
     audit = [], audit_anchor = Some (0, zero_hash)\<rparr>"

record agent_state =
  ag_db :: agent_db
  ag_running :: "(handler \<times> phase) list"

definition agent_start :: agent_state where
  "agent_start = \<lparr>ag_db = new_db, ag_running = []\<rparr>"

text \<open>One call of an entry point other than the handler of an event.\<close>

inductive call_step ::
    "ingest_env \<Rightarrow> review_settings \<Rightarrow> identity \<Rightarrow> agent_db \<Rightarrow> agent_db \<Rightarrow> bool"
  for e :: ingest_env and g :: review_settings and i :: identity where
  register: "register_connector_request now client request sha timestamp s = (r, t) \<Longrightarrow> call_step e g i s t"
| health: "record_connector_source_health now client sha h required freshness s = (r, t) \<Longrightarrow>
    call_step e g i s t"
| replace: "replace_draft e now may lin draft expected p actor s = (r, t) \<Longrightarrow> call_step e g i s t"
| discard: "discard_draft e now draft expected actor reason s = (r, t) \<Longrightarrow> call_step e g i s t"
| resume: "resume_machine_sync e i now draft expected actor s = (r, t) \<Longrightarrow> call_step e g i s t"
| confirm: "confirm_draft e g i now draft expected actor name role attestation accepted message_id s
    = (r, t) \<Longrightarrow> call_step e g i s t"

inductive agent_step ::
    "ingest_env \<Rightarrow> review_settings \<Rightarrow> identity \<Rightarrow> agent_state \<Rightarrow> agent_state \<Rightarrow> bool"
  for e :: ingest_env and g :: review_settings and i :: identity where
  accept: "agent_step e g i s (s\<lparr>ag_running := ag_running s @ [(h, At_Claim)]\<rparr>)"
| handle: "k < length (ag_running s) \<Longrightarrow> ag_running s ! k = (h, ph) \<Longrightarrow>
    handler_step e g i h x ph (ag_db s) = (ph', t) \<Longrightarrow>
    agent_step e g i s (s\<lparr>ag_db := t, ag_running := (ag_running s)[k := (h, ph')]\<rparr>)"
| call: "call_step e g i (ag_db s) t \<Longrightarrow> agent_step e g i s (s\<lparr>ag_db := t\<rparr>)"

inductive agent_reachable :: "ingest_env \<Rightarrow> review_settings \<Rightarrow> identity \<Rightarrow> agent_state \<Rightarrow> bool"
  for e :: ingest_env and g :: review_settings and i :: identity where
  start: "agent_reachable e g i agent_start"
| step: "agent_reachable e g i s \<Longrightarrow> agent_step e g i s t \<Longrightarrow> agent_reachable e g i t"

inductive_cases call_stepE: "call_step e g i s t"
inductive_cases agent_stepE: "agent_step e g i s t"

section \<open>What every step does\<close>

lemma call_history: "call_step e g i s t \<Longrightarrow> history e s t"
  by (elim call_stepE; erule evolvesD [rotated]; intro evolves_rules)

lemma step_history: "agent_step e g i s t \<Longrightarrow> history e (ag_db s) (ag_db t)"
  by (elim agent_stepE) (auto intro: handler_progress call_history)

lemma steps_history: "(agent_step e g i)\<^sup>*\<^sup>* s t \<Longrightarrow> history e (ag_db s) (ag_db t)"
proof (induction rule: rtranclp_induct)
  case (step t u)
  show ?case by (rule progress.rel_trans [OF step.IH step_history [OF step.hyps(2)]])
qed (rule history_refl)

section \<open>An event fills its draft at most once\<close>

definition fills :: "string \<Rightarrow> agent_db \<Rightarrow> nat" where
  "fills ingestion s = length (filter (autofilled ingestion) (audit s))"

definition decided :: "string \<Rightarrow> agent_db \<Rightarrow> bool" where
  "decided ingestion s \<longleftrightarrow> list_ex (\<lambda>v. iv_id v = ingestion \<and> iv_status v \<noteq> Bound) (events s)"

definition fills_ok :: "agent_db \<Rightarrow> bool" where
  "fills_ok s \<longleftrightarrow> distinct (map iv_id (events s))
     \<and> (\<forall>ingestion. fills ingestion s \<le> (if decided ingestion s then 1 else 0))"

lemma fills_machine: "fills ingestion s = length (filter (autofilled ingestion) (filter machine_fill (audit s)))"
  unfolding fills_def filter_filter
  by (rule arg_cong [of _ _ length], rule filter_cong) (auto simp: autofilled_def machine_fill_def)

lemma decided_step: "events_step s t \<Longrightarrow> decided ingestion s \<Longrightarrow> decided ingestion t"
proof -
  assume step: "events_step s t" and "decided ingestion s"
  then obtain v where v: "v \<in> set (events s)" "iv_id v = ingestion" "iv_status v \<noteq> Bound"
    by (auto simp: decided_def list_ex_iff)
  from events_step_row [OF step v(1)] obtain w where w: "w \<in> set (events t)" "row_step v w" .
  with v have "iv_id w = ingestion" "iv_status w \<noteq> Bound"
    by (cases "iv_status v"; cases "iv_status w"; simp add: row_step_def event_ident_def)+
  with w(1) show ?thesis by (auto simp: decided_def list_ex_iff)
qed

lemma fills_ok_quiet:
  assumes "fills_ok s" "history e s t" "core_same s t"
  shows "fills_ok t"
proof -
  have "fills ingestion t = fills ingestion s" for ingestion
    using assms(3) by (simp add: fills_machine core_same_def)
  moreover have "distinct (map iv_id (events t))"
    using assms(1,3) by (simp add: fills_ok_def core_same_def)
  moreover have "decided ingestion s \<Longrightarrow> decided ingestion t" for ingestion
    using assms(2) by (auto simp: history_def intro: decided_step)
  ultimately show ?thesis using assms(1) unfolding fills_ok_def by (metis le_zero_eq zero_le)
qed

lemma audit_only:
  assumes "fa_type row \<noteq> ''five_quantity_machine_autofilled''" "fills_ok s" "history e s t"
    and "events t = events s" "audit t = audit s @ [row]"
  shows "fills_ok t"
proof -
  have "fills ingestion t = fills ingestion s" for ingestion
    using assms(1,5) by (simp add: fills_def autofilled_def)
  moreover have "decided ingestion t = decided ingestion s" for ingestion
    using assms(4) by (simp add: decided_def)
  ultimately show ?thesis using assms(2,4) by (simp add: fills_ok_def)
qed

lemma call_fills:
  assumes ok: "fills_ok s" and step: "call_step e g i s t"
  shows "fills_ok t"
proof -
  note hist = call_history [OF step]
  have quiet: "fills_ok t" if "evolves core_same m" "m s = (r, t)" for m :: "'a aop" and r
    by (rule fills_ok_quiet [OF ok hist evolvesD [OF that]])
  show ?thesis using step
  proof cases
    case (replace now may lin draft expected p actor r)
    show ?thesis
    proof (cases "t = s")
      case False
      from replace_effect [OF replace False] obtain row anchor f where
        t: "t = (update_draft draft f s)\<lparr>audit := audit s @ [row], audit_anchor := anchor\<rparr>"
        and row: "fa_type row = ''five_quantity_review_saved''" by metis
      show ?thesis
        by (rule audit_only [OF _ ok hist, of row]) (simp_all add: t row update_draft_def)
    qed (use ok in simp)
  next
    case (discard now draft expected actor reason r)
    show ?thesis
    proof (cases "t = s")
      case False
      from discard_effect [OF discard False] obtain row anchor f files where
        t: "t = (update_draft draft f s)\<lparr>import_files := files, audit := audit s @ [row], audit_anchor := anchor\<rparr>"
        and row: "fa_type row = ''five_quantity_draft_discarded''" by metis
      show ?thesis
        by (rule audit_only [OF _ ok hist, of row]) (simp_all add: t row update_draft_def)
    qed (use ok in simp)
  next
    case (resume now draft expected actor r)
    show ?thesis
    proof (cases "t = s")
      case False
      show ?thesis
      proof (rule resume_effect [OF resume False])
        fix d b f merged row anchor
        assume t: "t = (update_binding (bn_client b) (bn_draft_key b) (\<lambda>x. x\<lparr>bn_revision := fd_revision (f d),
            bn_sha := sha256_jcs e (payload_json merged)\<rparr>) (update_draft draft f s))
            \<lparr>audit := audit s @ [row], audit_anchor := anchor\<rparr>"
          and row: "fa_type row = ''five_quantity_machine_sync_resumed''"
        show ?thesis
          by (rule audit_only [OF _ ok hist, of row])
            (simp_all add: t row update_draft_def update_binding_def)
      qed
    qed (use ok in simp)
  qed (erule quiet [rotated]; intro evolves_rules)+
qed

lemma call_keeps:
  assumes ok: "machine_ok e s" and step: "call_step e g i s t"
  shows "machine_ok e t"
proof -
  have quiet: "machine_ok e t" if "evolves core_same m" "m s = (r, t)" for m :: "'a aop" and r
    by (rule core_same_ok [OF evolvesD [OF that] ok])
  show ?thesis
    using step
  proof cases
    case replace
    with ok show ?thesis by (rule machine_ok_replace)
  next
    case discard
    with ok show ?thesis by (rule machine_ok_discard)
  next
    case resume
    with ok show ?thesis by (rule machine_ok_resume)
  qed (erule quiet [rotated]; intro evolves_rules)+
qed

lemma create_fills:
  assumes ok: "fills_ok s" and run: "create_or_update_machine_import e i now c m s = (r, t)"
  shows "fills_ok t"
proof (cases r)
  case (Inl x)
  with run ok create_Inl show ?thesis by blast
next
  case (Inr a)
  have hist: "events_step s t"
    using evolvesD [OF progress_create run] by (simp add: history_def)
  show ?thesis
  proof (rule create_effect [OF run [unfolded Inr]])
    fix p w draft row replaced
    assume target: "ip_target p = (draft, row, replaced)" and t: "t = after_import e now c m p w s"
      and row: "autofilled (ic_ingestion c) (wr_row w)"
      and more: "\<forall>x \<in> set (wr_more w). fa_type x = ''five_quantity_machine_draft_replaced''"
      and held: "\<exists>x \<in> set (events s). leased (ic_ingestion c) (ic_owner c) x \<and> iv_status x = Bound"
    have ids: "map iv_id (events t) = map iv_id (events s)"
      by (simp add: t after_import_def target imported_row_def)
    have none: "filter (autofilled k) (wr_more w) = []" for k
      using more by (auto simp: filter_empty_conv autofilled_def)
    have only: "autofilled k (wr_row w) \<longleftrightarrow> k = ic_ingestion c" for k
      using row by (auto simp: autofilled_def)
    have count: "fills k t = fills k s + (if k = ic_ingestion c then 1 else 0)" for k
      by (simp add: fills_def t after_import_def target only none)
    from held obtain x where x: "x \<in> set (events s)" "iv_id x = ic_ingestion c"
      "leased (ic_ingestion c) (ic_owner c) x" "iv_status x = Bound" by (auto simp: leased_def)
    have "\<not> decided (ic_ingestion c) s"
    proof
      assume "decided (ic_ingestion c) s"
      then obtain v where v: "v \<in> set (events s)" "iv_id v = ic_ingestion c" "iv_status v \<noteq> Bound"
        by (auto simp: decided_def list_ex_iff)
      have "v = x" by (rule key_unique [of iv_id "events s"]) (use ok v x in \<open>simp_all add: fills_ok_def\<close>)
      with v x show False by simp
    qed
    moreover have "decided (ic_ingestion c) t"
    proof -
      let ?f = "imported_row now draft (wr_summary w) (wr_revision w)
        (sha256_jcs e (payload_json (ip_merged p))) (wr_check w)"
      have "?f x \<in> set (events t)"
        using imageI [OF x(1), of "\<lambda>r. if leased (ic_ingestion c) (ic_owner c) r \<and> iv_status r = Bound
          then ?f r else r"] x(3,4) by (simp add: t after_import_def target)
      moreover have "iv_id (?f x) = ic_ingestion c" "iv_status (?f x) \<noteq> Bound"
        using x(2) by (simp_all add: imported_row_def)
      ultimately show ?thesis unfolding decided_def list_ex_iff by blast
    qed
    moreover have "decided k s \<Longrightarrow> decided k t" for k by (rule decided_step [OF hist])
    ultimately have "fills k t \<le> (if decided k t then 1 else 0)" for k
      using ok count [of k] unfolding fills_ok_def by (cases "k = ic_ingestion c") (auto split: if_splits)
    with ok ids show ?thesis by (simp add: fills_ok_def)
  qed
qed

lemma handler_fills:
  assumes ok: "fills_ok s" and run: "handler_step e g i h x ph s = (ph', t)"
  shows "fills_ok t"
proof -
  note hist = handler_progress [OF run]
  have keep: "fills_ok t" if "evolves core_same m" "with_result f k (m s) = (ph', t)"
    for m :: "'a aop" and f k
    using that with_result_state [OF that(2)] fills_ok_quiet [OF ok hist] by (auto simp: evolves_def)
  show ?thesis
  proof (cases ph)
    case At_Claim
    with run with_result_state have "snd (claim_connector_ingestion (ot_now x) (hd_request h)
      (hd_owner h) (ot_ingestion x) s) = t" by fastforce
    then obtain r where "claim_connector_ingestion (ot_now x) (hd_request h) (hd_owner h)
      (ot_ingestion x) s = (r, t)" by (metis surjective_pairing)
    then obtain ev where t: "t = s\<lparr>events := ev\<rparr>" and ids: "map iv_id ev = map iv_id (events s) \<or>
      (\<forall>v \<in> set (events s). iv_id v \<noteq> ot_ingestion x) \<and> map iv_id ev = map iv_id (events s) @ [ot_ingestion x]"
      by (rule claim_effect)
    have "fills k t = fills k s" for k by (simp add: fills_def t)
    moreover have "distinct (map iv_id (events t))" using ids ok by (fastforce simp: fills_ok_def t)
    moreover have "decided k s \<Longrightarrow> decided k t" for k
      using hist by (auto simp: history_def intro: decided_step)
    ultimately show ?thesis using ok unfolding fills_ok_def by (metis le_zero_eq zero_le)
  next
    case (At_Import v created)
    show ?thesis
    proof (cases "ot_file x")
      case (Prepared m)
      with At_Import run have "with_result (import_failed v) (At_Review v created m)
        (create_or_update_machine_import e i (ot_now x) (import_arguments h x v) m s) = (ph', t)" by simp
      from with_result_state [OF this] obtain r where
        "create_or_update_machine_import e i (ot_now x) (import_arguments h x v) m s = (r, t)"
        by (metis surjective_pairing)
      with ok show ?thesis by (rule create_fills)
    qed (use At_Import run ok in simp)
  qed (use run ok in \<open>auto simp: Let_def intro: keep [rotated] evolves_rules\<close>)
qed

section \<open>The invariant of the system\<close>

definition agent_ok :: "ingest_env \<Rightarrow> agent_db \<Rightarrow> bool" where
  "agent_ok e s \<longleftrightarrow> machine_ok e s \<and> fills_ok s \<and> audit_intact e s"

lemma agent_ok_start: "agent_ok e (ag_db agent_start)"
  by (simp add: agent_ok_def agent_start_def new_db_def machine_ok_def fills_ok_def fills_def
    audit_intact_def)

lemma agent_ok_step:
  assumes "agent_ok e (ag_db s)" "agent_step e g i s t"
  shows "agent_ok e (ag_db t)"
  using assms(2)
proof cases
  case (handle k h ph x ph' u)
  with assms(1) handler_keeps [OF _ handle(4)] handler_fills [OF _ handle(4)]
    handler_progress [OF handle(4)] show ?thesis by (simp add: agent_ok_def history_def)
next
  case (call u)
  with assms(1) call_keeps [OF _ call(2)] call_fills [OF _ call(2)] call_history [OF call(2)]
  show ?thesis by (simp add: agent_ok_def history_def)
qed (use assms(1) in simp)

lemma agent_reachable_ok: "agent_reachable e g i s \<Longrightarrow> agent_ok e (ag_db s)"
  by (induction rule: agent_reachable.induct) (auto intro: agent_ok_start agent_ok_step)

end
