(* ===== verification/Ingest_Fresh.thy ===== *)
theory Ingest_Fresh
  imports Ingest_Steps
begin

text \<open>
  What the freshness gate demands: a submission of a machine draft is queued only when every
  required source has reported a success on the very snapshot the draft was built from, whose
  event is completed, recently enough and up to the end of the period.
\<close>

section \<open>The specification of a fresh source\<close>

definition state_rows :: "binding_row \<Rightarrow> agent_db \<Rightarrow> source_state_row list" where
  "state_rows b s = filter (\<lambda>r. ss_client r = bn_client b \<and> ss_draft_key r = bn_draft_key b) (source_states s)"

definition draft_contributions :: "binding_row \<Rightarrow> string \<Rightarrow> agent_db \<Rightarrow> contribution_row list" where
  "draft_contributions b draft s = filter
     (\<lambda>c. ct_client c = bn_client b \<and> ct_draft_key c = bn_draft_key b \<and> ct_draft c = draft) (contributions s)"

definition joined_rows :: "binding_row \<Rightarrow> string \<Rightarrow> agent_db \<Rightarrow> joined list" where
  "joined_rows b draft s = map (\<lambda>c. (c, find (\<lambda>v. iv_id v = ct_ingestion c) (events s)))
     (draft_contributions b draft s)"

definition source_fresh ::
    "ingest_env \<Rightarrow> string \<Rightarrow> source_state_row list \<Rightarrow> joined list \<Rightarrow> rat \<Rightarrow> source_policy \<Rightarrow> bool" where
  "source_fresh e period_end rows js t p \<longleftrightarrow>
     (case row_for (sp_source p) rows of
        None \<Rightarrow> False
      | Some r \<Rightarrow> ss_system r = sp_system p \<and> ss_outcome r = Success_Nonempty
          \<and> snapshot_matches r (contribution_for (sp_source p) js)
          \<and> (case ss_coverage r of None \<Rightarrow> False | Some c \<Rightarrow> period_end \<le> c)
          \<and> (case instant e (ss_completed r) of None \<Rightarrow> False
             | Some completed \<Rightarrow> age_of t completed < sp_freshness p))"

section \<open>The evaluation implements it\<close>

lemma map_result_Inr: "map_result f xs = Inr ys \<Longrightarrow> x \<in> set xs \<Longrightarrow> \<exists>y \<in> set ys. f x = Inr y"
  by (induction xs arbitrary: ys) (auto simp: and_then_Inr)

lemma view_fresh:
  assumes "view_of_policy e configured period_end t rows js p = Inr v" "sv_state v = Fresh"
  shows "configured \<and> \<not> sp_missing p \<and> source_fresh e period_end rows js t p"
proof (cases "row_for (sp_source p) rows")
  case None
  with assms show ?thesis by (auto simp: view_of_policy_def Let_def split: if_splits)
next
  case (Some r)
  have system: "ss_system r = sp_system p"
    using assms Some by (auto simp: view_of_policy_def Let_def split: if_splits)
  with assms Some obtain st age where
    row: "row_state e period_end t (sp_freshness p) r (contribution_for (sp_source p) js) = Inr (st, age)"
    and st: "configured" "\<not> sp_missing p" "st = Fresh"
    by (auto simp: view_of_policy_def Let_def and_then_Inr split: if_splits)
  have "ss_outcome r = Success_Nonempty"
    using row st by (cases "ss_outcome r") (auto simp: row_state_def Let_def split: option.splits if_splits)
  with row st system Some show ?thesis
    by (auto simp: source_fresh_def row_state_def Let_def not_less split: option.splits if_splits)
qed

lemma evaluate_fresh:
  assumes "evaluate_source_health e period_end rows js ps t = Inr (views, All_Fresh, stale)"
    and "p \<in> set (effective_policies ps rows js)" "sp_required p"
  shows "ps \<noteq> [] \<and> \<not> sp_missing p \<and> source_fresh e period_end rows js t p"
proof -
  from assms(1) obtain vs where
    views: "map_result (view_of_policy e (ps \<noteq> []) period_end t rows js)
      (sort_key sp_source (effective_policies ps rows js)) = Inr vs"
    and none: "filter (\<lambda>v. sv_required v \<and> sv_state v \<noteq> Fresh) vs = []"
    by (auto simp: evaluate_source_health_def Let_def and_then_Inr split: if_splits)
  from map_result_Inr [OF views, of p] assms(2) obtain v where
    v: "v \<in> set vs" "view_of_policy e (ps \<noteq> []) period_end t rows js p = Inr v" by auto
  have "sv_required v = sp_required p"
    using v(2) by (auto simp: view_of_policy_def Let_def and_then_Inr split: option.splits if_splits prod.splits)
  with none v(1) assms(3) have "sv_state v = Fresh" by (auto simp: filter_empty_conv)
  from view_fresh [OF v(2) this] show ?thesis by simp
qed

text \<open>All sources are fresh: the configured ones, and none contributes that is not configured.\<close>

lemma all_fresh:
  assumes "evaluate_source_health e period_end rows js ps t = Inr (views, All_Fresh, stale)"
  shows "(\<forall>p \<in> set ps. sp_required p \<longrightarrow> source_fresh e period_end rows js t p)
    \<and> (\<forall>j \<in> set js. ct_source (fst j) \<in> sp_source ` set ps)"
proof -
  note fresh = evaluate_fresh [OF assms]
  have "source_fresh e period_end rows js t p" if "p \<in> set ps" "sp_required p" for p
  proof -
    have "p \<in> set (effective_policies ps rows js)" using that by (auto simp: effective_policies_def)
    with fresh that show ?thesis by blast
  qed
  moreover have "ct_source (fst j) \<in> sp_source ` set ps" if j: "j \<in> set js" for j
  proof (rule ccontr)
    assume "ct_source (fst j) \<notin> sp_source ` set ps"
    moreover let ?p = "policy_of_contribution rows (ps \<noteq> []) j"
    have "sp_required ?p" "sp_missing ?p = (ps \<noteq> [])" by (simp_all add: policy_of_contribution_def)
    moreover have "?p \<in> set (effective_policies ps rows js)"
      using calculation j by (cases "ps = []") (auto simp: effective_policies_def)
    ultimately show False using fresh by blast
  qed
  ultimately show ?thesis by blast
qed

section \<open>The gate\<close>

lemma enqueue_fresh:
  assumes run: "enqueue e g now d c m actor s = (Inr u, t)"
    and d: "draft_of (fd_id d) s = Some d" and b: "binding_of (fd_id d) s = Some b"
  shows "\<exists>views stale. evaluate_source_health e (pl_end (fd_payload d)) (state_rows b s)
    (joined_rows b (fd_id d) s) (policies g) (clock now) = Inr (views, All_Fresh, stale)"
  using run [unfolded enqueue_def]
proof (elim bind_InrE3 bind_InrE)
  fix u1 w1 same w2 u3 w3 views overall stale w4 u5 w5
  assume x: "require (exactly_bound e d m c actor) (Conflict ''binding'') s = (Inr u1, w1)"
    and r: "(reading (\<lambda>s. find (\<lambda>x. fo_key x = sm_key m) (submissions s)) :: submission_row option aop) w1
      = (Inr same, w2)"
    and q: "require (case same of None \<Rightarrow> True | Some x \<Rightarrow> fo_draft x = fd_id d) (Conflict ''submitted'') w2
      = (Inr u3, w3)"
    and h: "source_health_for_draft e (fd_id d) (policies g) (clock now) w3 = (Inr (views, overall, stale), w4)"
    and f: "require (fresh_enough overall) (Blocked ''stale sources'') w4 = (Inr u5, w5)"
  have w3: "w3 = s" using require_InrD [OF x] require_InrD [OF q] r by (simp add: reading_Inr)
  have ov: "fresh_enough overall" using require_InrD [OF f] by simp
  from h [unfolded w3] have "evaluate_source_health e (pl_end (fd_payload d)) (state_rows b s)
      (joined_rows b (fd_id d) s) (policies g) (clock now) = Inr (views, overall, stale)"
    using d b by (simp add: source_health_for_draft_def bind_reading found_def draft_of_def binding_of_def
      state_rows_def joined_rows_def draft_contributions_def of_result_Inr Let_def bind_ret)
  moreover from this have "overall \<noteq> Not_Applicable"
    by (auto simp: evaluate_source_health_def Let_def and_then_Inr split: if_splits)
  ultimately show ?thesis using ov by (auto simp: fresh_enough_def)
qed

text \<open>Calls that only read.\<close>

interpretation unchanged: history_relation "(=) :: agent_db \<Rightarrow> agent_db \<Rightarrow> bool"
  by unfold_locales simp_all

lemma unchanged_reads [evolves_rules]:
  "evolves ((=) :: agent_db \<Rightarrow> agent_db \<Rightarrow> bool) (of_result r)" "evolves (=) (found x v)"
  "evolves (=) (machine_sync_state e draft)" "evolves (=) (source_health_for_draft e draft ps time)"
proof -
  show 1: "evolves ((=) :: agent_db \<Rightarrow> agent_db \<Rightarrow> bool) (of_result r)" for r
    unfolding of_result_def by (cases r) (auto intro: evolves_rules)
  show 2: "evolves ((=) :: agent_db \<Rightarrow> agent_db \<Rightarrow> bool) (found x v)" for x v
    unfolding found_def by (intro evolves_rules)
  show "evolves (=) (machine_sync_state e draft)"
    unfolding machine_sync_state_def by (intro evolves_rules 2)
  show "evolves (=) (source_health_for_draft e draft ps time)"
    unfolding source_health_for_draft_def Let_def by (intro evolves_rules 1 2)
qed

lemma bind_readE:
  assumes "bind m f s = (r, t)" "submissions t \<noteq> submissions s" "evolves (=) m"
    and "\<And>a. m s = (Inr a, s) \<Longrightarrow> f a s = (r, t) \<Longrightarrow> thesis"
  shows thesis
  using bind_outcome [OF assms(1)] assms(2,4) evolvesD [OF assms(3)] by metis

lemma confirm_enqueue_submits:
  assumes run: "confirm_and_enqueue e g i now draft expected c m actor s = (r, t)"
    and sent: "submissions t \<noteq> submissions s"
  obtains d u where "draft_of draft s = Some d" "fd_revision d = expected" "audit_intact e s"
    "independent_actor g d actor" "fd_status d = Ready_Review" "enqueue e g now d c m actor s = (Inr u, t)"
proof -
  from guarded_transaction [OF run [unfolded confirm_and_enqueue_def]] sent obtain u where
    "bind (reading id) (\<lambda>s.
       bind (require (audit_intact e s) (Conflict ''audit'')) (\<lambda>_.
       bind (found (Not_Found ''draft'') (draft_of draft s)) (\<lambda>d.
       bind (require (fd_current d) (Conflict ''contract'')) (\<lambda>_.
       bind (require (fd_revision d = expected) (Conflict ''revision'')) (\<lambda>_.
       bind (require (sm_revision m = fd_submission_revision d) (Conflict ''submission revision'')) (\<lambda>_.
       bind (of_result (if fd_submission_revision d = 1
         then (if first_lineage d m then Inr () else Inl (Conflict ''lineage'')) else lineage g d m)) (\<lambda>_.
       bind (require (independent_actor g d actor) (Blocked ''four eyes'')) (\<lambda>_.
       bind (require (fd_status d \<noteq> Discarded) (Conflict ''discarded'')) (\<lambda>_.
       if fd_status d \<in> {Queued, Submitted, Acknowledged}
       then require (submission_pending draft s) (Conflict ''outbox'')
       else enqueue e g now d c m actor))))))))) s = (Inr u, t)" by auto
  then show thesis
  proof (elim bind_InrE)
    fix s0 w0 u1 w1 d w2 u3 w3 u4 w4 u5 w5 u6 w6 u7 w7 u8 w8
    assume read: "(reading id :: agent_db aop) s = (Inr s0, w0)"
      and intact: "require (audit_intact e s0) (Conflict ''audit'') w0 = (Inr u1, w1)"
      and found: "found (Not_Found ''draft'') (draft_of draft s0) w1 = (Inr d, w2)"
      and cur: "require (fd_current d) (Conflict ''contract'') w2 = (Inr u3, w3)"
      and rev: "require (fd_revision d = expected) (Conflict ''revision'') w3 = (Inr u4, w4)"
      and sr: "require (sm_revision m = fd_submission_revision d) (Conflict ''submission revision'') w4
        = (Inr u5, w5)"
      and lin: "of_result (if fd_submission_revision d = 1
         then (if first_lineage d m then Inr () else Inl (Conflict ''lineage'')) else lineage g d m) w5
        = (Inr u6, w6)"
      and ind: "require (independent_actor g d actor) (Blocked ''four eyes'') w6 = (Inr u7, w7)"
      and dis: "require (fd_status d \<noteq> Discarded) (Conflict ''discarded'') w7 = (Inr u8, w8)"
      and rest: "(if fd_status d \<in> {Queued, Submitted, Acknowledged}
       then require (submission_pending draft s0) (Conflict ''outbox'')
       else enqueue e g now d c m actor) w8 = (Inr u, t)"
    have s0: "s0 = s" "w0 = s" using read by (simp_all add: reading_Inr)
    have w: "w8 = s" "draft_of draft s = Some d" "audit_intact e s" "fd_revision d = expected"
      "independent_actor g d actor" "fd_status d \<noteq> Discarded"
      using s0 require_InrD [OF intact] found require_InrD [OF cur] require_InrD [OF rev]
        require_InrD [OF sr] lin require_InrD [OF ind] require_InrD [OF dis] by (simp_all add: step_effects)
    have "fd_status d \<notin> {Queued, Submitted, Acknowledged}"
    proof
      assume "fd_status d \<in> {Queued, Submitted, Acknowledged}"
      with rest w(1) sent show False by (auto dest: require_state)
    qed
    with rest w show thesis by (cases "fd_status d") (auto intro: that)
  qed
qed

lemma confirm_submits:
  assumes run: "confirm_draft e g i now draft expected actor name role att acc message_id s = (r, t)"
    and sent: "submissions t \<noteq> submissions s"
  obtains d c m u where "draft_of draft s = Some d" "fd_revision d = expected" "audit_intact e s"
    "independent_actor g d actor" "fd_status d = Ready_Review" "enqueue e g now d c m actor s = (Inr u, t)"
proof -
  have "\<exists>c m. confirm_and_enqueue e g i now draft expected c m actor s = (r, t)"
    using run [unfolded confirm_draft_def Let_def]
    by - ((erule bind_readE, rule sent, (intro evolves_rules; fail))+, blast)
  with that confirm_enqueue_submits [OF _ sent] show thesis by metis
qed

end
