(* ===== verification/Ingest_Properties.thy ===== *)
theory Ingest_Properties
  imports Ingest_Fresh
begin

text \<open>
  The properties of the ingestion of machine data: they hold in every state the agent reaches,
  whatever handlers run side by side, wherever they stop, and whatever people do in between.
\<close>

section \<open>Helpers\<close>

lemma find_event_step:
  assumes "events_step s t" "find (event_key client event) (events s) = Some v"
  obtains w where "find (event_key client event) (events t) = Some w" "row_step v w"
proof -
  have key: "row_step a b \<Longrightarrow> event_key client event b = event_key client event a" for a b
    by (simp add: row_step_def event_ident_def event_key_def)
  obtain k where k: "k < length (events s)" "v = events s ! k" "event_key client event v"
    "\<forall>j < k. \<not> event_key client event (events s ! j)"
    using assms(2) by (auto simp: find_Some_iff)
  have steps: "\<forall>j < length (events s). row_step (events s ! j) (events t ! j)"
    "length (events s) \<le> length (events t)" using assms(1) by (auto simp: events_step_def)
  with k key have "find (event_key client event) (events t) = Some (events t ! k)"
    unfolding find_Some_iff by (intro exI [of _ k]) (metis less_le_trans less_trans)
  with steps k that show thesis by blast
qed

lemma core_same_draft:
  assumes "core_same s t" "d \<in> set (drafts s)"
  shows "\<exists>x \<in> set (drafts t). draft_core x = draft_core d"
proof -
  have "draft_core d \<in> set (map draft_core (drafts t))"
    using assms by (simp add: core_same_def)
  then show ?thesis by auto
qed

text \<open>An import writes no draft but an untouched, unsent one of its key.\<close>

lemma create_drafts:
  assumes ok: "machine_ok e s" and run: "create_or_update_machine_import e i now c m s = (r, t)"
    and d: "d \<in> set (drafts s)"
  shows "d \<in> set (drafts t) \<or> (\<exists>b \<in> set (bindings s). bn_draft b = fd_id d \<and> untouched e b d \<and> unsent d s)"
proof (cases r)
  case (Inl x)
  with run d create_Inl show ?thesis by blast
next
  case (Inr a)
  show ?thesis
  proof (rule create_effect [OF run [unfolded Inr]])
    fix p w draft row replaced
    assume plan: "plan_import e i c m s = Inr p" and target: "ip_target p = (draft, row, replaced)"
      and t: "t = after_import e now c m p w s"
    note pl = plan_import_Inr [OF plan]
    note ch = choose_draft_Inr [OF pl(2) [unfolded target]]
    show ?thesis
    proof (cases row)
      case None
      with d show ?thesis by (simp add: t after_import_def target drafts_after_def)
    next
      case (Some y)
      show ?thesis
      proof (cases "fd_id d = draft")
        case False
        have "d \<in> (\<lambda>x. if fd_id x = draft then redrafted now c (fd_revision y + 1) (ip_merged p) x else x)
            ` set (drafts s)"
          by (rule image_eqI [of _ _ d]) (use d False in auto)
        with d Some show ?thesis by (simp add: t after_import_def target drafts_after_def)
      next
        case True
        then obtain b where b: "ip_binding p = Some b" "draft = bn_draft b"
          "find (\<lambda>d. fd_id d = bn_draft b) (drafts s) = Some y" "untouched e b y" "unsent y s"
          using ch Some by (cases "ip_binding p") (auto split: if_splits)
        then have "y \<in> set (drafts s)" "fd_id y = draft"
          using find_Some_mem [of "\<lambda>d. fd_id d = bn_draft b" "drafts s" y] by simp_all
        with True d have "y = d" using key_unique [OF machine_okD(1) [OF ok]] by metis
        moreover have "b \<in> set (bindings s)"
          using find_Some_mem [of "binding_key (ic_client c) (ic_draft_key c)" "bindings s" b] b(1) pl(1) by simp
        ultimately show ?thesis using b True by (intro disjI2 bexI [of _ b]) simp_all
      qed
    qed
  qed
qed

text \<open>The draft is there with the content and the revision it had.\<close>

definition kept :: "draft_row \<Rightarrow> agent_db \<Rightarrow> bool" where
  "kept d t \<longleftrightarrow> list_ex (\<lambda>y. fd_id y = fd_id d \<and> fd_revision y = fd_revision d
     \<and> fd_payload y = fd_payload d) (drafts t)"

lemma kept_mem: "d \<in> set (drafts t) \<Longrightarrow> kept d t"
  by (auto simp: kept_def list_ex_iff)

section \<open>Properties\<close>


text \<open>C36: a draft nobody edited since the machine wrote it is the merge of the latest snapshots
  of the sources of its draft key, in every reachable state.\<close>

theorem bound_draft_is_merge:
  assumes "agent_reachable e g i s"
    and "b \<in> set (bindings (ag_db s))" "d \<in> set (drafts (ag_db s))"
    and "bn_draft b = fd_id d" "bn_revision b = fd_revision d"
  shows "\<exists>ps merged. mset ps = mset (map ct_payload (key_rows b (ag_db s)))
    \<and> merge_machine_payloads e ps = Inr merged
    \<and> sha256_jcs e (payload_json (fd_payload d)) = sha256_jcs e (payload_json merged)
    \<and> untouched e b d \<and> bn_scope b \<in> set (binding_scopes merged)"
proof -
  have ok: "machine_ok e (ag_db s)" using agent_reachable_ok [OF assms(1)] by (simp add: agent_ok_def)
  from machine_okD(5) [OF ok assms(2)] obtain x where x: "x \<in> set (drafts (ag_db s))" "fd_id x = bn_draft b"
    "fd_revision x = bn_revision b \<longrightarrow> from_machine e (ag_db s) b x" by (auto simp: binding_ok_def)
  with assms have "x = d" using key_unique [OF machine_okD(1) [OF ok]] by metis
  with x assms(5) have "from_machine e (ag_db s) b d" by simp
  then obtain ps merged where m: "mset ps = mset (map ct_payload (key_rows b (ag_db s)))"
    "merge_machine_payloads e ps = Inr merged"
    "sha256_jcs e (payload_json (fd_payload d)) = sha256_jcs e (payload_json merged)"
    "bn_sha b = sha256_jcs e (payload_json merged)" "bn_scope b \<in> set (binding_scopes merged)"
    unfolding from_machine_def by blast
  with assms(5) have "untouched e b d" by (simp add: untouched_def)
  with m show ?thesis by blast
qed

text \<open>C37: no step of a machine event overwrites what a person wrote: afterwards every draft has
  the content and revision it had, except one that is bound to the machine, exactly as the machine
  left it, and neither confirmed nor sent.\<close>

theorem human_edits_kept:
  assumes "agent_reachable e g i s"
    and "handler_step e g i h x ph (ag_db s) = (ph', t)"
    and "d \<in> set (drafts (ag_db s))"
  shows "kept d t
    \<or> (\<exists>b \<in> set (bindings (ag_db s)). bn_draft b = fd_id d \<and> untouched e b d \<and> unsent d (ag_db s))"
proof -
  have ok: "machine_ok e (ag_db s)" using agent_reachable_ok [OF assms(1)] by (simp add: agent_ok_def)
  have same: "kept d t" if "core_same (ag_db s) t"
    using core_same_draft [OF that assms(3)] by (auto simp: draft_core_def kept_def list_ex_iff)
  have keep: "kept d t" if "evolves core_same m" "with_result f k (m (ag_db s)) = (ph', t)"
    for m :: "'a aop" and f k
    by (rule same) (use that with_result_state [OF that(2)] in \<open>auto simp: evolves_def\<close>)
  show ?thesis
  proof (cases ph)
    case At_Claim
    with assms(2) with_result_state have "snd (claim_connector_ingestion (ot_now x) (hd_request h)
      (hd_owner h) (ot_ingestion x) (ag_db s)) = t" by fastforce
    then obtain ev where "t = (ag_db s)\<lparr>events := ev\<rparr>" by (metis claim_effect surjective_pairing)
    with assms(3) show ?thesis by (intro disjI1 kept_mem) simp
  next
    case (At_Import v created)
    show ?thesis
    proof (cases "ot_file x")
      case (Prepared m)
      with At_Import assms(2) have "with_result (import_failed v) (At_Review v created m)
        (create_or_update_machine_import e i (ot_now x) (import_arguments h x v) m (ag_db s)) = (ph', t)" by simp
      from with_result_state [OF this] obtain r where
        "create_or_update_machine_import e i (ot_now x) (import_arguments h x v) m (ag_db s) = (r, t)"
        by (metis surjective_pairing)
      from create_drafts [OF ok this assms(3)] show ?thesis by (blast intro: kept_mem)
    next
      case (Not_Prepared err)
      with At_Import assms(2,3) show ?thesis by (intro disjI1 kept_mem) auto
    qed
  next
    case (Finished answer)
    with assms(2,3) show ?thesis by (intro disjI1 kept_mem) auto
  qed (rule disjI1, use assms(2) in \<open>auto simp: Let_def intro: keep [rotated] evolves_rules\<close>)+
qed

text \<open>C39: a submission of a machine draft is queued only if every required source is fresh at that
  moment, on the completed event of the snapshot the draft was built from, and if every source
  that contributed is configured.\<close>

theorem queued_sources_fresh:
  assumes "confirm_draft e g i now draft expected actor name role att acc message_id s = (r, t)"
    and "submissions t \<noteq> submissions s" "binding_of draft s = Some b"
  shows "\<exists>d. draft_of draft s = Some d \<and> fd_revision d = expected \<and> fd_status d = Ready_Review
    \<and> (\<forall>p \<in> set (policies g). sp_required p \<longrightarrow> source_fresh e (pl_end (fd_payload d)) (state_rows b s)
         (joined_rows b draft s) (clock now) p)
    \<and> (\<forall>c \<in> set (draft_contributions b draft s). ct_source c \<in> sp_source ` set (policies g))"
proof (rule confirm_submits [OF assms(1,2)])
  fix d c m u
  assume d: "draft_of draft s = Some d" "fd_revision d = expected" "fd_status d = Ready_Review"
    and run: "enqueue e g now d c m actor s = (Inr u, t)"
  have draft: "draft = fd_id d" using draft_of_mem [OF d(1)] by simp
  from enqueue_fresh [OF run] d(1) assms(3) obtain views stale where
    "evaluate_source_health e (pl_end (fd_payload d)) (state_rows b s) (joined_rows b draft s)
      (policies g) (clock now) = Inr (views, All_Fresh, stale)" unfolding draft by blast
  from all_fresh [OF this] d show ?thesis by (auto simp: joined_rows_def)
qed

text \<open>As long as the event of a required (or unconfigured) source of the draft is not completed,
  nothing is queued for the draft, by people or by the automatic dispatch of that very event,
  which runs before its completion.\<close>

theorem pending_event_blocks:
  assumes "agent_reachable e g i a" "s = ag_db a" "binding_of draft s = Some b"
    and "c \<in> set (draft_contributions b draft s)"
    and "find (\<lambda>v. iv_id v = ct_ingestion c) (events s) = Some v" "iv_status v \<noteq> Event_Completed"
    and "ct_source c \<in> sp_source ` set (policies g) \<longrightarrow>
      (\<exists>p \<in> set (policies g). sp_source p = ct_source c \<and> sp_required p)"
    and "confirm_draft e g i now draft expected actor name role att acc message_id s = (r, t)"
  shows "submissions t = submissions s"
proof (rule ccontr)
  assume "submissions t \<noteq> submissions s"
  from queued_sources_fresh [OF assms(8) this assms(3)] obtain d :: draft_row where
    fresh: "\<forall>p \<in> set (policies g). sp_required p \<longrightarrow> source_fresh e (pl_end (fd_payload d)) (state_rows b s)
         (joined_rows b draft s) (clock now) p"
    and known: "ct_source c \<in> sp_source ` set (policies g)" using assms(4) by metis
  from known assms(7) obtain p where p: "p \<in> set (policies g)" "sp_source p = ct_source c" "sp_required p" by blast
  have ok: "machine_ok e s" using agent_reachable_ok [OF assms(1)] assms(2) by (simp add: agent_ok_def)
  let ?j = "(c, Some v)"
  have j: "?j \<in> set (joined_rows b draft s)" using assms(4,5) by (force simp: joined_rows_def)
  have "contribution_for (ct_source c) (joined_rows b draft s) = Some ?j"
  proof -
    have "contribution_for (ct_source c) (joined_rows b draft s) \<noteq> None"
      using j by (auto simp: contribution_for_def find_last_None intro!: bexI [of _ "(c, Some v)"])
    then obtain k where k: "contribution_for (ct_source c) (joined_rows b draft s) = Some k" by blast
    then have k': "k \<in> set (joined_rows b draft s)" "ct_source (fst k) = ct_source c"
      by (auto simp: contribution_for_def dest: find_last_Some_mem)
    then have "fst k \<in> set (contributions s)" "contribution_ident (fst k) = contribution_ident c"
      "snd k = find (\<lambda>v. iv_id v = ct_ingestion (fst k)) (events s)"
      using assms(4) by (auto simp: joined_rows_def draft_contributions_def contribution_ident_def)
    moreover have "c \<in> set (contributions s)" using assms(4) by (simp add: draft_contributions_def)
    ultimately have "fst k = c" using key_unique [OF machine_okD(4) [OF ok]] by metis
    with \<open>snd k = _\<close> assms(5) k show ?thesis by (cases k) simp
  qed
  moreover have "source_fresh e (pl_end (fd_payload d)) (state_rows b s) (joined_rows b draft s) (clock now) p"
    using fresh p by blast
  ultimately show False using assms(6) p(2)
    by (cases "row_for (ct_source c) (state_rows b s)")
      (simp_all add: source_fresh_def snapshot_matches_def joined_status_def)
qed

text \<open>A decided event is never decided again: a completed one keeps its stored answer for ever
  and every further delivery of the request is given that answer, without any change.\<close>

theorem completed_event_replayed:
  assumes "(agent_step e g i)\<^sup>*\<^sup>* s t"
    and "find (event_key (ir_client (hd_request h)) (ir_event (hd_request h))) (events (ag_db s)) = Some v"
    and "iv_status v = Event_Completed" "iv_request_sha v = ir_sha (hd_request h)"
    and "iv_result v = Some j" "set_field ''idempotent_replay'' (JBool True) j = Some k"
  shows "handler_step e g i h x At_Claim (ag_db t) = (Finished (Answered k False), ag_db t)"
proof -
  have "events_step (ag_db s) (ag_db t)" using steps_history [OF assms(1)] by (simp add: history_def)
  from find_event_step [OF this assms(2)] obtain w where
    w: "find (event_key (ir_client (hd_request h)) (ir_event (hd_request h))) (events (ag_db t)) = Some w"
    "row_step v w" .
  then have "iv_status w = Event_Completed" "iv_result w = Some j" "iv_request_sha w = ir_sha (hd_request h)"
    using assms(3-5) by (simp_all add: row_step_def event_ident_def)
  with w(1) assms(6) show ?thesis
    by (simp add: claim_connector_ingestion_def one_transaction_def transaction_def bind_reading ret_def
        claimed_def)
qed

text \<open>The audit chain verifies in every reachable state, and no step removes or rewrites a row
  of it or a queued submission.\<close>

theorem audit_chain_grows:
  assumes "agent_reachable e g i s" "(agent_step e g i)\<^sup>*\<^sup>* s t"
  shows "audit_intact e (ag_db t) \<and> prefix (audit (ag_db s)) (audit (ag_db t))
    \<and> prefix (submissions (ag_db s)) (submissions (ag_db t))"
  using steps_history [OF assms(2)] agent_reachable_ok [OF assms(1)]
  by (simp add: history_def agent_ok_def)

end
