(* ===== verification/Ingest_Merge_Laws.thy ===== *)
theory Ingest_Merge_Laws
  imports Ingest_Merge
begin

text \<open>
  The merge of the machine payloads as a partial commutative and associative operation: each
  level of the payload (measurement, shift, day, source) interprets \<open>partial_merge\<close>, and the
  loop over the payloads is the merge of all their days and sources, in whatever order.
\<close>

section \<open>Measurements\<close>

lemma set_sorted_union [simp]: "set (sorted_union xs ys) = set xs \<union> set ys"
  by (simp add: sorted_union_def)

lemma sorted_union_eq: "set xs \<union> set ys = set us \<union> set vs \<Longrightarrow> sorted_union xs ys = sorted_union us vs"
proof -
  assume "set xs \<union> set ys = set us \<union> set vs"
  then have "set (xs @ ys) = set (us @ vs)" by simp
  then show ?thesis unfolding sorted_union_def
    by (metis sorted_list_of_set_sort_remdups)
qed

lemma sorted_union_commute: "sorted_union xs ys = sorted_union ys xs"
  by (rule sorted_union_eq) auto

lemma sorted_union_assoc: "sorted_union (sorted_union xs ys) zs = sorted_union xs (sorted_union ys zs)"
  by (rule sorted_union_eq) auto

interpretation measurement_merge: partial_merge "\<lambda>p q. ok (merge_measurement p q)"
proof
  show "ok (merge_measurement p q) = ok (merge_measurement q p)" for p q :: measurement
    by (cases p; cases q) (auto simp: merge_measurement_def sorted_union_commute)
  show "Option.bind (ok (merge_measurement p q)) (\<lambda>x. ok (merge_measurement x r))
      = Option.bind (ok (merge_measurement q r)) (\<lambda>x. ok (merge_measurement p x))"
    for p q r :: measurement
    by (cases p; cases q; cases r) (auto simp: merge_measurement_def sorted_union_assoc)
qed

text \<open>A merge of optional items in which both must be present.\<close>

definition merge_present :: "('a \<Rightarrow> 'a \<Rightarrow> 'a option) \<Rightarrow> 'a option \<Rightarrow> 'a option \<Rightarrow> 'a option option" where
  "merge_present f a b =
     Option.bind a (\<lambda>x. Option.bind b (\<lambda>y. Option.bind (f x y) (\<lambda>z. Some (Some z))))"

lemma partial_merge_present:
  assumes "partial_merge f"
  shows "partial_merge (merge_present f)"
proof
  fix a b c :: "'a option"
  show "merge_present f a b = merge_present f b a"
    using partial_merge.merge_comm [OF assms]
    by (cases a; cases b) (auto simp: merge_present_def)
  show "Option.bind (merge_present f a b) (\<lambda>x. merge_present f x c)
      = Option.bind (merge_present f b c) (merge_present f a)"
  proof (cases a; cases b; cases c)
    fix x y z assume abc: "a = Some x" "b = Some y" "c = Some z"
    show ?thesis using partial_merge.merge_assoc [OF assms, of x y z]
      by (cases "f x y"; cases "f y z") (auto simp: abc merge_present_def)
  qed (auto simp: merge_present_def split: Option.bind_splits)
qed

lemma ok_merge_shift_measure:
  "ok (merge_shift_measure p q) = merge_present (\<lambda>a b. ok (merge_measurement a b)) p q"
  by (cases p; cases q) (auto simp: merge_shift_measure_def merge_present_def ok_and_then)

section \<open>Shifts and days\<close>

lemma distinct_metrics [simp]: "distinct metrics"
  by (simp add: metrics_def)

lemma set_metrics [simp]: "set metrics = UNIV"
proof -
  have "m \<in> set metrics" for m by (cases m) (simp_all add: metrics_def)
  then show ?thesis by auto
qed

lemma distinct_shift_keys [simp]: "distinct shift_keys"
  by (simp add: shift_keys_def)

lemma set_shift_keys [simp]: "set shift_keys = UNIV"
proof -
  have "k \<in> set shift_keys" for k by (cases k) (simp_all add: shift_keys_def)
  then show ?thesis by auto
qed

definition shift_parts :: "shift \<Rightarrow> (string \<times> string \<times> string) \<times> (metric \<Rightarrow> measurement option)" where
  "shift_parts s = ((sf_code s, sf_start s, sf_end s), sf_measures s)"

definition shift_of_parts :: "(string \<times> string \<times> string) \<times> (metric \<Rightarrow> measurement option) \<Rightarrow> shift" where
  "shift_of_parts p = (case p of ((c, b, e), m) \<Rightarrow>
     \<lparr>sf_code = c, sf_start = b, sf_end = e, sf_measures = m\<rparr>)"

abbreviation merge_measures ::
    "(metric \<Rightarrow> measurement option) \<Rightarrow> (metric \<Rightarrow> measurement option) \<Rightarrow>
      (metric \<Rightarrow> measurement option) option" where
  "merge_measures \<equiv> merge_family metrics (merge_present (\<lambda>a b. ok (merge_measurement a b)))"

abbreviation merge_totals ::
    "(metric \<Rightarrow> measurement) \<Rightarrow> (metric \<Rightarrow> measurement) \<Rightarrow> (metric \<Rightarrow> measurement) option" where
  "merge_totals \<equiv> merge_family metrics (\<lambda>a b. ok (merge_measurement a b))"

lemma ok_merge_shift:
  "ok (merge_shift s t) =
     map_option shift_of_parts (merge_pair agree merge_measures (shift_parts s) (shift_parts t))"
proof -
  have measures: "ok (assign_each (\<lambda>m. merge_shift_measure (sf_measures s m) (sf_measures t m)) metrics
      (sf_measures s)) = merge_measures (sf_measures s) (sf_measures t)"
    using ok_assign_family [OF distinct_metrics set_metrics, of merge_shift_measure]
    by (simp add: ok_merge_shift_measure)
  show ?thesis
    by (cases "merge_measures (sf_measures s) (sf_measures t)")
       (auto simp: merge_shift_def ok_and_then measures merge_pair_def agree_def shift_parts_def
          shift_of_parts_def)
qed

interpretation shift_merge: partial_merge "\<lambda>s t. ok (merge_shift s t)"
proof (rule partial_merge_iso)
  show "partial_merge (merge_pair agree merge_measures)"
    by (intro partial_merge_pair partial_merge_agree partial_merge_family partial_merge_present
        measurement_merge.partial_merge_axioms) simp
  show "shift_of_parts (shift_parts a) = a" for a by (simp add: shift_parts_def shift_of_parts_def)
  show "shift_parts (shift_of_parts x) = x" for x
    by (auto simp: shift_parts_def shift_of_parts_def split: prod.splits)
  show "ok (merge_shift a b) =
      map_option shift_of_parts (merge_pair agree merge_measures (shift_parts a) (shift_parts b))" for a b
    by (rule ok_merge_shift)
qed

interpretation state_merge: partial_merge "\<lambda>s t. ok (merge_state s t)"
  by unfold_locales (auto simp: merge_state_def)

type_synonym day_parts =
  "string \<times> string \<times> (metric \<Rightarrow> measurement) \<times> (shift_key \<Rightarrow> shift)"

definition day_parts :: "day \<Rightarrow> day_parts" where
  "day_parts d = (dy_date d, dy_state d, dy_total d, dy_shifts d)"

definition day_of_parts :: "day_parts \<Rightarrow> day" where
  "day_of_parts p = (case p of (t, s, m, k) \<Rightarrow>
     \<lparr>dy_date = t, dy_state = s, dy_total = m, dy_shifts = k\<rparr>)"

abbreviation merge_shifts ::
    "(shift_key \<Rightarrow> shift) \<Rightarrow> (shift_key \<Rightarrow> shift) \<Rightarrow> (shift_key \<Rightarrow> shift) option" where
  "merge_shifts \<equiv> merge_family shift_keys (\<lambda>a b. ok (merge_shift a b))"

abbreviation merge_day_parts :: "day_parts \<Rightarrow> day_parts \<Rightarrow> day_parts option" where
  "merge_day_parts \<equiv> merge_pair agree (merge_pair (\<lambda>a b. ok (merge_state a b))
     (merge_pair merge_totals merge_shifts))"

lemma partial_merge_day_parts: "partial_merge merge_day_parts"
  by (intro partial_merge_pair partial_merge_agree partial_merge_family
      measurement_merge.partial_merge_axioms shift_merge.partial_merge_axioms
      state_merge.partial_merge_axioms) simp_all

text \<open>Days are merged under the same date only.\<close>

definition merge_dated :: "day \<Rightarrow> day \<Rightarrow> day option" where
  "merge_dated a b = (if dy_date a = dy_date b then ok (merge_day a b) else None)"

lemma ok_merge_day:
  "dy_date a = dy_date b \<Longrightarrow>
     ok (merge_day a b) = map_option day_of_parts (merge_day_parts (day_parts a) (day_parts b))"
proof -
  assume date: "dy_date a = dy_date b"
  have totals: "ok (assign_each (\<lambda>m. merge_measurement (dy_total a m) (dy_total b m)) metrics
      (dy_total a)) = merge_totals (dy_total a) (dy_total b)"
    by (rule ok_assign_family) simp_all
  have shifts: "ok (assign_each (\<lambda>k. merge_shift (dy_shifts a k) (dy_shifts b k)) shift_keys
      (dy_shifts a)) = merge_shifts (dy_shifts a) (dy_shifts b)"
    by (rule ok_assign_family) simp_all
  show ?thesis
    by (cases "ok (merge_state (dy_state a) (dy_state b))";
        cases "merge_totals (dy_total a) (dy_total b)";
        cases "merge_shifts (dy_shifts a) (dy_shifts b)")
       (simp_all add: merge_day_def ok_and_then totals shifts merge_pair_def agree_def day_parts_def
          day_of_parts_def date)
qed

interpretation day_merge: partial_merge merge_dated
proof (rule partial_merge_iso [OF partial_merge_day_parts])
  show "day_of_parts (day_parts a) = a" for a by (simp add: day_parts_def day_of_parts_def)
  show "day_parts (day_of_parts x) = x" for x
    by (auto simp: day_parts_def day_of_parts_def split: prod.splits)
  show "merge_dated a b = map_option day_of_parts (merge_day_parts (day_parts a) (day_parts b))" for a b
    by (cases "dy_date a = dy_date b")
       (simp_all add: merge_dated_def ok_merge_day, simp add: merge_pair_def agree_def day_parts_def)
qed

section \<open>Sources\<close>

lemma json_strs_inject [simp]: "json_strs xs = json_strs ys \<longleftrightarrow> xs = ys"
  by (auto simp: json_strs_def inj_map_eq_map inj_def)

lemma evidence_json_inject [simp]: "evidence_json a = evidence_json b \<longleftrightarrow> a = b"
  by (cases a; cases b)
     (auto simp: evidence_json_def opt_item_def split: option.splits)

text \<open>The documents whose digests the merge compares.\<close>

definition compared_documents :: "payload list \<Rightarrow> json set" where
  "compared_documents ps =
     (\<Union>p \<in> set ps. insert (pl_mine p) (insert (JStr (pl_timezone p)) (evidence_json ` set (pl_sources p))))"

lemma merge_evidence_agree:
  assumes "inj_on (sha256_jcs e) docs" "evidence_json a \<in> docs" "evidence_json b \<in> docs"
  shows "ok (merge_evidence e a b) = agree a b"
  using inj_on_eq_iff [OF assms] by (auto simp: merge_evidence_def agree_def)

lemma put_evidence_agree:
  assumes "inj_on (sha256_jcs e) docs"
    and "\<And>k v. (k, v) \<in> set items \<Longrightarrow> evidence_json v \<in> docs"
    and "\<And>k v. map_of d k = Some v \<Longrightarrow> evidence_json v \<in> docs"
  shows "put_items (\<lambda>a b. ok (merge_evidence e a b)) items d = put_items agree items d"
  by (rule put_items_cong [where P = "\<lambda>_ v. evidence_json v \<in> docs"])
     (use assms merge_evidence_agree [OF assms(1)] in \<open>auto simp: agree_def split: if_splits\<close>)

lemma merge_day_date: "ok (merge_day a b) = Some c \<Longrightarrow> dy_date c = dy_date a"
  by (auto simp: merge_day_def ok_and_then bind_eq_Some_conv)

lemma put_days_dated:
  assumes "\<And>k v. (k, v) \<in> set items \<Longrightarrow> dy_date v = k"
    and "\<And>k v. map_of d k = Some v \<Longrightarrow> dy_date v = k"
  shows "put_items (\<lambda>a b. ok (merge_day a b)) items d = put_items merge_dated items d"
  by (rule put_items_cong [where P = "\<lambda>k v. dy_date v = k"])
     (use assms merge_day_date in \<open>auto simp: merge_dated_def split: if_splits\<close>)

section \<open>The loop over the payloads\<close>

definition same_mine :: "ingest_env \<Rightarrow> payload \<Rightarrow> payload \<Rightarrow> bool" where
  "same_mine e p q \<longleftrightarrow> sha256_jcs e (pl_mine p) = sha256_jcs e (pl_mine q)
     \<and> sha256_jcs e (JStr (pl_timezone p)) = sha256_jcs e (JStr (pl_timezone q))"

lemma ok_merge_rest:
  "ok (merge_rest e first ps sources days) =
     (if list_all (\<lambda>p. same_mine e p first) ps
      then Option.bind (put_items (\<lambda>a b. ok (merge_evidence e a b)) (concat (map evidence_items ps)) sources)
        (\<lambda>s. Option.bind (put_items (\<lambda>a b. ok (merge_day a b)) (concat (map day_items ps)) days)
        (\<lambda>d. Some (s, d)))
      else None)"
proof (induction ps arbitrary: sources days)
  case (Cons p ps)
  show ?case
  proof (cases "same_mine e p first")
    case False
    then show ?thesis by (auto simp: same_mine_def)
  next
    case True
    then show ?thesis
      by (cases "put_items (\<lambda>a b. ok (merge_evidence e a b)) (evidence_items p) sources";
          cases "put_items (\<lambda>a b. ok (merge_day a b)) (day_items p) days")
         (auto simp: same_mine_def ok_and_then ok_put_each put_items_append Cons.IH
           split: Option.bind_splits)
  qed
qed simp

text \<open>A dict of items with different keys is what putting them in an empty dict gives.\<close>

lemma put_items_distinct:
  "distinct (map fst items) \<Longrightarrow> set (map fst items) \<inter> set (map fst d) = {} \<Longrightarrow>
     put_items f items d = Some (d @ items)"
proof (induction items arbitrary: d)
  case (Cons item items)
  obtain k x where item: "item = (k, x)" by (cases item)
  have new: "map_of d k = None" using Cons.prems(2) item by (simp add: map_of_eq_None_iff)
  then have "AList.update k x d = d @ [(k, x)]" by (induction d) auto
  moreover have "put_items f items (d @ [(k, x)]) = Some ((d @ [(k, x)]) @ items)"
    by (rule Cons.IH) (use Cons.prems item in auto)
  ultimately show ?case by (simp add: item put_item_def new)
qed simp

text \<open>
  The order of the contributions: the whole merge in terms of the merged dicts, and what a
  permutation of the contributions can change.
\<close>

section \<open>The latest closing time\<close>

lemma ok_latest_None: "ok (latest moment t us) = None \<longleftrightarrow> (\<exists>u \<in> set (t # us). moment u = None)"
  by (induction us arbitrary: t) (auto split: option.splits)

lemma ok_latest_Some:
  "ok (latest moment t us) = Some m \<Longrightarrow>
     m \<in> set (t # us) \<and> (\<forall>u \<in> set (t # us). the (moment u) \<le> the (moment m)) \<and>
     (\<forall>u \<in> set (t # us). moment u \<noteq> None)"
proof (induction us arbitrary: t)
  case (Cons u us)
  from Cons.prems obtain a b where ab: "moment t = Some a" "moment u = Some b"
    by (auto split: option.splits)
  let ?w = "if a < b then u else t"
  have "ok (latest moment ?w us) = Some m" using Cons.prems ab by simp
  from Cons.IH [OF this] have ih: "m \<in> set (?w # us)"
    "\<forall>v \<in> set (?w # us). the (moment v) \<le> the (moment m)" "\<forall>v \<in> set (?w # us). moment v \<noteq> None"
    by blast+
  have "a \<le> the (moment m)" "b \<le> the (moment m)" using ih(2) ab by (auto split: if_splits)
  with ih ab show ?case by (auto split: if_splits)
qed (auto split: if_splits)

text \<open>In another order the same instant is found, in one of the texts that stand for it.\<close>

lemma latest_order:
  assumes "mset (t # us) = mset (u # vs)"
  shows "rel_option (\<lambda>m n. moment m = moment n) (ok (latest moment t us)) (ok (latest moment u vs))"
proof (cases "ok (latest moment t us)")
  case None
  then show ?thesis using ok_latest_None [of moment] mset_eq_setD [OF assms] by (metis option.rel_intros(1))
next
  case (Some m)
  have sets: "set (t # us) = set (u # vs)" by (rule mset_eq_setD [OF assms])
  have "ok (latest moment u vs) \<noteq> None"
    using Some ok_latest_None [of moment t us] ok_latest_None [of moment u vs] sets by auto
  then obtain n where n: "ok (latest moment u vs) = Some n" by auto
  have "moment m = moment n"
    using ok_latest_Some [OF Some] ok_latest_Some [OF n] sets
    by (metis option.expand antisym)
  with Some n show ?thesis by simp
qed

section \<open>The merge as a whole\<close>

definition merged_sources :: "ingest_env \<Rightarrow> payload list \<Rightarrow> (string \<times> evidence) list option" where
  "merged_sources e ps = map_option (sort_key fst)
     (put_items (\<lambda>a b. ok (merge_evidence e a b)) (concat (map evidence_items ps)) [])"

definition merged_days :: "payload list \<Rightarrow> (string \<times> day) list option" where
  "merged_days ps = map_option (sort_key fst)
     (put_items (\<lambda>a b. ok (merge_day a b)) (concat (map day_items ps)) [])"

definition well_keyed :: "payload \<Rightarrow> bool" where
  "well_keyed p \<longleftrightarrow> distinct (map ev_id (pl_sources p)) \<and> distinct (map dy_date (pl_days p))"

definition assembled ::
    "ingest_env \<Rightarrow> payload \<Rightarrow> payload list \<Rightarrow> evidence list \<Rightarrow> day list \<Rightarrow> string \<Rightarrow> payload" where
  "assembled e p ps sources days close_time =
     p\<lparr>pl_days := days, pl_start := dy_date (hd days), pl_end := dy_date (List.last days),
       pl_sources := sources, pl_closed := close_time,
       pl_processing :=
         \<lparr>pr_normalized = True, pr_assisted = False,
          pr_record_sha = sha256_jcs e (merge_record_json e ps (length days) (length sources)),
          pr_model_sha = None\<rparr>\<rparr>"

lemma dict_of_items:
  assumes "well_keyed p"
  shows "dict_of (evidence_items p) = evidence_items p" "dict_of (day_items p) = day_items p"
proof -
  have "map fst (evidence_items p) = map ev_id (pl_sources p)"
    "map fst (day_items p) = map dy_date (pl_days p)"
    by (simp_all add: evidence_items_def day_items_def comp_def)
  with assms show "dict_of (evidence_items p) = evidence_items p" "dict_of (day_items p) = day_items p"
    by (simp_all add: well_keyed_def dict_of_distinct)
qed

lemma put_first_items:
  assumes "well_keyed p"
  shows "put_items f (evidence_items p) [] = Some (evidence_items p)"
    "put_items g (day_items p) [] = Some (day_items p)"
proof -
  have "map fst (evidence_items p) = map ev_id (pl_sources p)"
    "map fst (day_items p) = map dy_date (pl_days p)"
    by (simp_all add: evidence_items_def day_items_def comp_def)
  with assms show "put_items f (evidence_items p) [] = Some (evidence_items p)"
    "put_items g (day_items p) [] = Some (day_items p)"
    by (simp_all add: well_keyed_def put_items_distinct)
qed

lemma ok_merge_machine:
  assumes "well_keyed p"
  shows "ok (merge_machine_payloads e (p # ps)) =
     (if list_all (\<lambda>q. same_mine e q p) ps
      then Option.bind (merged_sources e (p # ps)) (\<lambda>sources.
           Option.bind (merged_days (p # ps)) (\<lambda>days.
           if days = [] then None
           else map_option (assembled e p (p # ps) (map snd sources) (map snd days))
             (ok (latest (instant e) (pl_closed p) (map pl_closed ps)))))
      else None)"
proof -
  have sources: "merged_sources e (p # ps) = map_option (sort_key fst)
      (put_items (\<lambda>a b. ok (merge_evidence e a b)) (concat (map evidence_items ps)) (evidence_items p))"
    by (simp add: merged_sources_def put_items_append put_first_items [OF assms])
  have days: "merged_days (p # ps) = map_option (sort_key fst)
      (put_items (\<lambda>a b. ok (merge_day a b)) (concat (map day_items ps)) (day_items p))"
    by (simp add: merged_days_def put_items_append put_first_items [OF assms])
  have nil: "sort_key fst d = [] \<longleftrightarrow> d = []" for d :: "(string \<times> day) list"
    by (metis length_0_conv length_sort)
  show ?thesis
    unfolding merge_machine_payloads.simps ok_and_then ok_merge_rest dict_of_items [OF assms]
      sources days
    by (cases "put_items (\<lambda>a b. ok (merge_evidence e a b)) (concat (map evidence_items ps)) (evidence_items p)";
        cases "put_items (\<lambda>a b. ok (merge_day a b)) (concat (map day_items ps)) (day_items p)";
        cases "latest (instant e) (pl_closed p) (map pl_closed ps)")
       (simp_all add: Let_def assembled_def nil ok_and_then)
qed

lemma mset_concat_map: "mset ps = mset qs \<Longrightarrow> mset (concat (map f ps)) = mset (concat (map f qs))"
  by (metis mset_concat mset_map image_mset.compositionality sum_mset_sum_list)

lemma compared_sources:
  assumes "(k, v) \<in> set (concat (map evidence_items ps))"
  shows "evidence_json v \<in> compared_documents ps"
  using assms by (auto simp: evidence_items_def compared_documents_def)

lemma merged_sources_perm:
  assumes perm: "mset ps = mset qs" and inj: "inj_on (sha256_jcs e) (compared_documents ps)"
  shows "merged_sources e ps = merged_sources e qs"
proof -
  have docs: "compared_documents qs = compared_documents ps"
    using mset_eq_setD [OF perm] by (simp add: compared_documents_def)
  have a: "put_items (\<lambda>a b. ok (merge_evidence e a b)) (concat (map evidence_items ps)) []
      = put_items agree (concat (map evidence_items ps)) []"
    by (rule put_evidence_agree [OF inj]) (erule compared_sources, simp)
  have b: "put_items (\<lambda>a b. ok (merge_evidence e a b)) (concat (map evidence_items qs)) []
      = put_items agree (concat (map evidence_items qs)) []"
    by (rule put_evidence_agree [OF inj]) (unfold docs [symmetric], erule compared_sources, simp)
  show ?thesis unfolding merged_sources_def a b
    by (rule put_items_perm [OF partial_merge_agree mset_concat_map [OF perm]]) simp
qed

lemma merged_days_perm:
  assumes perm: "mset ps = mset qs"
  shows "merged_days ps = merged_days qs"
proof -
  have dated: "put_items (\<lambda>a b. ok (merge_day a b)) (concat (map day_items rs)) []
      = put_items merge_dated (concat (map day_items rs)) []" for rs
    by (rule put_days_dated) (auto simp: day_items_def)
  show ?thesis unfolding merged_days_def dated
    by (rule put_items_perm [OF day_merge.partial_merge_axioms mset_concat_map [OF perm]]) simp
qed

lemma merge_record_perm:
  assumes "mset ps = mset qs"
  shows "merge_record_json e ps n m = merge_record_json e qs n m"
proof -
  have "sort (map f ps) = sort (map f qs)" for f :: "payload \<Rightarrow> string"
    by (rule properties_for_sort) (simp_all add: assms mset_map)
  then show ?thesis by (simp add: merge_record_json_def)
qed

section \<open>Any order\<close>

lemma same_mine_perm:
  assumes "mset (p # ps) = mset (q # qs)"
  shows "list_all (\<lambda>r. same_mine e r p) ps \<longleftrightarrow> list_all (\<lambda>r. same_mine e r q) qs"
proof -
  have "list_all (\<lambda>r. same_mine e r p) ps \<longleftrightarrow> (\<forall>a \<in> set (p # ps). \<forall>b \<in> set (p # ps). same_mine e a b)"
    if "True" for p :: payload and ps by (auto simp: list_all_iff same_mine_def)
  then show ?thesis using mset_eq_setD [OF assms] by metis
qed

lemma same_mine_equal:
  assumes "inj_on (sha256_jcs e) (compared_documents ps)" "p \<in> set ps" "q \<in> set ps" "same_mine e p q"
  shows "pl_mine p = pl_mine q \<and> pl_timezone p = pl_timezone q"
proof -
  have "pl_mine p \<in> compared_documents ps" "pl_mine q \<in> compared_documents ps"
    "JStr (pl_timezone p) \<in> compared_documents ps" "JStr (pl_timezone q) \<in> compared_documents ps"
    using assms(2,3) by (auto simp: compared_documents_def)
  with assms(1,4) show ?thesis by (auto simp: same_mine_def dest: inj_onD)
qed

text \<open>C40: The order in which the contributions of the sources are merged does not matter, to what is
  merged or to whether it is refused, except for three fields that follow the first one: the
  month, the comparison context, and the spelling of the closing time, whose instant is the same
  in every order. This needs each contribution to name its sources and its days once, as the
  validation of a payload demands, and a digest that tells the compared documents (mines, time
  zones, evidence) apart.\<close>

lemma merge_order:
  assumes perm: "mset ps = mset qs"
    and keyed: "\<And>p. p \<in> set ps \<Longrightarrow> well_keyed p"
    and docs: "inj_on (sha256_jcs e) (compared_documents ps)"
  shows "\<exists>closing.
     (\<forall>r. ok (merge_machine_payloads e qs) = Some r \<longrightarrow> instant e closing = instant e (pl_closed r))
     \<and> ok (merge_machine_payloads e ps) =
       map_option (\<lambda>r. r\<lparr>pl_month := pl_month (hd ps), pl_context := pl_context (hd ps), pl_closed := closing\<rparr>)
         (ok (merge_machine_payloads e qs))"
proof (cases ps)
  case Nil
  with perm show ?thesis by simp
next
  case (Cons p ps')
  with perm obtain q qs' where qs: "qs = q # qs'" by (cases qs) auto
  have sets: "set ps = set qs" by (rule mset_eq_setD [OF perm])
  have mem: "p \<in> set ps" "q \<in> set ps" using Cons qs sets by auto
  have closed: "rel_option (\<lambda>a b. instant e a = instant e b)
      (ok (latest (instant e) (pl_closed p) (map pl_closed ps')))
      (ok (latest (instant e) (pl_closed q) (map pl_closed qs')))"
  proof (rule latest_order)
    show "mset (pl_closed p # map pl_closed ps') = mset (pl_closed q # map pl_closed qs')"
      using arg_cong [OF perm, of "image_mset pl_closed"] by (simp add: Cons qs)
  qed
  have rec: "merge_record_json e (p # ps') n m = merge_record_json e (q # qs') n m" for n m
    by (rule merge_record_perm) (use perm Cons qs in simp)
  note p = ok_merge_machine [OF keyed [OF mem(1)], of e ps'] and q = ok_merge_machine [OF keyed [OF mem(2)], of e qs']
  have sources: "merged_sources e (p # ps') = merged_sources e (q # qs')"
    using merged_sources_perm [OF perm docs] Cons qs by simp
  have days: "merged_days (p # ps') = merged_days (q # qs')"
    using merged_days_perm [OF perm] Cons qs by simp
  have all: "list_all (\<lambda>r. same_mine e r p) ps' = list_all (\<lambda>r. same_mine e r q) qs'"
    by (rule same_mine_perm) (use perm Cons qs in simp)
  show ?thesis
  proof (cases "list_all (\<lambda>r. same_mine e r p) ps'")
    case False
    with p q all Cons qs show ?thesis by simp
  next
    case True
    have "same_mine e q p"
      using True mem(2) Cons by (auto simp: list_all_iff same_mine_def)
    from same_mine_equal [OF docs mem(2) mem(1) this]
    have head: "assembled e p (p # ps') ss ds c = (assembled e q (q # qs') ss ds d)
        \<lparr>pl_month := pl_month p, pl_context := pl_context p, pl_closed := c\<rparr>" for ss ds c d
      unfolding assembled_def rec by (cases p; cases q) simp
    have closing: "pl_closed (assembled e q (q # qs') ss ds d) = d" for ss ds d
      by (simp add: assembled_def)
    show ?thesis
    proof (cases "merged_sources e (q # qs')"; cases "merged_days (q # qs')";
        cases "ok (latest (instant e) (pl_closed q) (map pl_closed qs'))")
      fix ss ds d
      assume merged: "merged_sources e (q # qs') = Some ss" "merged_days (q # qs') = Some ds"
        "ok (latest (instant e) (pl_closed q) (map pl_closed qs')) = Some d"
      with closed obtain c where c: "ok (latest (instant e) (pl_closed p) (map pl_closed ps')) = Some c"
        "instant e c = instant e d" by (cases "ok (latest (instant e) (pl_closed p) (map pl_closed ps'))") auto
      show ?thesis
        by (rule exI [of _ c])
           (use True p q all sources days merged c head closing in \<open>simp add: Cons qs\<close>)
    qed (use True p q all sources days closed in \<open>simp_all add: Cons qs\<close>)
  qed
qed

end
