(* ===== verification/Ingest_Scenario.thy ===== *)
theory Ingest_Scenario
  imports Ingest_Properties Ingest_Merge_Laws
begin

text \<open>
  A machine event from its claim to its answer, a person's edit, and a second event that meets
  the edit, evaluated by the kernel: the properties hold on this run.
\<close>

section \<open>The world of the run\<close>

definition demo_text :: "json \<Rightarrow> string" where
  "demo_text j = (case j of JStr t \<Rightarrow> CHR ''s'' # t
     | _ \<Rightarrow> (case text_field ''source_id'' j of Some t \<Rightarrow> CHR ''e'' # t
        | None \<Rightarrow> (case text_field ''closed_at'' j of Some t \<Rightarrow> CHR ''p'' # t | None \<Rightarrow> ''o'')))"

text \<open>Instants are written as one letter.\<close>

definition demo_instant :: "string \<Rightarrow> rat option" where
  "demo_instant t = (case t of [c] \<Rightarrow> Some (of_nat (of_char c)) | _ \<Rightarrow> None)"

definition demo_world :: ingest_env where
  "demo_world = \<lparr>jcs_text = demo_text, digest_hex = (\<lambda>t. t), instant = demo_instant\<rparr>"

definition demo_mine :: identity where
  "demo_mine = \<lparr>id_mine_id = ''m'', id_operator = ''op'', id_mine = JObj [], id_timezone = ''z'',
     id_context = None\<rparr>"

definition demo_measure :: "string \<Rightarrow> rat \<Rightarrow> metric \<Rightarrow> measurement" where
  "demo_measure src v m = \<lparr>ms_code = metric_text m, ms_value = Some v, ms_unit = metric_unit m,
     ms_aggregation = (if m = Ventilation then ''snapshot'' else ''sum''),
     ms_flags = [''reported''], ms_refs = [src]\<rparr>"

definition demo_shift :: "string \<Rightarrow> shift_key \<Rightarrow> shift" where
  "demo_shift src k = \<lparr>sf_code = shift_text k, sf_start = ''a'', sf_end = ''b'',
     sf_measures = (\<lambda>m. Some (demo_measure src 1 m))\<rparr>"

definition demo_payload :: "string \<Rightarrow> string \<Rightarrow> string \<Rightarrow> payload" where
  "demo_payload src date closing =
     \<lparr>pl_mine = JObj [], pl_timezone = ''z'', pl_start = date, pl_end = date, pl_closed = closing,
      pl_days = [\<lparr>dy_date = date, dy_state = ''producing'', dy_total = demo_measure src 3,
        dy_shifts = demo_shift src\<rparr>],
      pl_sources = [\<lparr>ev_id = src, ev_mode = ''direct_collection'', ev_system = ''erp'',
        ev_record = ''r'', ev_location = None, ev_captured = ''c'', ev_media = None,
        ev_sha = replicate 64 CHR ''0'', ev_normalization = None\<rparr>],
      pl_processing = \<lparr>pr_normalized = True, pr_assisted = False, pr_record_sha = [], pr_model_sha = None\<rparr>,
      pl_month = None, pl_context = None\<rparr>"

definition demo_settings :: review_settings where
  "demo_settings = \<lparr>four_eyes = False,
     policies = [\<lparr>sp_source = ''A'', sp_system = ''erp'', sp_required = True, sp_freshness = 3600,
       sp_missing = False\<rparr>],
     signed = (\<lambda>_. True), lineage = (\<lambda>_ _. Inr ())\<rparr>"

definition demo_now :: moment where
  "demo_now = \<lparr>clock = 110, utc_text = (\<lambda>_. ''n'')\<rparr>"

definition demo_handler :: "string \<Rightarrow> nat \<Rightarrow> handler" where
  "demo_handler event revision = \<lparr>hd_owner = ''o'' @ event,
     hd_request = \<lparr>ir_client = ''c'', ir_event = event, ir_sha = ''q'' @ event,
       ir_draft_key = ''draft:op:production-batch:a:a'',
       ir_source = \<lparr>sr_source = ''A'', sr_revision = revision, sr_format = ''csv'', sr_content = [],
         sr_name = ''n'', sr_system = ''erp'', sr_filename = None, sr_observed = ''d'', sr_coverage = ''a''\<rparr>,
       ir_trigger = False, ir_workflow = ''w''\<rparr>,
     hd_required = True, hd_freshness = 3600\<rparr>"

definition demo_file :: "string \<Rightarrow> machine_import" where
  "demo_file sha = \<lparr>mi_current = True, mi_payload = demo_payload ''A'' ''a'' sha, mi_content_sha = sha,
     mi_filename = ''f'', mi_suggestions = JArr []\<rparr>"

definition demo_outside :: "string \<Rightarrow> string \<Rightarrow> outside" where
  "demo_outside sha fresh = \<lparr>ot_now = demo_now, ot_ingestion = CHR ''i'' # fresh, ot_draft = CHR ''d'' # fresh,
     ot_import = CHR ''f'' # fresh, ot_message = CHR ''m'' # fresh, ot_file = Prepared (demo_file sha)\<rparr>"

section \<open>The run\<close>

definition advance :: "outside \<Rightarrow> handler \<Rightarrow> phase \<times> agent_db \<Rightarrow> phase \<times> agent_db" where
  "advance x h p = handler_step demo_world demo_settings demo_mine h x (fst p) (snd p)"

definition first_handler :: handler where "first_handler = demo_handler ''e'' 1"
definition second_handler :: handler where "second_handler = demo_handler ''g'' 2"
definition first_outside :: outside where "first_outside = demo_outside ''x'' ''1''"
definition second_outside :: outside where "second_outside = demo_outside ''y'' ''2''"

definition demo_imported :: "phase \<times> agent_db" where
  "demo_imported = (advance first_outside first_handler ^^ 2) (At_Claim, new_db)"

definition demo_done :: "phase \<times> agent_db" where
  "demo_done = (advance first_outside first_handler ^^ 3) demo_imported"

definition demo_confirmed :: "agent_db \<Rightarrow> (ingest_error + draft_row) \<times> agent_db" where
  "demo_confirmed = confirm_draft demo_world demo_settings demo_mine demo_now ''d1'' 1 ''u'' ''U'' ''r'' ''y''
     True ''m9''"

text \<open>A person replaces the payload; then the second event of the source is claimed.\<close>

definition demo_edited :: "(ingest_error + draft_row) \<times> agent_db" where
  "demo_edited = replace_draft demo_world demo_now (\<lambda>_. True) (\<lambda>_ _. Inr ()) ''d1'' 1
     (demo_payload ''A'' ''a'' ''z'') ''u'' (snd demo_done)"

definition demo_second :: "phase \<times> agent_db" where
  "demo_second = advance second_outside second_handler (At_Claim, snd demo_edited)"

section \<open>It is a run of the agent\<close>

definition among :: "(handler \<times> phase) list \<Rightarrow> handler \<Rightarrow> phase \<times> agent_db \<Rightarrow> agent_state" where
  "among others h p = \<lparr>ag_db = snd p, ag_running = others @ [(h, fst p)]\<rparr>"

abbreviation demo_reachable :: "agent_state \<Rightarrow> bool" where
  "demo_reachable \<equiv> agent_reachable demo_world demo_settings demo_mine"

lemma advance_reachable:
  assumes "demo_reachable (among others h p)"
  shows "demo_reachable (among others h (advance x h p))"
proof -
  have "agent_step demo_world demo_settings demo_mine (among others h p)
      ((among others h p)\<lparr>ag_db := snd (advance x h p),
        ag_running := (ag_running (among others h p))[length others := (h, fst (advance x h p))]\<rparr>)"
    by (rule agent_step.handle [where ph = "fst p" and x = x]) (simp_all add: among_def advance_def)
  then have "agent_step demo_world demo_settings demo_mine (among others h p) (among others h (advance x h p))"
    by (simp add: among_def)
  with assms show ?thesis by (rule agent_reachable.step)
qed

lemma advance_steps_reachable:
  "demo_reachable (among others h p) \<Longrightarrow> demo_reachable (among others h ((advance x h ^^ n) p))"
  by (induction n) (simp_all add: advance_reachable)

lemma accept_reachable:
  assumes "demo_reachable s"
  shows "demo_reachable (among (ag_running s) h (At_Claim, ag_db s))"
proof -
  have "among (ag_running s) h (At_Claim, ag_db s) = s\<lparr>ag_running := ag_running s @ [(h, At_Claim)]\<rparr>"
    by (simp add: among_def)
  with agent_reachable.step [OF assms agent_step.accept] show ?thesis by metis
qed

lemma demo_imported_reachable: "demo_reachable (among [] first_handler demo_imported)"
  unfolding demo_imported_def
  using accept_reachable [OF agent_reachable.start]
  by (intro advance_steps_reachable) (simp add: agent_start_def)

lemma demo_done_reachable: "demo_reachable (among [] first_handler demo_done)"
  unfolding demo_done_def by (intro advance_steps_reachable demo_imported_reachable)

lemma demo_second_reachable:
  "demo_reachable (among [(first_handler, fst demo_done)] second_handler demo_second)"
proof -
  let ?s = "among [] first_handler demo_done"
  let ?t = "?s\<lparr>ag_db := snd demo_edited\<rparr>"
  have "call_step demo_world demo_settings demo_mine (ag_db ?s) (snd demo_edited)"
    by (rule call_step.replace [where r = "fst demo_edited"]) (simp add: among_def demo_edited_def)
  then have "demo_reachable ?t" by (intro agent_reachable.step [OF demo_done_reachable] agent_step.call)
  from accept_reachable [OF this, of second_handler] show ?thesis
    unfolding demo_second_def by (intro advance_reachable) (simp add: among_def)
qed

lemma reachable_steps: "agent_reachable e g i s \<Longrightarrow> (agent_step e g i)\<^sup>*\<^sup>* agent_start s"
  by (induction rule: agent_reachable.induct) (auto intro: rtranclp.rtrancl_into_rtrancl)

section \<open>What the run looks like\<close>

definition contribution_waits :: "agent_db \<Rightarrow> bool" where
  "contribution_waits s = (case binding_of ''d1'' s of None \<Rightarrow> False | Some b \<Rightarrow>
     (case draft_contributions b ''d1'' s of [] \<Rightarrow> False | c # _ \<Rightarrow> ct_source c = ''A'' \<and>
       (case find (\<lambda>v. iv_id v = ct_ingestion c) (events s) of None \<Rightarrow> False
        | Some v \<Rightarrow> iv_status v = Imported)))"

definition demo_key :: "event_row \<Rightarrow> bool" where
  "demo_key = event_key (ir_client (hd_request first_handler)) (ir_event (hd_request first_handler))"

definition event_answered :: "agent_db \<Rightarrow> bool" where
  "event_answered s = (case find demo_key (events s) of None \<Rightarrow> False | Some v \<Rightarrow>
     iv_status v = Event_Completed \<and> iv_request_sha v = ir_sha (hd_request first_handler) \<and>
     (case iv_result v of None \<Rightarrow> False | Some j \<Rightarrow>
       (case set_field ''idempotent_replay'' (JBool True) j of None \<Rightarrow> False | Some _ \<Rightarrow> True)))"

definition draft_bound :: "agent_db \<Rightarrow> bool" where
  "draft_bound s = (case (bindings s, drafts s) of
     ([b], [d]) \<Rightarrow> bn_draft b = fd_id d \<and> bn_revision b = fd_revision d | _ \<Rightarrow> False)"

definition settled :: "agent_db \<Rightarrow> bool" where
  "settled s \<longleftrightarrow> event_answered s \<and> draft_bound s \<and> 0 < length (filter (autofilled ''i1'') (audit s))
     \<and> length (submissions s) < length (submissions (snd (demo_confirmed s)))
     \<and> (case binding_of ''d1'' s of None \<Rightarrow> False | Some _ \<Rightarrow> True)"

definition edited_by_hand :: "phase \<times> agent_db \<Rightarrow> bool" where
  "edited_by_hand p = (case (fst p, drafts (snd p)) of
     (At_Import v created, [d]) \<Rightarrow>
       \<not> list_ex (\<lambda>b. bn_draft b = fd_id d \<and> untouched demo_world b d) (bindings (snd p))
   | _ \<Rightarrow> False)"

lemma demo_waits: "contribution_waits (snd demo_imported)"
  by code_simp

lemma demo_settled: "settled (snd demo_done)"
  by code_simp

lemma demo_by_hand: "edited_by_hand demo_second"
  by code_simp

section \<open>The properties on the run\<close>


lemma draft_bound_rows:
  assumes "draft_bound s"
  obtains b :: binding_row and d :: draft_row where "bindings s = [b]" "drafts s = [d]" "bn_draft b = fd_id d" "bn_revision b = fd_revision d"
  using assms by (auto simp: draft_bound_def split: list.splits)

lemma bound_draft_is_merge_witness:
  "\<exists>b d ps merged. bindings (snd demo_done) = [b] \<and> drafts (snd demo_done) = [d]
    \<and> mset ps = mset (map ct_payload (key_rows b (snd demo_done)))
    \<and> merge_machine_payloads demo_world ps = Inr merged \<and> untouched demo_world b d"
proof -
  from demo_settled obtain b d where rows: "bindings (snd demo_done) = [b]" "drafts (snd demo_done) = [d]"
    "bn_draft b = fd_id d" "bn_revision b = fd_revision d"
    unfolding settled_def by (blast elim: draft_bound_rows)
  then have "\<exists>ps merged. mset ps = mset (map ct_payload (key_rows b (snd demo_done)))
    \<and> merge_machine_payloads demo_world ps = Inr merged
    \<and> sha256_jcs demo_world (payload_json (fd_payload d)) = sha256_jcs demo_world (payload_json merged)
    \<and> untouched demo_world b d \<and> bn_scope b \<in> set (binding_scopes merged)"
    using bound_draft_is_merge [OF demo_done_reachable, of b d] by (simp add: among_def)
  with rows show ?thesis by blast
qed

lemma human_edits_kept_witness:
  "\<exists>d. drafts (snd demo_second) = [d] \<and> kept d (snd (advance second_outside second_handler demo_second))"
proof -
  obtain d where d: "drafts (snd demo_second) = [d]"
    and mine: "\<not> list_ex (\<lambda>b. bn_draft b = fd_id d \<and> untouched demo_world b d) (bindings (snd demo_second))"
    using demo_by_hand by (auto simp: edited_by_hand_def split: phase.splits list.splits)
  have "handler_step demo_world demo_settings demo_mine second_handler second_outside (fst demo_second)
      (ag_db (among [(first_handler, fst demo_done)] second_handler demo_second))
    = (fst (advance second_outside second_handler demo_second),
       snd (advance second_outside second_handler demo_second))"
    by (simp add: among_def advance_def)
  from human_edits_kept [OF demo_second_reachable this, of d] d mine show ?thesis
    by (auto simp: among_def list_ex_iff)
qed

lemma queued_sources_fresh_witness:
  "\<exists>(b :: binding_row) (d :: draft_row). source_fresh demo_world (pl_end (fd_payload d)) (state_rows b (snd demo_done))
    (joined_rows b ''d1'' (snd demo_done)) 110 (hd (policies demo_settings)) \<and> fd_status d = Ready_Review"
proof -
  obtain b where b: "binding_of ''d1'' (snd demo_done) = Some b"
    using demo_settled by (auto simp: settled_def split: option.splits)
  have "submissions (snd (demo_confirmed (snd demo_done))) \<noteq> submissions (snd demo_done)"
    using demo_settled by (auto simp: settled_def)
  from queued_sources_fresh [OF _ this b] obtain d :: draft_row where
    "\<forall>p \<in> set (policies demo_settings). sp_required p \<longrightarrow> source_fresh demo_world (pl_end (fd_payload d))
      (state_rows b (snd demo_done)) (joined_rows b ''d1'' (snd demo_done)) (clock demo_now) p"
    "fd_status d = Ready_Review"
    unfolding demo_confirmed_def by (metis prod.collapse)
  then show ?thesis by (auto simp: demo_settings_def demo_now_def)
qed

lemma contribution_waits_rows:
  assumes "contribution_waits s"
  obtains b :: binding_row and c :: contribution_row and v :: event_row where "binding_of ''d1'' s = Some b" "c \<in> set (draft_contributions b ''d1'' s)"
    "ct_source c = ''A''" "find (\<lambda>v. iv_id v = ct_ingestion c) (events s) = Some v" "iv_status v = Imported"
proof -
  from assms obtain b where b: "binding_of ''d1'' s = Some b"
    by (auto simp: contribution_waits_def split: option.splits)
  with assms obtain c cs where c: "draft_contributions b ''d1'' s = c # cs"
    by (auto simp: contribution_waits_def split: list.splits)
  with assms b obtain v where "ct_source c = ''A''" "iv_status v = Imported"
    "find (\<lambda>v. iv_id v = ct_ingestion c) (events s) = Some v"
    by (auto simp: contribution_waits_def split: option.splits)
  with b c that [of b c v] show thesis by simp
qed

lemma pending_event_blocks_witness:
  "submissions (snd (demo_confirmed (snd demo_imported))) = submissions (snd demo_imported)"
proof -
  obtain b :: binding_row and c :: contribution_row and v :: event_row where waits: "binding_of ''d1'' (snd demo_imported) = Some b"
    "c \<in> set (draft_contributions b ''d1'' (snd demo_imported))" "ct_source c = ''A''"
    "find (\<lambda>v. iv_id v = ct_ingestion c) (events (snd demo_imported)) = Some v" "iv_status v = Imported"
    using demo_waits by (rule contribution_waits_rows)
  show ?thesis
    unfolding demo_confirmed_def
    by (rule pending_event_blocks [OF demo_imported_reachable _ waits(1,2,4) _ _ prod.collapse [symmetric]])
      (use waits(3,5) in \<open>simp_all add: among_def demo_settings_def\<close>)
qed

lemma completed_event_replayed_witness:
  "\<exists>k. handler_step demo_world demo_settings demo_mine first_handler second_outside At_Claim (snd demo_done)
    = (Finished (Answered k False), snd demo_done)"
proof -
  obtain v j k where v: "find demo_key (events (snd demo_done)) = Some v" "iv_status v = Event_Completed"
    "iv_request_sha v = ir_sha (hd_request first_handler)" "iv_result v = Some j"
    "set_field ''idempotent_replay'' (JBool True) j = Some k"
    using demo_settled by (auto simp: settled_def event_answered_def split: option.splits)
  let ?s = "among [] first_handler demo_done"
  have "ag_db ?s = snd demo_done" by (simp add: among_def)
  with completed_event_replayed [of demo_world demo_settings demo_mine ?s ?s first_handler v j k second_outside] v
  show ?thesis by (auto simp: demo_key_def)
qed

lemma audit_chain_grows_witness:
  "audit_intact demo_world (snd demo_done) \<and> prefix (audit new_db) (audit (snd demo_done))
    \<and> 0 < length (audit (snd demo_done))"
proof -
  have "0 < length (filter (autofilled ''i1'') (audit (snd demo_done)))"
    using demo_settled by (simp add: settled_def)
  then have "0 < length (audit (snd demo_done))" by (meson length_filter_le less_le_trans)
  with audit_chain_grows [OF agent_reachable.start reachable_steps [OF demo_done_reachable]] show ?thesis
    by (simp add: among_def agent_start_def)
qed

text \<open>A payload that passes the validation names its sources and its days once.\<close>

lemma validated_well_keyed:
  assumes "valid_payload e i p"
  shows "well_keyed p"
proof -
  have "distinct (source_ids_of p)"
    and days: "sorted_wrt (\<lambda>a b. the (second_of e (dy_date a)) < the (second_of e (dy_date b))) (pl_days p)"
    using assms by (simp_all add: valid_payload_def)
  then have "distinct (map python_strip (map ev_id (pl_sources p)))" by (simp add: source_ids_of_def comp_def)
  then have "distinct (map ev_id (pl_sources p))" by (rule distinct_map [THEN iffD1, THEN conjunct1])
  moreover have "sorted_wrt (<) (map (\<lambda>t. the (second_of e t)) (map dy_date (pl_days p)))"
    using days by (simp add: sorted_wrt_map)
  then have "distinct (map (\<lambda>t. the (second_of e t)) (map dy_date (pl_days p)))"
    unfolding strict_sorted_iff by simp
  then have "distinct (map dy_date (pl_days p))" by (rule distinct_map [THEN iffD1, THEN conjunct1])
  ultimately show ?thesis by (simp add: well_keyed_def)
qed

text \<open>Two sources, merged in both orders.\<close>

lemma merge_order_witness:
  "\<exists>closing. ok (merge_machine_payloads demo_world [demo_payload ''A'' ''a'' ''x'', demo_payload ''B'' ''b'' ''y''])
    = map_option (\<lambda>r. r\<lparr>pl_month := None, pl_context := None, pl_closed := closing\<rparr>)
      (ok (merge_machine_payloads demo_world [demo_payload ''B'' ''b'' ''y'', demo_payload ''A'' ''a'' ''x'']))"
proof -
  let ?a = "demo_payload ''A'' ''a'' ''x''" and ?b = "demo_payload ''B'' ''b'' ''y''"
  let ?docs = "[JObj [], JStr ''z'', evidence_json (hd (pl_sources ?a)), evidence_json (hd (pl_sources ?b))]"
  have "distinct (map (sha256_jcs demo_world) ?docs)" by code_simp
  then have "inj_on (sha256_jcs demo_world) (set ?docs)" unfolding distinct_map by (rule conjunct2)
  moreover have "compared_documents [?a, ?b] = set ?docs"
    by (auto simp: compared_documents_def demo_payload_def)
  ultimately have docs: "inj_on (sha256_jcs demo_world) (compared_documents [?a, ?b])" by simp
  have "\<exists>closing. (\<forall>r. ok (merge_machine_payloads demo_world [?b, ?a]) = Some r
        \<longrightarrow> instant demo_world closing = instant demo_world (pl_closed r))
     \<and> ok (merge_machine_payloads demo_world [?a, ?b]) =
       map_option (\<lambda>r. r\<lparr>pl_month := pl_month (hd [?a, ?b]), pl_context := pl_context (hd [?a, ?b]),
           pl_closed := closing\<rparr>)
         (ok (merge_machine_payloads demo_world [?b, ?a]))"
    by (rule merge_order [OF _ _ docs]) (auto simp: well_keyed_def demo_payload_def add_mset_commute)
  then show ?thesis by (auto simp: demo_payload_def)
qed

end
