(* ===== verification/Delivery_Conflict.thy ===== *)
theory Delivery_Conflict
  imports Connector_Properties Ingest_Scenario
begin

text \<open>
  The connector and the agent together: the body of an observation says whether it carries the
  trigger, so an attempt without the trigger and a later one with it send different bodies under
  one event, and the agent refuses the second for good.
\<close>

section \<open>The trigger in a body\<close>

definition trigger_of :: "json \<Rightarrow> json option" where
  "trigger_of = field ''trigger_workflow''"

lemma map_of_insort_front: "map_of (insort_key fst (k, v) xs) = (map_of xs)(k \<mapsto> v)"
  for k :: string
  by (induction xs) (auto simp: fun_eq_iff)

lemma map_of_sort_stable: "map_of (sort_key fst kvs) = map_of kvs" for kvs :: "(string \<times> json) list"
  by (induction kvs) (auto simp: map_of_insort_front)

lemma field_canonical: "field k (canonical j) = map_option canonical (field k j)"
proof (cases j)
  case (JObj kvs)
  have "map_of (map (\<lambda>(k, v). (k, canonical v)) kvs) k = map_option canonical (map_of kvs k)"
    by (induction kvs) auto
  with JObj show ?thesis by (simp add: field_def map_of_sort_stable)
qed (simp_all add: field_def)

lemma trigger_of_set:
  assumes "set_field ''trigger_workflow'' (JBool b) j = Some k"
  shows "trigger_of (canonical k) = Some (JBool b)"
proof -
  have "field ''trigger_workflow'' k = Some (JBool b)"
    using assms by (auto simp: set_field_def field_def update_conv' split: json.splits)
  then show ?thesis by (simp add: trigger_of_def field_canonical)
qed

section \<open>A row with the trigger has it in its body\<close>

definition bodies_agree :: "connector_db \<Rightarrow> bool" where
  "bodies_agree s \<longleftrightarrow>
     (\<forall>r \<in> set (observations s). ob_trigger r \<longrightarrow> trigger_of (ob_payload r) = Some (JBool True))"

lemma bodies_agree_same: "bodies_agree s \<Longrightarrow> observations t = observations s \<Longrightarrow> bodies_agree t"
  by (simp add: bodies_agree_def)

lemma bodies_agree_update:
  assumes "bodies_agree s"
    and "\<And>r. p r \<Longrightarrow> ob_trigger (f r) \<Longrightarrow> ob_trigger r \<and> ob_payload (f r) = ob_payload r"
  shows "bodies_agree (update_observations p f s)"
  using assms by (auto simp: bodies_agree_def update_observations_def)

interpretation agreeing: history_relation "keeps bodies_agree"
  by unfold_locales (auto intro: keeps_refl keeps_trans)

lemma agreeing_insert:
  assumes "\<not> ob_trigger r"
  shows "evolves (keeps bodies_agree) (insert_observation r)"
proof (rule evolvesI)
  fix s x t
  assume run: "insert_observation r s = (x, t)"
  have "t = s \<or> observations t = observations s @ [r\<lparr>ob_sequence := next_sequence ob_sequence (observations s)\<rparr>]"
    using run by (auto simp: insert_observation_def insert_row_Some split: option.splits)
  with assms show "keeps bodies_agree s t" by (auto simp: keeps_def bodies_agree_def)
qed

lemma fresh_untriggered: "\<not> ob_trigger (fresh_observation env g stream period v sha c payload now)"
  by (simp add: fresh_observation_def split: prod.split)

lemma agreeing_atomic: "evolves (keeps bodies_agree) m \<Longrightarrow> evolves (keeps bodies_agree) (atomic m)"
  unfolding atomic_def by (rule agreeing.evolves_transaction) (simp_all add: keeps_def)

lemma agreeing_expect: "evolves (keeps bodies_agree) (expect e x)"
  unfolding expect_def by (intro evolves_case_option agreeing.evolves_raise agreeing.evolves_ret)

lemmas agreeing_rules = agreeing.evolves_bind agreeing.evolves_ret agreeing.evolves_raise
  agreeing.evolves_reading agreeing.evolves_require agreeing_atomic agreeing_expect
  agreeing_insert [OF fresh_untriggered] evolves_if evolves_case_option evolves_case_prod

lemma agreeing_recovery_note:
  "evolves (keeps bodies_agree) (writing (\<lambda>s. s\<lparr>recoveries := f s\<rparr>))"
  by (rule agreeing.evolves_writing) (simp add: keeps_def bodies_agree_def)

lemma agreeing_update:
  assumes "\<And>r. ob_trigger (f r) \<Longrightarrow> ob_trigger r \<and> ob_payload (f r) = ob_payload r"
  shows "evolves (keeps bodies_agree) (writing (update_observations p f))"
  using assms by (intro agreeing.evolves_writing) (simp add: keeps_def bodies_agree_update)

lemma agreeing_generations: "evolves (keeps bodies_agree) (writing (update_generations p f))"
  by (rule agreeing.evolves_writing) (simp add: keeps_def bodies_agree_def update_generations_def)

lemma agreeing_calls:
  "evolves (keeps bodies_agree) (register env e now)"
  "evolves (keeps bodies_agree) (supersede_dead env event reason uuid now)"
  "evolves (keeps bodies_agree) (replay_delivered event' newest uuid now)"
  "evolves (keeps bodies_agree) (mark_delivered e' code now)"
  "evolves (keeps bodies_agree) (mark_dead e' err response now)"
  unfolding register_def supersede_dead_def supersede_row_def replay_delivered_def mark_delivered_def
    mark_dead_def Let_def
  by (intro agreeing_rules agreeing_update agreeing_generations agreeing_recovery_note; simp)+

section \<open>Calls that write bodies\<close>

lemma agree_reserve:
  assumes "bodies_agree s" "set_field ''trigger_workflow'' (JBool True) (ob_payload r) = Some payload"
  shows "bodies_agree (reserve env r payload now s)"
  using assms(1) trigger_of_set [OF assms(2)]
  by (auto simp: bodies_agree_def observations_reserve)

lemma agree_prepare:
  assumes "bodies_agree s" "prepare_delivery env event required ages now s = (x, t)"
  shows "bodies_agree t"
proof (cases x)
  case (Inl err)
  with assms(2) have "t = s" by (simp add: prepare_delivery_def atomic_Inl)
  with assms(1) show ?thesis by simp
next
  case (Inr out)
  with assms(2) have "prepare_delivery env event required ages now s = (Inr out, t)" by simp
  then show ?thesis
    by (cases rule: prepare_delivery_InrE) (use assms(1) in \<open>simp_all add: agree_reserve\<close>)
qed

text \<open>Clearing the triggers of events whose rows carry none.\<close>

definition untriggered :: "string set \<Rightarrow> connector_db \<Rightarrow> bool" where
  "untriggered es s \<longleftrightarrow> bodies_agree s \<and> (\<forall>r \<in> set (observations s). ob_event r \<in> es \<longrightarrow> \<not> ob_trigger r)"

interpretation clearing: history_relation "keeps (untriggered es)" for es
  by unfold_locales (auto intro: keeps_refl keeps_trans)

lemma clearing_trigger:
  assumes "e \<in> es"
  shows "evolves (keeps (untriggered es)) (clear_trigger e)"
proof -
  have "evolves (keeps (untriggered es)) (writing (update_observations (\<lambda>r. ob_event r = e)
      (\<lambda>r. r\<lparr>ob_payload := canonical payload\<rparr>)) :: unit cop)" for payload
    by (rule clearing.evolves_writing)
       (use assms in \<open>auto simp: keeps_def untriggered_def bodies_agree_def update_observations_def\<close>)
  then show ?thesis
    unfolding clear_trigger_def expect_def
    by (intro clearing.evolves_bind clearing.evolves_reading evolves_case_option
        clearing.evolves_raise clearing.evolves_ret)
qed

lemma clearing_triggers: "set xs \<subseteq> es \<Longrightarrow> evolves (keeps (untriggered es)) (for_each clear_trigger xs)"
  by (induction xs) (auto intro: clearing.evolves_ret clearing.evolves_bind clearing_trigger)

lemma agree_retry_dead:
  assumes "bodies_agree s" "retry_dead event now s = (x, t)"
  shows "bodies_agree t"
proof (cases x)
  case (Inl err)
  with assms(2) have "t = s" by (simp add: retry_dead_def atomic_Inl)
  with assms(1) show ?thesis by simp
next
  case (Inr n)
  with assms(2) have "retry_dead event now s = (Inr n, t)" by simp
  then show ?thesis
  proof (cases rule: retry_dead_InrE)
    case (1 rows u)
    have "untriggered (set (map ob_event rows)) u"
      using assms(1) unfolding 1(2)
      by (auto simp: untriggered_def bodies_agree_def update_observations_def)
    then show ?thesis
      using evolvesD [OF clearing_triggers [OF subset_refl] 1(4)]
      by (simp add: keeps_def untriggered_def)
  qed
qed

lemma agree_act:
  assumes "bodies_agree s"
  shows "bodies_agree (act env a s)"
proof -
  have call: "bodies_agree (snd (m s))" if "evolves (keeps bodies_agree) m" for m :: "'a cop"
    using evolvesD [OF that surjective_pairing [of "m s"]] assms by (simp add: keeps_def)
  show ?thesis
  proof (cases a)
    case (Prepare e required ages now)
    then show ?thesis using agree_prepare [OF assms surjective_pairing] by simp
  next
    case (Retry_Dead e now)
    then show ?thesis using agree_retry_dead [OF assms surjective_pairing] by simp
  next
    case (Attempt_Retry e err delay code now)
    have "bodies_agree (mark_retry e err delay code now s)"
      unfolding mark_retry_def by (rule bodies_agree_update [OF assms]) simp_all
    with Attempt_Retry show ?thesis by simp
  next
    case (Register_Health p payload heartbeat completed uuid now)
    have "same_core s (snd (register_health env p payload heartbeat completed uuid now s))"
      using evolvesD [OF same_core_register_health surjective_pairing] .
    with Register_Health show ?thesis by (simp add: same_core_def bodies_agree_same [OF assms])
  qed (simp_all add: call agreeing_calls bodies_agree_same [OF assms] same_core_lease same_core_notes
      same_core_marks)
qed

lemma bodies_agree_reachable: "connector_reachable env s \<Longrightarrow> bodies_agree s"
proof (induction rule: connector_reachable.induct)
  case connector_start
  show ?case by (simp add: bodies_agree_def empty_db_def)
qed (rule agree_act)

text \<open>A delivery with the trigger has it in its body.\<close>

lemma triggered_body:
  assumes "connector_reachable env s" "prepare_delivery env event required ages now s = (Inr (Some d), t)"
    and "dl_trigger d"
  shows "dl_event d = event" "trigger_of (dl_payload d) = Some (JBool True)"
proof -
  have agree: "bodies_agree s" by (rule bodies_agree_reachable [OF assms(1)])
  note after = agree_prepare [OF this assms(2)]
  have "\<exists>r. ob_event r = event \<and> d = to_delivery r \<and> (r \<in> set (observations s) \<or> r \<in> set (observations t))"
    using assms(2)
    by (cases rule: prepare_delivery_InrE) (auto dest!: find_Some_mem)
  with agree after assms(3) show "dl_event d = event" "trigger_of (dl_payload d) = Some (JBool True)"
    by (auto simp: to_delivery_def bodies_agree_def)
qed

lemma prepared_event:
  assumes "prepare_delivery env event required ages now s = (Inr (Some d), t)"
  shows "dl_event d = event"
  using assms by (cases rule: prepare_delivery_InrE) (auto simp: to_delivery_def dest!: find_Some_mem)

section \<open>The agent refuses the second body\<close>

text \<open>C35: An event that the agent stored without the trigger is never accepted with it. In a reachable
  connector let one attempt of an event be prepared without the trigger and another, before or
  after, with it, as happens when the answer to the first is lost and the missing sources arrive.
  Then the two bodies differ, and once the agent has stored the event with the digest of the first,
  it refuses the second as a conflict, without any effect, in every state it ever gets to. The
  digest is assumed to tell the two bodies apart, and the first body to have the field
  \<open>trigger_workflow\<close> set to false, as \<open>normalize.py\<close> writes it.
\<close>

theorem resent_body_refused:
  assumes "connector_reachable env s" "connector_reachable env u"
    and "prepare_delivery env event required ages now s = (Inr (Some d), s')" "\<not> dl_trigger d"
    and "field ''trigger_workflow'' (dl_payload d) = Some (JBool False)"
    and "prepare_delivery env event required' ages' later u = (Inr (Some d'), u')" "dl_trigger d'"
    and "find (event_key client event) (events (ag_db a)) = Some v" "iv_request_sha v = body_sha (dl_payload d)"
    and "(agent_step e g i)\<^sup>*\<^sup>* a b"
    and "ir_client (hd_request h) = client" "ir_event (hd_request h) = dl_event d'"
      "ir_sha (hd_request h) = body_sha (dl_payload d')"
    and "inj_on body_sha {dl_payload d, dl_payload d'}"
  shows "dl_event d' = dl_event d \<and> dl_payload d' \<noteq> dl_payload d
    \<and> handler_step e g i h x At_Claim (ag_db b) = (Finished (Raised (Conflict ''event_id'')), ag_db b)"
proof -
  note second = triggered_body [OF assms(2,6,7)]
  have differ: "dl_payload d' \<noteq> dl_payload d"
    using second(2) assms(5) by (auto simp: trigger_of_def)
  then have sha: "body_sha (dl_payload d') \<noteq> body_sha (dl_payload d)"
    using assms(14) by (auto dest: inj_onD)
  have "events_step (ag_db a) (ag_db b)" using steps_history [OF assms(10)] by (simp add: history_def)
  from find_event_step [OF this assms(8)] obtain w where
    w: "find (event_key client event) (events (ag_db b)) = Some w" "row_step v w" .
  have "iv_request_sha w = body_sha (dl_payload d)"
    using w(2) assms(9) by (simp add: row_step_def event_ident_def)
  with w(1) sha have "handler_step e g i h x At_Claim (ag_db b)
      = (Finished (Raised (Conflict ''event_id'')), ag_db b)"
    using assms(11-13) second(1)
    by (simp add: claim_connector_ingestion_def one_transaction_def transaction_def bind_reading raise_def)
  then show ?thesis using differ second(1) prepared_event [OF assms(3)] by simp
qed

text \<open>
  The run of the connector in which the answer to the first attempt is lost and the second source
  arrives before the next one, against an agent that claimed the event meanwhile.
\<close>

definition body_digest :: "json \<Rightarrow> string" where
  "body_digest j = (if field ''trigger_workflow'' j = Some (JBool True) then ''on'' else ''off'')"

definition event_handler :: "string \<Rightarrow> handler" where
  "event_handler sha = first_handler\<lparr>hd_request := (hd_request first_handler)
     \<lparr>ir_event := event_a, ir_sha := sha\<rparr>\<rparr>"

definition claimed_once :: "phase \<times> agent_db" where
  "claimed_once = advance first_outside (event_handler ''off'') (At_Claim, new_db)"

lemma claimed_once_event:
  "\<exists>v. find (event_key ''c'' event_a) (events (snd claimed_once)) = Some v \<and> iv_request_sha v = ''off''"
proof -
  have "map_option iv_request_sha (find (event_key ''c'' event_a) (events (snd claimed_once))) = Some ''off''"
    by code_simp
  then show ?thesis by auto
qed

theorem resent_body_refused_witness:
  "\<exists>d d'. demo_attempt 3 demo_first = (Inr (Some d), demo_first)
     \<and> demo_lost = act demo_connector_env (Attempt_Retry (dl_event d) ''timeout'' 1 None 3) demo_first
     \<and> demo_attempt 7 demo_both = (Inr (Some d'), demo_triggered)
     \<and> dl_event d' = dl_event d \<and> dl_payload d' \<noteq> dl_payload d
     \<and> handler_step demo_world demo_settings demo_mine (event_handler (body_digest (dl_payload d'))) first_outside
         At_Claim (snd claimed_once) = (Finished (Raised (Conflict ''event_id'')), snd claimed_once)"
proof -
  from demo_attempt_first obtain d where d: "demo_attempt 3 demo_first = (Inr (Some d), snd (demo_attempt 3 demo_first))"
    "dl_event d = event_a" "\<not> dl_trigger d" "field ''trigger_workflow'' (dl_payload d) = Some (JBool False)"
    by (rule delivery_of_SomeE) simp
  from demo_attempt_second obtain d' where d': "demo_attempt 7 demo_both = (Inr (Some d'), demo_triggered)"
    "dl_event d' = event_a" "dl_trigger d'" "field ''trigger_workflow'' (dl_payload d') = Some (JBool True)"
    unfolding demo_triggered_def by (rule delivery_of_SomeE) simp
  have first: "demo_attempt 3 demo_first = (Inr (Some d), demo_first)"
    using d(1) prepare_delivery_untriggered d(3) unfolding demo_attempt_def by metis
  obtain v where v: "find (event_key ''c'' event_a) (events (snd claimed_once)) = Some v"
    "iv_request_sha v = ''off''" using claimed_once_event by blast
  let ?agent = "among [] (event_handler ''off'') claimed_once"
  let ?again = "event_handler (body_digest (dl_payload d'))"
  have again: "ir_client (hd_request ?again) = ''c''" "ir_event (hd_request ?again) = event_a"
    "ir_sha (hd_request ?again) = body_digest (dl_payload d')"
    by (simp_all add: event_handler_def first_handler_def demo_handler_def)
  have agent: "ag_db ?agent = snd claimed_once" by (simp add: among_def)
  have "dl_event d' = dl_event d \<and> dl_payload d' \<noteq> dl_payload d
    \<and> handler_step demo_world demo_settings demo_mine ?again first_outside At_Claim (ag_db ?agent)
      = (Finished (Raised (Conflict ''event_id'')), ag_db ?agent)"
  proof (rule resent_body_refused [OF demo_first_reachable demo_both_reachable
        first [unfolded demo_attempt_def] d(3,4) d'(1) [unfolded demo_attempt_def] d'(3)
        _ _ rtranclp.rtrancl_refl again(1)])
    show "find (event_key ''c'' event_a) (events (ag_db ?agent)) = Some v" using v(1) agent by simp
    show "iv_request_sha v = body_digest (dl_payload d)" using v(2) d(4) by (simp add: body_digest_def)
    show "ir_event (hd_request ?again) = dl_event d'" "ir_sha (hd_request ?again) = body_digest (dl_payload d')"
      using again d'(2) by simp_all
    show "inj_on body_digest {dl_payload d, dl_payload d'}" using d(4) d'(4) by (auto simp: body_digest_def inj_on_def)
  qed
  with first d'(1) d(2) agent show ?thesis by (auto simp: demo_lost_def)
qed

end
