(* ===== verification/Checks.thy ===== *)
theory Checks
  imports Prelude
begin

text \<open>
  Operations that lift a pure check into the store, and their rules: \<open>checked\<close> for a result that
  may be an error, \<open>the_row\<close> for the row of a query that may be missing.
\<close>

definition checked :: "'e + 'a \<Rightarrow> ('s, 'e, 'a) op" where
  "checked x s = (x, s)"

definition the_row :: "'e \<Rightarrow> 'a option \<Rightarrow> ('s, 'e, 'a) op" where
  "the_row err x = (case x of None \<Rightarrow> raise err | Some a \<Rightarrow> ret a)"

lemma checked_Inr [simp]: "checked (Inr a) = ret a" and checked_Inl [simp]: "checked (Inl x) = raise x"
  by (simp_all add: fun_eq_iff checked_def ret_def raise_def)

lemma bind_checked: "bind (checked x) f = (case x of Inl err \<Rightarrow> raise err | Inr a \<Rightarrow> f a)"
  by (simp split: sum.split)

lemma the_row_simps [simp]: "the_row err None = raise err" "the_row err (Some a) = ret a"
  by (simp_all add: the_row_def)

lemma ret_result: "ret a s = (Inr b, t) \<longleftrightarrow> b = a \<and> t = s"
  by (auto simp: ret_def)

lemma find_unique: "distinct (map f xs) \<Longrightarrow> x \<in> set xs \<Longrightarrow> find (\<lambda>y. f y = f x) xs = Some x"
  by (induction xs) (auto simp: image_iff)

lemma same_key: "distinct (map f xs) \<Longrightarrow> x \<in> set xs \<Longrightarrow> y \<in> set xs \<Longrightarrow> f x = f y \<Longrightarrow> x = y"
  by (auto simp: distinct_map dest: inj_onD)

section \<open>Rows that are only changed or added\<close>

definition grown :: "('r \<Rightarrow> 'r \<Rightarrow> bool) \<Rightarrow> 'r list \<Rightarrow> 'r list \<Rightarrow> bool" where
  "grown kept xs ys \<longleftrightarrow> length xs \<le> length ys \<and> (\<forall>i < length xs. kept (xs ! i) (ys ! i))"

lemma grown_refl: "(\<And>x. kept x x) \<Longrightarrow> grown kept xs xs"
  by (simp add: grown_def)

lemma grown_trans:
  assumes kept: "\<And>x y z. kept x y \<Longrightarrow> kept y z \<Longrightarrow> kept x z"
    and xs: "grown kept xs ys" and ys: "grown kept ys zs"
  shows "grown kept xs zs"
  unfolding grown_def
proof (intro conjI allI impI)
  show "length xs \<le> length zs" using xs ys by (simp add: grown_def)
  fix i
  assume "i < length xs"
  then have "kept (xs ! i) (ys ! i)" "kept (ys ! i) (zs ! i)" using xs ys by (auto simp: grown_def)
  then show "kept (xs ! i) (zs ! i)" by (rule kept)
qed

lemma grown_append: "(\<And>x. kept x x) \<Longrightarrow> grown kept xs (xs @ ys)"
  by (simp add: grown_def nth_append)

lemma grown_map: "(\<And>x. kept x (f x)) \<Longrightarrow> grown kept xs (map f xs)"
  by (simp add: grown_def)

lemma grown_mem: "grown kept xs ys \<Longrightarrow> x \<in> set xs \<Longrightarrow> \<exists>y \<in> set ys. kept x y"
  unfolding grown_def by (metis in_set_conv_nth less_le_trans nth_mem)

section \<open>How checks change a state\<close>

context history_relation
begin

lemma checked_evolves [evolves_rules]: "evolves rel (checked x)"
  by (cases x) (auto intro: evolves_rules)

lemma the_row_evolves [evolves_rules]: "evolves rel (the_row err x)"
  by (cases x) (auto intro: evolves_rules)

lemma checked_then:
  assumes "\<And>a. x = Inr a \<Longrightarrow> evolves rel (f a)"
  shows "evolves rel (bind (checked x) f)"
  using assms by (cases x) (auto intro: evolves_raise)

lemma checked_at:
  assumes "\<And>a. x = Inr a \<Longrightarrow> rel s (snd (f a s))"
  shows "rel s (snd (bind (checked x) f s))"
  using assms by (cases x) (auto simp: raise_def rel_refl)

lemma require_at:
  assumes "c \<Longrightarrow> rel s (snd (f () s))"
  shows "rel s (snd (bind (require c err) f s))"
  using assms by (auto simp: bind_require raise_def rel_refl)

end

end
