(* ===== verification/Auth_Types.thy ===== *)
theory Auth_Types
  imports Json_Documents Checks "HOL-Library.Sublist"
begin

text \<open>
  Data of \<open>mineguard/auth.py\<close>: roles and permissions, errors, rows and views of users and
  sessions, the password policy, and \<open>authorize\<close>. Instants are microseconds, rational seconds
  where the code takes a float. \<open>auth_env\<close> holds the settings of the store and what it draws
  from Python: Unicode case and character classes, scrypt and SHA-256. Characters are code
  points below 256; those from 128 on are not ASCII.
\<close>

section \<open>Roles and permissions\<close>

datatype role = Admin | Supervisor | Reviewer | Viewer

datatype permission =
    Perm_Read | Perm_Assign | Perm_Handle | Perm_Approve | Perm_Manage_Config | Perm_Manage_Users
  | Data_Read | Analysis_Read | Analysis_Run | Case_Read | Case_Assign | Case_Review
  | Case_Approve | Config_Manage | User_Manage | Audit_Read

definition role_texts :: "(string \<times> role) list" where
  "role_texts = [(''admin'', Admin), (''supervisor'', Supervisor), (''reviewer'', Reviewer),
     (''viewer'', Viewer)]"

definition role_of_text :: "string \<Rightarrow> role option" where
  "role_of_text = map_of role_texts"

fun role_text :: "role \<Rightarrow> string" where
  "role_text Admin = ''admin''"
| "role_text Supervisor = ''supervisor''"
| "role_text Reviewer = ''reviewer''"
| "role_text Viewer = ''viewer''"

definition permission_texts :: "(string \<times> permission) list" where
  "permission_texts =
     [(''read'', Perm_Read), (''assign'', Perm_Assign), (''handle'', Perm_Handle),
      (''approve'', Perm_Approve), (''manage_config'', Perm_Manage_Config),
      (''manage_users'', Perm_Manage_Users), (''data.read'', Data_Read),
      (''analysis.read'', Analysis_Read), (''analysis.run'', Analysis_Run),
      (''case.read'', Case_Read), (''case.assign'', Case_Assign), (''case.review'', Case_Review),
      (''case.approve'', Case_Approve), (''config.manage'', Config_Manage),
      (''user.manage'', User_Manage), (''audit.read'', Audit_Read)]"

definition permission_of_text :: "string \<Rightarrow> permission option" where
  "permission_of_text = map_of permission_texts"

fun role_permissions :: "role \<Rightarrow> permission list" where
  "role_permissions Admin = map snd permission_texts"
| "role_permissions Supervisor =
     [Perm_Read, Perm_Assign, Perm_Handle, Perm_Approve, Data_Read, Analysis_Read, Analysis_Run,
      Case_Read, Case_Assign, Case_Review, Case_Approve, Audit_Read]"
| "role_permissions Reviewer =
     [Perm_Read, Perm_Handle, Data_Read, Analysis_Read, Case_Read, Case_Review]"
| "role_permissions Viewer = [Perm_Read, Data_Read, Analysis_Read, Case_Read]"

section \<open>Errors\<close>

text \<open>
  The exceptions of the module, \<open>ValueError\<close> and \<open>TypeError\<close> of its checks, a constraint of
  SQLite, and a failed \<open>assert\<close>. \<open>Session_Expired\<close> is a subclass of \<open>Invalid_Session\<close>.
\<close>

datatype auth_error =
    Auth_Failure | Bootstrap_Conflict | User_Conflict | User_Not_Found | Last_Active_Admin
  | Invalid_Credentials | Rate_Limited int | Invalid_Session | Session_Expired | Csrf_Invalid
  | Unknown_Permission | Permission_Denied | Value_Error | Type_Error | Integrity_Error
  | Assertion_Error

section \<open>Rows and views\<close>

record user =
  us_id :: string
  us_name :: string
  us_role :: role
  us_scopes :: "string list"
  us_active :: bool
  us_created :: int
  us_updated :: int
  us_must_change :: bool
  us_demo :: bool
  us_policy :: nat

record user_row = user +
  ur_key :: string
  ur_salt :: string
  ur_hash :: string

record principal =
  pr_user :: string
  pr_name :: string
  pr_role :: role
  pr_scopes :: "string list"
  pr_session :: string
  pr_active :: bool
  pr_must_change :: bool
  pr_demo :: bool
  pr_policy :: nat

record session =
  se_id :: string
  se_user :: string
  se_created :: int
  se_seen :: int
  se_absolute :: int
  se_idle :: int
  se_revoked :: "int option"

record session_row = session +
  sr_token :: string
  sr_csrf :: string

record auth_event =
  ae_seq :: nat
  ae_action :: string
  ae_user :: "string option"
  ae_name :: "string option"
  ae_client :: "string option"
  ae_detail :: json
  ae_created :: int

record login_result =
  lr_token :: string
  lr_csrf :: string
  lr_principal :: principal
  lr_absolute :: int
  lr_idle :: int

record auth_env =
  casefold :: "string \<Rightarrow> string"
  uppercase :: "string \<Rightarrow> string"
  is_lower :: "char \<Rightarrow> bool"
  is_upper :: "char \<Rightarrow> bool"
  is_digit :: "char \<Rightarrow> bool"
  is_alnum :: "char \<Rightarrow> bool"
  scrypt :: "string \<Rightarrow> string \<Rightarrow> string"
  sha256_hex :: "string \<Rightarrow> string"
  absolute_timeout :: int
  idle_timeout :: int
  max_failures :: nat
  login_window :: int
  lockout :: int

text \<open>The constructor of the store refuses settings that are not positive.\<close>

definition settings_ok :: "auth_env \<Rightarrow> bool" where
  "settings_ok e \<longleftrightarrow> 0 < absolute_timeout e \<and> 0 < idle_timeout e \<and> 0 < max_failures e
     \<and> 0 < login_window e \<and> 0 < lockout e"

definition micros :: "int \<Rightarrow> int" where
  "micros seconds = seconds * 1000000"

definition seconds_of :: "int \<Rightarrow> rat" where
  "seconds_of instant = of_int instant / 1000000"

section \<open>Names, scopes and digests\<close>

definition normalise_username :: "auth_env \<Rightarrow> string \<Rightarrow> auth_error + string \<times> string" where
  "normalise_username e username =
     (let display = python_strip username
      in if display = [] then Inl Value_Error else Inr (display, casefold e display))"

definition normalise_scopes :: "string list \<Rightarrow> role \<Rightarrow> auth_error + string list" where
  "normalise_scopes mines r =
     (let scopes = sort (remdups (filter (\<lambda>x. x \<noteq> []) (map python_strip mines)))
      in if r \<noteq> Admin \<and> scopes = [] then Inl Value_Error else Inr scopes)"

definition password_digest :: "auth_env \<Rightarrow> string \<Rightarrow> string \<Rightarrow> auth_error + string" where
  "password_digest e password salt =
     (if password = [] then Inl Value_Error else Inr (scrypt e password salt))"

section \<open>Password policy\<close>

definition demo_passwords :: "string list" where
  "demo_passwords = [''123123123'']"

definition common_weak_passwords :: "string list" where
  "common_weak_passwords = [''12345678'', ''123456789'', ''123123123'', ''admin123'',
     ''admin123456'', ''password'', ''password123'', ''qwerty123'']"

definition ascii :: "char \<Rightarrow> bool" where
  "ascii c \<longleftrightarrow> of_char c < (128 :: nat)"

text \<open>
  \<open>secrets.compare_digest\<close> raises \<open>TypeError\<close> on a text that is not ASCII; the result is
  \<open>(must_change_password, temporary_demo)\<close>.
\<close>

definition credential_flags :: "string \<Rightarrow> bool \<Rightarrow> bool \<Rightarrow> auth_error + bool \<times> bool" where
  "credential_flags password must demo =
     (if \<not> list_all ascii password then Inl Type_Error
      else let demo' = demo \<or> password \<in> set demo_passwords in Inr (must \<or> demo', demo'))"

text \<open>
  The regular expression of placeholder passwords, searched at every position. Its letters
  match in both cases; \<open>\b\<close> is a boundary of words of alphanumeric characters and underscores.
\<close>

definition ascii_lower :: "char \<Rightarrow> char" where
  "ascii_lower c =
     (if (65 :: nat) \<le> of_char c \<and> of_char c \<le> (90 :: nat) then char_of (of_char c + 32 :: nat) else c)"

definition after_literal :: "string \<Rightarrow> string \<Rightarrow> string option" where
  "after_literal w s =
     (if map ascii_lower (take (length w) s) = w then Some (drop (length w) s) else None)"

definition separator :: "char \<Rightarrow> bool" where
  "separator c \<longleftrightarrow> c \<in> {CHR ''_'', CHR '' '', CHR ''-''}"

definition skip_separator :: "string \<Rightarrow> string" where
  "skip_separator s = (case s of [] \<Rightarrow> [] | c # r \<Rightarrow> if separator c then r else s)"

definition after_literals :: "string list \<Rightarrow> string \<Rightarrow> string option" where
  "after_literals ws s = fold (\<lambda>w r. Option.bind r (\<lambda>x. after_literal w (skip_separator x))) (tl ws)
     (after_literal (hd ws) s)"

definition placeholder_here :: "auth_env \<Rightarrow> string \<Rightarrow> bool" where
  "placeholder_here e s \<longleftrightarrow>
     (case after_literal ''replace'' s of None \<Rightarrow> False
      | Some r \<Rightarrow> r = [] \<or> separator (hd r) \<or> \<not> (is_alnum e (hd r) \<or> hd r = CHR ''_''))
     \<or> after_literals [''change'', ''me''] s \<noteq> None
     \<or> after_literals [''demo'', ''only''] s \<noteq> None
     \<or> after_literals [''not'', ''for'', ''production''] s \<noteq> None"

definition placeholder_password :: "auth_env \<Rightarrow> string \<Rightarrow> bool" where
  "placeholder_password e s \<longleftrightarrow> list_ex (placeholder_here e) (suffixes s)"

definition password_categories :: "auth_env \<Rightarrow> string \<Rightarrow> nat" where
  "password_categories e s =
     length (filter (\<lambda>p. list_ex p s) [is_lower e, is_upper e, is_digit e, \<lambda>c. \<not> is_alnum e c])"

definition validate_strong_password :: "auth_env \<Rightarrow> string \<Rightarrow> auth_error + unit" where
  "validate_strong_password e s =
     (if s = [] then Inl Value_Error
      else if length s < 12 then Inl Value_Error
      else if casefold e s \<in> set common_weak_passwords then Inl Value_Error
      else if placeholder_password e s then Inl Value_Error
      else if password_categories e s < 3 then Inl Value_Error
      else Inr ())"

definition policy_version :: "auth_env \<Rightarrow> string \<Rightarrow> nat" where
  "policy_version e s = (case validate_strong_password e s of Inl _ \<Rightarrow> 0 | Inr _ \<Rightarrow> 1)"

section \<open>Views and authorisation\<close>

definition row_to_user :: "user_row \<Rightarrow> auth_error + user" where
  "row_to_user r = (if us_policy r \<in> {0, 1} then Inr (user.truncate r) else Inl Auth_Failure)"

definition row_to_session :: "session_row \<Rightarrow> session" where
  "row_to_session r = session.truncate r"

definition principal_of :: "user_row \<Rightarrow> string \<Rightarrow> auth_error + principal" where
  "principal_of u session_id =
     (if us_policy u \<in> {0, 1} then
        Inr \<lparr>pr_user = us_id u, pr_name = us_name u, pr_role = us_role u, pr_scopes = us_scopes u,
          pr_session = session_id, pr_active = True, pr_must_change = us_must_change u,
          pr_demo = us_demo u, pr_policy = us_policy u\<rparr>
      else Inl Auth_Failure)"

definition authorize :: "principal \<Rightarrow> string \<Rightarrow> string option \<Rightarrow> auth_error + unit" where
  "authorize p requested mine =
     (if \<not> pr_active p then Inl Permission_Denied
      else case permission_of_text requested of
        None \<Rightarrow> Inl Unknown_Permission
      | Some wanted \<Rightarrow>
          if wanted \<notin> set (role_permissions (pr_role p)) then Inl Permission_Denied
          else if pr_role p = Admin then Inr ()
          else case mine of
            None \<Rightarrow> Inl Permission_Denied
          | Some m \<Rightarrow>
              if python_strip m = [] then Inl Permission_Denied
              else if m \<notin> set (pr_scopes p) then Inl Permission_Denied
              else Inr ())"

section \<open>Facts about the policy\<close>

lemma authorize_ok:
  "authorize p requested mine = Inr () \<longleftrightarrow>
     pr_active p \<and> (\<exists>wanted. permission_of_text requested = Some wanted
       \<and> wanted \<in> set (role_permissions (pr_role p)))
     \<and> (pr_role p = Admin \<or> (\<exists>m. mine = Some m \<and> python_strip m \<noteq> [] \<and> m \<in> set (pr_scopes p)))"
  by (auto simp: authorize_def split: option.splits)

lemma policy_version_cases: "policy_version e s \<in> {0, 1}"
  by (simp add: policy_version_def split: sum.splits)

lemma strong_policy: "validate_strong_password e s = Inr x \<Longrightarrow> policy_version e s = 1"
  by (simp add: policy_version_def)

text \<open>A higher role may do whatever a lower one may.\<close>

lemma role_permissions_grow:
  "set (role_permissions Viewer) \<subseteq> set (role_permissions Reviewer)"
  "set (role_permissions Reviewer) \<subseteq> set (role_permissions Supervisor)"
  "set (role_permissions Supervisor) \<subseteq> set (role_permissions Admin)"
  by (simp_all add: permission_texts_def)

lemma permission_text_known: "permission_of_text requested = Some wanted \<Longrightarrow>
    wanted \<in> set (role_permissions Admin)"
  by (auto simp: permission_of_text_def dest: map_of_SomeD intro: rev_image_eqI)

text \<open>The known demonstration password is temporary and has to be changed.\<close>

lemma credential_flags_demo:
  "credential_flags password must demo = Inr (m, d) \<Longrightarrow> password \<in> set demo_passwords \<Longrightarrow> m \<and> d"
  by (auto simp: credential_flags_def Let_def split: if_splits)

lemma credential_flags_strong:
  assumes "validate_strong_password e password = Inr ()"
    and "credential_flags password False False = Inr (m, d)"
  shows "\<not> m \<and> \<not> d"
proof -
  have "password \<notin> set demo_passwords"
    using assms(1) by (auto simp: validate_strong_password_def demo_passwords_def split: if_splits)
  then show ?thesis using assms(2) by (auto simp: credential_flags_def Let_def split: if_splits)
qed

end
