(* ===== verification/Auth_Store.thy ===== *)
theory Auth_Store
  imports Auth_Types
begin

text \<open>
  The database of \<open>LocalAuthStore\<close> and its methods but \<open>login\<close>. Each writing method is one
  transaction (\<open>_write\<close>) that any exception rolls back. The clock and the random tokens are
  arguments; \<open>fetchone\<close> of a query is \<open>find\<close>.
\<close>

section \<open>Tables\<close>

record auth_db =
  users :: "user_row list"
  sessions :: "session_row list"
  audit_events :: "auth_event list"
  bootstrap_id :: "string option"

definition new_auth_db :: auth_db where
  "new_auth_db = \<lparr>users = [], sessions = [], audit_events = [], bootstrap_id = None\<rparr>"

type_synonym 'a auth_op = "(auth_db, auth_error, 'a) op"

definition write_tx :: "'a auth_op \<Rightarrow> 'a auth_op" where
  "write_tx m = transaction (\<lambda>_. False) (\<lambda>s t. s) m"

definition user_clash :: "user_row \<Rightarrow> user_row \<Rightarrow> bool" where
  "user_clash a b \<longleftrightarrow> us_id a = us_id b \<or> ur_key a = ur_key b"

definition session_clash :: "session_row \<Rightarrow> session_row \<Rightarrow> bool" where
  "session_clash a b \<longleftrightarrow> se_id a = se_id b \<or> sr_token a = sr_token b"

definition insert_user :: "user_row \<Rightarrow> unit auth_op" where
  "insert_user u s = (case insert_row user_clash u (users s) of
     None \<Rightarrow> (Inl Integrity_Error, s) | Some rows \<Rightarrow> (Inr (), s\<lparr>users := rows\<rparr>))"

text \<open>A session refers to a user.\<close>

definition insert_session :: "session_row \<Rightarrow> unit auth_op" where
  "insert_session x s =
     (if \<not> list_ex (\<lambda>u. us_id u = se_user x) (users s) then (Inl Integrity_Error, s)
      else case insert_row session_clash x (sessions s) of
        None \<Rightarrow> (Inl Integrity_Error, s) | Some rows \<Rightarrow> (Inr (), s\<lparr>sessions := rows\<rparr>))"

definition update_users :: "string \<Rightarrow> (user_row \<Rightarrow> user_row) \<Rightarrow> unit auth_op" where
  "update_users uid f = writing (\<lambda>s. s\<lparr>users := map (\<lambda>u. if us_id u = uid then f u else u) (users s)\<rparr>)"

definition update_session :: "string \<Rightarrow> (session_row \<Rightarrow> session_row) \<Rightarrow> unit auth_op" where
  "update_session sid f =
     writing (\<lambda>s. s\<lparr>sessions := map (\<lambda>x. if se_id x = sid then f x else x) (sessions s)\<rparr>)"

definition revoke :: "int \<Rightarrow> session_row \<Rightarrow> session_row" where
  "revoke now x = (if se_revoked x = None then x\<lparr>se_revoked := Some now\<rparr> else x)"

text \<open>Revokes the sessions of a user; the result is the row count.\<close>

definition revoke_sessions :: "int \<Rightarrow> string \<Rightarrow> nat auth_op" where
  "revoke_sessions now uid s =
     (Inr (length (filter (\<lambda>x. se_user x = uid \<and> se_revoked x = None) (sessions s))),
      s\<lparr>sessions := map (\<lambda>x. if se_user x = uid then revoke now x else x) (sessions s)\<rparr>)"

definition auth_audit ::
    "int \<Rightarrow> string \<Rightarrow> string option \<Rightarrow> string option \<Rightarrow> string option \<Rightarrow> json \<Rightarrow> unit auth_op" where
  "auth_audit now action uid name client detail = writing (\<lambda>s. s\<lparr>audit_events := audit_events s @
     [\<lparr>ae_seq = next_sequence ae_seq (audit_events s), ae_action = action, ae_user = uid,
       ae_name = name, ae_client = client, ae_detail = detail, ae_created = now\<rparr>]\<rparr>)"

definition find_user :: "string \<Rightarrow> user_row option auth_op" where
  "find_user key = reading (\<lambda>s. find (\<lambda>u. ur_key u = key) (users s))"

definition find_user_id :: "string \<Rightarrow> user_row option auth_op" where
  "find_user_id uid = reading (\<lambda>s. find (\<lambda>u. us_id u = uid) (users s))"

text \<open>The row of a user read back at the end of a method.\<close>

definition read_back :: "string \<Rightarrow> user auth_op" where
  "read_back uid = bind (find_user_id uid) (\<lambda>r. bind (the_row Assertion_Error r) (\<lambda>u.
     checked (row_to_user u)))"

section \<open>Users\<close>

definition new_user ::
    "string \<Rightarrow> string \<Rightarrow> string \<Rightarrow> role \<Rightarrow> string list \<Rightarrow> bool \<Rightarrow> string \<Rightarrow> string \<Rightarrow> bool \<times> bool \<Rightarrow> nat \<Rightarrow> int
      \<Rightarrow> user_row" where
  "new_user uid display key r scopes active salt hash flags policy now =
     \<lparr>us_id = uid, us_name = display, us_role = r, us_scopes = scopes, us_active = active,
      us_created = now, us_updated = now, us_must_change = fst flags, us_demo = snd flags,
      us_policy = policy, ur_key = key, ur_salt = salt, ur_hash = hash\<rparr>"

definition bootstrap_admin ::
    "auth_env \<Rightarrow> int \<Rightarrow> string \<Rightarrow> string \<Rightarrow> string \<Rightarrow> string \<Rightarrow> bool \<Rightarrow> bool \<Rightarrow> user auth_op" where
  "bootstrap_admin e now uid salt username password must demo =
     bind (checked (normalise_username e username)) (\<lambda>(display, key).
     bind (checked (credential_flags password must demo)) (\<lambda>flags.
     write_tx (bind (reading users) (\<lambda>rows. bind (reading bootstrap_id) (\<lambda>known.
       case known of
         Some owner \<Rightarrow>
           bind (find_user_id owner) (\<lambda>r. bind (the_row Bootstrap_Conflict r) (\<lambda>m.
           bind (require (ur_key m = key) Bootstrap_Conflict) (\<lambda>_.
           bind (checked (password_digest e password (ur_salt m))) (\<lambda>candidate.
           bind (require (candidate = ur_hash m \<and> us_role m = Admin \<and> us_active m)
             Bootstrap_Conflict) (\<lambda>_. checked (row_to_user m))))))
       | None \<Rightarrow>
           bind (require (rows = []) Bootstrap_Conflict) (\<lambda>_.
           bind (checked (password_digest e password salt)) (\<lambda>hash.
           bind (insert_user (new_user uid display key Admin [] True salt hash flags
             (policy_version e password) now)) (\<lambda>_.
           bind (writing (\<lambda>s. s\<lparr>bootstrap_id := Some uid\<rparr>)) (\<lambda>_.
           bind (auth_audit now ''bootstrap_admin'' (Some uid) (Some display) None (JObj [])) (\<lambda>_.
           read_back uid))))))))))"

definition created_json :: "user_row \<Rightarrow> json" where
  "created_json u = JObj
     [(''role'', JStr (role_text (us_role u))), (''mine_scopes'', json_strs (us_scopes u)),
      (''active'', JBool (us_active u)), (''must_change_password'', JBool (us_must_change u)),
      (''temporary_demo'', JBool (us_demo u)),
      (''credential_policy_version'', json_int (int (us_policy u)))]"

text \<open>Only the integrity error becomes \<open>UserConflictError\<close>.\<close>

definition as_conflict :: "'a auth_op \<Rightarrow> 'a auth_op" where
  "as_conflict m s = (case m s of
     (Inl x, t) \<Rightarrow> (Inl (if x = Integrity_Error then User_Conflict else x), t) | (Inr a, t) \<Rightarrow> (Inr a, t))"

definition known_role :: "string \<Rightarrow> auth_error + role" where
  "known_role text = (case role_of_text text of None \<Rightarrow> Inl Value_Error | Some r \<Rightarrow> Inr r)"

definition create_user ::
    "auth_env \<Rightarrow> int \<Rightarrow> string \<Rightarrow> string \<Rightarrow> string \<Rightarrow> string \<Rightarrow> string \<Rightarrow> string list \<Rightarrow> bool \<Rightarrow> bool \<Rightarrow> bool
      \<Rightarrow> user auth_op" where
  "create_user e now uid salt username password role_name mines active must demo =
     bind (checked (normalise_username e username)) (\<lambda>(display, key).
     bind (checked (credential_flags password must demo)) (\<lambda>flags.
     bind (checked (known_role role_name)) (\<lambda>r.
     bind (checked (normalise_scopes mines r)) (\<lambda>scopes.
     bind (checked (password_digest e password salt)) (\<lambda>hash.
     let u = new_user uid display key r scopes active salt hash flags (policy_version e password) now
     in as_conflict (write_tx (bind (insert_user u) (\<lambda>_.
       bind (auth_audit now ''user_created'' (Some uid) (Some display) None (created_json u)) (\<lambda>_.
       read_back uid))))))))) "

definition ensure_active_admin_remains :: "user_row \<Rightarrow> bool \<Rightarrow> role \<Rightarrow> unit auth_op" where
  "ensure_active_admin_remains row next_active next_role =
     (if \<not> (us_active row \<and> us_role row = Admin \<and> (\<not> next_active \<or> next_role \<noteq> Admin)) then ret ()
      else bind (reading (\<lambda>s. list_ex (\<lambda>u. us_active u \<and> us_role u = Admin \<and> us_id u \<noteq> us_id row) (users s)))
        (\<lambda>replaced. require replaced Last_Active_Admin))"

definition set_user_active :: "auth_env \<Rightarrow> int \<Rightarrow> string \<Rightarrow> bool \<Rightarrow> user auth_op" where
  "set_user_active e now username active =
     bind (checked (normalise_username e username)) (\<lambda>(_, key).
     write_tx (bind (find_user key) (\<lambda>r. bind (the_row User_Not_Found r) (\<lambda>row.
       bind (ensure_active_admin_remains row active (us_role row)) (\<lambda>_.
       bind (update_users (us_id row) (\<lambda>u. u\<lparr>us_active := active, us_updated := now\<rparr>)) (\<lambda>_.
       bind (if active then ret 0 else revoke_sessions now (us_id row)) (\<lambda>_.
       bind (auth_audit now (if active then ''user_enabled'' else ''user_disabled'')
         (Some (us_id row)) (Some (us_name row)) None (JObj [])) (\<lambda>_.
       read_back (us_id row)))))))))"

definition access_json :: "user_row \<Rightarrow> role \<Rightarrow> string list \<Rightarrow> nat \<Rightarrow> json" where
  "access_json row r scopes revoked = JObj
     [(''previous_role'', JStr (role_text (us_role row))), (''role'', JStr (role_text r)),
      (''previous_mine_scopes'', json_strs (us_scopes row)), (''mine_scopes'', json_strs scopes),
      (''sessions_revoked'', json_int (int revoked))]"

definition update_user_access ::
    "auth_env \<Rightarrow> int \<Rightarrow> string \<Rightarrow> string \<Rightarrow> string list \<Rightarrow> user auth_op" where
  "update_user_access e now username role_name mines =
     bind (checked (normalise_username e username)) (\<lambda>(_, key).
     bind (checked (known_role role_name)) (\<lambda>r.
     bind (checked (normalise_scopes mines r)) (\<lambda>scopes.
     write_tx (bind (find_user key) (\<lambda>found_row. bind (the_row User_Not_Found found_row) (\<lambda>row.
       bind (ensure_active_admin_remains row (us_active row) r) (\<lambda>_.
       bind (update_users (us_id row)
         (\<lambda>u. u\<lparr>us_role := r, us_scopes := scopes, us_updated := now\<rparr>)) (\<lambda>_.
       bind (revoke_sessions now (us_id row)) (\<lambda>revoked.
       bind (auth_audit now ''user_access_changed'' (Some (us_id row)) (Some (us_name row)) None
         (access_json row r scopes revoked)) (\<lambda>_.
       read_back (us_id row)))))))))))"

definition store_password ::
    "int \<Rightarrow> user_row \<Rightarrow> string \<Rightarrow> string \<Rightarrow> bool \<times> bool \<Rightarrow> nat \<Rightarrow> string \<Rightarrow> unit auth_op" where
  "store_password now row salt hash flags policy action =
     bind (update_users (us_id row) (\<lambda>u. u\<lparr>ur_salt := salt, ur_hash := hash,
       us_must_change := fst flags, us_demo := snd flags, us_policy := policy, us_updated := now\<rparr>)) (\<lambda>_.
     bind (revoke_sessions now (us_id row)) (\<lambda>_.
     auth_audit now action (Some (us_id row)) (Some (us_name row)) None (JObj [])))"

definition change_password ::
    "auth_env \<Rightarrow> int \<Rightarrow> string \<Rightarrow> string \<Rightarrow> string \<Rightarrow> string \<Rightarrow> unit auth_op" where
  "change_password e now salt username current fresh =
     bind (checked (normalise_username e username)) (\<lambda>(_, key).
     bind (checked (validate_strong_password e fresh)) (\<lambda>_.
     bind (checked (credential_flags fresh False False)) (\<lambda>flags.
     write_tx (bind (find_user key) (\<lambda>r. bind (the_row Invalid_Credentials r) (\<lambda>row.
       bind (require (us_active row) Invalid_Credentials) (\<lambda>_.
       bind (checked (password_digest e current (ur_salt row))) (\<lambda>candidate.
       bind (require (candidate = ur_hash row) Invalid_Credentials) (\<lambda>_.
       bind (checked (password_digest e fresh salt)) (\<lambda>hash.
       store_password now row salt hash flags (policy_version e fresh) ''password_changed''))))))))))"

definition reset_password ::
    "auth_env \<Rightarrow> int \<Rightarrow> string \<Rightarrow> string \<Rightarrow> string \<Rightarrow> bool \<Rightarrow> bool \<Rightarrow> bool \<Rightarrow> unit auth_op" where
  "reset_password e now salt username fresh must demo strict =
     bind (checked (normalise_username e username)) (\<lambda>(_, key).
     bind (require (fresh \<noteq> []) Value_Error) (\<lambda>_.
     bind (if strict then checked (validate_strong_password e fresh) else ret ()) (\<lambda>_.
     bind (checked (credential_flags fresh must demo)) (\<lambda>flags.
     bind (checked (password_digest e fresh salt)) (\<lambda>hash.
     write_tx (bind (find_user key) (\<lambda>r. bind (the_row User_Not_Found r) (\<lambda>row.
       store_password now row salt hash flags (policy_version e fresh) ''password_reset''))))))))"

section \<open>Sessions\<close>

definition authenticate_in_transaction ::
    "auth_env \<Rightarrow> int \<Rightarrow> string \<Rightarrow> bool \<Rightarrow> (principal \<times> session_row) auth_op" where
  "authenticate_in_transaction e now token touch =
     bind (reading (\<lambda>s. find (\<lambda>x. sr_token x = sha256_hex e token) (sessions s))) (\<lambda>r.
     bind (the_row Invalid_Session r) (\<lambda>row.
     bind (find_user_id (se_user row)) (\<lambda>owner.
     bind (the_row Invalid_Session owner) (\<lambda>u.
     bind (require (se_revoked row = None) Invalid_Session) (\<lambda>_.
     bind (require (us_active u) Invalid_Session) (\<lambda>_.
     bind (if se_absolute row \<le> now \<or> se_idle row \<le> now
           then bind (update_session (se_id row) (revoke now)) (\<lambda>_. raise Session_Expired)
           else ret ()) (\<lambda>_.
     bind (if touch then update_session (se_id row) (\<lambda>x. x\<lparr>se_seen := now,
             se_idle := min (se_absolute row) (now + micros (idle_timeout e))\<rparr>) else ret ()) (\<lambda>_.
     bind (checked (principal_of u (se_id row))) (\<lambda>p. ret (p, row))))))))))"

definition authenticate :: "auth_env \<Rightarrow> int \<Rightarrow> string \<Rightarrow> bool \<Rightarrow> principal auth_op" where
  "authenticate e now token touch =
     bind (require (token \<noteq> []) Invalid_Session) (\<lambda>_.
     write_tx (bind (authenticate_in_transaction e now token touch) (\<lambda>(p, _). ret p)))"

definition session_json :: "string \<Rightarrow> json" where
  "session_json sid = JObj [(''session_id'', JStr sid)]"

text \<open>The clock is read twice: for the session and for the audit row.\<close>

definition issue_csrf :: "auth_env \<Rightarrow> int \<Rightarrow> int \<Rightarrow> string \<Rightarrow> string \<Rightarrow> (principal \<times> string) auth_op" where
  "issue_csrf e now later csrf token =
     write_tx (bind (authenticate_in_transaction e now token True) (\<lambda>(p, row).
       bind (update_session (se_id row) (\<lambda>x. x\<lparr>sr_csrf := sha256_hex e csrf\<rparr>)) (\<lambda>_.
       bind (auth_audit later ''csrf_rotated'' (Some (pr_user p)) (Some (pr_name p)) None
         (session_json (pr_session p))) (\<lambda>_. ret (p, csrf)))))"

definition safe_methods :: "string list" where
  "safe_methods = [''GET'', ''HEAD'', ''OPTIONS'']"

definition validate_csrf ::
    "auth_env \<Rightarrow> int \<Rightarrow> string \<Rightarrow> string option \<Rightarrow> string \<Rightarrow> principal auth_op" where
  "validate_csrf e now token header http_method =
     (if uppercase e http_method \<in> set safe_methods then authenticate e now token True
      else case header of
        None \<Rightarrow> raise Csrf_Invalid
      | Some h \<Rightarrow>
          if h = [] then raise Csrf_Invalid
          else write_tx (bind (authenticate_in_transaction e now token True) (\<lambda>(p, row).
            bind (require (sr_csrf row = sha256_hex e h) Csrf_Invalid) (\<lambda>_. ret p))))"

definition logout :: "auth_env \<Rightarrow> int \<Rightarrow> string \<Rightarrow> unit auth_op" where
  "logout e now token =
     write_tx (bind (reading (\<lambda>s. find (\<lambda>x. sr_token x = sha256_hex e token) (sessions s))) (\<lambda>r.
       case r of None \<Rightarrow> ret () | Some row \<Rightarrow>
         bind (find_user_id (se_user row)) (\<lambda>owner.
           case owner of None \<Rightarrow> ret () | Some u \<Rightarrow>
             bind (update_session (se_id row) (revoke now)) (\<lambda>_.
             auth_audit now ''logout'' (Some (se_user row)) (Some (us_name u)) None
               (session_json (se_id row))))))"

definition revoke_all :: "auth_env \<Rightarrow> int \<Rightarrow> string \<Rightarrow> nat auth_op" where
  "revoke_all e now username =
     bind (checked (normalise_username e username)) (\<lambda>(_, key).
     write_tx (bind (find_user key) (\<lambda>r. bind (the_row User_Not_Found r) (\<lambda>row.
       bind (revoke_sessions now (us_id row)) (\<lambda>n.
       bind (auth_audit now ''sessions_revoked'' (Some (us_id row)) (Some (us_name row)) None
         (JObj [(''count'', json_int (int n))])) (\<lambda>_. ret n))))))"

section \<open>The audit log and the reads\<close>

definition record_audit_event ::
    "int \<Rightarrow> string \<Rightarrow> principal option \<Rightarrow> string option \<Rightarrow> json \<Rightarrow> unit auth_op" where
  "record_audit_event now action p client detail =
     (let a = python_strip action in
      if a = [] \<or> 200 < length a then raise Value_Error
      else write_tx (auth_audit now a (map_option pr_user p) (map_option pr_name p) client detail))"

definition get_user :: "auth_env \<Rightarrow> string \<Rightarrow> user option auth_op" where
  "get_user e username =
     bind (checked (normalise_username e username)) (\<lambda>(_, key).
     bind (find_user key) (\<lambda>r. case r of None \<Rightarrow> ret None | Some u \<Rightarrow>
       bind (checked (row_to_user u)) (\<lambda>v. ret (Some v))))"

definition list_users :: "user list auth_op" where
  "list_users = bind (reading (\<lambda>s. sort_key ur_key (users s))) (map_each (\<lambda>u. checked (row_to_user u)))"

text \<open>Newest first; equal times are in no particular order.\<close>

definition list_sessions :: "auth_env \<Rightarrow> string \<Rightarrow> session list auth_op" where
  "list_sessions e username =
     bind (checked (normalise_username e username)) (\<lambda>(_, key). reading (\<lambda>s.
       map row_to_session (sort_key (\<lambda>x. - se_created x)
         (filter (\<lambda>x. list_ex (\<lambda>u. us_id u = se_user x \<and> ur_key u = key) (users s)) (sessions s)))))"

definition list_audit_events :: "int \<Rightarrow> auth_event list auth_op" where
  "list_audit_events limit =
     (if limit < 1 \<or> 1000 < limit then raise Value_Error
      else reading (\<lambda>s. take (nat limit) (rev (sort_key ae_seq (audit_events s)))))"

section \<open>Readiness of the credentials for production\<close>

datatype credential_reason =
  Must_Change | Temporary_Demo | Policy_Outdated | Forbidden_Password

record credential_status =
  cs_users :: nat
  cs_admins :: nat
  cs_ready_admins :: nat
  cs_ready :: bool
  cs_blocked :: "(string \<times> credential_reason list) list"
  cs_pending :: nat
  cs_outdated :: nat

text \<open>The digest of a candidate raises on an empty password; the first match ends the search.\<close>

fun forbidden_match :: "auth_env \<Rightarrow> string list \<Rightarrow> user_row \<Rightarrow> auth_error + bool" where
  "forbidden_match e [] u = Inr False"
| "forbidden_match e (c # cs) u = (case password_digest e c (ur_salt u) of
     Inl x \<Rightarrow> Inl x
   | Inr d \<Rightarrow> if d = ur_hash u then Inr True else forbidden_match e cs u)"

definition credential_reasons :: "auth_env \<Rightarrow> string list \<Rightarrow> user_row \<Rightarrow> auth_error + credential_reason list" where
  "credential_reasons e forbidden u =
     (if us_policy u \<notin> {0, 1} then Inl Auth_Failure
      else case forbidden_match e forbidden u of Inl x \<Rightarrow> Inl x | Inr hit \<Rightarrow>
        Inr ((if us_must_change u then [Must_Change] else []) @
             (if us_demo u then [Temporary_Demo] else []) @
             (if us_policy u \<noteq> 1 then [Policy_Outdated] else []) @
             (if hit then [Forbidden_Password] else [])))"

definition globally_blocking :: "user_row \<Rightarrow> credential_reason list \<Rightarrow> bool" where
  "globally_blocking u rs \<longleftrightarrow> us_active u
     \<and> list_ex (\<lambda>r. r \<in> {Policy_Outdated, Temporary_Demo, Forbidden_Password}) rs"

text \<open>The reasons of a user are listed in the order of their names.\<close>

definition sorted_reasons :: "credential_reason list \<Rightarrow> credential_reason list" where
  "sorted_reasons rs =
     filter (\<lambda>r. r \<in> set rs) [Policy_Outdated, Forbidden_Password, Must_Change, Temporary_Demo]"

definition credential_status_of ::
    "(user_row \<times> credential_reason list) list \<Rightarrow> credential_status" where
  "credential_status_of rows =
     (let admins = filter (\<lambda>(u, _). us_active u \<and> us_role u = Admin) rows;
          ready = filter (\<lambda>(_, rs). rs = []) admins;
          blocked = filter (\<lambda>(u, rs). globally_blocking u rs) rows
      in \<lparr>cs_users = length rows, cs_admins = length admins, cs_ready_admins = length ready,
          cs_ready = (blocked = [] \<and> 0 < length ready),
          cs_blocked = map (\<lambda>(u, rs). (us_name u, sorted_reasons rs)) blocked,
          cs_pending = length (filter (\<lambda>(u, _). us_active u \<and> us_must_change u) rows),
          cs_outdated = length (filter (\<lambda>(u, _). us_active u \<and> us_policy u \<noteq> 1) rows)\<rparr>)"

definition production_credential_status :: "auth_env \<Rightarrow> string list \<Rightarrow> credential_status auth_op" where
  "production_credential_status e forbidden =
     bind (reading (\<lambda>s. sort_key ur_key (users s))) (\<lambda>rows.
     bind (map_each (\<lambda>u. bind (checked (credential_reasons e (first_occurrences forbidden) u))
       (\<lambda>rs. ret (u, rs))) rows) (\<lambda>assessed. ret (credential_status_of assessed)))"

section \<open>The gate of the HTTP handlers\<close>

text \<open>
  \<open>_require_authenticated\<close>, with authentication required, and \<open>_require_permission\<close>; a
  refusal carries the HTTP status. A denied permission is recorded; a failure to record it is
  ignored. Any other exception is passed on (\<open>Failed\<close>).
\<close>

datatype gate = Granted principal | Refused nat | Failed auth_error

definition require_authenticated ::
    "auth_env \<Rightarrow> int \<Rightarrow> string option \<Rightarrow> bool \<Rightarrow> string option \<Rightarrow> string \<Rightarrow> auth_db \<Rightarrow> gate \<times> auth_db" where
  "require_authenticated e now cookie csrf header http_method s =
     (case cookie of None \<Rightarrow> (Refused 401, s)
      | Some token \<Rightarrow>
          if token = [] then (Refused 401, s)
          else case (if csrf then validate_csrf e now token header http_method s
                     else authenticate e now token True s) of
            (Inr p, t) \<Rightarrow> (Granted p, t)
          | (Inl x, t) \<Rightarrow>
              (if x = Csrf_Invalid then Refused 403
               else if x \<in> {Invalid_Session, Session_Expired} then Refused 401 else Failed x, t))"

definition denied_json :: "string \<Rightarrow> string option \<Rightarrow> json" where
  "denied_json requested mine = JObj [(''permission'', JStr requested), (''mine_id'', json_opt mine)]"

definition require_permission ::
    "int \<Rightarrow> string \<Rightarrow> principal \<Rightarrow> string \<Rightarrow> string option \<Rightarrow> auth_db \<Rightarrow> gate \<times> auth_db" where
  "require_permission now client p requested mine s =
     (case authorize p requested mine of
        Inr _ \<Rightarrow> (Granted p, s)
      | Inl x \<Rightarrow>
          if x = Permission_Denied then
            (Refused 403, snd (record_audit_event now ''permission_denied'' (Some p) (Some client)
              (denied_json requested mine) s))
          else (Failed x, s))"

definition require_collection_permission ::
    "int \<Rightarrow> string \<Rightarrow> principal \<Rightarrow> string \<Rightarrow> auth_db \<Rightarrow> gate \<times> auth_db" where
  "require_collection_permission now client p requested =
     require_permission now client p requested
       (if pr_role p = Admin then None
        else case pr_scopes p of [] \<Rightarrow> None | m # _ \<Rightarrow> Some m)"

end
