(* ===== verification/Auth_Login.thy ===== *)
theory Auth_Login
  imports Auth_Store
begin

text \<open>
  \<open>login\<close> with its rate limiter, and the store while it runs. A login takes the limiter's lock
  twice and the database twice, so it is a program (\<open>login_phase\<close>, \<open>login_step\<close>) whose steps
  interleave with the other methods and other logins; \<open>login\<close> runs one without interruption.
\<close>

section \<open>The rate limiter\<close>

type_synonym rate_key = "string \<times> string"

record limiter =
  lm_failures :: "rate_key \<Rightarrow> rat list"
  lm_locked :: "rate_key \<Rightarrow> rat option"

definition new_limiter :: limiter where
  "new_limiter = \<lparr>lm_failures = (\<lambda>_. []), lm_locked = (\<lambda>_. None)\<rparr>"

definition make_rate_key :: "string \<Rightarrow> string \<Rightarrow> auth_error + rate_key" where
  "make_rate_key username_key client_id =
     (let client = python_strip client_id
      in if client = [] then Inl Value_Error else Inr (username_key, client))"

text \<open>Failures that have left the window are dropped from the front.\<close>

definition recent :: "auth_env \<Rightarrow> rat \<Rightarrow> rat list \<Rightarrow> rat list" where
  "recent e now fs = dropWhile (\<lambda>t. t \<le> now - of_int (login_window e)) fs"

definition retry_after :: "rat \<Rightarrow> int" where
  "retry_after left = max 1 \<lfloor>left + 999 / 1000\<rfloor>"

definition check_rate_limit :: "auth_env \<Rightarrow> rate_key \<Rightarrow> rat \<Rightarrow> limiter \<Rightarrow> (auth_error + unit) \<times> limiter" where
  "check_rate_limit e k now l =
     (case lm_locked l k of
        Some until \<Rightarrow>
          if now < until then (Inl (Rate_Limited (retry_after (until - now))), l)
          else (Inr (), l\<lparr>lm_locked := (lm_locked l)(k := None), lm_failures := (lm_failures l)(k := [])\<rparr>)
      | None \<Rightarrow> (Inr (), l\<lparr>lm_failures := (lm_failures l)(k := recent e now (lm_failures l k))\<rparr>))"

definition record_failure :: "auth_env \<Rightarrow> rate_key \<Rightarrow> rat \<Rightarrow> limiter \<Rightarrow> limiter" where
  "record_failure e k now l =
     (let fs = recent e now (lm_failures l k) @ [now] in
      l\<lparr>lm_failures := (lm_failures l)(k := fs),
        lm_locked := (if max_failures e \<le> length fs
          then (lm_locked l)(k \<mapsto> now + of_int (lockout e)) else lm_locked l)\<rparr>)"

definition clear_failures :: "rate_key \<Rightarrow> limiter \<Rightarrow> limiter" where
  "clear_failures k l =
     l\<lparr>lm_failures := (lm_failures l)(k := []), lm_locked := (lm_locked l)(k := None)\<rparr>"

section \<open>The steps of a login\<close>

record login_call =
  lc_now :: int
  lc_username :: string
  lc_password :: string
  lc_client :: string
  lc_session :: string
  lc_token :: string
  lc_csrf :: string

datatype login_phase =
    At_Check
  | At_Lookup string rate_key
  | At_Failure string rate_key
  | At_Failure_Log string
  | At_Clear rate_key user_row
  | At_Open user_row
  | Login_Done "auth_error + login_result"

definition absolute_expiry :: "auth_env \<Rightarrow> int \<Rightarrow> int" where
  "absolute_expiry e now = now + micros (absolute_timeout e)"

definition idle_expiry :: "auth_env \<Rightarrow> int \<Rightarrow> int" where
  "idle_expiry e now = min (absolute_expiry e now) (now + micros (idle_timeout e))"

definition new_session :: "auth_env \<Rightarrow> login_call \<Rightarrow> string \<Rightarrow> session_row" where
  "new_session e c uid =
     \<lparr>se_id = lc_session c, se_user = uid, se_created = lc_now c, se_seen = lc_now c,
      se_absolute = absolute_expiry e (lc_now c), se_idle = idle_expiry e (lc_now c),
      se_revoked = None, sr_token = sha256_hex e (lc_token c), sr_csrf = sha256_hex e (lc_csrf c)\<rparr>"

text \<open>The whole row was read before; only \<open>active\<close> is read again.\<close>

definition open_session :: "auth_env \<Rightarrow> login_call \<Rightarrow> user_row \<Rightarrow> unit auth_op" where
  "open_session e c row =
     write_tx (bind (find_user_id (us_id row)) (\<lambda>r. bind (the_row Invalid_Credentials r) (\<lambda>current.
       bind (require (us_active current) Invalid_Credentials) (\<lambda>_.
       bind (insert_session (new_session e c (us_id row))) (\<lambda>_.
       auth_audit (lc_now c) ''login_succeeded'' (Some (us_id row)) (Some (us_name row))
         (Some (lc_client c)) (session_json (lc_session c)))))))"

definition login_answer :: "auth_env \<Rightarrow> login_call \<Rightarrow> user_row \<Rightarrow> auth_error + login_result" where
  "login_answer e c row = (case principal_of row (lc_session c) of
     Inl x \<Rightarrow> Inl x
   | Inr p \<Rightarrow> Inr \<lparr>lr_token = lc_token c, lr_csrf = lc_csrf c, lr_principal = p,
       lr_absolute = absolute_expiry e (lc_now c), lr_idle = idle_expiry e (lc_now c)\<rparr>)"

text \<open>For an unknown user the digest of the dummy password is computed, which never matches.\<close>

definition password_valid :: "auth_env \<Rightarrow> string \<Rightarrow> user_row option \<Rightarrow> auth_error + bool" where
  "password_valid e password r = (case r of
     None \<Rightarrow> if password = [] then Inl Value_Error else Inr False
   | Some u \<Rightarrow> (case password_digest e password (ur_salt u) of
       Inl x \<Rightarrow> Inl x | Inr d \<Rightarrow> Inr (d = ur_hash u \<and> us_active u)))"

fun login_step :: "auth_env \<Rightarrow> login_call \<Rightarrow> login_phase \<Rightarrow> auth_db \<times> limiter \<Rightarrow>
    login_phase \<times> auth_db \<times> limiter" where
  "login_step e c At_Check (s, l) =
     (case normalise_username e (lc_username c) of Inl x \<Rightarrow> (Login_Done (Inl x), s, l)
      | Inr (display, key) \<Rightarrow> (case make_rate_key key (lc_client c) of Inl x \<Rightarrow> (Login_Done (Inl x), s, l)
        | Inr k \<Rightarrow> (case check_rate_limit e k (seconds_of (lc_now c)) l of
            (Inl x, l') \<Rightarrow> (Login_Done (Inl x), s, l')
          | (Inr _, l') \<Rightarrow> (At_Lookup display k, s, l'))))"
| "login_step e c (At_Lookup display k) (s, l) =
     (let r = find (\<lambda>u. ur_key u = fst k) (users s) in
      case password_valid e (lc_password c) r of
        Inl x \<Rightarrow> (Login_Done (Inl x), s, l)
      | Inr valid \<Rightarrow> (case r of Some u \<Rightarrow> (if valid then At_Clear k u else At_Failure display k, s, l)
          | None \<Rightarrow> (At_Failure display k, s, l)))"
| "login_step e c (At_Failure display k) (s, l) =
     (At_Failure_Log display, s, record_failure e k (seconds_of (lc_now c)) l)"
| "login_step e c (At_Failure_Log display) (s, l) =
     (case write_tx (auth_audit (lc_now c) ''login_failed'' None (Some display) (Some (lc_client c))
        (JObj [])) s of
        (Inl x, t) \<Rightarrow> (Login_Done (Inl x), t, l)
      | (Inr _, t) \<Rightarrow> (Login_Done (Inl Invalid_Credentials), t, l))"
| "login_step e c (At_Clear k u) (s, l) = (At_Open u, s, clear_failures k l)"
| "login_step e c (At_Open u) (s, l) =
     (case open_session e c u s of
        (Inl x, t) \<Rightarrow> (Login_Done (Inl x), t, l)
      | (Inr _, t) \<Rightarrow> (Login_Done (login_answer e c u), t, l))"
| "login_step e c (Login_Done a) (s, l) = (Login_Done a, s, l)"

text \<open>A login that nothing interrupts: no path has more than four steps.\<close>

primrec run_login :: "nat \<Rightarrow> auth_env \<Rightarrow> login_call \<Rightarrow> login_phase \<times> auth_db \<times> limiter \<Rightarrow>
    login_phase \<times> auth_db \<times> limiter" where
  "run_login 0 e c x = x"
| "run_login (Suc n) e c x = run_login n e c (case x of (ph, sl) \<Rightarrow> login_step e c ph sl)"

definition login :: "auth_env \<Rightarrow> login_call \<Rightarrow> auth_db \<times> limiter \<Rightarrow>
    (auth_error + login_result) \<times> auth_db \<times> limiter" where
  "login e c sl = (case run_login 4 e c (At_Check, sl) of
     (Login_Done a, sl') \<Rightarrow> (a, sl') | (_, sl') \<Rightarrow> (Inl Assertion_Error, sl'))"

text \<open>The fall-through of \<open>login\<close> is never taken.\<close>

lemma login_returns: "\<exists>a sl'. run_login 4 e c (At_Check, sl) = (Login_Done a, sl')"
  by (cases sl) (auto simp: eval_nat_numeral Let_def split: sum.splits prod.splits option.splits)

section \<open>The running store\<close>

record auth_state =
  as_db :: auth_db
  as_limiter :: limiter
  as_logins :: "(login_call \<times> login_phase) list"

definition auth_start :: auth_state where
  "auth_start = \<lparr>as_db = new_auth_db, as_limiter = new_limiter, as_logins = []\<rparr>"

text \<open>A call of a method that is one transaction, with any arguments.\<close>

inductive auth_call :: "auth_env \<Rightarrow> auth_db \<Rightarrow> auth_db \<Rightarrow> bool" for e :: auth_env where
  bootstrap: "bootstrap_admin e now uid salt name password must demo s = (r, t) \<Longrightarrow> auth_call e s t"
| create: "create_user e now uid salt name password role_name mines active must demo s = (r, t) \<Longrightarrow>
    auth_call e s t"
| activate: "set_user_active e now name active s = (r, t) \<Longrightarrow> auth_call e s t"
| access: "update_user_access e now name role_name mines s = (r, t) \<Longrightarrow> auth_call e s t"
| change: "change_password e now salt name current fresh s = (r, t) \<Longrightarrow> auth_call e s t"
| reset: "reset_password e now salt name fresh must demo strict s = (r, t) \<Longrightarrow> auth_call e s t"
| authenticate: "authenticate e now token touch s = (r, t) \<Longrightarrow> auth_call e s t"
| rotate: "issue_csrf e now later csrf token s = (r, t) \<Longrightarrow> auth_call e s t"
| validate: "validate_csrf e now token header http_method s = (r, t) \<Longrightarrow> auth_call e s t"
| log_out: "logout e now token s = (r, t) \<Longrightarrow> auth_call e s t"
| revoke_every: "revoke_all e now name s = (r, t) \<Longrightarrow> auth_call e s t"
| record_event: "record_audit_event now action p client detail s = (r, t) \<Longrightarrow> auth_call e s t"

text \<open>A restart of the process loses the limiter and the logins under way.\<close>

inductive auth_step :: "auth_env \<Rightarrow> auth_state \<Rightarrow> auth_state \<Rightarrow> bool" for e :: auth_env where
  call: "auth_call e (as_db s) t \<Longrightarrow> auth_step e s (s\<lparr>as_db := t\<rparr>)"
| accept: "auth_step e s (s\<lparr>as_logins := as_logins s @ [(c, At_Check)]\<rparr>)"
| proceed: "i < length (as_logins s) \<Longrightarrow> as_logins s ! i = (c, ph) \<Longrightarrow>
    login_step e c ph (as_db s, as_limiter s) = (ph', t, l) \<Longrightarrow>
    auth_step e s (s\<lparr>as_db := t, as_limiter := l, as_logins := (as_logins s)[i := (c, ph')]\<rparr>)"
| restart: "auth_step e s (s\<lparr>as_limiter := new_limiter, as_logins := []\<rparr>)"

inductive auth_reachable :: "auth_env \<Rightarrow> auth_state \<Rightarrow> bool" for e :: auth_env where
  start: "auth_reachable e auth_start"
| step: "auth_reachable e s \<Longrightarrow> auth_step e s t \<Longrightarrow> auth_reachable e t"

inductive_cases auth_callE: "auth_call e s t"
inductive_cases auth_stepE: "auth_step e s t"

lemma auth_reachable_steps: "(auth_step e)\<^sup>*\<^sup>* s t \<Longrightarrow> auth_reachable e s \<Longrightarrow> auth_reachable e t"
  by (induction rule: rtranclp_induct) (auto intro: auth_reachable.step)

end
