(* ===== verification/Auth_Steps.thy ===== *)
theory Auth_Steps
  imports Auth_Login
begin

text \<open>
  What every method and every step of a login does to the database. The locale
  \<open>auth_relation\<close> lists the writes of the module - a row added, a user or a session changed, the
  sessions of a user revoked, an event logged - and derives that each method moves along any
  relation that contains them. It is interpreted for the history of the tables here and for the
  invariant in \<open>Auth_Invariant\<close>.
\<close>

section \<open>Rows\<close>

definition user_ok :: "user_row \<Rightarrow> bool" where
  "user_ok u \<longleftrightarrow> us_policy u \<in> {0, 1} \<and> (us_demo u \<longrightarrow> us_must_change u)
     \<and> (us_role u \<noteq> Admin \<longrightarrow> us_scopes u \<noteq> [])"

definition session_ok :: "auth_env \<Rightarrow> session_row \<Rightarrow> bool" where
  "session_ok e x \<longleftrightarrow> se_absolute x = absolute_expiry e (se_created x)
     \<and> se_idle x = min (se_absolute x) (se_seen x + micros (idle_timeout e))"

definition active_admin :: "user_row \<Rightarrow> bool" where
  "active_admin u \<longleftrightarrow> us_active u \<and> us_role u = Admin"

text \<open>What no write changes in a session: a revocation stays.\<close>

definition session_kept :: "session_row \<Rightarrow> session_row \<Rightarrow> bool" where
  "session_kept x y \<longleftrightarrow> se_id y = se_id x \<and> se_user y = se_user x \<and> se_created y = se_created x
     \<and> se_absolute y = se_absolute x \<and> sr_token y = sr_token x
     \<and> (se_revoked x \<noteq> None \<longrightarrow> se_revoked y = se_revoked x)"

definition user_kept :: "user_row \<Rightarrow> user_row \<Rightarrow> bool" where
  "user_kept u v \<longleftrightarrow> us_id v = us_id u \<and> ur_key v = ur_key u \<and> us_name v = us_name u
     \<and> us_created v = us_created u"

definition change_users :: "string \<Rightarrow> (user_row \<Rightarrow> user_row) \<Rightarrow> auth_db \<Rightarrow> auth_db" where
  "change_users uid f s = s\<lparr>users := map (\<lambda>u. if us_id u = uid then f u else u) (users s)\<rparr>"

definition change_session :: "string \<Rightarrow> (session_row \<Rightarrow> session_row) \<Rightarrow> auth_db \<Rightarrow> auth_db" where
  "change_session sid f s = s\<lparr>sessions := map (\<lambda>x. if se_id x = sid then f x else x) (sessions s)\<rparr>"

definition revoke_user :: "int \<Rightarrow> string \<Rightarrow> auth_db \<Rightarrow> auth_db" where
  "revoke_user now uid s =
     s\<lparr>sessions := map (\<lambda>x. if se_user x = uid then revoke now x else x) (sessions s)\<rparr>"

text \<open>An active administrator stays one, or another one is there.\<close>

definition admin_safe :: "auth_db \<Rightarrow> user_row \<Rightarrow> user_row \<Rightarrow> bool" where
  "admin_safe s u v \<longleftrightarrow> (active_admin u \<longrightarrow> active_admin v
     \<or> (\<exists>w \<in> set (users s). active_admin w \<and> us_id w \<noteq> us_id u))"

lemma new_user_ok:
  assumes "credential_flags password must demo = Inr flags" "r = Admin \<or> scopes \<noteq> []"
  shows "user_ok (new_user uid display key r scopes active salt hash flags (policy_version e password) now)"
  using assms policy_version_cases [of e password]
  by (auto simp: user_ok_def new_user_def credential_flags_def Let_def split: if_splits)

lemma normalise_scopes_ok: "normalise_scopes mines r = Inr scopes \<Longrightarrow> r = Admin \<or> scopes \<noteq> []"
  by (auto simp: normalise_scopes_def Let_def split: if_splits)

lemma new_session_ok: "session_ok e (new_session e c uid)"
  by (simp add: session_ok_def new_session_def idle_expiry_def)

section \<open>Effects\<close>

lemma write_tx_Inr: "write_tx m s = (Inr a, t) \<longleftrightarrow> m s = (Inr a, t)"
  by (simp add: write_tx_def transaction_Inr)

lemma write_tx_Inl: "write_tx m s = (Inl x, t) \<longleftrightarrow> (\<exists>u. m s = (Inl x, u)) \<and> t = s"
  by (auto simp: write_tx_def transaction_def split: prod.splits sum.splits)

lemma bind_find_user [simp]: "bind (find_user key) f s = f (find (\<lambda>u. ur_key u = key) (users s)) s"
  by (simp add: find_user_def)

lemma bind_find_user_id [simp]: "bind (find_user_id uid) f s = f (find (\<lambda>u. us_id u = uid) (users s)) s"
  by (simp add: find_user_id_def)

lemma bind_update_users [simp]: "bind (update_users uid f) g s = g () (change_users uid f s)"
  by (simp add: update_users_def change_users_def)

lemma bind_update_session [simp]: "bind (update_session sid f) g s = g () (change_session sid f s)"
  by (simp add: update_session_def change_session_def)

lemma update_session_run: "update_session sid f s = (Inr (), change_session sid f s)"
  by (simp add: update_session_def change_session_def writing_def)

lemma bind_revoke_sessions [simp]:
  "bind (revoke_sessions now uid) g s =
     g (length (filter (\<lambda>x. se_user x = uid \<and> se_revoked x = None) (sessions s))) (revoke_user now uid s)"
  by (simp add: bind_def revoke_sessions_def revoke_user_def)

text \<open>A session that lets its holder in, with the user it belongs to.\<close>

definition alive :: "auth_env \<Rightarrow> int \<Rightarrow> string \<Rightarrow> auth_db \<Rightarrow> session_row \<Rightarrow> user_row \<Rightarrow> bool" where
  "alive e now token s row u \<longleftrightarrow>
     find (\<lambda>x. sr_token x = sha256_hex e token) (sessions s) = Some row
     \<and> find (\<lambda>u. us_id u = se_user row) (users s) = Some u
     \<and> se_revoked row = None \<and> us_active u \<and> now < se_absolute row \<and> now < se_idle row"

definition touched :: "auth_env \<Rightarrow> int \<Rightarrow> session_row \<Rightarrow> auth_db \<Rightarrow> auth_db" where
  "touched e now row = change_session (se_id row) (\<lambda>x. x\<lparr>se_seen := now,
     se_idle := min (se_absolute row) (now + micros (idle_timeout e))\<rparr>)"

text \<open>The four ways the check of a session ends.\<close>

lemma authenticate_cases:
  assumes "authenticate_in_transaction e now token touch s = (r, t)"
  obtains (invalid) "r = Inl Invalid_Session" "t = s"
  | (expired) row where "row \<in> set (sessions s)" "r = Inl Session_Expired"
      "t = change_session (se_id row) (revoke now) s"
  | (corrupt) row u where "alive e now token s row u" "r = Inl Auth_Failure" "us_policy u \<notin> {0, 1}"
      "t = (if touch then touched e now row s else s)"
  | (accepted) row u p where "alive e now token s row u" "r = Inr (p, row)"
      "principal_of u (se_id row) = Inr p" "t = (if touch then touched e now row s else s)"
proof (cases "find (\<lambda>x. sr_token x = sha256_hex e token) (sessions s)")
  case None
  then show thesis using assms invalid by (simp add: authenticate_in_transaction_def raise_def)
next
  case row: (Some row)
  show thesis
  proof (cases "find (\<lambda>u. us_id u = se_user row) (users s)")
    case None
    then show thesis using assms row invalid by (simp add: authenticate_in_transaction_def raise_def)
  next
    case u: (Some u)
    note run = assms [unfolded authenticate_in_transaction_def, simplified row u bind_reading
      bind_find_user_id the_row_simps bind_ret bind_require]
    consider "se_revoked row \<noteq> None \<or> \<not> us_active u"
      | "se_revoked row = None" "us_active u" "se_absolute row \<le> now \<or> se_idle row \<le> now"
      | "se_revoked row = None" "us_active u" "now < se_absolute row" "now < se_idle row"
      by fastforce
    then show thesis
    proof cases
      case 1
      then show thesis using run row u invalid by (auto simp: raise_def split: if_splits)
    next
      case 2
      then have "r = Inl Session_Expired \<and> t = change_session (se_id row) (revoke now) s"
        using run row u by (auto simp: bind_assoc raise_def)
      then show thesis using expired find_Some_mem [OF row] by blast
    next
      case 3
      then have alive: "alive e now token s row u" using row u by (simp add: alive_def)
      have "(case principal_of u (se_id row) of Inl x \<Rightarrow> Inl x | Inr p \<Rightarrow> Inr (p, row),
          if touch then touched e now row s else s) = (r, t)"
        using run row u 3 by (auto simp: touched_def bind_checked ret_def raise_def split: sum.splits if_splits)
      then show thesis
        using corrupt [OF alive] accepted [OF alive]
        by (auto simp: principal_of_def split: if_splits)
    qed
  qed
qed

lemma alive_mem: "alive e now token s row u \<Longrightarrow>
    row \<in> set (sessions s) \<and> u \<in> set (users s) \<and> us_id u = se_user row \<and> sr_token row = sha256_hex e token"
  by (auto simp: alive_def dest!: find_Some_mem)

section \<open>The relation\<close>

locale auth_relation = history_relation rel for rel :: "auth_db \<Rightarrow> auth_db \<Rightarrow> bool" +
  fixes e :: auth_env
  assumes user_added:
      "user_ok u \<Longrightarrow> \<not> list_ex (user_clash u) (users s) \<Longrightarrow> rel s (s\<lparr>users := users s @ [u]\<rparr>)"
    and session_added:
      "session_ok e x \<Longrightarrow> list_ex (\<lambda>u. us_id u = se_user x) (users s) \<Longrightarrow>
         \<not> list_ex (session_clash x) (sessions s) \<Longrightarrow> rel s (s\<lparr>sessions := sessions s @ [x]\<rparr>)"
    and user_changed:
      "row \<in> set (users s) \<Longrightarrow> (\<And>u. user_kept u (f u)) \<Longrightarrow> (user_ok row \<Longrightarrow> user_ok (f row)) \<Longrightarrow>
         admin_safe s row (f row) \<Longrightarrow> rel s (change_users (us_id row) f s)"
    and session_changed:
      "x \<in> set (sessions s) \<Longrightarrow> (\<And>y. session_kept y (g y)) \<Longrightarrow>
         (session_ok e x \<Longrightarrow> session_ok e (g x)) \<Longrightarrow> rel s (change_session (se_id x) g s)"
    and user_revoked: "rel s (revoke_user now uid s)"
    and event_logged:
      "ae_seq a = next_sequence ae_seq (audit_events s) \<Longrightarrow>
         rel s (s\<lparr>audit_events := audit_events s @ [a]\<rparr>)"
    and bootstrapped:
      "row \<in> set (users s) \<Longrightarrow> active_admin row \<Longrightarrow> us_id row = uid \<Longrightarrow> bootstrap_id s = None \<Longrightarrow>
         rel s (s\<lparr>bootstrap_id := Some uid\<rparr>)"
begin

lemma find_evolves [evolves_rules]: "evolves rel (find_user key)" "evolves rel (find_user_id uid)"
  by (simp_all add: find_user_def find_user_id_def evolves_reading)

lemma write_tx_evolves [evolves_rules]: "evolves rel m \<Longrightarrow> evolves rel (write_tx m)"
  unfolding write_tx_def by (rule evolves_transaction) (auto intro: rel_refl)

lemma auth_audit_evolves [evolves_rules]: "evolves rel (auth_audit now action uid name client detail)"
  unfolding auth_audit_def by (rule evolves_writing) (rule event_logged, simp)

lemma revoke_sessions_evolves [evolves_rules]: "evolves rel (revoke_sessions now uid)"
  using user_revoked by (simp add: evolves_def revoke_sessions_def revoke_user_def)

lemma insert_user_evolves: "user_ok u \<Longrightarrow> evolves rel (insert_user u)"
  by (auto simp: evolves_def insert_user_def insert_row_def rel_refl user_added split: option.split)

lemma insert_session_evolves: "session_ok e x \<Longrightarrow> evolves rel (insert_session x)"
  by (auto simp: evolves_def insert_session_def insert_row_def rel_refl session_added split: option.split)

lemma read_back_evolves [evolves_rules]: "evolves rel (read_back uid)"
  unfolding read_back_def by (intro evolves_rules)

text \<open>Methods that look a user up and go on with the row.\<close>

lemma with_user_evolves:
  assumes "\<And>row s. row \<in> set (users s) \<Longrightarrow> rel s (snd (body row s))"
  shows "evolves rel (bind (find_user key) (\<lambda>r. bind (the_row err r) body))"
proof -
  have "rel s (snd (bind (find_user key) (\<lambda>r. bind (the_row err r) body) s))" for s
  proof (cases "find (\<lambda>u. ur_key u = key) (users s)")
    case (Some row)
    then show ?thesis using assms find_Some_mem [OF Some] by simp
  qed (simp add: raise_def rel_refl)
  then show ?thesis by (simp add: evolves_def)
qed

lemma after_change:
  assumes "row \<in> set (users s)" "\<And>u. user_kept u (f u)" "user_ok row \<Longrightarrow> user_ok (f row)"
    and "admin_safe s row (f row)" "evolves rel m"
  shows "rel s (snd (bind (update_users (us_id row) f) (\<lambda>_. m) s))"
  using rel_trans [OF user_changed [OF assms(1-4)]] assms(5) by (simp add: evolves_def)

lemma ensured:
  assumes row: "row \<in> set (users s)"
    and step: "(active_admin row \<Longrightarrow> \<not> (next_active \<and> next_role = Admin) \<Longrightarrow>
      \<exists>w \<in> set (users s). active_admin w \<and> us_id w \<noteq> us_id row) \<Longrightarrow> rel s (snd (m s))"
  shows "rel s (snd (bind (ensure_active_admin_remains row next_active next_role) (\<lambda>_. m) s))"
proof (cases "active_admin row \<and> \<not> (next_active \<and> next_role = Admin)")
  case True
  then have run: "ensure_active_admin_remains row next_active next_role = bind
      (reading (\<lambda>s. list_ex (\<lambda>u. us_active u \<and> us_role u = Admin \<and> us_id u \<noteq> us_id row) (users s)))
      (\<lambda>replaced. require replaced Last_Active_Admin)"
    by (auto simp: ensure_active_admin_remains_def active_admin_def)
  show ?thesis
  proof (cases "list_ex (\<lambda>u. us_active u \<and> us_role u = Admin \<and> us_id u \<noteq> us_id row) (users s)")
    case True
    then have "\<exists>w \<in> set (users s). active_admin w \<and> us_id w \<noteq> us_id row"
      by (auto simp: list_ex_iff active_admin_def)
    with step True show ?thesis by (simp add: run bind_assoc bind_require)
  qed (simp add: run bind_assoc bind_require raise_def rel_refl)
next
  case False
  then have "ensure_active_admin_remains row next_active next_role = ret ()"
    by (auto simp: ensure_active_admin_remains_def active_admin_def)
  then show ?thesis using step False by simp
qed

lemma flags_ok: "credential_flags fresh must demo = Inr flags \<Longrightarrow> snd flags \<longrightarrow> fst flags"
  by (auto simp: credential_flags_def Let_def split: if_splits)

lemma store_password_evolves:
  assumes "row \<in> set (users s)" "credential_flags fresh must demo = Inr flags"
  shows "rel s (snd (store_password now row salt hash flags (policy_version e' fresh) action s))"
proof -
  have rest: "evolves rel (bind (revoke_sessions now (us_id row)) (\<lambda>_.
      auth_audit now action (Some (us_id row)) (Some (us_name row)) None (JObj [])))"
    by (intro evolves_rules)
  show ?thesis unfolding store_password_def
    by (rule after_change [OF assms(1) _ _ _ rest])
       (use flags_ok [OF assms(2)] policy_version_cases [of e' fresh] in
         \<open>simp_all add: user_kept_def user_ok_def admin_safe_def active_admin_def\<close>)
qed

lemma change_password_evolves [evolves_rules]:
  "evolves rel (change_password e' now salt username current fresh)"
  unfolding change_password_def
  by (rule checked_then evolves_case_prod write_tx_evolves with_user_evolves checked_at require_at
        store_password_evolves | assumption)+

lemma reset_password_evolves [evolves_rules]:
  "evolves rel (reset_password e' now salt username fresh must demo strict)"
  unfolding reset_password_def
  by (rule write_tx_evolves with_user_evolves checked_then evolves_case_prod store_password_evolves
        evolves_require evolves_if checked_evolves evolves_ret evolves_bind | assumption)+

lemma set_user_active_evolves [evolves_rules]: "evolves rel (set_user_active e' now username active)"
  unfolding set_user_active_def
  by (rule checked_then evolves_case_prod write_tx_evolves with_user_evolves ensured after_change
        | assumption | (intro evolves_rules)[1]
        | (auto simp: user_kept_def user_ok_def admin_safe_def active_admin_def)[1])+

lemma update_user_access_evolves [evolves_rules]:
  "evolves rel (update_user_access e' now username role_name mines)"
  unfolding update_user_access_def
  by (rule checked_then evolves_case_prod write_tx_evolves with_user_evolves ensured after_change
        | assumption | (intro evolves_rules)[1]
        | (auto simp: user_kept_def user_ok_def admin_safe_def active_admin_def dest!: normalise_scopes_ok)[1])+

lemma as_conflict_evolves: "evolves rel m \<Longrightarrow> evolves rel (as_conflict m)"
  by (auto simp: evolves_def as_conflict_def split: prod.split sum.split) (metis snd_conv)+

lemma create_user_evolves [evolves_rules]:
  "evolves rel (create_user e' now uid salt username password role_name mines active must demo)"
  unfolding create_user_def Let_def
  by (rule checked_then evolves_case_prod as_conflict_evolves write_tx_evolves evolves_bind
        insert_user_evolves new_user_ok auth_audit_evolves read_back_evolves
        | assumption | (drule normalise_scopes_ok, assumption))+

text \<open>The first user is an active administrator when it becomes the bootstrap user.\<close>

lemma bootstrap_evolves [evolves_rules]:
  "evolves rel (bootstrap_admin e' now uid salt username password must demo)"
proof -
  have first: "rel s (snd (bind (insert_user u) (\<lambda>_.
       bind (writing (\<lambda>s. s\<lparr>bootstrap_id := Some uid\<rparr>)) (\<lambda>_.
       bind (auth_audit now ''bootstrap_admin'' (Some uid) (Some display) None (JObj [])) (\<lambda>_.
       read_back uid))) s))" (is "rel s (snd (bind _ (\<lambda>_. bind _ (\<lambda>_. ?rest)) s))")
    if "user_ok u" "active_admin u" "us_id u = uid" "bootstrap_id s = None" for s and u :: user_row and display
  proof (cases "list_ex (user_clash u) (users s)")
    case False
    let ?s = "s\<lparr>users := users s @ [u]\<rparr>"
    have "rel s (?s\<lparr>bootstrap_id := Some uid\<rparr>)"
      using rel_trans [OF user_added [OF that(1) False] bootstrapped [of u ?s]] that by simp
    moreover have "evolves rel ?rest" by (intro evolves_rules)
    ultimately have "rel s (snd (?rest (?s\<lparr>bootstrap_id := Some uid\<rparr>)))"
      using rel_trans by (auto simp: evolves_def)
    then show ?thesis using False by (simp add: bind_def [of "insert_user u"] insert_user_def insert_row_def)
  qed (simp add: bind_def [of "insert_user u"] insert_user_def insert_row_def rel_refl)
  show ?thesis unfolding bootstrap_admin_def
  proof (rule checked_then evolves_case_prod write_tx_evolves)+
    fix display key flags
    assume flags: "credential_flags password must demo = Inr flags"
    show "evolves rel (bind (reading users) (\<lambda>rows. bind (reading bootstrap_id) (\<lambda>known.
       case known of
         Some owner \<Rightarrow>
           bind (find_user_id owner) (\<lambda>r. bind (the_row Bootstrap_Conflict r) (\<lambda>m.
           bind (require (ur_key m = key) Bootstrap_Conflict) (\<lambda>_.
           bind (checked (password_digest e' password (ur_salt m))) (\<lambda>candidate.
           bind (require (candidate = ur_hash m \<and> us_role m = Admin \<and> us_active m)
             Bootstrap_Conflict) (\<lambda>_. checked (row_to_user m))))))
       | None \<Rightarrow>
           bind (require (rows = []) Bootstrap_Conflict) (\<lambda>_.
           bind (checked (password_digest e' password salt)) (\<lambda>hash.
           bind (insert_user (new_user uid display key Admin [] True salt hash flags
             (policy_version e' password) now)) (\<lambda>_.
           bind (writing (\<lambda>s. s\<lparr>bootstrap_id := Some uid\<rparr>)) (\<lambda>_.
           bind (auth_audit now ''bootstrap_admin'' (Some uid) (Some display) None (JObj [])) (\<lambda>_.
           read_back uid)))))))) "
      (is "evolves rel (bind _ (\<lambda>rows. bind _ (\<lambda>known. ?next rows known)))")
    proof -
      have "evolves rel (?next rows (Some owner))" for rows owner by (simp, intro evolves_rules)
      moreover have "rel s (snd (?next rows None s))" if "bootstrap_id s = None" for rows s
        using that new_user_ok [OF flags]
        by (simp, intro require_at checked_at first)
           (simp_all add: active_admin_def new_user_def)
      ultimately have "rel s (snd (?next rows (bootstrap_id s) s))" for rows s
        by (cases "bootstrap_id s") (simp_all add: evolves_def)
      then show ?thesis unfolding evolves_def by simp
    qed
  qed
qed

lemma touched_rel: "row \<in> set (sessions s) \<Longrightarrow> rel s (touched e now row s)"
  unfolding touched_def by (rule session_changed) (simp_all add: session_kept_def session_ok_def)

lemma expired_rel: "row \<in> set (sessions s) \<Longrightarrow> rel s (change_session (se_id row) (revoke now) s)"
  by (rule session_changed) (simp_all add: session_kept_def session_ok_def revoke_def)

lemma authenticate_in_evolves [evolves_rules]:
  "evolves rel (authenticate_in_transaction e now token touch)"
proof (rule evolvesI)
  fix s r t
  assume "authenticate_in_transaction e now token touch s = (r, t)"
  then show "rel s t"
    by (cases rule: authenticate_cases) (auto simp: rel_refl expired_rel touched_rel dest!: alive_mem)
qed

lemma authenticate_evolves [evolves_rules]: "evolves rel (authenticate e now token touch)"
  unfolding authenticate_def by (intro evolves_rules)

lemma validate_csrf_evolves [evolves_rules]: "evolves rel (validate_csrf e now token header http_method)"
  unfolding validate_csrf_def by (intro evolves_rules)

lemma issue_csrf_evolves [evolves_rules]: "evolves rel (issue_csrf e now later csrf token)"
  unfolding issue_csrf_def
proof (rule write_tx_evolves, rule evolvesI)
  fix s r t
  let ?next = "\<lambda>p row. bind (update_session (se_id row) (\<lambda>x. x\<lparr>sr_csrf := sha256_hex e csrf\<rparr>)) (\<lambda>_.
       bind (auth_audit later ''csrf_rotated'' (Some (pr_user p)) (Some (pr_name p)) None
         (session_json (pr_session p))) (\<lambda>_. ret (p, csrf)))"
  assume run: "bind (authenticate_in_transaction e now token True) (\<lambda>(p, row). ?next p row) s = (r, t)"
  obtain q u where q: "authenticate_in_transaction e now token True s = (q, u)" by fastforce
  show "rel s t"
  proof (cases q)
    case (Inl x)
    then show ?thesis using run q evolvesD [OF authenticate_in_evolves q] by (simp add: bind_def)
  next
    case (Inr a)
    obtain p row where a: "a = (p, row)" by (cases a)
    then have row: "row \<in> set (sessions s)" and u: "u = touched e now row s"
      using q Inr by (auto elim!: authenticate_cases dest!: alive_mem)
    let ?row = "row\<lparr>se_seen := now, se_idle := min (se_absolute row) (now + micros (idle_timeout e))\<rparr>"
    have "?row \<in> set (sessions u)" using row by (auto simp: u touched_def change_session_def)
    then have "rel u (change_session (se_id ?row) (\<lambda>x. x\<lparr>sr_csrf := sha256_hex e csrf\<rparr>) u)"
      by (rule session_changed) (simp_all add: session_kept_def session_ok_def)
    moreover have "evolves rel (bind (auth_audit later ''csrf_rotated'' (Some (pr_user p))
        (Some (pr_name p)) None (session_json (pr_session p))) (\<lambda>_. ret (p, csrf)))"
      by (intro evolves_rules)
    moreover have "?next p row u = (r, t)" using run q Inr a by (simp add: bind_def)
    ultimately have "rel u t" by (auto dest: evolvesD intro: rel_trans)
    then show ?thesis using rel_trans [OF touched_rel [OF row]] u by simp
  qed
qed

lemma logout_evolves [evolves_rules]: "evolves rel (logout e' now token)"
proof -
  have "rel s (snd (bind (update_session (se_id row) (revoke now)) (\<lambda>_. auth_audit now action uid name client detail) s))"
    if "row \<in> set (sessions s)" for s row action uid name client detail
    unfolding bind_update_session
    by (rule rel_trans [OF expired_rel [OF that, of now]]) (use auth_audit_evolves in \<open>simp add: evolves_def\<close>)
  then show ?thesis unfolding logout_def
    by (intro write_tx_evolves)
       (auto simp: evolves_def rel_refl ret_def split: option.split dest: find_Some_mem)
qed

lemma revoke_all_evolves [evolves_rules]: "evolves rel (revoke_all e' now username)"
  unfolding revoke_all_def by (intro evolves_rules)

lemma record_event_evolves [evolves_rules]: "evolves rel (record_audit_event now action p client detail)"
  unfolding record_audit_event_def by (intro evolves_rules)

lemma open_session_evolves [evolves_rules]: "evolves rel (open_session e c row)"
  unfolding open_session_def by (intro evolves_rules insert_session_evolves new_session_ok)

lemma call_rel: "auth_call e s t \<Longrightarrow> rel s t"
  by (elim auth_callE; erule evolvesD [rotated]; intro evolves_rules)

lemma login_step_rel: "login_step e c ph (s, l) = (ph', t, l') \<Longrightarrow> rel s t"
proof (cases ph)
  case (At_Open u)
  then show "login_step e c ph (s, l) = (ph', t, l') \<Longrightarrow> rel s t"
    using evolvesD [OF open_session_evolves] by (auto split: prod.splits sum.splits)
next
  case (At_Failure_Log display)
  then show "login_step e c ph (s, l) = (ph', t, l') \<Longrightarrow> rel s t"
    using evolvesD [OF write_tx_evolves [OF auth_audit_evolves]] by (auto split: prod.splits sum.splits)
qed (auto simp: Let_def rel_refl split: prod.splits sum.splits option.splits if_splits)

lemma step_rel: "auth_step e s t \<Longrightarrow> rel (as_db s) (as_db t)"
  by (elim auth_stepE) (auto intro: rel_refl call_rel login_step_rel)

lemma steps_rel: "(auth_step e)\<^sup>*\<^sup>* s t \<Longrightarrow> rel (as_db s) (as_db t)"
  by (induction rule: rtranclp_induct) (auto intro: rel_refl rel_trans step_rel)

end

section \<open>The history of the tables\<close>

text \<open>Rows are never deleted, identities never change, a revoked session stays revoked.\<close>

definition auth_history :: "auth_db \<Rightarrow> auth_db \<Rightarrow> bool" where
  "auth_history s t \<longleftrightarrow> grown user_kept (users s) (users t)
     \<and> grown session_kept (sessions s) (sessions t) \<and> prefix (audit_events s) (audit_events t)
     \<and> (bootstrap_id s \<noteq> None \<longrightarrow> bootstrap_id t = bootstrap_id s)"

lemma user_kept_refl: "user_kept u u"
  and user_kept_trans: "user_kept u v \<Longrightarrow> user_kept v w \<Longrightarrow> user_kept u w"
  by (auto simp: user_kept_def)

lemma session_kept_refl: "session_kept x x"
  and session_kept_trans: "session_kept x y \<Longrightarrow> session_kept y z \<Longrightarrow> session_kept x z"
  by (auto simp: session_kept_def)

lemmas auth_history_rules =
  grown_refl [of user_kept, OF user_kept_refl] grown_refl [of session_kept, OF session_kept_refl]
  grown_append [of user_kept, OF user_kept_refl] grown_append [of session_kept, OF session_kept_refl]

interpretation history: auth_relation auth_history e for e
proof unfold_locales
  show "auth_history s u" if "auth_history s t" "auth_history t u" for s t u
    using that unfolding auth_history_def
    by (elim conjE, intro conjI)
       (assumption | rule grown_trans [OF user_kept_trans] grown_trans [OF session_kept_trans]
         prefix_order.trans | simp)+
  show "auth_history s (change_users (us_id row) f s)"
    if "\<And>u. user_kept u (f u)" for s f and row :: user_row
    using that
    by (auto simp: auth_history_def change_users_def user_kept_refl intro!: auth_history_rules grown_map)
  show "auth_history s (change_session (se_id x) g s)"
    if "\<And>y. session_kept y (g y)" for s g and x :: session_row
    using that
    by (auto simp: auth_history_def change_session_def session_kept_refl intro!: auth_history_rules grown_map)
  show "auth_history s (revoke_user now uid s)" for s now uid
    by (simp add: auth_history_def revoke_user_def auth_history_rules)
       (rule grown_map, simp add: session_kept_def revoke_def)
qed (simp_all add: auth_history_def auth_history_rules)

end
