(* ===== verification/Auth_Invariant.thy ===== *)
theory Auth_Invariant
  imports Auth_Steps
begin

text \<open>
  The invariant of the database: unique keys, sessions of known users with their expiry times,
  well-formed users, the sequence of the audit log, and an active administrator once the store is
  bootstrapped. Then what a lost session or a running login means in any reachable state.
\<close>

definition auth_keys_ok :: "auth_db \<Rightarrow> bool" where
  "auth_keys_ok s \<longleftrightarrow> distinct (map us_id (users s)) \<and> distinct (map ur_key (users s))
     \<and> distinct (map se_id (sessions s)) \<and> distinct (map sr_token (sessions s))
     \<and> se_user ` set (sessions s) \<subseteq> us_id ` set (users s)"

definition rows_ok :: "auth_env \<Rightarrow> auth_db \<Rightarrow> bool" where
  "rows_ok e s \<longleftrightarrow> (\<forall>u \<in> set (users s). user_ok u) \<and> (\<forall>x \<in> set (sessions s). session_ok e x)"

definition admin_present :: "auth_db \<Rightarrow> bool" where
  "admin_present s \<longleftrightarrow> (bootstrap_id s \<noteq> None \<longrightarrow> (\<exists>u \<in> set (users s). active_admin u))"

definition log_ok :: "auth_db \<Rightarrow> bool" where
  "log_ok s \<longleftrightarrow> map ae_seq (audit_events s) = [1 ..< Suc (length (audit_events s))]"

definition auth_ok :: "auth_env \<Rightarrow> auth_db \<Rightarrow> bool" where
  "auth_ok e s \<longleftrightarrow> auth_keys_ok s \<and> rows_ok e s \<and> admin_present s \<and> log_ok s"

lemma next_sequence_log: "log_ok s \<Longrightarrow> next_sequence ae_seq (audit_events s) = Suc (length (audit_events s))"
proof -
  have "fold max [1 ..< Suc n] 0 = n" for n by (induction n) auto
  then show "log_ok s \<Longrightarrow> ?thesis" by (simp add: log_ok_def next_sequence_def del: upt_Suc)
qed

section \<open>Every write keeps the invariant\<close>

lemma user_changed_ok:
  fixes row :: user_row
  assumes ok: "auth_ok e s" and row: "row \<in> set (users s)" and kept: "\<And>u. user_kept u (f u)"
    and wf: "user_ok row \<Longrightarrow> user_ok (f row)" and safe: "admin_safe s row (f row)"
  shows "auth_ok e (change_users (us_id row) f s)"
proof -
  let ?g = "\<lambda>u :: user_row. if us_id u = us_id row then f u else u"
  have ids: "us_id (?g u) = us_id u" "ur_key (?g u) = ur_key u" for u
    using kept [of u] by (simp_all add: user_kept_def)
  have same: "map us_id (map ?g (users s)) = map us_id (users s)"
    "map ur_key (map ?g (users s)) = map ur_key (users s)"
    "us_id ` ?g ` set (users s) = us_id ` set (users s)"
    by (simp_all only: map_map comp_def image_image ids)
  have tables: "users (change_users (us_id row) f s) = map ?g (users s)"
    "sessions (change_users (us_id row) f s) = sessions s" by (simp_all add: change_users_def)
  have "auth_keys_ok (change_users (us_id row) f s)"
    unfolding auth_keys_ok_def tables set_map same using ok by (simp add: auth_ok_def auth_keys_ok_def)
  moreover have only: "u = row" if "u \<in> set (users s)" "us_id u = us_id row" for u
    using ok that row same_key [of us_id "users s" u row] by (simp add: auth_ok_def auth_keys_ok_def)
  then have "rows_ok e (change_users (us_id row) f s)"
    using ok wf row unfolding auth_ok_def rows_ok_def change_users_def by auto
  moreover have "admin_present (change_users (us_id row) f s)"
    unfolding admin_present_def
  proof
    assume "bootstrap_id (change_users (us_id row) f s) \<noteq> None"
    then obtain w where w: "w \<in> set (users s)" "active_admin w"
      using ok by (auto simp: auth_ok_def admin_present_def change_users_def)
    have "\<exists>w \<in> set (users s). active_admin (?g w)"
    proof (cases "us_id w = us_id row")
      case False
      then show ?thesis using w by (intro bexI [of _ w]) simp_all
    next
      case True
      with only w have "active_admin row" by blast
      with safe show ?thesis using row
        by (auto simp: admin_safe_def intro: bexI [of _ row])
    qed
    then obtain w where "w \<in> set (users s)" "active_admin (?g w)" by blast
    moreover from this(1) have "?g w \<in> set (users (change_users (us_id row) f s))"
      unfolding tables set_map by (rule imageI)
    ultimately show "\<exists>u \<in> set (users (change_users (us_id row) f s)). active_admin u" by blast
  qed
  moreover have "log_ok (change_users (us_id row) f s)"
    using ok by (simp add: auth_ok_def log_ok_def change_users_def)
  ultimately show ?thesis by (simp add: auth_ok_def)
qed

lemma sessions_mapped_ok:
  assumes ok: "auth_ok e s" and kept: "\<And>x. session_kept x (g x)"
    and wf: "\<And>x. x \<in> set (sessions s) \<Longrightarrow> session_ok e x \<Longrightarrow> session_ok e (g x)"
  shows "auth_ok e (s\<lparr>sessions := map g (sessions s)\<rparr>)"
proof -
  have "se_id (g x) = se_id x" "sr_token (g x) = sr_token x" "se_user (g x) = se_user x" for x
    using kept [of x] by (simp_all add: session_kept_def)
  then show ?thesis using ok wf
    by (simp add: auth_ok_def auth_keys_ok_def rows_ok_def admin_present_def log_ok_def comp_def image_image)
qed

lemma session_changed_ok:
  assumes "auth_ok e s" "x \<in> set (sessions s)" "\<And>y. session_kept y (g y)"
    and "session_ok e x \<Longrightarrow> session_ok e (g x)"
  shows "auth_ok e (change_session (se_id x) g s)"
  unfolding change_session_def
proof (rule sessions_mapped_ok [OF assms(1)])
  fix y
  show "session_kept y (if se_id y = se_id x then g y else y)"
    using assms(3) by (simp add: session_kept_refl)
  assume "y \<in> set (sessions s)" "session_ok e y"
  then show "session_ok e (if se_id y = se_id x then g y else y)"
    using assms same_key [of se_id "sessions s" y x] by (auto simp: auth_ok_def auth_keys_ok_def)
qed

interpretation kept: auth_relation "keeps (auth_ok e)" e for e
proof unfold_locales
  show "keeps (auth_ok e) s (s\<lparr>users := users s @ [u]\<rparr>)"
    if "user_ok u" "\<not> list_ex (user_clash u) (users s)" for s u
    using that
    by (auto simp: keeps_def auth_ok_def auth_keys_ok_def rows_ok_def admin_present_def log_ok_def
        user_clash_def list_ex_iff)
  show "keeps (auth_ok e) s (s\<lparr>sessions := sessions s @ [x]\<rparr>)"
    if "session_ok e x" "list_ex (\<lambda>u. us_id u = se_user x) (users s)"
      "\<not> list_ex (session_clash x) (sessions s)" for s x
  proof -
    have "se_user x \<in> us_id ` set (users s)" using that(2) by (force simp: list_ex_iff)
    with that(1,3) show ?thesis
      by (auto simp: keeps_def auth_ok_def auth_keys_ok_def rows_ok_def admin_present_def log_ok_def
        session_clash_def list_ex_iff)
  qed
  show "keeps (auth_ok e) s (revoke_user now uid s)" for s now uid
    unfolding keeps_def revoke_user_def
    by (auto intro!: sessions_mapped_ok simp: session_kept_def session_ok_def revoke_def)
  show "keeps (auth_ok e) s (s\<lparr>audit_events := audit_events s @ [a]\<rparr>)"
    if "ae_seq a = next_sequence ae_seq (audit_events s)" for s a
  proof -
    have "ae_seq a = Suc (length (audit_events s))" if "log_ok s"
      using next_sequence_log [OF that] \<open>ae_seq a = _\<close> by simp
    then show ?thesis
      by (auto simp: keeps_def auth_ok_def auth_keys_ok_def rows_ok_def admin_present_def log_ok_def)
  qed
  show "keeps (auth_ok e) s (change_users (us_id row) f s)"
    if "row \<in> set (users s)" "\<And>u. user_kept u (f u)" "user_ok row \<Longrightarrow> user_ok (f row)"
      "admin_safe s row (f row)" for s f and row :: user_row
    unfolding keeps_def using user_changed_ok [OF _ that] by blast
  show "keeps (auth_ok e) s (change_session (se_id x) g s)"
    if "x \<in> set (sessions s)" "\<And>y. session_kept y (g y)" "session_ok e x \<Longrightarrow> session_ok e (g x)"
    for s g and x :: session_row
    unfolding keeps_def using session_changed_ok [OF _ that] by blast
  show "keeps (auth_ok e) s (s\<lparr>bootstrap_id := Some uid\<rparr>)"
    if "row \<in> set (users s)" "active_admin row" for s uid and row :: user_row
    unfolding keeps_def auth_ok_def auth_keys_ok_def rows_ok_def admin_present_def log_ok_def
    using that by auto
qed (auto simp: keeps_def)

lemma start_ok: "auth_ok e new_auth_db"
  by (simp add: auth_ok_def auth_keys_ok_def rows_ok_def admin_present_def log_ok_def new_auth_db_def)

lemma store_reachable_ok: "auth_reachable e s \<Longrightarrow> auth_ok e (as_db s)"
proof (induction rule: auth_reachable.induct)
  case start
  then show ?case by (simp add: auth_start_def start_ok)
next
  case (step s t)
  then show ?case using kept.step_rel by (auto simp: keeps_def)
qed

lemma steps_ok: "(auth_step e)\<^sup>*\<^sup>* s t \<Longrightarrow> auth_ok e (as_db s) \<Longrightarrow> auth_ok e (as_db t)"
  using kept.steps_rel by (auto simp: keeps_def)

section \<open>Lost sessions\<close>

text \<open>No token of a session that is revoked is accepted, now or later.\<close>

lemma find_token: "auth_keys_ok s \<Longrightarrow> x \<in> set (sessions s) \<Longrightarrow>
    find (\<lambda>y. sr_token y = sr_token x) (sessions s) = Some x"
proof -
  assume ok: "auth_keys_ok s" and x: "x \<in> set (sessions s)"
  then obtain y where y: "find (\<lambda>y. sr_token y = sr_token x) (sessions s) = Some y"
    by (cases "find (\<lambda>y. sr_token y = sr_token x) (sessions s)") (auto simp: find_None_iff)
  moreover have "y = x"
    using ok x find_Some_mem [OF y] same_key [of sr_token "sessions s"] by (auto simp: auth_keys_ok_def)
  ultimately show ?thesis by simp
qed

lemma find_owner:
  assumes "auth_keys_ok s" "x \<in> set (sessions s)"
  obtains u where "find (\<lambda>u. us_id u = se_user x) (users s) = Some u" "u \<in> set (users s)"
proof (cases "find (\<lambda>u. us_id u = se_user x) (users s)")
  case None
  have "se_user x \<in> us_id ` set (users s)" using assms unfolding auth_keys_ok_def by blast
  then show thesis using None by (auto simp: find_None_iff)
next
  case (Some u)
  then show thesis using that find_Some_mem [OF Some] by blast
qed

lemma revoked_refused:
  assumes "auth_keys_ok s" "x \<in> set (sessions s)" "se_revoked x \<noteq> None" "sr_token x = sha256_hex e token"
  shows "authenticate_in_transaction e now token touch s = (Inl Invalid_Session, s)"
proof -
  obtain u where "find (\<lambda>u. us_id u = se_user x) (users s) = Some u"
    using find_owner [OF assms(1,2)] by blast
  moreover obtain since where "se_revoked x = Some since" using assms(3) by blast
  ultimately show ?thesis
    using find_token [OF assms(1,2)] assms(4)
    by (simp add: authenticate_in_transaction_def bind_require raise_def)
qed

definition gone :: "session_row \<Rightarrow> auth_db \<Rightarrow> bool" where
  "gone x s \<longleftrightarrow> (\<exists>y \<in> set (sessions s). sr_token y = sr_token x \<and> se_revoked y \<noteq> None)"

lemma gone_later: "gone x s \<Longrightarrow> auth_history s t \<Longrightarrow> gone x t"
  unfolding gone_def auth_history_def by (fastforce dest: grown_mem simp: session_kept_def)

lemma gone_refused:
  assumes "gone x s" "auth_ok e s" "sr_token x = sha256_hex e token"
  shows "authenticate_in_transaction e now token touch s = (Inl Invalid_Session, s)"
  using assms revoked_refused unfolding gone_def auth_ok_def by (metis (no_types, lifting))

end
