(* ===== verification/Auth_Properties.thy ===== *)
theory Auth_Properties
  imports Auth_Invariant
begin

text \<open>
  The properties of the authentication store: who remains administrator, what a granted request
  rests on, when sessions end, and how many passwords can be tried.
\<close>

section \<open>Who is let in\<close>

lemma principal_of_Inr: "principal_of u sid = Inr p \<Longrightarrow>
    pr_active p \<and> pr_role p = us_role u \<and> pr_scopes p = us_scopes u \<and> pr_user p = us_id u"
  by (auto simp: principal_of_def split: if_splits)

lemma authenticate_Inr:
  assumes "authenticate e now token touch s = (Inr p, t)"
  obtains x u where "alive e now token s x u" "principal_of u (se_id x) = Inr p"
proof -
  obtain q where "authenticate_in_transaction e now token touch s = (Inr q, t)" "fst q = p"
    using assms unfolding authenticate_def bind_require
    by (auto simp: write_tx_Inr ret_def raise_def split: if_splits prod.splits elim!: bind_InrE)
  then show thesis by (elim authenticate_cases) (auto intro: that)
qed

lemma validate_csrf_Inr:
  assumes "validate_csrf e now token header http_method s = (Inr p, t)"
  obtains x u where "alive e now token s x u" "principal_of u (se_id x) = Inr p"
    and "uppercase e http_method \<in> set safe_methods \<or> (\<exists>h. header = Some h \<and> h \<noteq> [] \<and> sr_csrf x = sha256_hex e h)"
proof (cases "uppercase e http_method \<in> set safe_methods")
  case True
  then show thesis using assms that by (auto simp: validate_csrf_def elim!: authenticate_Inr)
next
  case False
  then obtain h where h: "header = Some h" "h \<noteq> []"
    using assms by (auto simp: validate_csrf_def raise_def split: option.splits if_splits)
  obtain q where q: "authenticate_in_transaction e now token True s = (Inr q, t)" "fst q = p"
    "sr_csrf (snd q) = sha256_hex e h"
    using assms False h unfolding validate_csrf_def
    by (auto simp: write_tx_Inr bind_require ret_def raise_def split: if_splits prod.splits elim!: bind_InrE)
  from q(1) show thesis using that q(2,3) h by (elim authenticate_cases) auto
qed

lemma alive_lifetime:
  assumes "auth_ok e s" "alive e now token s x u"
  shows "now < se_created x + micros (absolute_timeout e)" "now < se_seen x + micros (idle_timeout e)"
proof -
  have "session_ok e x" using assms alive_mem [OF assms(2)] by (auto simp: auth_ok_def rows_ok_def)
  then show "now < se_created x + micros (absolute_timeout e)" "now < se_seen x + micros (idle_timeout e)"
    using assms(2) by (auto simp: session_ok_def absolute_expiry_def alive_def)
qed

text \<open>C12: While authentication is required, \<open>_require_authenticated\<close> lets a request through only
  when the store has a session with the digest of the token in its cookie that has not been
  revoked, is younger than the absolute limit and was used within the idle limit, of a user who is
  active now; and, where the handler asks for it and the method is not safe, when the header has
  the digest of the CSRF token the session was given last. Every permission a handler then asks
  \<open>_require_permission\<close> for is granted only if the role this user had at that moment has it and
  the user was administrator or had the mine in scope. A handler that asks for no permission
  (\<open>/v1/auth/me\<close>, the logout, the change of a password) rests on the first part alone, and with
  authentication switched off neither gate is asked.
\<close>

theorem granted_requests_are_authorized:
  assumes reachable: "auth_reachable e s"
    and authenticated: "require_authenticated e now cookie csrf header http_method (as_db s) = (Granted p, t)"
  shows "\<exists>token x u. cookie = Some token \<and> x \<in> set (sessions (as_db s)) \<and> u \<in> set (users (as_db s))
     \<and> sr_token x = sha256_hex e token \<and> se_user x = us_id u \<and> se_revoked x = None \<and> us_active u
     \<and> now < se_created x + micros (absolute_timeout e) \<and> now < se_seen x + micros (idle_timeout e)
     \<and> pr_user p = us_id u
     \<and> (csrf \<longrightarrow> uppercase e http_method \<in> set safe_methods
        \<or> (\<exists>h. header = Some h \<and> h \<noteq> [] \<and> sr_csrf x = sha256_hex e h))
     \<and> (\<forall>later client requested mine t' q t''.
          require_permission later client p requested mine t' = (Granted q, t'') \<longrightarrow>
          q = p
          \<and> (\<exists>wanted. permission_of_text requested = Some wanted \<and> wanted \<in> set (role_permissions (us_role u)))
          \<and> (us_role u = Admin \<or> (\<exists>m. mine = Some m \<and> m \<in> set (us_scopes u))))"
proof -
  obtain token where token: "cookie = Some token"
    and run: "(if csrf then validate_csrf e now token header http_method (as_db s)
       else authenticate e now token True (as_db s)) = (Inr p, t)"
    using authenticated
    by (auto simp: require_authenticated_def split: option.splits if_splits prod.splits sum.splits)
  have "\<exists>x u. alive e now token (as_db s) x u \<and> principal_of u (se_id x) = Inr p
    \<and> (csrf \<longrightarrow> uppercase e http_method \<in> set safe_methods
        \<or> (\<exists>h. header = Some h \<and> h \<noteq> [] \<and> sr_csrf x = sha256_hex e h))"
  proof (cases csrf)
    case True
    with run have "validate_csrf e now token header http_method (as_db s) = (Inr p, t)" by simp
    then show ?thesis by (rule validate_csrf_Inr) blast
  next
    case False
    with run have "authenticate e now token True (as_db s) = (Inr p, t)" by simp
    then show ?thesis by (rule authenticate_Inr) (use False in blast)
  qed
  then obtain x u where alive: "alive e now token (as_db s) x u" and p: "principal_of u (se_id x) = Inr p"
    and csrf: "csrf \<longrightarrow> uppercase e http_method \<in> set safe_methods
        \<or> (\<exists>h. header = Some h \<and> h \<noteq> [] \<and> sr_csrf x = sha256_hex e h)" by blast
  have permitted: "q = p
      \<and> (\<exists>wanted. permission_of_text requested = Some wanted \<and> wanted \<in> set (role_permissions (us_role u)))
      \<and> (us_role u = Admin \<or> (\<exists>m. mine = Some m \<and> m \<in> set (us_scopes u)))"
    if "require_permission later client p requested mine t' = (Granted q, t'')"
    for later client requested mine t' q t''
  proof -
    have "authorize p requested mine = Inr ()" and "q = p"
      using that by (auto simp: require_permission_def split: sum.splits if_splits)
    then show ?thesis using principal_of_Inr [OF p] by (auto simp: authorize_ok)
  qed
  note lifetime = alive_lifetime [OF store_reachable_ok [OF reachable] alive]
  have "se_revoked x = None" "us_active u" using alive by (simp_all add: alive_def)
  then show ?thesis
    using token csrf alive_mem [OF alive] lifetime principal_of_Inr [OF p] permitted
    by (intro exI [of _ token] exI [of _ x] exI [of _ u]) simp
qed

text \<open>C13: Once the store is bootstrapped, some active user is an administrator, whatever calls and
  logins have run in whatever order.
\<close>

theorem active_admin_remains:
  assumes "auth_reachable e s" "bootstrap_id (as_db s) \<noteq> None"
  shows "\<exists>u \<in> set (users (as_db s)). us_active u \<and> us_role u = Admin"
  using store_reachable_ok [OF assms(1)] assms(2)
  by (auto simp: auth_ok_def admin_present_def active_admin_def)

section \<open>The end of sessions\<close>

text \<open>The calls that end all sessions of a user.\<close>

inductive evicts :: "auth_env \<Rightarrow> string \<Rightarrow> auth_db \<Rightarrow> auth_db \<Rightarrow> bool" for e :: auth_env and name :: string where
  disabled: "set_user_active e now name False s = (Inr v, t) \<Longrightarrow> evicts e name s t"
| reassigned: "update_user_access e now name role_name mines s = (Inr v, t) \<Longrightarrow> evicts e name s t"
| changed: "change_password e now salt name current fresh s = (Inr w, t) \<Longrightarrow> evicts e name s t"
| replaced: "reset_password e now salt name fresh must demo strict s = (Inr w, t) \<Longrightarrow> evicts e name s t"
| revoked: "revoke_all e now name s = (Inr n, t) \<Longrightarrow> evicts e name s t"

lemma history_after: "evolves auth_history m \<Longrightarrow> m s = (r, t) \<Longrightarrow> auth_history s t"
  by (rule evolvesD)

lemma ensured_same: "ensure_active_admin_remains row a r s = (x, t) \<Longrightarrow> t = s"
  by (auto simp: ensure_active_admin_remains_def ret_def require_def raise_def split: if_splits)

lemma after_ensured:
  assumes "bind (ensure_active_admin_remains row a r) f s = (Inr b, t)"
  shows "f () s = (Inr b, t)"
proof -
  obtain u s' where "ensure_active_admin_remains row a r s = (Inr u, s')" "f u s' = (Inr b, t)"
    using assms by (rule bind_InrE)
  then show ?thesis by (auto dest: ensured_same)
qed

lemma gone_revoked: "x \<in> set (sessions s) \<Longrightarrow> se_user x = uid \<Longrightarrow> gone x (revoke_user now uid s)"
  unfolding gone_def revoke_user_def
  by (rule bexI [of _ "revoke now x"]) (auto simp: revoke_def intro: rev_image_eqI)

lemma sessions_change_users [simp]: "sessions (change_users uid f s) = sessions s"
  by (simp add: change_users_def)

text \<open>A reset of the password leaves the activity of the user and the identities of all rows.\<close>

lemma reset_effect:
  fixes u :: user_row
  assumes "reset_password e now salt name fresh must demo strict s = (Inr (), t)"
    and "normalise_username e name = Inr (display, key)" "find (\<lambda>v. ur_key v = key) (users s) = Some u"
  shows "\<exists>f. users t = map (\<lambda>v. if us_id v = us_id u then f v else v) (users s)
     \<and> us_id (f u) = us_id u \<and> us_active (f u) = us_active u
     \<and> (\<forall>x \<in> set (sessions t). \<exists>y \<in> set (sessions s). se_id x = se_id y \<and> sr_token x = sr_token y)"
proof -
  obtain flags hash where run: "store_password now u salt hash flags (policy_version e fresh) ''password_reset'' s = (Inr (), t)"
    using assms by (auto simp: reset_password_def write_tx_Inr bind_require bind_checked raise_def
        split: sum.splits if_splits)
  define f where "f v = v\<lparr>ur_salt := salt, ur_hash := hash, us_must_change := fst flags, us_demo := snd flags,
    us_policy := policy_version e fresh, us_updated := now\<rparr>" for v :: user_row
  have "users t = map (\<lambda>v. if us_id v = us_id u then f v else v) (users s)"
    "sessions t = map (\<lambda>x. if se_user x = us_id u then revoke now x else x) (sessions s)"
    using run by (auto simp: store_password_def auth_audit_def writing_def change_users_def revoke_user_def f_def)
  then show ?thesis by (intro exI [of _ f]) (auto simp: f_def revoke_def)
qed

lemma open_session_effect:
  assumes "find (\<lambda>v. us_id v = us_id row) (users s) = Some u" "us_active u"
    and "\<not> list_ex (session_clash (new_session e c (us_id row))) (sessions s)"
  shows "\<exists>t. open_session e c row s = (Inr (), t) \<and> users t = users s
     \<and> sessions t = sessions s @ [new_session e c (us_id row)]"
proof -
  have "list_ex (\<lambda>v. us_id v = us_id row) (users s)"
    using find_Some_mem [OF assms(1)] by (auto simp: list_ex_iff)
  then show ?thesis using assms
    by (simp add: open_session_def write_tx_def transaction_def bind_def [of "insert_session _"] bind_require
        insert_session_def insert_row_def auth_audit_def writing_def new_session_def)
qed

lemma alive_accepted:
  assumes "alive e now token s x u" "principal_of u (se_id x) = Inr p" "token \<noteq> []"
  shows "fst (authenticate e now token touch s) = Inr p"
proof -
  have "authenticate_in_transaction e now token touch s = (Inr (p, x), if touch then touched e now x s else s)"
    using assms(1,2) unfolding alive_def
    by (simp add: authenticate_in_transaction_def bind_require touched_def ret_def)
  then show ?thesis using assms(3)
    by (simp add: authenticate_def bind_require write_tx_def transaction_def bind_def ret_def)
qed

text \<open>Each of them finds the row of the name and revokes the sessions of its user.\<close>

lemma evicts_gone:
  assumes "evicts e name s t" "normalise_username e name = Inr (display, key)"
    and user: "find (\<lambda>u. ur_key u = key) (users s) = Some u"
    and x: "x \<in> set (sessions s)" "se_user x = us_id u"
  shows "gone x t"
proof -
  have later: "gone x t" if "m (revoke_user now (us_id u) s') = (r, t)" "evolves auth_history m"
    "sessions s' = sessions s" for m :: "'a auth_op" and now s' r
    using gone_later [OF gone_revoked history_after [OF that(2,1)]] x that(3) by simp
  have stored: "gone x t" if run: "store_password now u salt hash flags policy action s = (r, t)"
    for now salt hash flags policy action r
    using run unfolding store_password_def bind_update_users bind_revoke_sessions
    by (rule later) (simp_all add: history.auth_audit_evolves)
  from assms(1) show ?thesis
  proof cases
    case (disabled now v)
    let ?rest = "bind (auth_audit now ''user_disabled'' (Some (us_id u)) (Some (us_name u)) None (JObj []))
      (\<lambda>_. read_back (us_id u))"
    have "?rest (revoke_user now (us_id u)
        (change_users (us_id u) (\<lambda>u. u\<lparr>us_active := False, us_updated := now\<rparr>) s)) = (Inr v, t)"
      using disabled
      by (auto simp: set_user_active_def assms(2) write_tx_Inr user dest!: after_ensured)
    then show ?thesis by (rule later) (intro evolves_rules, simp)
  next
    case (reassigned now role_name mines v)
    then obtain r scopes where "known_role role_name = Inr r" "normalise_scopes mines r = Inr scopes"
      by (auto simp: update_user_access_def assms(2) bind_checked raise_def split: sum.splits)
    then have "\<exists>detail. bind (auth_audit now ''user_access_changed'' (Some (us_id u)) (Some (us_name u)) None detail)
        (\<lambda>_. read_back (us_id u)) (revoke_user now (us_id u)
        (change_users (us_id u) (\<lambda>u. u\<lparr>us_role := r, us_scopes := scopes, us_updated := now\<rparr>) s)) = (Inr v, t)"
      using reassigned
      by (auto simp: update_user_access_def assms(2) write_tx_Inr user dest!: after_ensured)
    then show ?thesis by (elim exE) (rule later, assumption, intro evolves_rules, simp)
  next
    case (changed now salt current fresh w)
    then show ?thesis
      by (auto simp: change_password_def assms(2) write_tx_Inr user bind_require bind_checked raise_def
          split: sum.splits if_splits intro: stored)
  next
    case (replaced now salt fresh must demo strict w)
    then show ?thesis
      by (auto simp: reset_password_def assms(2) write_tx_Inr user bind_require bind_checked raise_def
          split: sum.splits if_splits intro: stored)
  next
    case (revoked now n)
    then have "\<exists>k. bind (auth_audit now ''sessions_revoked'' (Some (us_id u)) (Some (us_name u)) None
        (JObj [(''count'', json_int (int k))])) (\<lambda>_. ret k) (revoke_user now (us_id u) s) = (Inr n, t)"
      by (auto simp: revoke_all_def assms(2) write_tx_Inr user)
    then show ?thesis by (elim exE) (rule later, assumption, intro evolves_rules, simp)
  qed
qed

text \<open>C14: Disabling a user, changing the role or scopes, changing or resetting the password and
  revoking all sessions end every session the user has: from then on, whatever else happens, its
  token is refused and the refusal changes nothing.\<close>

theorem evicted_sessions_stay_out:
  assumes reachable: "auth_reachable e s"
    and session: "x \<in> set (sessions (as_db s))" "sr_token x = sha256_hex e token"
    and user: "u \<in> set (users (as_db s))" "us_id u = se_user x" "normalise_username e name = Inr (display, ur_key u)"
    and evicted: "evicts e name (as_db s) d"
    and later: "(auth_step e)\<^sup>*\<^sup>* (s\<lparr>as_db := d\<rparr>) s'"
  shows "authenticate e now token touch (as_db s') = (Inl Invalid_Session, as_db s')"
proof -
  have ok: "auth_ok e (as_db s)" using reachable by (rule store_reachable_ok)
  have row: "find (\<lambda>v. ur_key v = ur_key u) (users (as_db s)) = Some u"
    using ok user(1) by (intro find_unique) (simp_all add: auth_ok_def auth_keys_ok_def)
  have "auth_call e (as_db s) d" using evicted by (cases rule: evicts.cases) (auto intro: auth_call.intros)
  then have "auth_reachable e (s\<lparr>as_db := d\<rparr>)" using reachable by (blast intro: auth_reachable.step auth_step.call)
  then have ok': "auth_ok e (as_db s')" using auth_reachable_steps [OF later] store_reachable_ok by blast
  have "gone x d" using evicts_gone [OF evicted user(3) row session(1)] user(2) by simp
  then have "gone x (as_db s')" using gone_later history.steps_rel [OF later] by simp
  from gone_refused [OF this ok' session(2)] show ?thesis
    by (simp add: authenticate_def bind_require write_tx_def transaction_def bind_def raise_def)
qed

text \<open>A session that has reached a limit is refused, but the revocation the code writes before
  it raises is rolled back with the transaction: the database is as before and the session is
  still not revoked.\<close>

theorem expired_session_not_revoked:
  assumes reachable: "auth_reachable e s"
    and session: "x \<in> set (sessions (as_db s))" "sr_token x = sha256_hex e token" "se_revoked x = None"
    and user: "u \<in> set (users (as_db s))" "us_id u = se_user x" "us_active u" and token: "token \<noteq> []"
    and expired: "se_created x + micros (absolute_timeout e) \<le> now \<or> se_seen x + micros (idle_timeout e) \<le> now"
  shows "authenticate e now token touch (as_db s) = (Inl Session_Expired, as_db s)"
proof -
  let ?s = "as_db s"
  have ok: "auth_ok e ?s" using reachable by (rule store_reachable_ok)
  then have "find (\<lambda>y. sr_token y = sha256_hex e token) (sessions ?s) = Some x"
    using find_token [of ?s x] session(1,2) by (simp add: auth_ok_def)
  moreover have "find (\<lambda>v. us_id v = se_user x) (users ?s) = Some u"
    using ok user(1,2) find_unique [of us_id "users ?s" u] by (simp add: auth_ok_def auth_keys_ok_def)
  moreover have "session_ok e x" using ok session(1) by (simp add: auth_ok_def rows_ok_def)
  then have "se_absolute x \<le> now \<or> se_idle x \<le> now"
    using expired by (auto simp: session_ok_def absolute_expiry_def)
  ultimately have "authenticate_in_transaction e now token touch ?s
      = (Inl Session_Expired, change_session (se_id x) (revoke now) ?s)"
    using session(3) user(3) by (simp add: authenticate_in_transaction_def bind_require bind_assoc raise_def)
  then show ?thesis using token
    by (simp add: authenticate_def bind_require write_tx_def transaction_def bind_def)
qed

text \<open>C17: A login that has verified the password and was overtaken by a reset of that password,
  which revokes all sessions of the user, still opens its session: only whether the user is active
  is read again. The holder of the old password is let in.\<close>

theorem late_login_survives_reset:
  assumes reachable: "auth_reachable e s"
    and verified: "i < length (as_logins s)" "as_logins s ! i = (c, At_Open row)"
    and user: "u \<in> set (users (as_db s))" "us_id u = us_id row" "us_active u"
      "normalise_username e name = Inr (display, ur_key u)"
    and reset: "reset_password e now salt name fresh must demo strict (as_db s) = (Inr (), d)"
    and unused: "\<forall>x \<in> set (sessions (as_db s)). se_id x \<noteq> lc_session c \<and> sr_token x \<noteq> sha256_hex e (lc_token c)"
    and token: "lc_token c \<noteq> []" and settings: "settings_ok e"
  shows "\<exists>s' p. (auth_step e)\<^sup>*\<^sup>* (s\<lparr>as_db := d\<rparr>) s'
     \<and> fst (authenticate e (lc_now c) (lc_token c) touch (as_db s')) = Inr p \<and> pr_user p = us_id u"
proof -
  let ?d = "as_db s"
  have ok: "auth_ok e ?d" using reachable by (rule store_reachable_ok)
  have call: "auth_call e ?d d" using reset by (rule auth_call.reset)
  then have okd: "auth_ok e d" using ok kept.call_rel by (auto simp: keeps_def)
  obtain f where users_d: "users d = map (\<lambda>v. if us_id v = us_id u then f v else v) (users ?d)"
    and f: "us_id (f u) = us_id u" "us_active (f u) = us_active u"
    and sessions_d: "\<forall>x \<in> set (sessions d). \<exists>y \<in> set (sessions ?d). se_id x = se_id y \<and> sr_token x = sr_token y"
    using reset_effect [OF reset user(4) find_unique [of ur_key "users ?d" u]] ok user(1)
    by (auto simp: auth_ok_def auth_keys_ok_def)
  let ?u = "f u"
  have u: "?u \<in> set (users d)" using user(1) by (force simp: users_d)
  then have found: "find (\<lambda>v. us_id v = us_id row) (users d) = Some ?u"
    using okd find_unique [of us_id "users d" ?u] f(1) user(2) by (simp add: auth_ok_def auth_keys_ok_def)
  let ?x = "new_session e c (us_id row)"
  have free: "\<not> list_ex (session_clash ?x) (sessions d)"
    using sessions_d unused by (fastforce simp: list_ex_iff session_clash_def new_session_def)
  obtain d' where opened: "open_session e c row d = (Inr (), d')" "sessions d' = sessions d @ [?x]" "users d' = users d"
    using open_session_effect [OF found _ free] f(2) user(3) by auto
  define s' where "s' = s\<lparr>as_db := d', as_logins := (as_logins s)[i := (c, Login_Done (login_answer e c row))]\<rparr>"
  have step: "auth_step e (s\<lparr>as_db := d\<rparr>) s'"
    using auth_step.proceed [of i "s\<lparr>as_db := d\<rparr>" c "At_Open row" e] verified opened(1)
    by (simp add: s'_def)
  have "find (\<lambda>y. sr_token y = sr_token ?x) (sessions d) = None"
    using free by (auto simp: find_None_iff list_ex_iff session_clash_def)
  then have "find (\<lambda>y. sr_token y = sr_token ?x) (sessions d') = Some ?x"
    by (simp add: opened(2) find_append)
  then have "alive e (lc_now c) (lc_token c) d' ?x ?u"
    using settings found f(2) user(3)
    by (simp add: alive_def opened(3) new_session_def absolute_expiry_def idle_expiry_def settings_ok_def micros_def)
  moreover obtain p where p: "principal_of ?u (se_id ?x) = Inr p"
    using okd u by (auto simp: auth_ok_def rows_ok_def user_ok_def principal_of_def)
  ultimately have "fst (authenticate e (lc_now c) (lc_token c) touch d') = Inr p"
    using token by (rule alive_accepted)
  then show ?thesis using step principal_of_Inr [OF p] f(1) by (intro exI [of _ s'] exI [of _ p]) (auto simp: s'_def)
qed

section \<open>Passwords that are not ASCII\<close>

text \<open>C18: A password that satisfies the policy but has a character outside ASCII cannot be set by any
  method: the comparison with the demonstration passwords raises \<open>TypeError\<close>. Nothing is written.\<close>

theorem non_ascii_password_refused:
  assumes "normalise_username e name = Inr n" "validate_strong_password e password = Inr ()"
    and "c \<in> set password" "\<not> ascii c"
  shows "change_password e now salt name current password s = (Inl Type_Error, s)
     \<and> reset_password e now salt name password must demo strict s = (Inl Type_Error, s)
     \<and> create_user e now uid salt name password role_name mines active must demo s = (Inl Type_Error, s)
     \<and> bootstrap_admin e now uid salt name password must demo s = (Inl Type_Error, s)"
proof -
  obtain display key where n: "n = (display, key)" by (cases n)
  have flags: "credential_flags password m d = Inl Type_Error" for m d
    using assms(3,4) by (auto simp: credential_flags_def list_all_iff)
  have "password \<noteq> []" using assms(3) by auto
  then show ?thesis
    by (simp add: change_password_def reset_password_def create_user_def bootstrap_admin_def
        assms(1,2) n flags bind_require raise_def)
qed

section \<open>Readiness of the credentials\<close>

lemma map_each_checked:
  "map_each (\<lambda>u. bind (checked (f u)) (\<lambda>r. ret (u, r))) us s = (Inr ys, t) \<Longrightarrow>
     t = s \<and> (\<forall>u \<in> set us. \<exists>r. f u = Inr r) \<and> ys = map (\<lambda>u. (u, projr (f u))) us"
proof (induction us arbitrary: ys)
  case (Cons u us)
  then obtain r where r: "f u = Inr r" by (cases "f u") (auto simp: raise_def)
  with Cons.prems obtain zs where "map_each (\<lambda>u. bind (checked (f u)) (\<lambda>r. ret (u, r))) us s = (Inr zs, t)"
    "ys = (u, r) # zs"
    by (auto simp: ret_result elim!: bind_InrE)
  with Cons.IH r show ?case by auto
qed (simp add: ret_result)

text \<open>No active user may have a password that is outdated, temporary or forbidden, and an active
  administrator without any reservation has to be there.\<close>

definition sound_credential :: "auth_env \<Rightarrow> string list \<Rightarrow> user_row \<Rightarrow> bool" where
  "sound_credential e forbidden u \<longleftrightarrow> us_policy u = 1 \<and> \<not> us_demo u
     \<and> (\<forall>p \<in> set forbidden. scrypt e p (ur_salt u) \<noteq> ur_hash u)"

lemma forbidden_match_Inr:
  "forbidden_match e cs u = Inr hit \<Longrightarrow> hit \<longleftrightarrow> (\<exists>p \<in> set cs. scrypt e p (ur_salt u) = ur_hash u)"
  by (induction cs) (auto simp: password_digest_def split: if_splits)

lemma reasons_Inr:
  assumes "credential_reasons e (first_occurrences forbidden) u = Inr rs"
  shows "globally_blocking u rs \<longleftrightarrow> us_active u \<and> \<not> sound_credential e forbidden u"
    and "rs = [] \<longleftrightarrow> sound_credential e forbidden u \<and> \<not> us_must_change u"
proof -
  from assms obtain hit where "forbidden_match e (first_occurrences forbidden) u = Inr hit"
    by (auto simp: credential_reasons_def split: if_splits sum.splits)
  with forbidden_match_Inr [OF this] assms
  show "globally_blocking u rs \<longleftrightarrow> us_active u \<and> \<not> sound_credential e forbidden u"
    "rs = [] \<longleftrightarrow> sound_credential e forbidden u \<and> \<not> us_must_change u"
    by (auto simp: credential_reasons_def globally_blocking_def sound_credential_def split: if_splits)
qed

text \<open>C19: The credentials are reported ready for production exactly if every active user has a
  current, permanent password that is not in the forbidden list and some active administrator
  has one that need not be changed.\<close>

theorem production_ready_iff:
  assumes "production_credential_status e forbidden s = (Inr status, t)"
  shows "t = s \<and> (cs_ready status \<longleftrightarrow>
     (\<forall>u \<in> set (users s). us_active u \<longrightarrow> sound_credential e forbidden u)
     \<and> (\<exists>u \<in> set (users s). us_active u \<and> us_role u = Admin \<and> sound_credential e forbidden u
          \<and> \<not> us_must_change u))"
proof -
  let ?f = "credential_reasons e (first_occurrences forbidden)" and ?us = "sort_key ur_key (users s)"
  obtain ys where ys: "map_each (\<lambda>u. bind (checked (?f u)) (\<lambda>r. ret (u, r))) ?us s = (Inr ys, t)"
    "status = credential_status_of ys"
    using assms by (auto simp: production_credential_status_def ret_result elim!: bind_InrE)
  from map_each_checked [OF this(1)] have t: "t = s" and all: "\<forall>u \<in> set (users s). \<exists>r. ?f u = Inr r"
    and rows: "ys = map (\<lambda>u. (u, projr (?f u))) ?us" by auto
  have u: "globally_blocking u (projr (?f u)) \<longleftrightarrow> us_active u \<and> \<not> sound_credential e forbidden u"
    "projr (?f u) = [] \<longleftrightarrow> sound_credential e forbidden u \<and> \<not> us_must_change u"
    if "u \<in> set (users s)" for u
    using all that reasons_Inr [of e forbidden u] by force+
  have "cs_ready status \<longleftrightarrow> (\<forall>u \<in> set (users s). \<not> globally_blocking u (projr (?f u)))
     \<and> (\<exists>u \<in> set (users s). us_active u \<and> us_role u = Admin \<and> projr (?f u) = [])"
    unfolding ys(2) rows credential_status_of_def Let_def
    by (auto simp: filter_empty_conv)
  then show ?thesis using t u by auto
qed

end
