(* ===== verification/Auth_Limits.thy ===== *)
theory Auth_Limits
  imports Auth_Invariant
begin

text \<open>
  How many passwords the rate limiter lets through: at most \<open>max_failures\<close> in a window when
  logins come one after the other, any number when they run side by side.
\<close>

definition call_key :: "auth_env \<Rightarrow> login_call \<Rightarrow> rate_key option" where
  "call_key e c = (case normalise_username e (lc_username c) of Inl _ \<Rightarrow> None
     | Inr (_, key) \<Rightarrow> (case make_rate_key key (lc_client c) of Inl _ \<Rightarrow> None | Inr k \<Rightarrow> Some k))"

definition wrong_guess :: "auth_env \<Rightarrow> login_call \<Rightarrow> rate_key \<Rightarrow> auth_db \<Rightarrow> bool" where
  "wrong_guess e c k s \<longleftrightarrow>
     password_valid e (lc_password c) (find (\<lambda>u. ur_key u = fst k) (users s)) = Inr False"

definition right_guess :: "auth_env \<Rightarrow> login_call \<Rightarrow> rate_key \<Rightarrow> auth_db \<Rightarrow> bool" where
  "right_guess e c k s \<longleftrightarrow>
     password_valid e (lc_password c) (find (\<lambda>u. ur_key u = fst k) (users s)) = Inr True"

text \<open>
  Logins one after the other; the database each of them meets is arbitrary, the limiter is what
  the one before left.
\<close>

type_synonym login_run = "((login_call \<times> auth_db) \<times> (auth_error + login_result)) list"

primrec guesses :: "auth_env \<Rightarrow> (login_call \<times> auth_db) list \<Rightarrow> limiter \<Rightarrow> login_run" where
  "guesses e [] l = []"
| "guesses e (a # cs) l = (case login e (fst a) (snd a, l) of (r, t, l') \<Rightarrow> (a, r) # guesses e cs l')"

text \<open>The wrong passwords of a key that were compared, and the right ones.\<close>

definition refused_guesses :: "auth_env \<Rightarrow> rate_key \<Rightarrow> login_run \<Rightarrow> nat" where
  "refused_guesses e k rs = length (filter (\<lambda>((c, s), r).
     call_key e c = Some k \<and> wrong_guess e c k s \<and> r = Inl Invalid_Credentials) rs)"

definition clearing_logins :: "auth_env \<Rightarrow> rate_key \<Rightarrow> login_run \<Rightarrow> nat" where
  "clearing_logins e k rs = length (filter (\<lambda>((c, s), r).
     call_key e c = Some k \<and> right_guess e c k s \<and> (\<forall>n. r \<noteq> Inl (Rate_Limited n))) rs)"

section \<open>One login\<close>

lemma call_key_Some: "call_key e c = Some k \<Longrightarrow> \<exists>display key.
    normalise_username e (lc_username c) = Inr (display, key) \<and> make_rate_key key (lc_client c) = Inr k"
  by (auto simp: call_key_def split: sum.splits prod.splits)

lemma write_audit_run: "write_tx (auth_audit now action uid name client detail) s = (Inr (),
    snd (auth_audit now action uid name client detail s))"
  by (simp add: write_tx_def transaction_def auth_audit_def writing_def)

lemma open_session_not_limited: "open_session e c u s \<noteq> (Inl (Rate_Limited n), t)"
  by (auto simp: open_session_def write_tx_def transaction_def find_user_id_def the_row_def
      insert_session_def auth_audit_def require_def ret_def raise_def bind_def reading_def writing_def
      split: sum.splits option.splits if_splits prod.splits)

lemma login_answer_not_limited: "login_answer e c u \<noteq> Inl (Rate_Limited n)"
  by (auto simp: login_answer_def principal_of_def split: sum.splits if_splits)

text \<open>What a login answers and leaves in the limiter, by the two questions it asks.\<close>

lemma login_effect:
  assumes "call_key e c = Some k" "login e c (s, l) = (r, t, l')"
    and "check_rate_limit e k (seconds_of (lc_now c)) l = (q, m)"
  shows "case q of Inl x \<Rightarrow> r = Inl x \<and> l' = m
    | Inr _ \<Rightarrow> (case password_valid e (lc_password c) (find (\<lambda>u. ur_key u = fst k) (users s)) of
        Inl x \<Rightarrow> l' = m
      | Inr False \<Rightarrow> r = Inl Invalid_Credentials \<and> l' = record_failure e k (seconds_of (lc_now c)) m
      | Inr True \<Rightarrow> (\<forall>n. r \<noteq> Inl (Rate_Limited n)) \<and> l' = clear_failures k m)"
proof -
  obtain display key where "normalise_username e (lc_username c) = Inr (display, key)"
    "make_rate_key key (lc_client c) = Inr k" using call_key_Some [OF assms(1)] by blast
  then show ?thesis using assms(2,3) open_session_not_limited [of e c _ s _ t] login_answer_not_limited [of e c]
    by (cases q; cases "password_valid e (lc_password c) (find (\<lambda>u. ur_key u = fst k) (users s))";
        cases "find (\<lambda>u. ur_key u = fst k) (users s)")
       (auto simp: login_def eval_nat_numeral write_audit_run Let_def password_valid_def
        split: prod.splits sum.splits if_splits bool.splits)
qed

lemma check_other: "k \<noteq> k' \<Longrightarrow> check_rate_limit e k' now l = (r, l') \<Longrightarrow>
    lm_failures l' k = lm_failures l k \<and> lm_locked l' k = lm_locked l k"
  by (auto simp: check_rate_limit_def split: option.splits if_splits)

lemma login_other_key:
  assumes "call_key e c \<noteq> Some k" "login e c (s, l) = (r, t, l')"
  shows "lm_failures l' k = lm_failures l k \<and> lm_locked l' k = lm_locked l k"
proof (cases "call_key e c")
  case None
  then show ?thesis using assms(2)
    by (auto simp: call_key_def login_def eval_nat_numeral split: sum.splits prod.splits)
next
  case (Some k')
  obtain display key where names: "normalise_username e (lc_username c) = Inr (display, key)"
    "make_rate_key key (lc_client c) = Inr k'" using call_key_Some [OF Some] by blast
  obtain q m where m: "check_rate_limit e k' (seconds_of (lc_now c)) l = (q, m)" by fastforce
  have other: "k \<noteq> k'" using Some assms(1) by auto
  have "l' = m \<or> l' = record_failure e k' (seconds_of (lc_now c)) m \<or> l' = clear_failures k' m"
    using assms(2) names m
    by (auto simp: login_def eval_nat_numeral Let_def split: sum.splits prod.splits option.splits if_splits)
  then show ?thesis using other check_other [OF other m]
    by (auto simp: record_failure_def clear_failures_def Let_def)
qed

section \<open>A window of wrong guesses\<close>

text \<open>
  What \<open>n\<close> refused guesses of a window \<open>[from, until)\<close> have left in the limiter: their times, and
  a lock beyond the window when the limit is reached. A lock that ends within the window is
  older than all of them.
\<close>

definition window_ok :: "auth_env \<Rightarrow> rate_key \<Rightarrow> rat \<Rightarrow> rat \<Rightarrow> nat \<Rightarrow> limiter \<Rightarrow> bool" where
  "window_ok e k from_time end_time n l \<longleftrightarrow>
     n \<le> length (filter (\<lambda>t. from_time \<le> t) (lm_failures l k)) \<and> n \<le> max_failures e
     \<and> (\<forall>u. lm_locked l k = Some u \<longrightarrow> n = 0 \<or> end_time \<le> u)
     \<and> (n = max_failures e \<longrightarrow> (\<exists>u. lm_locked l k = Some u \<and> end_time \<le> u))"

lemma recent_keeps:
  assumes "now - of_int (login_window e) < from_time"
  shows "filter (\<lambda>t. from_time \<le> t) (recent e now fs) = filter (\<lambda>t. from_time \<le> t) fs"
  using assms unfolding recent_def by (induction fs) auto

lemma window_check:
  assumes ok: "window_ok e k from_time end_time n l" and now: "from_time \<le> now" "now < end_time"
    and size: "end_time - from_time \<le> of_int (login_window e)" and pos: "0 < max_failures e"
    and check: "check_rate_limit e k now l = (Inr w, l')"
  shows "window_ok e k from_time end_time n l'" "n < max_failures e" "lm_locked l' k = None"
proof -
  have recent: "now - of_int (login_window e) < from_time" using now size by linarith
  have "window_ok e k from_time end_time n l' \<and> n < max_failures e \<and> lm_locked l' k = None"
  proof (cases "lm_locked l k")
    case None
    then have "n < max_failures e" using ok by (auto simp: window_ok_def order.strict_iff_order)
    then show ?thesis using None ok check
      by (auto simp: window_ok_def check_rate_limit_def recent_keeps [OF recent])
  next
    case (Some u)
    then have "u \<le> now" using check by (auto simp: check_rate_limit_def not_less split: if_splits)
    then have "n = 0" using ok Some now unfolding window_ok_def by force
    then show ?thesis using check pos Some by (auto simp: window_ok_def check_rate_limit_def split: if_splits)
  qed
  then show "window_ok e k from_time end_time n l'" "n < max_failures e" "lm_locked l' k = None" by blast+
qed

lemma window_record:
  assumes ok: "window_ok e k from_time end_time n l" "n < max_failures e" "lm_locked l k = None"
    and now: "from_time \<le> now" "now < end_time"
    and size: "end_time - from_time \<le> of_int (login_window e)" "end_time - from_time \<le> of_int (lockout e)"
  shows "window_ok e k from_time end_time (Suc n) (record_failure e k now l)"
proof -
  have recent: "now - of_int (login_window e) < from_time" using now size by linarith
  have lock: "end_time \<le> now + of_int (lockout e)" using now size by linarith
  let ?fs = "recent e now (lm_failures l k) @ [now]"
  have count: "Suc n \<le> length (filter (\<lambda>t. from_time \<le> t) ?fs)"
    using ok(1) now(1) by (simp add: window_ok_def recent_keeps [OF recent])
  moreover have "length (filter (\<lambda>t. from_time \<le> t) ?fs) \<le> length ?fs" by (rule length_filter_le)
  ultimately have "Suc n = max_failures e \<longrightarrow> max_failures e \<le> length ?fs" by linarith
  then show ?thesis using count lock ok(2,3)
    by (auto simp: window_ok_def record_failure_def Let_def Suc_le_eq)
qed

text \<open>One login of the key: \<open>n\<close> counts the refused guesses since the last one that cleared it.\<close>

lemma window_login:
  assumes ok: "window_ok e k from_time end_time n l" and pos: "0 < max_failures e"
    and size: "end_time - from_time \<le> of_int (login_window e)" "end_time - from_time \<le> of_int (lockout e)"
    and key: "call_key e c = Some k"
    and now: "from_time \<le> seconds_of (lc_now c)" "seconds_of (lc_now c) < end_time"
    and run: "login e c (s, l) = (r, t, l')"
  shows "if wrong_guess e c k s \<and> r = Inl Invalid_Credentials then window_ok e k from_time end_time (Suc n) l'
    else if right_guess e c k s \<and> (\<forall>x. r \<noteq> Inl (Rate_Limited x)) then window_ok e k from_time end_time 0 l'
    else window_ok e k from_time end_time n l'"
proof -
  obtain q m where m: "check_rate_limit e k (seconds_of (lc_now c)) l = (q, m)" by fastforce
  note effect = login_effect [OF key run m]
  show ?thesis
  proof (cases q)
    case (Inl x)
    with m have "m = l" "\<exists>y. x = Rate_Limited y"
      by (auto simp: check_rate_limit_def split: option.splits if_splits)
    with effect Inl ok show ?thesis by auto
  next
    case (Inr w)
    with m have m: "check_rate_limit e k (seconds_of (lc_now c)) l = (Inr w, m)" by simp
    note checked = window_check [OF ok now size(1) pos m]
    have free: "window_ok e k from_time end_time 0 l'" if "l' = clear_failures k m"
      using that pos by (simp add: window_ok_def clear_failures_def)
    show ?thesis
    proof (cases "password_valid e (lc_password c) (find (\<lambda>u. ur_key u = fst k) (users s))")
      case (Inl x)
      with effect Inr checked(1) show ?thesis by (simp add: wrong_guess_def right_guess_def)
    next
      case valid: (Inr v)
      then show ?thesis
        using effect Inr free window_record [OF checked now size]
        by (cases v) (simp_all add: wrong_guess_def right_guess_def)
    qed
  qed
qed

lemma window_bound:
  assumes "window_ok e k from_time end_time n l" and "0 < max_failures e"
    and "end_time - from_time \<le> of_int (login_window e)" "end_time - from_time \<le> of_int (lockout e)"
    and "\<forall>(c, s) \<in> set cs. call_key e c = Some k \<longrightarrow>
      from_time \<le> seconds_of (lc_now c) \<and> seconds_of (lc_now c) < end_time"
  shows "n + refused_guesses e k (guesses e cs l)
    \<le> max_failures e * Suc (clearing_logins e k (guesses e cs l))"
  using assms(1,5)
proof (induction cs arbitrary: n l)
  case Nil
  then show ?case by (simp add: refused_guesses_def clearing_logins_def window_ok_def)
next
  case (Cons a cs)
  obtain c s where a: "a = (c, s)" by (cases a)
  obtain r t l' where run: "login e c (s, l) = (r, t, l')" by (metis prod_cases3)
  have IH: "i + refused_guesses e k (guesses e cs l')
      \<le> max_failures e * Suc (clearing_logins e k (guesses e cs l'))"
    if "window_ok e k from_time end_time i l'" for i
    by (rule Cons.IH [OF that]) (use Cons.prems(2) in simp)
  have small: "n \<le> max_failures e" using Cons.prems(1) by (simp add: window_ok_def)
  show ?case
  proof (cases "call_key e c = Some k")
    case False
    then have "window_ok e k from_time end_time n l'"
      using Cons.prems(1) login_other_key [OF False run] by (simp add: window_ok_def)
    with False run IH show ?thesis by (simp add: a refused_guesses_def clearing_logins_def)
  next
    case True
    have now: "from_time \<le> seconds_of (lc_now c)" "seconds_of (lc_now c) < end_time"
      using Cons.prems(2) True by (auto simp: a)
    have exclusive: "\<not> (wrong_guess e c k s \<and> right_guess e c k s)"
      by (simp add: wrong_guess_def right_guess_def)
    note step = window_login [OF Cons.prems(1) assms(2-4) True now run]
    consider (wrong) "wrong_guess e c k s" "r = Inl Invalid_Credentials"
      | (cleared) "right_guess e c k s" "\<forall>x. r \<noteq> Inl (Rate_Limited x)"
      | (neither) "\<not> (wrong_guess e c k s \<and> r = Inl Invalid_Credentials)"
          "\<not> (right_guess e c k s \<and> (\<forall>x. r \<noteq> Inl (Rate_Limited x)))"
      by blast
    then show ?thesis
    proof cases
      case wrong
      with step IH [of "Suc n"] exclusive run True show ?thesis
        by (simp add: a refused_guesses_def clearing_logins_def)
    next
      case cleared
      with step exclusive have "window_ok e k from_time end_time 0 l'" by (auto split: if_splits)
      from IH [OF this] cleared exclusive run True small show ?thesis
        by (simp add: a refused_guesses_def clearing_logins_def)
    next
      case neither
      with step have "window_ok e k from_time end_time n l'" by (simp split: if_splits)
      from IH [OF this] neither run True show ?thesis
        by (auto simp: a refused_guesses_def clearing_logins_def)
    qed
  qed
qed

text \<open>C15: When the logins of one process come one after the other, then in any stretch of time no
  longer than the window and the lockout at most \<open>max_failures\<close> wrong passwords for one user name
  and client are compared with the stored one, and \<open>max_failures\<close> more for every login of that
  name and client in the stretch that had the right password, which clears the count. (For an
  unknown or inactive user every password counts as wrong.) The
  limiter the stretch begins with, the other logins in between and what happens to the
  database between the logins are arbitrary. A restart of the process forgets the count.\<close>

theorem guesses_bounded:
  assumes "settings_ok e"
    and "end_time - from_time \<le> of_int (login_window e)" "end_time - from_time \<le> of_int (lockout e)"
    and "\<forall>(c, s) \<in> set cs. call_key e c = Some k \<longrightarrow>
      from_time \<le> seconds_of (lc_now c) \<and> seconds_of (lc_now c) < end_time"
  shows "refused_guesses e k (guesses e cs l)
    \<le> max_failures e * Suc (clearing_logins e k (guesses e cs l))"
proof -
  have "window_ok e k from_time end_time 0 l" using assms(1) by (simp add: window_ok_def settings_ok_def)
  from window_bound [OF this _ assms(2-4)] assms(1) show ?thesis by (simp add: settings_ok_def)
qed

section \<open>Guesses side by side\<close>

definition compared :: "login_call \<Rightarrow> rate_key \<Rightarrow> auth_state \<Rightarrow> nat" where
  "compared c k s = length (filter (\<lambda>(c', ph). c' = c \<and> (\<exists>d. ph = At_Failure d k)) (as_logins s))"

lemma check_again:
  assumes "check_rate_limit e k now l = (Inr w, l')"
  shows "\<exists>l''. check_rate_limit e k now l' = (Inr (), l'')"
  using assms by (auto simp: check_rate_limit_def split: option.splits if_splits)

text \<open>One more login gets as far as the comparison.\<close>

lemma one_more_guess:
  assumes key: "call_key e c = Some k" and wrong: "wrong_guess e c k (as_db s)"
    and free: "check_rate_limit e k (seconds_of (lc_now c)) (as_limiter s) = (Inr w, l')"
  shows "\<exists>d. (auth_step e)\<^sup>*\<^sup>* s (s\<lparr>as_limiter := l', as_logins := as_logins s @ [(c, At_Failure d k)]\<rparr>)"
proof -
  obtain display key where names: "normalise_username e (lc_username c) = Inr (display, key)"
    "make_rate_key key (lc_client c) = Inr k" using call_key_Some [OF key] by blast
  let ?i = "length (as_logins s)"
  let ?s1 = "s\<lparr>as_logins := as_logins s @ [(c, At_Check)]\<rparr>"
  let ?s2 = "?s1\<lparr>as_limiter := l', as_logins := as_logins s @ [(c, At_Lookup display k)]\<rparr>"
  let ?s3 = "?s2\<lparr>as_logins := as_logins s @ [(c, At_Failure display k)]\<rparr>"
  have "auth_step e s ?s1" by (rule auth_step.accept)
  moreover have "auth_step e ?s1 ?s2"
    using auth_step.proceed [of ?i ?s1 c At_Check e] names free by simp
  moreover have "login_step e c (At_Lookup display k) (as_db s, l') = (At_Failure display k, as_db s, l')"
    using wrong by (auto simp: wrong_guess_def Let_def split: option.split)
  then have "auth_step e ?s2 ?s3"
    using auth_step.proceed [of ?i ?s2 c "At_Lookup display k" e] by simp
  ultimately have "(auth_step e)\<^sup>*\<^sup>* s ?s3" by (meson converse_rtranclp_into_rtranclp rtranclp.rtrancl_refl)
  then show ?thesis by auto
qed

text \<open>C16: The limiter is asked before and told after the password is compared. Logins that run side
  by side pass the question together, so any number of passwords can be compared at once,
  whatever \<open>max_failures\<close> is.\<close>

theorem parallel_guesses_unbounded:
  assumes "call_key e c = Some k" "wrong_guess e c k (as_db s)"
    and "fst (check_rate_limit e k (seconds_of (lc_now c)) (as_limiter s)) = Inr ()"
  shows "\<exists>s'. (auth_step e)\<^sup>*\<^sup>* s s' \<and> n \<le> compared c k s' \<and> as_db s' = as_db s"
proof -
  have "\<exists>s'. (auth_step e)\<^sup>*\<^sup>* s s' \<and> n \<le> compared c k s' \<and> as_db s' = as_db s
     \<and> fst (check_rate_limit e k (seconds_of (lc_now c)) (as_limiter s')) = Inr ()"
  proof (induction n)
    case 0
    show ?case using assms(3) by (intro exI [of _ s]) simp
  next
    case (Suc n)
    then obtain s' where s': "(auth_step e)\<^sup>*\<^sup>* s s'" "n \<le> compared c k s'" "as_db s' = as_db s"
      "fst (check_rate_limit e k (seconds_of (lc_now c)) (as_limiter s')) = Inr ()" by blast
    then obtain l' where free: "check_rate_limit e k (seconds_of (lc_now c)) (as_limiter s') = (Inr (), l')"
      by (metis prod.collapse)
    obtain d where "(auth_step e)\<^sup>*\<^sup>* s' (s'\<lparr>as_limiter := l', as_logins := as_logins s' @ [(c, At_Failure d k)]\<rparr>)"
      (is "(auth_step e)\<^sup>*\<^sup>* s' ?t") using one_more_guess [OF assms(1) _ free] assms(2) s'(3) by auto
    moreover have "Suc n \<le> compared c k ?t" using s'(2) by (simp add: compared_def)
    moreover obtain l'' where "check_rate_limit e k (seconds_of (lc_now c)) l' = (Inr (), l'')"
      using check_again [OF free] by blast
    ultimately show ?case using s'(1,3) by (intro exI [of _ ?t]) (auto intro: rtranclp_trans)
  qed
  then show ?thesis by blast
qed

end
