(* ===== verification/Auth_Scenario.thy ===== *)
theory Auth_Scenario
  imports Auth_Properties Auth_Limits
begin

text \<open>
  A concrete store with an administrator and a viewer of one mine, and the witnesses of the
  properties at its states. The digests of the scenario are injective texts.
\<close>

definition ascii_upper :: "char \<Rightarrow> char" where
  "ascii_upper c =
     (if (97 :: nat) \<le> of_char c \<and> of_char c \<le> (122 :: nat) then char_of (of_char c - 32 :: nat) else c)"

definition char_in_range :: "nat \<Rightarrow> nat \<Rightarrow> char \<Rightarrow> bool" where
  "char_in_range a b c \<longleftrightarrow> a \<le> of_char c \<and> of_char c \<le> b"

definition demo_env :: auth_env where
  "demo_env = \<lparr>casefold = map ascii_lower, uppercase = map ascii_upper, is_lower = char_in_range 97 122,
     is_upper = char_in_range 65 90, is_digit = char_in_range 48 57,
     is_alnum = (\<lambda>c. char_in_range 97 122 c \<or> char_in_range 65 90 c \<or> char_in_range 48 57 c),
     scrypt = (\<lambda>p s. p @ ''/'' @ s), sha256_hex = (\<lambda>t. ''#'' @ t),
     absolute_timeout = 28800, idle_timeout = 1800, max_failures = 5, login_window = 300, lockout = 300\<rparr>"

definition demo_db1 :: auth_db where
  "demo_db1 = snd (bootstrap_admin demo_env 0 ''usr_1'' ''s1'' ''root'' ''Mine-Guard-2026'' False False new_auth_db)"

definition demo_db :: auth_db where
  "demo_db = snd (create_user demo_env 1 ''usr_2'' ''s2'' '' Alice'' ''Shaft-Seven-77'' ''viewer'' [''m1''] True
     False False demo_db1)"

definition alice_login :: login_call where
  "alice_login = \<lparr>lc_now = 1000000, lc_username = ''alice'', lc_password = ''Shaft-Seven-77'',
     lc_client = ''10.0.0.7'', lc_session = ''ses_1'', lc_token = ''tok_1'', lc_csrf = ''csrf_1''\<rparr>"

definition demo_start :: auth_state where
  "demo_start = auth_start\<lparr>as_db := demo_db\<rparr>"

definition alice_after :: "nat \<Rightarrow> auth_state" where
  "alice_after n = (case run_login n demo_env alice_login (At_Check, demo_db, new_limiter) of (ph, t, l) \<Rightarrow>
     \<lparr>as_db = t, as_limiter = l, as_logins = [(alice_login, ph)]\<rparr>)"

section \<open>Reaching the states\<close>

lemma run_login_steps:
  "run_login n e c (ph, t, l) = (ph', t', l') \<Longrightarrow>
     (auth_step e)\<^sup>*\<^sup>* \<lparr>as_db = t, as_limiter = l, as_logins = [(c, ph)]\<rparr>
       \<lparr>as_db = t', as_limiter = l', as_logins = [(c, ph')]\<rparr>"
proof (induction n arbitrary: ph t l)
  case (Suc n)
  obtain ph1 t1 l1 where one: "login_step e c ph (t, l) = (ph1, t1, l1)" by (metis prod_cases3)
  have "auth_step e \<lparr>as_db = t, as_limiter = l, as_logins = [(c, ph)]\<rparr>
      \<lparr>as_db = t1, as_limiter = l1, as_logins = [(c, ph1)]\<rparr>"
    using auth_step.proceed [of 0 "\<lparr>as_db = t, as_limiter = l, as_logins = [(c, ph)]\<rparr>" c ph e ph1 t1 l1] one
    by simp
  moreover have "run_login n e c (ph1, t1, l1) = (ph', t', l')" using Suc.prems one by simp
  note Suc.IH [OF this]
  ultimately show ?case by (rule converse_rtranclp_into_rtranclp)
qed simp

lemma demo_start_reachable: "auth_reachable demo_env demo_start"
proof -
  have "auth_call demo_env new_auth_db demo_db1"
    unfolding demo_db1_def by (rule auth_call.bootstrap [OF prod.collapse [symmetric]])
  then have "auth_reachable demo_env (auth_start\<lparr>as_db := demo_db1\<rparr>)"
    by (intro auth_reachable.step [OF auth_reachable.start] auth_step.call) (simp add: auth_start_def)
  moreover have "auth_call demo_env demo_db1 demo_db"
    unfolding demo_db_def by (rule auth_call.create [OF prod.collapse [symmetric]])
  ultimately show ?thesis unfolding demo_start_def
    using auth_reachable.step [OF _ auth_step.call, of demo_env "auth_start\<lparr>as_db := demo_db1\<rparr>" demo_db] by simp
qed

lemma alice_reachable: "auth_reachable demo_env (alice_after n)"
proof -
  have "auth_step demo_env demo_start (alice_after 0)"
    using auth_step.accept [of demo_env demo_start alice_login]
    by (simp add: demo_start_def alice_after_def auth_start_def)
  then have "auth_reachable demo_env (alice_after 0)" using demo_start_reachable by (rule auth_reachable.step [rotated])
  moreover have "(auth_step demo_env)\<^sup>*\<^sup>* (alice_after 0) (alice_after n)"
    by (auto simp: alice_after_def split: prod.split intro: run_login_steps)
  ultimately show ?thesis using auth_reachable_steps by blast
qed

section \<open>Its values\<close>

definition alice_row :: user_row where
  "alice_row = \<lparr>us_id = ''usr_2'', us_name = ''Alice'', us_role = Viewer, us_scopes = [''m1''],
     us_active = True, us_created = 1, us_updated = 1, us_must_change = False, us_demo = False,
     us_policy = 1, ur_key = ''alice'', ur_salt = ''s2'', ur_hash = ''Shaft-Seven-77/s2''\<rparr>"

definition alice_session :: session_row where
  "alice_session = \<lparr>se_id = ''ses_1'', se_user = ''usr_2'', se_created = 1000000, se_seen = 1000000,
     se_absolute = 28801000000, se_idle = 1801000000, se_revoked = None, sr_token = ''#tok_1'',
     sr_csrf = ''#csrf_1''\<rparr>"

definition root_row :: user_row where
  "root_row = \<lparr>us_id = ''usr_1'', us_name = ''root'', us_role = Admin, us_scopes = [],
     us_active = True, us_created = 0, us_updated = 0, us_must_change = False, us_demo = False,
     us_policy = 1, ur_key = ''root'', ur_salt = ''s1'', ur_hash = ''Mine-Guard-2026/s1''\<rparr>"

definition demo_log :: "auth_event list" where
  "demo_log =
     [\<lparr>ae_seq = 1, ae_action = ''bootstrap_admin'', ae_user = Some ''usr_1'', ae_name = Some ''root'',
        ae_client = None, ae_detail = JObj [], ae_created = 0\<rparr>,
      \<lparr>ae_seq = 2, ae_action = ''user_created'', ae_user = Some ''usr_2'', ae_name = Some ''Alice'',
        ae_client = None, ae_detail = created_json alice_row, ae_created = 1\<rparr>]"

lemma demo_db_value [code]: "demo_db = \<lparr>users = [root_row, alice_row], sessions = [],
    audit_events = demo_log, bootstrap_id = Some ''usr_1''\<rparr>"
  by code_simp

lemma alice_values:
  "as_logins (alice_after 3) = [(alice_login, At_Open alice_row)]"
  "users (as_db (alice_after 3)) = users demo_db" "sessions (as_db (alice_after 3)) = []"
  "users (as_db (alice_after 4)) = users demo_db" "sessions (as_db (alice_after 4)) = [alice_session]"
  by code_simp+

lemma settings_demo: "settings_ok demo_env"
  by code_simp

section \<open>Witnesses\<close>

definition alice :: principal where
  "alice = \<lparr>pr_user = ''usr_2'', pr_name = ''Alice'', pr_role = Viewer, pr_scopes = [''m1''],
     pr_session = ''ses_1'', pr_active = True, pr_must_change = False, pr_demo = False, pr_policy = 1\<rparr>"

definition alice_request :: "gate \<times> auth_db" where
  "alice_request = require_authenticated demo_env 2000000 (Some ''tok_1'') True (Some ''csrf_1'') ''POST''
     (as_db (alice_after 4))"

lemma alice_granted: "fst alice_request = Granted alice"
  by code_simp

lemma alice_permitted:
  "fst (require_permission 2000001 ''10.0.0.7'' alice ''case.read'' (Some ''m1'') t) = Granted alice"
proof -
  have "authorize alice ''case.read'' (Some ''m1'') = Inr ()" by code_simp
  then show ?thesis by (simp add: require_permission_def)
qed

theorem granted_requests_are_authorized_witness:
  "fst alice_request = Granted alice \<and> (\<exists>x u. x \<in> set (sessions (as_db (alice_after 4)))
     \<and> u \<in> set (users (as_db (alice_after 4))) \<and> se_user x = us_id u \<and> us_active u
     \<and> 2000000 < se_seen x + micros (idle_timeout demo_env)
     \<and> sr_csrf x = sha256_hex demo_env ''csrf_1''
     \<and> (us_role u = Admin \<or> ''m1'' \<in> set (us_scopes u)))"
proof -
  obtain t where t: "require_authenticated demo_env 2000000 (Some ''tok_1'') True (Some ''csrf_1'') ''POST''
      (as_db (alice_after 4)) = (Granted alice, t)"
    using alice_granted unfolding alice_request_def by (metis prod.collapse)
  obtain t' where t': "require_permission 2000001 ''10.0.0.7'' alice ''case.read'' (Some ''m1'') t = (Granted alice, t')"
    using alice_permitted by (metis prod.collapse)
  have post: "uppercase demo_env ''POST'' \<notin> set safe_methods" by code_simp
  show ?thesis
    using granted_requests_are_authorized [OF alice_reachable t] t' post alice_granted by blast
qed

theorem active_admin_remains_witness:
  "\<exists>u \<in> set (users (as_db (alice_after 4))). us_active u \<and> us_role u = Admin"
  by (rule active_admin_remains [OF alice_reachable]) code_simp

definition reset_alice :: "auth_db \<Rightarrow> (auth_error + unit) \<times> auth_db" where
  "reset_alice = reset_password demo_env 1500000 ''s3'' ''Alice'' ''Fresh-Drift-88'' True False True"

lemma alice_user: "alice_row \<in> set (users demo_db)" "us_id alice_row = ''usr_2''" "us_active alice_row"
    "normalise_username demo_env ''Alice'' = Inr (''Alice'', ur_key alice_row)"
proof -
  show "normalise_username demo_env ''Alice'' = Inr (''Alice'', ur_key alice_row)" by code_simp
qed (simp_all add: demo_db_value, simp_all add: alice_row_def)

theorem evicted_sessions_stay_out_witness:
  "fst (reset_alice (as_db (alice_after 4))) = Inr ()
     \<and> authenticate demo_env 2000000 ''tok_1'' True (snd (reset_alice (as_db (alice_after 4))))
       = (Inl Invalid_Session, snd (reset_alice (as_db (alice_after 4))))"
proof -
  let ?s = "alice_after 4" and ?d = "snd (reset_alice (as_db (alice_after 4)))"
  have ok: "fst (reset_alice (as_db ?s)) = Inr ()" by code_simp
  then have "evicts demo_env ''Alice'' (as_db ?s) ?d"
    unfolding reset_alice_def by (metis evicts.replaced prod.collapse)
  moreover have "alice_session \<in> set (sessions (as_db ?s))" "alice_row \<in> set (users (as_db ?s))"
    using alice_user(1) by (simp_all add: alice_values)
  moreover have "sr_token alice_session = sha256_hex demo_env ''tok_1''" "us_id alice_row = se_user alice_session"
    by (simp_all add: alice_session_def alice_row_def demo_env_def)
  ultimately have "authenticate demo_env 2000000 ''tok_1'' True (as_db (?s\<lparr>as_db := ?d\<rparr>))
      = (Inl Invalid_Session, as_db (?s\<lparr>as_db := ?d\<rparr>))"
    using alice_user(4) by (intro evicted_sessions_stay_out [OF alice_reachable _ _ _ _ _ _ rtranclp.rtrancl_refl])
  then show ?thesis using ok by simp
qed

theorem expired_session_not_revoked_witness:
  "authenticate demo_env 1801000000 ''tok_1'' True (as_db (alice_after 4))
     = (Inl Session_Expired, as_db (alice_after 4))"
proof (rule expired_session_not_revoked [OF alice_reachable, of alice_session _ _ alice_row])
  show "alice_session \<in> set (sessions (as_db (alice_after 4)))" "alice_row \<in> set (users (as_db (alice_after 4)))"
    using alice_user(1) by (simp_all add: alice_values)
qed (simp_all add: alice_session_def alice_row_def demo_env_def micros_def)

theorem late_login_survives_reset_witness:
  "fst (reset_alice (as_db (alice_after 3))) = Inr ()
     \<and> (\<exists>s' p. (auth_step demo_env)\<^sup>*\<^sup>* ((alice_after 3)\<lparr>as_db := snd (reset_alice (as_db (alice_after 3)))\<rparr>) s'
       \<and> fst (authenticate demo_env 1000000 ''tok_1'' True (as_db s')) = Inr p \<and> pr_user p = ''usr_2'')"
proof -
  let ?s = "alice_after 3"
  have ok: "fst (reset_alice (as_db ?s)) = Inr ()" by code_simp
  then have "reset_password demo_env 1500000 ''s3'' ''Alice'' ''Fresh-Drift-88'' True False True (as_db ?s)
      = (Inr (), snd (reset_alice (as_db ?s)))"
    unfolding reset_alice_def by (metis prod.collapse)
  from late_login_survives_reset [OF alice_reachable _ _ _ _ _ alice_user(4) this, of 0 alice_login alice_row True]
  show ?thesis using ok alice_user settings_demo by (simp add: alice_values alice_login_def)
qed

definition bad_login :: "nat \<Rightarrow> login_call" where
  "bad_login n = alice_login\<lparr>lc_now := 1000000 * int n, lc_password := ''guess''\<rparr>"

definition bad_key :: rate_key where
  "bad_key = (''alice'', ''10.0.0.7'')"

lemma bad_login_facts: "call_key demo_env (bad_login n) = Some bad_key"
    "wrong_guess demo_env (bad_login n) bad_key demo_db" "seconds_of (lc_now (bad_login n)) = of_nat n"
proof -
  have "call_key demo_env alice_login = Some bad_key" by code_simp
  then show "call_key demo_env (bad_login n) = Some bad_key"
    by (auto simp: bad_login_def call_key_def split: sum.splits)
  have "wrong_guess demo_env (bad_login 0) bad_key demo_db" by code_simp
  then show "wrong_guess demo_env (bad_login n) bad_key demo_db" by (simp add: bad_login_def wrong_guess_def)
  show "seconds_of (lc_now (bad_login n)) = of_nat n" by (simp add: bad_login_def seconds_of_def)
qed

text \<open>Two hundred wrong passwords, none of them right.\<close>

theorem guesses_bounded_witness:
  "refused_guesses demo_env bad_key (guesses demo_env (map (\<lambda>n. (bad_login n, demo_db)) [0 ..< 200]) new_limiter) \<le> 5"
proof -
  let ?cs = "map (\<lambda>n. (bad_login n, demo_db)) [0 ..< 200]"
  have demo: "max_failures demo_env = 5" "login_window demo_env = 300" "lockout demo_env = 300"
    by (simp_all add: demo_env_def)
  have "\<not> right_guess demo_env (bad_login n) bad_key demo_db" for n
    using bad_login_facts(2) [of n] by (simp add: wrong_guess_def right_guess_def)
  then have "clearing_logins demo_env bad_key (guesses demo_env (map (\<lambda>n. (bad_login n, demo_db)) ns) l) = 0" for ns l
    by (induction ns arbitrary: l) (auto simp: clearing_logins_def split: prod.split)
  then show ?thesis
    using guesses_bounded [OF settings_demo, of 300 0 ?cs bad_key new_limiter] demo
    by (simp add: bad_login_facts)
qed

theorem parallel_guesses_unbounded_witness:
  "\<exists>s'. (auth_step demo_env)\<^sup>*\<^sup>* demo_start s' \<and> 1000 \<le> compared (bad_login 0) bad_key s' \<and> as_db s' = demo_db"
proof -
  have "as_db demo_start = demo_db" "as_limiter demo_start = new_limiter"
    by (simp_all add: demo_start_def auth_start_def)
  then show ?thesis
    using parallel_guesses_unbounded [of demo_env "bad_login 0" bad_key demo_start 1000] bad_login_facts [of 0]
    by (simp add: check_rate_limit_def new_limiter_def)
qed

definition foreign_password :: string where
  "foreign_password = ''Sch'' @ [CHR 0xE4] @ ''chte-Sieben-77''"

theorem non_ascii_password_refused_witness:
  "validate_strong_password demo_env foreign_password = Inr ()
     \<and> change_password demo_env 2 ''s4'' ''Alice'' ''Shaft-Seven-77'' foreign_password demo_db = (Inl Type_Error, demo_db)"
proof -
  have strong: "validate_strong_password demo_env foreign_password = Inr ()" by code_simp
  have "CHR 0xE4 \<in> set foreign_password" "\<not> ascii (CHR 0xE4)" by (simp_all add: foreign_password_def ascii_def)
  from non_ascii_password_refused [OF alice_user(4) strong this] show ?thesis using strong by simp
qed

theorem production_ready_iff_witness:
  "\<exists>status. production_credential_status demo_env common_weak_passwords demo_db = (Inr status, demo_db)
     \<and> (cs_ready status \<longleftrightarrow>
        (\<forall>u \<in> set (users demo_db). us_active u \<longrightarrow> sound_credential demo_env common_weak_passwords u)
        \<and> (\<exists>u \<in> set (users demo_db). us_active u \<and> us_role u = Admin
             \<and> sound_credential demo_env common_weak_passwords u \<and> \<not> us_must_change u))
     \<and> cs_ready status"
proof -
  let ?run = "production_credential_status demo_env common_weak_passwords demo_db"
  have "(case fst ?run of Inr status \<Rightarrow> cs_ready status | Inl _ \<Rightarrow> False)" by code_simp
  then obtain status t where run: "?run = (Inr status, t)" and ready: "cs_ready status"
    by (cases ?run) (auto split: sum.splits)
  show ?thesis using production_ready_iff [OF run] run ready by blast
qed

end
