(* ===== verification/Case_Types.thy ===== *)
theory Case_Types
  imports Json_Documents Checks
begin

text \<open>
  Data of \<open>mineguard/casework.py\<close>: batches of analyses with their runs, the cases raised from them,
  reference labels, and the three hash-chained event tables. Documents are JSON values; an
  instant is a number of microseconds and \<open>stamp\<close> its stored text. Display texts are abbreviated.
\<close>

section \<open>Errors and settings\<close>

datatype case_error =
    Batch_Conflict | Batch_Not_Found | Case_Not_Found | Run_Not_Found | Version_Conflict
  | Invalid_Action | Record_Integrity | Value_Fault | Constraint_Fault | Assert_Fault

text \<open>
  What the repository draws from Python: SHA-256 of canonical JSON and of a text, the calendar
  (the text of a second without fraction and zone), NFKC, and the printable characters.
\<close>

record case_env =
  doc_digest :: "json \<Rightarrow> string"
  text_digest :: "string \<Rightarrow> string"
  civil :: "int \<Rightarrow> string"
  nfkc :: "string \<Rightarrow> string"
  printable :: "char \<Rightarrow> bool"

text \<open>
  \<open>isoformat\<close> in UTC with \<open>Z\<close>: the fraction is written with six digits, or left out when it is
  zero. Stamps are compared as texts.
\<close>

definition pad6 :: "nat \<Rightarrow> string" where
  "pad6 n = (let d = decimal n in replicate (6 - length d) CHR ''0'' @ d)"

definition stamp :: "case_env \<Rightarrow> int \<Rightarrow> string" where
  "stamp e t = civil e (t div 1000000)
     @ (if t mod 1000000 = 0 then [] else CHR ''.'' # pad6 (nat (t mod 1000000))) @ ''Z''"

section \<open>Requests and responses\<close>

record portfolio_item =
  it_mine :: string
  it_status :: string
  it_priority :: string
  it_grade :: "string option"
  it_summary :: string
  it_checks :: "json list"
  it_analysis :: "json option"

record portfolio =
  pf_batch :: string
  pf_name :: string
  pf_inputs :: "(string \<times> json) list"
  pf_request :: json
  pf_items :: "portfolio_item list"
  pf_response :: json
  pf_context :: "json option"

section \<open>Rows\<close>

record portfolio_row =
  ba_id :: string
  ba_name :: string
  ba_request_sha :: string
  ba_request :: json
  ba_response_sha :: "string option"
  ba_response :: json
  ba_context_sha :: "string option"
  ba_context :: "json option"
  ba_origin :: "string option"
  ba_created :: int
  ba_version :: int
  ba_invalid_at :: "int option"
  ba_invalid_by :: "string option"
  ba_invalid_reason :: "string option"

record analysis_row =
  ru_id :: string
  ru_batch :: string
  ru_mine :: string
  ru_status :: string
  ru_input_sha :: string
  ru_input :: json
  ru_result_sha :: string
  ru_result :: json
  ru_engine :: string
  ru_created :: int

datatype workflow = Pending | Reviewing | Waiting_Data | Pending_Approval | Closed

fun workflow_text :: "workflow \<Rightarrow> string" where
  "workflow_text Pending = ''pending''"
| "workflow_text Reviewing = ''reviewing''"
| "workflow_text Waiting_Data = ''waiting_data''"
| "workflow_text Pending_Approval = ''pending_approval''"
| "workflow_text Closed = ''closed''"

record case_row =
  ca_id :: string
  ca_run :: "string option"
  ca_batch :: string
  ca_mine :: string
  ca_issue :: string
  ca_title :: string
  ca_summary :: string
  ca_priority :: string
  ca_technical :: string
  ca_grade :: "string option"
  ca_workflow :: workflow
  ca_disposition :: "string option"
  ca_assignee :: "string option"
  ca_conclusion_by :: "string option"
  ca_conclusion_at :: "int option"
  ca_approval_by :: "string option"
  ca_approval_at :: "int option"
  ca_approval_note :: "string option"
  ca_archived_at :: "int option"
  ca_archived_by :: "string option"
  ca_archived_reason :: "string option"
  ca_version :: int
  ca_checks :: "json list"
  ca_created :: int
  ca_updated :: int

text \<open>A row of \<open>case_events\<close> or \<open>batch_lifecycle_events\<close>, keyed by its case or batch.\<close>

record state_event =
  ev_key :: string
  ev_seq :: nat
  ev_action :: string
  ev_actor :: string
  ev_note :: "string option"
  ev_before :: "json option"
  ev_after :: json
  ev_previous :: string
  ev_hash :: string
  ev_created :: int

record label_row =
  lb_run :: string
  lb_seq :: nat
  lb_label :: string
  lb_scenario :: "string option"
  lb_actor :: string
  lb_note :: string
  lb_previous :: string
  lb_hash :: string
  lb_created :: int

record nonce_claim =
  nc_client :: string
  nc_nonce :: string
  nc_request :: int
  nc_expires :: int
  nc_created :: int

record case_db =
  batches :: "portfolio_row list"
  lifecycle :: "state_event list"
  analysis_runs :: "analysis_row list"
  labels :: "label_row list"
  cases :: "case_row list"
  case_events :: "state_event list"
  request_nonces :: "nonce_claim list"

definition new_case_db :: case_db where
  "new_case_db = \<lparr>batches = [], lifecycle = [], analysis_runs = [], labels = [], cases = [],
     case_events = [], request_nonces = []\<rparr>"

section \<open>Documents\<close>

definition json_stamp :: "case_env \<Rightarrow> int option \<Rightarrow> json" where
  "json_stamp e t = json_opt (map_option (stamp e) t)"

definition case_dict :: "case_env \<Rightarrow> case_row \<Rightarrow> json" where
  "case_dict e c = JObj
     [(''case_id'', JStr (ca_id c)), (''run_id'', json_opt (ca_run c)), (''batch_id'', JStr (ca_batch c)),
      (''mine_id'', JStr (ca_mine c)), (''issue_code'', JStr (ca_issue c)), (''title'', JStr (ca_title c)),
      (''summary'', JStr (ca_summary c)), (''priority'', JStr (ca_priority c)),
      (''technical_status'', JStr (ca_technical c)), (''evidence_grade'', json_opt (ca_grade c)),
      (''workflow_status'', JStr (workflow_text (ca_workflow c))),
      (''disposition'', json_opt (ca_disposition c)), (''assignee'', json_opt (ca_assignee c)),
      (''conclusion_by'', json_opt (ca_conclusion_by c)),
      (''conclusion_at'', json_stamp e (ca_conclusion_at c)),
      (''approval_by'', json_opt (ca_approval_by c)), (''approval_at'', json_stamp e (ca_approval_at c)),
      (''approval_note'', json_opt (ca_approval_note c)),
      (''archived_at'', json_stamp e (ca_archived_at c)), (''archived_by'', json_opt (ca_archived_by c)),
      (''archived_reason'', json_opt (ca_archived_reason c)), (''version'', json_int (ca_version c)),
      (''recommended_checks'', JArr (ca_checks c)), (''created_at'', JStr (stamp e (ca_created c))),
      (''updated_at'', JStr (stamp e (ca_updated c)))]"

definition batch_json :: "case_env \<Rightarrow> portfolio_row \<Rightarrow> json" where
  "batch_json e b = JObj
     [(''batch_id'', JStr (ba_id b)), (''active'', JBool (ba_invalid_at b = None)),
      (''version'', json_int (ba_version b)), (''invalidated_at'', json_stamp e (ba_invalid_at b)),
      (''invalidated_by'', json_opt (ba_invalid_by b)), (''reason'', json_opt (ba_invalid_reason b))]"

definition sha_json :: "case_env \<Rightarrow> json \<Rightarrow> string" where
  "sha_json e j = doc_digest e (canonical j)"

definition json_or_null :: "json option \<Rightarrow> json" where
  "json_or_null j = (case j of None \<Rightarrow> JNull | Some d \<Rightarrow> d)"

text \<open>The payloads whose digests are stored. The fields are named \<open>case_id\<close> and \<open>note\<close> for cases,
  \<open>batch_id\<close> and \<open>reason\<close> for batches.\<close>

definition event_digest :: "case_env \<Rightarrow> string \<Rightarrow> string \<Rightarrow> state_event \<Rightarrow> string" where
  "event_digest e key_name note_name v = sha_json e (JObj
     [(key_name, JStr (ev_key v)), (''sequence'', json_int (int (ev_seq v))),
      (''action'', JStr (ev_action v)), (''actor'', JStr (ev_actor v)), (note_name, json_opt (ev_note v)),
      (''before'', json_or_null (ev_before v)), (''after'', ev_after v),
      (''previous_hash'', JStr (ev_previous v)), (''created_at'', JStr (stamp e (ev_created v)))])"

definition label_digest :: "case_env \<Rightarrow> label_row \<Rightarrow> string" where
  "label_digest e l = sha_json e (JObj
     [(''run_id'', JStr (lb_run l)), (''sequence'', json_int (int (lb_seq l))),
      (''label'', JStr (lb_label l)), (''scenario_id'', json_opt (lb_scenario l)),
      (''actor'', JStr (lb_actor l)), (''note'', JStr (lb_note l)),
      (''previous_hash'', JStr (lb_previous l)), (''created_at'', JStr (stamp e (lb_created l)))])"

definition stable_id :: "case_env \<Rightarrow> string \<Rightarrow> string list \<Rightarrow> string" where
  "stable_id e kind parts = kind @ ''_'' @ take 24 (text_digest e (join_texts [CHR 0x1F] parts))"

section \<open>Bounded texts\<close>

text \<open>\<open>_bounded_text\<close> of a string: NFKC, line ends, white space, length, printable characters.\<close>

fun crlf_to_lf :: "string \<Rightarrow> string" where
  "crlf_to_lf (a # b # s) = (if a = CHR 0x0D \<and> b = CHR 0x0A then CHR 0x0A # crlf_to_lf s else a # crlf_to_lf (b # s))"
| "crlf_to_lf s = s"

definition bounded_text :: "case_env \<Rightarrow> nat \<Rightarrow> bool \<Rightarrow> string \<Rightarrow> case_error + string option" where
  "bounded_text e maximum multiline text =
     (let normal = crlf_to_lf (nfkc e text); stripped = python_strip normal in
      if \<not> multiline \<and> list_ex (\<lambda>c. c \<in> {CHR 0x0D, CHR 0x0A, CHR 0x09}) normal then Inl Value_Fault
      else if stripped = [] then Inr None
      else if maximum < length stripped then Inl Value_Fault
      else if list_ex (\<lambda>c. \<not> printable e c \<and> \<not> (multiline \<and> c \<in> {CHR 0x0A, CHR 0x09})) stripped
        then Inl Value_Fault
      else Inr (Some stripped))"

definition required_text :: "case_env \<Rightarrow> nat \<Rightarrow> bool \<Rightarrow> string \<Rightarrow> case_error + string" where
  "required_text e maximum multiline text = (case bounded_text e maximum multiline text of
     Inl x \<Rightarrow> Inl x | Inr None \<Rightarrow> Inl Value_Fault | Inr (Some t) \<Rightarrow> Inr t)"

definition optional_text :: "case_env \<Rightarrow> nat \<Rightarrow> string option \<Rightarrow> case_error + string option" where
  "optional_text e maximum text = (case text of None \<Rightarrow> Inr None | Some t \<Rightarrow> bounded_text e maximum False t)"

end
