(* ===== verification/Case_Store.thy ===== *)
theory Case_Store
  imports Case_Types
begin

text \<open>
  The methods of \<open>LocalRepository\<close> for batches, cases and reference labels. The lock makes each
  method atomic; a transaction is rolled back on any exception. Feature windows are inserted by
  the parameter \<open>features\<close>, which may raise and writes tables of its own.
\<close>

type_synonym 'a case_op = "(case_db, case_error, 'a) op"

definition case_tx :: "'a case_op \<Rightarrow> 'a case_op" where
  "case_tx m = transaction (\<lambda>_. False) (\<lambda>s t. s) m"

definition find_batch :: "string \<Rightarrow> case_db \<Rightarrow> portfolio_row option" where
  "find_batch i s = find (\<lambda>b. ba_id b = i) (batches s)"

definition find_case :: "string \<Rightarrow> case_db \<Rightarrow> case_row option" where
  "find_case i s = find (\<lambda>c. ca_id c = i) (cases s)"

definition find_run :: "string \<Rightarrow> case_db \<Rightarrow> analysis_row option" where
  "find_run i s = find (\<lambda>r. ru_id r = i) (analysis_runs s)"

section \<open>Event tables\<close>

text \<open>The events of a case or batch, \<open>ORDER BY sequence\<close>.\<close>

definition events_of :: "string \<Rightarrow> state_event list \<Rightarrow> state_event list" where
  "events_of k vs = sort_key ev_seq (filter (\<lambda>v. ev_key v = k) vs)"

definition next_event ::
    "case_env \<Rightarrow> string \<Rightarrow> string \<Rightarrow> string \<Rightarrow> string \<Rightarrow> string \<Rightarrow> string option \<Rightarrow> json option \<Rightarrow> json \<Rightarrow> int \<Rightarrow>
      state_event list \<Rightarrow> state_event" where
  "next_event e key_name note_name k action actor note before after created vs =
     (let prior = events_of k vs;
          v = \<lparr>ev_key = k, ev_seq = (if prior = [] then 1 else ev_seq (last prior) + 1),
               ev_action = action, ev_actor = actor, ev_note = note, ev_before = before,
               ev_after = after, ev_previous = (if prior = [] then [] else ev_hash (last prior)),
               ev_hash = [], ev_created = created\<rparr>
      in v\<lparr>ev_before := map_option canonical before, ev_after := canonical after,
           ev_hash := event_digest e key_name note_name v\<rparr>)"

definition append_case_event ::
    "case_env \<Rightarrow> string \<Rightarrow> string \<Rightarrow> string \<Rightarrow> string option \<Rightarrow> json option \<Rightarrow> json \<Rightarrow> int \<Rightarrow> unit case_op" where
  "append_case_event e k action actor note before after created = writing (\<lambda>s. s\<lparr>case_events :=
     case_events s @ [next_event e ''case_id'' ''note'' k action actor note before after created (case_events s)]\<rparr>)"

definition append_batch_event ::
    "case_env \<Rightarrow> string \<Rightarrow> string \<Rightarrow> string \<Rightarrow> string option \<Rightarrow> json option \<Rightarrow> json \<Rightarrow> int \<Rightarrow> unit case_op" where
  "append_batch_event e k action actor reason before after created = writing (\<lambda>s. s\<lparr>lifecycle :=
     lifecycle s @ [next_event e ''batch_id'' ''reason'' k action actor reason before after created (lifecycle s)]\<rparr>)"

text \<open>The loop of the two verifications; \<open>same\<close> compares a state with the one recorded before.\<close>

fun events_linked :: "(state_event \<Rightarrow> string) \<Rightarrow> (json option \<Rightarrow> json option \<Rightarrow> bool) \<Rightarrow> string \<Rightarrow> json option \<Rightarrow>
    state_event list \<Rightarrow> bool" where
  "events_linked digest same expected previous [] = True"
| "events_linked digest same expected previous (v # vs) =
     (ev_previous v = expected \<and> digest v = ev_hash v
      \<and> (previous = None \<or> same (ev_before v) previous)
      \<and> events_linked digest same (ev_hash v) (Some (ev_after v)) vs)"

definition same_document :: "json option \<Rightarrow> json option \<Rightarrow> bool" where
  "same_document a b \<longleftrightarrow> map_option canonical a = map_option canonical b"

section \<open>Batches\<close>

definition change_batch :: "string \<Rightarrow> (portfolio_row \<Rightarrow> portfolio_row) \<Rightarrow> case_db \<Rightarrow> case_db" where
  "change_batch i f s = s\<lparr>batches := map (\<lambda>b. if ba_id b = i then f b else b) (batches s)\<rparr>"

definition set_batch_active ::
    "case_env \<Rightarrow> int \<Rightarrow> string \<Rightarrow> bool \<Rightarrow> int \<Rightarrow> string \<Rightarrow> string \<Rightarrow> (bool \<times> portfolio_row) case_op" where
  "set_batch_active e now i active expected actor0 reason0 =
     (let actor = python_strip actor0; reason = python_strip reason0 in
      bind (require (actor \<noteq> [] \<and> reason \<noteq> [] \<and> 1 \<le> expected) Value_Fault) (\<lambda>_.
      case_tx (bind (reading (find_batch i)) (\<lambda>r. bind (the_row Batch_Not_Found r) (\<lambda>before.
        bind (require (ba_version before = expected) Version_Conflict) (\<lambda>_.
        if (ba_invalid_at before = None) = active then ret (False, before)
        else
          bind (writing (change_batch i (\<lambda>b. if ba_version b = expected then
              b\<lparr>ba_version := expected + 1, ba_invalid_at := (if active then None else Some now),
                ba_invalid_by := (if active then None else Some actor),
                ba_invalid_reason := (if active then None else Some reason)\<rparr> else b))) (\<lambda>_.
          bind (reading (find_batch i)) (\<lambda>q. bind (the_row Assert_Fault q) (\<lambda>after.
          bind (append_batch_event e i (if active then ''restored'' else ''invalidated'') actor (Some reason)
            (Some (batch_json e before)) (batch_json e after) now) (\<lambda>_.
          ret (True, after)))))))))))"

definition isolate_legacy_pilot_batches ::
    "case_env \<Rightarrow> int \<Rightarrow> string \<Rightarrow> string \<Rightarrow> (bool \<times> portfolio_row) list case_op" where
  "isolate_legacy_pilot_batches e now actor reason =
     bind (reading (\<lambda>s. sort_key ba_id (filter (\<lambda>b. ba_invalid_at b = None \<and> take 6 (ba_id b) = ''pilot-'')
       (batches s))))
     (map_each (\<lambda>b. set_batch_active e now (ba_id b) False (ba_version b) actor reason))"

definition verify_batch_lifecycle_chain :: "case_env \<Rightarrow> string \<Rightarrow> case_db \<Rightarrow> case_error + bool" where
  "verify_batch_lifecycle_chain e i s = (case find_batch i s of
     None \<Rightarrow> Inl Batch_Not_Found
   | Some b \<Rightarrow> (let vs = events_of i (lifecycle s) in
       Inr (events_linked (event_digest e ''batch_id'' ''reason'') same_document [] None vs
         \<and> vs \<noteq> [] \<and> same_document (Some (ev_after (last vs))) (Some (batch_json e b)))))"

definition latest_batch :: "bool \<Rightarrow> case_db \<Rightarrow> portfolio_row option" where
  "latest_batch include_invalidated s =
     find_last (\<lambda>b. include_invalidated \<or> ba_invalid_at b = None) (batches s)"

definition list_batches :: "int \<Rightarrow> bool \<Rightarrow> case_db \<Rightarrow> portfolio_row list" where
  "list_batches limit include_invalidated s = take (nat (max 1 (min limit 1000)))
     (rev (filter (\<lambda>b. include_invalidated \<or> ba_invalid_at b = None) (batches s)))"

section \<open>Cases\<close>

definition issue_of :: "string \<Rightarrow> string" where
  "issue_of status = (if status = ''inconsistent'' then ''production_conflict''
     else if status = ''not_received'' then ''missing_report'' else ''data_insufficient'')"

definition default_checks :: "string \<Rightarrow> json list" where
  "default_checks status = (if status = ''not_received'' then
       [JStr ''confirm that a report was due'', JStr ''obtain the data and run the analysis again'']
     else [JStr ''check inputs, devices and time range'', JStr ''correct the data and run the analysis again''])"

definition new_case :: "case_env \<Rightarrow> string \<Rightarrow> portfolio_item \<Rightarrow> string option \<Rightarrow> int \<Rightarrow> case_row" where
  "new_case e batch item run created = (let issue = issue_of (it_status item) in
     \<lparr>ca_id = stable_id e ''case'' [batch, it_mine item, issue], ca_run = run, ca_batch = batch,
      ca_mine = it_mine item, ca_issue = issue, ca_title = it_mine item @ '' '' @ issue,
      ca_summary = it_summary item, ca_priority = it_priority item, ca_technical = it_status item,
      ca_grade = it_grade item, ca_workflow = Pending, ca_disposition = None, ca_assignee = None,
      ca_conclusion_by = None, ca_conclusion_at = None, ca_approval_by = None, ca_approval_at = None,
      ca_approval_note = None, ca_archived_at = None, ca_archived_by = None, ca_archived_reason = None,
      ca_version = 1,
      ca_checks = (if it_checks item = [] then default_checks (it_status item) else it_checks item),
      ca_created = created, ca_updated = created\<rparr>)"

definition case_clash :: "case_row \<Rightarrow> case_row \<Rightarrow> bool" where
  "case_clash a b \<longleftrightarrow> ca_id a = ca_id b \<or> (ca_batch a = ca_batch b \<and> ca_mine a = ca_mine b)"

definition insert_case :: "case_env \<Rightarrow> string \<Rightarrow> portfolio_item \<Rightarrow> string option \<Rightarrow> int \<Rightarrow> unit case_op" where
  "insert_case e batch item run created = (let c = new_case e batch item run created in
     bind (reading (\<lambda>s. insert_row case_clash c (cases s))) (\<lambda>r. bind (the_row Constraint_Fault r) (\<lambda>rows.
     bind (writing (\<lambda>s. s\<lparr>cases := rows\<rparr>)) (\<lambda>_.
     append_case_event e (ca_id c) ''created'' ''system'' (Some ''created from the analysis of the batch'')
       None (case_dict e c) created))))"

datatype case_action =
    Assign | Add_Note | Start_Review | Request_Data | Submit_Conclusion | Withdraw_Conclusion
  | Approve | Reject | Close_Case | Reopen | Archive_Case | Restore_Case

fun action_text :: "case_action \<Rightarrow> string" where
  "action_text Assign = ''assign''"
| "action_text Add_Note = ''add_note''"
| "action_text Start_Review = ''start_review''"
| "action_text Request_Data = ''request_data''"
| "action_text Submit_Conclusion = ''submit_conclusion''"
| "action_text Withdraw_Conclusion = ''withdraw_conclusion''"
| "action_text Approve = ''approve''"
| "action_text Reject = ''reject''"
| "action_text Close_Case = ''close''"
| "action_text Reopen = ''reopen''"
| "action_text Archive_Case = ''archive_case''"
| "action_text Restore_Case = ''restore_case''"

definition dispositions :: "string list" where
  "dispositions = [''confirmed_technical_issue'', ''excluded'', ''data_insufficient'', ''partially_supported'']"

definition given :: "string option \<Rightarrow> bool" where
  "given x \<longleftrightarrow> x \<noteq> None \<and> x \<noteq> Some []"

definition supported :: "string option \<Rightarrow> bool" where
  "supported d \<longleftrightarrow> d \<in> Some ` set dispositions"

definition without_conclusion :: "workflow \<Rightarrow> string option \<Rightarrow> case_row \<Rightarrow> case_row" where
  "without_conclusion w note c = c\<lparr>ca_workflow := w, ca_disposition := None, ca_conclusion_by := None,
     ca_conclusion_at := None, ca_approval_by := None, ca_approval_at := None, ca_approval_note := note\<rparr>"

definition direct_close_note :: string where
  "direct_close_note = ''closed directly in compatibility mode''"

text \<open>The guards and assignments of one action; \<open>now\<close> is when it occurred.\<close>

fun decide_case :: "case_action \<Rightarrow> int \<Rightarrow> string \<Rightarrow> string option \<Rightarrow> string option \<Rightarrow> string option \<Rightarrow>
    case_row \<Rightarrow> case_row option" where
  "decide_case Archive_Case now actor note disposition assignee c =
     (if ca_archived_at c = None \<and> ca_workflow c = Closed \<and> given note
      then Some (c\<lparr>ca_archived_at := Some now, ca_archived_by := Some actor, ca_archived_reason := note\<rparr>) else None)"
| "decide_case Restore_Case now actor note disposition assignee c =
     (if ca_archived_at c \<noteq> None \<and> given note
      then Some (c\<lparr>ca_archived_at := None, ca_archived_by := None, ca_archived_reason := None\<rparr>) else None)"
| "decide_case Assign now actor note disposition assignee c =
     (if ca_archived_at c = None \<and> ca_workflow c \<noteq> Closed \<and> given assignee
      then Some (c\<lparr>ca_assignee := assignee\<rparr>) else None)"
| "decide_case Add_Note now actor note disposition assignee c =
     (if ca_archived_at c = None \<and> given note then Some c else None)"
| "decide_case Start_Review now actor note disposition assignee c =
     (if ca_archived_at c = None \<and> ca_workflow c \<in> {Pending, Waiting_Data}
      then Some (c\<lparr>ca_workflow := Reviewing\<rparr>) else None)"
| "decide_case Request_Data now actor note disposition assignee c =
     (if ca_archived_at c = None \<and> ca_workflow c \<in> {Pending, Reviewing} \<and> given note
      then Some (c\<lparr>ca_workflow := Waiting_Data\<rparr>) else None)"
| "decide_case Submit_Conclusion now actor note disposition assignee c =
     (if ca_archived_at c = None \<and> ca_workflow c \<in> {Pending, Reviewing, Waiting_Data} \<and> given note
         \<and> supported disposition
      then Some (c\<lparr>ca_workflow := Pending_Approval, ca_disposition := disposition,
        ca_conclusion_by := Some actor, ca_conclusion_at := Some now, ca_approval_by := None,
        ca_approval_at := None, ca_approval_note := None\<rparr>) else None)"
| "decide_case Withdraw_Conclusion now actor note disposition assignee c =
     (if ca_archived_at c = None \<and> ca_workflow c = Pending_Approval \<and> ca_conclusion_by c = Some actor
         \<and> given note
      then Some (without_conclusion Reviewing None c) else None)"
| "decide_case Approve now actor note disposition assignee c =
     (if ca_archived_at c = None \<and> ca_workflow c = Pending_Approval \<and> given note
         \<and> ca_conclusion_by c \<noteq> Some actor
      then Some (c\<lparr>ca_workflow := Closed, ca_approval_by := Some actor, ca_approval_at := Some now,
        ca_approval_note := note\<rparr>) else None)"
| "decide_case Reject now actor note disposition assignee c =
     (if ca_archived_at c = None \<and> ca_workflow c = Pending_Approval \<and> given note
         \<and> ca_conclusion_by c \<noteq> Some actor
      then Some (without_conclusion Reviewing note c) else None)"
| "decide_case Close_Case now actor note disposition assignee c =
     (if ca_archived_at c = None \<and> ca_workflow c \<noteq> Closed \<and> given note \<and> supported disposition
      then Some (c\<lparr>ca_workflow := Closed, ca_disposition := disposition, ca_conclusion_by := Some actor,
        ca_conclusion_at := Some now, ca_approval_by := Some actor, ca_approval_at := Some now,
        ca_approval_note := Some direct_close_note\<rparr>) else None)"
| "decide_case Reopen now actor note disposition assignee c =
     (if ca_archived_at c = None \<and> ca_workflow c = Closed \<and> given note
      then Some (without_conclusion Reviewing None c) else None)"

definition change_case :: "string \<Rightarrow> int \<Rightarrow> case_row \<Rightarrow> case_db \<Rightarrow> case_db" where
  "change_case i expected row s =
     s\<lparr>cases := map (\<lambda>c. if ca_id c = i \<and> ca_version c = expected then row else c) (cases s)\<rparr>"

definition apply_case_action ::
    "case_env \<Rightarrow> int \<Rightarrow> string \<Rightarrow> case_action \<Rightarrow> int \<Rightarrow> string \<Rightarrow> string option \<Rightarrow> string option \<Rightarrow> string option \<Rightarrow>
      case_row case_op" where
  "apply_case_action e now i action expected actor0 note0 disposition assignee0 =
     (let actor = python_strip actor0; note = map_option python_strip note0;
          assignee = map_option python_strip assignee0 in
      bind (require (actor \<noteq> [] \<and> 1 \<le> expected) Invalid_Action) (\<lambda>_.
      case_tx (bind (reading (find_case i)) (\<lambda>r. bind (the_row Case_Not_Found r) (\<lambda>before.
        bind (require (ca_version before = expected) Version_Conflict) (\<lambda>_.
        bind (require (\<not> stamp e now < stamp e (ca_updated before)) Invalid_Action) (\<lambda>_.
        bind (the_row Invalid_Action (decide_case action now actor note disposition assignee before)) (\<lambda>decided.
        let row = decided\<lparr>ca_version := ca_version before + 1, ca_updated := now\<rparr> in
        bind (reading (\<lambda>s. length (filter (\<lambda>c. ca_id c = i \<and> ca_version c = expected) (cases s)))) (\<lambda>n.
        bind (require (n = 1) Version_Conflict) (\<lambda>_.
        bind (writing (change_case i expected row)) (\<lambda>_.
        bind (reading (find_case i)) (\<lambda>q. bind (the_row Assert_Fault q) (\<lambda>after.
        bind (append_case_event e i (action_text action) actor note (Some (case_dict e before))
          (case_dict e after) now) (\<lambda>_. ret after))))))))))))))"

definition defaulted_keys :: "string list" where
  "defaulted_keys = [''conclusion_by'', ''conclusion_at'', ''approval_by'', ''approval_at'', ''approval_note'',
     ''archived_at'', ''archived_by'', ''archived_reason'']"

definition normalized_state :: "json option \<Rightarrow> json option" where
  "normalized_state j = (case j of
     Some (JObj kvs) \<Rightarrow> Some (JObj (kvs @ map (\<lambda>k. (k, JNull)) (filter (\<lambda>k. map_of kvs k = None) defaulted_keys)))
   | _ \<Rightarrow> j)"

definition same_case_state :: "json option \<Rightarrow> json option \<Rightarrow> bool" where
  "same_case_state a b \<longleftrightarrow> same_document (normalized_state a) (normalized_state b)"

definition verify_case_chain :: "case_env \<Rightarrow> string \<Rightarrow> case_db \<Rightarrow> case_error + bool" where
  "verify_case_chain e i s = (case find_case i s of
     None \<Rightarrow> Inl Case_Not_Found
   | Some c \<Rightarrow> (let vs = events_of i (case_events s) in
       Inr (events_linked (event_digest e ''case_id'' ''note'') same_case_state [] None vs
         \<and> vs \<noteq> [] \<and> same_case_state (Some (ev_after (last vs))) (Some (case_dict e c)))))"

definition batch_valid :: "string \<Rightarrow> case_db \<Rightarrow> bool" where
  "batch_valid i s \<longleftrightarrow> list_ex (\<lambda>b. ba_id b = i \<and> ba_invalid_at b = None) (batches s)"

definition priority_rank :: "string \<Rightarrow> nat" where
  "priority_rank p = (if p = ''P1'' then 0 else if p = ''P2'' then 1 else if p = ''DATA'' then 2 else 3)"

text \<open>By priority, open before closed, newest change first.\<close>

definition list_cases ::
    "case_env \<Rightarrow> workflow option \<Rightarrow> string option \<Rightarrow> string option \<Rightarrow> string option \<Rightarrow> bool \<Rightarrow> bool \<Rightarrow> case_db \<Rightarrow>
      case_row list" where
  "list_cases e status priority mine batch include_archived include_invalidated s =
     sort_key (\<lambda>c. 2 * priority_rank (ca_priority c) + (if ca_workflow c = Closed then 1 else 0))
       (rev (sort_key (\<lambda>c. stamp e (ca_updated c)) (filter (\<lambda>c.
          (include_archived \<or> ca_archived_at c = None) \<and> (include_invalidated \<or> batch_valid (ca_batch c) s)
          \<and> (status = None \<or> status = Some (ca_workflow c)) \<and> (priority = None \<or> priority = Some (ca_priority c))
          \<and> (mine = None \<or> mine = Some (ca_mine c)) \<and> (batch = None \<or> batch = Some (ca_batch c))) (cases s))))"

definition count_open_cases ::
    "string option \<Rightarrow> string list option \<Rightarrow> string list option \<Rightarrow> case_db \<Rightarrow> case_error + nat" where
  "count_open_cases batch batch_ids mines s =
     (if batch \<noteq> None \<and> batch_ids \<noteq> None then Inl Value_Fault
      else Inr (length (filter (\<lambda>c. ca_workflow c \<noteq> Closed \<and> ca_archived_at c = None
        \<and> batch_valid (ca_batch c) s \<and> (batch = None \<or> batch = Some (ca_batch c))
        \<and> (case batch_ids of None \<Rightarrow> True | Some is \<Rightarrow> ca_batch c \<in> set is)
        \<and> (case mines of None \<Rightarrow> True | Some ms \<Rightarrow> ca_mine c \<in> set ms)) (cases s))))"

end
