(* ===== verification/Case_Runs.thy ===== *)
theory Case_Runs
  imports Case_Store
begin

text \<open>
  Saving a batch with its runs and cases, reading a run with its hash checks, reference labels
  and their eligibility, and the nonces of signed requests.
\<close>

section \<open>Saving a batch\<close>

definition new_portfolio_batch :: "case_env \<Rightarrow> portfolio \<Rightarrow> int \<Rightarrow> portfolio_row" where
  "new_portfolio_batch e p created =
     \<lparr>ba_id = pf_batch p, ba_name = pf_name p, ba_request_sha = sha_json e (pf_request p),
      ba_request = canonical (pf_request p), ba_response_sha = Some (sha_json e (pf_response p)),
      ba_response = canonical (pf_response p),
      ba_context_sha = Some (sha_json e (json_or_null (pf_context p))),
      ba_context = map_option canonical (pf_context p), ba_origin = Some ''created'',
      ba_created = created, ba_version = 1, ba_invalid_at = None, ba_invalid_by = None,
      ba_invalid_reason = None\<rparr>"

definition item_result :: "portfolio_item \<Rightarrow> json" where
  "item_result item = (case it_analysis item of
     Some a \<Rightarrow> a
   | None \<Rightarrow> JObj [(''mine_id'', JStr (it_mine item)), (''status'', JStr (it_status item))])"

definition new_run :: "case_env \<Rightarrow> string \<Rightarrow> string \<Rightarrow> portfolio_item \<Rightarrow> json \<Rightarrow> int \<Rightarrow> analysis_row" where
  "new_run e batch engine item input created =
     (let input_sha = sha_json e input; result_sha = sha_json e (item_result item) in
      \<lparr>ru_id = stable_id e ''run'' [batch, it_mine item, input_sha, result_sha, engine],
       ru_batch = batch, ru_mine = it_mine item, ru_status = it_status item, ru_input_sha = input_sha,
       ru_input = canonical input, ru_result_sha = result_sha,
       ru_result = canonical (item_result item), ru_engine = engine, ru_created = created\<rparr>)"

definition analysis_clash :: "analysis_row \<Rightarrow> analysis_row \<Rightarrow> bool" where
  "analysis_clash a b \<longleftrightarrow> ru_id a = ru_id b \<or> (ru_batch a = ru_batch b \<and> ru_mine a = ru_mine b)"

definition insert_run :: "analysis_row \<Rightarrow> unit case_op" where
  "insert_run r = bind (reading (\<lambda>s. insert_row analysis_clash r (analysis_runs s))) (\<lambda>q.
     bind (the_row Constraint_Fault q) (\<lambda>rows. writing (\<lambda>s. s\<lparr>analysis_runs := rows\<rparr>)))"

text \<open>\<open>features\<close> is what inserting the feature windows of a run raises, if it raises.\<close>

definition save_item ::
    "case_env \<Rightarrow> (analysis_row \<Rightarrow> case_error option) \<Rightarrow> portfolio \<Rightarrow> string \<Rightarrow> int \<Rightarrow> portfolio_item \<Rightarrow> unit case_op" where
  "save_item e features p engine created item =
     bind (case map_of (rev (pf_inputs p)) (it_mine item) of
         None \<Rightarrow> ret None
       | Some input \<Rightarrow> (let r = new_run e (pf_batch p) engine item input created in
           bind (insert_run r) (\<lambda>_.
           bind (case features r of None \<Rightarrow> ret () | Some x \<Rightarrow> raise x) (\<lambda>_. ret (Some (ru_id r))))))
       (\<lambda>run. if it_priority item = ''NONE'' then ret ()
         else insert_case e (pf_batch p) item run created)"

definition stored_batch_intact :: "case_env \<Rightarrow> portfolio_row \<Rightarrow> bool" where
  "stored_batch_intact e b \<longleftrightarrow> ba_response_sha b = Some (sha_json e (ba_response b))
     \<and> ba_context_sha b = Some (sha_json e (json_or_null (ba_context b)))"

text \<open>The result says whether the batch was created, and gives the response.\<close>

definition save_portfolio_batch ::
    "case_env \<Rightarrow> (analysis_row \<Rightarrow> case_error option) \<Rightarrow> int \<Rightarrow> portfolio \<Rightarrow> string \<Rightarrow> (bool \<times> json) case_op" where
  "save_portfolio_batch e features created p engine =
     case_tx (bind (reading (find_batch (pf_batch p))) (\<lambda>existing.
       case existing of
         Some b \<Rightarrow>
           bind (require (ba_request_sha b = sha_json e (pf_request p)) Batch_Conflict) (\<lambda>_.
           bind (require (stored_batch_intact e b) Record_Integrity) (\<lambda>_. ret (False, ba_response b)))
       | None \<Rightarrow>
           bind (writing (\<lambda>s. s\<lparr>batches := batches s @ [new_portfolio_batch e p created]\<rparr>)) (\<lambda>_.
           bind (reading (find_batch (pf_batch p))) (\<lambda>q. bind (the_row Assert_Fault q) (\<lambda>b.
           bind (append_batch_event e (pf_batch p) ''created'' ''system'' None None (batch_json e b) created) (\<lambda>_.
           bind (for_each (save_item e features p engine created) (pf_items p)) (\<lambda>_.
           ret (True, pf_response p))))))))"

section \<open>Reading a run\<close>

record run_view =
  rv_run :: analysis_row
  rv_input_valid :: bool
  rv_result_valid :: bool
  rv_request_valid :: bool
  rv_response_valid :: bool
  rv_context_valid :: bool
  rv_lifecycle_valid :: bool
  rv_eligible :: bool

definition run_input_valid :: "case_env \<Rightarrow> analysis_row \<Rightarrow> bool" where
  "run_input_valid e r \<longleftrightarrow> sha_json e (ru_input r) = ru_input_sha r"

definition run_result_valid :: "case_env \<Rightarrow> analysis_row \<Rightarrow> bool" where
  "run_result_valid e r \<longleftrightarrow> sha_json e (ru_result r) = ru_result_sha r"

definition lifecycle_valid :: "case_env \<Rightarrow> string \<Rightarrow> case_db \<Rightarrow> bool" where
  "lifecycle_valid e i s = (case verify_batch_lifecycle_chain e i s of Inl _ \<Rightarrow> False | Inr b \<Rightarrow> b)"

definition get_run :: "case_env \<Rightarrow> string \<Rightarrow> case_db \<Rightarrow> case_error + run_view" where
  "get_run e i s = (case find_run i s of
     None \<Rightarrow> Inl Run_Not_Found
   | Some r \<Rightarrow> (case find_batch (ru_batch r) s of
       None \<Rightarrow> Inl Run_Not_Found
     | Some b \<Rightarrow>
         (let request = (sha_json e (ba_request b) = ba_request_sha b);
              response = (ba_response_sha b = Some (sha_json e (ba_response b)));
              context = (ba_context_sha b = Some (sha_json e (json_or_null (ba_context b))));
              lifecycle = lifecycle_valid e (ru_batch r) s
          in Inr \<lparr>rv_run = r, rv_input_valid = run_input_valid e r, rv_result_valid = run_result_valid e r,
               rv_request_valid = request, rv_response_valid = response, rv_context_valid = context,
               rv_lifecycle_valid = lifecycle,
               rv_eligible = (request \<and> response \<and> context \<and> ba_origin b = Some ''created'' \<and> lifecycle)\<rparr>)))"

definition verify_run_hashes :: "case_env \<Rightarrow> string \<Rightarrow> case_db \<Rightarrow> case_error + bool" where
  "verify_run_hashes e i s = (case get_run e i s of
     Inl x \<Rightarrow> Inl x | Inr v \<Rightarrow> Inr (rv_input_valid v \<and> rv_result_valid v))"

section \<open>Reference labels\<close>

definition reference_labels :: "string list" where
  "reference_labels = [''verified_normal'', ''legitimate_exception'', ''confirmed_data_error'',
     ''confirmed_technical_anomaly'', ''adjudicated_violation'', ''unresolved'']"

definition labels_of :: "string \<Rightarrow> label_row list \<Rightarrow> label_row list" where
  "labels_of i ls = sort_key lb_seq (filter (\<lambda>l. lb_run l = i) ls)"

definition append_run_reference_label ::
    "case_env \<Rightarrow> int \<Rightarrow> string \<Rightarrow> string \<Rightarrow> string \<Rightarrow> string \<Rightarrow> int \<Rightarrow> string option \<Rightarrow> label_row case_op" where
  "append_run_reference_label e now run0 label0 actor0 note0 expected scenario0 =
     bind (checked (required_text e 128 False run0)) (\<lambda>run.
     bind (checked (required_text e 64 False label0)) (\<lambda>label.
     bind (checked (required_text e 128 False actor0)) (\<lambda>actor.
     bind (checked (required_text e 4000 True note0)) (\<lambda>note.
     bind (checked (optional_text e 128 scenario0)) (\<lambda>scenario.
     bind (require (0 \<le> expected) Value_Fault) (\<lambda>_.
     bind (require (label \<in> set reference_labels) Value_Fault) (\<lambda>_.
     bind (require ((label = ''legitimate_exception'') = (scenario \<noteq> None)) Value_Fault) (\<lambda>_.
     case_tx (bind (reading (find_run run)) (\<lambda>r. bind (the_row Run_Not_Found r) (\<lambda>_.
       bind (reading (\<lambda>s. labels_of run (labels s))) (\<lambda>prior.
       let current = (if prior = [] then 0 else lb_seq (last prior)) in
       bind (require (int current = expected) Version_Conflict) (\<lambda>_.
       let l = \<lparr>lb_run = run, lb_seq = current + 1, lb_label = label, lb_scenario = scenario,
                lb_actor = actor, lb_note = note,
                lb_previous = (if prior = [] then [] else lb_hash (last prior)), lb_hash = [],
                lb_created = now\<rparr>;
           sealed = l\<lparr>lb_hash := label_digest e l\<rparr> in
       bind (require (\<forall>q \<in> set prior. lb_seq q \<noteq> current + 1) Version_Conflict) (\<lambda>_.
       bind (writing (\<lambda>s. s\<lparr>labels := labels s @ [sealed]\<rparr>)) (\<lambda>_. ret sealed)))))))))))))))"

fun label_chain_valid :: "case_env \<Rightarrow> nat \<Rightarrow> string \<Rightarrow> label_row list \<Rightarrow> bool" where
  "label_chain_valid e n expected [] = True"
| "label_chain_valid e n expected (l # ls) =
     (lb_seq l = n \<and> lb_previous l = expected \<and> label_digest e l = lb_hash l
      \<and> label_chain_valid e (n + 1) (lb_hash l) ls)"

definition verify_run_reference_label_chain :: "case_env \<Rightarrow> string \<Rightarrow> case_db \<Rightarrow> bool" where
  "verify_run_reference_label_chain e i s =
     (labels_of i (labels s) \<noteq> [] \<and> label_chain_valid e 1 [] (labels_of i (labels s)))"

record label_view =
  lv_label :: label_row
  lv_chain_valid :: bool
  lv_run_valid :: bool
  lv_batch_valid :: bool
  lv_active :: bool
  lv_lifecycle_valid :: bool
  lv_eligible :: bool

definition get_run_reference_label ::
    "case_env \<Rightarrow> string \<Rightarrow> case_db \<Rightarrow> case_error + label_view option" where
  "get_run_reference_label e run0 s = (case required_text e 128 False run0 of
     Inl x \<Rightarrow> Inl x
   | Inr i \<Rightarrow> (case find_run i s of
       None \<Rightarrow> Inl Run_Not_Found
     | Some r \<Rightarrow> (case find_batch (ru_batch r) s of
         None \<Rightarrow> Inl Run_Not_Found
       | Some b \<Rightarrow>
           if labels_of i (labels s) = [] then Inr None
           else
             (let chain = verify_run_reference_label_chain e i s;
                  run = (run_input_valid e r \<and> run_result_valid e r);
                  batch = (sha_json e (ba_request b) = ba_request_sha b \<and> stored_batch_intact e b);
                  active = (ba_invalid_at b = None);
                  lifecycle = lifecycle_valid e (ru_batch r) s
              in Inr (Some \<lparr>lv_label = last (labels_of i (labels s)), lv_chain_valid = chain,
                   lv_run_valid = run, lv_batch_valid = batch, lv_active = active,
                   lv_lifecycle_valid = lifecycle,
                   lv_eligible = (chain \<and> run \<and> batch \<and> ba_origin b = Some ''created'' \<and> active
                     \<and> lifecycle)\<rparr>)))))"

section \<open>Nonces of signed requests\<close>

definition claim_clash :: "nonce_claim \<Rightarrow> nonce_claim \<Rightarrow> bool" where
  "claim_clash a b \<longleftrightarrow> nc_client a = nc_client b \<and> nc_nonce a = nc_nonce b"

definition claim_external_request_nonce ::
    "case_env \<Rightarrow> int \<Rightarrow> string \<Rightarrow> string \<Rightarrow> int \<Rightarrow> int \<Rightarrow> bool case_op" where
  "claim_external_request_nonce e now client0 nonce0 request expires =
     bind (checked (required_text e 128 False client0)) (\<lambda>client.
     bind (checked (required_text e 128 False nonce0)) (\<lambda>nonce.
     case_tx (bind (writing (\<lambda>s. s\<lparr>request_nonces :=
         filter (\<lambda>n. \<not> stamp e (nc_expires n) < stamp e now) (request_nonces s)\<rparr>)) (\<lambda>_.
       bind (reading (\<lambda>s. insert_row claim_clash \<lparr>nc_client = client, nc_nonce = nonce,
         nc_request = request, nc_expires = expires, nc_created = now\<rparr> (request_nonces s))) (\<lambda>r.
       case r of None \<Rightarrow> ret False
       | Some rows \<Rightarrow> bind (writing (\<lambda>s. s\<lparr>request_nonces := rows\<rparr>)) (\<lambda>_. ret True))))))"

section \<open>The running repository\<close>

text \<open>One call of a method; \<open>may\<close> says which case actions the caller performs.\<close>

inductive case_call :: "case_env \<Rightarrow> (case_action \<Rightarrow> bool) \<Rightarrow> case_db \<Rightarrow> case_db \<Rightarrow> bool"
    for e :: case_env and may :: "case_action \<Rightarrow> bool" where
  save: "save_portfolio_batch e features created p engine s = (r, t) \<Longrightarrow> case_call e may s t"
| act: "apply_case_action e now i action expected actor remark disposition assignee s = (r, t) \<Longrightarrow>
    may action \<Longrightarrow> case_call e may s t"
| activate: "set_batch_active e now i active expected actor reason s = (r, t) \<Longrightarrow> case_call e may s t"
| isolate: "isolate_legacy_pilot_batches e now actor reason s = (r, t) \<Longrightarrow> case_call e may s t"
| label: "append_run_reference_label e now run label actor remark expected scenario s = (r, t) \<Longrightarrow>
    case_call e may s t"
| claim: "claim_external_request_nonce e now client nonce request expires s = (r, t) \<Longrightarrow> case_call e may s t"

inductive case_reachable :: "case_env \<Rightarrow> (case_action \<Rightarrow> bool) \<Rightarrow> case_db \<Rightarrow> bool"
    for e :: case_env and may :: "case_action \<Rightarrow> bool" where
  start: "case_reachable e may new_case_db"
| step: "case_reachable e may s \<Longrightarrow> case_call e may s t \<Longrightarrow> case_reachable e may t"

inductive_cases case_callE: "case_call e may s t"

end
