(* ===== verification/Case_Steps.thy ===== *)
theory Case_Steps
  imports Case_Runs
begin

text \<open>
  The hash chains of one case, batch or run inside the event tables: numbered from 1, each
  event holding the digest of its payload and the hash of the one before, its state before being
  the state after the previous event. Appending keeps a chain and leaves the others alone.
\<close>

definition own_events :: "string \<Rightarrow> state_event list \<Rightarrow> state_event list" where
  "own_events k vs = filter (\<lambda>v. ev_key v = k) vs"

definition sealed_chain ::
    "case_env \<Rightarrow> string \<Rightarrow> string \<Rightarrow> state_event list \<Rightarrow> string \<Rightarrow> json \<Rightarrow> int \<Rightarrow> bool" where
  "sealed_chain e key_name note_name vs k doc version \<longleftrightarrow>
     (let own = own_events k vs in
      own \<noteq> [] \<and> map ev_seq own = [1 ..< Suc (length own)] \<and> int (length own) = version
      \<and> events_linked (event_digest e key_name note_name) (=) [] None own
      \<and> ev_after (last own) = canonical doc)"

lemma sort_key_numbered: "map f xs = [1 ..< Suc n] \<Longrightarrow> sort_key f xs = xs"
  by (rule sort_key_id_if_sorted) (simp del: upt_Suc)

lemma last_number: "map f xs = [1 ..< Suc (length xs)] \<Longrightarrow> xs \<noteq> [] \<Longrightarrow> f (last xs) = length xs"
  by (metis diff_Suc_1' last_map last_upt length_greater_0_conv length_map less_Suc_eq_le
      One_nat_def Suc_le_eq upt_Suc last_snoc not_less_eq zero_less_Suc)

lemma events_of_own:
  "map ev_seq (own_events k vs) = [1 ..< Suc n] \<Longrightarrow> events_of k vs = own_events k vs"
  by (simp add: events_of_def own_events_def sort_key_numbered)

lemma sealed_events: "sealed_chain e key_name note_name vs k doc version \<Longrightarrow> events_of k vs = own_events k vs"
  by (auto simp: sealed_chain_def Let_def intro: events_of_own)

lemma own_events_append: "own_events k (vs @ ws) = own_events k vs @ own_events k ws"
  by (simp add: own_events_def)

text \<open>The digest ignores the spelling of the two states and the hash of the event itself.\<close>

lemma event_digest_sealed:
  "event_digest e key_name note_name
     (v\<lparr>ev_before := map_option canonical (ev_before v), ev_after := canonical (ev_after v), ev_hash := h\<rparr>)
   = event_digest e key_name note_name v"
proof -
  have "canonical (json_or_null (map_option canonical b)) = canonical (json_or_null b)" for b
    by (simp add: json_or_null_def split: option.split)
  then show ?thesis
    unfolding event_digest_def sha_json_def by (intro arg_cong2 [where f = doc_digest] refl canonical_JObj_cong) simp
qed

lemma next_event_fields:
  assumes "v = next_event e key_name note_name k action actor remark before after created vs"
  shows "ev_key v = k" "ev_action v = action" "ev_actor v = actor"
    "ev_before v = map_option canonical before" "ev_after v = canonical after"
    "event_digest e key_name note_name v = ev_hash v"
    "ev_seq v = (if events_of k vs = [] then 1 else ev_seq (last (events_of k vs)) + 1)"
    "ev_previous v = (if events_of k vs = [] then [] else ev_hash (last (events_of k vs)))"
proof -
  show "event_digest e key_name note_name v = ev_hash v"
    using event_digest_sealed [of e key_name note_name _ "\<lparr>ev_key = k,
      ev_seq = (if events_of k vs = [] then 1 else ev_seq (last (events_of k vs)) + 1), ev_action = action,
      ev_actor = actor, ev_note = remark, ev_before = before, ev_after = after,
      ev_previous = (if events_of k vs = [] then [] else ev_hash (last (events_of k vs))), ev_hash = [],
      ev_created = created\<rparr>"]
    by (simp add: assms next_event_def Let_def)
qed (simp_all add: assms next_event_def Let_def)

lemma own_next [simp]:
  "own_events k [next_event e key_name note_name k' action actor remark before after created vs] =
     (if k' = k then [next_event e key_name note_name k' action actor remark before after created vs] else [])"
  by (simp add: own_events_def next_event_def Let_def)

lemma events_linked_snoc:
  "events_linked digest same expected previous (vs @ [v]) \<longleftrightarrow>
     events_linked digest same expected previous vs \<and> digest v = ev_hash v
     \<and> ev_previous v = (if vs = [] then expected else ev_hash (last vs))
     \<and> (if vs = [] then previous = None \<or> same (ev_before v) previous
        else same (ev_before v) (Some (ev_after (last vs))))"
  by (induction vs arbitrary: expected previous) auto

lemma events_linked_weaken:
  assumes "\<And>x. same x x"
  shows "events_linked digest (=) expected previous vs \<Longrightarrow> events_linked digest same expected previous vs"
  using assms by (induction vs arbitrary: expected previous) auto

lemma sealed_other:
  "k' \<noteq> k \<Longrightarrow>
     sealed_chain e key_name note_name
       (vs @ [next_event e' key_name' note_name' k' action actor remark before after created ws]) k doc version =
     sealed_chain e key_name note_name vs k doc version"
  by (simp add: sealed_chain_def own_events_append)

lemma sealed_first:
  assumes "\<forall>v \<in> set vs. ev_key v \<noteq> k"
  shows "sealed_chain e key_name note_name
    (vs @ [next_event e key_name note_name k action actor remark None doc created vs]) k doc 1"
proof -
  have none: "own_events k vs = []" "events_of k vs = []"
    using assms by (auto simp: own_events_def events_of_def filter_empty_conv)
  then show ?thesis
    using next_event_fields [OF refl, of e key_name note_name k action actor remark None doc created vs]
    by (simp add: sealed_chain_def own_events_append)
qed

lemma sealed_more:
  assumes "sealed_chain e key_name note_name vs k doc version"
  shows "sealed_chain e key_name note_name
    (vs @ [next_event e key_name note_name k action actor remark (Some doc) doc' created vs]) k doc' (version + 1)"
proof -
  have own: "own_events k vs \<noteq> []" "map ev_seq (own_events k vs) = [1 ..< Suc (length (own_events k vs))]"
    and events: "events_of k vs = own_events k vs"
    using assms sealed_events by (auto simp: sealed_chain_def Let_def)
  show ?thesis
    using assms next_event_fields [OF refl, of e key_name note_name k action actor remark "Some doc" doc' created vs]
      last_number [OF own(2,1)] own
    by (simp add: sealed_chain_def Let_def own_events_append events events_linked_snoc)
qed

section \<open>Labels\<close>

definition own_labels :: "string \<Rightarrow> label_row list \<Rightarrow> label_row list" where
  "own_labels i ls = filter (\<lambda>l. lb_run l = i) ls"

definition sealed_labels :: "case_env \<Rightarrow> label_row list \<Rightarrow> string \<Rightarrow> bool" where
  "sealed_labels e ls i \<longleftrightarrow> map lb_seq (own_labels i ls) = [1 ..< Suc (length (own_labels i ls))]
     \<and> label_chain_valid e 1 [] (own_labels i ls)"

lemma sealed_labels_of: "sealed_labels e ls i \<Longrightarrow> labels_of i ls = own_labels i ls"
  unfolding sealed_labels_def labels_of_def own_labels_def by (metis sort_key_numbered)

lemma label_chain_snoc:
  "label_chain_valid e n expected (ls @ [l]) \<longleftrightarrow>
     label_chain_valid e n expected ls \<and> lb_seq l = n + length ls \<and> label_digest e l = lb_hash l
     \<and> lb_previous l = (if ls = [] then expected else lb_hash (last ls))"
  by (induction ls arbitrary: n expected) auto

lemma own_labels_snoc: "own_labels i (ls @ [l]) = own_labels i ls @ (if lb_run l = i then [l] else [])"
  by (simp add: own_labels_def)

lemma label_digest_hash: "label_digest e (l\<lparr>lb_hash := h\<rparr>) = label_digest e l"
  by (simp add: label_digest_def)

lemma sealed_labels_snoc:
  assumes "sealed_labels e ls i"
    and "lb_run l = i \<Longrightarrow> lb_seq l = Suc (length (own_labels i ls)) \<and> label_digest e l = lb_hash l
      \<and> lb_previous l = (if own_labels i ls = [] then [] else lb_hash (last (own_labels i ls)))"
  shows "sealed_labels e (ls @ [l]) i"
  using assms by (auto simp: sealed_labels_def own_labels_snoc label_chain_snoc)

text \<open>
  What every method of the repository does to its tables. The locale \<open>case_relation\<close> lists the
  writes - a batch, a case or a run added, a batch or a case changed, each together with its event,
  a label, the nonces - and derives that every call moves along any relation that contains them.
\<close>

definition with_batch_event ::
    "case_env \<Rightarrow> string \<Rightarrow> string \<Rightarrow> string \<Rightarrow> string option \<Rightarrow> json option \<Rightarrow> json \<Rightarrow> int \<Rightarrow> case_db \<Rightarrow> case_db" where
  "with_batch_event e k action actor reason before after created s = s\<lparr>lifecycle := lifecycle s
     @ [next_event e ''batch_id'' ''reason'' k action actor reason before after created (lifecycle s)]\<rparr>"

definition with_case_event ::
    "case_env \<Rightarrow> string \<Rightarrow> string \<Rightarrow> string \<Rightarrow> string option \<Rightarrow> json option \<Rightarrow> json \<Rightarrow> int \<Rightarrow> case_db \<Rightarrow> case_db" where
  "with_case_event e k action actor remark before after created s = s\<lparr>case_events := case_events s
     @ [next_event e ''case_id'' ''note'' k action actor remark before after created (case_events s)]\<rparr>"

text \<open>What no method changes in a batch.\<close>

definition batch_kept :: "portfolio_row \<Rightarrow> portfolio_row \<Rightarrow> bool" where
  "batch_kept a b \<longleftrightarrow> ba_id b = ba_id a \<and> ba_name b = ba_name a \<and> ba_request_sha b = ba_request_sha a
     \<and> ba_request b = ba_request a \<and> ba_response_sha b = ba_response_sha a
     \<and> ba_response b = ba_response a \<and> ba_context_sha b = ba_context_sha a \<and> ba_context b = ba_context a
     \<and> ba_origin b = ba_origin a \<and> ba_created b = ba_created a \<and> ba_version a \<le> ba_version b"

lemma batch_kept_refl: "batch_kept b b"
  by (simp add: batch_kept_def)

lemma find_batch_mem: "find_batch i s = Some b \<Longrightarrow> b \<in> set (batches s) \<and> ba_id b = i"
  by (auto simp: find_batch_def dest: find_Some_mem)

lemma find_case_mem: "find_case i s = Some c \<Longrightarrow> c \<in> set (cases s) \<and> ca_id c = i"
  by (auto simp: find_case_def dest: find_Some_mem)

lemma decided_id: "decide_case act now actor remark disposition assignee c = Some d \<Longrightarrow> ca_id d = ca_id c"
  by (cases act) (auto simp: without_conclusion_def split: if_splits)

lemma find_batch_changed:
  "find_batch i s = Some b \<Longrightarrow> (\<And>x :: portfolio_row. ba_id (f x :: portfolio_row) = ba_id x) \<Longrightarrow> find_batch i (change_batch i f s) = Some (f b)"
proof -
  assume "find_batch i s = Some b" and ids: "\<And>x :: portfolio_row. ba_id (f x :: portfolio_row) = ba_id x"
  moreover have "find (\<lambda>b. ba_id b = i) (map (\<lambda>b. if ba_id b = i then f b else b) bs) =
      map_option f (find (\<lambda>b. ba_id b = i) bs)" for bs
    by (induction bs) (simp_all add: ids)
  ultimately show ?thesis by (simp add: find_batch_def change_batch_def)
qed

lemma find_case_changed:
  assumes "find_case i s = Some c" "ca_id row = i"
  shows "find_case i (change_case i (ca_version c) row s) = Some row"
proof -
  have "find (\<lambda>c. ca_id c = i) (map (\<lambda>c. if ca_id c = i \<and> ca_version c = n then row else c) cs) = Some row"
    if "find (\<lambda>c. ca_id c = i) cs = Some c" "ca_version c = n" for cs n
    using that assms(2) by (induction cs) (auto split: if_splits)
  then show ?thesis using assms by (simp add: find_case_def change_case_def)
qed

lemma only_match:
  assumes "length (filter P xs) = 1" "x \<in> set xs" "P x"
  shows "filter P xs = [x]"
proof -
  obtain y where "filter P xs = [y]" using assms(1) by (auto simp: length_Suc_conv)
  moreover have "x \<in> set (filter P xs)" using assms by simp
  ultimately show ?thesis by simp
qed

locale case_relation = history_relation rel for rel :: "case_db \<Rightarrow> case_db \<Rightarrow> bool" +
  fixes e :: case_env and may :: "case_action \<Rightarrow> bool"
  assumes batch_added:
      "find_batch (ba_id b) s = None \<Longrightarrow> b = new_portfolio_batch e p created \<Longrightarrow>
         rel s (with_batch_event e (ba_id b) ''created'' ''system'' None None (batch_json e b) created
           (s\<lparr>batches := batches s @ [b]\<rparr>))"
    and batch_changed:
      "find_batch i s = Some b \<Longrightarrow> (\<And>x. batch_kept x (f x)) \<Longrightarrow> ba_version (f b) = ba_version b + 1 \<Longrightarrow>
         rel s (with_batch_event e i action actor reason (Some (batch_json e b)) (batch_json e (f b)) now
           (change_batch i f s))"
    and run_added:
      "\<not> list_ex (analysis_clash r) (analysis_runs s) \<Longrightarrow> r = new_run e i engine item input created \<Longrightarrow>
         rel s (s\<lparr>analysis_runs := analysis_runs s @ [r]\<rparr>)"
    and case_added:
      "\<not> list_ex (case_clash c) (cases s) \<Longrightarrow> c = new_case e i item run created \<Longrightarrow>
         rel s (with_case_event e (ca_id c) ''created'' ''system'' remark None (case_dict e c) created
           (s\<lparr>cases := cases s @ [c]\<rparr>))"
    and case_changed:
      "find_case i s = Some c \<Longrightarrow> may act \<Longrightarrow>
         filter (\<lambda>x. ca_id x = i \<and> ca_version x = ca_version c) (cases s) = [c] \<Longrightarrow>
         decide_case act now actor remark disposition assignee c = Some d \<Longrightarrow>
         row = d\<lparr>ca_version := ca_version c + 1, ca_updated := now\<rparr> \<Longrightarrow>
         rel s (with_case_event e i (action_text act) actor remark (Some (case_dict e c)) (case_dict e row) now
           (change_case i (ca_version c) row s))"
    and label_added:
      "lb_seq l = (if labels_of (lb_run l) (labels s) = [] then 0 else lb_seq (last (labels_of (lb_run l) (labels s)))) + 1 \<Longrightarrow>
         lb_previous l = (if labels_of (lb_run l) (labels s) = [] then [] else lb_hash (last (labels_of (lb_run l) (labels s)))) \<Longrightarrow>
         label_digest e l = lb_hash l \<Longrightarrow> rel s (s\<lparr>labels := labels s @ [l]\<rparr>)"
    and nonces_changed: "rel s (s\<lparr>request_nonces := ns\<rparr>)"
begin

lemma case_tx_evolves: "evolves rel m \<Longrightarrow> evolves rel (case_tx m)"
  unfolding case_tx_def by (rule evolves_transaction) (auto intro: rel_refl)

text \<open>A transaction whose body reads one row and goes on from the state it read.\<close>

lemma with_row_evolves:
  assumes "\<And>s row. look s = Some row \<Longrightarrow> rel s (snd (body row s))"
  shows "evolves rel (bind (reading look) (\<lambda>r. bind (the_row err r) body))"
proof -
  have "rel s (snd (bind (reading look) (\<lambda>r. bind (the_row err r) body) s))" for s
    using assms by (cases "look s") (simp_all add: raise_def rel_refl)
  then show ?thesis by (simp add: evolves_def)
qed

lemma set_batch_active_evolves: "evolves rel (set_batch_active e now i active expected actor reason)"
  unfolding set_batch_active_def Let_def
proof (rule evolves_bind [OF evolves_require], rule case_tx_evolves, rule with_row_evolves, rule require_at)
  fix s b
  assume b: "find_batch i s = Some b" and version: "ba_version b = expected"
  define f :: "portfolio_row \<Rightarrow> portfolio_row" where "f = (\<lambda>b. if ba_version b = expected then
      b\<lparr>ba_version := expected + 1, ba_invalid_at := (if active then None else Some now),
        ba_invalid_by := (if active then None else Some (python_strip actor)),
        ba_invalid_reason := (if active then None else Some (python_strip reason))\<rparr> else b)"
  have kept: "batch_kept x (f x)" for x by (simp add: batch_kept_def f_def)
  have "ba_id (f x) = ba_id x" for x by (simp add: f_def)
  then have found: "find_batch i (change_batch i f s) = Some (f b)" by (rule find_batch_changed [OF b])
  have "ba_version (f b) = ba_version b + 1" by (simp add: f_def version)
  note moved = batch_changed [OF b kept this, of "if active then ''restored'' else ''invalidated''"
      "python_strip actor" "Some (python_strip reason)" now]
  show "rel s (snd ((if (ba_invalid_at b = None) = active then ret (False, b)
     else bind (writing (change_batch i (\<lambda>b. if ba_version b = expected then
              b\<lparr>ba_version := expected + 1, ba_invalid_at := (if active then None else Some now),
                ba_invalid_by := (if active then None else Some (python_strip actor)),
                ba_invalid_reason := (if active then None else Some (python_strip reason))\<rparr> else b))) (\<lambda>_.
          bind (reading (find_batch i)) (\<lambda>q. bind (the_row Assert_Fault q) (\<lambda>after.
          bind (append_batch_event e i (if active then ''restored'' else ''invalidated'') (python_strip actor)
            (Some (python_strip reason)) (Some (batch_json e b)) (batch_json e after) now) (\<lambda>_.
          ret (True, after)))))) s))"
    unfolding f_def [symmetric] using moved
    by (simp add: rel_refl ret_def found append_batch_event_def with_batch_event_def)
qed

lemma isolate_evolves: "evolves rel (isolate_legacy_pilot_batches e now actor reason)"
  unfolding isolate_legacy_pilot_batches_def
  by (intro evolves_bind evolves_reading evolves_map_each set_batch_active_evolves)

lemma insert_run_evolves: "r = new_run e i engine item input created \<Longrightarrow> evolves rel (insert_run r)"
  by (auto simp: evolves_def insert_run_def insert_row_def raise_def writing_def rel_refl intro: run_added)

lemma insert_case_evolves: "evolves rel (insert_case e i item run created)"
  using case_added [OF _ refl]
  by (auto simp: evolves_def insert_case_def Let_def insert_row_def raise_def writing_def rel_refl
      append_case_event_def with_case_event_def)

lemma save_item_evolves: "evolves rel (save_item e features p engine created item)"
  unfolding save_item_def Let_def
  by (intro evolves_bind evolves_case_option evolves_ret evolves_raise evolves_if insert_case_evolves
      insert_run_evolves [OF refl])

lemma save_evolves: "evolves rel (save_portfolio_batch e features created p engine)"
proof -
  let ?b = "new_portfolio_batch e p created"
  let ?rest = "bind (for_each (save_item e features p engine created) (pf_items p)) (\<lambda>_. ret (True, pf_response p))"
  have rest: "evolves rel ?rest"
    by (intro evolves_bind evolves_for_each save_item_evolves evolves_ret)
  have ids: "ba_id ?b = pf_batch p" by (simp add: new_portfolio_batch_def)
  have fresh: "rel s (snd (bind (writing (\<lambda>s. s\<lparr>batches := batches s @ [?b]\<rparr>)) (\<lambda>_.
           bind (reading (find_batch (pf_batch p))) (\<lambda>q. bind (the_row Assert_Fault q) (\<lambda>b.
           bind (append_batch_event e (pf_batch p) ''created'' ''system'' None None (batch_json e b) created) (\<lambda>_.
           ?rest)))) s))" if none: "find_batch (pf_batch p) s = None" for s
  proof -
    have "find_batch (pf_batch p) (s\<lparr>batches := batches s @ [?b]\<rparr>) = Some ?b"
      using none by (simp add: find_batch_def find_append ids)
    moreover have "rel s (with_batch_event e (pf_batch p) ''created'' ''system'' None None (batch_json e ?b) created
        (s\<lparr>batches := batches s @ [?b]\<rparr>))"
      using batch_added [of ?b s, OF _ refl] none by (simp add: ids)
    moreover have "rel t (snd (?rest t))" for t using rest by (simp add: evolves_def)
    ultimately show ?thesis
      by (auto simp: append_batch_event_def with_batch_event_def intro: rel_trans)
  qed
  show ?thesis unfolding save_portfolio_batch_def
  proof (rule case_tx_evolves, unfold evolves_def, rule allI)
    fix s
    show "rel s (snd (bind (reading (find_batch (pf_batch p))) (\<lambda>existing. case existing of
         Some b \<Rightarrow>
           bind (require (ba_request_sha b = sha_json e (pf_request p)) Batch_Conflict) (\<lambda>_.
           bind (require (stored_batch_intact e b) Record_Integrity) (\<lambda>_. ret (False, ba_response b)))
       | None \<Rightarrow> bind (writing (\<lambda>s. s\<lparr>batches := batches s @ [?b]\<rparr>)) (\<lambda>_.
           bind (reading (find_batch (pf_batch p))) (\<lambda>q. bind (the_row Assert_Fault q) (\<lambda>b.
           bind (append_batch_event e (pf_batch p) ''created'' ''system'' None None (batch_json e b) created) (\<lambda>_.
           ?rest))))) s))"
      using fresh by (auto simp: bind_require ret_def raise_def rel_refl split: option.split)
  qed
qed

lemma apply_evolves:
  assumes "may act"
  shows "evolves rel (apply_case_action e now i act expected actor remark disposition assignee)"
  unfolding apply_case_action_def Let_def
proof (rule evolves_bind [OF evolves_require], rule case_tx_evolves, rule with_row_evolves, (rule require_at)+)
  fix s c
  assume c: "find_case i s = Some c" and version: "ca_version c = expected"
  let ?actor = "python_strip actor" and ?remark = "map_option python_strip remark"
  show "rel s (snd (bind (the_row Invalid_Action (decide_case act now ?actor ?remark disposition
          (map_option python_strip assignee) c)) (\<lambda>decided.
        bind (reading (\<lambda>s. length (filter (\<lambda>c. ca_id c = i \<and> ca_version c = expected) (cases s)))) (\<lambda>n.
        bind (require (n = 1) Version_Conflict) (\<lambda>_.
        bind (writing (change_case i expected (decided\<lparr>ca_version := ca_version c + 1, ca_updated := now\<rparr>))) (\<lambda>_.
        bind (reading (find_case i)) (\<lambda>q. bind (the_row Assert_Fault q) (\<lambda>after.
        bind (append_case_event e i (action_text act) ?actor ?remark (Some (case_dict e c))
          (case_dict e after) now) (\<lambda>_. ret after))))))) s))"
  proof (cases "decide_case act now ?actor ?remark disposition (map_option python_strip assignee) c")
    case (Some d)
    let ?row = "d\<lparr>ca_version := ca_version c + 1, ca_updated := now\<rparr>"
    have "ca_id ?row = i" using decided_id [OF Some] find_case_mem [OF c] by simp
    then have "find_case i (change_case i expected ?row s) = Some ?row"
      using find_case_changed [OF c] version by simp
    moreover have "filter (\<lambda>c. ca_id c = i \<and> ca_version c = expected) (cases s) = [c]"
      if "length (filter (\<lambda>c. ca_id c = i \<and> ca_version c = expected) (cases s)) = 1"
      using only_match [OF that, of c] find_case_mem [OF c] version by simp
    ultimately show ?thesis
      using case_changed [OF c assms _ Some refl] Some version
      by (simp add: bind_require raise_def ret_def rel_refl append_case_event_def with_case_event_def)
  qed (simp add: raise_def rel_refl)
qed

lemma label_evolves:
  "evolves rel (append_run_reference_label e now run label actor remark expected scenario)"
  unfolding append_run_reference_label_def Let_def
  apply (rule checked_then evolves_bind [OF evolves_require] case_tx_evolves with_row_evolves)+
  apply (simp add: bind_require raise_def ret_def rel_refl)
  apply (auto intro!: label_added simp: label_digest_def raise_def ret_def rel_refl)
  done

lemma claim_evolves: "evolves rel (claim_external_request_nonce e now client nonce request expires)"
  unfolding claim_external_request_nonce_def
  by (intro checked_then case_tx_evolves evolves_bind evolves_reading evolves_case_option evolves_ret
      evolves_writing nonces_changed)

theorem call_rel: "case_call e may s t \<Longrightarrow> rel s t"
  by (erule case_callE)
     (auto dest!: evolvesD [OF save_evolves] evolvesD [OF apply_evolves] evolvesD [OF set_batch_active_evolves]
       evolvesD [OF isolate_evolves] evolvesD [OF label_evolves] evolvesD [OF claim_evolves])

lemma calls_rel: "(case_call e may)\<^sup>*\<^sup>* s t \<Longrightarrow> rel s t"
  by (induction rule: rtranclp_induct) (auto intro: rel_refl rel_trans call_rel)

end

end
