(* ===== verification/Case_Invariant.thy ===== *)
theory Case_Invariant
  imports Case_Steps
begin

text \<open>
  The invariant of the repository: unique keys, a sealed chain for every case, batch and run, stored
  digests that match, and cases whose review is recorded in their chain. Then the history of
  the tables: rows and events are never dropped, and a version names one state of a case.
\<close>

section \<open>Reviews\<close>

definition workflow_ok :: "case_row \<Rightarrow> bool" where
  "workflow_ok c \<longleftrightarrow> 1 \<le> ca_version c
     \<and> (ca_workflow c \<in> {Pending_Approval, Closed} \<longleftrightarrow> ca_conclusion_by c \<noteq> None)
     \<and> (ca_workflow c \<in> {Pending_Approval, Closed} \<longleftrightarrow> ca_disposition c \<noteq> None)
     \<and> (ca_disposition c \<noteq> None \<longrightarrow> supported (ca_disposition c))
     \<and> (ca_workflow c = Closed \<longleftrightarrow> ca_approval_by c \<noteq> None)
     \<and> (ca_archived_at c \<noteq> None \<longrightarrow> ca_workflow c = Closed)"

text \<open>The conclusion, and the approval by someone else after it.\<close>

definition concluded_by :: "state_event list \<Rightarrow> case_row \<Rightarrow> state_event \<Rightarrow> bool" where
  "concluded_by own c v \<longleftrightarrow> v \<in> set own \<and> ev_action v = ''submit_conclusion''
     \<and> ca_conclusion_by c = Some (ev_actor v)"

definition approved_by :: "state_event list \<Rightarrow> case_row \<Rightarrow> state_event \<Rightarrow> state_event \<Rightarrow> bool" where
  "approved_by own c v w \<longleftrightarrow> w \<in> set own \<and> ev_action w = ''approve''
     \<and> ca_approval_by c = Some (ev_actor w) \<and> ev_seq v < ev_seq w \<and> ev_actor v \<noteq> ev_actor w"

definition reviewed :: "state_event list \<Rightarrow> case_row \<Rightarrow> bool" where
  "reviewed own c \<longleftrightarrow> (\<exists>v \<in> set own. ev_action v = ''close'')
     \<or> (ca_workflow c = Pending_Approval \<longrightarrow> (\<exists>v. concluded_by own c v))
       \<and> (ca_workflow c = Closed \<longrightarrow> (\<exists>v w. concluded_by own c v \<and> approved_by own c v w))"

lemma new_case_ok: "workflow_ok (new_case e i item run created)" "reviewed own (new_case e i item run created)"
  by (simp_all add: new_case_def Let_def workflow_ok_def reviewed_def)

lemma decided_workflow:
  assumes "workflow_ok c" "decide_case act now actor remark disposition assignee c = Some d"
  shows "workflow_ok (d\<lparr>ca_version := ca_version c + 1, ca_updated := now\<rparr>)"
  using assms by (cases act)
    (auto simp: workflow_ok_def without_conclusion_def supported_def split: if_splits)

lemma reviewed_mono:
  assumes "reviewed own c" "ca_workflow d = ca_workflow c" "ca_conclusion_by d = ca_conclusion_by c"
    "ca_approval_by d = ca_approval_by c"
  shows "reviewed (own @ [v]) d"
proof -
  have "concluded_by own c u \<Longrightarrow> concluded_by (own @ [v]) d u"
    "approved_by own c u w \<Longrightarrow> approved_by (own @ [v]) d u w" for u w
    using assms(3,4) by (auto simp: concluded_by_def approved_by_def)
  then show ?thesis using assms(1,2) unfolding reviewed_def by (metis in_set_conv_decomp append_Cons append_assoc)
qed

lemma decided_reviewed:
  assumes "reviewed own c" "decide_case act now actor remark disposition assignee c = Some d"
    and v: "ev_action v = action_text act" "ev_actor v = actor" "\<forall>u \<in> set own. ev_seq u < ev_seq v"
  shows "reviewed (own @ [v]) (d\<lparr>ca_version := n, ca_updated := now\<rparr>)"
proof (cases "\<exists>u \<in> set own. ev_action u = ''close''")
  case True
  then show ?thesis by (auto simp: reviewed_def)
next
  case False
  with assms(1) have before: "ca_workflow c = Pending_Approval \<Longrightarrow> \<exists>v. concluded_by own c v"
    "ca_workflow c = Closed \<Longrightarrow> \<exists>v w. concluded_by own c v \<and> approved_by own c v w"
    by (auto simp: reviewed_def)
  show ?thesis
  proof (cases act)
    case Approve
    with assms(2) before(1) obtain u where "concluded_by own c u" "ca_conclusion_by c \<noteq> Some actor"
      "d = c\<lparr>ca_workflow := Closed, ca_approval_by := Some actor, ca_approval_at := Some now,
        ca_approval_note := remark\<rparr>" by (auto split: if_splits)
    moreover from this v Approve have "approved_by (own @ [v]) (d\<lparr>ca_version := n, ca_updated := now\<rparr>) u v"
      by (auto simp: concluded_by_def approved_by_def)
    ultimately show ?thesis by (auto simp: reviewed_def concluded_by_def)
  next
    case Archive_Case
    with assms(2) show ?thesis by (intro reviewed_mono [OF assms(1)]) (auto split: if_splits)
  next
    case Restore_Case
    with assms(2) show ?thesis by (intro reviewed_mono [OF assms(1)]) (auto split: if_splits)
  qed (use assms(2) before v in \<open>auto simp: reviewed_def concluded_by_def approved_by_def without_conclusion_def
         split: if_splits\<close>)
qed

section \<open>The invariant\<close>

definition keys_ok :: "case_db \<Rightarrow> bool" where
  "keys_ok s \<longleftrightarrow> distinct (map ba_id (batches s)) \<and> distinct (map ca_id (cases s))
     \<and> ev_key ` set (lifecycle s) \<subseteq> ba_id ` set (batches s)
     \<and> ev_key ` set (case_events s) \<subseteq> ca_id ` set (cases s)"

lemma find_batch_of: "keys_ok s \<Longrightarrow> b \<in> set (batches s) \<Longrightarrow> find_batch (ba_id b) s = Some b"
  by (simp add: keys_ok_def find_batch_def find_unique)

lemma find_case_of: "keys_ok s \<Longrightarrow> c \<in> set (cases s) \<Longrightarrow> find_case (ca_id c) s = Some c"
  by (simp add: keys_ok_def find_case_def find_unique)

definition batch_ok :: "case_env \<Rightarrow> state_event list \<Rightarrow> portfolio_row \<Rightarrow> bool" where
  "batch_ok e vs b \<longleftrightarrow> sealed_chain e ''batch_id'' ''reason'' vs (ba_id b) (batch_json e b) (ba_version b)
     \<and> sha_json e (ba_request b) = ba_request_sha b \<and> stored_batch_intact e b \<and> ba_origin b = Some ''created''"

definition review_ok :: "case_env \<Rightarrow> state_event list \<Rightarrow> case_row \<Rightarrow> bool" where
  "review_ok e vs c \<longleftrightarrow> sealed_chain e ''case_id'' ''note'' vs (ca_id c) (case_dict e c) (ca_version c)
     \<and> workflow_ok c \<and> reviewed (own_events (ca_id c) vs) c"

definition actions_ok :: "(case_action \<Rightarrow> bool) \<Rightarrow> state_event list \<Rightarrow> bool" where
  "actions_ok may vs \<longleftrightarrow> (\<forall>v \<in> set vs. ev_action v = ''created'' \<or> (\<exists>a. may a \<and> ev_action v = action_text a))"

definition labels_ok :: "case_env \<Rightarrow> label_row list \<Rightarrow> bool" where
  "labels_ok e ls \<longleftrightarrow> (\<forall>i. sealed_labels e ls i)"

definition case_ok :: "case_env \<Rightarrow> (case_action \<Rightarrow> bool) \<Rightarrow> case_db \<Rightarrow> bool" where
  "case_ok e may s \<longleftrightarrow> keys_ok s \<and> (\<forall>b \<in> set (batches s). batch_ok e (lifecycle s) b)
     \<and> (\<forall>c \<in> set (cases s). review_ok e (case_events s) c)
     \<and> (\<forall>r \<in> set (analysis_runs s). run_input_valid e r \<and> run_result_valid e r)
     \<and> labels_ok e (labels s) \<and> actions_ok may (case_events s)"

lemma ball_set_map: "(\<forall>y \<in> set (map g xs). P y) \<longleftrightarrow> (\<forall>x \<in> set xs. P (g x))"
  by simp

lemma batch_added_ok:
  assumes "case_ok e may s" "find_batch (ba_id b) s = None" "b = new_portfolio_batch e p created"
  shows "case_ok e may (with_batch_event e (ba_id b) ''created'' ''system'' None None (batch_json e b) created
    (s\<lparr>batches := batches s @ [b]\<rparr>))"
proof -
  have fresh: "ba_id b \<notin> ba_id ` set (batches s)"
    using assms(2) by (auto simp: find_batch_def find_None)
  moreover have "ev_key ` set (lifecycle s) \<subseteq> ba_id ` set (batches s)"
    using assms(1) by (simp add: case_ok_def keys_ok_def)
  ultimately have none: "\<forall>v \<in> set (lifecycle s). ev_key v \<noteq> ba_id b"
    by (metis image_subset_iff)
  let ?v = "next_event e ''batch_id'' ''reason'' (ba_id b) ''created'' ''system'' None None (batch_json e b)
    created (lifecycle s)"
  have "batch_ok e (lifecycle s @ [?v]) b"
    using sealed_first [OF none] by (simp add: batch_ok_def assms(3) new_portfolio_batch_def stored_batch_intact_def
        sha_json_def json_or_null_def split: option.split)
  moreover have "batch_ok e (lifecycle s @ [?v]) x" if "x \<in> set (batches s)" for x
  proof -
    have "ba_id b \<noteq> ba_id x" using that fresh by (metis imageI)
    then show ?thesis using assms(1) that by (simp add: case_ok_def batch_ok_def sealed_other)
  qed
  moreover have "ev_key ?v = ba_id b" by (rule next_event_fields [OF refl])
  ultimately show ?thesis
    using assms(1) fresh by (auto simp: case_ok_def keys_ok_def with_batch_event_def)
qed

lemma batch_changed_ok:
  assumes "case_ok e may s" and b: "find_batch i s = Some b" and kept: "\<And>x. batch_kept x (f x)"
    and version: "ba_version (f b) = ba_version b + 1"
  shows "case_ok e may (with_batch_event e i action actor reason (Some (batch_json e b)) (batch_json e (f b)) now
    (change_batch i f s))"
proof -
  let ?g = "\<lambda>x. if ba_id x = i then f x else x"
  let ?v = "next_event e ''batch_id'' ''reason'' i action actor reason (Some (batch_json e b))
    (batch_json e (f b)) now (lifecycle s)"
  have mem: "b \<in> set (batches s)" "ba_id b = i" using find_batch_mem [OF b] by simp_all
  have ids: "ba_id (?g x) = ba_id x" for x using kept [of x] by (simp add: batch_kept_def)
  have "batch_ok e (lifecycle s @ [?v]) (?g x)" if x: "x \<in> set (batches s)" for x
  proof (cases "ba_id x = i")
    case True
    then have "x = b" using assms(1) x mem same_key [of ba_id] by (auto simp: case_ok_def keys_ok_def)
    moreover have "batch_ok e (lifecycle s) b" using assms(1) mem by (simp add: case_ok_def)
    ultimately show ?thesis using mem version kept [of b]
        sealed_more [of e "''batch_id''" "''reason''" "lifecycle s" i "batch_json e b" "ba_version b" action actor
          reason "batch_json e (f b)" now]
      by (simp add: batch_ok_def batch_kept_def stored_batch_intact_def)
  next
    case False
    then show ?thesis using assms(1) x by (auto simp: case_ok_def batch_ok_def sealed_other)
  qed
  moreover have same: "map ba_id (map ?g (batches s)) = map ba_id (batches s)"
    unfolding map_map comp_def ids ..
  then have "ba_id ` set (map ?g (batches s)) = ba_id ` set (batches s)" by (metis list.set_map)
  moreover have "ev_key ?v = i" by (rule next_event_fields [OF refl])
  ultimately show ?thesis
    using assms(1) same mem unfolding case_ok_def keys_ok_def with_batch_event_def change_batch_def
    by (simp del: map_map set_map add: ball_set_map rev_image_eqI)
qed

lemma case_added_ok:
  assumes "case_ok e may s" "\<not> list_ex (case_clash c) (cases s)" "c = new_case e i item run created"
  shows "case_ok e may (with_case_event e (ca_id c) ''created'' ''system'' remark None (case_dict e c) created
    (s\<lparr>cases := cases s @ [c]\<rparr>))"
proof -
  have fresh: "ca_id c \<notin> ca_id ` set (cases s)"
    using assms(2) by (auto simp: list_ex_iff case_clash_def)
  moreover have "ev_key ` set (case_events s) \<subseteq> ca_id ` set (cases s)"
    using assms(1) by (simp add: case_ok_def keys_ok_def)
  ultimately have none: "\<forall>v \<in> set (case_events s). ev_key v \<noteq> ca_id c"
    by (metis image_subset_iff)
  let ?v = "next_event e ''case_id'' ''note'' (ca_id c) ''created'' ''system'' remark None (case_dict e c)
    created (case_events s)"
  have "ca_version c = 1" by (simp add: assms(3) new_case_def Let_def)
  then have "review_ok e (case_events s @ [?v]) c"
    using sealed_first [OF none] new_case_ok by (simp add: review_ok_def assms(3))
  moreover have "review_ok e (case_events s @ [?v]) x" if "x \<in> set (cases s)" for x
  proof -
    have "ca_id c \<noteq> ca_id x" using that fresh by (metis imageI)
    then show ?thesis using assms(1) that by (simp add: case_ok_def review_ok_def sealed_other own_events_append)
  qed
  moreover have "ev_key ?v = ca_id c" "ev_action ?v = ''created''" by (rule next_event_fields [OF refl])+
  ultimately show ?thesis
    using assms(1) fresh by (auto simp: case_ok_def keys_ok_def with_case_event_def actions_ok_def)
qed

lemma numbered_below: "map f xs = [1 ..< Suc (length xs)] \<Longrightarrow> \<forall>x \<in> set xs. f x < Suc (length xs)"
  by (metis atLeastLessThan_iff image_eqI list.set_map set_upt)

lemma case_changed_ok:
  assumes "case_ok e may s" and c: "find_case i s = Some c" and "may act"
    and only: "filter (\<lambda>x. ca_id x = i \<and> ca_version x = ca_version c) (cases s) = [c]"
    and decided: "decide_case act now actor remark disposition assignee c = Some d"
    and row: "row = d\<lparr>ca_version := ca_version c + 1, ca_updated := now\<rparr>" and id: "ca_id d = ca_id c"
  shows "case_ok e may (with_case_event e i (action_text act) actor remark (Some (case_dict e c)) (case_dict e row) now
    (change_case i (ca_version c) row s))"
proof -
  let ?g = "\<lambda>x. if ca_id x = i \<and> ca_version x = ca_version c then row else x"
  let ?v = "next_event e ''case_id'' ''note'' i (action_text act) actor remark (Some (case_dict e c))
    (case_dict e row) now (case_events s)"
  have mem: "c \<in> set (cases s)" "ca_id c = i" using find_case_mem [OF c] by simp_all
  have ids: "ca_id (?g x) = ca_id x" for x using row id mem by simp
  have ok: "review_ok e (case_events s) c" using assms(1) mem by (simp add: case_ok_def)
  note fields = next_event_fields [OF refl, of e "''case_id''" "''note''" i "action_text act" actor remark
      "Some (case_dict e c)" "case_dict e row" now "case_events s"]
  have events: "events_of i (case_events s) = own_events i (case_events s)"
    and own: "own_events i (case_events s) \<noteq> []"
      "map ev_seq (own_events i (case_events s)) = [1 ..< Suc (length (own_events i (case_events s)))]"
    using ok mem sealed_events by (auto simp: review_ok_def sealed_chain_def Let_def)
  then have "ev_seq ?v = Suc (length (own_events i (case_events s)))"
    using fields(7) last_number [OF own(2,1)] by simp
  then have "reviewed (own_events i (case_events s) @ [?v]) row"
    unfolding row using ok mem numbered_below [OF own(2)]
    by (intro decided_reviewed [OF _ decided] fields(2,3) [unfolded row]) (auto simp: review_ok_def row)
  moreover have "workflow_ok row" unfolding row using ok decided by (intro decided_workflow) (auto simp: review_ok_def)
  moreover have "sealed_chain e ''case_id'' ''note'' (case_events s @ [?v]) i (case_dict e row) (ca_version c + 1)"
    using ok mem by (intro sealed_more) (simp add: review_ok_def)
  moreover have "ca_version row = ca_version c + 1" "ca_id row = i" by (simp_all add: row id mem)
  ultimately have changed: "review_ok e (case_events s @ [?v]) row"
    by (simp add: review_ok_def own_events_append)
  have "review_ok e (case_events s @ [?v]) (?g x)" if x: "x \<in> set (cases s)" for x
  proof (cases "ca_id x = i")
    case True
    then have "x = c" using assms(1) x mem same_key [of ca_id] by (auto simp: case_ok_def keys_ok_def)
    then show ?thesis using changed mem by simp
  next
    case False
    then show ?thesis using assms(1) x by (auto simp: case_ok_def review_ok_def sealed_other own_events_append)
  qed
  moreover have same: "map ca_id (map ?g (cases s)) = map ca_id (cases s)"
    unfolding map_map comp_def ids ..
  then have "ca_id ` set (map ?g (cases s)) = ca_id ` set (cases s)" by (metis list.set_map)
  moreover have "actions_ok may (case_events s @ [?v])"
    using assms(1) \<open>may act\<close> fields(2) by (auto simp: case_ok_def actions_ok_def)
  ultimately show ?thesis
    using assms(1) same mem fields(1) unfolding case_ok_def keys_ok_def with_case_event_def change_case_def
    by (simp del: map_map set_map add: ball_set_map rev_image_eqI)
qed

lemma label_added_ok:
  assumes ok: "labels_ok e (labels s)"
    and l: "lb_seq l = (if labels_of (lb_run l) (labels s) = [] then 0 else lb_seq (last (labels_of (lb_run l) (labels s)))) + 1"
      "lb_previous l = (if labels_of (lb_run l) (labels s) = [] then [] else lb_hash (last (labels_of (lb_run l) (labels s))))"
      "label_digest e l = lb_hash l"
  shows "labels_ok e (labels s @ [l])"
  unfolding labels_ok_def
proof (intro allI sealed_labels_snoc)
  fix i
  show i: "sealed_labels e (labels s) i" using ok by (simp add: labels_ok_def)
  assume "lb_run l = i"
  moreover have "labels_of i (labels s) = own_labels i (labels s)" by (rule sealed_labels_of [OF i])
  ultimately show "lb_seq l = Suc (length (own_labels i (labels s))) \<and> label_digest e l = lb_hash l
      \<and> lb_previous l = (if own_labels i (labels s) = [] then [] else lb_hash (last (own_labels i (labels s))))"
    using l i last_number [of lb_seq "own_labels i (labels s)"] by (auto simp: sealed_labels_def)
qed

interpretation casework_kept: case_relation "keeps (case_ok e may)" e may for e may
proof unfold_locales
  show "keeps (case_ok e may) s (with_case_event e i (action_text act) actor remark (Some (case_dict e c))
      (case_dict e row) now (change_case i (ca_version c) row s))"
    if "find_case i s = Some c" "may act"
      "filter (\<lambda>x. ca_id x = i \<and> ca_version x = ca_version c) (cases s) = [c]"
      "decide_case act now actor remark disposition assignee c = Some d"
      "row = d\<lparr>ca_version := ca_version c + 1, ca_updated := now\<rparr>"
    for i s c act now actor remark disposition assignee and d row :: case_row
    unfolding keeps_def
    using case_changed_ok [of e may s i c act now actor remark disposition assignee d row] that
      decided_id [OF that(4)] by blast
  show "keeps (case_ok e may) s (s\<lparr>labels := labels s @ [l]\<rparr>)"
    if "lb_seq l = (if labels_of (lb_run l) (labels s) = [] then 0 else lb_seq (last (labels_of (lb_run l) (labels s)))) + 1"
      "lb_previous l = (if labels_of (lb_run l) (labels s) = [] then [] else lb_hash (last (labels_of (lb_run l) (labels s))))"
      "label_digest e l = lb_hash l" for s and l :: label_row
    unfolding keeps_def using label_added_ok [OF _ that] by (simp add: case_ok_def keys_ok_def)
  show "keeps (case_ok e may) s (s\<lparr>analysis_runs := analysis_runs s @ [r]\<rparr>)"
    if "\<not> list_ex (analysis_clash r) (analysis_runs s)" "r = new_run e i engine item input created"
    for s r i engine item input created
    using that(2) by (auto simp: keeps_def case_ok_def keys_ok_def new_run_def Let_def run_input_valid_def
        run_result_valid_def sha_json_def)
qed (auto simp: keeps_def intro!: batch_added_ok batch_changed_ok case_added_ok,
     auto simp: case_ok_def keys_ok_def)

lemma case_reachable_ok: "case_reachable e may s \<Longrightarrow> case_ok e may s"
proof (induction rule: case_reachable.induct)
  case start
  show ?case by (simp add: case_ok_def keys_ok_def actions_ok_def new_case_db_def labels_ok_def sealed_labels_def own_labels_def)
next
  case (step s t)
  then show ?case using casework_kept.call_rel by (auto simp: keeps_def)
qed

text \<open>
  The history of the tables: rows and events are never dropped, and a version names one state of
  a case.
\<close>

definition case_kept :: "case_row \<Rightarrow> case_row \<Rightarrow> bool" where
  "case_kept a b \<longleftrightarrow> ca_id b = ca_id a \<and> ca_run b = ca_run a \<and> ca_batch b = ca_batch a
     \<and> ca_mine b = ca_mine a \<and> ca_issue b = ca_issue a \<and> ca_created b = ca_created a
     \<and> (b = a \<or> ca_version a < ca_version b)"

definition case_history :: "case_db \<Rightarrow> case_db \<Rightarrow> bool" where
  "case_history s t \<longleftrightarrow> grown batch_kept (batches s) (batches t) \<and> grown case_kept (cases s) (cases t)
     \<and> grown (=) (lifecycle s) (lifecycle t) \<and> grown (=) (case_events s) (case_events t)
     \<and> grown (=) (analysis_runs s) (analysis_runs t) \<and> grown (=) (labels s) (labels t)"

lemma batch_kept_trans: "batch_kept a b \<Longrightarrow> batch_kept b c \<Longrightarrow> batch_kept a c"
  by (auto simp: batch_kept_def)

lemma case_kept_refl: "case_kept c c"
  by (simp add: case_kept_def)

lemma case_kept_trans: "case_kept a b \<Longrightarrow> case_kept b c \<Longrightarrow> case_kept a c"
  by (auto simp: case_kept_def)

lemma grown_map_in: "(\<And>x. x \<in> set xs \<Longrightarrow> kept x (f x)) \<Longrightarrow> grown kept xs (map f xs)"
  by (simp add: grown_def)

lemma decided_kept:
  assumes "decide_case act now actor remark disposition assignee c = Some d"
  shows "case_kept c (d\<lparr>ca_version := ca_version c + 1, ca_updated := now\<rparr>)"
  using assms by (cases act) (auto simp: case_kept_def without_conclusion_def split: if_splits)

lemmas history_parts = case_history_def with_batch_event_def with_case_event_def change_batch_def change_case_def

lemmas grown_rules = grown_refl grown_append batch_kept_refl case_kept_refl refl

interpretation casework_history: case_relation case_history e may for e may
proof unfold_locales
  show "case_history s s" for s by (simp add: case_history_def grown_rules)
  show "case_history s u" if "case_history s t" "case_history t u" for s t u
    using that unfolding case_history_def
    by (auto elim: grown_trans [rotated] intro: batch_kept_trans case_kept_trans)
  show "case_history s (with_batch_event e i action actor reason (Some (batch_json e b)) (batch_json e (f b)) now
      (change_batch i f s))" if "\<And>x. batch_kept x (f x)" for i s b f action actor reason now
    using that by (auto simp: history_parts grown_rules intro!: grown_map_in)
  show "case_history s (with_case_event e i (action_text act) actor remark (Some (case_dict e c))
      (case_dict e row) now (change_case i (ca_version c) row s))"
    if only: "filter (\<lambda>x. ca_id x = i \<and> ca_version x = ca_version c) (cases s) = [c]"
      and d: "decide_case act now actor remark disposition assignee c = Some d"
        "row = d\<lparr>ca_version := ca_version c + 1, ca_updated := now\<rparr>"
    for i s c act now actor remark disposition assignee and d row :: case_row
  proof -
    have "x = c" if "x \<in> set (cases s)" "ca_id x = i" "ca_version x = ca_version c" for x
    proof -
      have "x \<in> set (filter (\<lambda>x. ca_id x = i \<and> ca_version x = ca_version c) (cases s))" using that by simp
      then show ?thesis using only by simp
    qed
    then have "case_kept x (if ca_id x = i \<and> ca_version x = ca_version c then row else x)"
      if "x \<in> set (cases s)" for x
      using that decided_kept [OF d(1)] d(2) case_kept_refl by (cases "x = c") auto
    then show ?thesis by (auto simp: history_parts grown_rules intro!: grown_map_in)
  qed
qed (simp_all add: history_parts grown_rules)

section \<open>Rows found later\<close>

lemma find_batch_later:
  assumes "case_ok e may t" "case_history s t" "find_batch i s = Some b"
  obtains b' where "find_batch i t = Some b'" "batch_kept b b'"
proof -
  have b: "b \<in> set (batches s)" "ba_id b = i" using find_batch_mem [OF assms(3)] by simp_all
  then obtain b' where b': "b' \<in> set (batches t)" "batch_kept b b'"
    using assms(2) grown_mem unfolding case_history_def by metis
  moreover have "ba_id b' = i" using b b' by (simp add: batch_kept_def)
  ultimately have "find_batch i t = Some b'"
    using assms(1) find_batch_of b' by (auto simp: case_ok_def)
  then show thesis using b'(2) by (rule that)
qed

lemma find_case_later:
  assumes "case_ok e may t" "case_history s t" "find_case i s = Some c"
  obtains c' where "find_case i t = Some c'" "case_kept c c'"
proof -
  have c: "c \<in> set (cases s)" "ca_id c = i" using find_case_mem [OF assms(3)] by simp_all
  then obtain c' where c': "c' \<in> set (cases t)" "case_kept c c'"
    using assms(2) grown_mem unfolding case_history_def by metis
  moreover have "ca_id c' = i" using c c' by (simp add: case_kept_def)
  ultimately have "find_case i t = Some c'"
    using assms(1) find_case_of c' by (auto simp: case_ok_def)
  then show thesis using c'(2) by (rule that)
qed

end
