(* ===== verification/Case_Api.thy ===== *)
theory Case_Api
  imports Case_Runs Auth_Store
begin

text \<open>
  \<open>_handle_case_action\<close> of \<open>api.py\<close>: the permission for the mine of the case, the refusal of direct
  closing while authentication is required, the action, and the audit events. \<open>seen\<close> is the database
  when the case was read for the permission check; other requests may have committed since. Reading
  the answer back is left out.
\<close>

record action_request =
  rq_case :: string
  rq_action :: case_action
  rq_version :: int
  rq_note :: "string option"
  rq_disposition :: "string option"
  rq_assignee :: "string option"

datatype case_reply =
    Applied case_row | Blocked gate | Case_Missing | Double_Review_Required | Stale_Version
  | Action_Refused | Raised case_error

definition action_permission :: "case_action \<Rightarrow> string" where
  "action_permission a = (if a = Assign then ''case.assign''
     else if a \<in> {Approve, Reject, Reopen, Archive_Case, Restore_Case} then ''case.approve''
     else ''case.review'')"

definition accepted_disposition :: "string option \<Rightarrow> string option" where
  "accepted_disposition d = (if d = Some ''confirmed'' then Some ''confirmed_technical_issue'' else d)"

definition action_detail :: "action_request \<Rightarrow> (string \<times> json) list \<Rightarrow> json" where
  "action_detail q extra =
     JObj ([(''case_id'', JStr (rq_case q)), (''action'', JStr (action_text (rq_action q)))] @ extra)"

definition log_action ::
    "int \<Rightarrow> string \<Rightarrow> principal \<Rightarrow> string \<Rightarrow> action_request \<Rightarrow> (string \<times> json) list \<Rightarrow> auth_db \<Rightarrow> auth_db" where
  "log_action now client p action q extra as =
     snd (record_audit_event now action (Some p) (Some client) (action_detail q extra) as)"

definition handle_case_action ::
    "case_env \<Rightarrow> bool \<Rightarrow> int \<Rightarrow> string \<Rightarrow> principal \<Rightarrow> action_request \<Rightarrow> case_db \<Rightarrow> auth_db \<Rightarrow> case_db \<Rightarrow>
      case_reply \<times> auth_db \<times> case_db" where
  "handle_case_action e required now client p q seen as s =
     (case find_case (rq_case q) seen of
        None \<Rightarrow> (Case_Missing, as, s)
      | Some c \<Rightarrow>
          (case require_permission now client p (action_permission (rq_action q)) (Some (ca_mine c)) as of
             (Granted _, as1) \<Rightarrow>
               if required \<and> rq_action q = Close_Case then
                 (Double_Review_Required, log_action now client p ''case_action_denied'' q
                   [(''reason'', JStr ''double_review_required'')] as1, s)
               else
                 (case apply_case_action e now (rq_case q) (rq_action q) (rq_version q) (pr_name p) (rq_note q)
                    (accepted_disposition (rq_disposition q)) (rq_assignee q) s of
                    (Inr row, t) \<Rightarrow>
                      (Applied row, log_action now client p ''case_action_applied'' q
                        [(''expected_version'', json_int (rq_version q))] as1, t)
                  | (Inl x, t) \<Rightarrow>
                      if x = Case_Not_Found then (Case_Missing, as1, t)
                      else if x = Version_Conflict then
                        (Stale_Version, log_action now client p ''case_action_denied'' q
                          [(''reason'', JStr ''version_conflict''),
                           (''expected_version'', json_int (rq_version q))] as1, t)
                      else if x = Invalid_Action then
                        (Action_Refused, log_action now client p ''case_action_denied'' q
                          [(''reason'', JStr ''invalid_case_action'')] as1, t)
                      else (Raised x, as1, t))
           | (g, as1) \<Rightarrow> (Blocked g, as1, s)))"

text \<open>The repository behind the server: case actions only through the handler.\<close>

inductive served_call :: "case_env \<Rightarrow> bool \<Rightarrow> case_db \<Rightarrow> case_db \<Rightarrow> bool"
    for e :: case_env and required :: bool where
  handled: "handle_case_action e required now client p q seen as s = (r, as', t) \<Longrightarrow> served_call e required s t"
| other: "case_call e (\<lambda>_. False) s t \<Longrightarrow> served_call e required s t"

inductive served_reachable :: "case_env \<Rightarrow> bool \<Rightarrow> case_db \<Rightarrow> bool"
    for e :: case_env and required :: bool where
  start: "served_reachable e required new_case_db"
| step: "served_reachable e required s \<Longrightarrow> served_call e required s t \<Longrightarrow> served_reachable e required t"

inductive_cases served_callE: "served_call e required s t"

definition served_action :: "bool \<Rightarrow> case_action \<Rightarrow> bool" where
  "served_action required a \<longleftrightarrow> \<not> (required \<and> a = Close_Case)"

lemma handled_call:
  assumes "handle_case_action e required now client p q seen as s = (r, as', t)"
  shows "t = s \<or> case_call e (served_action required) s t"
proof -
  let ?run = "apply_case_action e now (rq_case q) (rq_action q) (rq_version q) (pr_name p) (rq_note q)
    (accepted_disposition (rq_disposition q)) (rq_assignee q) s"
  have "t = s \<or> t = snd ?run \<and> served_action required (rq_action q)"
    using assms unfolding handle_case_action_def served_action_def
    by (auto split: option.splits prod.splits gate.splits if_splits sum.splits)
  then show ?thesis using case_call.act [of e now "rq_case q" "rq_action q" "rq_version q" "pr_name p" "rq_note q"
      "accepted_disposition (rq_disposition q)" "rq_assignee q" s "fst ?run" "snd ?run" "served_action required"]
    by auto
qed

lemma case_call_mono: "case_call e may s t \<Longrightarrow> (\<And>a. may a \<Longrightarrow> may' a) \<Longrightarrow> case_call e may' s t"
  by (erule case_callE) (auto intro: case_call.intros)

lemma served_reachable_calls: "served_reachable e required s \<Longrightarrow> case_reachable e (served_action required) s"
proof (induction rule: served_reachable.induct)
  case start
  show ?case by (rule case_reachable.start)
next
  case (step s t)
  from step(2) have "t = s \<or> case_call e (served_action required) s t"
    by (cases rule: served_call.cases) (auto dest: handled_call case_call_mono)
  then show ?case using step case_reachable.step by auto
qed

end
