(* ===== verification/Case_Properties.thy ===== *)
theory Case_Properties
  imports Case_Invariant Case_Api
begin

text \<open>Properties of the casework in every reachable state.\<close>

section \<open>Chains\<close>

lemma same_state_refl: "same_document x x" "same_case_state x x"
  by (simp_all add: same_document_def same_case_state_def)

lemma same_state_canonical: "same_document (Some (canonical j)) (Some j)"
  by (simp add: same_document_def)

lemma normalized_canonical: "same_case_state (Some (canonical (case_dict e c))) (Some (case_dict e c))"
proof -
  obtain kvs where dict: "case_dict e c = JObj kvs" "\<forall>k \<in> set defaulted_keys. map_of kvs k \<noteq> None"
    by (simp add: case_dict_def defaulted_keys_def)
  have "\<forall>k \<in> set defaulted_keys. map_of (sorted_payload kvs) k \<noteq> None"
    using dict(2) by (simp only: map_of_eq_None_iff keys_sorted_payload not_False_eq_True)
  then have "filter (\<lambda>k. map_of (sorted_payload kvs) k = None) defaulted_keys = []"
    "filter (\<lambda>k. map_of kvs k = None) defaulted_keys = []"
    using dict(2) by (auto simp: filter_empty_conv)
  then show ?thesis
    by (simp add: same_case_state_def same_document_def normalized_state_def dict(1) canonical_JObj
        canonical_sorted_payload del: canonical.simps(2))
qed

lemma case_chain_verifies:
  assumes "case_ok e may s" "c \<in> set (cases s)"
  shows "verify_case_chain e (ca_id c) s = Inr True"
    and "ca_version c = int (length (events_of (ca_id c) (case_events s)))"
proof -
  have chain: "sealed_chain e ''case_id'' ''note'' (case_events s) (ca_id c) (case_dict e c) (ca_version c)"
    using assms by (simp add: case_ok_def review_ok_def)
  then show "verify_case_chain e (ca_id c) s = Inr True"
    using assms find_case_of normalized_canonical [of e c]
      events_linked_weaken [of same_case_state, OF same_state_refl(2)] sealed_events [OF chain]
    by (auto simp: verify_case_chain_def case_ok_def sealed_chain_def Let_def)
  show "ca_version c = int (length (events_of (ca_id c) (case_events s)))"
    using chain sealed_events [OF chain] by (simp add: sealed_chain_def Let_def)
qed

lemma batch_chain_verifies:
  assumes "case_ok e may s" "b \<in> set (batches s)"
  shows "verify_batch_lifecycle_chain e (ba_id b) s = Inr True"
    and "ba_version b = int (length (events_of (ba_id b) (lifecycle s)))"
proof -
  have chain: "sealed_chain e ''batch_id'' ''reason'' (lifecycle s) (ba_id b) (batch_json e b) (ba_version b)"
    using assms by (simp add: case_ok_def batch_ok_def)
  then show "verify_batch_lifecycle_chain e (ba_id b) s = Inr True"
    using assms find_batch_of same_state_canonical
      events_linked_weaken [of same_document, OF same_state_refl(1)] sealed_events [OF chain]
    by (auto simp: verify_batch_lifecycle_chain_def case_ok_def sealed_chain_def Let_def)
  show "ba_version b = int (length (events_of (ba_id b) (lifecycle s)))"
    using chain sealed_events [OF chain] by (simp add: sealed_chain_def Let_def)
qed

text \<open>C21: in every state the repository reaches, the event chain of every case and of every batch
  verifies against its current row, and its length is the version of the row.\<close>

theorem casework_chains_verify:
  assumes "case_reachable e may s"
  shows "(\<forall>c \<in> set (cases s). verify_case_chain e (ca_id c) s = Inr True
        \<and> ca_version c = int (length (events_of (ca_id c) (case_events s))))
    \<and> (\<forall>b \<in> set (batches s). verify_batch_lifecycle_chain e (ba_id b) s = Inr True
        \<and> ba_version b = int (length (events_of (ba_id b) (lifecycle s))))"
  using case_chain_verifies [OF case_reachable_ok [OF assms]] batch_chain_verifies [OF case_reachable_ok [OF assms]]
  by blast

section \<open>Two people\<close>

text \<open>C20: behind a server that requires authentication, a closed case has a conclusion and, recorded
  later in its chain, an approval by another person; the row names both.\<close>

theorem closed_cases_take_two:
  assumes "served_reachable e True s" and "c \<in> set (cases s)" and "ca_workflow c = Closed"
  shows "\<exists>v w. {v, w} \<subseteq> set (events_of (ca_id c) (case_events s))
    \<and> ev_action v = ''submit_conclusion'' \<and> ca_conclusion_by c = Some (ev_actor v)
    \<and> ev_action w = ''approve'' \<and> ca_approval_by c = Some (ev_actor w)
    \<and> ev_seq v < ev_seq w \<and> ev_actor v \<noteq> ev_actor w"
proof -
  have ok: "case_ok e (served_action True) s"
    using served_reachable_calls [OF assms(1)] by (rule case_reachable_ok)
  then have "review_ok e (case_events s) c" using assms(2) by (simp add: case_ok_def)
  then have "reviewed (own_events (ca_id c) (case_events s)) c"
    and own: "events_of (ca_id c) (case_events s) = own_events (ca_id c) (case_events s)"
    using sealed_events by (auto simp: review_ok_def)
  moreover have "action_text a = ''close'' \<Longrightarrow> a = Close_Case" for a by (cases a) simp_all
  then have "\<forall>v \<in> set (own_events (ca_id c) (case_events s)). ev_action v \<noteq> ''close''"
    using ok by (fastforce simp: case_ok_def actions_ok_def served_action_def own_events_def)
  ultimately obtain v w where "concluded_by (own_events (ca_id c) (case_events s)) c v"
      "approved_by (own_events (ca_id c) (case_events s)) c v w"
    using assms(3) by (auto simp: reviewed_def)
  then show ?thesis unfolding own by (intro exI [of _ v] exI [of _ w]) (auto simp: concluded_by_def approved_by_def)
qed

section \<open>Versions\<close>

lemma case_tx_Inr: "case_tx m s = (Inr a, t) \<longleftrightarrow> m s = (Inr a, t)"
  by (simp add: case_tx_def transaction_Inr)

lemma case_tx_Inl: "m s = (Inl x, t) \<Longrightarrow> case_tx m s = (Inl x, s)"
  by (simp add: case_tx_def transaction_def)

lemma apply_Inr:
  assumes "apply_case_action e now i act expected actor remark disposition assignee s = (Inr c, t)"
  obtains b where "find_case i s = Some b" "ca_version b = expected" "ca_version c = expected + 1"
    "find_case i t = Some c"
proof -
  note run = assms [unfolded apply_case_action_def Let_def bind_require case_tx_Inr]
  obtain b where b: "find_case i s = Some b"
    using run by (cases "find_case i s") (auto simp: raise_def case_tx_Inr split: if_splits)
  then obtain d where d: "decide_case act now (python_strip actor) (map_option python_strip remark) disposition
      (map_option python_strip assignee) b = Some d" and version: "ca_version b = expected"
    using run by (auto simp: raise_def case_tx_Inr bind_require the_row_def split: if_splits option.splits)
  let ?row = "d\<lparr>ca_version := ca_version b + 1, ca_updated := now\<rparr>"
  have "ca_id ?row = i" using decided_id [OF d] find_case_mem [OF b] by simp
  then have row: "find_case i (change_case i (ca_version b) ?row s) = Some ?row" by (rule find_case_changed [OF b])
  then have "c = ?row \<and> cases t = cases (change_case i (ca_version b) ?row s)"
    using run b d version
    by (auto simp: raise_def ret_def case_tx_Inr bind_require append_case_event_def split: if_splits)
  with row have "find_case i t = Some c" "ca_version c = expected + 1"
    by (simp_all add: find_case_def version)
  with b version show thesis by (intro that)
qed

lemma apply_stale:
  assumes "find_case i s = Some b" "ca_version b \<noteq> expected"
  shows "apply_case_action e now i act expected actor remark disposition assignee s =
    (Inl (if python_strip actor \<noteq> [] \<and> 1 \<le> expected then Version_Conflict else Invalid_Action), s)"
  using assms by (simp add: apply_case_action_def Let_def bind_require raise_def case_tx_def transaction_def)

text \<open>C22: once an action on a version of a case succeeded, no other action on that version ever does,
  whatever happens in between: it is refused and changes nothing.\<close>

theorem stale_version_refused:
  assumes "case_reachable e may s" and "may act"
    and "apply_case_action e now i act expected actor remark disposition assignee s = (Inr c, t)"
    and "(case_call e may)\<^sup>*\<^sup>* t u" and "python_strip actor' \<noteq> []"
  shows "apply_case_action e now' i act' expected actor' remark' disposition' assignee' u = (Inl Version_Conflict, u)"
proof -
  obtain b where b: "find_case i s = Some b" "ca_version b = expected" "ca_version c = expected + 1"
    "find_case i t = Some c" by (rule apply_Inr [OF assms(3)])
  have s: "case_ok e may s" using assms(1) by (rule case_reachable_ok)
  then have "1 \<le> expected" using find_case_mem [OF b(1)] b(2) by (auto simp: case_ok_def review_ok_def workflow_ok_def)
  have "case_ok e may t"
    using casework_kept.call_rel [OF case_call.act [where may = may, OF assms(3,2)]] s by (simp add: keeps_def)
  then have "case_ok e may u" using casework_kept.calls_rel [OF assms(4)] by (simp add: keeps_def)
  then obtain c' where "find_case i u = Some c'" "case_kept c c'"
    using find_case_later casework_history.calls_rel [OF assms(4)] b(4) by blast
  then show ?thesis using apply_stale [of i u c' expected] b(3) assms(5) \<open>1 \<le> expected\<close> by (auto simp: case_kept_def)
qed

section \<open>Batches sent again\<close>

lemma with_batch_event_batches: "batches (with_batch_event e k action actor reason before after created s) = batches s"
  by (simp add: with_batch_event_def)

lemma saved_batch:
  assumes "save_portfolio_batch e features created p engine s = (Inr (True, r), t)" "case_ok e may t"
  obtains b where "find_batch (pf_batch p) t = Some b" "batch_kept (new_portfolio_batch e p created) b"
proof -
  let ?b = "new_portfolio_batch e p created"
  let ?s = "with_batch_event e (pf_batch p) ''created'' ''system'' None None (batch_json e ?b) created
    (s\<lparr>batches := batches s @ [?b]\<rparr>)"
  note run = assms(1) [unfolded save_portfolio_batch_def case_tx_Inr]
  have none: "find_batch (pf_batch p) s = None"
    using run by (cases "find_batch (pf_batch p) s") (auto simp: bind_require raise_def ret_def split: if_splits)
  then have found: "find_batch (pf_batch p) (s\<lparr>batches := batches s @ [?b]\<rparr>) = Some ?b"
    by (simp add: find_batch_def find_append new_portfolio_batch_def)
  then have "bind (for_each (save_item e features p engine created) (pf_items p)) (\<lambda>_. ret (True, pf_response p)) ?s
      = (Inr (True, r), t)"
    using run none by (simp add: append_batch_event_def with_batch_event_def)
  then have "case_history ?s t"
    by (rule evolvesD [rotated])
       (intro casework_history.evolves_bind casework_history.evolves_for_each casework_history.save_item_evolves
         casework_history.evolves_ret)
  moreover have "find_batch (pf_batch p) ?s = Some ?b"
    using found by (simp add: find_batch_def with_batch_event_def)
  ultimately show thesis using find_batch_later [OF assms(2)] that by blast
qed

text \<open>C23: a batch sent again, whatever happened in between, changes nothing: with the same request
  it gets the stored response, with another request under its id it is refused.\<close>

theorem batch_sent_again:
  assumes "case_reachable e may s"
    and "save_portfolio_batch e features created p engine s = (Inr (True, r), t)"
    and "(case_call e may)\<^sup>*\<^sup>* t u" and "pf_batch p' = pf_batch p"
  shows "save_portfolio_batch e features' created' p' engine' u =
    (if sha_json e (pf_request p') = sha_json e (pf_request p) then Inr (False, canonical (pf_response p))
     else Inl Batch_Conflict, u)"
proof -
  have t: "case_ok e may t"
    using casework_kept.call_rel [OF case_call.save [OF assms(2)]] case_reachable_ok [OF assms(1)] by (simp add: keeps_def)
  then obtain b where b: "find_batch (pf_batch p) t = Some b" "batch_kept (new_portfolio_batch e p created) b"
    using saved_batch [OF assms(2)] by blast
  have u: "case_ok e may u" using casework_kept.calls_rel [OF assms(3)] t by (simp add: keeps_def)
  then obtain b' where b': "find_batch (pf_batch p) u = Some b'" "batch_kept b b'"
    using find_batch_later casework_history.calls_rel [OF assms(3)] b(1) by blast
  then have "batch_ok e (lifecycle u) b'" using u find_batch_mem [OF b'(1)] by (simp add: case_ok_def)
  then have "stored_batch_intact e b'" by (simp add: batch_ok_def)
  moreover have "ba_request_sha b' = sha_json e (pf_request p)" "ba_response b' = canonical (pf_response p)"
    using batch_kept_trans [OF b(2) b'(2)] by (simp_all add: batch_kept_def new_portfolio_batch_def)
  ultimately show ?thesis using b'(1) assms(4)
    by (auto simp: save_portfolio_batch_def case_tx_def transaction_def bind_require ret_def raise_def)
qed

section \<open>Labels\<close>

text \<open>C24: the current label of a run is eligible for model training exactly while the batch of
  the run is active; every integrity check of the repository holds by then.\<close>

theorem label_eligible_iff_active:
  assumes "case_reachable e may s" and "get_run_reference_label e i s = Inr (Some v)"
  shows "lv_eligible v \<longleftrightarrow> (\<exists>r b. find_run (lb_run (lv_label v)) s = Some r \<and> find_batch (ru_batch r) s = Some b
    \<and> ba_invalid_at b = None)"
proof -
  have ok: "case_ok e may s" using assms(1) by (rule case_reachable_ok)
  obtain k r b where parts: "find_run k s = Some r" "find_batch (ru_batch r) s = Some b" "labels_of k (labels s) \<noteq> []"
    "lv_label v = last (labels_of k (labels s))"
    "lv_eligible v \<longleftrightarrow> verify_run_reference_label_chain e k s \<and> (run_input_valid e r \<and> run_result_valid e r)
       \<and> (sha_json e (ba_request b) = ba_request_sha b \<and> stored_batch_intact e b) \<and> ba_origin b = Some ''created''
       \<and> ba_invalid_at b = None \<and> lifecycle_valid e (ru_batch r) s"
    using assms(2) by (auto simp: get_run_reference_label_def Let_def split: sum.splits option.splits if_splits)
  have labels: "sealed_labels e (labels s) k" using ok by (simp add: case_ok_def labels_ok_def)
  note own = sealed_labels_of [OF labels]
  have "lb_run (lv_label v) = k"
    using parts(3,4) last_in_set [OF parts(3)] by (auto simp: own own_labels_def)
  moreover have "verify_run_reference_label_chain e k s"
    using labels parts(3) by (simp add: verify_run_reference_label_chain_def own sealed_labels_def)
  moreover have "r \<in> set (analysis_runs s)" using parts(1) find_Some_mem [of _ "analysis_runs s" r] by (auto simp: find_run_def)
  then have "run_input_valid e r \<and> run_result_valid e r" using ok by (simp add: case_ok_def)
  moreover have "b \<in> set (batches s)" "ba_id b = ru_batch r" using find_batch_mem [OF parts(2)] by simp_all
  then have "batch_ok e (lifecycle s) b" "lifecycle_valid e (ru_batch r) s"
    using ok batch_chain_verifies(1) [OF ok, of b] by (auto simp: case_ok_def lifecycle_valid_def)
  ultimately show ?thesis using parts by (simp add: batch_ok_def)
qed

section \<open>Times\<close>

lemma stamp_within_second:
  assumes "0 < d" "d < 1000000"
  shows "stamp e (1000000 * k + d) < stamp e (1000000 * k)"
proof -
  have "(1000000 * k + d) div 1000000 = k" "(1000000 * k + d) mod 1000000 = d" using assms by simp_all
  then have "stamp e (1000000 * k + d) = civil e k @ CHR ''.'' # pad6 (nat d) @ ''Z''"
    "stamp e (1000000 * k) = civil e k @ ''Z''" using assms by (simp_all add: stamp_def)
  moreover have "xs @ a # ys < xs @ b # zs" if "a < b" for xs ys zs and a b :: char
    using that by (induction xs) simp_all
  ultimately show ?thesis by simp
qed

text \<open>Times are compared as texts, and \<open>isoformat\<close> leaves out a fraction that is zero: after a
  change stamped on a full second, every action in the rest of that second is refused as older.\<close>

theorem same_second_refused:
  assumes "find_case i s = Some c" and "ca_updated c = 1000000 * k" and "0 < d" and "d < 1000000"
    and "python_strip actor \<noteq> []" and "1 \<le> ca_version c"
  shows "apply_case_action e (1000000 * k + d) i act (ca_version c) actor remark disposition assignee s =
    (Inl Invalid_Action, s)"
  using assms stamp_within_second [OF assms(3,4), of e k]
  by (simp add: apply_case_action_def Let_def bind_require raise_def case_tx_def transaction_def)

end
