(* ===== verification/Case_Scenario.thy ===== *)
theory Case_Scenario
  imports Case_Properties
begin

text \<open>
  A batch of one mine with its case, concluded by Ada and approved by Ben through the handler, a
  label on the run of the batch, and the witnesses of the properties at these states.
\<close>

fun weight :: "json \<Rightarrow> nat" where
  "weight (JArr xs) = 1 + sum_list (map weight xs)"
| "weight (JObj kvs) = 2 + sum_list (map (\<lambda>kv. length (fst kv) + weight (snd kv)) kvs)"
| "weight (JStr t) = 3 + length t"
| "weight _ = 4"

definition desk_env :: case_env where
  "desk_env = \<lparr>doc_digest = (\<lambda>j. decimal (weight j)), text_digest = (\<lambda>t. t), civil = (\<lambda>k. decimal (nat k)),
     nfkc = (\<lambda>t. t), printable = (\<lambda>_. True)\<rparr>"

definition desk_item :: portfolio_item where
  "desk_item = \<lparr>it_mine = ''m1'', it_status = ''inconsistent'', it_priority = ''P1'', it_grade = Some ''B'',
     it_summary = ''check'', it_checks = [], it_analysis = None\<rparr>"

definition desk_batch :: portfolio where
  "desk_batch = \<lparr>pf_batch = ''b1'', pf_name = ''week 1'', pf_inputs = [(''m1'', JObj [(''t'', JStr ''x'')])],
     pf_request = JObj [(''batch_id'', JStr ''b1'')], pf_items = [desk_item],
     pf_response = JObj [(''items'', JArr [])], pf_context = None\<rparr>"

definition desk_saved :: "(case_error + bool \<times> json) \<times> case_db" where
  "desk_saved = save_portfolio_batch desk_env (\<lambda>_. None) 5000000 desk_batch ''v1'' new_case_db"

definition desk_case :: case_row where
  "desk_case = hd (cases (snd desk_saved))"

definition person :: "string \<Rightarrow> principal" where
  "person name = \<lparr>pr_user = name, pr_name = name, pr_role = Admin, pr_scopes = [], pr_session = ''x'',
     pr_active = True, pr_must_change = False, pr_demo = False, pr_policy = 1\<rparr>"

definition desk_request :: "case_action \<Rightarrow> int \<Rightarrow> action_request" where
  "desk_request a n = \<lparr>rq_case = ca_id desk_case, rq_action = a, rq_version = n, rq_note = Some ''seen'',
     rq_disposition = Some ''excluded'', rq_assignee = None\<rparr>"

definition desk_concluded :: "case_reply \<times> auth_db \<times> case_db" where
  "desk_concluded = handle_case_action desk_env True 7000000 ''local'' (person ''ada'')
     (desk_request Submit_Conclusion 1) (snd desk_saved) new_auth_db (snd desk_saved)"

definition desk_closed :: "case_reply \<times> auth_db \<times> case_db" where
  "desk_closed = handle_case_action desk_env True 8000000 ''local'' (person ''ben'')
     (desk_request Approve 2) (snd (snd desk_concluded)) (fst (snd desk_concluded)) (snd (snd desk_concluded))"

lemma desk_saved_served: "served_reachable desk_env True (snd desk_saved)"
proof -
  have "save_portfolio_batch desk_env (\<lambda>_. None) 5000000 desk_batch ''v1'' new_case_db = (fst desk_saved, snd desk_saved)"
    unfolding desk_saved_def by (rule surjective_pairing)
  then have "case_call desk_env (\<lambda>_. False) new_case_db (snd desk_saved)" by (rule case_call.save)
  then show ?thesis using served_reachable.step [OF served_reachable.start] served_call.other by blast
qed

lemma handled_reachable:
  assumes "served_reachable e required s" "handle_case_action e required now client p q seen as s = x"
  shows "served_reachable e required (snd (snd x))"
proof -
  have "handle_case_action e required now client p q seen as s = (fst x, fst (snd x), snd (snd x))"
    using assms(2) by simp
  then show ?thesis by (rule served_reachable.step [OF assms(1) served_call.handled])
qed

lemma desk_closed_served: "served_reachable desk_env True (snd (snd desk_closed))"
  using handled_reachable [OF handled_reachable [OF desk_saved_served desk_concluded_def [symmetric]]
      desk_closed_def [symmetric]] .

section \<open>Values\<close>

definition desk_run :: analysis_row where
  "desk_run = new_run desk_env ''b1'' ''v1'' desk_item (JObj [(''t'', JStr ''x'')]) 5000000"

definition opened_case :: case_row where
  "opened_case = new_case desk_env ''b1'' desk_item (Some (ru_id desk_run)) 5000000"

lemmas desk_ops = case_tx_def transaction_def bind_require ret_def raise_def writing_def

lemma desk_saved_value:
  "desk_saved = (Inr (True, pf_response desk_batch),
     with_case_event desk_env (ca_id opened_case) ''created'' ''system''
       (Some ''created from the analysis of the batch'') None (case_dict desk_env opened_case) 5000000
     (with_batch_event desk_env ''b1'' ''created'' ''system'' None None
       (batch_json desk_env (new_portfolio_batch desk_env desk_batch 5000000)) 5000000
       (new_case_db\<lparr>batches := [new_portfolio_batch desk_env desk_batch 5000000], analysis_runs := [desk_run],
          cases := [opened_case]\<rparr>)))"
proof -
  have fields: "pf_batch desk_batch = ''b1''" "pf_items desk_batch = [desk_item]"
    "map_of (rev (pf_inputs desk_batch)) (it_mine desk_item) = Some (JObj [(''t'', JStr ''x'')])"
    "it_priority desk_item \<noteq> ''NONE''" by (simp_all add: desk_batch_def desk_item_def)
  have item: "save_item desk_env (\<lambda>_. None) desk_batch ''v1'' 5000000 desk_item s = (Inr (),
      with_case_event desk_env (ca_id opened_case) ''created'' ''system''
       (Some ''created from the analysis of the batch'') None (case_dict desk_env opened_case) 5000000
       (s\<lparr>analysis_runs := [desk_run], cases := [opened_case]\<rparr>))"
    if "analysis_runs s = []" "cases s = []" for s
    using that by (simp add: save_item_def fields bind_assoc desk_run_def [symmetric] opened_case_def [symmetric] insert_run_def
        insert_row_def insert_case_def append_case_event_def with_case_event_def Let_def writing_def)
  have "find_batch ''b1'' new_case_db = None" "ba_id (new_portfolio_batch desk_env desk_batch 5000000) = ''b1''"
    by (simp_all add: find_batch_def new_case_db_def new_portfolio_batch_def fields)
  then show ?thesis
    unfolding desk_saved_def save_portfolio_batch_def fields
    by (simp add: case_tx_def transaction_def find_batch_def append_batch_event_def bind_assoc
        bind_Inr [OF item] new_case_db_def with_batch_event_def with_case_event_def ret_def)
qed

text \<open>An action on the only case.\<close>

lemma apply_only:
  assumes "cases s = [c]" "ca_id c = i" "ca_version c = n" "python_strip actor \<noteq> []" "1 \<le> n"
    and "\<not> stamp e now < stamp e (ca_updated c)"
    and d: "decide_case act now (python_strip actor) (map_option python_strip remark) disposition
      (map_option python_strip assignee) c = Some d"
    and row: "row = d\<lparr>ca_version := n + 1, ca_updated := now\<rparr>"
  shows "apply_case_action e now i act n actor remark disposition assignee s = (Inr row,
    with_case_event e i (action_text act) (python_strip actor) (map_option python_strip remark)
      (Some (case_dict e c)) (case_dict e row) now (s\<lparr>cases := [row]\<rparr>))"
  using assms(1-6) d decided_id [OF d]
  by (simp add: apply_case_action_def Let_def desk_ops find_case_def change_case_def row append_case_event_def
      with_case_event_def)

definition concluded_case :: case_row where
  "concluded_case = opened_case\<lparr>ca_workflow := Pending_Approval, ca_disposition := Some ''excluded'',
     ca_conclusion_by := Some ''ada'', ca_conclusion_at := Some 7000000, ca_approval_by := None,
     ca_approval_at := None, ca_approval_note := None, ca_version := 2, ca_updated := 7000000\<rparr>"

definition closed_case :: case_row where
  "closed_case = concluded_case\<lparr>ca_workflow := Closed, ca_approval_by := Some ''ben'',
     ca_approval_at := Some 8000000, ca_approval_note := Some ''seen'', ca_version := 3, ca_updated := 8000000\<rparr>"

lemma desk_texts: "python_strip ''ada'' = ''ada''" "python_strip ''ben'' = ''ben''" "python_strip ''seen'' = ''seen''"
  "\<not> stamp desk_env 7000000 < stamp desk_env 5000000" "\<not> stamp desk_env 8000000 < stamp desk_env 7000000"
  "authorize (person n) ''case.review'' (Some ''m1'') = Inr ()"
  "authorize (person n) ''case.approve'' (Some ''m1'') = Inr ()"
  by code_simp+

lemma opened_fields: "ca_version opened_case = 1" "ca_workflow opened_case = Pending" "ca_archived_at opened_case = None"
  "ca_updated opened_case = 5000000" "ca_mine opened_case = ''m1''" "ca_approval_by opened_case = None"
  "ca_approval_at opened_case = None" "ca_approval_note opened_case = None"
  by (simp_all add: opened_case_def new_case_def Let_def desk_item_def)

lemma desk_case_value: "desk_case = opened_case" "cases (snd desk_saved) = [opened_case]"
  by (simp_all add: desk_case_def desk_saved_value with_case_event_def with_batch_event_def)

lemma handle_granted:
  assumes "find_case (rq_case q) seen = Some c" "rq_action q \<noteq> Close_Case"
    and "authorize p (action_permission (rq_action q)) (Some (ca_mine c)) = Inr ()"
    and "apply_case_action e now (rq_case q) (rq_action q) (rq_version q) (pr_name p) (rq_note q)
      (accepted_disposition (rq_disposition q)) (rq_assignee q) s = (Inr row, t)"
  shows "snd (snd (handle_case_action e required now client p q seen as s)) = t"
  using assms by (simp add: handle_case_action_def require_permission_def)

lemma person_name [simp]: "pr_name (person n) = n"
  by (simp add: person_def)

lemma desk_concluded_value:
  "snd (snd desk_concluded) = with_case_event desk_env (ca_id opened_case) ''submit_conclusion'' ''ada''
     (Some ''seen'') (Some (case_dict desk_env opened_case)) (case_dict desk_env concluded_case) 7000000
     (snd desk_saved\<lparr>cases := [concluded_case]\<rparr>)"
  unfolding desk_concluded_def
proof (rule handle_granted [where c = opened_case and row = concluded_case])
  show "apply_case_action desk_env 7000000 (rq_case (desk_request Submit_Conclusion 1))
      (rq_action (desk_request Submit_Conclusion 1)) (rq_version (desk_request Submit_Conclusion 1))
      (pr_name (person ''ada'')) (rq_note (desk_request Submit_Conclusion 1))
      (accepted_disposition (rq_disposition (desk_request Submit_Conclusion 1)))
      (rq_assignee (desk_request Submit_Conclusion 1)) (snd desk_saved) =
    (Inr concluded_case, with_case_event desk_env (ca_id opened_case) ''submit_conclusion'' ''ada''
     (Some ''seen'') (Some (case_dict desk_env opened_case)) (case_dict desk_env concluded_case) 7000000
     (snd desk_saved\<lparr>cases := [concluded_case]\<rparr>))"
    using apply_only [OF desk_case_value(2) refl, of 1 "''ada''" desk_env 7000000 Submit_Conclusion "Some ''seen''"
        "Some ''excluded''" None _ concluded_case]
    by (simp add: desk_request_def desk_texts opened_fields concluded_case_def given_def supported_def
        dispositions_def accepted_disposition_def desk_case_value)
qed (simp_all add: desk_request_def desk_case_value find_case_def action_permission_def desk_texts opened_fields)

lemma concluded_fields: "ca_version concluded_case = 2" "ca_workflow concluded_case = Pending_Approval"
  "ca_archived_at concluded_case = None" "ca_updated concluded_case = 7000000" "ca_mine concluded_case = ''m1''"
  "ca_id concluded_case = ca_id opened_case" "ca_conclusion_by concluded_case = Some ''ada''"
  by (simp_all add: concluded_case_def opened_fields)

lemma desk_closed_value: "cases (snd (snd desk_closed)) = [closed_case]"
proof -
  have cases: "cases (snd (snd desk_concluded)) = [concluded_case]"
    by (simp add: desk_concluded_value with_case_event_def)
  have "snd (snd desk_closed) = with_case_event desk_env (ca_id concluded_case) ''approve'' ''ben''
     (Some ''seen'') (Some (case_dict desk_env concluded_case)) (case_dict desk_env closed_case) 8000000
     (snd (snd desk_concluded)\<lparr>cases := [closed_case]\<rparr>)"
    unfolding desk_closed_def
  proof (rule handle_granted [where c = concluded_case and row = closed_case])
    show "apply_case_action desk_env 8000000 (rq_case (desk_request Approve 2)) (rq_action (desk_request Approve 2))
        (rq_version (desk_request Approve 2)) (pr_name (person ''ben'')) (rq_note (desk_request Approve 2))
        (accepted_disposition (rq_disposition (desk_request Approve 2)))
        (rq_assignee (desk_request Approve 2)) (snd (snd desk_concluded)) =
      (Inr closed_case, with_case_event desk_env (ca_id concluded_case) ''approve'' ''ben''
       (Some ''seen'') (Some (case_dict desk_env concluded_case)) (case_dict desk_env closed_case) 8000000
       (snd (snd desk_concluded)\<lparr>cases := [closed_case]\<rparr>))"
      using apply_only [OF cases refl, of 2 "''ben''" desk_env 8000000 Approve "Some ''seen''"
          "Some ''excluded''" None _ closed_case]
      by (simp add: desk_request_def desk_texts concluded_fields closed_case_def given_def
          accepted_disposition_def desk_case_value)
  qed (simp_all add: desk_request_def desk_case_value find_case_def action_permission_def desk_texts
      concluded_fields cases)
  then show ?thesis by (simp add: with_case_event_def)
qed

section \<open>Witnesses\<close>

theorem casework_chains_verify_witness:
  "verify_case_chain desk_env (ca_id opened_case) (snd (snd desk_closed)) = Inr True
   \<and> length (events_of (ca_id opened_case) (case_events (snd (snd desk_closed)))) = 3"
  using casework_chains_verify [OF served_reachable_calls [OF desk_closed_served]]
  by (simp add: desk_closed_value closed_case_def concluded_fields)

theorem closed_cases_take_two_witness:
  "\<exists>v w. {v, w} \<subseteq> set (events_of (ca_id opened_case) (case_events (snd (snd desk_closed))))
    \<and> ev_action v = ''submit_conclusion'' \<and> ev_actor v = ''ada'' \<and> ev_action w = ''approve''
    \<and> ev_actor w = ''ben'' \<and> ev_seq v < ev_seq w"
proof -
  have "closed_case \<in> set (cases (snd (snd desk_closed)))" "ca_workflow closed_case = Closed"
    by (simp_all add: desk_closed_value closed_case_def)
  from closed_cases_take_two [OF desk_closed_served this] obtain v w where
    "{v, w} \<subseteq> set (events_of (ca_id closed_case) (case_events (snd (snd desk_closed))))"
    "ev_action v = ''submit_conclusion''" "ca_conclusion_by closed_case = Some (ev_actor v)"
    "ev_action w = ''approve''" "ca_approval_by closed_case = Some (ev_actor w)" "ev_seq v < ev_seq w" by blast
  then show ?thesis by (intro exI [of _ v] exI [of _ w]) (simp add: closed_case_def concluded_fields)
qed

definition ada_concludes :: "case_row case_op" where
  "ada_concludes = apply_case_action desk_env 7000000 (ca_id opened_case) Submit_Conclusion 1 ''ada''
     (Some ''seen'') (Some ''excluded'') None"

lemma desk_saved_reachable: "case_reachable desk_env (\<lambda>a. a \<noteq> Close_Case) (snd desk_saved)"
proof -
  have "served_action True = (\<lambda>a. a \<noteq> Close_Case)" by (simp add: fun_eq_iff served_action_def)
  then show ?thesis using served_reachable_calls [OF desk_saved_served] by simp
qed

theorem stale_version_refused_witness:
  "apply_case_action desk_env 7000001 (ca_id opened_case) Add_Note 1 ''ben'' (Some ''late'') None None
     (snd (ada_concludes (snd desk_saved))) = (Inl Version_Conflict, snd (ada_concludes (snd desk_saved)))"
proof -
  obtain t where "ada_concludes (snd desk_saved) = (Inr concluded_case, t)"
    using apply_only [OF desk_case_value(2) refl, of 1 "''ada''" desk_env 7000000 Submit_Conclusion "Some ''seen''"
        "Some ''excluded''" None _ concluded_case]
    by (simp add: ada_concludes_def desk_texts opened_fields concluded_case_def given_def supported_def
        dispositions_def)
  then show ?thesis
    using stale_version_refused [OF desk_saved_reachable _ _ rtranclp.rtrancl_refl, of Submit_Conclusion 7000000
        "ca_id opened_case" 1 "''ada''" "Some ''seen''" "Some ''excluded''" None concluded_case t "''ben''" 7000001
        Add_Note "Some ''late''" None None]
    by (simp add: ada_concludes_def desk_texts)
qed

theorem batch_sent_again_witness:
  "save_portfolio_batch desk_env (\<lambda>_. None) 9000000 desk_batch ''v2'' (snd desk_saved) =
     (Inr (False, canonical (pf_response desk_batch)), snd desk_saved)"
proof -
  have "fst desk_saved = Inr (True, pf_response desk_batch)" by (simp add: desk_saved_value)
  then have "save_portfolio_batch desk_env (\<lambda>_. None) 5000000 desk_batch ''v1'' new_case_db =
      (Inr (True, pf_response desk_batch), snd desk_saved)"
    unfolding desk_saved_def by (metis prod.collapse)
  from batch_sent_again [OF case_reachable.start this rtranclp.rtrancl_refl refl]
  show ?thesis by simp
qed

definition desk_label :: "label_row case_op" where
  "desk_label = append_run_reference_label desk_env 9000000 (ru_id desk_run) ''verified_normal'' ''cy'' ''ok'' 0 None"

definition desk_label_row :: label_row where
  "desk_label_row = (let l = \<lparr>lb_run = ru_id desk_run, lb_seq = 1, lb_label = ''verified_normal'', lb_scenario = None,
     lb_actor = ''cy'', lb_note = ''ok'', lb_previous = [], lb_hash = [], lb_created = 9000000\<rparr>
   in l\<lparr>lb_hash := label_digest desk_env l\<rparr>)"

lemma desk_label_texts: "required_text desk_env 128 False (ru_id desk_run) = Inr (ru_id desk_run)"
  "required_text desk_env 64 False ''verified_normal'' = Inr ''verified_normal''"
  "required_text desk_env 128 False ''cy'' = Inr ''cy''" "required_text desk_env 4000 True ''ok'' = Inr ''ok''"
  by code_simp+

lemma desk_tables: "analysis_runs (snd desk_saved) = [desk_run]" "labels (snd desk_saved) = []"
  "batches (snd desk_saved) = [new_portfolio_batch desk_env desk_batch 5000000]"
  by (simp_all add: desk_saved_value with_case_event_def with_batch_event_def new_case_db_def)

lemma desk_label_value: "desk_label (snd desk_saved) = (Inr desk_label_row, snd desk_saved\<lparr>labels := [desk_label_row]\<rparr>)"
  by (simp add: desk_label_def append_run_reference_label_def desk_label_texts optional_text_def reference_labels_def
      find_run_def desk_tables labels_of_def desk_ops desk_label_row_def Let_def)

theorem label_eligible_iff_active_witness:
  "\<exists>v. get_run_reference_label desk_env (ru_id desk_run) (snd (desk_label (snd desk_saved))) = Inr (Some v)
     \<and> lv_eligible v"
proof -
  let ?s = "snd (desk_label (snd desk_saved))"
  have batch: "find_batch (ru_batch desk_run) ?s = Some (new_portfolio_batch desk_env desk_batch 5000000)"
    by (simp add: desk_label_value find_batch_def desk_tables desk_run_def new_run_def new_portfolio_batch_def Let_def desk_batch_def)
  have run: "find_run (ru_id desk_run) ?s = Some desk_run"
    by (simp add: desk_label_value find_run_def desk_tables)
  have own: "labels_of (ru_id desk_run) (labels ?s) = [desk_label_row]"
    by (simp add: desk_label_value labels_of_def desk_label_row_def Let_def)
  obtain v where v: "get_run_reference_label desk_env (ru_id desk_run) ?s = Inr (Some v)" "lv_label v = desk_label_row"
    using batch run own by (simp add: get_run_reference_label_def desk_label_texts Let_def)
  have "case_reachable desk_env (\<lambda>a. a \<noteq> Close_Case) ?s"
    by (rule case_reachable.step [OF desk_saved_reachable], rule case_call.label)
       (unfold desk_label_def, rule surjective_pairing)
  from label_eligible_iff_active [OF this v(1)] have "lv_eligible v"
    using run batch v(2) by (simp add: desk_label_row_def Let_def new_portfolio_batch_def)
  with v(1) show ?thesis by blast
qed

lemma same_second_refused_example:
  "apply_case_action desk_env 5000001 (ca_id opened_case) Start_Review 1 ''ada'' None None None (snd desk_saved) =
     (Inl Invalid_Action, snd desk_saved)"
  using same_second_refused [of "ca_id opened_case" "snd desk_saved" opened_case 5 1 "''ada''" desk_env Start_Review
      None None None]
  by (simp add: find_case_def desk_case_value opened_fields desk_texts)

end
