(* ===== verification/Spec2Isabelle.thy ===== *)
theory Spec2Isabelle
  imports Regulatory_Reading Safety_Properties Job_Runs Delivery_Conflict Auth_Scenario Case_Scenario
begin

text \<open>
  A verification development for MineGuard.

  MineGuard lets coal mines report daily quantities to a supervising authority. A connector
  service (\<open>src/connector-service\<close>) collects snapshots of a mine's local systems and delivers
  them to the enterprise agent (\<open>src/agent\<close>), which builds submissions. The platform
  (\<open>src/platform\<close>) stores a submission, analyses it at once, issues findings and a report to
  the mine, and takes explanations and delivery acknowledgements back; beside it the platform
  evaluates sensor readings of a mine for safety alerts and runs batches of analyses in the
  background.

  Seven parts are modelled. The regulatory ledger (\<open>mineguard/regulatory_v2_store.py\<close>, with
  the decisions of \<open>mineguard/regulatory_v2.py\<close>) is the system of record. The safety monitor
  (\<open>mineguard/safety.py\<close>) is a function from readings and stored states to events, leads and
  new states. The job queue (\<open>mineguard/jobs.py\<close>) has a repository and a worker thread. The
  connector (\<open>enterprise_connector/state.py\<close>, \<open>service.py\<close>, \<open>client.py\<close>) has a state store and
  a service that works on it in cycles. The ingestion of machine data by the enterprise agent
  (\<open>enterprise_agent/five_quantity_runtime.py\<close>, \<open>storage.py\<close>, \<open>machine_ingestion.py\<close>) turns each
  event of the connector into a snapshot of a source and rebuilds the draft of its key from the
  snapshots, beside the people who edit, confirm and discard drafts. The authentication store
  (\<open>mineguard/auth.py\<close>, with the gates of \<open>mineguard/api.py\<close>) holds the users, sessions and the audit
  log of the people who work with the platform. The casework (\<open>mineguard/casework.py\<close>, with
  \<open>_handle_case_action\<close> of \<open>mineguard/api.py\<close>) keeps batches of analyses and the cases they
  raise; its handler is the one place where a call works on two stores. Each other part has its own
  database; the bodies that the connector sends meet the events of the agent in
  \<open>Delivery_Conflict\<close>, and all share the vocabulary of \<open>Prelude\<close> and \<open>Json_Documents\<close>.

  \<^bold>\<open>Theories.\<close>

  \<^item> \<open>Prelude\<close>: operations \<open>'s \<Rightarrow> ('e + 'a) \<times> 's\<close> with \<open>ret\<close>, \<open>raise\<close>, \<open>bind\<close> and loops; a raise
    keeps the state written so far, as an exception does. \<open>transaction\<close> is the bracket of
    \<open>_transaction\<close>. Tables are lists of rows in insertion order. \<open>evolves R m\<close> says that \<open>m\<close>
    only moves the state along \<open>R\<close>, and the locale \<open>history_relation\<close> derives the rules for
    composed operations.
  \<^item> \<open>Regulatory_Types\<close>: submissions, shift aggregation, relationships, bands, signals, the
    decision rule, reports; the record \<open>platform\<close> of what surrounds the store.
  \<^item> \<open>Regulatory_Ledger\<close>: the tables of \<open>_create_schema\<close> as rows with their keys
    (\<open>*_clash\<close>), the errors, \<open>store_transaction\<close> (nested use, rollback, and the commit of
    \<open>_DurableIdempotencyConflict\<close>), and the append helpers: audit chain, finding events, outbox,
    exchange messages, inbox commands. The locale \<open>ledger_steps\<close> states what a relation on
    ledgers needs so that every operation evolves along it; it is interpreted for growth of
    tables, validity of the audit chain, sealed hashes, sequence numbers, the business core,
    clearing events, nonces, and each property that concerns all commands.
  \<^item> \<open>Regulatory_Analysis_Steps\<close>, \<open>Regulatory_Findings\<close>, \<open>Regulatory_Commands\<close>,
    \<open>Regulatory_Responses\<close>: the operations of \<open>RegulatoryV2Store\<close> in the order
    of their calls, from \<open>_validate_revision\<close> to \<open>submit_and_analyze\<close>,
    \<open>record_enterprise_response(_batch)\<close>, \<open>record_delivery_ack\<close> and
    \<open>record_authentication_failure_evidence\<close>.
  \<^item> \<open>Regulatory_Requests\<close>: commands, requests (one command, or several in a
    \<open>controlled_write_scope\<close>) and the ledgers reachable by requests.
  \<^item> \<open>Regulatory_Lineage\<close>, \<open>Regulatory_Spec\<close>, \<open>Regulatory_Core\<close>, \<open>Regulatory_Errors\<close>,
    \<open>Regulatory_Refinement\<close>: the revision order, the abstract specification
    (\<open>business_step\<close>, \<open>business_ok\<close>), and the proof that requests refine it.
  \<^item> \<open>Regulatory_Views\<close>: reads (\<open>get_finding\<close>, \<open>list_findings\<close>, overview counts, polling, the
    descendant test) and the integrity checks of a commit.
  \<^item> \<open>Regulatory_Properties\<close> (with a concrete platform with four requests, for witnesses),
    \<open>Regulatory_Idempotency\<close>,
    \<open>Regulatory_Reading\<close>: the properties.

  \<^item> \<open>Safety_Types\<close>, \<open>Safety_Engine\<close>: observations, rules, states and requests with their
    validators, and \<open>evaluate_safety\<close> with its helpers. \<open>Safety_Invariant\<close>: what each signal
    state satisfies; \<open>Safety_Run\<close>: series of readings of one sensor; \<open>Safety_Properties\<close>.
  \<^item> \<open>Json_Documents\<close>: dicts, canonical JSON, field access, white space.
  \<^item> \<open>Job_Requests\<close>, \<open>Job_Store\<close>: requests and the methods of \<open>JobRepository\<close>, one
    transaction each. \<open>Job_Manager\<close>: \<open>JobManager\<close> as a machine whose worker thread and request
    threads interleave at every access to the repository, with process death and restart.
    \<open>Job_Invariant\<close>, \<open>Job_Steps\<close>, \<open>Job_Work\<close>: the invariant, its preservation by every step, and the
    progress of the worker; \<open>Job_Properties\<close>, \<open>Job_Runs\<close>: properties and witnesses.
  \<^item> \<open>Connector_Store\<close>, \<open>Connector_Delivery\<close>: the tables and methods of \<open>StateStore\<close>.
    \<open>Connector_Service\<close>: \<open>ConnectorService.run_cycle\<close> with its collecting and dispatching,
    and the interpretation of the agent's answers. \<open>Connector_Actions\<close>: every call as an
    action, all interleavings of actions, and that a cycle is a sequence of actions.
    \<open>Connector_Invariant\<close>, \<open>Connector_Steps\<close>: keys, revisions and reservations, kept by every
    action; \<open>Connector_Properties\<close>: properties and witnesses.
  \<^item> \<open>Partial_Merge\<close>: merging dicts whose entries may conflict, with the locale \<open>partial_merge\<close>
    for combinations that commute and associate. \<open>Ingest_Merge\<close>, \<open>Ingest_Validation\<close>: payloads,
    \<open>_merge_machine_payloads\<close>, validation and preflight; \<open>Ingest_Merge_Laws\<close> interprets the locale
    for measurements, shifts and days, and permutes whole payloads.
  \<^item> \<open>Ingest_Store\<close>: the tables, the audit chain and the saga of an event; \<open>Ingest_Health\<close>: the
    state of the sources and their freshness for a draft; \<open>Ingest_Drafts\<close>:
    \<open>create_or_update_machine_import\<close>; \<open>Ingest_Confirm\<close>: editing, resuming,
    discarding, confirming; \<open>Ingest_Handler\<close>: \<open>MachineAutofillCoordinator.ingest\<close> as a program
    (\<open>phase\<close>, \<open>handler_step\<close>) whose steps are its transactions.
  \<^item> \<open>Ingest_Progress\<close>: no call moves an event back or rewrites the audit; \<open>Ingest_Effects\<close>: what a
    successful import writes; \<open>Ingest_Invariant\<close>, \<open>Ingest_Keeps\<close>, \<open>Ingest_Edits\<close>: the invariant of
    drafts and bindings, kept by every call; \<open>Ingest_Steps\<close>: handlers side by side as a step
    relation; \<open>Ingest_Fresh\<close>: the freshness gate against its specification \<open>source_fresh\<close>;
    \<open>Ingest_Properties\<close>, \<open>Ingest_Scenario\<close>: properties and witnesses.
  \<^item> \<open>Delivery_Conflict\<close>: a row of the connector with the trigger has it in its body, and what the
    agent answers to a body with the trigger when it stored one without.
  \<^item> \<open>Checks\<close>: values that may fail lifted to operations, lookups in tables, and their rules in
    \<open>history_relation\<close>. \<open>Auth_Types\<close>, \<open>Auth_Store\<close>: roles, rows, the password policy, \<open>authorize\<close>, and the methods of
    \<open>LocalAuthStore\<close> as transactions; the gates of the HTTP handlers. \<open>Auth_Login\<close>: the rate limiter,
    \<open>login\<close> as a program (\<open>login_phase\<close>, \<open>login_step\<close>), and the store with logins side by side as a
    step relation. \<open>Auth_Steps\<close>: the locale \<open>auth_relation\<close> of relations that contain every write,
    interpreted for the history of the tables; \<open>Auth_Invariant\<close>: its interpretation for the
    invariant; \<open>Auth_Properties\<close>, \<open>Auth_Limits\<close>, \<open>Auth_Scenario\<close>: properties and witnesses.
  \<^item> \<open>Case_Types\<close>, \<open>Case_Store\<close>, \<open>Case_Runs\<close>: the tables of \<open>LocalRepository\<close>, its transactions for
    batches, cases, runs, labels and nonces, the verification of the three kinds of hash chains,
    and the step relation \<open>case_call\<close>. \<open>Case_Api\<close>: the handler of a case action. \<open>Case_Steps\<close>: what
    appending does to a chain, and the locale \<open>case_relation\<close> of relations that contain
    every write with its event; \<open>Case_Invariant\<close>: its interpretations for the
    invariant and for the history; \<open>Case_Properties\<close>, \<open>Case_Scenario\<close>: properties and witnesses.

  \<^bold>\<open>What the properties show.\<close> Requests refine the specification, so each submission has one run,
  admission and report; a report lists the findings of its run; revisions form chains; a
  finding is cleared exactly when a submission that replaces its own was analysed with a
  decision other than risk - including, against the documents, one with insufficient data.
  Replies clear nothing. The ledger only grows, its audit chain and the hashes of the twelve bound
  tables verify, and the check that runs before a commit accepts every request. Failed requests leave the
  ledger alone, a conflicting idempotency key leaves exactly one audit row, resubmission
  answers with the stored receipt, nonces are bounded per sender and not accepted twice.

  Safety results can be fed back as the next request's states. An observation that is late,
  stale or badly rated changes no signal; a higher revision has the effect of the reading it
  replaces. Enough readings over the red limit raise the alert, short dips do not clear it, a
  latch is released with a notice; the ventilation alert, however, clears at the reduced flow.

  In the job queue the counters always match the windows, only the window of the worker runs,
  finished work is never changed, a claimed job reaches its verdict within \<open>6n + 4\<close> steps of the
  worker for \<open>n\<close> windows, and the stored request reads back as submitted.

  In the connector at most one workflow generation of a draft is in flight and its observation
  can always be attempted and settled; a delivery carries the trigger for the first time only
  if all required sources are healthy and delivered; a stream of snapshots is registered as its
  transitions with consecutive revisions. An event the agent stored without the trigger is refused
  when a later attempt sends it with the trigger.

  In the agent, whatever handlers run side by side and wherever they stop, an event fills its
  draft at most once, a completed event is answered with its stored result, a draft nobody
  edited is the merge of the latest snapshots of its sources, and no event overwrites an edit.
  The merge does not depend on the order of the sources but for the month, the comparison context
  and the spelling of the closing time, which follow the first one. A machine draft is queued only if all required sources are fresh and their events
  completed, so the dispatch of an event itself, which precedes its completion, is refused. The
  audit chain verifies in every reachable state.

  In the authentication store a request that has to authenticate passes only with a live session of
  an active user, and a permission is granted only if the user's role has it and the mine was in
  scope at that moment; an administrator always remains; disabling,
  reassigning or giving a new password ends every session there is. A login under way at that
  moment, however, still opens one, and the revocation of an expired session is rolled back. Wrong
  passwords are bounded per window and right login for logins in sequence, not for parallel ones. A password
  outside ASCII can not be set. Credentials are reported ready exactly if they are.

  In the casework the chain of every case and batch verifies and is as long as the version of its
  row; behind the authenticated handler a closed case was concluded and later approved by two
  people; of two actions on one version at most one succeeds; a batch sent again changes
  nothing; a label is eligible exactly while its batch is active. Times are compared as texts,
  which refuses actions in the second after a change stamped without a fraction.

  \<^bold>\<open>Conventions.\<close> Identifiers and texts are \<open>string\<close>; instants are integers (microseconds);
  doubles are exact rationals; JSON documents are the datatype \<open>json\<close>, and what a row stores
  as JSON text is stored both as the value and as its document. SHA-256, UUIDs, the clock,
  \<open>isoformat\<close>, time zones and Pydantic's \<open>model_dump\<close> are fields of \<open>platform\<close>. Random
  identifiers are not assumed distinct: a clash with a key raises the error the database
  raises. \<open>collect_evidence\<close> stands for the numerical stages of \<open>analyze_five_quantity\<close>; no law
  about it is assumed anywhere.

  \<^bold>\<open>Termination and bounds.\<close> The recursive ancestor query is a \<open>partial_function\<close> and is proved to
  return on every reachable ledger; the loop of the descendant test terminates by the
  measure of unvisited submissions, as in the code. All other definitions are total. Python
  and SQLite integers are unbounded in the model, except that the counts of
  \<open>record_authentication_failure_evidence\<close> are capped at \<open>2 ^ 63 - 1\<close> as the code caps them.

  The operations of the connector and of the agent are total; their loops run over finite lists.
  Times are rationals. The handler of an event is a sequence of at most seven transactions.

  \<^bold>\<open>Not modelled.\<close> Schema creation and migration, SQLite catalogue checks, database faults and
  file permissions, HTTP layers, signatures and key handling, the numerical engines, the
  connector's adapters and \<open>normalize.py\<close> (decimal arithmetic), the command lines, and of the
  enterprise agent the parsing of files, manual imports, corrections, the sender of queued
  messages, chat and the older draft store. Texts of error messages are abbreviated where no
  code reads them. Of the casework the algorithm features, detector findings, model snapshots,
  alert episodes, legitimate scenarios and external submissions are left out. Left for the
  future: the exchange lineage of \<open>exchange_v2.py\<close> and the edge store of the platform.
\<close>

end
